(* ===== verification/Voip_Prelude.thy ===== *)
theory Voip_Prelude
  imports Complex_Main "HOL-Library.Char_ord" "HOL-Library.List_Lexorder"
    "HOL-Library.Multiset"
begin

text \<open>
  Shared vocabulary of the development.
  \<^item> Results of code that can throw or run into undefined behaviour: \<open>exc\<close> for functions that
    return a value, \<open>outcome\<close> for methods that mutate the state and may throw half way (the
    mutations made before the throw stay), with \<open>run_steps\<close> for a sequence of statements.
  \<^item> The parts of the C and C++ library the sources use: \<open>atoll\<close>, \<open>atoi\<close>, \<open>sprintf "%lld"\<close>,
    \<open>strstr\<close>, \<open>lower_bound\<close>/\<open>upper_bound\<close>/\<open>equal_range\<close> on a vector, \<open>sort\<close>.
  \<^item> The longest-prefix loop that the prefix tables repeat.
  \<^item> Generic lemmas on these, collected in \<open>range_simps\<close> and \<open>outcome_simps\<close>.
  A \<open>char\<close> array is a \<open>string\<close> (its contents before the terminating NUL), an \<open>int\<close>, a
  \<open>long long\<close> and a \<open>time_t\<close> are \<open>int\<close>, a \<open>double\<close> is a \<open>real\<close> (rounding, infinities and
  NaN are outside the model), a pointer that may be null is an \<open>option\<close>.
\<close>

named_theorems range_simps \<open>searches on ordered vectors rewritten to their specification\<close>
named_theorems outcome_simps \<open>running statements that may throw\<close>

section \<open>Results\<close>

text \<open>\<open>Val\<close> is a normal return, \<open>Exc\<close> a thrown exception with its message, \<open>Undef\<close> undefined
  behaviour (a null dereference or a buffer overrun).\<close>

datatype 'a exc = Val 'a | Exc string | Undef

fun bind_exc :: "'a exc \<Rightarrow> ('a \<Rightarrow> 'b exc) \<Rightarrow> 'b exc" where
  "bind_exc (Val a) f = f a"
| "bind_exc (Exc e) f = Exc e"
| "bind_exc Undef f = Undef"

lemma bind_exc_Val_iff [simp]:
  "bind_exc m f = Val b \<longleftrightarrow> (\<exists>a. m = Val a \<and> f a = Val b)"
  by (cases m) auto

text \<open>Depth-first evaluation of a loop body with an early return: the first element for which
  the body answers \<open>Val True\<close> ends the loop.\<close>

fun any_exc :: "('a \<Rightarrow> bool exc) \<Rightarrow> 'a list \<Rightarrow> bool exc" where
  "any_exc p [] = Val False"
| "any_exc p (x # xs) = bind_exc (p x) (\<lambda>b. if b then Val True else any_exc p xs)"

lemma any_exc_Val: "any_exc (\<lambda>x. Val (p x)) xs = Val (\<exists>x \<in> set xs. p x)"
  by (induction xs) auto

lemma any_exc_cong:
  "(\<And>x. x \<in> set xs \<Longrightarrow> p x = q x) \<Longrightarrow> any_exc p xs = any_exc q xs"
  by (induction xs) (simp_all cong: if_cong)

lemma any_exc_True:
  "any_exc p xs = Val True \<Longrightarrow> \<exists>x \<in> set xs. p x = Val True"
  by (induction xs) (auto split: if_splits)

lemma any_exc_False:
  "any_exc p xs = Val False \<Longrightarrow> x \<in> set xs \<Longrightarrow> p x = Val False"
  by (induction xs) (auto split: if_splits)

text \<open>A loop that pushes back what its body answers, skipping the elements it continues over.\<close>

fun collect_exc :: "('a \<Rightarrow> 'b option exc) \<Rightarrow> 'a list \<Rightarrow> 'b list exc" where
  "collect_exc f [] = Val []"
| "collect_exc f (x # xs) =
     bind_exc (f x) (\<lambda>r. bind_exc (collect_exc f xs) (\<lambda>rs. Val (case r of None \<Rightarrow> rs | Some y \<Rightarrow> y # rs)))"

lemma collect_exc_mem:
  assumes "collect_exc f xs = Val ys" and "y \<in> set ys"
  shows "\<exists>x \<in> set xs. f x = Val (Some y)"
  using assms by (induction xs arbitrary: ys) (auto split: option.splits)

lemma collect_exc_complete:
  assumes "collect_exc f xs = Val ys" and "x \<in> set xs" and "f x = Val (Some y)"
  shows "y \<in> set ys"
  using assms by (induction xs arbitrary: ys) (auto split: option.splits)

text \<open>\<open>Next s\<close> is normal completion in state \<open>s\<close>; \<open>Stop e s\<close> is a throw that left the state
  \<open>s\<close> behind; \<open>Fault\<close> is undefined behaviour.\<close>

datatype 's outcome = Next 's | Stop string 's | Fault

fun and_then :: "'s outcome \<Rightarrow> ('s \<Rightarrow> 's outcome) \<Rightarrow> 's outcome" where
  "and_then (Next s) f = f s"
| "and_then (Stop e s) f = Stop e s"
| "and_then Fault f = Fault"

fun run_steps :: "('s \<Rightarrow> 's outcome) list \<Rightarrow> 's \<Rightarrow> 's outcome" where
  "run_steps [] s = Next s"
| "run_steps (f # fs) s = and_then (f s) (run_steps fs)"

text \<open>A \<open>try\<close> block that catches the exception and goes on: the state it left is kept.\<close>

fun catch_stop :: "'s outcome \<Rightarrow> 's outcome" where
  "catch_stop (Next s) = Next s"
| "catch_stop (Stop e s) = Next s"
| "catch_stop Fault = Fault"

lemma and_then_assoc [outcome_simps]:
  "and_then (and_then m f) g = and_then m (\<lambda>s. and_then (f s) g)"
  by (cases m) auto

lemma run_steps_append [outcome_simps]:
  "run_steps (fs @ gs) s = and_then (run_steps fs s) (run_steps gs)"
proof (induction fs arbitrary: s)
  case (Cons f fs)
  then have "run_steps (fs @ gs) = (\<lambda>s. and_then (run_steps fs s) (run_steps gs))" by auto
  then show ?case by (simp add: and_then_assoc)
qed simp

text \<open>\<open>keeps P m\<close>: whatever state the statement leaves behind, normally or by a throw,
  satisfies \<open>P\<close>.\<close>

fun keeps :: "('s \<Rightarrow> bool) \<Rightarrow> 's outcome \<Rightarrow> bool" where
  "keeps P (Next s) = P s"
| "keeps P (Stop e s) = P s"
| "keeps P Fault = True"

lemma keeps_and_then [intro]:
  assumes "keeps P m" and "\<And>s. m = Next s \<Longrightarrow> P s \<Longrightarrow> keeps P (f s)"
  shows "keeps P (and_then m f)"
  using assms by (cases m) auto

lemma keeps_run_steps:
  assumes "P s" and "\<And>f s. f \<in> set fs \<Longrightarrow> P s \<Longrightarrow> keeps P (f s)"
  shows "keeps P (run_steps fs s)"
  using assms by (induction fs arbitrary: s) (auto intro: keeps_and_then)

lemma keeps_mono: "keeps P m \<Longrightarrow> (\<And>s. P s \<Longrightarrow> Q s) \<Longrightarrow> keeps Q m"
  by (cases m) auto

lemma keeps_seq:
  assumes "keeps P m" and "\<And>s. P s \<Longrightarrow> Q s" and "\<And>s. P s \<Longrightarrow> keeps Q (f s)"
  shows "keeps Q (and_then m f)"
  using assms by (cases m) auto

lemma keeps_catch_stop [simp]: "keeps P (catch_stop m) = keeps P m"
  by (cases m) auto

section \<open>Strings and numbers\<close>

definition digit_char :: "nat \<Rightarrow> char" where
  "digit_char d = ''0123456789'' ! (d mod 10)"

fun dec_digits :: "nat \<Rightarrow> string" where
  "dec_digits n = (if n < 10 then [digit_char n]
                   else dec_digits (n div 10) @ [digit_char (n mod 10)])"

declare dec_digits.simps [simp del]

text \<open>\<open>sprintf(buf, "%lld", n)\<close>\<close>

definition lld :: "int \<Rightarrow> string" where
  "lld n = (if n < 0 then CHR ''-'' # dec_digits (nat (- n)) else dec_digits (nat n))"

definition is_digit :: "char \<Rightarrow> bool" where
  "is_digit c \<longleftrightarrow> c \<in> set ''0123456789''"

definition digit_val :: "char \<Rightarrow> nat" where
  "digit_val c = of_char c - 48"

definition is_space :: "char \<Rightarrow> bool" where
  "is_space c \<longleftrightarrow> (of_char c :: nat) \<in> {9, 10, 11, 12, 13, 32}"

definition digits_value :: "string \<Rightarrow> nat" where
  "digits_value s = foldl (\<lambda>a c. a * 10 + digit_val c) 0 s"

text \<open>\<open>strtoll(s, 0, 10)\<close>: leading white space, an optional sign, the longest run of digits; the
  result saturates at the ends of \<open>long long\<close>. \<open>atoll\<close> and \<open>atoi\<close> are this, the latter cut
  to 32 bits.\<close>

definition clamp64 :: "int \<Rightarrow> int" where
  "clamp64 i = max (- (2 ^ 63)) (min (2 ^ 63 - 1) i)"

definition wrap32 :: "int \<Rightarrow> int" where
  "wrap32 i = (i + 2 ^ 31) mod 2 ^ 32 - 2 ^ 31"

definition atoll :: "string \<Rightarrow> int" where
  "atoll s = (let t = dropWhile is_space s in
     case t of
       [] \<Rightarrow> 0
     | c # cs \<Rightarrow>
         if c = CHR ''-'' then clamp64 (- int (digits_value (takeWhile is_digit cs)))
         else if c = CHR ''+'' then clamp64 (int (digits_value (takeWhile is_digit cs)))
         else clamp64 (int (digits_value (takeWhile is_digit t))))"

definition atoi :: "string \<Rightarrow> int" where
  "atoi s = wrap32 (atoll s)"

text \<open>\<open>strstr\<close>: the text from the first occurrence on.\<close>

fun strstr :: "string \<Rightarrow> string \<Rightarrow> string option" where
  "strstr s pat =
     (if take (length pat) s = pat then Some s
      else (case s of [] \<Rightarrow> None | _ # t \<Rightarrow> strstr t pat))"

declare strstr.simps [simp del]

text \<open>\<open>strncpy(dst, src, n)\<close> into a zeroed buffer of more than \<open>n\<close> bytes.\<close>

definition strncpy :: "string \<Rightarrow> nat \<Rightarrow> string" where
  "strncpy s n = take n s"

text \<open>\<open>boost::split(out, s, is_any_of(","))\<close>: the fields between commas.\<close>

fun split_commas :: "string \<Rightarrow> string list" where
  "split_commas [] = [[]]"
| "split_commas (c # cs) =
     (if c = CHR '','' then [] # split_commas cs
      else (case split_commas cs of [] \<Rightarrow> [[c]] | f # fs \<Rightarrow> (c # f) # fs))"

text \<open>A PostgreSQL array literal \<open>{1,2,3}\<close>: drop the braces, split, keep the positive numbers.
  \<open>substr(1, size - 2)\<close> throws \<open>std::out_of_range\<close> on the empty string.\<close>

definition pg_int_array :: "string \<Rightarrow> int list exc" where
  "pg_int_array s =
     (if s = [] then Exc ''out_of_range''
      else Val (filter (\<lambda>i. i > 0) (map atoi (split_commas
             (if length s = 1 then [] else take (length s - 2) (tl s))))))"

subsection \<open>Printing and reading numbers\<close>

lemma digit_char_is_digit [simp]: "is_digit (digit_char d)"
proof -
  have "d mod 10 < length ''0123456789''" by simp
  then show ?thesis unfolding is_digit_def digit_char_def by (rule nth_mem)
qed

lemma digit_val_digit_char [simp]: "digit_val (digit_char d) = d mod 10"
proof -
  have "d mod 10 \<in> {0, 1, 2, 3, 4, 5, 6, 7, 8, 9}" by (simp, presburger)
  then show ?thesis unfolding digit_val_def digit_char_def by auto
qed

lemma dec_digits_nonempty [simp]: "dec_digits n \<noteq> []"
  by (subst dec_digits.simps) simp

lemma dec_digits_all_digits: "c \<in> set (dec_digits n) \<Longrightarrow> is_digit c"
proof (induction n rule: dec_digits.induct)
  case (1 n)
  from "1.prems" "1.IH" show ?case
    by (subst (asm) dec_digits.simps) (auto split: if_splits)
qed

lemma digits_value_dec_digits [simp]: "digits_value (dec_digits n) = n"
proof (induction n rule: dec_digits.induct)
  case (1 n)
  show ?case
  proof (cases "n < 10")
    case True
    then show ?thesis by (subst dec_digits.simps) (simp add: digits_value_def)
  next
    case False
    with "1.IH" have "digits_value (dec_digits (n div 10)) = n div 10" by simp
    with False show ?thesis
      by (subst dec_digits.simps) (simp add: digits_value_def)
  qed
qed

lemma digit_not_sign [simp]:
  "is_digit c \<Longrightarrow> c \<noteq> CHR ''-''" "is_digit c \<Longrightarrow> c \<noteq> CHR ''+''" "is_digit c \<Longrightarrow> \<not> is_space c"
  by (auto simp: is_digit_def is_space_def)

lemma minus_not_space [simp]: "\<not> is_space (CHR ''-'')"
  by (simp add: is_space_def)

lemma takeWhile_is_digit_dec_digits [simp]:
  "takeWhile is_digit (dec_digits n) = dec_digits n"
  by (simp add: takeWhile_eq_all_conv dec_digits_all_digits)

lemma hd_dec_digits: "is_digit (hd (dec_digits n))"
  by (rule dec_digits_all_digits) (rule hd_in_set, simp)

text \<open>Printing a number of 64 bits and reading it back.\<close>

lemma atoll_lld:
  assumes "- (2 ^ 63) \<le> n" and "n < 2 ^ 63"
  shows "atoll (lld n) = n"
proof (cases "n < 0")
  case True
  with assms show ?thesis
    by (simp add: atoll_def lld_def clamp64_def)
next
  case False
  obtain c cs where d: "dec_digits (nat n) = c # cs"
    by (cases "dec_digits (nat n)") simp_all
  have c: "is_digit c" using hd_dec_digits [of "nat n"] by (simp add: d)
  have tw: "takeWhile is_digit (c # cs) = c # cs"
    using takeWhile_is_digit_dec_digits [of "nat n"] unfolding d .
  have v: "digits_value (c # cs) = nat n"
    using digits_value_dec_digits [of "nat n"] unfolding d .
  from c False assms show ?thesis
    by (simp add: atoll_def lld_def d tw v clamp64_def del: takeWhile.simps)
qed

lemma atoll_digits:
  assumes "\<forall>c \<in> set s. is_digit c"
  shows "atoll s = clamp64 (int (digits_value s))"
proof (cases s)
  case (Cons c cs)
  have tw: "takeWhile is_digit (c # cs) = c # cs" using assms unfolding takeWhile_eq_all_conv Cons .
  have "is_digit c" using assms Cons by simp
  with Cons show ?thesis by (simp add: atoll_def tw del: takeWhile.simps)
qed (simp add: atoll_def digits_value_def clamp64_def)

lemma digits_value_snoc: "digits_value (s @ [c]) = digits_value s * 10 + digit_val c"
  by (simp add: digits_value_def)

lemma digits_value_append: "digits_value (s @ t) = digits_value s * 10 ^ length t + digits_value t"
proof (induction t rule: rev_induct)
  case (snoc c t)
  have "digits_value (s @ t @ [c]) = digits_value (s @ t) * 10 + digit_val c"
    using digits_value_snoc [of "s @ t" c] by simp
  with snoc show ?case by (simp add: digits_value_snoc algebra_simps)
qed (simp add: digits_value_def)

lemma take_dec_digits:
  assumes "0 < k" and "k \<le> length (dec_digits n)"
  shows "take k (dec_digits n) = dec_digits (n div 10 ^ (length (dec_digits n) - k))"
  using assms
proof (induction n rule: dec_digits.induct)
  case (1 n)
  show ?case
  proof (cases "k = length (dec_digits n)")
    case False
    then have big: "\<not> n < 10" using "1.prems" by (auto simp: dec_digits.simps [of n])
    have d: "dec_digits n = dec_digits (n div 10) @ [digit_char (n mod 10)]"
      using big by (subst dec_digits.simps) simp
    have k: "k \<le> length (dec_digits (n div 10))" using False "1.prems"(2) by (simp add: d)
    have "take k (dec_digits (n div 10)) = dec_digits (n div 10 div 10 ^ (length (dec_digits (n div 10)) - k))"
      using "1.IH" [OF big "1.prems"(1) k] .
    moreover have "length (dec_digits n) - k = Suc (length (dec_digits (n div 10)) - k)" using k by (simp add: d)
    ultimately show ?thesis using k by (simp add: d div_mult2_eq)
  qed simp
qed

text \<open>Finding a mark behind text that has none of its characters.\<close>

lemma strstr_None:
  assumes "pat \<noteq> []" and "hd pat \<notin> set s"
  shows "strstr s pat = None"
  using assms(2)
proof (induction s)
  case (Cons c s)
  then have "take (length pat) (c # s) \<noteq> pat" using assms(1) by (cases pat) auto
  with Cons show ?case by (subst strstr.simps) simp
qed (use assms(1) in \<open>simp add: strstr.simps [of "[]"]\<close>)

lemma strstr_after:
  assumes "pat \<noteq> []" and "hd pat \<notin> set d"
  shows "strstr (d @ pat @ t) pat = Some (pat @ t)"
  using assms(2)
proof (induction d)
  case (Cons c d)
  then have "take (length pat) (c # d @ pat @ t) \<noteq> pat" using assms(1) by (cases pat) auto
  with Cons show ?case by (subst strstr.simps) simp
qed (subst strstr.simps, simp)

lemma lld_no_mark: "0 \<le> n \<Longrightarrow> c \<in> set (lld n) \<Longrightarrow> is_digit c"
  by (simp add: lld_def dec_digits_all_digits)

lemma digit_val_le: "is_digit c \<Longrightarrow> digit_val c \<le> 9"
  unfolding is_digit_def digit_val_def by (simp, elim disjE) simp_all

lemma strstr_skip:
  assumes "pat \<noteq> []" and "hd pat \<notin> set d"
  shows "strstr (d @ t) pat = strstr t pat"
  using assms(2)
proof (induction d)
  case (Cons c d)
  then have "take (length pat) (c # d @ t) \<noteq> pat" using assms(1) by (cases pat) auto
  with Cons show ?case by (subst strstr.simps) simp
qed simp

section \<open>Searching an ordered vector\<close>

text \<open>\<open>std::lower_bound\<close> as libstdc++ writes it: \<open>p x\<close> stands for \<open>comp(x, value)\<close>. The first
  argument of the loop is the vector, then \<open>first\<close> and \<open>len\<close>.\<close>

function bound_loop :: "('a \<Rightarrow> bool) \<Rightarrow> 'a list \<Rightarrow> nat \<Rightarrow> nat \<Rightarrow> nat" where
  "bound_loop p xs first len =
     (if len = 0 then first
      else let half = len div 2; mid = first + half in
           if p (xs ! mid) then bound_loop p xs (mid + 1) (len - half - 1)
           else bound_loop p xs first half)"
  by pat_completeness auto
termination
  by (relation "measure (\<lambda>(p, xs, first, len). len)") auto

declare bound_loop.simps [simp del]

definition partition_point :: "('a \<Rightarrow> bool) \<Rightarrow> 'a list \<Rightarrow> nat" where
  "partition_point p xs = bound_loop p xs 0 (length xs)"

text \<open>\<open>equal_range(begin, end, key, comp)\<close>, returning the sub-vector it delimits: \<open>lt x\<close> is
  \<open>comp(x, key)\<close> and \<open>gt x\<close> is \<open>comp(key, x)\<close>.\<close>

definition equal_range_by :: "('a \<Rightarrow> bool) \<Rightarrow> ('a \<Rightarrow> bool) \<Rightarrow> 'a list \<Rightarrow> 'a list" where
  "equal_range_by lt gt xs =
     (let b = partition_point lt xs; e = partition_point (\<lambda>x. \<not> gt x) xs
      in take (e - b) (drop b xs))"

definition equal_range :: "('a \<Rightarrow> 'k::linorder) \<Rightarrow> 'k \<Rightarrow> 'a list \<Rightarrow> 'a list" where
  "equal_range key k xs = equal_range_by (\<lambda>x. key x < k) (\<lambda>x. k < key x) xs"

text \<open>\<open>end = upper_bound(begin, end, key, comp)\<close>: the part of the vector up to the bound.\<close>

definition upto_bound :: "('a \<Rightarrow> 'k::linorder) \<Rightarrow> 'k \<Rightarrow> 'a list \<Rightarrow> 'a list" where
  "upto_bound key k xs = take (partition_point (\<lambda>x. \<not> k < key x) xs) xs"

text \<open>\<open>begin < end ? &*begin : nullptr\<close>\<close>

definition first_of :: "'a list \<Rightarrow> 'a option" where
  "first_of xs = (case xs of [] \<Rightarrow> None | x # _ \<Rightarrow> Some x)"

lemma first_of_simps [simp]: "first_of [] = None" "first_of (x # xs) = Some x"
  by (simp_all add: first_of_def)

lemma first_of_Some_iff: "first_of xs = Some x \<longleftrightarrow> (\<exists>ys. xs = x # ys)"
  by (cases xs) auto

lemma first_of_mem: "first_of xs = Some x \<Longrightarrow> x \<in> set xs"
  by (cases xs) auto

lemma first_of_None_iff [simp]: "first_of xs = None \<longleftrightarrow> xs = []"
  by (cases xs) auto

lemma first_of_filter [range_simps]: "first_of (filter p xs) = List.find p xs"
  by (induction xs) auto

text \<open>The standard's precondition of these searches: the elements with \<open>p\<close> come first.\<close>

definition partitioned :: "('a \<Rightarrow> bool) \<Rightarrow> 'a list \<Rightarrow> bool" where
  "partitioned p xs \<longleftrightarrow> sorted_wrt (\<lambda>x y. p y \<longrightarrow> p x) xs"

lemma partitioned_nth:
  "partitioned p xs \<Longrightarrow> i \<le> j \<Longrightarrow> j < length xs \<Longrightarrow> p (xs ! j) \<Longrightarrow> p (xs ! i)"
  unfolding partitioned_def sorted_wrt_iff_nth_less by (metis le_neq_implies_less)

lemma partitioned_filter: "partitioned p xs \<Longrightarrow> takeWhile p xs = filter p xs"
  by (induction xs) (auto simp: partitioned_def filter_empty_conv)

lemma partitioned_filter_neg:
  "partitioned p xs \<Longrightarrow> dropWhile p xs = filter (\<lambda>x. \<not> p x) xs"
  by (induction xs) (auto simp: partitioned_def intro: filter_True [symmetric])

lemma bound_loop_bounds:
  "first \<le> bound_loop p xs first len \<and> bound_loop p xs first len \<le> first + len"
proof (induction p xs first len rule: bound_loop.induct)
  case (1 p xs first len)
  show ?case
  proof (cases "len = 0")
    case False
    then have half: "len div 2 < len" by simp
    show ?thesis
    proof (cases "p (xs ! (first + len div 2))")
      case True
      then have "bound_loop p xs first len =
          bound_loop p xs (first + len div 2 + 1) (len - len div 2 - 1)"
        using False by (subst bound_loop.simps) (simp add: Let_def)
      with "1.IH"(1) [OF False refl refl True] half show ?thesis by simp
    next
      case False2: False
      then have "bound_loop p xs first len = bound_loop p xs first (len div 2)"
        using False by (subst bound_loop.simps) (simp add: Let_def)
      with "1.IH"(2) [OF False refl refl False2] half show ?thesis by simp
    qed
  qed (simp add: bound_loop.simps)
qed

lemma bound_loop_correct:
  assumes "partitioned p xs" and "first + len \<le> length xs"
  shows "\<forall>i. first \<le> i \<and> i < first + len \<longrightarrow> (p (xs ! i) \<longleftrightarrow> i < bound_loop p xs first len)"
  using assms
proof (induction p xs first len rule: bound_loop.induct)
  case (1 p xs first len)
  define half where "half = len div 2"
  define mid where "mid = first + half"
  show ?case
  proof (cases "len = 0")
    case True
    then show ?thesis by auto
  next
    case False
    then have half: "half < len" by (simp add: half_def)
    show ?thesis
    proof (cases "p (xs ! mid)")
      case True
      define r where "r = bound_loop p xs (mid + 1) (len - half - 1)"
      have eq: "bound_loop p xs first len = r"
        using False True by (subst bound_loop.simps) (simp add: half_def mid_def r_def Let_def)
      have IH: "\<forall>i. mid + 1 \<le> i \<and> i < mid + 1 + (len - half - 1) \<longrightarrow> (p (xs ! i) \<longleftrightarrow> i < r)"
        using "1.IH"(1) [OF False half_def mid_def] True "1.prems" half
        by (simp add: r_def mid_def)
      have low: "p (xs ! i) \<and> i < r" if "i \<le> mid" for i
        using that partitioned_nth [OF "1.prems"(1), of i mid] True half "1.prems"(2)
          bound_loop_bounds [of "mid + 1" p xs "len - half - 1"]
        by (auto simp: r_def mid_def)
      have high: "p (xs ! i) \<longleftrightarrow> i < r" if "mid < i" and "i < first + len" for i
        using IH that half by (simp add: mid_def)
      show ?thesis unfolding eq
      proof (intro allI impI, elim conjE)
        fix i assume i: "i < first + len"
        show "p (xs ! i) \<longleftrightarrow> i < r"
          using low [of i] high [OF _ i] by (cases "i \<le> mid") simp_all
      qed
    next
      case False2: False
      define r where "r = bound_loop p xs first half"
      have eq: "bound_loop p xs first len = r"
        using False False2 by (subst bound_loop.simps) (simp add: half_def mid_def r_def Let_def)
      have IH: "\<forall>i. first \<le> i \<and> i < first + half \<longrightarrow> (p (xs ! i) \<longleftrightarrow> i < r)"
        using "1.IH"(2) [OF False half_def mid_def] False2 "1.prems" half
        by (simp add: r_def)
      have high: "\<not> p (xs ! i) \<and> \<not> i < r" if "mid \<le> i" and "i < first + len" for i
        using that partitioned_nth [OF "1.prems"(1), of mid i] False2 "1.prems"(2)
          bound_loop_bounds [of first p xs half]
        by (auto simp: r_def mid_def)
      show ?thesis unfolding eq
        using IH high by (metis linorder_not_less mid_def)
    qed
  qed
qed

lemma partition_point_le: "partition_point p xs \<le> length xs"
  using bound_loop_bounds [of 0 p xs "length xs"] by (simp add: partition_point_def)

text \<open>On a partitioned vector the binary search finds the length of the leading run.\<close>

lemma partition_point_eq [range_simps]:
  assumes "partitioned p xs"
  shows "partition_point p xs = length (takeWhile p xs)"
proof -
  define n where "n = partition_point p xs"
  have n: "n \<le> length xs" by (simp add: n_def partition_point_le)
  have iff: "\<forall>i < length xs. p (xs ! i) \<longleftrightarrow> i < n"
    using bound_loop_correct [OF assms, of 0 "length xs"]
    by (simp add: n_def partition_point_def)
  have "takeWhile p xs = take n xs"
    by (rule takeWhile_eq_take_P_nth) (use iff in auto)
  with n show ?thesis by (simp add: n_def)
qed

lemma equal_range_by_filter [range_simps]:
  assumes lt: "partitioned lt xs" and gt: "partitioned (\<lambda>x. \<not> gt x) xs"
    and disj: "\<And>x. x \<in> set xs \<Longrightarrow> lt x \<Longrightarrow> \<not> gt x"
  shows "equal_range_by lt gt xs = filter (\<lambda>x. \<not> lt x \<and> \<not> gt x) xs"
proof -
  define b where "b = length (takeWhile lt xs)"
  define e where "e = length (takeWhile (\<lambda>x. \<not> gt x) xs)"
  have "equal_range_by lt gt xs = drop b (take e xs)"
    by (simp add: equal_range_by_def Let_def partition_point_eq lt gt b_def e_def drop_take)
  also have "take e xs = filter (\<lambda>x. \<not> gt x) xs"
    by (metis e_def gt partitioned_filter takeWhile_eq_take)
  also have "drop b (filter (\<lambda>x. \<not> gt x) xs) = filter (\<lambda>x. \<not> lt x \<and> \<not> gt x) xs"
  proof -
    have pl: "partitioned lt (filter (\<lambda>x. \<not> gt x) xs)"
      using lt by (simp add: partitioned_def sorted_wrt_filter)
    have "filter lt (filter (\<lambda>x. \<not> gt x) xs) = filter lt xs"
      using disj by (auto intro: filter_cong)
    then have "b = length (takeWhile lt (filter (\<lambda>x. \<not> gt x) xs))"
      by (simp add: b_def partitioned_filter lt pl)
    then have "drop b (filter (\<lambda>x. \<not> gt x) xs) = dropWhile lt (filter (\<lambda>x. \<not> gt x) xs)"
      by (simp add: dropWhile_eq_drop)
    also have "\<dots> = filter (\<lambda>x. \<not> lt x) (filter (\<lambda>x. \<not> gt x) xs)"
      by (rule partitioned_filter_neg [OF pl])
    finally show ?thesis by (simp add: conj_commute)
  qed
  finally show ?thesis .
qed

text \<open>On a vector ordered by the key, \<open>equal_range\<close> is the selection of the key, in order.\<close>

lemma sorted_partitioned:
  assumes "sorted (map key xs)"
  shows "partitioned (\<lambda>x. key x < k) xs" and "partitioned (\<lambda>x. \<not> k < key x) xs"
  using assms unfolding partitioned_def sorted_map
  by (auto elim!: sorted_wrt_mono_rel [rotated])

lemma equal_range_filter [range_simps]:
  assumes "sorted (map key xs)"
  shows "equal_range key k xs = filter (\<lambda>x. key x = k) xs"
proof -
  have "equal_range key k xs = filter (\<lambda>x. \<not> key x < k \<and> \<not> k < key x) xs"
    unfolding equal_range_def
    by (rule equal_range_by_filter) (auto simp: sorted_partitioned [OF assms])
  moreover have "(\<not> key x < k \<and> \<not> k < key x) = (key x = k)" for x by auto
  ultimately show ?thesis by simp
qed

lemma upto_bound_filter [range_simps]:
  assumes "sorted (map key xs)"
  shows "upto_bound key k xs = filter (\<lambda>x. key x \<le> k) xs"
proof -
  have p: "partitioned (\<lambda>x. \<not> k < key x) xs" by (rule sorted_partitioned [OF assms])
  then have "upto_bound key k xs = takeWhile (\<lambda>x. \<not> k < key x) xs"
    by (metis upto_bound_def partition_point_eq takeWhile_eq_take)
  then show ?thesis using partitioned_filter [OF p] by (simp add: not_less)
qed

lemma equal_range_by_subset: "set (equal_range_by lt gt xs) \<subseteq> set xs"
  unfolding equal_range_by_def Let_def using set_take_subset set_drop_subset by fastforce

lemma equal_range_subset: "set (equal_range key k xs) \<subseteq> set xs"
  by (simp add: equal_range_def equal_range_by_subset)

text \<open>A vector ordered by two keys lexicographically: narrowing by the first key leaves a vector
  ordered by the second.\<close>

definition sorted_by2 :: "('a \<Rightarrow> 'k::linorder) \<Rightarrow> ('a \<Rightarrow> 'l::linorder) \<Rightarrow> 'a list \<Rightarrow> bool" where
  "sorted_by2 f g xs \<longleftrightarrow>
     sorted_wrt (\<lambda>x y. f x < f y \<or> (f x = f y \<and> g x \<le> g y)) xs"

lemma sorted_by2_fst: "sorted_by2 f g xs \<Longrightarrow> sorted (map f xs)"
  unfolding sorted_by2_def sorted_map by (erule sorted_wrt_mono_rel [rotated]) auto

lemma sorted_by2_snd:
  assumes "sorted_by2 f g xs"
  shows "sorted (map g (filter (\<lambda>x. f x = k) xs))"
proof -
  have "sorted_wrt (\<lambda>x y. f x < f y \<or> (f x = f y \<and> g x \<le> g y)) (filter (\<lambda>x. f x = k) xs)"
    using assms by (simp add: sorted_by2_def sorted_wrt_filter)
  then show ?thesis unfolding sorted_map
    by (rule sorted_wrt_mono_rel [rotated]) auto
qed

section \<open>Longest prefix match\<close>

text \<open>The loop that the prefix tables share: cut the key to \<open>len\<close> characters, look it up, and
  shorten it by one until something is found.\<close>

fun prefix_loop :: "(string \<Rightarrow> 'a option) \<Rightarrow> string \<Rightarrow> nat \<Rightarrow> 'a option" where
  "prefix_loop f s 0 = None"
| "prefix_loop f s (Suc n) =
     (case f (take (Suc n) s) of Some r \<Rightarrow> Some r | None \<Rightarrow> prefix_loop f s n)"

definition longest_prefix :: "(string \<Rightarrow> 'a option) \<Rightarrow> string \<Rightarrow> 'a option" where
  "longest_prefix f s = prefix_loop f s (length s)"

lemma prefix_loop_Some:
  "prefix_loop f s n = Some r \<Longrightarrow>
     \<exists>k. 0 < k \<and> k \<le> n \<and> f (take k s) = Some r \<and> (\<forall>j. k < j \<and> j \<le> n \<longrightarrow> f (take j s) = None)"
proof (induction n)
  case 0
  then show ?case by simp
next
  case (Suc n)
  show ?case
  proof (cases "f (take (Suc n) s)")
    case (Some q)
    with Suc.prems have "r = q" by simp
    with Some show ?thesis by (intro exI [of _ "Suc n"]) auto
  next
    case None
    with Suc.prems have "prefix_loop f s n = Some r" by simp
    from Suc.IH [OF this] obtain k where k: "0 < k" "k \<le> n" "f (take k s) = Some r"
      and above: "\<forall>j. k < j \<and> j \<le> n \<longrightarrow> f (take j s) = None" by blast
    have "f (take j s) = None" if "k < j" "j \<le> Suc n" for j
      using that above None by (cases "j = Suc n") auto
    with k show ?thesis by (intro exI [of _ k]) auto
  qed
qed

lemma prefix_loop_None:
  "prefix_loop f s n = None \<longleftrightarrow> (\<forall>k. 0 < k \<and> k \<le> n \<longrightarrow> f (take k s) = None)"
  by (induction n) (auto simp: le_Suc_eq split: option.splits)

text \<open>What a prefix table promises: the table maps a number to the row of its longest listed
  prefix.\<close>

locale prefix_table =
  fixes lookup :: "'t \<Rightarrow> string \<Rightarrow> 'a option"
    and find :: "'t \<Rightarrow> string \<Rightarrow> 'a option"
  assumes find_loop: "find t s = longest_prefix (lookup t) s"
begin

lemma find_longest:
  assumes "find t s = Some r"
  shows "\<exists>k. 0 < k \<and> k \<le> length s \<and> lookup t (take k s) = Some r \<and>
             (\<forall>j. k < j \<and> j \<le> length s \<longrightarrow> lookup t (take j s) = None)"
  using assms prefix_loop_Some [of "lookup t" s "length s" r]
  unfolding find_loop longest_prefix_def by blast

lemma find_None_iff:
  "find t s = None \<longleftrightarrow> (\<forall>k. 0 < k \<and> k \<le> length s \<longrightarrow> lookup t (take k s) = None)"
  by (simp add: find_loop longest_prefix_def prefix_loop_None)

lemma find_complete:
  assumes "0 < k" and "k \<le> length s" and "lookup t (take k s) = Some q"
  shows "\<exists>r. find t s = Some r"
  using assms find_None_iff [of t s] by (cases "find t s") auto

end

section \<open>Sorting\<close>

text \<open>\<open>std::sort\<close> as the insertion sort libstdc++ runs on short vectors (up to 16 elements), and
  \<open>std::stable_sort\<close>: each element is moved back past the elements it precedes.\<close>

fun insert_by :: "('a \<Rightarrow> 'a \<Rightarrow> bool) \<Rightarrow> 'a \<Rightarrow> 'a list \<Rightarrow> 'a list" where
  "insert_by lt x [] = [x]"
| "insert_by lt x (y # ys) = (if lt y x then y # insert_by lt x ys else x # y # ys)"

definition std_sort :: "('a \<Rightarrow> 'a \<Rightarrow> bool) \<Rightarrow> 'a list \<Rightarrow> 'a list" where
  "std_sort lt xs = foldr (insert_by lt) xs []"

lemma set_insert_by [simp]: "set (insert_by lt x ys) = insert x (set ys)"
  by (induction ys) auto

lemma mset_insert_by [simp]: "mset (insert_by lt x ys) = add_mset x (mset ys)"
  by (induction ys) auto

lemma mset_std_sort [simp]: "mset (std_sort lt xs) = mset xs"
  by (induction xs) (auto simp: std_sort_def)

lemma set_std_sort [simp]: "set (std_sort lt xs) = set xs"
  by (metis mset_std_sort set_mset_mset)

lemma length_std_sort [simp]: "length (std_sort lt xs) = length xs"
  by (metis mset_std_sort size_mset)

text \<open>What the comparators promise: a strict weak ordering, given by a measure. Sorting with it
  leaves no inversion.\<close>

locale weak_order =
  fixes lt :: "'a \<Rightarrow> 'a \<Rightarrow> bool"
  assumes irrefl: "\<not> lt x x"
    and trans: "lt x y \<Longrightarrow> lt y z \<Longrightarrow> lt x z"
    and cotrans: "lt x z \<Longrightarrow> lt x y \<or> lt y z"
begin

lemma asym: "lt x y \<Longrightarrow> \<not> lt y x"
  using irrefl trans by blast

lemma not_less_trans: "\<not> lt y x \<Longrightarrow> \<not> lt z y \<Longrightarrow> \<not> lt z x"
  using cotrans by blast

lemma insert_by_sorted:
  "sorted_wrt (\<lambda>x y. \<not> lt y x) ys \<Longrightarrow> sorted_wrt (\<lambda>x y. \<not> lt y x) (insert_by lt x ys)"
proof (induction ys)
  case (Cons y ys)
  show ?case
  proof (cases "lt y x")
    case True
    with Cons show ?thesis by (auto dest: asym)
  next
    case False
    have "\<not> lt z x" if "z \<in> set ys" for z
      using that Cons.prems False not_less_trans [of y x z] by auto
    with False Cons.prems show ?thesis by auto
  qed
qed simp

lemma std_sort_sorted: "sorted_wrt (\<lambda>x y. \<not> lt y x) (std_sort lt xs)"
  by (induction xs) (auto simp: std_sort_def insert_by_sorted)

text \<open>Equivalent elements keep their order.\<close>

lemma insert_by_stable:
  "filter (\<lambda>z. \<not> lt z y \<and> \<not> lt y z) (insert_by lt x ys)
     = filter (\<lambda>z. \<not> lt z y \<and> \<not> lt y z) (x # ys)"
proof (induction ys)
  case (Cons z ys)
  show ?case
  proof (cases "lt z x \<and> \<not> lt x y \<and> \<not> lt y x")
    case True
    then have "lt z y" using cotrans by blast
    with Cons True show ?thesis by simp
  next
    case False
    with Cons show ?thesis by auto
  qed
qed simp

lemma std_sort_stable:
  "filter (\<lambda>z. \<not> lt z y \<and> \<not> lt y z) (std_sort lt xs) = filter (\<lambda>z. \<not> lt z y \<and> \<not> lt y z) xs"
proof (induction xs)
  case (Cons x xs)
  then show ?case
    using insert_by_stable [of y x "std_sort lt xs"] by (simp add: std_sort_def)
qed (simp add: std_sort_def)

lemma std_sort_head_minimal:
  assumes "std_sort lt xs = y # ys" and "x \<in> set xs"
  shows "\<not> lt x y"
proof -
  have "sorted_wrt (\<lambda>x y. \<not> lt y x) (y # ys)"
    using std_sort_sorted [of xs] assms(1) by simp
  moreover have "x \<in> set (y # ys)" using assms by (metis set_std_sort)
  ultimately show ?thesis using irrefl by auto
qed

end

end
