(* ===== verification/Calendar.thy ===== *)
theory Calendar
  imports Voip_Prelude
begin

text \<open>
  The calendar functions of \<^verbatim>\<open>src/src-bill/common.cpp\<close>: the first second of the day and of the
  month of a time stamp, and the last ones, in a time zone given in hours. The lemmas show that
  day and month of a time stamp are intervals that contain it and that the functions are
  constant on these intervals, which is what the daily and monthly counters rely on.
\<close>

section \<open>Definitions\<close>

text \<open>\<open>gmtime_r\<close> and \<open>timegm\<close> on the proleptic Gregorian calendar, as far as the sources use
  them: days since 1970-01-01 to year, month and day, and back.\<close>

definition civil_of_days :: "int \<Rightarrow> int \<times> int \<times> int" where
  "civil_of_days days =
     (let z = days + 719468; era = z div 146097; doe = z mod 146097;
          yoe = (doe - doe div 1460 + doe div 36524 - doe div 146096) div 365;
          doy = doe - (365 * yoe + yoe div 4 - yoe div 100);
          mp = (5 * doy + 2) div 153;
          d = doy - (153 * mp + 2) div 5 + 1;
          m = (if mp < 10 then mp + 3 else mp - 9);
          y = yoe + era * 400
      in (if m \<le> 2 then y + 1 else y, m, d))"

definition days_of_civil :: "int \<Rightarrow> int \<Rightarrow> int \<Rightarrow> int" where
  "days_of_civil y0 m d =
     (let y = (if m \<le> 2 then y0 - 1 else y0); era = y div 400; yoe = y - era * 400;
          doy = (153 * (if m > 2 then m - 3 else m + 9) + 2) div 5 + d - 1;
          doe = yoe * 365 + yoe div 4 - yoe div 100 + doy
      in era * 146097 + doe - 719468)"

text \<open>\<open>timegm\<close> of a date at midnight.\<close>

definition timegm_date :: "int \<Rightarrow> int \<Rightarrow> int \<Rightarrow> int" where
  "timegm_date y m d = 86400 * days_of_civil y m d"

definition get_tday :: "int \<Rightarrow> int \<Rightarrow> int" where
  "get_tday timestamp timezone_offset =
     (let (y, m, d) = civil_of_days ((timestamp + 3600 * timezone_offset) div 86400)
      in timegm_date y m d - 3600 * timezone_offset)"

definition get_tday_end :: "int \<Rightarrow> int \<Rightarrow> int" where
  "get_tday_end timestamp timezone_offset = get_tday timestamp timezone_offset + 86399"

definition get_tmonth :: "int \<Rightarrow> int \<Rightarrow> int" where
  "get_tmonth timestamp timezone_offset =
     (let (y, m, d) = civil_of_days ((timestamp + 3600 * timezone_offset) div 86400)
      in timegm_date y m 1 - 3600 * timezone_offset)"

definition get_tmonth_end :: "int \<Rightarrow> int \<Rightarrow> int" where
  "get_tmonth_end timestamp timezone_offset =
     (let (y, m, d) = civil_of_days ((timestamp + 3600 * timezone_offset) div 86400);
          (y', m') = (if m = 12 then (y + 1, 1) else (y, m + 1))
      in timegm_date y' m' 1 - 1 - 3600 * timezone_offset)"


section \<open>Days and dates\<close>

lemma civil_yoe_bounds:
  fixes doe :: int
  assumes "0 \<le> doe" and "doe < 146097"
  defines "n \<equiv> doe - doe div 1460 + doe div 36524 - doe div 146096"
  shows "0 \<le> n div 365" and "n div 365 < 400"
proof -
  define a where "a = doe div 1460"
  define b where "b = doe div 36524"
  define c where "c = doe div 146096"
  have a: "1460 * a \<le> doe" "doe < 1460 * a + 1460" by (auto simp: a_def)
  have b: "36524 * b \<le> doe" "doe < 36524 * b + 36524" by (auto simp: b_def)
  have c: "146096 * c \<le> doe" "doe < 146096 * c + 146096" by (auto simp: c_def)
  have n: "n = doe - a + b - c" by (simp add: n_def a_def b_def c_def)
  have c01: "c = 0 \<or> c = 1" using c assms(1,2) by linarith
  have "0 \<le> n" using n a b c c01 assms(1,2) by linarith
  moreover have "n < 146000"
  proof (cases "doe = 146096")
    case True
    then show ?thesis by (simp add: n_def)
  next
    case False
    then have "b \<le> 3" and "c = 0" using b c c01 assms(2) by linarith+
    with n a assms(1,2) False show ?thesis by linarith
  qed
  ultimately show "0 \<le> n div 365" and "n div 365 < 400" by linarith+
qed

text \<open>The day of the year counted from March lies between 0 and 365.\<close>

lemma civil_doy_bounds:
  fixes doe :: int
  assumes "0 \<le> doe" and "doe < 146097"
  defines "yoe \<equiv> (doe - doe div 1460 + doe div 36524 - doe div 146096) div 365"
  shows "0 \<le> doe - (365 * yoe + yoe div 4 - yoe div 100)"
    and "doe - (365 * yoe + yoe div 4 - yoe div 100) < 366"
proof -
  define a where "a = doe div 1460"
  define b where "b = doe div 36524"
  define q where "q = yoe div 4"
  have "0 \<le> doe - (365 * yoe + yoe div 4 - yoe div 100) \<and>
        doe - (365 * yoe + yoe div 4 - yoe div 100) < 366"
  proof (cases "doe = 146096")
    case True
    then show ?thesis by (simp add: yoe_def)
  next
    case False
    with assms(1,2) have doe: "doe div 146096 = 0" by simp
    have a: "1460 * a \<le> doe" "doe < 1460 * a + 1460" by (auto simp: a_def)
    have b: "36524 * b \<le> doe" "doe < 36524 * b + 36524" by (auto simp: b_def)
    have b03: "b = 0 \<or> b = 1 \<or> b = 2 \<or> b = 3" using b assms(1,2) False by linarith
    define n where "n = doe - a + b"
    have yoe: "yoe = n div 365" by (simp add: yoe_def n_def doe a_def b_def)
    have n: "365 * yoe \<le> n" "n < 365 * yoe + 365" by (auto simp: yoe)
    have q: "4 * q \<le> yoe" "yoe < 4 * q + 4" by (auto simp: q_def)
    have "1460 * n \<ge> 1460 * 36500 * b - 100 \<and> n < 36500 * b + 36500"
      using a b b03 by (auto simp: n_def)
    then have cent: "36500 * b \<le> n" "n < 36500 * b + 36500" by linarith+
    with n have "365 * yoe < 36500 * b + 36500" by (rule_tac le_less_trans)
    then have "yoe < 100 * b + 100" by linarith
    moreover have "100 * b \<le> yoe" using cent n by linarith
    ultimately have r: "yoe div 100 = b" by linarith
    have "0 \<le> doe - 365 * yoe - q + b"
      using n a b q b03 assms(1) unfolding n_def by linarith
    moreover have "doe - 365 * yoe - q + b < 366"
      using n a b q b03 assms(2) unfolding n_def by linarith
    ultimately show ?thesis by (simp add: r q_def)
  qed
  then show "0 \<le> doe - (365 * yoe + yoe div 4 - yoe div 100)"
    and "doe - (365 * yoe + yoe div 4 - yoe div 100) < 366" by simp_all
qed

text \<open>Reading a day as a date and writing it back.\<close>

lemma days_of_civil_of_days:
  "(case civil_of_days days of (y, m, d) \<Rightarrow> days_of_civil y m d) = days"
proof -
  define z where "z = days + 719468"
  define era where "era = z div 146097"
  define doe where "doe = z mod 146097"
  define yoe where "yoe = (doe - doe div 1460 + doe div 36524 - doe div 146096) div 365"
  define doy where "doy = doe - (365 * yoe + yoe div 4 - yoe div 100)"
  define mp where "mp = (5 * doy + 2) div 153"
  define d where "d = doy - (153 * mp + 2) div 5 + 1"
  have doe: "0 \<le> doe" "doe < 146097" by (auto simp: doe_def)
  have yb: "0 \<le> yoe" "yoe < 400"
    unfolding yoe_def by (rule civil_yoe_bounds [OF doe])+
  have db: "0 \<le> doy" "doy < 366"
    unfolding doy_def yoe_def by (rule civil_doy_bounds [OF doe])+
  have mpb: "0 \<le> mp" "mp < 12" using db unfolding mp_def by linarith+
  have era: "(yoe + era * 400) div 400 = era" using yb by simp
  have z: "z = era * 146097 + doe" by (simp add: era_def doe_def)
  define m where "m = (if mp < 10 then mp + 3 else mp - 9)"
  have mback: "(if m > 2 then m - 3 else m + 9) = mp" using mpb by (simp add: m_def)
  define y where "y = (if m \<le> 2 then yoe + era * 400 + 1 else yoe + era * 400)"
  have yback: "(if m \<le> 2 then y - 1 else y) = yoe + era * 400" by (simp add: y_def)
  have civ: "civil_of_days days = (y, m, d)"
    unfolding civil_of_days_def Let_def y_def m_def d_def mp_def doy_def yoe_def era_def doe_def z_def
    by (rule refl)
  have "days_of_civil y m d = era * 146097 + (yoe * 365 + yoe div 4 - yoe div 100
      + ((153 * mp + 2) div 5 + d - 1)) - 719468"
    unfolding days_of_civil_def Let_def yback mback era by simp
  also have "\<dots> = days" using z by (simp add: d_def doy_def z_def)
  finally show ?thesis by (simp add: civ)
qed

lemma civil_of_days_ranges:
  assumes "civil_of_days days = (y, m, d)"
  shows "1 \<le> m" and "m \<le> 12" and "1 \<le> d" and "d \<le> 31"
proof -
  define z where "z = days + 719468"
  define doe where "doe = z mod 146097"
  define yoe where "yoe = (doe - doe div 1460 + doe div 36524 - doe div 146096) div 365"
  define doy where "doy = doe - (365 * yoe + yoe div 4 - yoe div 100)"
  define mp where "mp = (5 * doy + 2) div 153"
  have doe: "0 \<le> doe" "doe < 146097" by (auto simp: doe_def)
  have db: "0 \<le> doy" "doy < 366"
    unfolding doy_def yoe_def by (rule civil_doy_bounds [OF doe])+
  have mpb: "0 \<le> mp" "mp < 12" using db unfolding mp_def by linarith+
  have "snd (civil_of_days days)
      = (if mp < 10 then mp + 3 else mp - 9, doy - (153 * mp + 2) div 5 + 1)"
    unfolding civil_of_days_def Let_def snd_conv mp_def doy_def yoe_def doe_def z_def by (rule refl)
  then have m: "m = (if mp < 10 then mp + 3 else mp - 9)"
    and d: "d = doy - (153 * mp + 2) div 5 + 1"
    unfolding assms snd_conv prod.inject by (rule conjunct1, rule conjunct2)
  from m mpb show "1 \<le> m" and "m \<le> 12" by (simp_all split: if_splits)
  have mp: "153 * mp \<le> 5 * doy + 2" "5 * doy + 2 < 153 * mp + 153" by (auto simp: mp_def)
  show "1 \<le> d" and "d \<le> 31" using mp d by linarith+
qed

section \<open>The day of a time stamp\<close>

text \<open>\<open>get_tday\<close> rounds the local time down to a multiple of a day.\<close>

lemma get_tday_floor:
  "get_tday t off = 86400 * ((t + 3600 * off) div 86400) - 3600 * off"
  using days_of_civil_of_days [of "(t + 3600 * off) div 86400"]
  by (simp add: get_tday_def timegm_date_def split: prod.splits)

lemma get_tday_contains: "get_tday t off \<le> t" "t \<le> get_tday_end t off"
  unfolding get_tday_floor get_tday_end_def by linarith+

lemma get_tday_unique:
  assumes "get_tday t off \<le> u" and "u \<le> get_tday_end t off"
  shows "get_tday u off = get_tday t off"
proof -
  have "(u + 3600 * off) div 86400 = (t + 3600 * off) div 86400"
    using assms unfolding get_tday_floor get_tday_end_def by linarith
  then show ?thesis by (simp add: get_tday_floor)
qed

lemma get_tday_idem: "get_tday (get_tday t off) off = get_tday t off"
  by (rule get_tday_unique) (simp_all add: get_tday_end_def)

text \<open>Two different days start at least half a day apart: the counters' comparison
  \<open>abs(a - b) < 43200\<close> recognises the same day.\<close>

lemma get_tday_same_iff: "\<bar>get_tday t off - get_tday u off\<bar> < 43200 \<longleftrightarrow> get_tday t off = get_tday u off"
proof -
  define k where "k = (t + 3600 * off) div 86400 - (u + 3600 * off) div 86400"
  have diff: "get_tday t off - get_tday u off = 86400 * k"
    unfolding k_def get_tday_floor by (simp only: algebra_simps)
  have "k = 0" if "\<bar>86400 * k\<bar> < 43200" using that by linarith
  then show ?thesis using diff by (metis abs_zero diff_self eq_iff_diff_eq_0 mult_zero_right zero_less_numeral)
qed

section \<open>The month of a time stamp\<close>

lemma days_of_civil_day: "days_of_civil y m d = days_of_civil y m 1 + (d - 1)"
  by (simp add: days_of_civil_def Let_def)

lemma get_tmonth_tday:
  "\<exists>k. 0 \<le> k \<and> k \<le> 30 \<and> get_tmonth t off = get_tday t off - 86400 * k"
proof -
  obtain y m d where civ: "civil_of_days ((t + 3600 * off) div 86400) = (y, m, d)"
    by (metis prod_cases3)
  have "get_tmonth t off = get_tday t off - 86400 * (d - 1)"
    using days_of_civil_day [of y m d] by (simp add: get_tmonth_def get_tday_def civ timegm_date_def)
  moreover have "1 \<le> d" "d \<le> 31" using civil_of_days_ranges [OF civ] by simp_all
  ultimately show ?thesis by (intro exI [of _ "d - 1"]) simp
qed

lemma get_tmonth_le: "get_tmonth t off \<le> get_tday t off" "get_tmonth t off \<le> t"
  using get_tmonth_tday [of t off] get_tday_contains [of t off] by auto

text \<open>The days of a year of the era end before the next year starts.\<close>

lemma civil_next_year:
  fixes doe :: int
  assumes "0 \<le> doe" and "doe < 146097"
  defines "yoe \<equiv> (doe - doe div 1460 + doe div 36524 - doe div 146096) div 365"
  shows "doe < 365 * (yoe + 1) + (yoe + 1) div 4 - (yoe + 1) div 100 + (yoe + 1) div 400"
proof (cases "doe = 146096")
  case True
  then show ?thesis by (simp add: yoe_def)
next
  case False
  define a where "a = doe div 1460"
  define b where "b = doe div 36524"
  define n where "n = doe - a + b"
  define q where "q = (yoe + 1) div 4"
  from assms(1,2) False have doe: "doe div 146096 = 0" by simp
  have a: "1460 * a \<le> doe" "doe < 1460 * a + 1460" by (auto simp: a_def)
  have b: "36524 * b \<le> doe" "doe < 36524 * b + 36524" by (auto simp: b_def)
  have b03: "0 \<le> b" "b \<le> 3" using b assms(1,2) False by linarith+
  have yoe: "yoe = n div 365" by (simp add: yoe_def n_def doe a_def b_def)
  have n: "365 * yoe \<le> n" "n < 365 * yoe + 365" by (auto simp: yoe)
  have q: "4 * q \<le> yoe + 1" "yoe + 1 < 4 * q + 4" by (auto simp: q_def)
  have yb: "0 \<le> yoe" "yoe < 400" using civil_yoe_bounds [OF assms(1,2)] by (simp_all add: yoe_def)
  show ?thesis
  proof (cases "yoe = 100 * b + 99")
    case True
    then have "(yoe + 1) div 4 = 25 * b + 25" "(yoe + 1) div 100 = b + 1" "0 \<le> (yoe + 1) div 400"
      using b03 by simp_all
    then show ?thesis using True b by simp
  next
    case other: False
    have r: "yoe div 100 = b"
    proof -
      have "36500 * b \<le> n" "n < 36500 * b + 36500"
        using a b b03 unfolding n_def by linarith+
      then have "365 * yoe < 36500 * b + 36500" "36500 * b < 365 * yoe + 365" using n by linarith+
      then have "yoe < 100 * b + 100" "100 * b \<le> yoe" by linarith+
      then show ?thesis by linarith
    qed
    then have c: "(yoe + 1) div 100 = b" using other yb by linarith
    have "a \<le> q" using n a b03 q yb unfolding n_def by linarith
    then have "doe < 365 * yoe + 365 + q - b" using n unfolding n_def by linarith
    then have "doe < 365 * (yoe + 1) + q - b" by (simp add: distrib_left)
    moreover have "0 \<le> (yoe + 1) div 400" using yb by simp
    ultimately show ?thesis unfolding c q_def [symmetric] by (metis add_increasing2 less_le_trans order_refl)
  qed
qed

lemma next_month_after:
  assumes "civil_of_days days = (y, m, d)"
  shows "days < (if m = 12 then days_of_civil (y + 1) 1 1 else days_of_civil y (m + 1) 1)"
proof -
  define z where "z = days + 719468"
  define era where "era = z div 146097"
  define doe where "doe = z mod 146097"
  define yoe where "yoe = (doe - doe div 1460 + doe div 36524 - doe div 146096) div 365"
  define doy where "doy = doe - (365 * yoe + yoe div 4 - yoe div 100)"
  define mp where "mp = (5 * doy + 2) div 153"
  have doe: "0 \<le> doe" "doe < 146097" by (auto simp: doe_def)
  have yb: "0 \<le> yoe" "yoe < 400" unfolding yoe_def by (rule civil_yoe_bounds [OF doe])+
  have db: "0 \<le> doy" "doy < 366" unfolding doy_def yoe_def by (rule civil_doy_bounds [OF doe])+
  have mpb: "0 \<le> mp" "mp < 12" using db unfolding mp_def by linarith+
  have mp: "153 * mp \<le> 5 * doy + 2" "5 * doy + 2 < 153 * mp + 153" by (auto simp: mp_def)
  have z: "days = era * 146097 + doe - 719468" by (simp add: era_def doe_def z_def)
  have tuple: "civil_of_days days = (if (if mp < 10 then mp + 3 else mp - 9) \<le> 2
      then yoe + era * 400 + 1 else yoe + era * 400,
      if mp < 10 then mp + 3 else mp - 9, doy - (153 * mp + 2) div 5 + 1)"
    unfolding civil_of_days_def Let_def mp_def doy_def yoe_def era_def doe_def z_def by (rule refl)
  then have m: "m = (if mp < 10 then mp + 3 else mp - 9)"
    and y: "y = (if m \<le> 2 then yoe + era * 400 + 1 else yoe + era * 400)"
    unfolding assms prod.inject by simp_all
  have era: "(yoe + era * 400) div 400 = era" using yb by simp
  have year: "365 * yoe + yoe div 4 - yoe div 100 = doe - doy" by (simp add: doy_def)
  show ?thesis
  proof (cases "mp = 11")
    case True
    then have "m = 2" and y': "y = yoe + era * 400 + 1" using m y by simp_all
    define e where "e = (yoe + 1) div 400"
    have e: "e = 0 \<or> e = 1 \<and> yoe = 399" using yb unfolding e_def by linarith
    have e': "(yoe + era * 400 + 1) div 400 = era + e"
    proof -
      have "yoe + era * 400 + 1 = yoe + 1 + era * 400" by simp
      then show ?thesis unfolding e_def by (simp only: div_mult_self1 add.commute)
    qed
    have next_year: "doe < 365 * (yoe + 1) + (yoe + 1) div 4 - (yoe + 1) div 100 + e"
      unfolding e_def yoe_def by (rule civil_next_year [OF doe])
    have "days_of_civil y 3 1 = (era + e) * 146097 + ((yoe + 1 - e * 400) * 365
        + (yoe + 1 - e * 400) div 4 - (yoe + 1 - e * 400) div 100) - 719468"
    proof -
      have "yoe + era * 400 + 1 - (era + e) * 400 = yoe + 1 - e * 400" by (simp add: algebra_simps)
      then show ?thesis unfolding days_of_civil_def Let_def y' by (simp add: e') (simp add: add_diff_eq)
    qed
    also have "\<dots> > days" using e next_year doe(2) unfolding z by auto
    finally show ?thesis using \<open>m = 2\<close> by simp
  next
    case False
    have "doy < (153 * mp + 155) div 5" using mp by linarith
    then have first: "doy < (153 * (mp + 1) + 2) div 5" by (simp add: distrib_left)
    have start: "days < era * 146097 + (yoe * 365 + yoe div 4 - yoe div 100 + (153 * (mp + 1) + 2) div 5) - 719468"
      using first year unfolding z by linarith
    consider "mp < 9" | "mp = 9" | "mp = 10" using mpb False by linarith
    then show ?thesis
    proof cases
      case 1
      then have "m \<noteq> 12" "m + 1 > 2" "m + 1 - 3 = mp + 1" "y = yoe + era * 400" using m y mpb by simp_all
      then show ?thesis using start unfolding days_of_civil_def Let_def by (simp add: era)
    next
      case 2
      then have "m = 12" "y = yoe + era * 400" using m y by simp_all
      then show ?thesis using start 2 unfolding days_of_civil_def Let_def by (simp add: era)
    next
      case 3
      then have "m = 1" "y = yoe + era * 400 + 1" using m y by simp_all
      then show ?thesis using start 3 unfolding days_of_civil_def Let_def by (simp add: era)
    qed
  qed
qed

text \<open>A time stamp lies in its month.\<close>

lemma get_tmonth_contains: "get_tmonth t off \<le> t" "t \<le> get_tmonth_end t off"
proof -
  show "get_tmonth t off \<le> t" by (rule get_tmonth_le)
  define days where "days = (t + 3600 * off) div 86400"
  obtain y m d where civ: "civil_of_days days = (y, m, d)" by (metis prod_cases3)
  define N where "N = (if m = 12 then days_of_civil (y + 1) 1 1 else days_of_civil y (m + 1) 1)"
  have "days < N" using next_month_after [OF civ] by (simp add: N_def)
  moreover have "get_tmonth_end t off = 86400 * N - 1 - 3600 * off"
    using civ unfolding get_tmonth_end_def days_def [symmetric] by (simp add: N_def timegm_date_def)
  moreover have "t + 3600 * off < 86400 * days + 86400" unfolding days_def by linarith
  ultimately show "t \<le> get_tmonth_end t off" by linarith
qed

end
