(* ===== verification/Models.thy ===== *)
theory Models
  imports Calendar
begin

text \<open>
  The data of \<^verbatim>\<open>src/src-bill/models\<close>: one record per struct, its fields in the order of the
  source, each field named after the member with the record's short prefix (\<open>tr_id\<close> is
  \<open>Trunk::id\<close>), and the member functions that compute on them. \<open>CallInfo\<close> and
  \<open>ServiceTrunkOrder\<close> hold pointers in the source; here each is an \<open>option\<close> of the row it points
  to, since the rows are never changed through them.
\<close>

section \<open>Rows and structs\<close>

record Server =
  sv_id :: int
  sv_hub_id :: int
  sv_low_balance_outcome_id :: int
  sv_blocked_outcome_id :: int
  sv_calling_station_id_for_line_without_number :: string
  sv_min_price_for_autorouting :: int
  sv_our_numbers_id :: int
  sv_emergency_prefixlist_id :: int
  sv_call_sync_delay :: "int list"
  sv_cdr_sync_delay :: "int list"
  sv_call_save_delay :: "int list"
  sv_cdr_proc_wait_count :: "int list"
  sv_call_save_wait_count :: "int list"
  sv_thread_error_count :: "int list"
  sv_radius_request_delay :: "int list"
  sv_service_numbers :: "string list"
  sv_main_event_count :: "int list"
  sv_local_event_count :: "int list"
  sv_name :: string
  sv_nas_ip_address :: int

record InstanceSettings =
  is_id :: int
  is_region_id :: string
  is_city_geo_id :: int
  is_country_id :: int
  is_city_id :: int
  is_auto_lock_finance :: bool

record Trunk =
  tr_id :: int
  tr_server_id :: int
  tr_name :: string
  tr_trunk_name :: string
  tr_code :: int
  tr_source_rule_default_allowed :: bool
  tr_destination_rule_default_allowed :: bool
  tr_source_trunk_rule_default_allowed :: bool
  tr_default_priority :: int
  tr_auto_routing :: bool
  tr_route_table_id :: int
  tr_our_trunk :: bool
  tr_auth_by_number :: bool
  tr_orig_redirect_number_7800 :: bool
  tr_orig_redirect_number :: bool
  tr_term_redirect_number :: bool
  tr_sw_minimalki :: bool
  tr_sw_shared :: bool
  tr_tech_trunk :: bool
  tr_pstn_trunk :: bool
  tr_capacity :: int
  tr_load_warning :: int
  tr_road_to_regions :: "int list"

record Client =
  cl_id :: int
  cl_limit_d :: int
  cl_limit_d_mn :: int
  cl_credit :: int
  cl_balance :: real
  cl_disabled :: bool
  cl_amount_date :: int
  cl_organization_id :: int
  cl_price_include_vat :: bool
  cl_timezone_offset :: int
  cl_is_blocked :: bool
  cl_anti_fraud_disabled :: bool
  cl_is_trunk_client :: bool
  cl_is_num_client :: bool
  cl_account_version :: int
  cl_effective_vat_rate :: int

record ServiceNumber =
  sn_id :: int
  sn_server_id :: int
  sn_client_account_id :: int
  sn_did :: string
  sn_lines_count :: int
  sn_activation_dt :: int
  sn_expire_dt :: int
  sn_tech_number :: string
  sn_tech_number_operator_id :: int
  sn_is_local :: bool

record ServiceTrunk =
  st_id :: int
  st_server_id :: int
  st_client_account_id :: int
  st_trunk_id :: int
  st_activation_dt :: int
  st_expire_dt :: int
  st_orig_enabled :: bool
  st_term_enabled :: bool
  st_orig_min_payment :: real
  st_term_min_payment :: real

record ServiceTrunkSettings =
  ss_id :: int
  ss_trunk_id :: int
  ss_type :: int
  ss_order :: int
  ss_src_number_id :: int
  ss_dst_number_id :: int
  ss_pricelist_id :: int
  ss_minimum_minutes :: int
  ss_minimum_cost :: int
  ss_nnp_tariff_id :: int
  ss_minimum_margin_type :: int
  ss_minimum_margin :: real

record ServicePackage =
  sp_id :: int
  sp_service_number_id :: int
  sp_service_trunk_id :: int
  sp_activation_dt :: int
  sp_expire_dt :: int
  sp_tariff_package_id :: int
  sp_periodical :: bool

record Tariff =
  ta_id :: int
  ta_freemin :: int
  ta_freemin_for_number :: bool
  ta_pricelist_id :: int
  ta_paid_redirect :: bool
  ta_tariffication_by_minutes :: bool
  ta_tariffication_full_first_minute :: bool
  ta_tariffication_free_first_seconds :: bool

record TariffChangeLog =
  tc_usage_id :: int
  tc_activation_date :: int
  tc_expire_dt :: int
  tc_tariff_id_local :: int
  tc_tariff_id_local_mob :: int
  tc_tariff_id_russia :: int
  tc_tariff_id_russia_mob :: int
  tc_tariff_id_intern :: int

record TariffPackage =
  tp_id :: int
  tp_destination_id :: int
  tp_prepaid_minutes :: int
  tp_pricelist_id :: int

record Pricelist =
  pl_id :: int
  pl_region :: int
  pl_tariffication_by_minutes :: bool
  pl_tariffication_full_first_minute :: bool
  pl_orig :: bool
  pl_local :: bool
  pl_local_network_config_id :: int
  pl_initiate_mgmn_cost :: real
  pl_initiate_zona_cost :: real
  pl_price_include_vat :: bool
  pl_currency_id :: string

record PricelistPrice =
  pp_pricelist_id :: int
  pp_prefix :: string
  pp_date_from :: int
  pp_date_to :: int
  pp_price :: real

record NetworkPrefix =
  np_network_config_id :: int
  np_prefix :: string
  np_date_from :: int
  np_date_to :: int
  np_network_type_id :: int

record Geo =
  geo_id :: int
  geo_country_id :: int
  geo_region_id :: int
  geo_city_id :: int

record GeoPrefix =
  gp_prefix :: string
  gp_geo_id :: int
  gp_geo_operator_id :: int

record MobPrefix =
  mp_prefix :: string
  mp_mob :: bool

record CurrencyRate =
  cr_currency :: string
  cr_date :: int
  cr_rate :: real

record StatPrefixlist =
  sl_id :: int
  sl_type_id :: int
  sl_prefixes :: "int list"
  sl_sub_type :: int
  sl_country_id :: int
  sl_region_id :: int
  sl_city_id :: int
  sl_exclude_operators :: bool
  sl_operators :: "int list"
  sl_str_prefixes :: string
  sl_str_operators :: string

record StatDestinationPrefixlists =
  sd_destination_id :: int
  sd_prefixlist_id :: int

record Number =
  nu_id :: int
  nu_name :: string
  nu_prefixlist_ids :: string

record Prefixlist =
  pf_id :: int
  pf_name :: string
  pf_type_id :: int
  pf_nnp_destination_id :: int
  pf_country_code :: int
  pf_exclude_oper :: bool
  pf_operator_id :: "int list"
  pf_region_id :: int
  pf_city_id :: int
  pf_ndc_type_id :: int
  pf_ndc_token :: string

record PrefixlistPrefix =
  px_prefixlist_id :: int
  px_prefix :: string

record TrunkNumberPreprocessing =
  tn_trunk_id :: int
  tn_order :: int
  tn_src :: bool
  tn_noa :: int
  tn_length :: int
  tn_prefix :: string

record TrunkPriority =
  ty_id :: int
  ty_trunk_id :: int
  ty_order :: int
  ty_priority :: int
  ty_number_id_filter_a :: int
  ty_number_id_filter_b :: int
  ty_trunk_group_id :: int

record TrunkRule =
  tu_trunk_id :: int
  tu_outgoing :: bool
  tu_order :: int
  tu_prefixlist_id :: int

record TrunkTrunkRule =
  tt_trunk_id :: int
  tt_order :: int
  tt_trunk_group_id :: int
  tt_number_id_filter_a :: int
  tt_number_id_filter_b :: int

record TrunkGroup =
  tg_id :: int
  tg_name :: string

record TrunkGroupItem =
  ti_trunk_group_id :: int
  ti_trunk_id :: int

record RouteTable =
  rt_id :: int
  rt_server_id :: int
  rt_name :: string

record RouteTableRoute =
  rr_route_table_id :: int
  rr_order :: int
  rr_a_number_id :: int
  rr_b_number_id :: int
  rr_outcome_id :: int
  rr_outcome_route_table_id :: int

record RouteCase =
  rc_id :: int
  rc_name :: string

record ReleaseReason =
  re_id :: int
  re_name :: string

record Airp =
  ai_id :: int
  ai_name :: string

record Outcome =
  oc_id :: int
  oc_name :: string
  oc_type_id :: int
  oc_route_case_id :: int
  oc_route_case_1_id :: int
  oc_route_case_2_id :: int
  oc_release_reason_id :: int
  oc_airp_id :: int
  oc_calling_station_id :: string
  oc_called_station_id :: string

record GlobalCounters =
  gc_client_id :: int
  gc_sum :: real
  gc_sum_day :: real
  gc_sum_mn_day :: real
  gc_sum_month :: real

record GlobalNNPPackageMinuteCounters =
  gn_nnp_account_tariff_light_id :: int
  gn_nnp_package_minute_id :: int
  gn_used_seconds :: int

record StatsAccount =
  sa_account_id :: int
  sa_sum :: real
  sa_sum_day :: real
  sa_sum_mn_day :: real
  sa_sum_month :: real
  sa_amount_day :: int
  sa_amount_month :: int
  sa_amount_date :: int

record StatsFreemin =
  sf_id :: int
  sf_service_number_id :: int
  sf_month_dt :: int
  sf_used_seconds :: int
  sf_used_credit :: real
  sf_min_call_id :: int
  sf_max_call_id :: int

record StatsPackage =
  sk_id :: int
  sk_package_id :: int
  sk_activation_dt :: int
  sk_expire_dt :: int
  sk_used_seconds :: int
  sk_used_credit :: real
  sk_paid_seconds :: int
  sk_min_call_id :: int
  sk_max_call_id :: int

record StatsTrunkSettings =
  ts_id :: int
  ts_trunk_settings_id :: int
  ts_activation_dt :: int
  ts_expire_dt :: int
  ts_used_seconds :: int
  ts_used_credit :: real
  ts_min_call_id :: int
  ts_max_call_id :: int

record StatsNNPPackageMinute =
  sm_id :: int
  sm_nnp_account_tariff_light_id :: int
  sm_nnp_package_minute_id :: int
  sm_activate_from :: int
  sm_deactivate_from :: int
  sm_used_seconds :: int
  sm_used_credit :: real
  sm_paid_seconds :: int
  sm_min_call_id :: int
  sm_max_call_id :: int

record NNPNumberRange =
  nr_id :: int
  nr_ndc :: int
  nr_full_number_from :: int
  nr_full_number_to :: int
  nr_is_mob :: bool
  nr_is_active :: bool
  nr_nnp_operator_id :: int
  nr_nnp_region_id :: int
  nr_insert_time :: int
  nr_update_time :: int
  nr_nnp_city_id :: int
  nr_country_prefix :: int
  nr_country_code :: int
  nr_ndc_type_id :: int

record NNPNumberRangePrefix =
  nx_nnp_prefix_id :: int
  nx_nnp_number_range_id :: int
  nx_insert_time :: int

record NNPPrefixDestination =
  nd_nnp_prefix_id :: int
  nd_nnp_destination_id :: int
  nd_is_addition :: bool
  nd_insert_time :: int

record NNPPackage =
  nk_id :: int
  nk_service_type_id :: int
  nk_tarification_free_seconds :: int
  nk_tarification_interval_seconds :: int
  nk_tarification_type :: int
  nk_tarification_min_paid_seconds :: int
  nk_currency_id :: string
  nk_is_include_vat :: bool

record NNPPackagePrice =
  ni_id :: int
  ni_nnp_tariff_id :: int
  ni_nnp_destination_id :: int
  ni_price :: real
  ni_interconnect_price :: real

record NNPPackagePricelist =
  nl_id :: int
  nl_nnp_tariff_id :: int
  nl_pricelist_id :: int

record NNPPackageMinute =
  nm_id :: int
  nm_nnp_tariff_id :: int
  nm_nnp_destination_id :: int
  nm_minute :: real

record NNPAccountTariffLight =
  nt_id :: int
  nt_service_number_id :: int
  nt_service_trunk_id :: int
  nt_account_client_id :: int
  nt_nnp_tariff_id :: int
  nt_coefficient :: real
  nt_activate_from :: int
  nt_deactivate_from :: int
  nt_service_type_id :: int
  nt_price :: real

record NNPCountry =
  nc_code :: int
  nc_name :: string
  nc_prefixes :: "int list"

record Cdr =
  cdr_id :: int
  cdr_connect_time :: int
  cdr_setup_time :: int
  cdr_session_time :: int
  cdr_src_number :: string
  cdr_dst_number :: string
  cdr_dst_replace :: string
  cdr_redirect_number :: string
  cdr_src_route :: string
  cdr_dst_route :: string
  cdr_src_noa :: int
  cdr_dst_noa :: int
  cdr_call_id :: int
  cdr_disconnect_cause :: int
  cdr_call_finished :: string
  cdr_releasing_party :: string
  cdr_in_sig_call_id :: string
  cdr_out_sig_call_id :: string
  cdr_hash :: string

record Call =
  c_id :: int
  c_peer_id :: int
  c_cdr_id :: int
  c_connect_time :: int
  c_orig :: bool
  c_our :: bool
  c_trunk_id :: int
  c_account_id :: int
  c_trunk_service_id :: int
  c_number_service_id :: int
  c_src_number :: int
  c_dst_number :: int
  c_billed_time :: int
  c_rate :: real
  c_cost :: real
  c_price_includes_vat :: bool
  c_tax_cost :: real
  c_interconnect_rate :: real
  c_interconnect_cost :: real
  c_service_package_id :: int
  c_service_package_stats_id :: int
  c_package_time :: int
  c_package_credit :: real
  c_trunk_settings_stats_id :: int
  c_pricelist_id :: int
  c_prefix :: int
  c_destination_id :: int
  c_mob :: bool
  c_geo_id :: int
  c_geo_mob :: bool
  c_geo_operator_id :: int
  c_cdr_call_id :: int
  c_disconnect_cause :: int
  c_is_service_number :: bool
  c_account_version :: int
  c_stats_nnp_package_minute_id :: int
  c_nnp_operator_id :: int
  c_nnp_region_id :: int
  c_nnp_city_id :: int
  c_nnp_country_prefix :: int
  c_nnp_country_code :: int
  c_nnp_ndc :: int
  c_nnp_is_mob :: bool
  c_nnp_package_minute_id :: int
  c_nnp_package_price_id :: int
  c_nnp_package_pricelist_id :: int
  c_nnp_package_id :: int
  c_nnp_number_range_id :: int
  c_server_id :: int
  c_signalling_call_id :: string
  c_hash :: string
  c_pdd :: int

record DT =
  dt_day :: int
  dt_month :: int

record CallInfo =
  ci_server :: "Server option"
  ci_instanceSettings :: "InstanceSettings option"
  ci_trunk :: "Trunk option"
  ci_account :: "Client option"
  ci_serviceNumber :: "ServiceNumber option"
  ci_serviceTrunk :: "ServiceTrunk option"
  ci_servicePackagePrepaid :: "ServicePackage option"
  ci_servicePackagePricelist :: "ServicePackage option"
  ci_trunkSettings :: "ServiceTrunkSettings option"
  ci_logTariff :: "TariffChangeLog option"
  ci_mainTariff :: "Tariff option"
  ci_tariff :: "Tariff option"
  ci_tariffPackagePrepaid :: "TariffPackage option"
  ci_pricelist :: "Pricelist option"
  ci_price :: "PricelistPrice option"
  ci_geo :: "Geo option"
  ci_nnpNumberRange :: "NNPNumberRange option"
  ci_nnpPackage :: "NNPPackage option"
  ci_nnpPackagePrice :: "NNPPackagePrice option"
  ci_nnpPackagePricelist :: "NNPPackagePricelist option"
  ci_callIncomingFromMegatrunk :: bool
  ci_dt :: "DT option"
  ci_dtUtc :: "DT option"

record ServiceTrunkOrder =
  o_trunk :: "Trunk option"
  o_serviceTrunk :: "ServiceTrunk option"
  o_trunkSettings :: "ServiceTrunkSettings option"
  o_pricelist :: "Pricelist option"
  o_price :: "PricelistPrice option"
  o_account :: "Client option"
  o_statsTrunkSettings :: "StatsTrunkSettings option"
  o_nnpPackage :: "NNPPackage option"
  o_nnpPackagePrice :: "NNPPackagePrice option"
  o_nnpPackagePricelist :: "NNPPackagePricelist option"
  o_nnp_price :: real
  o_priority :: int
  o_server_id :: int

record Price =
  pr_present :: bool
  pr_price :: real
  pr_currency_rate :: real
  pr_currency :: string

section \<open>Member functions\<close>

definition Trunk_is_connected :: "Trunk \<Rightarrow> int \<Rightarrow> bool" where
  "Trunk_is_connected t region_id \<longleftrightarrow> region_id \<in> set (tr_road_to_regions t)"

definition hasCreditLimit :: "Client \<Rightarrow> bool" where
  "hasCreditLimit cl \<longleftrightarrow> cl_credit cl \<ge> 0"

definition hasDailyLimit :: "Client \<Rightarrow> bool" where
  "hasDailyLimit cl \<longleftrightarrow> cl_limit_d cl > 0 \<and> \<not> cl_is_trunk_client cl"

definition hasDailyMNLimit :: "Client \<Rightarrow> bool" where
  "hasDailyMNLimit cl \<longleftrightarrow> cl_limit_d_mn cl > 0 \<and> \<not> cl_is_trunk_client cl"

definition isConsumedCreditLimit :: "Client \<Rightarrow> real \<Rightarrow> bool" where
  "isConsumedCreditLimit cl value \<longleftrightarrow>
     hasCreditLimit cl \<and> cl_balance cl + of_int (cl_credit cl) + value < 0.00001"

definition isConsumedDailyLimit :: "Client \<Rightarrow> real \<Rightarrow> bool" where
  "isConsumedDailyLimit cl value \<longleftrightarrow>
     \<not> cl_is_trunk_client cl \<and>
     ((hasDailyLimit cl \<and> of_int (cl_limit_d cl) + value < 0.00001) \<or> cl_limit_d cl \<le> 0)"

definition isConsumedDailyMNLimit :: "Client \<Rightarrow> real \<Rightarrow> bool" where
  "isConsumedDailyMNLimit cl value \<longleftrightarrow>
     \<not> cl_is_trunk_client cl \<and>
     ((hasDailyMNLimit cl \<and> of_int (cl_limit_d_mn cl) + value < 0.00001) \<or> cl_limit_d_mn cl \<le> 0)"

definition getPriceWithVat :: "Client \<Rightarrow> real \<Rightarrow> real \<Rightarrow> real" where
  "getPriceWithVat cl price vat_rate =
     (if cl_price_include_vat cl then price else price * (1 + vat_rate))"

definition getRegionIds :: "InstanceSettings \<Rightarrow> int list exc" where
  "getRegionIds s = pg_int_array (is_region_id s)"

definition getPrefixlistIds :: "Number \<Rightarrow> int list exc" where
  "getPrefixlistIds n = pg_int_array (nu_prefixlist_ids n)"

definition isAuto :: "Outcome \<Rightarrow> bool" where "isAuto oc \<longleftrightarrow> oc_type_id oc = 1"
definition isRouteCase :: "Outcome \<Rightarrow> bool" where "isRouteCase oc \<longleftrightarrow> oc_type_id oc = 2"
definition isReleaseReason :: "Outcome \<Rightarrow> bool" where "isReleaseReason oc \<longleftrightarrow> oc_type_id oc = 3"
definition isAirp :: "Outcome \<Rightarrow> bool" where "isAirp oc \<longleftrightarrow> oc_type_id oc = 4"
definition isAccept :: "Outcome \<Rightarrow> bool" where "isAccept oc \<longleftrightarrow> oc_type_id oc = 5"
definition isMegToReg :: "Outcome \<Rightarrow> bool" where "isMegToReg oc \<longleftrightarrow> oc_type_id oc = 6"
definition isMegToMeg :: "Outcome \<Rightarrow> bool" where "isMegToMeg oc \<longleftrightarrow> oc_type_id oc = 7"

lemmas outcome_type_defs = isAuto_def isRouteCase_def isReleaseReason_def isAirp_def isAccept_def
  isMegToReg_def isMegToMeg_def

definition GlobalCounters_sumDay :: "GlobalCounters \<Rightarrow> real \<Rightarrow> real" where
  "GlobalCounters_sumDay g vat_rate = gc_sum_day g * (1 + vat_rate)"

definition GlobalCounters_sumMNDay :: "GlobalCounters \<Rightarrow> real \<Rightarrow> real" where
  "GlobalCounters_sumMNDay g vat_rate = gc_sum_mn_day g * (1 + vat_rate)"

definition GlobalCounters_sumBalance :: "GlobalCounters \<Rightarrow> real \<Rightarrow> real" where
  "GlobalCounters_sumBalance g vat_rate = gc_sum g * (1 + vat_rate)"

text \<open>\<open>StatsAccount\<close> answers for today and this month only; \<open>now\<close> is \<open>time(nullptr)\<close>.\<close>

definition StatsAccount_sumDay :: "int \<Rightarrow> StatsAccount \<Rightarrow> real \<Rightarrow> real" where
  "StatsAccount_sumDay now s vat_rate =
     (if \<bar>sa_amount_day s - get_tday now 0\<bar> < 43200 then sa_sum_day s * (1 + vat_rate) else 0)"

definition StatsAccount_sumMNDay :: "int \<Rightarrow> StatsAccount \<Rightarrow> real \<Rightarrow> real" where
  "StatsAccount_sumMNDay now s vat_rate =
     (if \<bar>sa_amount_day s - get_tday now 0\<bar> < 43200 then sa_sum_mn_day s * (1 + vat_rate) else 0)"

definition StatsAccount_sumMonth :: "int \<Rightarrow> StatsAccount \<Rightarrow> real \<Rightarrow> real" where
  "StatsAccount_sumMonth now s vat_rate =
     (if \<bar>sa_amount_month s - get_tmonth now 0\<bar> < 43200 then sa_sum_month s * (1 + vat_rate) else 0)"

definition StatsAccount_sumBalance :: "StatsAccount \<Rightarrow> real \<Rightarrow> real" where
  "StatsAccount_sumBalance s vat_rate = sa_sum s * (1 + vat_rate)"

definition NNPPackageMinute_new :: NNPPackageMinute where
  "NNPPackageMinute_new = \<lparr> nm_id = 0, nm_nnp_tariff_id = 0, nm_nnp_destination_id = 0, nm_minute = 0 \<rparr>"

definition getMidKey :: "NNPNumberRange \<Rightarrow> int" where
  "getMidKey r = (let s = nr_full_number_to r + nr_full_number_from r in sgn s * (\<bar>s\<bar> div 2))"

definition getLength :: "NNPNumberRange \<Rightarrow> int" where
  "getLength r = nr_full_number_to r - nr_full_number_from r"

subsection \<open>Price\<close>

definition Price_new :: Price where
  "Price_new = \<lparr> pr_present = False, pr_price = 0, pr_currency_rate = 1, pr_currency = ''RUB'' \<rparr>"

definition Price_set :: "real \<Rightarrow> string \<Rightarrow> Price \<Rightarrow> Price" where
  "Price_set price currency p = p\<lparr> pr_price := price, pr_currency := currency, pr_present := True \<rparr>"

definition Price_less :: "Price \<Rightarrow> Price \<Rightarrow> bool" where
  "Price_less a b =
     (if pr_present a \<and> \<not> pr_present b then True
      else if \<not> pr_present a \<and> pr_present b then False
      else if \<not> pr_present a \<and> \<not> pr_present b then False
      else if pr_currency a = pr_currency b then pr_price a < pr_price b
      else pr_price a * pr_currency_rate a < pr_price b * pr_currency_rate b)"

subsection \<open>ServiceTrunkOrder\<close>

definition ServiceTrunkOrder_new :: ServiceTrunkOrder where
  "ServiceTrunkOrder_new = \<lparr> o_trunk = None, o_serviceTrunk = None, o_trunkSettings = None,
     o_pricelist = None, o_price = None, o_account = None, o_statsTrunkSettings = None,
     o_nnpPackage = None, o_nnpPackagePrice = None, o_nnpPackagePricelist = None,
     o_nnp_price = 0, o_priority = 0, o_server_id = 0 \<rparr>"

definition is_price_present :: "ServiceTrunkOrder \<Rightarrow> bool" where
  "is_price_present ord =
     ((case (o_price ord, o_pricelist ord) of
         (Some p, Some _) \<Rightarrow> \<bar>pp_price p\<bar> > 0.000001 | _ \<Rightarrow> False) \<or>
      (case (o_nnpPackage ord, o_nnpPackagePrice ord) of
         (Some _, Some p) \<Rightarrow> \<bar>ni_price p\<bar> > 0.000001 | _ \<Rightarrow> False) \<or>
      (case (o_nnpPackage ord, o_nnpPackagePricelist ord) of
         (Some _, Some _) \<Rightarrow> \<bar>o_nnp_price ord\<bar> > 0.000001 | _ \<Rightarrow> False))"

definition getCurrency :: "ServiceTrunkOrder \<Rightarrow> string option" where
  "getCurrency ord =
     (case o_pricelist ord of
        Some p \<Rightarrow> Some (pl_currency_id p)
      | None \<Rightarrow> map_option nk_currency_id (o_nnpPackage ord))"

definition getPrice :: "ServiceTrunkOrder \<Rightarrow> real" where
  "getPrice ord = (case o_price ord of Some p \<Rightarrow> pp_price p | None \<Rightarrow> o_nnp_price ord)"

subsection \<open>Call\<close>

text \<open>\<open>Call::Call(Cdr*, bool)\<close>. The constructor leaves \<open>nnp_package_id\<close> unset: \<open>junk\<close> is the value
  the memory happens to hold.\<close>

definition Call_new :: "int \<Rightarrow> Cdr \<Rightarrow> bool \<Rightarrow> Call" where
  "Call_new junk cdr orig = \<lparr>
     c_id = 0, c_peer_id = 0, c_cdr_id = cdr_id cdr, c_connect_time = cdr_connect_time cdr,
     c_orig = orig, c_our = False, c_trunk_id = 0, c_account_id = 0, c_trunk_service_id = 0,
     c_number_service_id = 0, c_src_number = atoll (cdr_src_number cdr),
     c_dst_number = atoll (cdr_dst_number cdr), c_billed_time = cdr_session_time cdr,
     c_rate = 0, c_cost = 0, c_price_includes_vat = False, c_tax_cost = 0,
     c_interconnect_rate = 0, c_interconnect_cost = 0, c_service_package_id = 0,
     c_service_package_stats_id = 0, c_package_time = 0, c_package_credit = 0,
     c_trunk_settings_stats_id = 0, c_pricelist_id = 0, c_prefix = 0, c_destination_id = 2,
     c_mob = False, c_geo_id = 0, c_geo_mob = False, c_geo_operator_id = 0,
     c_cdr_call_id = cdr_call_id cdr, c_disconnect_cause = cdr_disconnect_cause cdr,
     c_is_service_number = False, c_account_version = 4, c_stats_nnp_package_minute_id = 0,
     c_nnp_operator_id = 0, c_nnp_region_id = 0, c_nnp_city_id = 0, c_nnp_country_prefix = 0,
     c_nnp_country_code = 0, c_nnp_ndc = 0, c_nnp_is_mob = False, c_nnp_package_minute_id = 0,
     c_nnp_package_price_id = 0, c_nnp_package_pricelist_id = 0, c_nnp_package_id = junk,
     c_nnp_number_range_id = 0, c_server_id = 0, c_signalling_call_id = [], c_hash = [],
     c_pdd = wrap32 (cdr_connect_time cdr - cdr_setup_time cdr) \<rparr>"

definition isLocal :: "Call \<Rightarrow> bool" where "isLocal c \<longleftrightarrow> c_destination_id c < 0"
definition isZonaMob :: "Call \<Rightarrow> bool" where "isZonaMob c \<longleftrightarrow> c_destination_id c = 0 \<and> c_mob c"
definition isZonaStd :: "Call \<Rightarrow> bool" where "isZonaStd c \<longleftrightarrow> c_destination_id c = 0 \<and> \<not> c_mob c"
definition isRussianMob :: "Call \<Rightarrow> bool" where "isRussianMob c \<longleftrightarrow> c_destination_id c = 1 \<and> c_mob c"
definition isRussianStd :: "Call \<Rightarrow> bool" where "isRussianStd c \<longleftrightarrow> c_destination_id c = 1 \<and> \<not> c_mob c"
definition isInternational :: "Call \<Rightarrow> bool" where "isInternational c \<longleftrightarrow> c_destination_id c = 2"

lemmas call_class_defs = isLocal_def isZonaMob_def isZonaStd_def isRussianMob_def isRussianStd_def
  isInternational_def

definition Cdr_new :: Cdr where
  "Cdr_new = \<lparr> cdr_id = 0, cdr_connect_time = 0, cdr_setup_time = 0, cdr_session_time = 0,
     cdr_src_number = [], cdr_dst_number = [], cdr_dst_replace = [], cdr_redirect_number = [],
     cdr_src_route = [], cdr_dst_route = [], cdr_src_noa = 0, cdr_dst_noa = 0, cdr_call_id = 0,
     cdr_disconnect_cause = 0, cdr_call_finished = [], cdr_releasing_party = [],
     cdr_in_sig_call_id = [], cdr_out_sig_call_id = [], cdr_hash = [] \<rparr>"

definition CallInfo_new :: CallInfo where
  "CallInfo_new = \<lparr> ci_server = None, ci_instanceSettings = None, ci_trunk = None,
     ci_account = None, ci_serviceNumber = None, ci_serviceTrunk = None,
     ci_servicePackagePrepaid = None, ci_servicePackagePricelist = None, ci_trunkSettings = None,
     ci_logTariff = None, ci_mainTariff = None, ci_tariff = None, ci_tariffPackagePrepaid = None,
     ci_pricelist = None, ci_price = None, ci_geo = None, ci_nnpNumberRange = None,
     ci_nnpPackage = None, ci_nnpPackagePrice = None, ci_nnpPackagePricelist = None,
     ci_callIncomingFromMegatrunk = False, ci_dt = None, ci_dtUtc = None \<rparr>"

text \<open>\<open>CallInfo::make_dt\<close>: it dereferences \<open>account\<close>. \<open>dt\<close> and \<open>dtUtc\<close> hold no value before the
  first call.\<close>

definition make_dt :: "Call \<Rightarrow> Client \<Rightarrow> CallInfo \<Rightarrow> CallInfo" where
  "make_dt call account ci = ci\<lparr>
     ci_dt := Some \<lparr> dt_day = get_tday (c_connect_time call) (cl_timezone_offset account),
                     dt_month = get_tmonth (c_connect_time call) (cl_timezone_offset account) \<rparr>,
     ci_dtUtc := Some \<lparr> dt_day = get_tday (c_connect_time call) 0,
                        dt_month = get_tmonth (c_connect_time call) 0 \<rparr> \<rparr>"

end
