(* ===== verification/Obj_Lists.thy ===== *)
theory Obj_Lists
  imports Models "HOL-Library.Product_Lexorder" "HOL-Library.Sublist"
begin

text \<open>
  The tables of \<^verbatim>\<open>src/src-bill/lists\<close>: each is a vector of rows that a query fills in a fixed
  order, with the searches the billing and the routing call. A search is the chain of
  \<open>equal_range\<close> calls of the source on the vector. The locales state what the tables promise
  when the rows come in the order the query asks for: \<open>keyed_list\<close> for the tables searched by
  one number, \<open>prefix_table\<close> (of the prelude) for the longest-prefix searches, \<open>period_table\<close>
  for rows that are valid in a period of time.
\<close>

section \<open>Tables searched by an identifier\<close>

definition AirpList_find :: "Airp list \<Rightarrow> int \<Rightarrow> Airp option" where
  "AirpList_find data i = first_of (equal_range ai_id i data)"

definition ClientList_find :: "Client list \<Rightarrow> int \<Rightarrow> Client option" where
  "ClientList_find data i = first_of (equal_range cl_id i data)"

definition GeoList_find :: "Geo list \<Rightarrow> int \<Rightarrow> Geo option" where
  "GeoList_find data i = first_of (equal_range geo_id i data)"

definition GlobalCountersList_find :: "GlobalCounters list \<Rightarrow> int \<Rightarrow> GlobalCounters option" where
  "GlobalCountersList_find data i = first_of (equal_range gc_client_id i data)"

definition InstanceSettingsList_find :: "InstanceSettings list \<Rightarrow> int \<Rightarrow> InstanceSettings option" where
  "InstanceSettingsList_find data i = first_of (equal_range is_id i data)"

definition NumberList_find :: "Number list \<Rightarrow> int \<Rightarrow> Number option" where
  "NumberList_find data i = first_of (equal_range nu_id i data)"

definition OutcomeList_find :: "Outcome list \<Rightarrow> int \<Rightarrow> Outcome option" where
  "OutcomeList_find data i = first_of (equal_range oc_id i data)"

definition PrefixlistList_find :: "Prefixlist list \<Rightarrow> int \<Rightarrow> Prefixlist option" where
  "PrefixlistList_find data i = first_of (equal_range pf_id i data)"

definition PricelistList_find :: "Pricelist list \<Rightarrow> int \<Rightarrow> Pricelist option" where
  "PricelistList_find data i = first_of (equal_range pl_id i data)"

definition ReleaseReasonList_find :: "ReleaseReason list \<Rightarrow> int \<Rightarrow> ReleaseReason option" where
  "ReleaseReasonList_find data i = first_of (equal_range re_id i data)"

definition RouteCaseList_find :: "RouteCase list \<Rightarrow> int \<Rightarrow> RouteCase option" where
  "RouteCaseList_find data i = first_of (equal_range rc_id i data)"

definition RouteTableList_find :: "RouteTable list \<Rightarrow> int \<Rightarrow> RouteTable option" where
  "RouteTableList_find data i = first_of (equal_range rt_id i data)"

definition StatPrefixlistList_find :: "StatPrefixlist list \<Rightarrow> int \<Rightarrow> StatPrefixlist option" where
  "StatPrefixlistList_find data i = first_of (equal_range sl_id i data)"

definition TariffList_find :: "Tariff list \<Rightarrow> int \<Rightarrow> Tariff option" where
  "TariffList_find data i = first_of (equal_range ta_id i data)"

definition TariffPackageList_find :: "TariffPackage list \<Rightarrow> int \<Rightarrow> TariffPackage option" where
  "TariffPackageList_find data i = first_of (equal_range tp_id i data)"

definition TrunkGroupList_find :: "TrunkGroup list \<Rightarrow> int \<Rightarrow> TrunkGroup option" where
  "TrunkGroupList_find data i = first_of (equal_range tg_id i data)"

definition TrunkList_find :: "Trunk list \<Rightarrow> int \<Rightarrow> Trunk option" where
  "TrunkList_find data i = first_of (equal_range tr_id i data)"

definition ServerList_find :: "Server list \<Rightarrow> int \<Rightarrow> Server option" where
  "ServerList_find data i = first_of (equal_range sv_id i data)"

definition NNPPackageList_find :: "NNPPackage list \<Rightarrow> int \<Rightarrow> NNPPackage option" where
  "NNPPackageList_find data i = first_of (equal_range nk_id i data)"

definition NNPPackageMinuteList_find :: "NNPPackageMinute list \<Rightarrow> int \<Rightarrow> NNPPackageMinute option" where
  "NNPPackageMinuteList_find data i = first_of (equal_range nm_id i data)"

definition NNPAccountTariffLightList_find :: "NNPAccountTariffLight list \<Rightarrow> int \<Rightarrow> NNPAccountTariffLight option" where
  "NNPAccountTariffLightList_find data i = first_of (equal_range nt_id i data)"

definition NNPCountryCodeList_find :: "NNPCountry list \<Rightarrow> int \<Rightarrow> NNPCountry option" where
  "NNPCountryCodeList_find data i = first_of (equal_range nc_code i data)"


text \<open>The contract these searches share.\<close>

locale keyed_list =
  fixes key :: "'a \<Rightarrow> int" and find :: "'a list \<Rightarrow> int \<Rightarrow> 'a option"
  assumes find_range: "find data i = first_of (equal_range key i data)"
begin

lemma find_sorted:
  "sorted (map key data) \<Longrightarrow> find data i = List.find (\<lambda>x. key x = i) data"
  by (simp add: find_range range_simps)

lemma find_member:
  assumes "find data i = Some x"
  shows "x \<in> set data"
proof -
  have "x \<in> set (equal_range key i data)"
    using assms unfolding find_range by (rule first_of_mem)
  then show ?thesis by (rule subsetD [OF equal_range_subset])
qed

lemma find_key:
  assumes "sorted (map key data)" and "find data i = Some x"
  shows "key x = i"
  using assms by (auto simp: find_sorted find_Some_iff)

lemma find_unique:
  assumes "sorted (map key data)" and "distinct (map key data)" and "x \<in> set data"
  shows "find data (key x) = Some x"
proof (cases "find data (key x)")
  case None
  with assms(3) show ?thesis unfolding find_sorted [OF assms(1)] find_None_iff by blast
next
  case (Some y)
  then have "y \<in> set data" "key y = key x"
    using find_member find_key [OF assms(1)] by blast+
  with assms Some show ?thesis by (metis distinct_map inj_onD)
qed

lemma find_None_iff_absent:
  "sorted (map key data) \<Longrightarrow> find data i = None \<longleftrightarrow> i \<notin> key ` set data"
  by (auto simp: find_sorted find_None_iff)

end

interpretation airps: keyed_list ai_id AirpList_find
  by unfold_locales (simp add: AirpList_find_def)

interpretation clients: keyed_list cl_id ClientList_find
  by unfold_locales (simp add: ClientList_find_def)

interpretation geos: keyed_list geo_id GeoList_find
  by unfold_locales (simp add: GeoList_find_def)

interpretation globalCounters: keyed_list gc_client_id GlobalCountersList_find
  by unfold_locales (simp add: GlobalCountersList_find_def)

interpretation instances: keyed_list is_id InstanceSettingsList_find
  by unfold_locales (simp add: InstanceSettingsList_find_def)

interpretation numbers: keyed_list nu_id NumberList_find
  by unfold_locales (simp add: NumberList_find_def)

interpretation outcomes: keyed_list oc_id OutcomeList_find
  by unfold_locales (simp add: OutcomeList_find_def)

interpretation prefixlists: keyed_list pf_id PrefixlistList_find
  by unfold_locales (simp add: PrefixlistList_find_def)

interpretation pricelists: keyed_list pl_id PricelistList_find
  by unfold_locales (simp add: PricelistList_find_def)

interpretation releaseReasons: keyed_list re_id ReleaseReasonList_find
  by unfold_locales (simp add: ReleaseReasonList_find_def)

interpretation routeCases: keyed_list rc_id RouteCaseList_find
  by unfold_locales (simp add: RouteCaseList_find_def)

interpretation routeTables: keyed_list rt_id RouteTableList_find
  by unfold_locales (simp add: RouteTableList_find_def)

interpretation statPrefixlists: keyed_list sl_id StatPrefixlistList_find
  by unfold_locales (simp add: StatPrefixlistList_find_def)

interpretation tariffs: keyed_list ta_id TariffList_find
  by unfold_locales (simp add: TariffList_find_def)

interpretation tariffPackages: keyed_list tp_id TariffPackageList_find
  by unfold_locales (simp add: TariffPackageList_find_def)

interpretation trunkGroups: keyed_list tg_id TrunkGroupList_find
  by unfold_locales (simp add: TrunkGroupList_find_def)

interpretation trunks: keyed_list tr_id TrunkList_find
  by unfold_locales (simp add: TrunkList_find_def)

interpretation servers: keyed_list sv_id ServerList_find
  by unfold_locales (simp add: ServerList_find_def)

interpretation nnpPackages: keyed_list nk_id NNPPackageList_find
  by unfold_locales (simp add: NNPPackageList_find_def)

interpretation nnpPackageMinutes: keyed_list nm_id NNPPackageMinuteList_find
  by unfold_locales (simp add: NNPPackageMinuteList_find_def)

interpretation nnpAccountTariffs: keyed_list nt_id NNPAccountTariffLightList_find
  by unfold_locales (simp add: NNPAccountTariffLightList_find_def)

interpretation nnpCountries: keyed_list nc_code NNPCountryCodeList_find
  by unfold_locales (simp add: NNPCountryCodeList_find_def)


section \<open>Trunks\<close>

text \<open>\<open>set<int>\<close> is a list without duplicates, of which only membership matters here.\<close>

definition findAllAutorouting :: "Trunk list \<Rightarrow> int \<Rightarrow> int set \<Rightarrow> Trunk list" where
  "findAllAutorouting data server_id simblingRegions =
     filter (\<lambda>t. tr_auto_routing t \<and> (tr_server_id t = server_id \<or>
               (tr_server_id t \<in> simblingRegions \<and> tr_sw_shared t))) data"

definition TrunkList_findAnyOurTrunk :: "Trunk list \<Rightarrow> int \<Rightarrow> Trunk option" where
  "TrunkList_findAnyOurTrunk data server_id =
     List.find (\<lambda>t. tr_our_trunk t \<and> tr_server_id t = server_id) data"

definition findAllRoadToRegion :: "Trunk list \<Rightarrow> int \<Rightarrow> int \<Rightarrow> int set \<Rightarrow> Trunk list" where
  "findAllRoadToRegion data server_id road_to_region simblingRegions =
     filter (\<lambda>t. Trunk_is_connected t road_to_region \<and> (tr_server_id t = server_id \<or>
               (tr_server_id t \<in> simblingRegions \<and> tr_sw_shared t))) data"

text \<open>The searches by name skip the rows of foreign regions. The alias table holds the rows that
  have an alias, but it is searched by \<open>trunk_name\<close> too.\<close>

definition TrunkByNameList_find :: "Trunk list \<Rightarrow> string \<Rightarrow> int set \<Rightarrow> Trunk option" where
  "TrunkByNameList_find data trunk_name simblingRegions =
     first_of (dropWhile (\<lambda>t. tr_server_id t \<notin> simblingRegions)
                 (equal_range tr_trunk_name trunk_name data))"

definition TrunkByAliasList_find :: "Trunk list \<Rightarrow> string \<Rightarrow> int set \<Rightarrow> Trunk option" where
  "TrunkByAliasList_find data trunk_name simblingRegions =
     first_of (dropWhile (\<lambda>t. tr_server_id t \<notin> simblingRegions)
                 (equal_range tr_trunk_name trunk_name data))"

definition TrunkByNameList_load :: "Trunk list \<Rightarrow> Trunk list" where
  "TrunkByNameList_load rows = std_sort (\<lambda>l r. tr_trunk_name l < tr_trunk_name r) rows"

definition TrunkByAliasList_load :: "Trunk list \<Rightarrow> Trunk list" where
  "TrunkByAliasList_load rows = std_sort (\<lambda>l r. tr_trunk_name l < tr_trunk_name r) rows"

section \<open>Servers and hubs\<close>

text \<open>The configuration the sources read through \<open>app().conf\<close>.\<close>

record AppConf =
  cf_instance_id :: int
  cf_hub_id :: int
  cf_billing_free_seconds :: int

definition getServersByHubId :: "Server list \<Rightarrow> int \<Rightarrow> Server list" where
  "getServersByHubId data hub_id = filter (\<lambda>s. sv_hub_id s = hub_id) data"

definition ServerList_isRegionOnHub :: "AppConf \<Rightarrow> Server list \<Rightarrow> int \<Rightarrow> bool" where
  "ServerList_isRegionOnHub conf data region =
     (if cf_instance_id conf = region then True
      else if cf_hub_id conf > 0 then
        (case ServerList_find data region of
           Some s \<Rightarrow> sv_hub_id s = cf_hub_id conf
         | None \<Rightarrow> False)
      else False)"

definition sql_regions_list :: "AppConf \<Rightarrow> Server list \<Rightarrow> string" where
  "sql_regions_list conf data =
     (let own = ''('' @ lld (cf_instance_id conf) @ '')'' in
      if cf_hub_id conf > 0 then
        (let servers = getServersByHubId data (cf_hub_id conf) in
         if servers \<noteq> [] then
           (let s = ''('' @ concat (map (\<lambda>i. lld (sv_id i) @ '','') servers);
                s' = (if s \<noteq> [] \<and> last s = CHR '','' then butlast s else s)
            in s' @ '')'')
         else own)
      else own)"

definition ServerList_getSimblingRegion :: "Server list \<Rightarrow> int \<Rightarrow> int set" where
  "ServerList_getSimblingRegion data server_id =
     (case ServerList_find data server_id of
        None \<Rightarrow> {}
      | Some server \<Rightarrow>
          if sv_hub_id server > 0 then set (map sv_id (filter (\<lambda>i. sv_hub_id i = sv_hub_id server) data))
          else {server_id})"

definition ServerList_getServerIdByIP :: "Server list \<Rightarrow> int \<Rightarrow> int" where
  "ServerList_getServerIdByIP data addr =
     (case List.find (\<lambda>i. sv_nas_ip_address i = addr) data of Some s \<Rightarrow> sv_id s | None \<Rightarrow> 0)"

section \<open>Tables with two or three keys\<close>

definition findPackageMinuteCounter :: "GlobalNNPPackageMinuteCounters list \<Rightarrow> int \<Rightarrow> int \<Rightarrow> int" where
  "findPackageMinuteCounter data account_tariff_light_id package_minute_id =
     (case equal_range gn_nnp_package_minute_id package_minute_id
             (equal_range gn_nnp_account_tariff_light_id account_tariff_light_id data) of
        x # _ \<Rightarrow> gn_used_seconds x | [] \<Rightarrow> 0)"

definition RouteTableRouteList_findAll :: "RouteTableRoute list \<Rightarrow> int \<Rightarrow> RouteTableRoute list" where
  "RouteTableRouteList_findAll data route_table_id = equal_range rr_route_table_id route_table_id data"

definition ServiceTrunkSettingsList_findAll ::
    "ServiceTrunkSettings list \<Rightarrow> int \<Rightarrow> int \<Rightarrow> ServiceTrunkSettings list" where
  "ServiceTrunkSettingsList_findAll data trunk_id type =
     equal_range ss_type type (equal_range ss_trunk_id trunk_id data)"

definition StatDestinationPrefixlistsList_findAll :: "StatDestinationPrefixlists list \<Rightarrow> int \<Rightarrow> int list" where
  "StatDestinationPrefixlistsList_findAll data destination_id =
     map sd_prefixlist_id (equal_range sd_destination_id destination_id data)"

definition TrunkGroupItemList_findTrunkIds :: "TrunkGroupItem list \<Rightarrow> int \<Rightarrow> int list" where
  "TrunkGroupItemList_findTrunkIds data trunk_group_id =
     map ti_trunk_id (equal_range ti_trunk_group_id trunk_group_id data)"

definition TrunkNumberPreprocessingList_find ::
    "TrunkNumberPreprocessing list \<Rightarrow> int \<Rightarrow> int \<Rightarrow> TrunkNumberPreprocessing option" where
  "TrunkNumberPreprocessingList_find data trunk_id order =
     first_of (equal_range tn_order order (equal_range tn_trunk_id trunk_id data))"

definition TrunkPriorityList_find :: "TrunkPriority list \<Rightarrow> int \<Rightarrow> int \<Rightarrow> TrunkPriority option" where
  "TrunkPriorityList_find data trunk_id order =
     first_of (equal_range ty_order order (equal_range ty_trunk_id trunk_id data))"

definition findAllTrunkPriority :: "TrunkPriority list \<Rightarrow> int \<Rightarrow> TrunkPriority list" where
  "findAllTrunkPriority data trunk_id = equal_range ty_trunk_id trunk_id data"

definition TrunkRuleList_find :: "TrunkRule list \<Rightarrow> int \<Rightarrow> bool \<Rightarrow> int \<Rightarrow> TrunkRule option" where
  "TrunkRuleList_find data trunk_id outgoing order =
     first_of (equal_range tu_order order
       (equal_range tu_outgoing outgoing (equal_range tu_trunk_id trunk_id data)))"

definition TrunkRuleList_findAll :: "TrunkRule list \<Rightarrow> int \<Rightarrow> bool \<Rightarrow> TrunkRule list" where
  "TrunkRuleList_findAll data trunk_id outgoing =
     equal_range tu_outgoing outgoing (equal_range tu_trunk_id trunk_id data)"

definition findTrunkGroupRules :: "TrunkTrunkRule list \<Rightarrow> int \<Rightarrow> TrunkTrunkRule list" where
  "findTrunkGroupRules data trunk_id = equal_range tt_trunk_id trunk_id data"

definition findTrunkGroupIds :: "TrunkTrunkRule list \<Rightarrow> int \<Rightarrow> int list" where
  "findTrunkGroupIds data trunk_id = map tt_trunk_group_id (equal_range tt_trunk_id trunk_id data)"

section \<open>Services valid in a period\<close>

text \<open>The service tables are ordered by the key and then by the start of the service: the rows of
  the key that started by \<open>timestamp\<close>, of which those that have not ended are taken.\<close>

definition ServiceNumberList_find :: "ServiceNumber list \<Rightarrow> int \<Rightarrow> int \<Rightarrow> ServiceNumber option" where
  "ServiceNumberList_find data numberPrefix timestamp =
     List.find (\<lambda>s. sn_expire_dt s \<ge> timestamp)
       (upto_bound sn_activation_dt timestamp (equal_range sn_did (lld numberPrefix) data))"

definition ServiceNumberList_findAllByClientID :: "ServiceNumber list \<Rightarrow> int \<Rightarrow> ServiceNumber list" where
  "ServiceNumberList_findAllByClientID data client_id =
     filter (\<lambda>s. sn_client_account_id s = client_id) data"

text \<open>The comparator of the technical numbers puts an empty number before everything on either
  side.\<close>

definition ServiceNumberByTechNumberList_find :: "ServiceNumber list \<Rightarrow> int \<Rightarrow> int \<Rightarrow> ServiceNumber option" where
  "ServiceNumberByTechNumberList_find data technicalNumber timestamp =
     (let tech_number = lld technicalNumber in
      List.find (\<lambda>s. sn_expire_dt s \<ge> timestamp)
        (upto_bound sn_activation_dt timestamp
          (equal_range_by (\<lambda>s. if sn_tech_number s \<noteq> [] then sn_tech_number s < tech_number else True)
                          (\<lambda>s. if sn_tech_number s \<noteq> [] then tech_number < sn_tech_number s else True)
                          data)))"

definition ServiceTrunkList_findAll :: "ServiceTrunk list \<Rightarrow> int \<Rightarrow> int \<Rightarrow> ServiceTrunk list" where
  "ServiceTrunkList_findAll data trunk_id timestamp =
     filter (\<lambda>s. st_expire_dt s \<ge> timestamp)
       (upto_bound st_activation_dt timestamp (equal_range st_trunk_id trunk_id data))"

definition ServiceTrunkList_find :: "ServiceTrunk list \<Rightarrow> int \<Rightarrow> int \<Rightarrow> ServiceTrunk option" where
  "ServiceTrunkList_find data trunk_id timestamp = first_of (ServiceTrunkList_findAll data trunk_id timestamp)"

definition ServiceTrunkList_findAllByClientID :: "ServiceTrunk list \<Rightarrow> int \<Rightarrow> ServiceTrunk list" where
  "ServiceTrunkList_findAllByClientID data client_id =
     filter (\<lambda>s. st_client_account_id s = client_id) data"

definition ServiceNumberPackageList_findAll :: "ServicePackage list \<Rightarrow> int \<Rightarrow> int \<Rightarrow> ServicePackage list" where
  "ServiceNumberPackageList_findAll data service_number_id timestamp =
     filter (\<lambda>s. sp_expire_dt s > timestamp)
       (upto_bound sp_activation_dt timestamp (equal_range sp_service_number_id service_number_id data))"

definition ServiceTrunkPackageList_findAll :: "ServicePackage list \<Rightarrow> int \<Rightarrow> int \<Rightarrow> ServicePackage list" where
  "ServiceTrunkPackageList_findAll data service_trunk_id timestamp =
     filter (\<lambda>s. sp_expire_dt s > timestamp)
       (upto_bound sp_activation_dt timestamp (equal_range sp_service_trunk_id service_trunk_id data))"

section \<open>Rows valid in a period\<close>

text \<open>\<open>equal_range\<close> with the comparators \<open>date_to < t\<close> and \<open>t < date_from\<close>: the rows whose period
  contains \<open>t\<close>.\<close>

definition at_time :: "('a \<Rightarrow> int) \<Rightarrow> ('a \<Rightarrow> int) \<Rightarrow> int \<Rightarrow> 'a list \<Rightarrow> 'a list" where
  "at_time since till timestamp rows =
     equal_range_by (\<lambda>x. till x < timestamp) (\<lambda>x. timestamp < since x) rows"

text \<open>The periods of the rows follow one another.\<close>

definition consecutive :: "('a \<Rightarrow> int) \<Rightarrow> ('a \<Rightarrow> int) \<Rightarrow> 'a list \<Rightarrow> bool" where
  "consecutive since till rows \<longleftrightarrow>
     (\<forall>x \<in> set rows. since x \<le> till x) \<and> sorted_wrt (\<lambda>x y. till x < since y) rows"

lemma at_time_filter [range_simps]:
  assumes "consecutive since till rows"
  shows "at_time since till t rows = filter (\<lambda>x. since x \<le> t \<and> t \<le> till x) rows"
proof -
  have fits: "since x \<le> till x" if "x \<in> set rows" for x
    using assms that by (simp add: consecutive_def)
  have order: "sorted_wrt (\<lambda>x y. till x < since y) rows" using assms by (simp add: consecutive_def)
  have "at_time since till t rows = filter (\<lambda>x. \<not> till x < t \<and> \<not> t < since x) rows"
    unfolding at_time_def
  proof (rule equal_range_by_filter)
    show "partitioned (\<lambda>x. till x < t) rows" unfolding partitioned_def
      by (rule sorted_wrt_mono_rel [OF _ order]) (use fits in force)
    show "partitioned (\<lambda>x. \<not> t < since x) rows" unfolding partitioned_def
      by (rule sorted_wrt_mono_rel [OF _ order]) (use fits in force)
    show "\<not> t < since x" if "x \<in> set rows" "till x < t" for x using fits that by force
  qed
  then show ?thesis by (simp add: not_less conj_commute)
qed

lemma at_time_subset: "set (at_time since till t rows) \<subseteq> set rows"
  by (simp add: at_time_def equal_range_by_subset)

section \<open>Currency rates\<close>

text \<open>\<open>strncmp(a, b, 4) == 0\<close>.\<close>

definition same_currency :: "string \<Rightarrow> string \<Rightarrow> bool" where
  "same_currency a b \<longleftrightarrow> take 4 a = take 4 b"

definition CurrencyRateList_find :: "int \<Rightarrow> CurrencyRate list \<Rightarrow> string \<Rightarrow> CurrencyRate option" where
  "CurrencyRateList_find now data currency_id =
     (if currency_id = [] then None
      else List.find (\<lambda>r. same_currency (cr_currency r) currency_id \<and> get_tday now 3 \<ge> cr_date r) data)"

section \<open>Tariff change log\<close>

text \<open>\<open>load\<close> closes the period of each entry where the next entry of the same service starts; the
  loop carries the previous entry.\<close>

fun close_periods :: "TariffChangeLog \<Rightarrow> TariffChangeLog list \<Rightarrow> TariffChangeLog list" where
  "close_periods prevItem [] = [prevItem]"
| "close_periods prevItem (item # rest) =
     (if tc_usage_id prevItem = tc_usage_id item
      then prevItem\<lparr> tc_expire_dt := tc_activation_date item - 1 \<rparr> else prevItem)
     # close_periods (item\<lparr> tc_expire_dt := 64060588800 \<rparr>) rest"

definition TariffChangeLogList_load :: "TariffChangeLog list \<Rightarrow> TariffChangeLog list" where
  "TariffChangeLogList_load rows =
     (case rows of [] \<Rightarrow> [] | r # rs \<Rightarrow> close_periods (r\<lparr> tc_expire_dt := 64060588800 \<rparr>) rs)"

definition TariffChangeLogList_find :: "TariffChangeLog list \<Rightarrow> int \<Rightarrow> int \<Rightarrow> TariffChangeLog option" where
  "TariffChangeLogList_find data usage_id timestamp =
     first_of (at_time tc_activation_date tc_expire_dt timestamp (equal_range tc_usage_id usage_id data))"

section \<open>Prefix tables\<close>

definition MobPrefixList_lookup :: "MobPrefix list \<Rightarrow> string \<Rightarrow> MobPrefix option" where
  "MobPrefixList_lookup data pfx =
     (if pfx = [] then None else first_of (equal_range mp_prefix pfx data))"

definition MobPrefixList_find :: "MobPrefix list \<Rightarrow> int \<Rightarrow> MobPrefix option" where
  "MobPrefixList_find data pfx = longest_prefix (MobPrefixList_lookup data) (lld pfx)"

definition GeoPrefixList_lookup :: "GeoPrefix list \<Rightarrow> string \<Rightarrow> GeoPrefix option" where
  "GeoPrefixList_lookup data pfx =
     (if pfx = [] then None else first_of (equal_range gp_prefix pfx data))"

definition GeoPrefixList_find :: "GeoPrefix list \<Rightarrow> int \<Rightarrow> GeoPrefix option" where
  "GeoPrefixList_find data pfx = longest_prefix (GeoPrefixList_lookup data) (lld pfx)"

definition NetworkPrefixList_lookup :: "NetworkPrefix list \<Rightarrow> int \<Rightarrow> int \<Rightarrow> string \<Rightarrow> NetworkPrefix option" where
  "NetworkPrefixList_lookup data network_config_id timestamp pfx =
     (let r1 = equal_range np_network_config_id network_config_id data;
          r2 = (if pfx \<noteq> [] then equal_range np_prefix pfx r1 else r1)
      in first_of (at_time np_date_from np_date_to timestamp r2))"

definition NetworkPrefixList_find :: "NetworkPrefix list \<Rightarrow> int \<Rightarrow> int \<Rightarrow> int \<Rightarrow> NetworkPrefix option" where
  "NetworkPrefixList_find data network_config_id numberPrefix timestamp =
     longest_prefix (NetworkPrefixList_lookup data network_config_id timestamp) (lld numberPrefix)"

definition PricelistPriceList_lookup :: "PricelistPrice list \<Rightarrow> int \<Rightarrow> int \<Rightarrow> string \<Rightarrow> PricelistPrice option" where
  "PricelistPriceList_lookup data pricelist_id timestamp pfx =
     (let r1 = equal_range pp_pricelist_id pricelist_id data;
          r2 = (if pfx \<noteq> [] then equal_range pp_prefix pfx r1 else r1)
      in first_of (at_time pp_date_from pp_date_to timestamp r2))"

definition PricelistPriceList_find :: "PricelistPrice list \<Rightarrow> int \<Rightarrow> int \<Rightarrow> int \<Rightarrow> PricelistPrice option" where
  "PricelistPriceList_find data pricelist_id numberPrefix timestamp =
     longest_prefix (PricelistPriceList_lookup data pricelist_id timestamp) (lld numberPrefix)"

definition PrefixlistPrefixList_lookup :: "PrefixlistPrefix list \<Rightarrow> int \<Rightarrow> string \<Rightarrow> PrefixlistPrefix option" where
  "PrefixlistPrefixList_lookup data prefixlist_id pfx =
     (let r1 = equal_range px_prefixlist_id prefixlist_id data;
          r2 = (if pfx \<noteq> [] then equal_range px_prefix pfx r1 else r1)
      in first_of r2)"

text \<open>The argument is copied to a \<open>char[20]\<close> with \<open>strcpy\<close>: a text of 20 characters or more runs
  over the end of the buffer.\<close>

definition PrefixlistPrefixList_find :: "PrefixlistPrefix list \<Rightarrow> int \<Rightarrow> string \<Rightarrow> PrefixlistPrefix option exc" where
  "PrefixlistPrefixList_find data prefixlist_id pfx =
     (if length pfx \<ge> 20 then Undef
      else Val (longest_prefix (PrefixlistPrefixList_lookup data prefixlist_id) pfx))"

section \<open>What the prefix tables promise\<close>

lemma order2_range:
  assumes "sorted_by2 f g xs"
  shows "equal_range f k xs = filter (\<lambda>x. f x = k) xs"
    and "equal_range g l (filter (\<lambda>x. f x = k) xs) = filter (\<lambda>x. f x = k \<and> g x = l) xs"
    and "upto_bound g t (filter (\<lambda>x. f x = k) xs) = filter (\<lambda>x. f x = k \<and> g x \<le> t) xs"
  using sorted_by2_fst [OF assms] sorted_by2_snd [OF assms]
  by (simp_all add: equal_range_filter upto_bound_filter)

lemma sorted_by2_pair: "sorted_by2 f g xs \<longleftrightarrow> sorted (map (\<lambda>x. (f x, g x)) xs)"
  unfolding sorted_by2_def sorted_map
  by (rule iffI; erule sorted_wrt_mono_rel [rotated]) auto

interpretation mob: prefix_table MobPrefixList_lookup "\<lambda>data. longest_prefix (MobPrefixList_lookup data)"
  by unfold_locales (rule refl)

interpretation geo: prefix_table GeoPrefixList_lookup "\<lambda>data. longest_prefix (GeoPrefixList_lookup data)"
  by unfold_locales (rule refl)

lemma prefix_cut:
  assumes "prefix p s"
  shows "length p \<le> length s" and "take (length p) s = p"
  using assms by (auto simp: prefix_def)

text \<open>A table with a key, a prefix and a period: the two tables differ in the names of their
  columns only.\<close>

locale dated_prefixes =
  fixes key :: "'a \<Rightarrow> int" and pref :: "'a \<Rightarrow> string" and since :: "'a \<Rightarrow> int" and till :: "'a \<Rightarrow> int"
    and lookup :: "'a list \<Rightarrow> int \<Rightarrow> int \<Rightarrow> string \<Rightarrow> 'a option"
    and find :: "'a list \<Rightarrow> int \<Rightarrow> int \<Rightarrow> int \<Rightarrow> 'a option"
  assumes lookup_range: "p \<noteq> [] \<Longrightarrow>
      lookup data k t p = first_of (at_time since till t (equal_range pref p (equal_range key k data)))"
    and find_longest_prefix: "find data k n t = longest_prefix (lookup data k t) (lld n)"
begin

text \<open>The rows come ordered by key and prefix, and the periods of one prefix do not overlap.\<close>

definition ordered :: "'a list \<Rightarrow> bool" where
  "ordered data \<longleftrightarrow> sorted_by2 key pref data \<and>
     (\<forall>k p. consecutive since till (filter (\<lambda>x. key x = k \<and> pref x = p) data))"

lemma lookup_filter:
  assumes "ordered data" and "p \<noteq> []"
  shows "lookup data k t p = List.find (\<lambda>x. key x = k \<and> pref x = p \<and> since x \<le> t \<and> t \<le> till x) data"
proof -
  have two: "sorted_by2 key pref data"
    and cons: "consecutive since till (filter (\<lambda>x. key x = k \<and> pref x = p) data)"
    using assms(1) by (simp_all add: ordered_def)
  show ?thesis
    unfolding lookup_range [OF assms(2)] order2_range [OF two] at_time_filter [OF cons]
    by (simp add: conj_assoc flip: first_of_filter)
qed

lemma find_row:
  assumes "find data k n t = Some r"
  shows "\<exists>i. 0 < i \<and> i \<le> length (lld n) \<and> lookup data k t (take i (lld n)) = Some r \<and>
             (\<forall>j. i < j \<and> j \<le> length (lld n) \<longrightarrow> lookup data k t (take j (lld n)) = None)"
  using assms prefix_loop_Some [of "lookup data k t" "lld n" "length (lld n)" r]
  unfolding find_longest_prefix longest_prefix_def by blast

lemma find_sound:
  assumes "ordered data" and "find data k n t = Some r"
  shows "r \<in> set data \<and> key r = k \<and> since r \<le> t \<and> t \<le> till r \<and> prefix (pref r) (lld n)"
proof -
  obtain i where i: "0 < i" "i \<le> length (lld n)" "lookup data k t (take i (lld n)) = Some r"
    using find_row [OF assms(2)] by blast
  then have ne: "take i (lld n) \<noteq> []" by auto
  have "List.find (\<lambda>x. key x = k \<and> pref x = take i (lld n) \<and> since x \<le> t \<and> t \<le> till x) data = Some r"
    using i(3) lookup_filter [OF assms(1) ne] by simp
  then show ?thesis by (auto simp: find_Some_iff take_is_prefix)
qed

lemma found_in_table:
  assumes "ordered data" and "x \<in> set data" "key x = k" "since x \<le> t" "t \<le> till x" "pref x \<noteq> []"
  shows "lookup data k t (pref x) \<noteq> None"
  unfolding lookup_filter [OF assms(1,6)] find_None_iff using assms(2-5) by blast

lemma find_best:
  assumes "ordered data" and "find data k n t = Some r"
    and x: "x \<in> set data" "key x = k" "since x \<le> t" "t \<le> till x" "prefix (pref x) (lld n)"
  shows "length (pref x) \<le> length (pref r)"
proof (rule ccontr)
  assume longer: "\<not> ?thesis"
  obtain i where i: "0 < i" "i \<le> length (lld n)" "lookup data k t (take i (lld n)) = Some r"
    and none: "\<And>j. i < j \<Longrightarrow> j \<le> length (lld n) \<Longrightarrow> lookup data k t (take j (lld n)) = None"
    using find_row [OF assms(2)] by blast
  then have ne: "take i (lld n) \<noteq> []" by auto
  have "pref r = take i (lld n)"
    using i(3) unfolding lookup_filter [OF assms(1) ne] find_Some_iff by blast
  with i(2) have len: "length (pref r) = i" by simp
  have j: "i < length (pref x)" "length (pref x) \<le> length (lld n)"
    and px: "take (length (pref x)) (lld n) = pref x"
    using longer len prefix_cut [OF x(5)] by simp_all
  have "pref x \<noteq> []" using j(1) by auto
  from found_in_table [OF assms(1) x(1-4) this] none [OF j] show False unfolding px by simp
qed

lemma find_total:
  assumes "ordered data"
    and x: "x \<in> set data" "key x = k" "since x \<le> t" "t \<le> till x" "prefix (pref x) (lld n)" "pref x \<noteq> []"
  shows "\<exists>r. find data k n t = Some r"
proof -
  have "lookup data k t (take (length (pref x)) (lld n)) \<noteq> None"
    unfolding prefix_cut(2) [OF x(5)] by (rule found_in_table [OF assms(1) x(1-4,6)])
  moreover have "0 < length (pref x)" "length (pref x) \<le> length (lld n)"
    using x(6) prefix_cut(1) [OF x(5)] by simp_all
  ultimately have "\<not> (\<forall>i. 0 < i \<and> i \<le> length (lld n) \<longrightarrow> lookup data k t (take i (lld n)) = None)"
    by (metis (no_types))
  then have "find data k n t \<noteq> None"
    unfolding find_longest_prefix longest_prefix_def prefix_loop_None .
  then show ?thesis by simp
qed

end

interpretation prices: dated_prefixes pp_pricelist_id pp_prefix pp_date_from pp_date_to
    PricelistPriceList_lookup PricelistPriceList_find
  by unfold_locales (simp_all add: PricelistPriceList_lookup_def PricelistPriceList_find_def)

interpretation networks: dated_prefixes np_network_config_id np_prefix np_date_from np_date_to
    NetworkPrefixList_lookup NetworkPrefixList_find
  by unfold_locales (simp_all add: NetworkPrefixList_lookup_def NetworkPrefixList_find_def)

lemma PrefixlistPrefixList_lookup_sorted:
  assumes "sorted_by2 px_prefixlist_id px_prefix data" and "p \<noteq> []"
  shows "PrefixlistPrefixList_lookup data k p = List.find (\<lambda>x. px_prefixlist_id x = k \<and> px_prefix x = p) data"
proof -
  show ?thesis using assms(2)
    by (simp add: PrefixlistPrefixList_lookup_def order2_range [OF assms(1)] first_of_filter)
qed

text \<open>A number matches a prefix list iff one of the list's prefixes begins it.\<close>

lemma PrefixlistPrefixList_find_iff:
  assumes "sorted_by2 px_prefixlist_id px_prefix data" and "length s < 20"
  shows "(\<exists>r. PrefixlistPrefixList_find data k s = Val (Some r)) \<longleftrightarrow>
         (\<exists>x \<in> set data. px_prefixlist_id x = k \<and> px_prefix x \<noteq> [] \<and> prefix (px_prefix x) s)"
proof -
  have row: "PrefixlistPrefixList_lookup data k (take i s) \<noteq> None \<longleftrightarrow>
      (\<exists>x \<in> set data. px_prefixlist_id x = k \<and> px_prefix x = take i s)" if "0 < i" "i \<le> length s" for i
  proof -
    have ne: "take i s \<noteq> []" using that by auto
    show ?thesis
      unfolding PrefixlistPrefixList_lookup_sorted [OF assms(1) ne] find_None_iff by blast
  qed
  have "(\<exists>r. PrefixlistPrefixList_find data k s = Val (Some r)) \<longleftrightarrow>
      (\<exists>i. 0 < i \<and> i \<le> length s \<and> PrefixlistPrefixList_lookup data k (take i s) \<noteq> None)"
    using assms(2) prefix_loop_None [of "PrefixlistPrefixList_lookup data k" s "length s"]
    by (auto simp: PrefixlistPrefixList_find_def longest_prefix_def)
  also have "\<dots> \<longleftrightarrow> (\<exists>i. 0 < i \<and> i \<le> length s \<and>
      (\<exists>x \<in> set data. px_prefixlist_id x = k \<and> px_prefix x = take i s))"
    using row by blast
  also have "\<dots> \<longleftrightarrow> (\<exists>x \<in> set data. px_prefixlist_id x = k \<and> px_prefix x \<noteq> [] \<and> prefix (px_prefix x) s)"
    (is "?L \<longleftrightarrow> ?R")
  proof
    assume ?L then show ?R by (auto simp: take_is_prefix intro!: bexI)
  next
    assume ?R
    then obtain x where x: "x \<in> set data" "px_prefixlist_id x = k" "px_prefix x \<noteq> []" "prefix (px_prefix x) s"
      by blast
    with prefix_cut [OF x(4)] show ?L by (intro exI [of _ "length (px_prefix x)"]) auto
  qed
  finally show ?thesis .
qed

section \<open>Services and the tariff log\<close>

lemma ServiceTrunkList_findAll_filter:
  assumes "sorted_by2 st_trunk_id st_activation_dt data"
  shows "ServiceTrunkList_findAll data k t =
    filter (\<lambda>s. st_trunk_id s = k \<and> st_activation_dt s \<le> t \<and> t \<le> st_expire_dt s) data"
  unfolding ServiceTrunkList_findAll_def
  by (auto simp: order2_range [OF assms] intro!: filter_cong)

lemma ServiceNumberList_find_first:
  assumes "sorted_by2 sn_did sn_activation_dt data"
  shows "ServiceNumberList_find data n t =
    List.find (\<lambda>s. sn_did s = lld n \<and> sn_activation_dt s \<le> t \<and> t \<le> sn_expire_dt s) data"
  unfolding ServiceNumberList_find_def
  by (simp add: order2_range [OF assms] conj_assoc flip: first_of_filter)

text \<open>The alias and name searches return a trunk of that name in one of the regions, if the table
  has one.\<close>

interpretation trunk_names: weak_order "\<lambda>l r. tr_trunk_name l < tr_trunk_name r"
  by unfold_locales auto

lemma TrunkByNameList_load_sorted: "sorted (map tr_trunk_name (TrunkByNameList_load rows))"
  using trunk_names.std_sort_sorted [of rows]
  by (simp add: TrunkByNameList_load_def sorted_map not_less)

lemma TrunkByNameList_find_loaded:
  "TrunkByNameList_find (TrunkByNameList_load rows) n regions =
     List.find (\<lambda>t. tr_trunk_name t = n \<and> tr_server_id t \<in> regions) (TrunkByNameList_load rows)"
proof -
  have *: "first_of (dropWhile (\<lambda>t. \<not> P t) xs) = List.find P xs" for P and xs :: "Trunk list"
    by (induction xs) auto
  show ?thesis
    unfolding TrunkByNameList_find_def
    by (simp add: equal_range_filter TrunkByNameList_load_sorted * flip: first_of_filter)
qed

end
