(* ===== verification/Number_Range_Tree.thy ===== *)
theory Number_Range_Tree
  imports Obj_Lists
begin

text \<open>
  The index of the number ranges, \<^verbatim>\<open>src/src-bill/lists/nnp/NNPNumberRangeList.cpp\<close>: an AVL tree
  whose nodes carry a number as key and the ranges that contain the key. The source keeps the
  nodes in a vector and links them by position; here a node holds its sub-trees. A range is
  stored once, as its two ends and its position in \<open>data\<close>.
  The lemmas show that insertion and rotations keep the order of the keys, the place of every
  range and the balance, and that the search finds a shortest range containing the number.
\<close>

section \<open>Nodes\<close>

type_synonym border = "(int \<times> int) \<times> nat"

datatype range_tree = Nil_node
  | Range_node (node_key: int) (node_height: int) (node_borders: "border list")
      (leftNode: range_tree) (rightNode: range_tree)

definition isOverlaps :: "int \<Rightarrow> int \<Rightarrow> int \<Rightarrow> bool" where
  "isOverlaps key lo hi \<longleftrightarrow> lo \<le> key \<and> key \<le> hi"

text \<open>\<open>(to + from) / 2\<close>, rounded towards zero.\<close>

definition mid_key :: "int \<Rightarrow> int \<Rightarrow> int" where
  "mid_key lo hi = sgn (hi + lo) * (\<bar>hi + lo\<bar> div 2)"

definition new_node :: "nat \<Rightarrow> int \<Rightarrow> int \<Rightarrow> range_tree" where
  "new_node index lo hi =
     (let key = mid_key lo hi
      in Range_node key 1 (if isOverlaps key lo hi then [((lo, hi), index)] else []) Nil_node Nil_node)"

fun node_ht :: "range_tree \<Rightarrow> int" where
  "node_ht Nil_node = 0"
| "node_ht (Range_node k h bs l r) = h"

section \<open>Balancing\<close>

fun getBalanceFactor :: "range_tree \<Rightarrow> int" where
  "getBalanceFactor Nil_node = 0"
| "getBalanceFactor (Range_node k h bs l r) = node_ht r - node_ht l"

fun fixHeight :: "range_tree \<Rightarrow> range_tree" where
  "fixHeight Nil_node = Nil_node"
| "fixHeight (Range_node k h bs l r) =
     Range_node k ((if node_ht l > node_ht r then node_ht l else node_ht r) + 1) bs l r"

text \<open>The ranges of the lower node that contain the key of the rising node move up with it; their
  ends are read again from \<open>data\<close>.\<close>

definition lifted :: "NNPNumberRange list \<Rightarrow> int \<Rightarrow> border list \<Rightarrow> border list" where
  "lifted data qk bs =
     map (\<lambda>b. ((nr_full_number_from (data ! snd b), nr_full_number_to (data ! snd b)), snd b))
       (filter (\<lambda>b. fst (fst b) \<le> qk \<and> snd (fst b) \<ge> qk) bs)"

definition remaining :: "int \<Rightarrow> border list \<Rightarrow> border list" where
  "remaining qk bs = filter (\<lambda>b. \<not> (fst (fst b) \<le> qk \<and> snd (fst b) \<ge> qk)) bs"

text \<open>A rotation follows a link that \<open>balance\<close> has checked: without the child there is nothing to
  rotate (\<open>avlTree[-1]\<close> in the source, never reached).\<close>

fun rotateRight :: "NNPNumberRange list \<Rightarrow> range_tree \<Rightarrow> range_tree" where
  "rotateRight data (Range_node k h bs (Range_node qk qh qbs ql qr) r) =
     fixHeight (Range_node qk qh (qbs @ lifted data qk bs) ql
       (fixHeight (Range_node k h (remaining qk bs) qr r)))"
| "rotateRight data t = t"

fun rotateLeft :: "NNPNumberRange list \<Rightarrow> range_tree \<Rightarrow> range_tree" where
  "rotateLeft data (Range_node k h bs l (Range_node qk qh qbs ql qr)) =
     fixHeight (Range_node qk qh (qbs @ lifted data qk bs)
       (fixHeight (Range_node k h (remaining qk bs) l ql)) qr)"
| "rotateLeft data t = t"

definition balance_node :: "NNPNumberRange list \<Rightarrow> range_tree \<Rightarrow> range_tree" where
  "balance_node data t =
     (case fixHeight t of
        Nil_node \<Rightarrow> Nil_node
      | Range_node k h bs l r \<Rightarrow>
          (let bf = getBalanceFactor (Range_node k h bs l r) in
           if bf = 2 then
             rotateLeft data (Range_node k h bs l (if getBalanceFactor r < 0 then rotateRight data r else r))
           else if bf = - 2 then
             rotateRight data (Range_node k h bs (if getBalanceFactor l > 0 then rotateLeft data l else l) r)
           else Range_node k h bs l r))"

section \<open>Insertion and loading\<close>

fun insertNode :: "NNPNumberRange list \<Rightarrow> range_tree \<Rightarrow> nat \<Rightarrow> range_tree" where
  "insertNode data Nil_node index =
     new_node index (nr_full_number_from (data ! index)) (nr_full_number_to (data ! index))"
| "insertNode data (Range_node k h bs l r) index =
     (let lo = nr_full_number_from (data ! index); hi = nr_full_number_to (data ! index) in
      if isOverlaps k lo hi then balance_node data (Range_node k h (bs @ [((lo, hi), index)]) l r)
      else if getMidKey (data ! index) < k then balance_node data (Range_node k h bs (insertNode data l index) r)
      else balance_node data (Range_node k h bs l (insertNode data r index)))"

text \<open>\<open>load\<close> inserts the rows in the order of the query.\<close>

definition load_ranges :: "NNPNumberRange list \<Rightarrow> range_tree" where
  "load_ranges data = foldl (insertNode data) Nil_node [0 ..< length data]"

section \<open>Search\<close>

definition shorter_of :: "NNPNumberRange list \<Rightarrow> nat option \<Rightarrow> nat \<Rightarrow> nat option" where
  "shorter_of data result i =
     (case result of
        None \<Rightarrow> Some i
      | Some j \<Rightarrow> if getLength (data ! j) \<ge> getLength (data ! i) then Some i else Some j)"

text \<open>\<open>result\<close> is the best position so far (\<open>None\<close> for the source's \<open>-1\<close>); the number is the count
  of ranges met.\<close>

fun searchNumberRanges :: "NNPNumberRange list \<Rightarrow> int \<Rightarrow> range_tree \<Rightarrow> nat option \<Rightarrow> nat option \<times> nat" where
  "searchNumberRanges data num Nil_node result = (result, 0)"
| "searchNumberRanges data num (Range_node k h bs l r) result =
     (if num = k then (foldl (shorter_of data) result (map snd bs), length bs)
      else
        (let met = filter (\<lambda>b. num \<le> snd (fst b) \<and> num \<ge> fst (fst b)) bs;
             result' = foldl (shorter_of data) result (map snd met);
             (result'', n) = (if num \<le> k then searchNumberRanges data num l result'
                              else searchNumberRanges data num r result')
         in (result'', length met + n)))"

definition getNNPNumberRange_index :: "NNPNumberRange list \<Rightarrow> range_tree \<Rightarrow> int \<Rightarrow> nat option" where
  "getNNPNumberRange_index data avlRoot num =
     (if num > 0 \<and> data \<noteq> [] then
        (case fst (searchNumberRanges data num avlRoot None) of
           None \<Rightarrow> None
         | Some i \<Rightarrow> if nr_full_number_from (data ! i) \<le> num \<and> num \<le> nr_full_number_to (data ! i)
                     then Some i else None)
      else None)"

definition getNNPNumberRangeById :: "NNPNumberRange list \<Rightarrow> int \<Rightarrow> NNPNumberRange option" where
  "getNNPNumberRangeById data i =
     (if i < 1 \<or> length data < 1 then None else first_of (equal_range nr_id i data))"

section \<open>Order of keys and place of ranges\<close>

fun tree_keys :: "range_tree \<Rightarrow> int set" where
  "tree_keys Nil_node = {}"
| "tree_keys (Range_node k h bs l r) = insert k (tree_keys l \<union> tree_keys r)"

fun tree_borders :: "range_tree \<Rightarrow> border set" where
  "tree_borders Nil_node = {}"
| "tree_borders (Range_node k h bs l r) = set bs \<union> tree_borders l \<union> tree_borders r"

definition border_of :: "NNPNumberRange list \<Rightarrow> border \<Rightarrow> bool" where
  "border_of data b \<longleftrightarrow> snd b < length data \<and>
     fst b = (nr_full_number_from (data ! snd b), nr_full_number_to (data ! snd b))"

text \<open>Every range lies in the first node on its way down whose key it contains.\<close>

fun placed :: "NNPNumberRange list \<Rightarrow> range_tree \<Rightarrow> bool" where
  "placed data Nil_node = True"
| "placed data (Range_node k h bs l r) \<longleftrightarrow>
     (\<forall>b \<in> set bs. border_of data b \<and> fst (fst b) \<le> k \<and> k \<le> snd (fst b)) \<and>
     (\<forall>x \<in> tree_keys l. x < k) \<and> (\<forall>x \<in> tree_keys r. k < x) \<and>
     (\<forall>b \<in> tree_borders l. snd (fst b) < k) \<and> (\<forall>b \<in> tree_borders r. k < fst (fst b)) \<and>
     placed data l \<and> placed data r"

lemma lifted_eq:
  assumes "\<forall>b \<in> set bs. border_of data b"
  shows "lifted data qk bs = filter (\<lambda>b. fst (fst b) \<le> qk \<and> snd (fst b) \<ge> qk) bs"
proof -
  have "((nr_full_number_from (data ! snd b), nr_full_number_to (data ! snd b)), snd b) = b"
    if "b \<in> set bs" for b
    using assms that by (metis border_of_def prod.collapse)
  then show ?thesis unfolding lifted_def by (intro map_idI) simp
qed

lemma fixHeight_same [simp]:
  "tree_keys (fixHeight t) = tree_keys t" "tree_borders (fixHeight t) = tree_borders t"
  "placed data (fixHeight t) = placed data t"
  by (cases t; simp)+

lemma tree_keys_rotate [simp]:
  "tree_keys (rotateRight data t) = tree_keys t" "tree_keys (rotateLeft data t) = tree_keys t"
  by (induction data t rule: rotateRight.induct; auto)
     (induction data t rule: rotateLeft.induct; auto)

lemma placed_borders: "placed data t \<Longrightarrow> b \<in> tree_borders t \<Longrightarrow> border_of data b"
  by (induction t) auto

lemma tree_borders_rotateRight [simp]:
  assumes "placed data t"
  shows "tree_borders (rotateRight data t) = tree_borders t"
  using assms
proof (induction data t rule: rotateRight.induct)
  case (1 data k h bs qk qh qbs ql qr r)
  then show ?case by (auto simp: lifted_eq remaining_def)
qed simp_all

lemma tree_borders_rotateLeft [simp]:
  assumes "placed data t"
  shows "tree_borders (rotateLeft data t) = tree_borders t"
  using assms
proof (induction data t rule: rotateLeft.induct)
  case (1 data k h bs l qk qh qbs ql qr)
  then show ?case by (auto simp: lifted_eq remaining_def)
qed simp_all

lemma placed_rotateRight:
  assumes "placed data t"
  shows "placed data (rotateRight data t)"
  using assms
proof (induction data t rule: rotateRight.induct)
  case (1 data k h bs qk qh qbs ql qr r)
  then have "qk < k" by simp
  with 1 show ?case by (force simp: lifted_eq remaining_def not_le)
qed simp_all

lemma placed_rotateLeft:
  assumes "placed data t"
  shows "placed data (rotateLeft data t)"
  using assms
proof (induction data t rule: rotateLeft.induct)
  case (1 data k h bs l qk qh qbs ql qr)
  then have "k < qk" by simp
  with 1 show ?case by (force simp: lifted_eq remaining_def not_le)
qed simp_all

lemma balance_node_same:
  assumes "placed data t"
  shows "placed data (balance_node data t)"
    and "tree_keys (balance_node data t) = tree_keys t"
    and "tree_borders (balance_node data t) = tree_borders t"
proof -
  have "placed data (balance_node data t) \<and> tree_keys (balance_node data t) = tree_keys t \<and>
      tree_borders (balance_node data t) = tree_borders t"
  proof (cases t)
    case Nil_node
    then show ?thesis by (simp add: balance_node_def)
  next
    case (Range_node k h bs l r)
    with assms have l: "placed data l" and r: "placed data r" by simp_all
    have r': "placed data (Range_node k h' bs l (rotateRight data r))"
      and l': "placed data (Range_node k h' bs (rotateLeft data l) r)" for h'
      using assms Range_node l r by (auto simp: placed_rotateRight placed_rotateLeft)
    show ?thesis
      using assms Range_node l r l' r'
      by (auto simp: balance_node_def Let_def placed_rotateLeft placed_rotateRight)
  qed
  then show "placed data (balance_node data t)" and "tree_keys (balance_node data t) = tree_keys t"
    and "tree_borders (balance_node data t) = tree_borders t" by simp_all
qed

text \<open>A row is proper when its ends are in order and not negative, as the query demands.\<close>

definition proper_range :: "NNPNumberRange \<Rightarrow> bool" where
  "proper_range x \<longleftrightarrow> 0 \<le> nr_full_number_from x \<and> nr_full_number_from x \<le> nr_full_number_to x"

definition row_border :: "NNPNumberRange list \<Rightarrow> nat \<Rightarrow> border" where
  "row_border data i = ((nr_full_number_from (data ! i), nr_full_number_to (data ! i)), i)"

lemma mid_key_bounds:
  assumes "0 \<le> lo" and "lo \<le> hi"
  shows "lo \<le> mid_key lo hi" and "mid_key lo hi \<le> hi" and "mid_key lo hi = (hi + lo) div 2"
proof -
  show eq: "mid_key lo hi = (hi + lo) div 2"
    using assms unfolding mid_key_def by (cases "hi + lo = 0") simp_all
  show "lo \<le> mid_key lo hi" and "mid_key lo hi \<le> hi"
    using assms unfolding eq by linarith+
qed

lemma getMidKey_mid: "getMidKey x = mid_key (nr_full_number_from x) (nr_full_number_to x)"
  by (simp add: getMidKey_def mid_key_def Let_def)

lemma placed_insertNode:
  assumes "placed data t" and "index < length data" and "proper_range (data ! index)"
  shows "placed data (insertNode data t index) \<and>
    tree_borders (insertNode data t index) = insert (row_border data index) (tree_borders t) \<and>
    tree_keys (insertNode data t index) \<subseteq> insert (getMidKey (data ! index)) (tree_keys t)"
  using assms
proof (induction data t index rule: insertNode.induct)
  case (1 data index)
  then show ?case
    by (auto simp: new_node_def Let_def isOverlaps_def proper_range_def mid_key_bounds
        border_of_def row_border_def getMidKey_mid)
next
  case (2 data k h bs l r index)
  define lo where "lo = nr_full_number_from (data ! index)"
  define hi where "hi = nr_full_number_to (data ! index)"
  define mid where "mid = getMidKey (data ! index)"
  note defs = lo_def [symmetric] hi_def [symmetric] mid_def [symmetric]
  have mid: "lo \<le> mid" "mid \<le> hi" "lo \<le> hi"
    using "2.prems"(3) mid_key_bounds [of lo hi]
    unfolding lo_def hi_def mid_def getMidKey_mid proper_range_def by blast+
  have rb: "row_border data index = ((lo, hi), index)" "border_of data ((lo, hi), index)"
    using "2.prems"(2) by (simp_all add: row_border_def border_of_def lo_def hi_def)
  show ?case
  proof (cases "isOverlaps k lo hi")
    case True
    let ?t = "Range_node k h (bs @ [((lo, hi), index)]) l r"
    have "placed data ?t" using "2.prems"(1) True rb by (auto simp: isOverlaps_def)
    from balance_node_same [OF this] show ?thesis using True by (auto simp: Let_def defs rb)
  next
    case no: False
    show ?thesis
    proof (cases "mid < k")
      case True
      let ?t = "Range_node k h bs (insertNode data l index) r"
      have IH: "placed data (insertNode data l index)"
        "tree_borders (insertNode data l index) = insert ((lo, hi), index) (tree_borders l)"
        "tree_keys (insertNode data l index) \<subseteq> insert mid (tree_keys l)"
        using "2.IH"(1) [OF lo_def hi_def] no True "2.prems" by (simp_all add: rb mid_def)
      have "hi < k" using no mid True by (auto simp: isOverlaps_def)
      with "2.prems"(1) IH True have "placed data ?t" by auto
      from balance_node_same [OF this] show ?thesis using no True IH by (auto simp: Let_def defs rb)
    next
      case False
      let ?t = "Range_node k h bs l (insertNode data r index)"
      have IH: "placed data (insertNode data r index)"
        "tree_borders (insertNode data r index) = insert ((lo, hi), index) (tree_borders r)"
        "tree_keys (insertNode data r index) \<subseteq> insert mid (tree_keys r)"
        using "2.IH"(2) [OF lo_def hi_def] no False "2.prems" by (simp_all add: rb mid_def)
      have lk: "k < lo" using no mid False by (auto simp: isOverlaps_def)
      with "2.prems"(1) IH mid have "placed data ?t" by auto
      from balance_node_same [OF this] show ?thesis using no False IH by (auto simp: Let_def defs rb)
    qed
  qed
qed


lemma placed_foldl:
  assumes "placed data t" and "\<forall>i \<in> set is. i < length data \<and> proper_range (data ! i)"
  shows "placed data (foldl (insertNode data) t is) \<and>
    tree_borders (foldl (insertNode data) t is) = row_border data ` set is \<union> tree_borders t"
  using assms
proof (induction "is" arbitrary: t)
  case (Cons i "is")
  then have "placed data (insertNode data t i)"
    "tree_borders (insertNode data t i) = insert (row_border data i) (tree_borders t)"
    using placed_insertNode [of data t i] by simp_all
  with Cons show ?case by simp
qed simp

lemma load_ranges_placed:
  assumes "\<forall>x \<in> set data. proper_range x"
  shows "placed data (load_ranges data)"
    and "tree_borders (load_ranges data) = row_border data ` {0 ..< length data}"
  using placed_foldl [of data Nil_node "[0 ..< length data]"] assms
  by (simp_all add: load_ranges_def)

section \<open>The search visits the ranges that contain the number\<close>

definition covers :: "NNPNumberRange \<Rightarrow> int \<Rightarrow> bool" where
  "covers x num \<longleftrightarrow> nr_full_number_from x \<le> num \<and> num \<le> nr_full_number_to x"

fun visited :: "int \<Rightarrow> range_tree \<Rightarrow> nat list" where
  "visited num Nil_node = []"
| "visited num (Range_node k h bs l r) =
     (if num = k then map snd bs
      else map snd (filter (\<lambda>b. num \<le> snd (fst b) \<and> num \<ge> fst (fst b)) bs)
           @ (if num \<le> k then visited num l else visited num r))"

lemma searchNumberRanges_visited:
  "searchNumberRanges data num t result
     = (foldl (shorter_of data) result (visited num t), length (visited num t))"
  by (induction t arbitrary: result) (auto simp: Let_def)

lemma visited_covers:
  assumes "placed data t"
  shows "set (visited num t) = {i. row_border data i \<in> tree_borders t \<and> covers (data ! i) num}"
  using assms
proof (induction t)
  case (Range_node k h bs l r)
  have bs: "row_border data (snd b) = b" if "b \<in> set bs" for b
    using that Range_node.prems by (auto simp: border_of_def row_border_def prod_eq_iff)
  have left: "\<not> covers (data ! i) num" if "row_border data i \<in> tree_borders l" "k \<le> num" for i
    using that Range_node.prems by (force simp: covers_def row_border_def)
  have right: "\<not> covers (data ! i) num" if "row_border data i \<in> tree_borders r" "num \<le> k" for i
    using that Range_node.prems by (force simp: covers_def row_border_def)
  have own: "snd ` {b \<in> set bs. num \<le> snd (fst b) \<and> fst (fst b) \<le> num}
      = {i. row_border data i \<in> set bs \<and> covers (data ! i) num}"
    (is "snd ` ?A = ?B")
  proof (intro equalityI subsetI)
    fix i assume "i \<in> snd ` ?A"
    then obtain b where "b \<in> set bs" "i = snd b" "num \<le> snd (fst b)" "fst (fst b) \<le> num" by blast
    with bs [of b] show "i \<in> ?B" by (simp add: covers_def row_border_def prod_eq_iff)
  next
    fix i assume "i \<in> ?B"
    then have "row_border data i \<in> ?A" by (simp add: covers_def row_border_def)
    then show "i \<in> snd ` ?A" by (rule rev_image_eqI) (simp add: row_border_def)
  qed
  have all: "{b \<in> set bs. k \<le> snd (fst b) \<and> fst (fst b) \<le> k} = set bs"
    using Range_node.prems by auto
  define L where "L = {i. row_border data i \<in> tree_borders l \<and> covers (data ! i) num}"
  define R where "R = {i. row_border data i \<in> tree_borders r \<and> covers (data ! i) num}"
  define B where "B = {i. row_border data i \<in> set bs \<and> covers (data ! i) num}"
  have split: "{i. row_border data i \<in> tree_borders (Range_node k h bs l r) \<and> covers (data ! i) num} = B \<union> L \<union> R"
    unfolding B_def L_def R_def by auto
  have IH: "set (visited num l) = L" "set (visited num r) = R"
    using Range_node unfolding L_def R_def by simp_all
  have lr: "k \<le> num \<Longrightarrow> L = {}" "num \<le> k \<Longrightarrow> R = {}"
    using left right unfolding L_def R_def by blast+
  have own': "set (map snd (filter (\<lambda>b. num \<le> snd (fst b) \<and> fst (fst b) \<le> num) bs)) = B"
    using own unfolding B_def by simp
  consider "num = k" | "num < k" | "k < num" by linarith
  then show ?case unfolding split
  proof cases
    case 1
    then have "snd ` set bs = B" using own all unfolding B_def by simp
    with 1 lr show "set (visited num (Range_node k h bs l r)) = B \<union> L \<union> R" by simp
  next
    case 2
    with IH lr own' show "set (visited num (Range_node k h bs l r)) = B \<union> L \<union> R" by simp
  next
    case 3
    with IH lr own' show "set (visited num (Range_node k h bs l r)) = B \<union> L \<union> R" by simp
  qed
qed simp

lemma foldl_shorter_of:
  "foldl (shorter_of data) result xs = None \<longleftrightarrow> result = None \<and> xs = []"
  by (induction xs arbitrary: result) (auto simp: shorter_of_def split: option.splits)

lemma foldl_shorter_of_min:
  assumes "foldl (shorter_of data) result xs = Some i"
  shows "(i \<in> set xs \<or> result = Some i) \<and>
    (\<forall>j \<in> set xs. getLength (data ! i) \<le> getLength (data ! j)) \<and>
    (\<forall>j. result = Some j \<longrightarrow> getLength (data ! i) \<le> getLength (data ! j))"
  using assms
proof (induction xs arbitrary: result)
  case (Cons x xs)
  from Cons.IH [of "shorter_of data result x"] Cons.prems
  show ?case by (cases result) (auto simp: shorter_of_def split: if_splits)
qed simp

text \<open>What the index promises to its callers.\<close>

lemma getNNPNumberRange_index_Some:
  assumes "\<forall>x \<in> set data. proper_range x"
    and "getNNPNumberRange_index data (load_ranges data) num = Some i"
  shows "i < length data" and "covers (data ! i) num"
    and "j < length data \<Longrightarrow> covers (data ! j) num \<Longrightarrow> getLength (data ! i) \<le> getLength (data ! j)"
proof -
  have vis: "set (visited num (load_ranges data)) = {i. i < length data \<and> covers (data ! i) num}"
    unfolding visited_covers [OF load_ranges_placed(1) [OF assms(1)]] load_ranges_placed(2) [OF assms(1)]
    by (auto simp: row_border_def)
  have "foldl (shorter_of data) None (visited num (load_ranges data)) = Some i"
    using assms(2) by (auto simp: getNNPNumberRange_index_def searchNumberRanges_visited split: if_splits option.splits)
  from foldl_shorter_of_min [OF this] vis
  show "i < length data" and "covers (data ! i) num"
    and "j < length data \<Longrightarrow> covers (data ! j) num \<Longrightarrow> getLength (data ! i) \<le> getLength (data ! j)"
    by auto
qed

lemma getNNPNumberRange_index_None:
  assumes "\<forall>x \<in> set data. proper_range x" and "0 < num"
  shows "getNNPNumberRange_index data (load_ranges data) num = None \<longleftrightarrow> (\<forall>x \<in> set data. \<not> covers x num)"
proof -
  have vis: "set (visited num (load_ranges data)) = {i. i < length data \<and> covers (data ! i) num}"
    unfolding visited_covers [OF load_ranges_placed(1) [OF assms(1)]] load_ranges_placed(2) [OF assms(1)]
    by (auto simp: row_border_def)
  let ?f = "foldl (shorter_of data) None (visited num (load_ranges data))"
  have fit: "covers (data ! i) num" if "?f = Some i" for i
    using foldl_shorter_of_min [OF that] vis by auto
  have "getNNPNumberRange_index data (load_ranges data) num = None \<longleftrightarrow> ?f = None \<or> data = []"
    using fit assms(2)
    by (auto simp: getNNPNumberRange_index_def searchNumberRanges_visited covers_def split: option.splits)
  also have "\<dots> \<longleftrightarrow> visited num (load_ranges data) = [] \<or> data = []"
    by (simp add: foldl_shorter_of)
  also have "\<dots> \<longleftrightarrow> (\<forall>x \<in> set data. \<not> covers x num)"
    using vis by (auto simp: set_empty [symmetric] set_conv_nth simp del: set_empty)
  finally show ?thesis .
qed

section \<open>Balance\<close>

fun avl :: "range_tree \<Rightarrow> bool" where
  "avl Nil_node = True"
| "avl (Range_node k h bs l r) \<longleftrightarrow>
     h = max (node_ht l) (node_ht r) + 1 \<and> \<bar>node_ht r - node_ht l\<bar> \<le> 1 \<and> avl l \<and> avl r"

lemma avl_ht_nonneg: "avl t \<Longrightarrow> 0 \<le> node_ht t"
  by (induction t) (auto simp: max_def)

lemma avl_ht_pos: "avl t \<Longrightarrow> t \<noteq> Nil_node \<Longrightarrow> 0 < node_ht t"
  by (cases t) (auto simp: max_def dest: avl_ht_nonneg)

lemma avl_balance_right:
  assumes "avl l" "avl r" "node_ht r = node_ht l + 2"
    and t_def: "t = balance_node data (Range_node k h bs l r)"
  shows "avl t" and "node_ht t = node_ht r \<or> node_ht t = node_ht r + 1"
proof -
  have "r \<noteq> Nil_node" using assms(3) avl_ht_nonneg [OF assms(1)] by auto
  then obtain rk rh rbs rl rr where r: "r = Range_node rk rh rbs rl rr" by (cases r) auto
  have "avl t \<and> (node_ht t = node_ht r \<or> node_ht t = node_ht r + 1)"
  proof (cases "node_ht rr < node_ht rl")
    case False
    with assms(1-3) r show ?thesis
      by (auto simp: t_def balance_node_def Let_def max_def split: if_splits)
  next
    case True
    then have "rl \<noteq> Nil_node" using assms(2) r avl_ht_nonneg [of rr] by auto
    then obtain qk qh qbs ql qr where "rl = Range_node qk qh qbs ql qr" by (cases rl) auto
    with True assms(1-3) r show ?thesis
      by (auto simp: t_def balance_node_def Let_def max_def split: if_splits)
  qed
  then show "avl t" and "node_ht t = node_ht r \<or> node_ht t = node_ht r + 1" by simp_all
qed

lemma avl_balance_left:
  assumes "avl l" "avl r" "node_ht l = node_ht r + 2"
    and t_def: "t = balance_node data (Range_node k h bs l r)"
  shows "avl t" and "node_ht t = node_ht l \<or> node_ht t = node_ht l + 1"
proof -
  have "l \<noteq> Nil_node" using assms(3) avl_ht_nonneg [OF assms(2)] by auto
  then obtain lk lh lbs ll lr where l: "l = Range_node lk lh lbs ll lr" by (cases l) auto
  have "avl t \<and> (node_ht t = node_ht l \<or> node_ht t = node_ht l + 1)"
  proof (cases "node_ht ll < node_ht lr")
    case False
    with assms(1-3) l show ?thesis
      by (auto simp: t_def balance_node_def Let_def max_def split: if_splits)
  next
    case True
    then have "lr \<noteq> Nil_node" using assms(1) l avl_ht_nonneg [of ll] by auto
    then obtain qk qh qbs ql qr where "lr = Range_node qk qh qbs ql qr" by (cases lr) auto
    with True assms(1-3) l show ?thesis
      by (auto simp: t_def balance_node_def Let_def max_def split: if_splits)
  qed
  then show "avl t" and "node_ht t = node_ht l \<or> node_ht t = node_ht l + 1" by simp_all
qed

lemma avl_balance_even:
  assumes "avl l" "avl r" "\<bar>node_ht r - node_ht l\<bar> \<le> 1"
    and t_def: "t = balance_node data (Range_node k h bs l r)"
  shows "avl t" and "node_ht t = max (node_ht l) (node_ht r) + 1"
  using assms by (auto simp: t_def balance_node_def Let_def max_def)

lemma avl_insertNode:
  assumes "avl t"
  shows "avl (insertNode data t index) \<and>
    (node_ht (insertNode data t index) = node_ht t \<or> node_ht (insertNode data t index) = node_ht t + 1)"
  using assms
proof (induction data t index rule: insertNode.induct)
  case (1 data index)
  then show ?case by (simp add: new_node_def Let_def)
next
  case (2 data k h bs l r index)
  let ?lo = "nr_full_number_from (data ! index)" and ?hi = "nr_full_number_to (data ! index)"
  have lr: "avl l" "avl r" and h: "h = max (node_ht l) (node_ht r) + 1"
    and d: "\<bar>node_ht r - node_ht l\<bar> \<le> 1" using "2.prems" by simp_all
  consider (here) "isOverlaps k ?lo ?hi"
    | (left) "\<not> isOverlaps k ?lo ?hi" "getMidKey (data ! index) < k"
    | (right) "\<not> isOverlaps k ?lo ?hi" "\<not> getMidKey (data ! index) < k" by blast
  then show ?case
  proof cases
    case here
    then show ?thesis using avl_balance_even [OF lr d refl] h by (simp add: Let_def)
  next
    case left
    let ?l = "insertNode data l index"
    have IH: "avl ?l" "node_ht ?l = node_ht l \<or> node_ht ?l = node_ht l + 1"
      using "2.IH"(1) [OF refl refl] left lr by simp_all
    have eq: "insertNode data (Range_node k h bs l r) index = balance_node data (Range_node k h bs ?l r)"
      using left by (simp add: Let_def)
    show ?thesis
    proof (cases "node_ht ?l = node_ht r + 2")
      case True
      with avl_balance_left [OF IH(1) lr(2) True refl, of data k h bs] IH(2) h d show ?thesis unfolding eq by auto
    next
      case False
      then have "\<bar>node_ht r - node_ht ?l\<bar> \<le> 1" using IH(2) d by auto
      from avl_balance_even [OF IH(1) lr(2) this refl, of data k h bs] IH(2) h show ?thesis unfolding eq by auto
    qed
  next
    case right
    let ?r = "insertNode data r index"
    have IH: "avl ?r" "node_ht ?r = node_ht r \<or> node_ht ?r = node_ht r + 1"
      using "2.IH"(2) [OF refl refl] right lr by simp_all
    have eq: "insertNode data (Range_node k h bs l r) index = balance_node data (Range_node k h bs l ?r)"
      using right by (simp add: Let_def)
    show ?thesis
    proof (cases "node_ht ?r = node_ht l + 2")
      case True
      with avl_balance_right [OF lr(1) IH(1) True refl, of data k h bs] IH(2) h d show ?thesis unfolding eq by auto
    next
      case False
      then have "\<bar>node_ht ?r - node_ht l\<bar> \<le> 1" using IH(2) d by auto
      from avl_balance_even [OF lr(1) IH(1) this refl, of data k h bs] IH(2) h show ?thesis unfolding eq by auto
    qed
  qed
qed

lemma avl_load_ranges: "avl (load_ranges data)"
proof -
  have "avl t \<Longrightarrow> avl (foldl (insertNode data) t is)" for t "is"
    by (induction "is" arbitrary: t) (simp_all add: avl_insertNode)
  then show ?thesis by (simp add: load_ranges_def)
qed

end
