(* ===== verification/Stats_Managers.thy ===== *)
theory Stats_Managers
  imports Number_Range_Tree
begin

text \<open>
  The counters kept in memory: \<^verbatim>\<open>StatsFreeminManager\<close>, \<^verbatim>\<open>StatsPackageManager\<close>,
  \<^verbatim>\<open>StatsTrunkSettingsManager\<close>, \<^verbatim>\<open>StatsNNPPackageMinuteManager\<close> and \<^verbatim>\<open>StatsAccountManager\<close> of
  \<^verbatim>\<open>src/src-bill/classes\<close>. The first four have the same members: the rows by identifier, the
  identifiers by the key of the counted object, the partitions waiting to be saved and the
  identifiers waiting to be synchronised; \<open>stats_mgr\<close> is that state, with the row type as its
  parameter. The operations of each manager are their own definitions over the shared state
  operations. The database side (the texts of the queries, \<open>recalc\<close>, \<open>sync\<close>) is not modelled;
  \<open>load\<close> takes the rows the query returned.
\<close>

section \<open>The state the managers share\<close>

record 's stats_mgr =
  mg_lastId :: int
  mg_parts :: "(int \<rightharpoonup> 's) list"
  mg_stats :: "int \<rightharpoonup> 's"
  mg_byKey :: "int \<rightharpoonup> int list"
  mg_forSync :: "int set"
  mg_loaded :: bool

text \<open>The constructors of the managers.\<close>

definition mg_new :: "'s stats_mgr" where
  "mg_new = \<lparr> mg_lastId = 0, mg_parts = [Map.empty], mg_stats = Map.empty, mg_byKey = Map.empty,
     mg_forSync = {}, mg_loaded = False \<rparr>"

definition ids_of_key :: "'s stats_mgr \<Rightarrow> int \<Rightarrow> int list" where
  "ids_of_key m k = (case mg_byKey m k of None \<Rightarrow> [] | Some l \<Rightarrow> l)"

definition push_id :: "int \<Rightarrow> int \<Rightarrow> 's stats_mgr \<Rightarrow> 's stats_mgr" where
  "push_id k i m = m\<lparr> mg_byKey := (mg_byKey m)(k \<mapsto> i # ids_of_key m k) \<rparr>"

text \<open>The loop over the identifiers of a key: rows that are gone or not current are skipped.\<close>

fun first_current :: "('s \<Rightarrow> bool) \<Rightarrow> (int \<rightharpoonup> 's) \<Rightarrow> int list \<Rightarrow> 's option" where
  "first_current p stats [] = None"
| "first_current p stats (i # is) =
     (case stats i of
        None \<Rightarrow> first_current p stats is
      | Some s \<Rightarrow> if p s then Some s else first_current p stats is)"

text \<open>Copying a row to the last partition and marking it for synchronisation. \<open>at(parts - 1)\<close>
  throws when there is no partition: \<open>None\<close>.\<close>

definition mg_register :: "int \<Rightarrow> 's \<Rightarrow> 's stats_mgr \<Rightarrow> 's stats_mgr option" where
  "mg_register i s m =
     (if mg_parts m = [] then None
      else Some (m\<lparr> mg_parts := butlast (mg_parts m) @ [(last (mg_parts m))(i \<mapsto> s)],
                    mg_forSync := insert i (mg_forSync m) \<rparr>))"

definition mg_create :: "int \<Rightarrow> (int \<Rightarrow> 's) \<Rightarrow> 's stats_mgr \<Rightarrow> 's \<times> 's stats_mgr" where
  "mg_create k mk m =
     (let i = mg_lastId m + 1; s = mk i
      in (s, push_id k i (m\<lparr> mg_lastId := i, mg_stats := (mg_stats m)(i \<mapsto> s) \<rparr>)))"

definition mg_getCurrent ::
    "int \<Rightarrow> ('s \<Rightarrow> bool) \<Rightarrow> (int \<Rightarrow> 's) \<Rightarrow> 's stats_mgr \<Rightarrow> ('s \<times> 's stats_mgr) option" where
  "mg_getCurrent k p mk m =
     (case first_current p (mg_stats m) (ids_of_key m k) of
        Some s \<Rightarrow> Some (s, m)
      | None \<Rightarrow>
          (let (s, m') = mg_create k mk m
           in map_option (Pair s) (mg_register (mg_lastId m') s m')))"

definition mg_update :: "int \<Rightarrow> ('s \<Rightarrow> 's) \<Rightarrow> 's stats_mgr \<Rightarrow> 's stats_mgr option" where
  "mg_update i f m =
     (case mg_stats m i of
        None \<Rightarrow> Some m
      | Some s \<Rightarrow> mg_register i (f s) (m\<lparr> mg_stats := (mg_stats m)(i \<mapsto> f s) \<rparr>))"

definition mg_createNewPartition :: "'s stats_mgr \<Rightarrow> 's stats_mgr" where
  "mg_createNewPartition m = m\<lparr> mg_parts := mg_parts m @ [Map.empty] \<rparr>"

definition mg_removePartitionAfterSave :: "'s stats_mgr \<Rightarrow> 's stats_mgr" where
  "mg_removePartitionAfterSave m = m\<lparr> mg_parts := tl (mg_parts m) \<rparr>"

text \<open>\<open>changes[id] = stats[id]\<close> creates a zeroed row (\<open>z\<close>) for an identifier without one.\<close>

definition mg_getChanges :: "'s \<Rightarrow> 's stats_mgr \<Rightarrow> (int \<rightharpoonup> 's) \<times> 's stats_mgr" where
  "mg_getChanges z m =
     (let stats = (\<lambda>i. if i \<in> mg_forSync m \<and> mg_stats m i = None then Some z else mg_stats m i)
      in (\<lambda>i. if i \<in> mg_forSync m then stats i else None, m\<lparr> mg_stats := stats, mg_forSync := {} \<rparr>))"

definition mg_addChanges :: "(int \<rightharpoonup> 's) \<Rightarrow> 's stats_mgr \<Rightarrow> 's stats_mgr" where
  "mg_addChanges changes m = m\<lparr> mg_forSync := mg_forSync m \<union> dom changes \<rparr>"

definition mg_load :: "('s \<Rightarrow> int) \<Rightarrow> ('s \<Rightarrow> int) \<Rightarrow> int \<Rightarrow> 's list \<Rightarrow> 's stats_mgr \<Rightarrow> 's stats_mgr" where
  "mg_load id_of key_of maxId rows m =
     (foldl (\<lambda>m s. push_id (key_of s) (id_of s) (m\<lparr> mg_stats := (mg_stats m)(id_of s \<mapsto> s) \<rparr>))
        (m\<lparr> mg_forSync := {}, mg_stats := Map.empty, mg_byKey := Map.empty,
            mg_parts := [Map.empty], mg_lastId := maxId \<rparr>) rows)\<lparr> mg_loaded := True \<rparr>"

section \<open>Free minutes\<close>

type_synonym StatsFreeminManager = "StatsFreemin stats_mgr"

definition createStatsFreemin :: "Call \<Rightarrow> DT \<Rightarrow> int \<Rightarrow> StatsFreemin" where
  "createStatsFreemin call dt i = \<lparr> sf_id = i, sf_service_number_id = c_number_service_id call,
     sf_month_dt = dt_month dt, sf_used_seconds = 0, sf_used_credit = 0, sf_min_call_id = 0,
     sf_max_call_id = 0 \<rparr>"

definition updateStatsFreemin :: "Call \<Rightarrow> StatsFreemin \<Rightarrow> StatsFreemin" where
  "updateStatsFreemin call s = s\<lparr>
     sf_used_seconds := sf_used_seconds s + c_package_time call,
     sf_used_credit := sf_used_credit s + c_package_credit call,
     sf_min_call_id := (if sf_min_call_id s = 0 then c_id call else sf_min_call_id s),
     sf_max_call_id := c_id call \<rparr>"

definition StatsFreemin_load :: "int \<Rightarrow> StatsFreemin list \<Rightarrow> StatsFreeminManager \<Rightarrow> StatsFreeminManager" where
  "StatsFreemin_load = mg_load sf_id sf_service_number_id"

definition StatsFreemin_getCurrent ::
    "Call \<Rightarrow> DT \<Rightarrow> StatsFreeminManager \<Rightarrow> (StatsFreemin \<times> StatsFreeminManager) option" where
  "StatsFreemin_getCurrent call dt =
     mg_getCurrent (c_number_service_id call) (\<lambda>s. sf_month_dt s = dt_month dt) (createStatsFreemin call dt)"

definition StatsFreemin_add :: "Call \<Rightarrow> StatsFreeminManager \<Rightarrow> StatsFreeminManager option" where
  "StatsFreemin_add call m =
     (if c_number_service_id call = 0 \<or> c_service_package_id call \<noteq> 1 \<or> c_service_package_stats_id call = 0
      then Some m
      else mg_update (c_service_package_stats_id call) (updateStatsFreemin call) m)"

section \<open>Prepaid packages\<close>

type_synonym StatsPackageManager = "StatsPackage stats_mgr"

text \<open>\<open>round\<close> of the C library: halves away from zero.\<close>

definition c_round :: "real \<Rightarrow> int" where
  "c_round x = (if x \<ge> 0 then \<lfloor>x + 1 / 2\<rfloor> else - \<lfloor>1 / 2 - x\<rfloor>)"

definition getPrepaidSeconds :: "TariffPackage \<Rightarrow> int" where
  "getPrepaidSeconds t = tp_prepaid_minutes t * 60"

text \<open>The period and the paid seconds of a new row: a periodical package is cut to the calendar
  month of the call in the time zone of the account, and paid in proportion.\<close>

definition package_period :: "Call \<Rightarrow> Client \<Rightarrow> ServicePackage \<Rightarrow> TariffPackage \<Rightarrow> int \<times> int \<times> int" where
  "package_period call account sp tp =
     (if sp_periodical sp then
        (let month_start = get_tmonth (c_connect_time call) (cl_timezone_offset account);
             month_end = get_tmonth_end (c_connect_time call) (cl_timezone_offset account);
             month_seconds = real_of_int (month_end + 1 - month_start);
             activation_dt = (if month_start < sp_activation_dt sp then sp_activation_dt sp else month_start);
             expire_dt = (if month_end > sp_expire_dt sp then sp_expire_dt sp else month_end);
             package_seconds = real_of_int (expire_dt + 1 - activation_dt)
         in (activation_dt, expire_dt,
             c_round (package_seconds * real_of_int (getPrepaidSeconds tp) / month_seconds)))
      else (sp_activation_dt sp, sp_expire_dt sp, getPrepaidSeconds tp))"

definition createStatsPackage ::
    "Call \<Rightarrow> Client \<Rightarrow> ServicePackage \<Rightarrow> TariffPackage \<Rightarrow> int \<Rightarrow> StatsPackage" where
  "createStatsPackage call account sp tp i =
     (case package_period call account sp tp of (activation_dt, expire_dt, paid_seconds) \<Rightarrow>
        \<lparr> sk_id = i, sk_package_id = sp_id sp, sk_activation_dt = activation_dt, sk_expire_dt = expire_dt,
          sk_used_seconds = 0, sk_used_credit = 0, sk_paid_seconds = paid_seconds,
          sk_min_call_id = 0, sk_max_call_id = 0 \<rparr>)"

definition updateStatsPackage :: "Call \<Rightarrow> StatsPackage \<Rightarrow> StatsPackage" where
  "updateStatsPackage call s = s\<lparr>
     sk_used_seconds := sk_used_seconds s + c_package_time call,
     sk_used_credit := sk_used_credit s + c_package_credit call,
     sk_min_call_id := (if sk_min_call_id s = 0 then c_id call else sk_min_call_id s),
     sk_max_call_id := c_id call \<rparr>"

definition StatsPackage_load :: "int \<Rightarrow> StatsPackage list \<Rightarrow> StatsPackageManager \<Rightarrow> StatsPackageManager" where
  "StatsPackage_load = mg_load sk_id sk_package_id"

definition StatsPackage_getCurrent :: "Call \<Rightarrow> Client \<Rightarrow> ServicePackage \<Rightarrow> TariffPackage \<Rightarrow>
    StatsPackageManager \<Rightarrow> (StatsPackage \<times> StatsPackageManager) option" where
  "StatsPackage_getCurrent call account sp tp =
     mg_getCurrent (sp_id sp)
       (\<lambda>s. \<not> sk_activation_dt s > c_connect_time call \<and> \<not> sk_expire_dt s < c_connect_time call)
       (createStatsPackage call account sp tp)"

text \<open>\<open>prepaid\<close> says whether \<open>callInfo->servicePackagePrepaid\<close> is set.\<close>

definition StatsPackage_add :: "Call \<Rightarrow> bool \<Rightarrow> StatsPackageManager \<Rightarrow> StatsPackageManager option" where
  "StatsPackage_add call prepaid m =
     (if c_number_service_id call = 0 \<or> c_service_package_id call \<le> 1 \<or>
         c_service_package_stats_id call = 0 \<or> \<not> prepaid
      then Some m
      else mg_update (c_service_package_stats_id call) (updateStatsPackage call) m)"

section \<open>Minimum payments of trunks\<close>

type_synonym StatsTrunkSettingsManager = "StatsTrunkSettings stats_mgr"

definition createStatsTrunkSettings :: "int \<Rightarrow> Client \<Rightarrow> ServiceTrunkSettings \<Rightarrow> int \<Rightarrow> StatsTrunkSettings" where
  "createStatsTrunkSettings connect_time account trunkSettings i = \<lparr>
     ts_id = i, ts_trunk_settings_id = ss_id trunkSettings,
     ts_activation_dt = get_tmonth connect_time (cl_timezone_offset account),
     ts_expire_dt = get_tmonth_end connect_time (cl_timezone_offset account),
     ts_used_seconds = 0, ts_used_credit = 0, ts_min_call_id = 0, ts_max_call_id = 0 \<rparr>"

definition updateStatsTrunkSettings :: "Call \<Rightarrow> StatsTrunkSettings \<Rightarrow> StatsTrunkSettings" where
  "updateStatsTrunkSettings call s = s\<lparr>
     ts_used_seconds := ts_used_seconds s + c_billed_time call,
     ts_used_credit := ts_used_credit s + c_cost call,
     ts_min_call_id := (if ts_min_call_id s = 0 then c_id call else ts_min_call_id s),
     ts_max_call_id := c_id call \<rparr>"

definition StatsTrunkSettings_load ::
    "int \<Rightarrow> StatsTrunkSettings list \<Rightarrow> StatsTrunkSettingsManager \<Rightarrow> StatsTrunkSettingsManager" where
  "StatsTrunkSettings_load = mg_load ts_id ts_trunk_settings_id"

definition StatsTrunkSettings_getCurrent :: "int \<Rightarrow> Client \<Rightarrow> ServiceTrunkSettings \<Rightarrow>
    StatsTrunkSettingsManager \<Rightarrow> (StatsTrunkSettings \<times> StatsTrunkSettingsManager) option" where
  "StatsTrunkSettings_getCurrent connect_time account trunkSettings =
     mg_getCurrent (ss_id trunkSettings)
       (\<lambda>s. \<not> ts_activation_dt s > connect_time \<and> \<not> ts_expire_dt s < connect_time)
       (createStatsTrunkSettings connect_time account trunkSettings)"

definition StatsTrunkSettings_add :: "Call \<Rightarrow> StatsTrunkSettingsManager \<Rightarrow> StatsTrunkSettingsManager option" where
  "StatsTrunkSettings_add call m =
     (if c_trunk_settings_stats_id call = 0 then Some m
      else mg_update (c_trunk_settings_stats_id call) (updateStatsTrunkSettings call) m)"

section \<open>Package minutes of the numbering plan\<close>

type_synonym StatsNNPPackageMinuteManager = "StatsNNPPackageMinute stats_mgr"

text \<open>\<open>paid_seconds\<close> keeps the zero of the freshly inserted map element.\<close>

definition createStatsNNPPackageMinute ::
    "NNPPackageMinute \<Rightarrow> NNPAccountTariffLight \<Rightarrow> int \<Rightarrow> StatsNNPPackageMinute" where
  "createStatsNNPPackageMinute pm atl i = \<lparr>
     sm_id = i, sm_nnp_account_tariff_light_id = nt_id atl, sm_nnp_package_minute_id = nm_id pm,
     sm_activate_from = nt_activate_from atl, sm_deactivate_from = nt_deactivate_from atl,
     sm_used_seconds = 0, sm_used_credit = 0, sm_paid_seconds = 0, sm_min_call_id = 0, sm_max_call_id = 0 \<rparr>"

definition updateStatsNNPPackageMinute :: "Call \<Rightarrow> StatsNNPPackageMinute \<Rightarrow> StatsNNPPackageMinute" where
  "updateStatsNNPPackageMinute call s = s\<lparr>
     sm_used_seconds := sm_used_seconds s + c_package_time call,
     sm_used_credit := sm_used_credit s + c_cost call,
     sm_min_call_id := (if sm_min_call_id s = 0 then c_id call else sm_min_call_id s),
     sm_max_call_id := c_id call \<rparr>"

definition StatsNNPPackageMinute_load ::
    "int \<Rightarrow> StatsNNPPackageMinute list \<Rightarrow> StatsNNPPackageMinuteManager \<Rightarrow> StatsNNPPackageMinuteManager" where
  "StatsNNPPackageMinute_load = mg_load sm_id sm_nnp_account_tariff_light_id"

definition StatsNNPPackageMinute_getCurrent :: "int \<Rightarrow> NNPPackageMinute \<Rightarrow> NNPAccountTariffLight \<Rightarrow>
    StatsNNPPackageMinuteManager \<Rightarrow> (StatsNNPPackageMinute \<times> StatsNNPPackageMinuteManager) option" where
  "StatsNNPPackageMinute_getCurrent connect_time pm atl =
     mg_getCurrent (nt_id atl)
       (\<lambda>s. \<not> sm_activate_from s > connect_time \<and> \<not> sm_deactivate_from s < connect_time)
       (createStatsNNPPackageMinute pm atl)"

definition StatsNNPPackageMinute_add ::
    "Call \<Rightarrow> StatsNNPPackageMinuteManager \<Rightarrow> StatsNNPPackageMinuteManager option" where
  "StatsNNPPackageMinute_add call m =
     (if c_stats_nnp_package_minute_id call = 0 then Some m
      else mg_update (c_stats_nnp_package_minute_id call) (updateStatsNNPPackageMinute call) m)"

definition StatsNNPPackageMinute_getUsedSeconds :: "int \<Rightarrow> int \<Rightarrow> int \<Rightarrow> StatsNNPPackageMinuteManager \<Rightarrow> int" where
  "StatsNNPPackageMinute_getUsedSeconds nnp_account_tariff_light_id nnp_package_minute_id connect_time m =
     (case first_current (\<lambda>s. \<not> sm_activate_from s > connect_time \<and> \<not> sm_deactivate_from s < connect_time)
             (mg_stats m) (ids_of_key m nnp_account_tariff_light_id) of
        Some s \<Rightarrow> sm_used_seconds s | None \<Rightarrow> 0)"

section \<open>Accounts\<close>

record StatsAccountManager =
  am_parts :: "(int \<rightharpoonup> StatsAccount) list"
  am_stats :: "int \<rightharpoonup> StatsAccount"
  am_forSync :: "int set"
  am_loaded :: bool
  am_needClear :: bool

definition StatsAccount_zero :: StatsAccount where
  "StatsAccount_zero = \<lparr> sa_account_id = 0, sa_sum = 0, sa_sum_day = 0, sa_sum_mn_day = 0, sa_sum_month = 0,
     sa_amount_day = 0, sa_amount_month = 0, sa_amount_date = 0 \<rparr>"

definition am_new :: StatsAccountManager where
  "am_new = \<lparr> am_parts = [Map.empty], am_stats = Map.empty, am_forSync = {}, am_loaded = False,
     am_needClear = False \<rparr>"

definition StatsAccount_load :: "StatsAccount list \<Rightarrow> StatsAccountManager \<Rightarrow> StatsAccountManager" where
  "StatsAccount_load rows m = m\<lparr> am_forSync := {}, am_parts := [Map.empty], am_loaded := True,
     am_stats := foldl (\<lambda>st s. st(sa_account_id s \<mapsto> s)) Map.empty rows \<rparr>"

text \<open>The rows of \<open>reloadSum\<close> are account, sum and date.\<close>

definition reloadSum :: "(int \<times> real \<times> int) list \<Rightarrow> StatsAccountManager \<Rightarrow> StatsAccountManager" where
  "reloadSum rows m = foldl (\<lambda>m (account_id, s, amount_date).
     m\<lparr> am_stats := (am_stats m)(account_id \<mapsto>
          (case am_stats m account_id of Some st \<Rightarrow> st | None \<Rightarrow> StatsAccount_zero)
          \<lparr> sa_account_id := account_id, sa_sum := s, sa_amount_date := amount_date \<rparr>),
        am_forSync := insert account_id (am_forSync m) \<rparr>) m rows"

text \<open>One call added to the row of its account: \<open>dtUtc\<close> is the day and the month of the call.\<close>

definition add_to_account :: "Call \<Rightarrow> Client \<Rightarrow> DT \<Rightarrow> StatsAccount \<Rightarrow> StatsAccount" where
  "add_to_account call account dtUtc s0 =
     (let s1 = (if sa_account_id s0 = 0 then
            s0\<lparr> sa_account_id := c_account_id call, sa_amount_month := dt_month dtUtc,
                sa_amount_day := dt_day dtUtc, sa_amount_date := cl_amount_date account \<rparr>
          else s0);
          s2 = (if \<bar>dt_month dtUtc - sa_amount_month s1\<bar> < 43200
                then s1\<lparr> sa_sum_month := sa_sum_month s1 + c_cost call \<rparr>
                else if dt_month dtUtc > sa_amount_month s1
                then s1\<lparr> sa_amount_month := dt_month dtUtc, sa_sum_month := c_cost call \<rparr>
                else s1);
          s3 = (if \<bar>dt_day dtUtc - sa_amount_day s2\<bar> < 43200
                then s2\<lparr> sa_sum_day := sa_sum_day s2 + c_cost call,
                         sa_sum_mn_day := (if isInternational call then sa_sum_mn_day s2 + c_cost call
                                           else sa_sum_mn_day s2) \<rparr>
                else if dt_day dtUtc > sa_amount_day s2
                then s2\<lparr> sa_amount_day := dt_day dtUtc, sa_sum_day := c_cost call,
                         sa_sum_mn_day := (if isInternational call then c_cost call else 0) \<rparr>
                else s2)
      in (if c_connect_time call \<ge> cl_amount_date account then s3\<lparr> sa_sum := sa_sum s3 + c_cost call \<rparr> else s3))"

definition StatsAccount_add :: "Call \<Rightarrow> Client option \<Rightarrow> DT \<Rightarrow> StatsAccountManager \<Rightarrow> StatsAccountManager option" where
  "StatsAccount_add call account dtUtc m =
     (case account of
        None \<Rightarrow> Some m
      | Some cl \<Rightarrow>
          if \<bar>c_cost call\<bar> < 0.000001 then Some m
          else if am_parts m = [] then None
          else
            (let i = c_account_id call;
                 s = add_to_account call cl dtUtc
                       (case am_stats m i of Some s \<Rightarrow> s | None \<Rightarrow> StatsAccount_zero)
             in Some (m\<lparr> am_stats := (am_stats m)(i \<mapsto> s),
                         am_parts := butlast (am_parts m) @ [(last (am_parts m))(i \<mapsto> s)],
                         am_forSync := insert i (am_forSync m) \<rparr>)))"

definition getSumMonth :: "int \<Rightarrow> StatsAccountManager \<Rightarrow> int \<Rightarrow> real \<Rightarrow> real" where
  "getSumMonth now m account_id vat_rate =
     (case am_stats m account_id of Some s \<Rightarrow> StatsAccount_sumMonth now s vat_rate | None \<Rightarrow> 0)"

definition getSumDay :: "int \<Rightarrow> StatsAccountManager \<Rightarrow> int \<Rightarrow> real \<Rightarrow> real" where
  "getSumDay now m account_id vat_rate =
     (case am_stats m account_id of Some s \<Rightarrow> StatsAccount_sumDay now s vat_rate | None \<Rightarrow> 0)"

definition getSumMNDay :: "int \<Rightarrow> StatsAccountManager \<Rightarrow> int \<Rightarrow> real \<Rightarrow> real" where
  "getSumMNDay now m account_id vat_rate =
     (case am_stats m account_id of Some s \<Rightarrow> StatsAccount_sumMNDay now s vat_rate | None \<Rightarrow> 0)"

definition getSumBalance :: "StatsAccountManager \<Rightarrow> int \<Rightarrow> real \<Rightarrow> real" where
  "getSumBalance m account_id vat_rate =
     (case am_stats m account_id of Some s \<Rightarrow> StatsAccount_sumBalance s vat_rate | None \<Rightarrow> 0)"

text \<open>\<open>getChanges\<close> answers all rows after a recalculation, otherwise the rows waiting.\<close>

definition StatsAccount_getChanges :: "StatsAccountManager \<Rightarrow> (int \<rightharpoonup> StatsAccount) \<times> bool \<times> StatsAccountManager" where
  "StatsAccount_getChanges m =
     (if am_needClear m then (am_stats m, True, m\<lparr> am_needClear := False, am_forSync := {} \<rparr>)
      else
        (let stats = (\<lambda>i. if i \<in> am_forSync m \<and> am_stats m i = None then Some StatsAccount_zero else am_stats m i)
         in (\<lambda>i. if i \<in> am_forSync m then stats i else None, False,
             m\<lparr> am_stats := stats, am_needClear := False, am_forSync := {} \<rparr>)))"

definition StatsAccount_addChanges :: "(int \<rightharpoonup> StatsAccount) \<Rightarrow> bool \<Rightarrow> StatsAccountManager \<Rightarrow> StatsAccountManager" where
  "StatsAccount_addChanges changes needClear m =
     m\<lparr> am_forSync := am_forSync m \<union> dom changes,
        am_needClear := (if needClear then True else am_needClear m) \<rparr>"

definition am_createNewPartition :: "StatsAccountManager \<Rightarrow> StatsAccountManager" where
  "am_createNewPartition m = m\<lparr> am_parts := am_parts m @ [Map.empty] \<rparr>"

definition am_removePartitionAfterSave :: "StatsAccountManager \<Rightarrow> StatsAccountManager" where
  "am_removePartitionAfterSave m = m\<lparr> am_parts := tl (am_parts m) \<rparr>"

section \<open>Invariant of a manager\<close>

lemma ids_of_key_update [simp]:
  "ids_of_key (m\<lparr> mg_parts := a \<rparr>) k = ids_of_key m k"
  "ids_of_key (m\<lparr> mg_forSync := b \<rparr>) k = ids_of_key m k"
  "ids_of_key (m\<lparr> mg_stats := c \<rparr>) k = ids_of_key m k"
  "ids_of_key (m\<lparr> mg_lastId := d \<rparr>) k = ids_of_key m k"
  by (simp_all add: ids_of_key_def)

text \<open>The contract the four managers share, for rows with an identifier and a key.\<close>

locale stats_rows =
  fixes id_of :: "'s \<Rightarrow> int" and key_of :: "'s \<Rightarrow> int"
begin

text \<open>Rows are filed under their identifier and listed under their key; identifiers do not exceed
  the last one given; partitions and the synchronisation list mention existing rows only, and
  the newest partition that mentions a row has its current value.\<close>

definition newest :: "(int \<rightharpoonup> 's) list \<Rightarrow> int \<rightharpoonup> 's" where
  "newest parts = foldl (++) Map.empty parts"

definition wf :: "'s stats_mgr \<Rightarrow> bool" where
  "wf m \<longleftrightarrow>
     (\<forall>i s. mg_stats m i = Some s \<longrightarrow> id_of s = i \<and> i \<le> mg_lastId m \<and> i \<in> set (ids_of_key m (key_of s))) \<and>
     (\<forall>k. \<forall>i \<in> set (ids_of_key m k). \<exists>s. mg_stats m i = Some s \<and> key_of s = k) \<and>
     mg_parts m \<noteq> [] \<and> mg_forSync m \<subseteq> dom (mg_stats m) \<and> newest (mg_parts m) \<subseteq>\<^sub>m mg_stats m"

lemma wf_row:
  assumes "wf m" and "mg_stats m i = Some s"
  shows "id_of s = i" and "i \<le> mg_lastId m" and "i \<in> set (ids_of_key m (key_of s))"
  using assms unfolding wf_def by blast+

lemma wf_listed:
  assumes "wf m" and "i \<in> set (ids_of_key m k)"
  shows "\<exists>s. mg_stats m i = Some s \<and> key_of s = k"
  using assms unfolding wf_def by blast

lemma newest_snoc: "newest (parts @ [p]) = newest parts ++ p"
  by (simp add: newest_def)

lemma newest_register:
  assumes "parts \<noteq> []"
  shows "newest (butlast parts @ [(last parts)(i \<mapsto> s)]) = (newest parts)(i \<mapsto> s)"
proof -
  have "newest parts = newest (butlast parts) ++ last parts"
    using newest_snoc [of "butlast parts" "last parts"] assms by simp
  then show ?thesis by (simp add: newest_snoc)
qed

lemma newest_tl: "newest (tl parts) \<subseteq>\<^sub>m newest parts"
proof -
  have *: "foldl (++) a ps = a ++ foldl (++) Map.empty ps" for a :: "int \<rightharpoonup> 's" and ps
  proof (induction ps arbitrary: a)
    case (Cons p ps)
    show ?case using Cons [of "a ++ p"] Cons [of "Map.empty ++ p"] by simp
  qed simp
  show ?thesis
    by (cases parts) (use * [of "hd parts" "tl parts"] in \<open>simp_all add: newest_def map_le_map_add\<close>)
qed

lemma wf_register:
  assumes "mg_stats m i = Some s" and "wf m"
  shows "\<exists>m'. mg_register i s m = Some m' \<and> wf m' \<and> mg_stats m' = mg_stats m \<and>
    mg_byKey m' = mg_byKey m \<and> i \<in> mg_forSync m' \<and> newest (mg_parts m') i = Some s"
proof -
  have parts: "mg_parts m \<noteq> []" using assms(2) by (simp add: wf_def)
  show ?thesis using assms parts
    by (auto simp: mg_register_def wf_def newest_register map_le_def dom_def)
qed

lemma first_current_Some:
  assumes "first_current p stats is = Some s"
  shows "\<exists>i \<in> set is. stats i = Some s \<and> p s"
  using assms by (induction "is") (auto split: option.splits if_splits)

lemma wf_new: "wf mg_new"
  by (simp add: wf_def mg_new_def ids_of_key_def newest_def)

lemma wf_create:
  assumes "wf m" and "id_of (mk (mg_lastId m + 1)) = mg_lastId m + 1" and "key_of (mk (mg_lastId m + 1)) = k"
    and m': "mg_create k mk m = (s, m')"
  shows "wf m'" and "mg_stats m' (mg_lastId m') = Some s" and "mg_stats m \<subseteq>\<^sub>m mg_stats m'"
    and "mg_lastId m' = mg_lastId m + 1" and "s = mk (mg_lastId m + 1)"
    and "mg_stats m (mg_lastId m + 1) = None"
    and "mg_stats m' = (mg_stats m)(mg_lastId m + 1 \<mapsto> s)"
    and "ids_of_key m' k = mg_lastId m' # ids_of_key m k"
proof -
  let ?i = "mg_lastId m + 1"
  have free: "mg_stats m ?i = None"
  proof (rule ccontr)
    assume "\<not> ?thesis"
    then obtain s where "mg_stats m ?i = Some s" by auto
    with assms(1) have "?i \<le> mg_lastId m" unfolding wf_def by blast
    then show False by simp
  qed
  have m'_def: "m' = push_id k ?i (m\<lparr> mg_lastId := ?i, mg_stats := (mg_stats m)(?i \<mapsto> mk ?i) \<rparr>)"
    and s: "s = mk ?i" using m' by (auto simp: mg_create_def Let_def)
  have ids: "ids_of_key m' k' = (if k' = k then ?i # ids_of_key m k else ids_of_key m k')" for k'
    by (simp add: m'_def push_id_def ids_of_key_def)
  have rest: "mg_parts m \<noteq> []" "mg_forSync m \<subseteq> dom (mg_stats m)" "newest (mg_parts m) \<subseteq>\<^sub>m mg_stats m"
    using assms(1) by (simp_all add: wf_def)
  have fields: "mg_stats m' = (mg_stats m)(?i \<mapsto> s)" "mg_lastId m' = ?i" "mg_parts m' = mg_parts m"
    "mg_forSync m' = mg_forSync m" by (simp_all add: m'_def push_id_def s)
  show "wf m'"
    unfolding wf_def fields
  proof (intro conjI allI impI ballI)
    fix i s' assume "((mg_stats m)(?i \<mapsto> s)) i = Some s'"
    then have "i = ?i \<and> s' = s \<or> i \<noteq> ?i \<and> mg_stats m i = Some s'" by (auto split: if_splits)
    then have "id_of s' = i \<and> i \<le> ?i \<and> i \<in> set (ids_of_key m' (key_of s'))"
    proof
      assume "i = ?i \<and> s' = s"
      then show ?thesis using assms(2,3) by (simp add: ids s)
    next
      assume "i \<noteq> ?i \<and> mg_stats m i = Some s'"
      then show ?thesis using wf_row [OF assms(1), of i s'] by (auto simp: ids)
    qed
    then show "id_of s' = i" and "i \<le> ?i" and "i \<in> set (ids_of_key m' (key_of s'))" by blast+
  next
    fix k' i assume "i \<in> set (ids_of_key m' k')"
    then show "\<exists>s'. ((mg_stats m)(?i \<mapsto> s)) i = Some s' \<and> key_of s' = k'"
      using wf_listed [OF assms(1), of i k'] free assms(3) s
      by (cases "i = ?i") (auto simp: ids split: if_splits)
  next
    show "mg_parts m \<noteq> []" by (rule rest)
    show "mg_forSync m \<subseteq> dom ((mg_stats m)(?i \<mapsto> s))" using rest by auto
    show "newest (mg_parts m) \<subseteq>\<^sub>m (mg_stats m)(?i \<mapsto> s)"
      using rest(3) free by (auto simp: map_le_def dom_def)
  qed
  show "mg_stats m' (mg_lastId m') = Some s" "mg_stats m \<subseteq>\<^sub>m mg_stats m'" "mg_lastId m' = ?i" "s = mk ?i"
    "mg_stats m ?i = None" "mg_stats m' = (mg_stats m)(?i \<mapsto> s)" "ids_of_key m' k = mg_lastId m' # ids_of_key m k"
    using free s fields ids by (auto simp: map_le_def)
qed

text \<open>\<open>getCurrent\<close> always returns a row of the key, files it and leaves the other rows alone.\<close>

lemma getCurrent_ok:
  assumes "wf m" and "\<And>i. id_of (mk i) = i" and "\<And>i. key_of (mk i) = k"
  shows "\<exists>s m'. mg_getCurrent k p mk m = Some (s, m') \<and> wf m' \<and> mg_stats m' (id_of s) = Some s \<and>
    key_of s = k \<and> (p s \<or> s = mk (mg_lastId m + 1)) \<and> mg_stats m \<subseteq>\<^sub>m mg_stats m'"
proof (cases "first_current p (mg_stats m) (ids_of_key m k)")
  case (Some s)
  from first_current_Some [OF this]
  obtain i where "i \<in> set (ids_of_key m k)" "mg_stats m i = Some s" "p s" by auto
  moreover from this have "id_of s = i" "key_of s = k"
    using wf_row(1) [OF assms(1), of i s] wf_listed [OF assms(1), of i k] by auto
  ultimately show ?thesis using Some assms(1)
    by (intro exI [of _ s] exI [of _ m]) (simp add: mg_getCurrent_def)
next
  case None
  obtain s m1 where c: "mg_create k mk m = (s, m1)" by fastforce
  note created = wf_create [OF assms(1) assms(2,3) c]
  obtain m2 where r: "mg_register (mg_lastId m1) s m1 = Some m2" "wf m2" "mg_stats m2 = mg_stats m1"
    using wf_register [OF created(2) created(1)] by blast
  have "mg_getCurrent k p mk m = Some (s, m2)" using None c r(1) by (simp add: mg_getCurrent_def)
  moreover have "id_of s = mg_lastId m1" "key_of s = k" using created(4,5) assms(2,3) by simp_all
  ultimately show ?thesis using r(2,3) created(2,3,5)
    by (intro exI [of _ s] exI [of _ m2]) simp
qed

text \<open>A second request finds the same row and changes nothing, when a new row is current.\<close>

lemma getCurrent_stable:
  assumes "wf m" and "\<And>i. id_of (mk i) = i" and "\<And>i. key_of (mk i) = k" and "\<And>i. p (mk i)"
    and "mg_getCurrent k p mk m = Some (s, m')"
  shows "mg_getCurrent k p mk m' = Some (s, m')"
proof (cases "first_current p (mg_stats m) (ids_of_key m k)")
  case (Some s')
  with assms(5) show ?thesis by (simp add: mg_getCurrent_def)
next
  case None
  obtain s1 m1 where c: "mg_create k mk m = (s1, m1)" by fastforce
  note created = wf_create [OF assms(1) assms(2,3) c]
  obtain m2 where r: "mg_register (mg_lastId m1) s1 m1 = Some m2" "mg_stats m2 = mg_stats m1" "mg_byKey m2 = mg_byKey m1"
    using wf_register [OF created(2) created(1)] by blast
  with None c assms(5) have eq: "s = s1" "m' = m2" by (simp_all add: mg_getCurrent_def)
  have "ids_of_key m2 k = mg_lastId m1 # ids_of_key m k"
    using created(8) r(3) by (simp add: ids_of_key_def)
  then have "first_current p (mg_stats m2) (ids_of_key m2 k) = Some s1"
    using created(2,5) r(2) assms(4) by simp
  then show ?thesis by (simp add: mg_getCurrent_def eq)
qed

lemma update_ok:
  assumes "wf m" and "\<And>s. id_of (f s) = id_of s" and "\<And>s. key_of (f s) = key_of s"
  shows "\<exists>m'. mg_update i f m = Some m' \<and> wf m' \<and>
    mg_stats m' = (case mg_stats m i of None \<Rightarrow> mg_stats m | Some s \<Rightarrow> (mg_stats m)(i \<mapsto> f s))"
proof (cases "mg_stats m i")
  case None
  with assms(1) show ?thesis by (simp add: mg_update_def)
next
  case (Some s)
  define m1 where "m1 = m\<lparr> mg_stats := (mg_stats m)(i \<mapsto> f s) \<rparr>"
  have parts: "mg_parts m \<noteq> []" using assms(1) by (simp add: wf_def)
  have "wf (m1\<lparr> mg_parts := butlast (mg_parts m) @ [(last (mg_parts m))(i \<mapsto> f s)],
                mg_forSync := insert i (mg_forSync m) \<rparr>)" (is "wf ?m")
    unfolding wf_def
  proof (intro conjI allI impI ballI)
    fix j s' assume "mg_stats ?m j = Some s'"
    then show "id_of s' = j" and "j \<le> mg_lastId ?m" and "j \<in> set (ids_of_key ?m (key_of s'))"
      using wf_row [OF assms(1), of j] Some assms(2,3) by (auto simp: m1_def split: if_splits)
  next
    fix k j assume "j \<in> set (ids_of_key ?m k)"
    then show "\<exists>s'. mg_stats ?m j = Some s' \<and> key_of s' = k"
      using wf_listed [OF assms(1), of j k] Some assms(3) by (auto simp: m1_def)
  next
    show "mg_parts ?m \<noteq> []" by simp
    show "mg_forSync ?m \<subseteq> dom (mg_stats ?m)" using assms(1) by (auto simp: m1_def wf_def)
    show "newest (mg_parts ?m) \<subseteq>\<^sub>m mg_stats ?m"
      using assms(1) by (auto simp: m1_def wf_def newest_register [OF parts] map_le_def dom_def)
  qed
  with Some parts show ?thesis by (simp add: mg_update_def mg_register_def m1_def)
qed

lemma wf_createNewPartition: "wf m \<Longrightarrow> wf (mg_createNewPartition m)"
  by (simp add: wf_def mg_createNewPartition_def ids_of_key_def newest_snoc)

lemma wf_removePartitionAfterSave:
  assumes "wf m" and "length (mg_parts m) > 1"
  shows "wf (mg_removePartitionAfterSave m)"
proof -
  have "tl (mg_parts m) \<noteq> []" using assms(2) by (cases "mg_parts m") auto
  moreover have "newest (tl (mg_parts m)) \<subseteq>\<^sub>m mg_stats m"
    using newest_tl assms(1) map_le_trans unfolding wf_def by blast
  ultimately show ?thesis
    using assms(1) by (simp add: wf_def mg_removePartitionAfterSave_def ids_of_key_def)
qed

lemma wf_addChanges: "wf m \<Longrightarrow> dom changes \<subseteq> dom (mg_stats m) \<Longrightarrow> wf (mg_addChanges changes m)"
  by (simp add: wf_def mg_addChanges_def ids_of_key_def)

text \<open>The changes are the current rows of the waiting identifiers.\<close>

lemma getChanges_ok:
  assumes "wf m"
  shows "fst (mg_getChanges z m) = mg_stats m |` mg_forSync m"
    and "wf (snd (mg_getChanges z m))" and "mg_stats (snd (mg_getChanges z m)) = mg_stats m"
    and "mg_forSync (snd (mg_getChanges z m)) = {}"
proof -
  have "(\<lambda>i. if i \<in> mg_forSync m \<and> mg_stats m i = None then Some z else mg_stats m i) = mg_stats m"
    using assms by (force simp: wf_def)
  then show "fst (mg_getChanges z m) = mg_stats m |` mg_forSync m"
    and "wf (snd (mg_getChanges z m))" and "mg_stats (snd (mg_getChanges z m)) = mg_stats m"
    and "mg_forSync (snd (mg_getChanges z m)) = {}"
    using assms by (simp_all add: mg_getChanges_def wf_def ids_of_key_def restrict_map_def)
qed

end

interpretation freemin: stats_rows sf_id sf_service_number_id .
interpretation package: stats_rows sk_id sk_package_id .
interpretation trunk_settings: stats_rows ts_id ts_trunk_settings_id .
interpretation package_minute: stats_rows sm_id sm_nnp_account_tariff_light_id .

text \<open>The row of the month of the call is found or created, and found again.\<close>

lemma StatsTrunkSettings_getCurrent_ok:
  assumes "trunk_settings.wf m"
  shows "\<exists>s m'. StatsTrunkSettings_getCurrent t account ts m = Some (s, m') \<and> trunk_settings.wf m' \<and>
    mg_stats m' (ts_id s) = Some s \<and> ts_trunk_settings_id s = ss_id ts \<and>
    ts_activation_dt s \<le> t \<and> t \<le> ts_expire_dt s \<and> mg_stats m \<subseteq>\<^sub>m mg_stats m'"
proof -
  let ?p = "\<lambda>s. \<not> ts_activation_dt s > t \<and> \<not> ts_expire_dt s < t"
  let ?mk = "createStatsTrunkSettings t account ts"
  have new: "ts_id (?mk i) = i" "ts_trunk_settings_id (?mk i) = ss_id ts" "?p (?mk i)" for i
    using get_tmonth_contains [of t "cl_timezone_offset account"]
    by (simp_all add: createStatsTrunkSettings_def not_less)
  from trunk_settings.getCurrent_ok [where mk = ?mk and k = "ss_id ts" and p = ?p, OF assms new(1,2)] new(3)
  show ?thesis unfolding StatsTrunkSettings_getCurrent_def by (force simp: not_less)
qed

lemma StatsFreemin_getCurrent_ok:
  assumes "freemin.wf m"
  shows "\<exists>s m'. StatsFreemin_getCurrent call dt m = Some (s, m') \<and> freemin.wf m' \<and>
    mg_stats m' (sf_id s) = Some s \<and> sf_service_number_id s = c_number_service_id call \<and>
    sf_month_dt s = dt_month dt \<and> mg_stats m \<subseteq>\<^sub>m mg_stats m'"
  using freemin.getCurrent_ok [OF assms, of "createStatsFreemin call dt" "c_number_service_id call"
      "\<lambda>s. sf_month_dt s = dt_month dt"]
  unfolding StatsFreemin_getCurrent_def by (force simp: createStatsFreemin_def)

lemma StatsPackage_getCurrent_ok:
  assumes "package.wf m"
  shows "\<exists>s m'. StatsPackage_getCurrent call account sp tp m = Some (s, m') \<and> package.wf m' \<and>
    mg_stats m' (sk_id s) = Some s \<and> sk_package_id s = sp_id sp \<and> mg_stats m \<subseteq>\<^sub>m mg_stats m'"
  using package.getCurrent_ok [OF assms, of "createStatsPackage call account sp tp" "sp_id sp"
      "\<lambda>s. \<not> sk_activation_dt s > c_connect_time call \<and> \<not> sk_expire_dt s < c_connect_time call"]
  unfolding StatsPackage_getCurrent_def by (force simp: createStatsPackage_def split: prod.splits)

lemma StatsNNPPackageMinute_getCurrent_ok:
  assumes "package_minute.wf m"
  shows "\<exists>s m'. StatsNNPPackageMinute_getCurrent t pm atl m = Some (s, m') \<and> package_minute.wf m' \<and>
    mg_stats m' (sm_id s) = Some s \<and> sm_nnp_account_tariff_light_id s = nt_id atl \<and> mg_stats m \<subseteq>\<^sub>m mg_stats m'"
  using package_minute.getCurrent_ok [OF assms, of "createStatsNNPPackageMinute pm atl" "nt_id atl"
      "\<lambda>s. \<not> sm_activate_from s > t \<and> \<not> sm_deactivate_from s < t"]
  unfolding StatsNNPPackageMinute_getCurrent_def by (force simp: createStatsNNPPackageMinute_def)

end
