(* ===== verification/Repository.thy ===== *)
theory Repository
  imports Stats_Managers
begin

text \<open>
  The read side of the billing and the routing: \<^verbatim>\<open>src/src-bill/classes/Repository.cpp\<close>,
  \<^verbatim>\<open>Repository_npp.cpp\<close> and \<^verbatim>\<open>Repository.h\<close>. A \<open>Repo\<close> holds one snapshot of every table; the
  operations search it. \<open>rp_now\<close> is \<open>time(nullptr)\<close>, one value during a request, and
  \<open>rp_currentTime\<close> the time the repository was prepared for. The lemmas show that the order of the
  trunk offers is a strict weak order, so that sorting them is well defined, and what the
  candidates of a trunk are.
\<close>

section \<open>Numbering plan tables\<close>

text \<open>\<open>NNPCountryCodeList\<close>: the prefixes of all countries with the country code, in the order they
  were parsed. The first search sorts the vector in place; later ones find it sorted.\<close>

definition sort_prefix_list :: "(int \<times> int) list \<Rightarrow> (int \<times> int) list" where
  "sort_prefix_list prefixList = std_sort (\<lambda>l r. fst l < fst r) prefixList"

definition country_prefixes :: "NNPCountry list \<Rightarrow> (int \<times> int) list" where
  "country_prefixes data = concat (map (\<lambda>c. map (\<lambda>p. (p, nc_code c)) (nc_prefixes c)) data)"

definition get_code_by_prefix :: "(int \<times> int) list \<Rightarrow> int \<Rightarrow> int \<times> int" where
  "get_code_by_prefix prefixList pfx =
     (let l = sort_prefix_list prefixList; i = partition_point (\<lambda>p. fst p < pfx) l
      in if i < length l \<and> fst (l ! i) = pfx then l ! i else (0, 0))"

definition phone_prefix :: "int \<Rightarrow> nat \<Rightarrow> int" where
  "phone_prefix phonenumber len = atoi (take len (lld phonenumber))"

definition get_prefix_by_number :: "(int \<times> int) list \<Rightarrow> int \<Rightarrow> int \<times> int" where
  "get_prefix_by_number prefixList number =
     foldl (\<lambda>valid i. let pfx = phone_prefix number i; p = get_code_by_prefix prefixList pfx
              in if fst p \<noteq> 0 \<and> fst p = pfx then p else valid) (0, 0) [1, 2, 3, 4]"

definition getNNPPrefixsByNumberRange :: "NNPNumberRangePrefix list \<Rightarrow> int \<Rightarrow> int list" where
  "getNNPPrefixsByNumberRange data nnpNumberRangeId =
     (if nnpNumberRangeId < 1 \<or> data = [] then []
      else map nx_nnp_prefix_id (filter (\<lambda>x. nx_nnp_number_range_id x = nnpNumberRangeId) data))"

definition getNumberRangesByNNPPrefix :: "NNPNumberRangePrefix list \<Rightarrow> int \<Rightarrow> int list" where
  "getNumberRangesByNNPPrefix data prefixId =
     (if prefixId < 1 \<or> data = [] then []
      else map nx_nnp_number_range_id (filter (\<lambda>x. nx_nnp_prefix_id x = prefixId) data))"

text \<open>The destinations that some prefix adds and no prefix takes away.\<close>

definition getNNPDestinationsByPrefix :: "NNPPrefixDestination list \<Rightarrow> int list \<Rightarrow> int set" where
  "getNNPDestinationsByPrefix data prefixIds =
     (if data = [] \<or> prefixIds = [] then {}
      else
        (let rows = concat (map (\<lambda>i. filter (\<lambda>d. nd_nnp_prefix_id d = i) data) prefixIds);
             idsIns = set (map nd_nnp_destination_id (filter nd_is_addition rows));
             idsDel = set (map nd_nnp_destination_id (filter (\<lambda>d. \<not> nd_is_addition d) rows))
         in idsIns - idsDel))"

definition getPrefixsByNNPDestination :: "NNPPrefixDestination list \<Rightarrow> int \<Rightarrow> int list \<times> int list" where
  "getPrefixsByNNPDestination data nnpDestinationId =
     (let rows = filter (\<lambda>d. nd_nnp_destination_id d = nnpDestinationId) data
      in (map nd_nnp_prefix_id (filter nd_is_addition rows),
          map nd_nnp_prefix_id (filter (\<lambda>d. \<not> nd_is_addition d) rows)))"

definition findAllActiveByClientID ::
    "NNPAccountTariffLight list \<Rightarrow> int \<Rightarrow> int \<Rightarrow> int \<Rightarrow> NNPAccountTariffLight list" where
  "findAllActiveByClientID data client_id connect_time service_number_id =
     filter (\<lambda>t. nt_account_client_id t = client_id \<and>
       (nt_service_number_id t = service_number_id \<or> nt_service_trunk_id t = service_number_id) \<and>
       nt_activate_from t \<le> connect_time \<and> nt_deactivate_from t \<ge> connect_time) data"

definition findAllByTariffID :: "NNPPackageMinute list \<Rightarrow> int \<Rightarrow> real \<Rightarrow> NNPPackageMinute list" where
  "findAllByTariffID data nnp_tariff_id coefficient =
     map (\<lambda>m. m\<lparr> nm_minute := nm_minute m * coefficient \<rparr>)
       (filter (\<lambda>m. nm_nnp_tariff_id m = nnp_tariff_id) data)"

text \<open>A \<open>set<pair<double, T *>>\<close> is ordered by the price and then by the address, which is the
  place in the vector: a list of candidates in the order of their addresses stands for it, and
  \<open>cheapest\<close> is its first element.\<close>

definition findPackagePriceIds :: "NNPPackagePrice list \<Rightarrow> int \<Rightarrow> int set \<Rightarrow> (real \<times> NNPPackagePrice) list" where
  "findPackagePriceIds data tariff_id nnpDestinationIds =
     map (\<lambda>p. (ni_price p, p))
       (filter (\<lambda>p. ni_nnp_destination_id p \<in> nnpDestinationIds) (equal_range ni_nnp_tariff_id tariff_id data))"

definition findPackagePricelistIds :: "NNPPackagePricelist list \<Rightarrow> int \<Rightarrow> NNPPackagePricelist list" where
  "findPackagePricelistIds data tariff_id = equal_range nl_nnp_tariff_id tariff_id data"

fun cheapest :: "(real \<times> 'a) list \<Rightarrow> (real \<times> 'a) option" where
  "cheapest [] = None"
| "cheapest (x # xs) =
     (case cheapest xs of None \<Rightarrow> Some x | Some y \<Rightarrow> if fst y < fst x then Some y else Some x)"

section \<open>The snapshot\<close>

record Repo =
  rp_conf :: AppConf
  rp_now :: int
  rp_currentTime :: int
  rp_server :: "Server list"
  rp_instanceSettings :: "InstanceSettings list"
  rp_airp :: "Airp list"
  rp_number :: "Number list"
  rp_outcome :: "Outcome list"
  rp_prefixlist :: "Prefixlist list"
  rp_prefixlistPrefix :: "PrefixlistPrefix list"
  rp_releaseReason :: "ReleaseReason list"
  rp_routeCase :: "RouteCase list"
  rp_routeTable :: "RouteTable list"
  rp_routeTableRoute :: "RouteTableRoute list"
  rp_trunk :: "Trunk list"
  rp_trunkGroup :: "TrunkGroup list"
  rp_trunkGroupItem :: "TrunkGroupItem list"
  rp_trunkByName :: "Trunk list"
  rp_trunkByAlias :: "Trunk list"
  rp_trunkNumberPreprocessing :: "TrunkNumberPreprocessing list"
  rp_trunkPriority :: "TrunkPriority list"
  rp_trunkRule :: "TrunkRule list"
  rp_trunkTrunkRule :: "TrunkTrunkRule list"
  rp_client :: "Client list"
  rp_pricelist :: "Pricelist list"
  rp_pricelistPrice :: "PricelistPrice list"
  rp_networkPrefix :: "NetworkPrefix list"
  rp_geo :: "Geo list"
  rp_mobPrefix :: "MobPrefix list"
  rp_geoPrefix :: "GeoPrefix list"
  rp_serviceNumber :: "ServiceNumber list"
  rp_serviceNumberByTechNumber :: "ServiceNumber list"
  rp_serviceNumberPackage :: "ServicePackage list"
  rp_serviceTrunk :: "ServiceTrunk list"
  rp_serviceTrunkPackage :: "ServicePackage list"
  rp_serviceTrunkSettings :: "ServiceTrunkSettings list"
  rp_tariff :: "Tariff list"
  rp_tariffPackage :: "TariffPackage list"
  rp_tariffChangeLog :: "TariffChangeLog list"
  rp_statDestinationPrefixlists :: "StatDestinationPrefixlists list"
  rp_statPrefixlist :: "StatPrefixlist list"
  rp_currencyRate :: "CurrencyRate list"
  rp_nnpCountryPrefixes :: "(int \<times> int) list"
  rp_nnpNumberRange :: "NNPNumberRange list"
  rp_nnpNumberRangeTree :: range_tree
  rp_nnpNumberRangePrefix :: "NNPNumberRangePrefix list"
  rp_nnpPrefixDestination :: "NNPPrefixDestination list"
  rp_nnpPackage :: "NNPPackage list"
  rp_nnpPackageMinute :: "NNPPackageMinute list"
  rp_nnpPackagePrice :: "NNPPackagePrice list"
  rp_nnpPackagePricelist :: "NNPPackagePricelist list"
  rp_nnpAccountTariffLight :: "NNPAccountTariffLight list"

subsection \<open>Preparing it\<close>

text \<open>The lists \<open>prepare\<close> takes from the data container after the first three, in its order.\<close>

definition prepare_lists :: "string list" where
  "prepare_lists = [''AirpList'', ''NumberList'', ''OutcomeList'', ''PrefixlistList'',
     ''PrefixlistPrefixList'', ''ReleaseReasonList'', ''RouteCaseList'', ''RouteTableList'',
     ''RouteTableRouteList'', ''TrunkList'', ''TrunkGroupList'', ''TrunkGroupItemList'',
     ''TrunkByNameList'', ''TrunkByAliasList'', ''TrunkNumberPreprocessingList'',
     ''TrunkPriorityList'', ''TrunkRuleList'', ''TrunkTrunkRuleList'', ''ClientList'',
     ''OrganizationList'', ''OperatorList'', ''PricelistList'', ''PricelistPriceList'',
     ''NetworkPrefixList'', ''GeoList'', ''MobPrefixList'', ''GeoPrefixList'', ''ServiceNumberList'']"

definition prepare_lists2 :: "string list" where
  "prepare_lists2 = [''ServiceNumberByTechNumberList'', ''ServiceNumberPackageList'',
     ''ServiceTrunkList'', ''ServiceTrunkPackageList'', ''ServiceTrunkSettingsList'', ''TariffList'',
     ''TariffPackageList'', ''TariffChangeLogList'', ''StatDestinationPrefixlistsList'',
     ''StatPrefixlistList'', ''ActiveCounter'', ''CurrencyRateList'', ''NNPDestinationList'',
     ''NNPNumberRangePrefixList'', ''NNPPackageList'', ''NNPPackagePriceList'', ''NNPPrefixList'',
     ''NNPCountryCodeList'', ''NNPRegionList'', ''NNPNumberRangeList'', ''NNPOperatorList'',
     ''NNPPackageMinuteList'', ''NNPPackagePricelistList'', ''NNPPrefixDestinationList'',
     ''NNPAccountTariffLightList'']"

text \<open>\<open>loaded\<close> says which lists the container has; the three flags say whether the hub, the server
  and the settings of this instance are in theirs. The answer is the result and \<open>notReadyObj\<close>. For
  a missing server or missing settings the source adds a number to a string literal, which moves
  the pointer: the text is some tail of the literal or memory behind it (\<open>junk\<close>).\<close>

definition prepare :: "AppConf \<Rightarrow> (string \<Rightarrow> bool) \<Rightarrow> bool \<Rightarrow> bool \<Rightarrow> bool \<Rightarrow> string \<Rightarrow> bool \<times> string" where
  "prepare conf loaded hub_found server_found settings_found junk =
     (if \<not> loaded ''HubList'' then (False, ''HubList'')
      else if cf_hub_id conf > 0 \<and> \<not> hub_found then (False, [])
      else if \<not> loaded ''ServerList'' then (False, ''ServerList'')
      else if \<not> server_found then (False, junk)
      else if \<not> loaded ''InstanceSettingsList'' then (False, ''InstanceSettingsList'')
      else if \<not> settings_found then (False, junk)
      else (case List.find (\<lambda>n. \<not> loaded n) (prepare_lists @ prepare_lists2) of
              Some n \<Rightarrow> (False, n) | None \<Rightarrow> (True, [])))"

subsection \<open>Single rows\<close>

definition getServer :: "Repo \<Rightarrow> int \<Rightarrow> Server option" where
  "getServer r = ServerList_find (rp_server r)"

definition getInstanceSettings :: "Repo \<Rightarrow> int \<Rightarrow> InstanceSettings option" where
  "getInstanceSettings r = InstanceSettingsList_find (rp_instanceSettings r)"

definition getSimblingRegion :: "Repo \<Rightarrow> int \<Rightarrow> int set" where
  "getSimblingRegion r = ServerList_getSimblingRegion (rp_server r)"

definition getAccount :: "Repo \<Rightarrow> int \<Rightarrow> Client option" where
  "getAccount r = ClientList_find (rp_client r)"

definition getTrunk :: "Repo \<Rightarrow> int \<Rightarrow> Trunk option" where
  "getTrunk r = TrunkList_find (rp_trunk r)"

definition findAnyOurTrunk :: "Repo \<Rightarrow> int \<Rightarrow> Trunk option" where
  "findAnyOurTrunk r = TrunkList_findAnyOurTrunk (rp_trunk r)"

definition getTrunkGroup :: "Repo \<Rightarrow> int \<Rightarrow> TrunkGroup option" where
  "getTrunkGroup r = TrunkGroupList_find (rp_trunkGroup r)"

definition getAllTrunkGroupTrunkIds :: "Repo \<Rightarrow> int \<Rightarrow> int list" where
  "getAllTrunkGroupTrunkIds r = TrunkGroupItemList_findTrunkIds (rp_trunkGroupItem r)"

definition getServiceNumber :: "Repo \<Rightarrow> int \<Rightarrow> ServiceNumber option" where
  "getServiceNumber r n = ServiceNumberList_find (rp_serviceNumber r) n (rp_currentTime r)"

definition getServiceNumber_str :: "Repo \<Rightarrow> string \<Rightarrow> ServiceNumber option" where
  "getServiceNumber_str r n = getServiceNumber r (atoll n)"

definition getServiceNumberByTechnicalNumber :: "Repo \<Rightarrow> int \<Rightarrow> ServiceNumber option" where
  "getServiceNumberByTechnicalNumber r n =
     ServiceNumberByTechNumberList_find (rp_serviceNumberByTechNumber r) n (rp_currentTime r)"

definition getServiceTrunk :: "Repo \<Rightarrow> int \<Rightarrow> ServiceTrunk option" where
  "getServiceTrunk r trunk_id = ServiceTrunkList_find (rp_serviceTrunk r) trunk_id (rp_currentTime r)"

definition getAllServiceTrunk :: "Repo \<Rightarrow> int \<Rightarrow> ServiceTrunk list" where
  "getAllServiceTrunk r trunk_id = ServiceTrunkList_findAll (rp_serviceTrunk r) trunk_id (rp_currentTime r)"

definition getAllServiceTrunkSettings :: "Repo \<Rightarrow> int \<Rightarrow> int \<Rightarrow> ServiceTrunkSettings list" where
  "getAllServiceTrunkSettings r = ServiceTrunkSettingsList_findAll (rp_serviceTrunkSettings r)"

definition getAllServiceNumberPackage :: "Repo \<Rightarrow> int \<Rightarrow> ServicePackage list" where
  "getAllServiceNumberPackage r i =
     ServiceNumberPackageList_findAll (rp_serviceNumberPackage r) i (rp_currentTime r)"

definition getAllServiceTrunkPackage :: "Repo \<Rightarrow> int \<Rightarrow> ServicePackage list" where
  "getAllServiceTrunkPackage r i =
     ServiceTrunkPackageList_findAll (rp_serviceTrunkPackage r) i (rp_currentTime r)"

definition getPricelist :: "Repo \<Rightarrow> int \<Rightarrow> Pricelist option" where
  "getPricelist r = PricelistList_find (rp_pricelist r)"

definition repo_getPrice :: "Repo \<Rightarrow> int \<Rightarrow> int \<Rightarrow> PricelistPrice option" where
  "repo_getPrice r pricelist_id n =
     PricelistPriceList_find (rp_pricelistPrice r) pricelist_id n (rp_currentTime r)"

definition getNetworkPrefix :: "Repo \<Rightarrow> int \<Rightarrow> int \<Rightarrow> NetworkPrefix option" where
  "getNetworkPrefix r network_config_id n =
     NetworkPrefixList_find (rp_networkPrefix r) network_config_id n (rp_currentTime r)"

definition getTariffLog :: "Repo \<Rightarrow> int \<Rightarrow> TariffChangeLog option" where
  "getTariffLog r usage_id = TariffChangeLogList_find (rp_tariffChangeLog r) usage_id (rp_currentTime r)"

definition getTariff :: "Repo \<Rightarrow> int \<Rightarrow> Tariff option" where
  "getTariff r = TariffList_find (rp_tariff r)"

definition getTariffPackage :: "Repo \<Rightarrow> int \<Rightarrow> TariffPackage option" where
  "getTariffPackage r = TariffPackageList_find (rp_tariffPackage r)"

definition getMobPrefix :: "Repo \<Rightarrow> int \<Rightarrow> MobPrefix option" where
  "getMobPrefix r = MobPrefixList_find (rp_mobPrefix r)"

definition getGeoPrefix :: "Repo \<Rightarrow> int \<Rightarrow> GeoPrefix option" where
  "getGeoPrefix r = GeoPrefixList_find (rp_geoPrefix r)"

definition getGeo :: "Repo \<Rightarrow> int \<Rightarrow> Geo option" where
  "getGeo r = GeoList_find (rp_geo r)"

definition getTrunkNumberPreprocessing :: "Repo \<Rightarrow> int \<Rightarrow> int \<Rightarrow> TrunkNumberPreprocessing option" where
  "getTrunkNumberPreprocessing r = TrunkNumberPreprocessingList_find (rp_trunkNumberPreprocessing r)"

definition getRouteTable :: "Repo \<Rightarrow> int \<Rightarrow> RouteTable option" where
  "getRouteTable r = RouteTableList_find (rp_routeTable r)"

definition getAllRouteTableRoutes :: "Repo \<Rightarrow> int \<Rightarrow> RouteTableRoute list" where
  "getAllRouteTableRoutes r = RouteTableRouteList_findAll (rp_routeTableRoute r)"

definition getOutcome :: "Repo \<Rightarrow> int \<Rightarrow> Outcome option" where
  "getOutcome r = OutcomeList_find (rp_outcome r)"

definition getRouteCase :: "Repo \<Rightarrow> int \<Rightarrow> RouteCase option" where
  "getRouteCase r = RouteCaseList_find (rp_routeCase r)"

definition getReleaseReason :: "Repo \<Rightarrow> int \<Rightarrow> ReleaseReason option" where
  "getReleaseReason r = ReleaseReasonList_find (rp_releaseReason r)"

definition getAirp :: "Repo \<Rightarrow> int \<Rightarrow> Airp option" where
  "getAirp r = AirpList_find (rp_airp r)"

definition getNumber :: "Repo \<Rightarrow> int \<Rightarrow> Number option" where
  "getNumber r = NumberList_find (rp_number r)"

definition getPrefixlist :: "Repo \<Rightarrow> int \<Rightarrow> Prefixlist option" where
  "getPrefixlist r = PrefixlistList_find (rp_prefixlist r)"

definition getPrefixlistPrefix :: "Repo \<Rightarrow> int \<Rightarrow> string \<Rightarrow> PrefixlistPrefix option exc" where
  "getPrefixlistPrefix r = PrefixlistPrefixList_find (rp_prefixlistPrefix r)"

definition getAllTrunkRules :: "Repo \<Rightarrow> int \<Rightarrow> bool \<Rightarrow> TrunkRule list" where
  "getAllTrunkRules r = TrunkRuleList_findAll (rp_trunkRule r)"

definition getAllTrunkGroupRules :: "Repo \<Rightarrow> int \<Rightarrow> TrunkTrunkRule list" where
  "getAllTrunkGroupRules r = findTrunkGroupRules (rp_trunkTrunkRule r)"

definition getAllAutoRoutingTrunks :: "Repo \<Rightarrow> int \<Rightarrow> int set \<Rightarrow> Trunk list" where
  "getAllAutoRoutingTrunks r = findAllAutorouting (rp_trunk r)"

definition getAllRoadToRegion :: "Repo \<Rightarrow> int \<Rightarrow> int \<Rightarrow> int set \<Rightarrow> Trunk list" where
  "getAllRoadToRegion r = findAllRoadToRegion (rp_trunk r)"

definition getStatPrefixlist :: "Repo \<Rightarrow> int \<Rightarrow> StatPrefixlist option" where
  "getStatPrefixlist r = StatPrefixlistList_find (rp_statPrefixlist r)"

definition getAllStatPrefixlistIdsByStatDestinationId :: "Repo \<Rightarrow> int \<Rightarrow> int list" where
  "getAllStatPrefixlistIdsByStatDestinationId r =
     StatDestinationPrefixlistsList_findAll (rp_statDestinationPrefixlists r)"

definition getActiveNNPAccountTariffLight :: "Repo \<Rightarrow> int \<Rightarrow> int \<Rightarrow> int \<Rightarrow> NNPAccountTariffLight list" where
  "getActiveNNPAccountTariffLight r = findAllActiveByClientID (rp_nnpAccountTariffLight r)"

definition getServiceTrunkByClientID :: "Repo \<Rightarrow> int \<Rightarrow> ServiceTrunk list" where
  "getServiceTrunkByClientID r = ServiceTrunkList_findAllByClientID (rp_serviceTrunk r)"

definition getNNPPackageMinuteByTariff :: "Repo \<Rightarrow> int \<Rightarrow> real \<Rightarrow> NNPPackageMinute list" where
  "getNNPPackageMinuteByTariff r = findAllByTariffID (rp_nnpPackageMinute r)"

definition getNNPNumberRange :: "Repo \<Rightarrow> int \<Rightarrow> NNPNumberRange option" where
  "getNNPNumberRange r num =
     map_option (\<lambda>i. rp_nnpNumberRange r ! i)
       (getNNPNumberRange_index (rp_nnpNumberRange r) (rp_nnpNumberRangeTree r) num)"

definition getNNPCountryPrefix :: "Repo \<Rightarrow> int \<Rightarrow> int \<times> int" where
  "getNNPCountryPrefix r = get_prefix_by_number (rp_nnpCountryPrefixes r)"

definition getNNPCountryCode :: "Repo \<Rightarrow> int \<Rightarrow> int" where
  "getNNPCountryCode r country_prefix = snd (get_code_by_prefix (rp_nnpCountryPrefixes r) country_prefix)"

definition getNNPPackageMinute :: "Repo \<Rightarrow> int \<Rightarrow> NNPPackageMinute option" where
  "getNNPPackageMinute r = NNPPackageMinuteList_find (rp_nnpPackageMinute r)"

definition getNNPPackage :: "Repo \<Rightarrow> int \<Rightarrow> NNPPackage option" where
  "getNNPPackage r = NNPPackageList_find (rp_nnpPackage r)"

definition getTrunkPriority :: "Repo \<Rightarrow> int \<Rightarrow> TrunkPriority list" where
  "getTrunkPriority r = findAllTrunkPriority (rp_trunkPriority r)"

definition repo_isRegionOnHub :: "Repo \<Rightarrow> int \<Rightarrow> bool" where
  "repo_isRegionOnHub r = ServerList_isRegionOnHub (rp_conf r) (rp_server r)"

definition getServerIdByIP :: "Repo \<Rightarrow> int \<Rightarrow> int" where
  "getServerIdByIP r = ServerList_getServerIdByIP (rp_server r)"

section \<open>Trunks\<close>

definition getTrunkByName :: "Repo \<Rightarrow> string \<Rightarrow> int \<Rightarrow> Trunk option" where
  "getTrunkByName r trunk_name org_server_id =
     (let server_id = (if org_server_id > 0 then org_server_id else cf_instance_id (rp_conf r));
          simblingRegions = getSimblingRegion r server_id in
      if trunk_name = [] then None
      else (case TrunkByNameList_find (rp_trunkByName r) trunk_name simblingRegions of
              Some t \<Rightarrow> Some t
            | None \<Rightarrow> TrunkByAliasList_find (rp_trunkByAlias r) trunk_name simblingRegions))"

definition getServiceTrunk_of_settings :: "Repo \<Rightarrow> int \<Rightarrow> (ServiceTrunkSettings option) \<times> Trunk option" where
  "getServiceTrunk_of_settings r trunk_settings_id =
     (case List.find (\<lambda>s. ss_id s = trunk_settings_id) (rp_serviceTrunkSettings r) of
        None \<Rightarrow> (None, None)
      | Some settings \<Rightarrow>
          if ss_trunk_id settings = 0 then (Some settings, None)
          else
            (case List.find (\<lambda>s. st_id s = ss_trunk_id settings) (rp_serviceTrunk r) of
               None \<Rightarrow> (Some settings, None)
             | Some st \<Rightarrow> (Some settings, if st_trunk_id st = 0 then None else getTrunk r (st_trunk_id st))))"

section \<open>Currencies\<close>

text \<open>\<open>getCurrencyRate\<close> answers whether there is a rate, and the rate.\<close>

definition getCurrencyRate :: "Repo \<Rightarrow> string \<Rightarrow> bool \<times> real" where
  "getCurrencyRate r currency_id =
     (case CurrencyRateList_find (rp_now r) (rp_currencyRate r) currency_id of
        Some c \<Rightarrow> (True, cr_rate c) | None \<Rightarrow> (False, 1))"

definition priceToRoubles :: "Repo \<Rightarrow> real \<Rightarrow> string \<Rightarrow> real" where
  "priceToRoubles r price currency_id =
     (case getCurrencyRate r currency_id of (found, rate) \<Rightarrow>
        if found \<and> rate > 0.00000001 then price * rate else price)"

definition priceLessThan :: "Repo \<Rightarrow> real \<Rightarrow> Pricelist \<Rightarrow> real \<Rightarrow> Pricelist \<Rightarrow> bool" where
  "priceLessThan r priceLeft pricelistLeft priceRight pricelistRight =
     (if same_currency (pl_currency_id pricelistLeft) (pl_currency_id pricelistRight)
      then priceLeft < priceRight
      else priceToRoubles r priceLeft (pl_currency_id pricelistLeft)
             < priceToRoubles r priceRight (pl_currency_id pricelistRight))"

definition setCurrencyRate :: "Repo \<Rightarrow> Price \<Rightarrow> Price" where
  "setCurrencyRate r p =
     (case getCurrencyRate r (pr_currency p) of (found, rate) \<Rightarrow>
        if found \<and> rate > 0.00000001 then p\<lparr> pr_currency_rate := rate \<rparr> else p\<lparr> pr_currency_rate := 1 \<rparr>)"

definition getVatRate :: "Client option \<Rightarrow> real" where
  "getVatRate client =
     (case client of
        Some cl \<Rightarrow> if \<not> cl_price_include_vat cl then real_of_int (cl_effective_vat_rate cl) / 100 else 0
      | None \<Rightarrow> 0)"

section \<open>Matching numbers\<close>

definition matchPrefixlist :: "Repo \<Rightarrow> int \<Rightarrow> string \<Rightarrow> bool exc" where
  "matchPrefixlist r prefixlist_id pfx =
     (case getPrefixlist r prefixlist_id of
        None \<Rightarrow> Val False
      | Some pl \<Rightarrow> bind_exc (getPrefixlistPrefix r (pf_id pl) pfx) (\<lambda>p. Val (p \<noteq> None)))"

definition matchNumber :: "Repo \<Rightarrow> int \<Rightarrow> int \<Rightarrow> bool exc" where
  "matchNumber r number_id numberPrefix =
     (case getNumber r number_id of
        None \<Rightarrow> Val False
      | Some n \<Rightarrow> bind_exc (getPrefixlistIds n) (any_exc (\<lambda>i. matchPrefixlist r i (lld numberPrefix))))"

definition isEmergencyCall :: "Repo \<Rightarrow> string \<Rightarrow> int \<Rightarrow> bool exc" where
  "isEmergencyCall r bNumber server_id =
     (case getServer r server_id of
        None \<Rightarrow> Val False
      | Some server \<Rightarrow>
          if sv_emergency_prefixlist_id server = 0 then Val False
          else (case getPrefixlist r (sv_emergency_prefixlist_id server) of
                  None \<Rightarrow> Val False
                | Some pl \<Rightarrow> bind_exc (getPrefixlistPrefix r (pf_id pl) bNumber) (\<lambda>p. Val (p \<noteq> None))))"

section \<open>Destinations and prices of the numbering plan\<close>

definition getNNPDestinationByNumberRange :: "Repo \<Rightarrow> NNPNumberRange option \<Rightarrow> int set" where
  "getNNPDestinationByNumberRange r numberRange =
     (case numberRange of
        None \<Rightarrow> {}
      | Some nr \<Rightarrow> getNNPDestinationsByPrefix (rp_nnpPrefixDestination r)
                     (getNNPPrefixsByNumberRange (rp_nnpNumberRangePrefix r) (nr_id nr)))"

definition getNNPDestinationByNum :: "Repo \<Rightarrow> int \<Rightarrow> int set" where
  "getNNPDestinationByNum r num = getNNPDestinationByNumberRange r (getNNPNumberRange r num)"

definition findNNPPackagePriceIds :: "Repo \<Rightarrow> int \<Rightarrow> int set \<Rightarrow> (real \<times> NNPPackagePrice) list" where
  "findNNPPackagePriceIds r = findPackagePriceIds (rp_nnpPackagePrice r)"

definition findNNPPackagePricelistIds :: "Repo \<Rightarrow> int \<Rightarrow> int \<Rightarrow> (real \<times> NNPPackagePricelist) list" where
  "findNNPPackagePricelistIds r tariff_id num =
     concat (map (\<lambda>pkg. case repo_getPrice r (nl_pricelist_id pkg) num of
                    Some p \<Rightarrow> [(pp_price p, pkg)] | None \<Rightarrow> [])
       (findPackagePricelistIds (rp_nnpPackagePricelist r) tariff_id))"

text \<open>\<open>getNNPBestGeoRoute\<close>: among the A numbers (the default one first) one of the city of the B
  number, else one of its region, else \<open>-1\<close>.\<close>

definition getNNPBestGeoRoute :: "Repo \<Rightarrow> int \<Rightarrow> int list \<Rightarrow> int \<Rightarrow> int" where
  "getNNPBestGeoRoute r NumAdef vNumA NumB =
     (case (getNNPNumberRange r NumAdef, getNNPNumberRange r NumB) of
        (Some nrA, Some nrB) \<Rightarrow>
          (let vNr = (NumAdef, nrA) #
                 concat (map (\<lambda>n. case getNNPNumberRange r n of Some x \<Rightarrow> [(n, x)] | None \<Rightarrow> []) vNumA);
               vNrRes = filter (\<lambda>(n, x). nr_nnp_city_id x = nr_nnp_city_id nrB) vNr
                      @ filter (\<lambda>(n, x). nr_nnp_region_id x = nr_nnp_region_id nrB) vNr
           in case vNrRes of [] \<Rightarrow> - 1 | (n, _) # _ \<Rightarrow> n)
      | _ \<Rightarrow> - 1)"

section \<open>Offers of a trunk\<close>

definition checkTrunkSettingsOldPricelistConditions ::
    "Repo \<Rightarrow> ServiceTrunkSettings \<Rightarrow> int \<Rightarrow> int \<Rightarrow> (Pricelist \<times> PricelistPrice) option exc" where
  "checkTrunkSettingsOldPricelistConditions r ts srcNumber dstNumber =
     bind_exc (if ss_src_number_id ts > 0 then matchNumber r (ss_src_number_id ts) srcNumber else Val True) (\<lambda>a.
     if \<not> a then Val None else
     bind_exc (if ss_dst_number_id ts > 0 then matchNumber r (ss_dst_number_id ts) dstNumber else Val True) (\<lambda>b.
     if \<not> b then Val None else
     (case getPricelist r (ss_pricelist_id ts) of
        None \<Rightarrow> Val None
      | Some pl \<Rightarrow>
          if pl_local pl then
            (case getNetworkPrefix r (pl_local_network_config_id pl) dstNumber of
               None \<Rightarrow> Val None
             | Some np \<Rightarrow>
                 Val (map_option (Pair pl) (repo_getPrice r (ss_pricelist_id ts) (np_network_type_id np))))
          else Val (map_option (Pair pl) (repo_getPrice r (ss_pricelist_id ts) dstNumber)))))"

definition checkNNPTrunkSettingsConditions :: "Repo \<Rightarrow> ServiceTrunkSettings \<Rightarrow> int \<Rightarrow> int \<Rightarrow> bool exc" where
  "checkNNPTrunkSettingsConditions r ts srcNumber dstNumber =
     (if ss_nnp_tariff_id ts = 0 then Val False else
     bind_exc (if ss_src_number_id ts > 0 then matchNumber r (ss_src_number_id ts) srcNumber else Val True) (\<lambda>a.
     if \<not> a then Val False else
     (if ss_dst_number_id ts > 0 then matchNumber r (ss_dst_number_id ts) dstNumber else Val True)))"

text \<open>The cheapest of the package prices and package pricelists; of equal prices the null pointer
  comes first, so a package price comes before a pricelist.\<close>

definition nnp_offer :: "Repo \<Rightarrow> ServiceTrunkSettings \<Rightarrow> int set \<Rightarrow> int \<Rightarrow>
    (real \<times> NNPPackagePricelist option \<times> NNPPackagePrice option) option" where
  "nnp_offer r ts nnpDestinationIds dstNumber =
     cheapest (map (\<lambda>(c, p). (c, None, Some p)) (findNNPPackagePriceIds r (ss_nnp_tariff_id ts) nnpDestinationIds)
       @ map (\<lambda>(c, p). (c, Some p, None)) (findNNPPackagePricelistIds r (ss_nnp_tariff_id ts) dstNumber))"

text \<open>The body of the inner loop of \<open>getTrunkSettingsOrderList\<close>.\<close>

definition trunk_settings_offer :: "Repo \<Rightarrow> Trunk \<Rightarrow> int \<Rightarrow> int \<Rightarrow> int set \<Rightarrow>
    ServiceTrunk \<times> ServiceTrunkSettings \<Rightarrow> ServiceTrunkOrder option exc" where
  "trunk_settings_offer r trunk srcNumber dstNumber nnpDestinationIds = (\<lambda>(st, ts).
     (case getAccount r (st_client_account_id st) of
        None \<Rightarrow> Val None
      | Some account \<Rightarrow>
          (let order0 = ServiceTrunkOrder_new\<lparr> o_trunk := Some trunk, o_account := Some account,
                 o_serviceTrunk := Some st, o_trunkSettings := Some ts, o_statsTrunkSettings := None \<rparr> in
           if cl_account_version account = 4 then
             bind_exc (checkTrunkSettingsOldPricelistConditions r ts srcNumber dstNumber) (\<lambda>c.
               Val (map_option (\<lambda>(pl, p). order0\<lparr> o_pricelist := Some pl, o_price := Some p \<rparr>) c))
           else if cl_account_version account = 5 then
             bind_exc (checkNNPTrunkSettingsConditions r ts srcNumber dstNumber) (\<lambda>ok.
               Val (if ok then
                      map_option (\<lambda>(c, pl, p). order0\<lparr> o_nnpPackagePricelist := pl, o_nnpPackagePrice := p,
                          o_nnpPackage := getNNPPackage r (ss_nnp_tariff_id ts), o_nnp_price := c,
                          o_price := None, o_pricelist := None \<rparr>)
                        (nnp_offer r ts nnpDestinationIds dstNumber)
                    else None))
           else Val None)))"

definition getTrunkSettingsOrderList ::
    "Repo \<Rightarrow> Trunk \<Rightarrow> int \<Rightarrow> int \<Rightarrow> int \<Rightarrow> ServiceTrunkOrder list exc" where
  "getTrunkSettingsOrderList r trunk srcNumber dstNumber destinationType =
     (let nnpDestinationIds = getNNPDestinationByNumberRange r (getNNPNumberRange r dstNumber)
      in collect_exc (trunk_settings_offer r trunk srcNumber dstNumber nnpDestinationIds)
           (concat (map (\<lambda>st. map (Pair st) (getAllServiceTrunkSettings r (st_id st) destinationType))
              (getAllServiceTrunk r (tr_id trunk)))))"

section \<open>Ordering the offers\<close>

definition order_price :: "ServiceTrunkOrder \<Rightarrow> Price" where
  "order_price ord =
     (case o_account ord of
        None \<Rightarrow> Price_new
      | Some account \<Rightarrow>
          (let p1 = (case o_nnpPackage ord of
                 Some pkg \<Rightarrow> if cl_account_version account = 5
                             then Price_set (o_nnp_price ord) (nk_currency_id pkg) Price_new else Price_new
               | None \<Rightarrow> Price_new)
           in case (o_price ord, o_pricelist ord) of
                (Some p, Some pl) \<Rightarrow> if cl_account_version account = 4
                                     then Price_set (pp_price p) (pl_currency_id pl) p1 else p1
              | _ \<Rightarrow> p1))"

definition trunkOrderLessThan :: "Repo \<Rightarrow> ServiceTrunkOrder \<Rightarrow> ServiceTrunkOrder \<Rightarrow> bool" where
  "trunkOrderLessThan r left right =
     (let l = order_price left; g = order_price right in
      if pr_currency l \<noteq> pr_currency g then Price_less (setCurrencyRate r l) (setCurrencyRate r g)
      else Price_less l g)"

definition orderOrigTrunkSettingsOrderList :: "Repo \<Rightarrow> ServiceTrunkOrder list \<Rightarrow> ServiceTrunkOrder list" where
  "orderOrigTrunkSettingsOrderList r orders = std_sort (trunkOrderLessThan r) orders"

text \<open>The loop of \<open>orderTermTrunkSettingsOrderList\<close> fills in the counters of each offer and sorts it
  to the list of the offers whose minimum is not yet used up, or to the rest. The offers have an
  account and settings; without them the source would follow a null pointer.\<close>

fun split_orders :: "bool \<Rightarrow> int \<Rightarrow> ServiceTrunkOrder list \<Rightarrow> ServiceTrunkOrder list \<Rightarrow> StatsTrunkSettingsManager \<Rightarrow>
    (ServiceTrunkOrder list \<times> ServiceTrunkOrder list \<times> StatsTrunkSettingsManager) exc" where
  "split_orders fUseMinimalki connect_time all [] m = Val ([], [], m)"
| "split_orders fUseMinimalki connect_time all (ord # rest) m =
     (case (o_account ord, o_trunkSettings ord) of
        (Some account, Some ts) \<Rightarrow>
          (case StatsTrunkSettings_getCurrent connect_time account ts m of
             None \<Rightarrow> Exc ''out_of_range''
           | Some (stats, m') \<Rightarrow>
               (let ord' = ord\<lparr> o_statsTrunkSettings := Some stats \<rparr>;
                    isAcceptedTrunk = (\<exists>a \<in> set all. map_option ss_id (o_trunkSettings a) = Some (ss_id ts));
                    isFree = ((ss_minimum_minutes ts > 0 \<and> fUseMinimalki \<and>
                               ts_used_seconds stats < ss_minimum_minutes ts * 60) \<or>
                              (ss_minimum_cost ts > 0 \<and> fUseMinimalki \<and>
                               ts_used_credit stats \<le> real_of_int (ss_minimum_cost ts)))
                in bind_exc (split_orders fUseMinimalki connect_time all rest m')
                     (\<lambda>(free, pay, m''). Val
                        (if \<not> isAcceptedTrunk then (free, pay, m'')
                         else if isFree then (ord' # free, pay, m'')
                         else (free, ord' # pay, m'')))))
      | _ \<Rightarrow> Undef)"

definition orderTermTrunkSettingsOrderList :: "Repo \<Rightarrow> ServiceTrunkOrder list \<Rightarrow> bool \<Rightarrow> int \<Rightarrow>
    StatsTrunkSettingsManager \<Rightarrow> (ServiceTrunkOrder list \<times> StatsTrunkSettingsManager) exc" where
  "orderTermTrunkSettingsOrderList r orders fUseMinimalki connect_time m =
     bind_exc (split_orders fUseMinimalki connect_time orders orders m) (\<lambda>(free, pay, m').
       Val (std_sort (\<lambda>l g. o_priority l > o_priority g)
              (std_sort (trunkOrderLessThan r) free @ std_sort (trunkOrderLessThan r) pay), m'))"

section \<open>What the order of offers means\<close>

text \<open>The rate that \<open>setCurrencyRate\<close> stores is positive, whatever the table holds.\<close>

definition rouble_rate :: "Repo \<Rightarrow> string \<Rightarrow> real" where
  "rouble_rate r currency =
     (case getCurrencyRate r currency of (found, rate) \<Rightarrow> if found \<and> rate > 0.00000001 then rate else 1)"

lemma rouble_rate_pos: "rouble_rate r currency > 0"
  by (auto simp: rouble_rate_def split: prod.splits)

lemma priceToRoubles_rate: "priceToRoubles r price currency = price * rouble_rate r currency"
  by (auto simp: rouble_rate_def priceToRoubles_def split: prod.splits)

text \<open>The value of an offer in roubles; an offer without a price has none.\<close>

definition offer_roubles :: "Repo \<Rightarrow> ServiceTrunkOrder \<Rightarrow> real option" where
  "offer_roubles r ord =
     (let p = order_price ord
      in if pr_present p then Some (priceToRoubles r (pr_price p) (pr_currency p)) else None)"

definition cheaper :: "real option \<Rightarrow> real option \<Rightarrow> bool" where
  "cheaper a b = (case (a, b) of (Some x, Some y) \<Rightarrow> x < y | (Some x, None) \<Rightarrow> True | (None, _) \<Rightarrow> False)"

lemma setCurrencyRate_fields [simp]:
  "pr_present (setCurrencyRate r p) = pr_present p" "pr_price (setCurrencyRate r p) = pr_price p"
  "pr_currency (setCurrencyRate r p) = pr_currency p"
  "pr_currency_rate (setCurrencyRate r p) = rouble_rate r (pr_currency p)"
  by (auto simp: setCurrencyRate_def rouble_rate_def split: prod.splits)

lemma trunkOrderLessThan_roubles:
  "trunkOrderLessThan r left right \<longleftrightarrow> cheaper (offer_roubles r left) (offer_roubles r right)"
proof (cases "pr_currency (order_price left) = pr_currency (order_price right)")
  case True
  have "rouble_rate r (pr_currency (order_price right)) > 0" by (rule rouble_rate_pos)
  with True show ?thesis
    by (auto simp: trunkOrderLessThan_def Price_less_def offer_roubles_def cheaper_def Let_def priceToRoubles_rate)
next
  case False
  then show ?thesis
    by (auto simp: trunkOrderLessThan_def Price_less_def offer_roubles_def cheaper_def Let_def priceToRoubles_rate)
qed

interpretation offers: weak_order "trunkOrderLessThan r" for r
  by unfold_locales (auto simp: trunkOrderLessThan_roubles cheaper_def split: option.splits)

interpretation priorities: weak_order "\<lambda>l g. o_priority l > o_priority g"
  by unfold_locales auto

lemma cheapest_minimal:
  "cheapest xs = Some y \<Longrightarrow> y \<in> set xs \<and> (\<forall>x \<in> set xs. fst y \<le> fst x)"
proof (induction xs arbitrary: y)
  case (Cons x xs)
  show ?case
  proof (cases "cheapest xs")
    case None
    then have "xs = []" by (cases xs) (auto split: option.splits if_splits)
    with Cons.prems show ?thesis by simp
  next
    case (Some z)
    with Cons.IH [OF Some] Cons.prems show ?thesis by (force split: if_splits)
  qed
qed simp

lemma cheapest_None_iff: "cheapest xs = None \<longleftrightarrow> xs = []"
  by (cases xs) (auto split: option.splits if_splits)

section \<open>Terminating offers\<close>

definition complete_order :: "ServiceTrunkOrder \<Rightarrow> bool" where
  "complete_order ord \<longleftrightarrow> o_account ord \<noteq> None \<and> o_trunkSettings ord \<noteq> None"

lemma trunk_settings_offer_complete:
  "trunk_settings_offer r trunk src dst ds x = Val (Some ord) \<Longrightarrow> complete_order ord"
  by (auto simp: trunk_settings_offer_def complete_order_def Let_def split: prod.splits option.splits if_splits)

lemma getTrunkSettingsOrderList_complete:
  assumes "getTrunkSettingsOrderList r trunk src dst ty = Val orders" and "ord \<in> set orders"
  shows "complete_order ord"
  using collect_exc_mem [OF assms(1) [unfolded getTrunkSettingsOrderList_def Let_def] assms(2)]
    trunk_settings_offer_complete by blast

text \<open>The loop takes every offer once, with its counters filled in.\<close>

lemma split_orders_ok:
  assumes "trunk_settings.wf m" and "\<forall>ord \<in> set rest. complete_order ord" and "set rest \<subseteq> set all"
  shows "\<exists>free pay m'. split_orders minimalki t all rest m = Val (free, pay, m') \<and> trunk_settings.wf m' \<and>
    mset (map (\<lambda>d. d\<lparr> o_statsTrunkSettings := None \<rparr>) (free @ pay))
      = mset (map (\<lambda>d. d\<lparr> o_statsTrunkSettings := None \<rparr>) rest) \<and>
    (\<forall>ord \<in> set (free @ pay). o_statsTrunkSettings ord \<noteq> None)"
  using assms
proof (induction rest arbitrary: m)
  case (Cons ord rest)
  then obtain account ts where at: "o_account ord = Some account" "o_trunkSettings ord = Some ts"
    by (auto simp: complete_order_def)
  obtain stats m1 where c: "StatsTrunkSettings_getCurrent t account ts m = Some (stats, m1)" "trunk_settings.wf m1"
    using StatsTrunkSettings_getCurrent_ok [OF Cons.prems(1)] by blast
  have acc: "\<exists>a \<in> set all. map_option ss_id (o_trunkSettings a) = Some (ss_id ts)"
    using Cons.prems(3) at(2) by auto
  obtain free pay m2 where IH: "split_orders minimalki t all rest m1 = Val (free, pay, m2)" "trunk_settings.wf m2"
    "mset (map (\<lambda>d. d\<lparr> o_statsTrunkSettings := None \<rparr>) (free @ pay))
      = mset (map (\<lambda>d. d\<lparr> o_statsTrunkSettings := None \<rparr>) rest)"
    "\<forall>ord \<in> set (free @ pay). o_statsTrunkSettings ord \<noteq> None"
    using Cons.IH [OF c(2)] Cons.prems by auto
  then show ?case using acc by (auto simp: at c(1) Let_def)
qed simp

lemma orderTerm_ok:
  assumes "trunk_settings.wf m" and "\<forall>ord \<in> set orders. complete_order ord"
  shows "\<exists>orders' m'. orderTermTrunkSettingsOrderList r orders minimalki t m = Val (orders', m') \<and>
    trunk_settings.wf m' \<and> sorted_wrt (\<lambda>a b. o_priority a \<ge> o_priority b) orders' \<and>
    mset (map (\<lambda>d. d\<lparr> o_statsTrunkSettings := None \<rparr>) orders')
      = mset (map (\<lambda>d. d\<lparr> o_statsTrunkSettings := None \<rparr>) orders)"
proof -
  obtain free pay m' where s: "split_orders minimalki t orders orders m = Val (free, pay, m')" "trunk_settings.wf m'"
    "mset (map (\<lambda>d. d\<lparr> o_statsTrunkSettings := None \<rparr>) (free @ pay))
      = mset (map (\<lambda>d. d\<lparr> o_statsTrunkSettings := None \<rparr>) orders)"
    using split_orders_ok [OF assms order_refl] by blast
  show ?thesis
    using s priorities.std_sort_sorted [of "std_sort (trunkOrderLessThan r) free @ std_sort (trunkOrderLessThan r) pay"]
    by (simp add: orderTermTrunkSettingsOrderList_def mset_map not_less)
qed

end
