(* ===== verification/Mega_Trunk.thy ===== *)
theory Mega_Trunk
  imports Repository
begin

text \<open>
  \<^verbatim>\<open>src/src-bill/classes/StateMegaTrunk.cpp\<close>: whether a call belongs to a client that collects the
  calls of its numbers in one trunk (possibly in another region), and in which of the two phases
  of the routing the call is.
\<close>

record StateMegaTrunk =
  mt_origRegion :: int
  mt_src_trunk :: "Trunk option"
  mt_serviceNumberNumA :: "ServiceNumber option"
  mt_serviceNumberNumB :: "ServiceNumber option"
  mt_isPhase1 :: bool
  mt_isPhase2 :: bool
  mt_isNeedForceTermAuthByNumber :: bool
  mt_isNeedForceTermTarifficationSkip :: bool
  mt_simblingRegions :: "int set"
  mt_destTrunk :: "Trunk option"
  mt_destRegion :: int

definition StateMegaTrunk_new :: "AppConf \<Rightarrow> StateMegaTrunk" where
  "StateMegaTrunk_new conf = \<lparr> mt_origRegion = cf_instance_id conf, mt_src_trunk = None,
     mt_serviceNumberNumA = None, mt_serviceNumberNumB = None, mt_isPhase1 = False, mt_isPhase2 = False,
     mt_isNeedForceTermAuthByNumber = False, mt_isNeedForceTermTarifficationSkip = False,
     mt_simblingRegions = {}, mt_destTrunk = None, mt_destRegion = 0 \<rparr>"

definition setOrigRegion :: "int \<Rightarrow> StateMegaTrunk \<Rightarrow> StateMegaTrunk" where
  "setOrigRegion region s = s\<lparr> mt_origRegion := region \<rparr>"

definition prepareFromCdr :: "Repo \<Rightarrow> Cdr option \<Rightarrow> string \<Rightarrow> string \<Rightarrow> StateMegaTrunk \<Rightarrow> StateMegaTrunk" where
  "prepareFromCdr r cdr aNumber bNumber s =
     (case cdr of
        None \<Rightarrow> s
      | Some c \<Rightarrow>
          (let aN = (if aNumber = [] then cdr_src_number c else aNumber);
               bN = (if bNumber = [] then cdr_dst_number c else bNumber)
           in s\<lparr> mt_src_trunk := getTrunkByName r (cdr_src_route c) (mt_origRegion s),
                 mt_serviceNumberNumA := getServiceNumber_str r aN,
                 mt_serviceNumberNumB := getServiceNumber_str r bN,
                 mt_simblingRegions := getSimblingRegion r (mt_origRegion s) \<rparr>))"

text \<open>The services of a client that are active now.\<close>

definition active_now :: "Repo \<Rightarrow> ServiceTrunk \<Rightarrow> bool" where
  "active_now r st \<longleftrightarrow> rp_now r \<le> st_expire_dt st \<and> st_activation_dt st \<le> rp_now r"

text \<open>First loop: the B number's account has a terminating trunk. In another region: phase 1, towards
  that region. In this region or hub: phase 2, into the trunk. The answer is \<open>None\<close> when no service
  returned from the function.\<close>

fun phase_by_B :: "Repo \<Rightarrow> ServiceNumber \<Rightarrow> ServiceTrunk list \<Rightarrow> StateMegaTrunk \<Rightarrow> StateMegaTrunk option" where
  "phase_by_B r sn [] s = None"
| "phase_by_B r sn (st # sts) s =
     (if active_now r st \<and> st_client_account_id st = sn_client_account_id sn \<and> st_term_enabled st then
        (if st_server_id st \<notin> mt_simblingRegions s then
           Some (s\<lparr> mt_destRegion := st_server_id st, mt_isPhase1 := True,
                    mt_isNeedForceTermAuthByNumber := True \<rparr>)
         else
           (let destTrunk = getTrunk r (st_trunk_id st); s' = s\<lparr> mt_destTrunk := destTrunk \<rparr>
            in Some (if destTrunk \<noteq> None
                     then s'\<lparr> mt_isNeedForceTermTarifficationSkip := True, mt_isPhase2 := True \<rparr> else s')))
      else phase_by_B r sn sts s)"

text \<open>Second loop: the call comes from the trunk of the A number's account and the number is of
  another region: phase 1, towards the region of the number. \<open>destTrunk\<close> is assigned on the way.\<close>

fun phase_by_A :: "Repo \<Rightarrow> ServiceNumber \<Rightarrow> Trunk \<Rightarrow> ServiceTrunk list \<Rightarrow> StateMegaTrunk \<Rightarrow> StateMegaTrunk" where
  "phase_by_A r sn src [] s = s"
| "phase_by_A r sn src (st # sts) s =
     (if active_now r st \<and> st_client_account_id st = sn_client_account_id sn \<and> st_orig_enabled st \<and>
         tr_id src = st_trunk_id st then
        (let s' = s\<lparr> mt_destTrunk := getTrunk r (st_trunk_id st) \<rparr> in
         if sn_server_id sn \<notin> mt_simblingRegions s' \<and> mt_destTrunk s' \<noteq> None
         then s'\<lparr> mt_isPhase1 := True, mt_destRegion := sn_server_id sn \<rparr>
         else phase_by_A r sn src sts s')
      else phase_by_A r sn src sts s)"

definition PhaseCalc :: "Repo \<Rightarrow> StateMegaTrunk \<Rightarrow> StateMegaTrunk" where
  "PhaseCalc r s =
     (case mt_src_trunk s of
        None \<Rightarrow> s
      | Some src \<Rightarrow>
          (case (case mt_serviceNumberNumB s of
                   Some sn \<Rightarrow> phase_by_B r sn (getServiceTrunkByClientID r (sn_client_account_id sn)) s
                 | None \<Rightarrow> None) of
             Some s' \<Rightarrow> s'
           | None \<Rightarrow>
               (case mt_serviceNumberNumA s of
                  None \<Rightarrow> s
                | Some sn \<Rightarrow> phase_by_A r sn src (getServiceTrunkByClientID r (sn_client_account_id sn)) s)))"

definition isForceOrgAuthByNumber :: "Repo \<Rightarrow> StateMegaTrunk \<Rightarrow> bool" where
  "isForceOrgAuthByNumber r s =
     (case (mt_src_trunk s, mt_serviceNumberNumA s) of
        (Some src, Some sn) \<Rightarrow>
          (\<exists>st \<in> set (getServiceTrunkByClientID r (sn_client_account_id sn)).
             active_now r st \<and> st_client_account_id st = sn_client_account_id sn \<and>
             Trunk_is_connected src (st_server_id st) \<and> sn_server_id sn \<in> mt_simblingRegions s)
      | _ \<Rightarrow> False)"

text \<open>\<open>isForceOrigTarifficationSkip\<close> assigns \<open>destTrunk\<close> too.\<close>

fun skip_orig_loop :: "Repo \<Rightarrow> ServiceNumber \<Rightarrow> Trunk \<Rightarrow> ServiceTrunk list \<Rightarrow> StateMegaTrunk \<Rightarrow> bool \<times> StateMegaTrunk" where
  "skip_orig_loop r sn src [] s = (False, s)"
| "skip_orig_loop r sn src (st # sts) s =
     (if active_now r st \<and> st_client_account_id st = sn_client_account_id sn \<and> st_orig_enabled st \<and>
         tr_id src = st_trunk_id st then
        (let s' = s\<lparr> mt_destTrunk := getTrunk r (st_trunk_id st) \<rparr> in
         if \<not> repo_isRegionOnHub r (sn_server_id sn) \<and> mt_destTrunk s' \<noteq> None then (True, s')
         else skip_orig_loop r sn src sts s')
      else skip_orig_loop r sn src sts s)"

definition isForceOrigTarifficationSkip :: "Repo \<Rightarrow> StateMegaTrunk \<Rightarrow> bool \<times> StateMegaTrunk" where
  "isForceOrigTarifficationSkip r s =
     (case (mt_src_trunk s, mt_serviceNumberNumA s) of
        (Some src, Some sn) \<Rightarrow>
          skip_orig_loop r sn src (getServiceTrunkByClientID r (sn_client_account_id sn)) s
      | _ \<Rightarrow> (False, s))"

definition isTechOrig :: "StateMegaTrunk \<Rightarrow> bool" where
  "isTechOrig s = (case mt_src_trunk s of Some t \<Rightarrow> tr_tech_trunk t | None \<Rightarrow> False)"

section \<open>Phases\<close>

lemma phase_by_A_phases:
  assumes "\<not> mt_isPhase1 s" and "\<not> mt_isPhase2 s"
  shows "\<not> mt_isPhase2 (phase_by_A r sn src sts s) \<and>
    (mt_isPhase1 (phase_by_A r sn src sts s) \<longrightarrow>
       mt_destRegion (phase_by_A r sn src sts s) = sn_server_id sn \<and>
       sn_server_id sn \<notin> mt_simblingRegions s \<and> mt_destTrunk (phase_by_A r sn src sts s) \<noteq> None)"
  using assms by (induction r sn src sts s rule: phase_by_A.induct) (auto simp: Let_def)

lemma phase_by_B_phases:
  assumes "\<not> mt_isPhase1 s" and "\<not> mt_isPhase2 s" and "phase_by_B r sn sts s = Some s'"
  shows "\<not> (mt_isPhase1 s' \<and> mt_isPhase2 s') \<and>
    (mt_isPhase1 s' \<longrightarrow> mt_destRegion s' \<notin> mt_simblingRegions s \<and> mt_isNeedForceTermAuthByNumber s') \<and>
    (mt_isPhase2 s' \<longrightarrow> mt_destTrunk s' \<noteq> None \<and> mt_isNeedForceTermTarifficationSkip s')"
  using assms by (induction r sn sts s rule: phase_by_B.induct) (auto simp: Let_def split: if_splits)

text \<open>The regions of the hub do not change during the computation.\<close>

lemma phase_by_A_regions: "mt_simblingRegions (phase_by_A r sn src sts s) = mt_simblingRegions s"
  by (induction r sn src sts s rule: phase_by_A.induct) (auto simp: Let_def)

lemma PhaseCalc_phases:
  assumes "\<not> mt_isPhase1 s" and "\<not> mt_isPhase2 s"
  shows "\<not> (mt_isPhase1 (PhaseCalc r s) \<and> mt_isPhase2 (PhaseCalc r s))"
    and "mt_isPhase1 (PhaseCalc r s) \<Longrightarrow> mt_destRegion (PhaseCalc r s) \<notin> mt_simblingRegions s"
    and "mt_isPhase2 (PhaseCalc r s) \<Longrightarrow> mt_destTrunk (PhaseCalc r s) \<noteq> None"
  using assms phase_by_A_phases [OF assms] phase_by_B_phases [OF assms]
  by (auto simp: PhaseCalc_def split: option.splits)

end
