(* ===== verification/Sample_Data.thy ===== *)
theory Sample_Data
  imports Mega_Trunk
begin

text \<open>
  Small concrete rows and tables. The witnesses of the properties evaluate the model on them; nothing
  else depends on this theory.
\<close>

definition empty_repo :: Repo where
  "empty_repo = \<lparr>
    rp_conf = \<lparr> cf_instance_id = 1, cf_hub_id = 0, cf_billing_free_seconds = 5 \<rparr>, rp_now = 1000,
    rp_currentTime = 1000, rp_server = [], rp_instanceSettings = [], rp_airp = [], rp_number = [],
    rp_outcome = [], rp_prefixlist = [], rp_prefixlistPrefix = [], rp_releaseReason = [], rp_routeCase = [],
    rp_routeTable = [], rp_routeTableRoute = [], rp_trunk = [], rp_trunkGroup = [], rp_trunkGroupItem = [],
    rp_trunkByName = [], rp_trunkByAlias = [], rp_trunkNumberPreprocessing = [], rp_trunkPriority = [],
    rp_trunkRule = [], rp_trunkTrunkRule = [], rp_client = [], rp_pricelist = [], rp_pricelistPrice = [],
    rp_networkPrefix = [], rp_geo = [], rp_mobPrefix = [], rp_geoPrefix = [], rp_serviceNumber = [],
    rp_serviceNumberByTechNumber = [], rp_serviceNumberPackage = [], rp_serviceTrunk = [],
    rp_serviceTrunkPackage = [], rp_serviceTrunkSettings = [], rp_tariff = [], rp_tariffPackage = [],
    rp_tariffChangeLog = [], rp_statDestinationPrefixlists = [], rp_statPrefixlist = [], rp_currencyRate = [],
    rp_nnpCountryPrefixes = [], rp_nnpNumberRange = [], rp_nnpNumberRangeTree = Nil_node,
    rp_nnpNumberRangePrefix = [], rp_nnpPrefixDestination = [], rp_nnpPackage = [], rp_nnpPackageMinute = [],
    rp_nnpPackagePrice = [], rp_nnpPackagePricelist = [], rp_nnpAccountTariffLight = [] \<rparr>"

definition sample_price :: "string \<Rightarrow> int \<Rightarrow> PricelistPrice" where
  "sample_price pfx cents = \<lparr> pp_pricelist_id = 1, pp_prefix = pfx, pp_date_from = 0, pp_date_to = 100,
     pp_price = real_of_int cents / 100 \<rparr>"

definition sample_pricelist :: "int \<Rightarrow> Pricelist" where
  "sample_pricelist i = \<lparr> pl_id = i, pl_region = 0, pl_tariffication_by_minutes = True,
     pl_tariffication_full_first_minute = False, pl_orig = True, pl_local = False, pl_local_network_config_id = 0,
     pl_initiate_mgmn_cost = 0, pl_initiate_zona_cost = 0, pl_price_include_vat = False, pl_currency_id = ''RUB'' \<rparr>"

definition sample_range :: "int \<Rightarrow> int \<Rightarrow> NNPNumberRange" where
  "sample_range lo hi = \<lparr> nr_id = 1, nr_ndc = 0, nr_full_number_from = lo, nr_full_number_to = hi, nr_is_mob = False,
     nr_is_active = True, nr_nnp_operator_id = 0, nr_nnp_region_id = 0, nr_insert_time = 0, nr_update_time = 0,
     nr_nnp_city_id = 0, nr_country_prefix = 7, nr_country_code = 643, nr_ndc_type_id = 0 \<rparr>"

definition sample_log :: "int \<Rightarrow> int \<Rightarrow> TariffChangeLog" where
  "sample_log date tariff = \<lparr> tc_usage_id = 1, tc_activation_date = date, tc_expire_dt = 0, tc_tariff_id_local = tariff,
     tc_tariff_id_local_mob = tariff, tc_tariff_id_russia = tariff, tc_tariff_id_russia_mob = tariff,
     tc_tariff_id_intern = tariff \<rparr>"

definition sample_account :: Client where
  "sample_account = \<lparr> cl_id = 10, cl_limit_d = 100, cl_limit_d_mn = 50, cl_credit = 0, cl_balance = 20, cl_disabled = False,
     cl_amount_date = 0, cl_organization_id = 1, cl_price_include_vat = False, cl_timezone_offset = 3,
     cl_is_blocked = False, cl_anti_fraud_disabled = False, cl_is_trunk_client = False, cl_is_num_client = True,
     cl_account_version = 4, cl_effective_vat_rate = 20 \<rparr>"

definition sample_settings :: ServiceTrunkSettings where
  "sample_settings = \<lparr> ss_id = 4, ss_trunk_id = 2, ss_type = 2, ss_order = 1, ss_src_number_id = 0, ss_dst_number_id = 0,
     ss_pricelist_id = 1, ss_minimum_minutes = 100, ss_minimum_cost = 0, ss_nnp_tariff_id = 0, ss_minimum_margin_type = 0,
     ss_minimum_margin = 0 \<rparr>"

definition sample_cdr :: Cdr where
  "sample_cdr = Cdr_new\<lparr> cdr_id := 70, cdr_connect_time := 1000, cdr_setup_time := 995, cdr_session_time := 61,
     cdr_src_number := ''74951111111'', cdr_dst_number := ''74952222222'', cdr_src_route := ''alpha'',
     cdr_dst_route := ''beta'', cdr_call_id := 900 \<rparr>"

definition sample_call :: Call where
  "sample_call = (Call_new 0 sample_cdr True)\<lparr> c_id := 31, c_number_service_id := 5, c_destination_id := -1 \<rparr>"

definition sample_freemin :: StatsFreemin where
  "sample_freemin = \<lparr> sf_id = 1, sf_service_number_id = 5, sf_month_dt = 0, sf_used_seconds = 30, sf_used_credit = 0,
     sf_min_call_id = 0, sf_max_call_id = 0 \<rparr>"

definition sample_freemin_mgr :: StatsFreeminManager where
  "sample_freemin_mgr = StatsFreemin_load 1 [sample_freemin] mg_new"

lemma sample_freemin_mgr_wf: "freemin.wf sample_freemin_mgr"
  by (auto simp: freemin.wf_def freemin.newest_def sample_freemin_mgr_def StatsFreemin_load_def mg_load_def
      push_id_def ids_of_key_def mg_new_def sample_freemin_def)

end
