(* ===== verification/Table_Properties.thy ===== *)
theory Table_Properties
  imports Sample_Data
begin

text \<open>
  The correctness of the tables, the number range index and the counters, stated for the functions
  that the pricing and the routing call. Each property is the lemma of a component or of an
  interpreted interface, written out; the witnesses apply it to small tables.
\<close>

section \<open>Periods\<close>

text \<open>The day and the month that \<open>get_tday\<close>, \<open>get_tday_end\<close>, \<open>get_tmonth\<close> and
  \<open>get_tmonth_end\<close> compute for a time stamp contain it, in every time zone, and two time stamps have
  the same day exactly when one lies in the day of the other.\<close>

theorem periods_contain_time:
  "get_tmonth t off \<le> t \<and> t \<le> get_tmonth_end t off \<and> get_tday t off \<le> t \<and> t \<le> get_tday_end t off \<and>
   (get_tday u off = get_tday t off \<longleftrightarrow> get_tday t off \<le> u \<and> u \<le> get_tday_end t off)"
  using get_tmonth_contains [of t off] get_tday_contains [of t off] get_tday_contains [of u off]
    get_tday_unique [of t off u]
  by (auto simp: get_tday_end_def)

section \<open>Prefix tables\<close>

definition price_fits :: "PricelistPrice \<Rightarrow> int \<Rightarrow> int \<Rightarrow> int \<Rightarrow> bool" where
  "price_fits x k n t \<longleftrightarrow> pp_pricelist_id x = k \<and> pp_date_from x \<le> t \<and> t \<le> pp_date_to x \<and>
     pp_prefix x \<noteq> [] \<and> prefix (pp_prefix x) (lld n)"

text \<open>C28: The price of a number in a pricelist is the row valid at the time of the call with the
  longest prefix of the number, and there is a price whenever some row fits.\<close>

theorem price_is_longest_prefix:
  assumes "prices.ordered data"
  shows "case PricelistPriceList_find data k n t of
      Some r \<Rightarrow> r \<in> set data \<and> price_fits r k n t \<and>
        (\<forall>x \<in> set data. price_fits x k n t \<longrightarrow> length (pp_prefix x) \<le> length (pp_prefix r))
    | None \<Rightarrow> \<forall>x \<in> set data. \<not> price_fits x k n t"
proof (cases "PricelistPriceList_find data k n t")
  case None
  with prices.find_total [OF assms] show ?thesis by (fastforce simp: price_fits_def)
next
  case (Some r)
  obtain i where "0 < i" "PricelistPriceList_lookup data k t (take i (lld n)) = Some r" "i \<le> length (lld n)"
    using prices.find_row [OF Some] by blast
  moreover from this have ne: "take i (lld n) \<noteq> []" by auto
  ultimately have "pp_prefix r = take i (lld n)"
    using prices.lookup_filter [OF assms ne, of k t] by (auto simp: find_Some_iff)
  with ne Some prices.find_sound [OF assms Some] prices.find_best [OF assms Some] show ?thesis
    by (auto simp: price_fits_def)
qed

theorem price_is_longest_prefix_witness:
  "prices.ordered [sample_price ''7'' 300, sample_price ''7495'' 150] \<and>
   (case PricelistPriceList_find [sample_price ''7'' 300, sample_price ''7495'' 150] 1 74951 50 of
      Some r \<Rightarrow> r \<in> set [sample_price ''7'' 300, sample_price ''7495'' 150] \<and> price_fits r 1 74951 50
    | None \<Rightarrow> \<forall>x \<in> set [sample_price ''7'' 300, sample_price ''7495'' 150]. \<not> price_fits x 1 74951 50)"
proof -
  have o: "prices.ordered [sample_price ''7'' 300, sample_price ''7495'' 150]"
    by (auto simp: prices.ordered_def sorted_by2_def sample_price_def consecutive_def)
  show ?thesis using o price_is_longest_prefix [OF o, of 1 74951 50] by (simp split: option.splits)
qed

text \<open>A number matches a prefix list exactly when one of the prefixes of the list begins it; the
  search does not leave its buffer of 20 characters.\<close>

theorem prefixlist_match_iff:
  assumes "sorted_by2 px_prefixlist_id px_prefix data" and "length s < 20"
  shows "PrefixlistPrefixList_find data k s \<noteq> Undef \<and>
    ((\<exists>r. PrefixlistPrefixList_find data k s = Val (Some r)) \<longleftrightarrow>
     (\<exists>x \<in> set data. px_prefixlist_id x = k \<and> px_prefix x \<noteq> [] \<and> prefix (px_prefix x) s))"
  using PrefixlistPrefixList_find_iff [OF assms, of k] assms(2)
  by (simp add: PrefixlistPrefixList_find_def)

theorem prefixlist_match_iff_witness:
  "\<exists>r. PrefixlistPrefixList_find [\<lparr> px_prefixlist_id = 3, px_prefix = ''78'' \<rparr>] 3 ''7812'' = Val (Some r)"
  using prefixlist_match_iff [of "[\<lparr> px_prefixlist_id = 3, px_prefix = ''78'' \<rparr>]" "''7812''" 3]
  by (simp add: sorted_by2_def)

section \<open>Identifier tables\<close>

text \<open>The binary search of the identifier lists returns what a scan for the identifier would:
  trunks, accounts and pricelists.\<close>

theorem keyed_search_is_scan:
  assumes "sorted (map tr_id trunks)" and "sorted (map cl_id clients)" and "sorted (map pl_id pricelists)"
  shows "TrunkList_find trunks i = List.find (\<lambda>x. tr_id x = i) trunks \<and>
    ClientList_find clients i = List.find (\<lambda>x. cl_id x = i) clients \<and>
    PricelistList_find pricelists i = List.find (\<lambda>x. pl_id x = i) pricelists"
  using assms by (simp add: trunks.find_sorted clients.find_sorted pricelists.find_sorted)

theorem keyed_search_is_scan_witness:
  "TrunkList_find [] 5 = None \<and>
   PricelistList_find [sample_pricelist 3, sample_pricelist 5, sample_pricelist 9] 5 = Some (sample_pricelist 5)"
  using keyed_search_is_scan [of "[]" "[]" "[sample_pricelist 3, sample_pricelist 5, sample_pricelist 9]" 5]
  by (simp add: sample_pricelist_def)

text \<open>After loading, the search by name finds a trunk exactly when the table has one of that name
  in one of the regions, and returns such a trunk.\<close>

theorem trunk_by_name_after_load:
  "case TrunkByNameList_find (TrunkByNameList_load rows) n regions of
     Some t \<Rightarrow> t \<in> set rows \<and> tr_trunk_name t = n \<and> tr_server_id t \<in> regions
   | None \<Rightarrow> [t \<leftarrow> rows. tr_trunk_name t = n \<and> tr_server_id t \<in> regions] = []"
proof -
  have "set (TrunkByNameList_load rows) = set rows"
    by (metis TrunkByNameList_load_def mset_std_sort set_mset_mset)
  then show ?thesis
    by (auto simp: TrunkByNameList_find_loaded find_None_iff find_Some_iff filter_empty_conv split: option.splits)
qed

section \<open>Number ranges\<close>

text \<open>C29: The index of number ranges, built by inserting the rows of the query, answers with a range
  that contains the number and is not longer than any other that does, and with nothing exactly
  when no range contains it.\<close>

theorem number_range_is_shortest:
  assumes "\<forall>x \<in> set data. proper_range x" and "0 < num"
  shows "case getNNPNumberRange_index data (load_ranges data) num of
      Some i \<Rightarrow> i < length data \<and> covers (data ! i) num \<and>
        (\<forall>x \<in> set data. covers x num \<longrightarrow> getLength (data ! i) \<le> getLength x)
    | None \<Rightarrow> \<forall>x \<in> set data. \<not> covers x num"
proof (cases "getNNPNumberRange_index data (load_ranges data) num")
  case None
  with getNNPNumberRange_index_None [OF assms] show ?thesis by simp
next
  case (Some i)
  from getNNPNumberRange_index_Some [OF assms(1) Some] Some show ?thesis by (auto simp: in_set_conv_nth)
qed

theorem number_range_is_shortest_witness:
  "getNNPNumberRange_index [sample_range 100 199] (load_ranges [sample_range 100 199]) 150 = Some 0"
  using number_range_is_shortest [of "[sample_range 100 199]" 150]
  by (simp add: proper_range_def covers_def sample_range_def split: option.splits)

text \<open>The tree behind the index is balanced after any sequence of insertions, with the stored
  heights correct.\<close>

theorem number_range_tree_balanced: "avl (load_ranges data) \<and> (avl t \<longrightarrow> avl (insertNode data t i))"
  by (simp add: avl_load_ranges avl_insertNode)

theorem number_range_tree_balanced_witness:
  "avl (insertNode [sample_range 100 199] Nil_node 0)"
  using number_range_tree_balanced [of "[sample_range 100 199]" Nil_node 0] by simp

section \<open>Tariff change log\<close>

text \<open>The query orders the log by service and date. Closing the periods keeps the entries, and the
  period of each ends where the next one of the service begins.\<close>

definition log_ordered :: "TariffChangeLog list \<Rightarrow> bool" where
  "log_ordered rows \<longleftrightarrow> sorted_wrt (\<lambda>x y. tc_usage_id x < tc_usage_id y \<or>
     tc_usage_id x = tc_usage_id y \<and> tc_activation_date x < tc_activation_date y) rows"

lemma close_periods_kept:
  "map (\<lambda>r. r\<lparr> tc_expire_dt := 0 \<rparr>) (close_periods prev rows) = map (\<lambda>r. r\<lparr> tc_expire_dt := 0 \<rparr>) (prev # rows)"
  by (induction prev rows rule: close_periods.induct) auto

lemma close_periods_usages: "map tc_usage_id (close_periods prev rows) = map tc_usage_id (prev # rows)"
  by (induction prev rows rule: close_periods.induct) auto

lemma close_periods_head:
  assumes "x \<in> set (close_periods prev rows)"
  shows "\<exists>y \<in> set (prev # rows). tc_usage_id x = tc_usage_id y \<and> tc_activation_date x = tc_activation_date y"
  using assms by (induction prev rows rule: close_periods.induct) (auto split: if_splits)

lemma close_periods_consecutive:
  assumes "log_ordered (prev # rows)" and "\<forall>r \<in> set (prev # rows). tc_activation_date r \<le> 64060588800"
    and "tc_expire_dt prev = 64060588800"
  shows "consecutive tc_activation_date tc_expire_dt (filter (\<lambda>x. tc_usage_id x = u) (close_periods prev rows))"
  using assms
proof (induction prev rows rule: close_periods.induct)
  case (2 prev item rest)
  let ?item = "item\<lparr> tc_expire_dt := 64060588800 \<rparr>"
  have IH: "consecutive tc_activation_date tc_expire_dt (filter (\<lambda>x. tc_usage_id x = u) (close_periods ?item rest))"
    using "2.IH" "2.prems" by (simp add: log_ordered_def)
  have later: "tc_activation_date item - 1 < tc_activation_date x"
    if "x \<in> set (close_periods ?item rest)" "tc_usage_id x = tc_usage_id item" for x
    using close_periods_head [OF that(1)] that(2) "2.prems"(1) by (fastforce simp: log_ordered_def)
  have other: "tc_usage_id x \<noteq> tc_usage_id prev"
    if "x \<in> set (close_periods ?item rest)" "tc_usage_id prev \<noteq> tc_usage_id item" for x
    using close_periods_head [OF that(1)] that(2) "2.prems"(1) by (fastforce simp: log_ordered_def)
  from IH show ?case
    using "2.prems" other by (auto simp: consecutive_def log_ordered_def dest: later [simplified])
qed (simp add: consecutive_def)

lemma TariffChangeLogList_load_ok:
  assumes "log_ordered rows" and "\<forall>r \<in> set rows. tc_activation_date r \<le> 64060588800"
  shows "sorted (map tc_usage_id (TariffChangeLogList_load rows))"
    and "consecutive tc_activation_date tc_expire_dt (filter (\<lambda>x. tc_usage_id x = u) (TariffChangeLogList_load rows))"
proof -
  show "sorted (map tc_usage_id (TariffChangeLogList_load rows))"
  proof (cases rows)
    case (Cons r rs)
    have "sorted (map tc_usage_id rows)"
      using assms(1) unfolding log_ordered_def sorted_map by (rule sorted_wrt_mono_rel [rotated]) auto
    then show ?thesis by (simp add: Cons TariffChangeLogList_load_def close_periods_usages)
  qed (simp add: TariffChangeLogList_load_def)
  show "consecutive tc_activation_date tc_expire_dt (filter (\<lambda>x. tc_usage_id x = u) (TariffChangeLogList_load rows))"
    using assms close_periods_consecutive [of "r\<lparr> tc_expire_dt := 64060588800 \<rparr>" rs u for r rs]
    by (cases rows) (simp_all add: TariffChangeLogList_load_def consecutive_def log_ordered_def)
qed

text \<open>The tariff of a service at a moment is the entry of the loaded log whose period contains the
  moment, and periods of one service do not overlap: at most one entry answers.\<close>

theorem tariff_log_unique_period:
  assumes "log_ordered rows" and "\<forall>r \<in> set rows. tc_activation_date r \<le> 64060588800"
  shows "case TariffChangeLogList_find (TariffChangeLogList_load rows) u t of
      Some x \<Rightarrow> filter (\<lambda>x. tc_usage_id x = u \<and> tc_activation_date x \<le> t \<and> t \<le> tc_expire_dt x)
                  (TariffChangeLogList_load rows) = [x]
    | None \<Rightarrow> filter (\<lambda>x. tc_usage_id x = u \<and> tc_activation_date x \<le> t \<and> t \<le> tc_expire_dt x)
                  (TariffChangeLogList_load rows) = []"
proof -
  let ?log = "TariffChangeLogList_load rows"
  let ?now = "\<lambda>x. tc_activation_date x \<le> t \<and> t \<le> tc_expire_dt x"
  note ok = TariffChangeLogList_load_ok [OF assms]
  have "at_time tc_activation_date tc_expire_dt t (equal_range tc_usage_id u ?log)
      = filter (\<lambda>x. tc_usage_id x = u \<and> ?now x) ?log"
    using at_time_filter [OF ok(2) [of u]] by (simp add: equal_range_filter [OF ok(1)] conj_commute)
  moreover have "length (filter ?now xs) \<le> 1" if "consecutive tc_activation_date tc_expire_dt xs" for xs
    using that by (induction xs) (auto simp: consecutive_def filter_empty_conv)
  from this [OF ok(2) [of u]] have "length (filter (\<lambda>x. tc_usage_id x = u \<and> ?now x) ?log) \<le> 1"
    by (simp add: conj_commute)
  ultimately show ?thesis
    by (cases "filter (\<lambda>x. tc_usage_id x = u \<and> ?now x) ?log") (auto simp: TariffChangeLogList_find_def)
qed

theorem tariff_log_unique_period_witness:
  "TariffChangeLogList_find (TariffChangeLogList_load [sample_log 10 7, sample_log 20 8]) 1 15
     = Some ((sample_log 10 7)\<lparr> tc_expire_dt := 19 \<rparr>)"
  using tariff_log_unique_period [of "[sample_log 10 7, sample_log 20 8]" 1 15]
  by (simp add: log_ordered_def sample_log_def TariffChangeLogList_load_def split: option.splits)

section \<open>Counters\<close>

text \<open>Asking for the counters of a trunk setting always returns a row of that setting whose period
  contains the call, and asking again returns the same row and changes nothing.\<close>

theorem trunk_settings_counter_stable:
  assumes "trunk_settings.wf m"
  shows "\<exists>s m'. StatsTrunkSettings_getCurrent t account ts m = Some (s, m') \<and> trunk_settings.wf m' \<and>
    mg_stats m' (ts_id s) = Some s \<and> ts_trunk_settings_id s = ss_id ts \<and> ts_activation_dt s \<le> t \<and> t \<le> ts_expire_dt s \<and>
    StatsTrunkSettings_getCurrent t account ts m' = Some (s, m')"
proof -
  obtain s m' where c: "StatsTrunkSettings_getCurrent t account ts m = Some (s, m')" "trunk_settings.wf m'"
    "mg_stats m' (ts_id s) = Some s" "ts_trunk_settings_id s = ss_id ts" "ts_activation_dt s \<le> t" "t \<le> ts_expire_dt s"
    using StatsTrunkSettings_getCurrent_ok [OF assms] by blast
  have "StatsTrunkSettings_getCurrent t account ts m' = Some (s, m')"
    using c(1) get_tmonth_contains [of t "cl_timezone_offset account"] unfolding StatsTrunkSettings_getCurrent_def
    by (intro trunk_settings.getCurrent_stable [OF assms]) (simp_all add: createStatsTrunkSettings_def not_less)
  with c show ?thesis by blast
qed

theorem trunk_settings_counter_stable_witness:
  "\<exists>s m'. StatsTrunkSettings_getCurrent 1000 sample_account sample_settings mg_new = Some (s, m') \<and>
     ts_trunk_settings_id s = 4 \<and> StatsTrunkSettings_getCurrent 1000 sample_account sample_settings m' = Some (s, m')"
  using trunk_settings_counter_stable [OF trunk_settings.wf_new, of 1000 sample_account sample_settings]
  by (auto simp: sample_settings_def)

text \<open>A call added while a save is running is not lost: after the new partition is opened, the
  counter is updated and the saved partition is dropped, the remaining partitions still hold the new
  value of the row, which has the call's free seconds added.\<close>

theorem counter_update_survives_save:
  assumes "freemin.wf m" and "mg_stats m (c_service_package_stats_id call) = Some s"
    and "c_number_service_id call \<noteq> 0" and "c_service_package_id call = 1" and "c_service_package_stats_id call \<noteq> 0"
  shows "\<exists>m2. StatsFreemin_add call (mg_createNewPartition m) = Some m2 \<and>
    (let m3 = mg_removePartitionAfterSave m2 in
      freemin.wf m3 \<and> mg_stats m3 (sf_id s) = Some (updateStatsFreemin call s) \<and>
      freemin.newest (mg_parts m3) (sf_id s) = Some (updateStatsFreemin call s) \<and>
      sf_used_seconds (updateStatsFreemin call s) = sf_used_seconds s + c_package_time call)"
proof -
  let ?m1 = "mg_createNewPartition m" and ?i = "c_service_package_stats_id call" and ?f = "updateStatsFreemin call"
  have wf1: "freemin.wf ?m1" using assms(1) by (rule freemin.wf_createNewPartition)
  have i: "sf_id s = ?i" using freemin.wf_row(1) [OF assms(1,2)] .
  have ne: "mg_parts m \<noteq> []" using assms(1) by (simp add: freemin.wf_def)
  let ?m2 = "?m1\<lparr> mg_stats := (mg_stats m)(?i \<mapsto> ?f s), mg_parts := mg_parts m @ [[?i \<mapsto> ?f s]],
    mg_forSync := insert ?i (mg_forSync m) \<rparr>"
  have upd: "mg_update ?i ?f ?m1 = Some ?m2"
    using assms(2) by (simp add: mg_update_def mg_register_def mg_createNewPartition_def)
  have wf2: "freemin.wf ?m2"
    using freemin.update_ok [OF wf1, of ?f ?i] upd by (auto simp: updateStatsFreemin_def)
  have "freemin.wf (mg_removePartitionAfterSave ?m2)"
    using wf2 ne by (intro freemin.wf_removePartitionAfterSave) auto
  moreover have "freemin.newest (tl (mg_parts m) @ [[?i \<mapsto> ?f s]]) ?i = Some (?f s)"
    by (simp add: freemin.newest_snoc)
  ultimately show ?thesis using upd assms(3-5) ne
    by (simp add: StatsFreemin_add_def mg_removePartitionAfterSave_def i updateStatsFreemin_def tl_append2 Let_def)
qed

theorem counter_update_survives_save_witness:
  "\<exists>m2. StatsFreemin_add (sample_call\<lparr> c_service_package_id := 1, c_service_package_stats_id := 1, c_package_time := 20 \<rparr>)
       (mg_createNewPartition sample_freemin_mgr) = Some m2 \<and>
     map_option sf_used_seconds (freemin.newest (mg_parts (mg_removePartitionAfterSave m2)) 1) = Some 50"
proof -
  have row: "mg_stats sample_freemin_mgr 1 = Some sample_freemin"
    by (simp add: sample_freemin_mgr_def StatsFreemin_load_def mg_load_def push_id_def sample_freemin_def)
  show ?thesis
    using counter_update_survives_save [OF sample_freemin_mgr_wf,
        of "sample_call\<lparr> c_service_package_id := 1, c_service_package_stats_id := 1, c_package_time := 20 \<rparr>" sample_freemin] row
    by (auto simp: sample_call_def sample_freemin_def updateStatsFreemin_def Let_def)
qed

text \<open>Handing the changed counters to the synchronisation and giving them back after a failure
  restores what waits to be synchronised; the changes are the current rows.\<close>

theorem counter_changes_returned:
  assumes "package.wf m"
  shows "fst (mg_getChanges z m) = mg_stats m |` mg_forSync m \<and>
    mg_forSync (snd (mg_getChanges z m)) = {} \<and>
    mg_forSync (mg_addChanges (fst (mg_getChanges z m)) (snd (mg_getChanges z m))) = mg_forSync m \<and>
    package.wf (mg_addChanges (fst (mg_getChanges z m)) (snd (mg_getChanges z m)))"
proof -
  have "mg_forSync m \<subseteq> dom (mg_stats m)" using assms by (simp add: package.wf_def)
  then have "dom (mg_stats m |` mg_forSync m) = mg_forSync m" by auto
  then show ?thesis using package.getChanges_ok [OF assms, of z]
    by (auto simp: mg_addChanges_def package.wf_def ids_of_key_def)
qed

theorem counter_changes_returned_witness:
  "\<forall>z. mg_forSync (mg_addChanges (fst (mg_getChanges z (mg_new :: StatsPackageManager)))
     (snd (mg_getChanges z (mg_new :: StatsPackageManager)))) = mg_forSync (mg_new :: StatsPackageManager)"
  using counter_changes_returned [OF package.wf_new] by blast

section \<open>Offers of trunks\<close>

text \<open>Ordering the originating offers keeps them all, and the first is not dearer in roubles than
  any other; offers without a price come last.\<close>

theorem orig_offer_is_cheapest:
  assumes "orderOrigTrunkSettingsOrderList r orders = best # rest"
  shows "mset (best # rest) = mset orders \<and>
    (\<forall>ord \<in> set orders. \<not> cheaper (offer_roubles r ord) (offer_roubles r best))"
  using assms offers.std_sort_head_minimal [of r orders best rest]
  unfolding orderOrigTrunkSettingsOrderList_def trunkOrderLessThan_roubles [symmetric]
  by (metis mset_std_sort)

definition sample_offer :: "int \<Rightarrow> ServiceTrunkOrder" where
  "sample_offer cents = ServiceTrunkOrder_new\<lparr> o_account := Some sample_account,
     o_pricelist := Some (sample_pricelist 1), o_price := Some (sample_price ''7'' cents) \<rparr>"

theorem orig_offer_is_cheapest_witness:
  "orderOrigTrunkSettingsOrderList empty_repo [sample_offer 300, sample_offer 150] = [sample_offer 150, sample_offer 300] \<and>
   \<not> cheaper (offer_roubles empty_repo (sample_offer 300)) (offer_roubles empty_repo (sample_offer 150))"
proof -
  have "orderOrigTrunkSettingsOrderList empty_repo [sample_offer 300, sample_offer 150] = [sample_offer 150, sample_offer 300]"
    by (simp add: orderOrigTrunkSettingsOrderList_def std_sort_def trunkOrderLessThan_def order_price_def sample_offer_def
        ServiceTrunkOrder_new_def sample_account_def sample_price_def sample_pricelist_def Price_less_def Price_set_def Price_new_def)
  with orig_offer_is_cheapest [OF this] show ?thesis by simp
qed

text \<open>Ordering the terminating offers of a trunk never fails on the offers the repository collects;
  it keeps them all, fills in their counters, and leaves them in the order of their priorities.\<close>

theorem term_offers_ordered:
  assumes "trunk_settings.wf m" and "getTrunkSettingsOrderList r trunk src dst ty = Val orders"
  shows "\<exists>orders' m'. orderTermTrunkSettingsOrderList r orders minimalki t m = Val (orders', m') \<and>
    trunk_settings.wf m' \<and> sorted_wrt (\<lambda>a b. o_priority a \<ge> o_priority b) orders' \<and>
    mset (map (\<lambda>d. d\<lparr> o_statsTrunkSettings := None \<rparr>) orders')
      = mset (map (\<lambda>d. d\<lparr> o_statsTrunkSettings := None \<rparr>) orders)"
  using orderTerm_ok [OF assms(1)] getTrunkSettingsOrderList_complete [OF assms(2)] by blast

theorem term_offers_ordered_witness:
  "\<exists>trunk orders' m'. getTrunkSettingsOrderList empty_repo trunk 1 2 2 = Val [] \<and>
     orderTermTrunkSettingsOrderList empty_repo [] True 1000 mg_new = Val (orders', m') \<and> trunk_settings.wf m'"
proof -
  have e: "getTrunkSettingsOrderList empty_repo trunk 1 2 2 = Val []" for trunk
    by (simp add: getTrunkSettingsOrderList_def getAllServiceTrunk_def ServiceTrunkList_findAll_def empty_repo_def
        equal_range_def equal_range_by_def upto_bound_def Let_def)
  show ?thesis using e term_offers_ordered [OF trunk_settings.wf_new e, of True 1000] by blast
qed

section \<open>Preparing the repository\<close>

lemma find_Some_D: "List.find P xs = Some x \<Longrightarrow> x \<in> set xs \<and> P x"
  by (auto simp: find_Some_iff)

text \<open>The repository is ready exactly when every list is loaded and the hub, the server and the
  settings of the instance are found.\<close>

theorem prepare_ready_iff:
  "fst (prepare conf loaded hub_found server_found settings_found junk) \<longleftrightarrow>
     {''HubList'', ''ServerList'', ''InstanceSettingsList''} \<union> set (prepare_lists @ prepare_lists2) \<subseteq> {n. loaded n} \<and>
     (hub_found \<or> cf_hub_id conf \<le> 0) \<and> server_found \<and> settings_found"
  by (auto simp: prepare_def find_None_iff split: option.splits dest!: find_Some_D)

section \<open>Collecting trunks\<close>

text \<open>A call is in at most one of the two phases of a collecting trunk; in the first it leaves for a
  region outside this hub, in the second it has a trunk to go to.\<close>

theorem mega_trunk_phases:
  assumes "\<not> mt_isPhase1 s" and "\<not> mt_isPhase2 s"
  shows "\<not> (mt_isPhase1 (PhaseCalc r s) \<and> mt_isPhase2 (PhaseCalc r s)) \<and>
    (mt_isPhase1 (PhaseCalc r s) \<longrightarrow> mt_destRegion (PhaseCalc r s) \<notin> mt_simblingRegions s) \<and>
    (mt_isPhase2 (PhaseCalc r s) \<longrightarrow> mt_destTrunk (PhaseCalc r s) \<noteq> None)"
  using PhaseCalc_phases [OF assms] by blast

theorem mega_trunk_phases_witness:
  "\<not> (mt_isPhase1 (PhaseCalc empty_repo (StateMegaTrunk_new (rp_conf empty_repo))) \<and>
      mt_isPhase2 (PhaseCalc empty_repo (StateMegaTrunk_new (rp_conf empty_repo))))"
  using mega_trunk_phases [of "StateMegaTrunk_new (rp_conf empty_repo)" empty_repo]
  by (simp add: StateMegaTrunk_new_def)

end
