(* ===== verification/Billing_Steps.thy ===== *)
theory Billing_Steps
  imports Mega_Trunk
begin

text \<open>
  The statements of \<^verbatim>\<open>src/src-bill/classes/BillingCall.cpp\<close>, which price one leg of a call: the trunk,
  the numbers, the geography, the account, the tariff or pricelist, the billed time, the free and
  prepaid seconds and the cost. \<open>BillingState\<close> is what \<open>BillingCall\<close> reaches: its own members, the
  repository, and the counters of the data container. A statement maps a state to an \<open>outcome\<close>:
  \<open>Stop\<close> is a \<open>CalcException\<close>, which leaves behind what was written before it, and \<open>Fault\<close> a null
  dereference, a buffer overrun or an exception that \<open>calc\<close> does not catch.
\<close>

section \<open>State\<close>

record BillingState =
  bs_repo :: Repo
  bs_call :: Call
  bs_info :: CallInfo
  bs_cdr :: Cdr
  bs_origRegion :: int
  bs_mega :: "StateMegaTrunk option"
  bs_freemin :: StatsFreeminManager
  bs_package :: StatsPackageManager
  bs_trunkSettings :: StatsTrunkSettingsManager
  bs_minute :: StatsNNPPackageMinuteManager
  bs_currentMinute :: "StatsNNPPackageMinuteManager option"
  bs_globalMinute :: "GlobalNNPPackageMinuteCounters list option"

type_synonym step = "BillingState \<Rightarrow> BillingState outcome"

definition upd_call :: "(Call \<Rightarrow> Call) \<Rightarrow> BillingState \<Rightarrow> BillingState" where
  "upd_call f s = s\<lparr> bs_call := f (bs_call s) \<rparr>"

definition upd_info :: "(CallInfo \<Rightarrow> CallInfo) \<Rightarrow> BillingState \<Rightarrow> BillingState" where
  "upd_info f s = s\<lparr> bs_info := f (bs_info s) \<rparr>"

text \<open>Following a pointer, and a value whose computation may fail.\<close>

definition deref :: "'a option \<Rightarrow> ('a \<Rightarrow> 's outcome) \<Rightarrow> 's outcome" where
  "deref p f = (case p of None \<Rightarrow> Fault | Some a \<Rightarrow> f a)"

definition with_exc :: "'a exc \<Rightarrow> ('a \<Rightarrow> 's outcome) \<Rightarrow> 's outcome" where
  "with_exc e f = (case e of Val a \<Rightarrow> f a | _ \<Rightarrow> Fault)"

lemma upd_simps [simp]:
  "bs_call (upd_call f s) = f (bs_call s)" "bs_info (upd_call f s) = bs_info s"
  "bs_repo (upd_call f s) = bs_repo s" "bs_cdr (upd_call f s) = bs_cdr s"
  "bs_mega (upd_call f s) = bs_mega s" "bs_origRegion (upd_call f s) = bs_origRegion s"
  "bs_freemin (upd_call f s) = bs_freemin s" "bs_package (upd_call f s) = bs_package s"
  "bs_trunkSettings (upd_call f s) = bs_trunkSettings s" "bs_minute (upd_call f s) = bs_minute s"
  "bs_currentMinute (upd_call f s) = bs_currentMinute s" "bs_globalMinute (upd_call f s) = bs_globalMinute s"
  "bs_call (upd_info g s) = bs_call s" "bs_info (upd_info g s) = g (bs_info s)"
  "bs_repo (upd_info g s) = bs_repo s" "bs_cdr (upd_info g s) = bs_cdr s"
  "bs_mega (upd_info g s) = bs_mega s" "bs_origRegion (upd_info g s) = bs_origRegion s"
  "bs_freemin (upd_info g s) = bs_freemin s" "bs_package (upd_info g s) = bs_package s"
  "bs_trunkSettings (upd_info g s) = bs_trunkSettings s" "bs_minute (upd_info g s) = bs_minute s"
  "bs_currentMinute (upd_info g s) = bs_currentMinute s" "bs_globalMinute (upd_info g s) = bs_globalMinute s"
  by (simp_all add: upd_call_def upd_info_def)

lemma deref_simps [simp]: "deref (Some a) f = f a" "deref None f = Fault"
  by (simp_all add: deref_def)

lemma with_exc_simps [simp]: "with_exc (Val a) f = f a" "with_exc (Exc e) f = Fault" "with_exc Undef f = Fault"
  by (simp_all add: with_exc_def)

section \<open>Numbers and routes of the leg\<close>

definition call_getNumber :: "Call \<Rightarrow> int" where
  "call_getNumber c = (if c_orig c then c_src_number c else c_dst_number c)"

definition getRemoteNumber :: "Call \<Rightarrow> int" where
  "getRemoteNumber c = (if c_orig c then c_dst_number c else c_src_number c)"

definition getRoute :: "Call \<Rightarrow> Cdr \<Rightarrow> string" where
  "getRoute c cdr = (if c_orig c then cdr_src_route cdr else cdr_dst_route cdr)"

definition getRemoteRoute :: "Call \<Rightarrow> Cdr \<Rightarrow> string" where
  "getRemoteRoute c cdr = (if c_orig c then cdr_dst_route cdr else cdr_src_route cdr)"

text \<open>\<open>isUsage7800\<close>: the characters of the printed number; a number of 20 characters overruns the
  buffer. The terminating NUL makes a shorter number differ from \<open>7800\<close>.\<close>

definition isUsage7800 :: "Call \<Rightarrow> bool exc" where
  "isUsage7800 c =
     (let t = lld (call_getNumber c) in
      if length t \<ge> 20 then Undef else Val (take 4 t = ''7800''))"

section \<open>Trunk\<close>

definition setupTrunk :: step where
  "setupTrunk s =
     (let r = bs_repo s;
          trunk = getTrunkByName r (getRoute (bs_call s) (bs_cdr s)) (bs_origRegion s);
          s1 = upd_call (c_server_id_update (\<lambda>_. cf_instance_id (rp_conf r)))
                 (upd_info (ci_trunk_update (\<lambda>_. trunk)) s)
      in case trunk of
           None \<Rightarrow> Stop ''TRUNK WAS NOT FOUND'' s1
         | Some t \<Rightarrow>
             (let server = getServer r (tr_server_id t);
                  s2 = upd_info (ci_server_update (\<lambda>_. server))
                         (upd_call (\<lambda>c. c\<lparr> c_trunk_id := tr_id t, c_our := tr_our_trunk t \<or> tr_auth_by_number t \<rparr>) s1)
              in case server of
                   None \<Rightarrow> Stop ''SERVER WAS NOT FOUND'' s2
                 | Some sv \<Rightarrow>
                     (let settings = getInstanceSettings r (tr_server_id t);
                          s3 = upd_info (ci_instanceSettings_update (\<lambda>_. settings))
                                 (upd_call (c_server_id_update (\<lambda>_. sv_id sv)) s2)
                      in case settings of
                           None \<Rightarrow> Stop ''INSTANCESETTINGS WAS NOT FOUND'' s3
                         | Some _ \<Rightarrow> Next s3)))"

definition processSignalingCallId :: step where
  "processSignalingCallId s =
     (case ci_trunk (bs_info s) of
        Some t \<Rightarrow>
          if tr_our_trunk t
          then Next (upd_call (c_signalling_call_id_update (\<lambda>_.
                 if c_orig (bs_call s) then cdr_in_sig_call_id (bs_cdr s) else cdr_out_sig_call_id (bs_cdr s))) s)
          else Next s
      | None \<Rightarrow> Next s)"

section \<open>Rewriting the numbers\<close>

text \<open>The new number after a rule put its prefix before the printed number, in a buffer of 20
  characters.\<close>

definition prefixed_number :: "string \<Rightarrow> int \<Rightarrow> int exc" where
  "prefixed_number pfx n = (if length (pfx @ lld n) \<ge> 20 then Undef else Val (atoll (pfx @ lld n)))"

text \<open>One turn of the loop of \<open>numberPreprocessing\<close>; the flags say that the A and the B number are
  done.\<close>

definition preprocess_src :: "Cdr \<Rightarrow> TrunkNumberPreprocessing \<Rightarrow> bool \<Rightarrow> Call \<Rightarrow> (bool \<times> Call) exc" where
  "preprocess_src cdr np finished c =
     (if \<not> finished \<and> tn_src np \<and> cdr_src_noa cdr = tn_noa np \<and> int (length (cdr_src_number cdr)) = tn_length np
      then bind_exc (prefixed_number (tn_prefix np) (c_src_number c)) (\<lambda>n. Val (True, c\<lparr> c_src_number := n \<rparr>))
      else Val (finished, c))"

definition preprocess_dst :: "Cdr \<Rightarrow> TrunkNumberPreprocessing \<Rightarrow> bool \<Rightarrow> Call \<Rightarrow> (bool \<times> Call) exc" where
  "preprocess_dst cdr np finished c =
     (if \<not> finished \<and> \<not> tn_src np \<and> cdr_dst_noa cdr = tn_noa np \<and> int (length (cdr_dst_number cdr)) = tn_length np
      then bind_exc (prefixed_number (tn_prefix np) (c_dst_number c)) (\<lambda>n. Val (True, c\<lparr> c_dst_number := n \<rparr>))
      else Val (finished, c))"

text \<open>The loop asks for the rules number 1, 2, ... until one is missing. It ends because no rule has
  a number above all the numbers of the table, sorted or not.\<close>

lemma equal_range_above:
  assumes "\<forall>x \<in> set xs. key x < k"
  shows "equal_range key k xs = []"
proof -
  have "partitioned (\<lambda>x. key x < k) xs"
    using assms unfolding partitioned_def sorted_wrt_iff_nth_less by auto
  moreover have "takeWhile (\<lambda>x. key x < k) xs = xs" using assms by (simp add: takeWhile_eq_all_conv)
  ultimately have "partition_point (\<lambda>x. key x < k) xs = length xs" by (metis partition_point_eq)
  then show ?thesis by (simp add: equal_range_def equal_range_by_def)
qed

lemma TrunkNumberPreprocessingList_find_bound:
  assumes "TrunkNumberPreprocessingList_find data trunk_id order = Some np"
  shows "\<exists>x \<in> set data. order \<le> tn_order x"
proof (rule ccontr)
  assume "\<not> ?thesis"
  then have "\<forall>x \<in> set (equal_range tn_trunk_id trunk_id data). tn_order x < order"
    using equal_range_subset by force
  then show False using assms by (simp add: TrunkNumberPreprocessingList_find_def equal_range_above)
qed

function preprocess_loop :: "TrunkNumberPreprocessing list \<Rightarrow> int \<Rightarrow> Cdr \<Rightarrow> int \<Rightarrow> bool \<Rightarrow> bool \<Rightarrow> Call \<Rightarrow> Call exc" where
  "preprocess_loop data trunk_id cdr order srcDone dstDone c =
     (case TrunkNumberPreprocessingList_find data trunk_id order of
        None \<Rightarrow> Val c
      | Some np \<Rightarrow>
          (case preprocess_src cdr np srcDone c of
             Val (srcDone', c') \<Rightarrow>
               (case preprocess_dst cdr np dstDone c' of
                  Val (dstDone', c'') \<Rightarrow> preprocess_loop data trunk_id cdr (order + 1) srcDone' dstDone' c''
                | _ \<Rightarrow> Undef)
           | _ \<Rightarrow> Undef))"
  by pat_completeness auto
termination
proof (relation "measure (\<lambda>(data, _, _, order, _). nat (Max (insert 0 (tn_order ` set data)) + 1 - order))", goal_cases)
  case (2 data trunk_id cdr order)
  obtain z where "z \<in> set data" "order \<le> tn_order z" using TrunkNumberPreprocessingList_find_bound [OF 2(1)] by auto
  moreover from this have "tn_order z \<le> Max (insert 0 (tn_order ` set data))" by (intro Max_ge) auto
  ultimately have "order \<le> Max (insert 0 (tn_order ` set data))" by (metis order_trans)
  then show ?case by simp
qed simp

declare preprocess_loop.simps [simp del]

definition numberPreprocessing :: step where
  "numberPreprocessing s =
     deref (ci_trunk (bs_info s)) (\<lambda>t.
       with_exc (preprocess_loop (rp_trunkNumberPreprocessing (bs_repo s)) (tr_id t) (bs_cdr s) 1 False False (bs_call s))
         (\<lambda>c. Next (s\<lparr> bs_call := c \<rparr>)))"

text \<open>\<open>processLineWithoutNumber\<close>: the number after the first of the marks that occurs, else the
  number itself.\<close>

definition line_number :: "string \<Rightarrow> int" where
  "line_number cdr_num =
     (case strstr cdr_num ''=2A'' of Some t \<Rightarrow> atoll (drop 3 t) | None \<Rightarrow>
     (case strstr cdr_num ''=2B'' of Some t \<Rightarrow> atoll (drop 3 t) | None \<Rightarrow>
     (case strstr cdr_num ''*'' of Some t \<Rightarrow> atoll (drop 1 t) | None \<Rightarrow>
     (case strstr cdr_num ''+'' of Some t \<Rightarrow> atoll (drop 1 t) | None \<Rightarrow> atoll cdr_num))))"

definition processLineWithoutNumber :: "string \<Rightarrow> Call \<Rightarrow> Call" where
  "processLineWithoutNumber cdr_num c = c\<lparr> c_src_number := line_number cdr_num \<rparr>"

definition processRedirectNumber :: step where
  "processRedirectNumber s =
     deref (ci_trunk (bs_info s)) (\<lambda>t.
       if tr_orig_redirect_number t then
         (if atoll (cdr_redirect_number (bs_cdr s)) > 0
          then Next (upd_call (processLineWithoutNumber (cdr_redirect_number (bs_cdr s))) s) else Next s)
       else if tr_orig_redirect_number_7800 t then
         (case getServiceNumberByTechnicalNumber (bs_repo s) (getRemoteNumber (bs_call s)) of
            Some sn \<Rightarrow> if atoll (sn_did sn) > 0
                       then Next (upd_call (c_dst_number_update (\<lambda>_. atoll (sn_did sn))) s) else Next s
          | None \<Rightarrow> Next s)
       else Next s)"

section \<open>Geography\<close>

definition processGeo :: step where
  "processGeo s =
     (let r = bs_repo s; n = getRemoteNumber (bs_call s);
          s1 = (case getMobPrefix r n of
                  Some m \<Rightarrow> upd_call (c_geo_mob_update (\<lambda>_. mp_mob m)) s | None \<Rightarrow> s)
      in Next (case getGeoPrefix r n of
                 Some g \<Rightarrow> upd_call (\<lambda>c. c\<lparr> c_geo_id := gp_geo_id g, c_geo_operator_id := gp_geo_operator_id g \<rparr>) s1
               | None \<Rightarrow> s1))"

text \<open>\<open>getDest\<close>: -1 local, 0 within the zone, 1 within the country, 2 international.\<close>

definition dest_of :: "Geo \<Rightarrow> InstanceSettings \<Rightarrow> bool \<Rightarrow> int exc" where
  "dest_of geo settings mob =
     (if \<not> mob \<and> is_city_id settings > 0 \<and> geo_city_id geo = is_city_id settings then Val (- 1)
      else bind_exc (getRegionIds settings) (\<lambda>regionIds.
        if geo_region_id geo \<in> set regionIds then Val 0
        else if is_country_id settings > 0 \<and> geo_country_id geo = is_country_id settings then Val 1
        else Val 2))"

definition getDest :: "int \<Rightarrow> BillingState \<Rightarrow> (int \<times> BillingState) exc" where
  "getDest geoId s =
     (let geo = getGeo (bs_repo s) geoId; s1 = upd_info (ci_geo_update (\<lambda>_. geo)) s
      in case geo of
           None \<Rightarrow> Val (2, s1)
         | Some g \<Rightarrow>
             (case ci_instanceSettings (bs_info s1) of
                None \<Rightarrow> Undef
              | Some settings \<Rightarrow> bind_exc (dest_of g settings (c_mob (bs_call s1))) (\<lambda>d. Val (d, s1))))"

definition processDestinations :: step where
  "processDestinations s =
     (let r = bs_repo s; n = c_dst_number (bs_call s);
          s1 = (case getMobPrefix r n of
                  Some m \<Rightarrow> upd_call (c_mob_update (\<lambda>_. mp_mob m)) s | None \<Rightarrow> s)
      in case getGeoPrefix r n of
           Some g \<Rightarrow> with_exc (getDest (gp_geo_id g) s1)
                       (\<lambda>(d, s2). Next (upd_call (c_destination_id_update (\<lambda>_. d)) s2))
         | None \<Rightarrow> Next s1)"

section \<open>Offers of the trunk\<close>

text \<open>The first offer of the ordered list becomes the price of the leg.\<close>

definition apply_order :: "ServiceTrunkOrder \<Rightarrow> BillingState \<Rightarrow> BillingState" where
  "apply_order ord s =
     upd_info (\<lambda>ci. ci\<lparr> ci_account := o_account ord, ci_serviceTrunk := o_serviceTrunk ord,
       ci_trunkSettings := o_trunkSettings ord, ci_pricelist := o_pricelist ord, ci_price := o_price ord \<rparr>) s"

definition apply_nnp_order :: "ServiceTrunkOrder \<Rightarrow> BillingState \<Rightarrow> BillingState" where
  "apply_nnp_order ord s =
     (case ci_account (bs_info s) of
        Some account \<Rightarrow>
          if cl_account_version account = 5 then
            upd_call (\<lambda>c. c\<lparr>
              c_nnp_package_price_id :=
                (case o_nnpPackagePrice ord of Some p \<Rightarrow> ni_id p | None \<Rightarrow> c_nnp_package_price_id c),
              c_nnp_package_pricelist_id :=
                (case o_nnpPackagePricelist ord of Some p \<Rightarrow> nl_id p | None \<Rightarrow> c_nnp_package_pricelist_id c),
              c_nnp_package_id := (case o_nnpPackage ord of Some p \<Rightarrow> nk_id p | None \<Rightarrow> c_nnp_package_id c),
              c_rate := o_nnp_price ord \<rparr>)
            (upd_info (\<lambda>ci. ci\<lparr> ci_nnpPackage := o_nnpPackage ord,
              ci_nnpPackagePricelist := o_nnpPackagePricelist ord, ci_nnpPackagePrice := o_nnpPackagePrice ord \<rparr>) s)
          else s
      | None \<Rightarrow> s)"

definition setupEffectiveOrigTrunkSettings :: step where
  "setupEffectiveOrigTrunkSettings s =
     deref (ci_trunk (bs_info s)) (\<lambda>trunk.
       with_exc (getTrunkSettingsOrderList (bs_repo s) trunk (c_src_number (bs_call s)) (c_dst_number (bs_call s)) 1)
         (\<lambda>orders. case orderOrigTrunkSettingsOrderList (bs_repo s) orders of
            [] \<Rightarrow> Next s
          | ord # _ \<Rightarrow> Next (apply_nnp_order ord (apply_order ord s))))"

definition setupEffectiveTermTrunkSettings :: step where
  "setupEffectiveTermTrunkSettings s =
     deref (ci_trunk (bs_info s)) (\<lambda>trunk.
       with_exc (getTrunkSettingsOrderList (bs_repo s) trunk (c_src_number (bs_call s)) (c_dst_number (bs_call s)) 2)
         (\<lambda>orders. case getTrunkByName (bs_repo s) (cdr_src_route (bs_cdr s)) (bs_origRegion s) of
            None \<Rightarrow> Stop ''ORIG TRUNK WAS NOT FOUND'' s
          | Some orig_trunk \<Rightarrow>
              with_exc (orderTermTrunkSettingsOrderList (bs_repo s) orders (tr_sw_minimalki orig_trunk)
                          (c_connect_time (bs_call s)) (bs_trunkSettings s))
                (\<lambda>(orders', m). let s1 = s\<lparr> bs_trunkSettings := m \<rparr> in
                   case orders' of
                     [] \<Rightarrow> Next s1
                   | ord # _ \<Rightarrow>
                       deref (o_statsTrunkSettings ord) (\<lambda>st.
                         Next (apply_nnp_order ord (upd_call (c_trunk_settings_stats_id_update (\<lambda>_. ts_id st))
                           (apply_order ord s1)))))))"

section \<open>Services, account, pricelist\<close>

definition setupServiceTrunk :: step where
  "setupServiceTrunk s =
     (case ci_serviceTrunk (bs_info s) of
        None \<Rightarrow> Stop ''SERVICE TRUNK WAS NOT FOUND'' s
      | Some st \<Rightarrow> Next (upd_call (c_trunk_service_id_update (\<lambda>_. st_id st)) s))"

definition setupServiceNumber :: step where
  "setupServiceNumber s =
     (let sn = getServiceNumber (bs_repo s) (call_getNumber (bs_call s));
          s1 = upd_info (ci_serviceNumber_update (\<lambda>_. sn)) s
      in case sn of
           None \<Rightarrow> Stop ''SERVICE NUMBER WAS NOT FOUND'' s1
         | Some n \<Rightarrow> Next (upd_call (c_number_service_id_update (\<lambda>_. sn_id n)) s1))"

definition setupServiceTrunkForNumber :: step where
  "setupServiceTrunkForNumber s =
     deref (ci_trunk (bs_info s)) (\<lambda>t.
       let st = getServiceTrunk (bs_repo s) (tr_id t); s1 = upd_info (ci_serviceTrunk_update (\<lambda>_. st)) s
       in case st of
            None \<Rightarrow> if \<not> tr_our_trunk t then Stop ''SERVICE TRUNK WAS NOT FOUND'' s1 else Next s1
          | Some x \<Rightarrow>
              if tr_our_trunk t then Next (upd_call (c_trunk_service_id_update (\<lambda>_. st_id x)) s1)
              else deref (ci_serviceNumber (bs_info s1)) (\<lambda>sn.
                if sn_client_account_id sn \<noteq> st_client_account_id x
                then Stop ''SERVICE NUMBER ACCOUNT DIFFERENT FROM SERVICE TRUNK_ACCOUNT'' s1
                else Next (upd_call (c_trunk_service_id_update (\<lambda>_. st_id x)) s1)))"

definition setupAccount :: step where
  "setupAccount s =
     (let s1 = (case ci_serviceNumber (bs_info s) of
            Some sn \<Rightarrow> upd_info (ci_account_update (\<lambda>_. getAccount (bs_repo s) (sn_client_account_id sn))) s
          | None \<Rightarrow>
              (case ci_serviceTrunk (bs_info s) of
                 Some st \<Rightarrow> upd_info (ci_account_update (\<lambda>_. getAccount (bs_repo s) (st_client_account_id st))) s
               | None \<Rightarrow> s))
      in case ci_account (bs_info s1) of
           None \<Rightarrow> Stop ''ACCOUNT WAS NOT FOUND'' s1
         | Some account \<Rightarrow>
             Next (upd_call (\<lambda>c. c\<lparr> c_account_id := cl_id account, c_account_version := cl_account_version account \<rparr>)
               (upd_info (make_dt (bs_call s1) account) s1)))"

text \<open>The argument 0 stands for the missing one.\<close>

definition setupPricelist :: "int \<Rightarrow> step" where
  "setupPricelist pricelist_id s =
     (let s1 = (if pricelist_id \<noteq> 0
                then upd_info (ci_pricelist_update (\<lambda>_. getPricelist (bs_repo s) pricelist_id)) s else s)
      in case ci_pricelist (bs_info s1) of
           None \<Rightarrow> Stop ''PRICELIST NOT FOUND'' s1
         | Some pl \<Rightarrow> Next (upd_call (c_pricelist_id_update (\<lambda>_. pl_id pl)) s1))"

definition set_price :: step where
  "set_price s =
     (case ci_price (bs_info s) of
        None \<Rightarrow> Stop ''PRICE NOT FOUND'' s
      | Some p \<Rightarrow> Next (upd_call (\<lambda>c. c\<lparr> c_prefix := atoll (pp_prefix p), c_rate := pp_price p \<rparr>) s))"

definition setupPrice :: "int \<Rightarrow> step" where
  "setupPrice numberPrefix s =
     (if numberPrefix \<noteq> 0 then
        deref (ci_pricelist (bs_info s)) (\<lambda>pl.
          set_price (upd_info (ci_price_update (\<lambda>_. repo_getPrice (bs_repo s) (pl_id pl) numberPrefix)) s))
      else set_price s)"

section \<open>Billed time and cost\<close>

text \<open>The lengths are of type \<open>int\<close> in the code. Nothing overflows for a call of at most \<open>2 ^ 31 - 61\<close> seconds, some 68
  years, which is what the model covers; the code adds \<open>60 - s\<close> without looking.\<close>

definition getCallLength :: "AppConf \<Rightarrow> int \<Rightarrow> bool \<Rightarrow> bool \<Rightarrow> bool \<Rightarrow> int" where
  "getCallLength conf len byMinutes fullFirstMinute freeFirstMinutes =
     (if freeFirstMinutes \<and> len \<le> cf_billing_free_seconds conf then 0
      else if len \<le> 0 then 0
      else if byMinutes then (let m = len mod 60 in if m = 0 then len else len + 60 - m)
      else if fullFirstMinute \<and> len < 60 then 60
      else len)"

definition setupBilledTime :: step where
  "setupBilledTime s =
     (let conf = rp_conf (bs_repo s); len = cdr_session_time (bs_cdr s) in
      case ci_serviceNumber (bs_info s) of
        Some _ \<Rightarrow> deref (ci_mainTariff (bs_info s)) (\<lambda>ta.
          Next (upd_call (c_billed_time_update (\<lambda>_. getCallLength conf len (ta_tariffication_by_minutes ta)
            (ta_tariffication_full_first_minute ta) (ta_tariffication_free_first_seconds ta))) s))
      | None \<Rightarrow> deref (ci_pricelist (bs_info s)) (\<lambda>pl.
          Next (upd_call (c_billed_time_update (\<lambda>_. getCallLength conf len (pl_tariffication_by_minutes pl)
            (pl_tariffication_full_first_minute pl) False)) s)))"

definition call_cost :: "Call \<Rightarrow> Call" where
  "call_cost c =
     (let paid_time = c_billed_time c - c_package_time c;
          cost = (if paid_time > 0 then
                    (let x = real_of_int paid_time * c_rate c / 60 in if c_orig c then - x else x)
                  else 0);
          credit = (if c_billed_time c > 0 then
                      (let x = real_of_int (c_package_time c) * c_rate c / 60 in if c_orig c then - x else x)
                    else 0)
      in c\<lparr> c_cost := cost, c_package_credit := credit \<rparr>)"

definition setupCost :: step where
  "setupCost s = Next (upd_call call_cost s)"

definition setupInterconnect :: step where
  "setupInterconnect s =
     (if c_orig (bs_call s) then Next s
      else deref (ci_pricelist (bs_info s)) (\<lambda>pl.
        let interconnect = (\<lambda>rate. upd_call (\<lambda>c. c\<lparr> c_interconnect_rate := rate,
              c_interconnect_cost := real_of_int (c_billed_time c) * rate / 60 \<rparr>));
            s1 = (if pl_initiate_zona_cost pl > 0.00001 \<and> c_destination_id (bs_call s) = 0
                  then interconnect (pl_initiate_zona_cost pl) s else s)
        in Next (if pl_initiate_mgmn_cost pl > 0.00001 \<and> c_destination_id (bs_call s1) > 0
                 then interconnect (pl_initiate_mgmn_cost pl) s1 else s1)))"

section \<open>Tariffs\<close>

definition setupLogTariff :: step where
  "setupLogTariff s =
     deref (ci_serviceNumber (bs_info s)) (\<lambda>sn.
       let l = getTariffLog (bs_repo s) (sn_id sn); s1 = upd_info (ci_logTariff_update (\<lambda>_. l)) s
       in if l = None then Stop ''TARIFF CHANGE LOG NOT FOUND'' s1 else Next s1)"

definition setupMainTariff :: step where
  "setupMainTariff s =
     deref (ci_logTariff (bs_info s)) (\<lambda>l.
       let t = getTariff (bs_repo s) (tc_tariff_id_local l); s1 = upd_info (ci_mainTariff_update (\<lambda>_. t)) s
       in if t = None then Stop ''TARIFF NOT FOUND'' s1 else Next s1)"

definition tariff_for :: "Call \<Rightarrow> TariffChangeLog \<Rightarrow> int" where
  "tariff_for c l =
     (if isLocal c then tc_tariff_id_local l
      else if isZonaMob c then tc_tariff_id_local_mob l
      else if isZonaStd c then tc_tariff_id_russia l
      else if isRussianStd c then tc_tariff_id_russia l
      else if isRussianMob c then tc_tariff_id_russia_mob l
      else if isInternational c then tc_tariff_id_intern l
      else 0)"

definition setupTariff :: step where
  "setupTariff s =
     deref (ci_logTariff (bs_info s)) (\<lambda>l.
       let t = getTariff (bs_repo s) (tariff_for (bs_call s) l); s1 = upd_info (ci_tariff_update (\<lambda>_. t)) s
       in if t = None then Stop ''TARIFF NOT FOUND'' s1 else Next s1)"

section \<open>Packages\<close>

text \<open>The printed B number, cut from the right, as numbers.\<close>

definition number_prefixes :: "string \<Rightarrow> int list" where
  "number_prefixes t = map (\<lambda>len. atoll (take len t)) (rev [1..<Suc (length t)])"

text \<open>A list of type \<open>MANUAL\<close> matches by prefix, one of type \<open>ROSLINK\<close> by geography and operator;
  other lists do not match.\<close>

definition match_manual :: "StatPrefixlist \<Rightarrow> Call \<Rightarrow> bool exc" where
  "match_manual pl c =
     any_exc (\<lambda>pfx. if length (lld (c_dst_number c)) \<ge> 20 then Undef
                    else Val (pfx \<in> set (number_prefixes (lld (c_dst_number c))))) (sl_prefixes pl)"

definition match_roslink :: "StatPrefixlist \<Rightarrow> Call \<Rightarrow> Geo option \<Rightarrow> bool" where
  "match_roslink pl c geo \<longleftrightarrow>
     \<not> (sl_sub_type pl = 1 \<and> c_mob c) \<and>
     \<not> (sl_sub_type pl = 2 \<and> \<not> c_mob c) \<and>
     \<not> (sl_country_id pl > 0 \<and> (case geo of Some g \<Rightarrow> geo_country_id g \<noteq> sl_country_id pl | None \<Rightarrow> False)) \<and>
     \<not> (sl_region_id pl > 0 \<and> (case geo of Some g \<Rightarrow> geo_region_id g \<noteq> sl_region_id pl | None \<Rightarrow> False)) \<and>
     \<not> (sl_city_id pl > 0 \<and> (case geo of Some g \<Rightarrow> geo_city_id g \<noteq> sl_city_id pl | None \<Rightarrow> False)) \<and>
     \<not> (sl_exclude_operators pl \<and> sl_operators pl \<noteq> [] \<and> c_geo_operator_id c \<in> set (sl_operators pl)) \<and>
     \<not> (\<not> sl_exclude_operators pl \<and> sl_operators pl \<noteq> [] \<and> c_geo_operator_id c \<notin> set (sl_operators pl))"

definition matchTariffPackageDestination :: "Repo \<Rightarrow> Call \<Rightarrow> Geo option \<Rightarrow> TariffPackage \<Rightarrow> bool exc" where
  "matchTariffPackageDestination r c geo tp =
     any_exc (\<lambda>i. case getStatPrefixlist r i of
                None \<Rightarrow> Val False
              | Some pl \<Rightarrow> if sl_type_id pl = 1 then match_manual pl c
                          else if sl_type_id pl = 3 then Val (match_roslink pl c geo)
                          else Val False)
       (getAllStatPrefixlistIdsByStatDestinationId r (tp_destination_id tp))"

text \<open>The packages of the number, else of the trunk; \<open>None\<close> when the leg has neither.\<close>

definition leg_packages :: "BillingState \<Rightarrow> ServicePackage list option" where
  "leg_packages s =
     (case ci_serviceNumber (bs_info s) of
        Some sn \<Rightarrow> Some (getAllServiceNumberPackage (bs_repo s) (sn_id sn))
      | None \<Rightarrow> map_option (\<lambda>st. getAllServiceTrunkPackage (bs_repo s) (st_id st)) (ci_serviceTrunk (bs_info s)))"

text \<open>The loop of \<open>setupPackagePricelist\<close> has no \<open>break\<close>: the last package that fits stays.\<close>

definition package_offer :: "BillingState \<Rightarrow> ServicePackage \<Rightarrow> (Pricelist \<times> PricelistPrice) option exc" where
  "package_offer s pkg =
     (let r = bs_repo s in
      case getTariffPackage r (sp_tariff_package_id pkg) of
        None \<Rightarrow> Val None
      | Some tp \<Rightarrow>
          if tp_pricelist_id tp = 0 then Val None
          else bind_exc (matchTariffPackageDestination r (bs_call s) (ci_geo (bs_info s)) tp) (\<lambda>ok.
            if \<not> ok then Val None
            else (case getPricelist r (tp_pricelist_id tp) of
                    None \<Rightarrow> Val None
                  | Some pl \<Rightarrow> Val (map_option (Pair pl) (repo_getPrice r (pl_id pl) (c_dst_number (bs_call s)))))))"

fun package_pricelist_loop :: "ServicePackage list \<Rightarrow> step" where
  "package_pricelist_loop [] s = Next s"
| "package_pricelist_loop (pkg # pkgs) s =
     with_exc (package_offer s pkg) (\<lambda>x. case x of
        None \<Rightarrow> package_pricelist_loop pkgs s
      | Some (pl, p) \<Rightarrow>
          package_pricelist_loop pkgs
            (upd_call (c_service_package_id_update (\<lambda>_. sp_id pkg))
              (upd_info (\<lambda>ci. ci\<lparr> ci_pricelist := Some pl, ci_price := Some p,
                 ci_servicePackagePricelist := Some pkg \<rparr>) s)))"

definition setupPackagePricelist :: step where
  "setupPackagePricelist s =
     (case leg_packages s of None \<Rightarrow> Next s | Some pkgs \<Rightarrow> package_pricelist_loop pkgs s)"

text \<open>Free seconds of the local tariff.\<close>

definition tariff_free_seconds :: "Tariff \<Rightarrow> ServiceNumber \<Rightarrow> int" where
  "tariff_free_seconds ta sn = 60 * ta_freemin ta * (if ta_freemin_for_number ta then 1 else sn_lines_count sn)"

definition clamp_to :: "int \<Rightarrow> int \<Rightarrow> int" where
  "clamp_to available billed =
     (let a = (if available < 0 then 0 else available) in if a > billed then billed else a)"

definition setupFreemin :: step where
  "setupFreemin s =
     (let c = bs_call s in
      if c_billed_time c = 0 then Next s
      else if \<not> isLocal c then Next s
      else deref (ci_mainTariff (bs_info s)) (\<lambda>ta. deref (ci_serviceNumber (bs_info s)) (\<lambda>sn.
        let tariffFreeSeconds = tariff_free_seconds ta sn in
        if tariffFreeSeconds \<le> 0 then Next s
        else deref (ci_dt (bs_info s)) (\<lambda>dt.
          deref (StatsFreemin_getCurrent c dt (bs_freemin s)) (\<lambda>(st, m).
            let s1 = s\<lparr> bs_freemin := m \<rparr>;
                available = clamp_to (tariffFreeSeconds - sf_used_seconds st) (c_billed_time c)
            in Next (if available > 0
                     then upd_call (\<lambda>c. c\<lparr> c_service_package_id := 1, c_service_package_stats_id := sf_id st,
                            c_package_time := available \<rparr>) s1
                     else s1))))))"

text \<open>The loop of \<open>setupPackagePrepaid\<close>: the first package with enough seconds left, else the one
  with the most. The counters of every package it looks at are created on the way.\<close>

type_synonym prepaid_choice = "(ServicePackage \<times> TariffPackage \<times> StatsPackage) option"

fun prepaid_loop :: "Repo \<Rightarrow> Call \<Rightarrow> CallInfo \<Rightarrow> ServicePackage list \<Rightarrow> int \<Rightarrow> prepaid_choice \<Rightarrow>
    StatsPackageManager \<Rightarrow> (int \<times> prepaid_choice \<times> StatsPackageManager) exc" where
  "prepaid_loop r c ci [] secs best m = Val (secs, best, m)"
| "prepaid_loop r c ci (pkg # pkgs) secs best m =
     (case getTariffPackage r (sp_tariff_package_id pkg) of
        None \<Rightarrow> prepaid_loop r c ci pkgs secs best m
      | Some tp \<Rightarrow>
          if tp_prepaid_minutes tp = 0 then prepaid_loop r c ci pkgs secs best m
          else bind_exc (matchTariffPackageDestination r c (ci_geo ci) tp) (\<lambda>ok.
            if \<not> ok then prepaid_loop r c ci pkgs secs best m
            else (case ci_account ci of
                    None \<Rightarrow> Undef
                  | Some account \<Rightarrow>
                      (case StatsPackage_getCurrent c account pkg tp m of
                         None \<Rightarrow> Exc ''out_of_range''
                       | Some (st, m') \<Rightarrow>
                           (let available0 = sk_paid_seconds st - sk_used_seconds st;
                                available = (if available0 < 0 then 0 else available0)
                            in if available \<ge> c_billed_time c then Val (c_billed_time c, Some (pkg, tp, st), m')
                               else if available > secs
                               then prepaid_loop r c ci pkgs available (Some (pkg, tp, st)) m'
                               else prepaid_loop r c ci pkgs secs best m')))))"

definition setupPackagePrepaid :: step where
  "setupPackagePrepaid s =
     (if c_billed_time (bs_call s) = 0 \<or> c_service_package_id (bs_call s) > 0 then Next s
      else (case leg_packages s of
              None \<Rightarrow> Next s
            | Some pkgs \<Rightarrow>
                with_exc (prepaid_loop (bs_repo s) (bs_call s) (bs_info s) pkgs 0 None (bs_package s))
                  (\<lambda>(secs, best, m). let s1 = s\<lparr> bs_package := m \<rparr> in
                     case best of
                       None \<Rightarrow> Next s1
                     | Some (pkg, tp, st) \<Rightarrow>
                         Next (upd_info (\<lambda>ci. ci\<lparr> ci_servicePackagePrepaid := Some pkg,
                                  ci_tariffPackagePrepaid := Some tp \<rparr>)
                           (upd_call (\<lambda>c. c\<lparr> c_package_time := secs, c_service_package_id := sp_id pkg,
                              c_service_package_stats_id := sk_id st \<rparr>) s1)))))"

section \<open>What every statement keeps\<close>

text \<open>The identity of a leg: what its constructor and the billing loop set. No statement of the pricing
  changes it. The counters of the data container stay well formed. \<open>K\<close> is a predicate on the package
  seconds and the billed seconds, kept by the statements that assign neither.\<close>

definition same_leg :: "Call \<Rightarrow> Call \<Rightarrow> bool" where
  "same_leg c c' \<longleftrightarrow> c_id c' = c_id c \<and> c_peer_id c' = c_peer_id c \<and> c_cdr_id c' = c_cdr_id c \<and>
     c_connect_time c' = c_connect_time c \<and> c_orig c' = c_orig c \<and> c_cdr_call_id c' = c_cdr_call_id c \<and>
     c_disconnect_cause c' = c_disconnect_cause c \<and> c_hash c' = c_hash c \<and> c_pdd c' = c_pdd c"

definition counters_ok :: "BillingState \<Rightarrow> bool" where
  "counters_ok s \<longleftrightarrow> freemin.wf (bs_freemin s) \<and> package.wf (bs_package s) \<and>
     trunk_settings.wf (bs_trunkSettings s) \<and> package_minute.wf (bs_minute s) \<and>
     (case bs_currentMinute s of None \<Rightarrow> True | Some m \<Rightarrow> package_minute.wf m)"

definition leg_inv :: "(int \<Rightarrow> int \<Rightarrow> bool) \<Rightarrow> BillingState \<Rightarrow> BillingState \<Rightarrow> bool" where
  "leg_inv K s0 s \<longleftrightarrow> counters_ok s \<and> same_leg (bs_call s0) (bs_call s) \<and> bs_cdr s = bs_cdr s0 \<and>
     K (c_package_time (bs_call s)) (c_billed_time (bs_call s))"

lemma counters_ok_upd [simp]:
  "counters_ok (upd_call f s) = counters_ok s" "counters_ok (upd_info g s) = counters_ok s"
  "counters_ok (s\<lparr> bs_repo := r \<rparr>) = counters_ok s" "counters_ok (s\<lparr> bs_mega := mt \<rparr>) = counters_ok s"
  "counters_ok (s\<lparr> bs_call := c \<rparr>) = counters_ok s"
  by (simp_all add: counters_ok_def)

lemma leg_inv_refl:
  "counters_ok s \<Longrightarrow> K (c_package_time (bs_call s)) (c_billed_time (bs_call s)) \<Longrightarrow> leg_inv K s s"
  by (simp add: leg_inv_def same_leg_def)

lemma leg_inv_upd [simp]:
  "leg_inv K s0 (upd_info g s) = leg_inv K s0 s"
  "leg_inv K s0 (s\<lparr> bs_repo := r \<rparr>) = leg_inv K s0 s" "leg_inv K s0 (s\<lparr> bs_mega := mt \<rparr>) = leg_inv K s0 s"
  by (simp_all add: leg_inv_def)

lemma leg_inv_new_times:
  assumes "leg_inv K s0 s" and "same_leg (bs_call s) (f (bs_call s))"
    and "L (c_package_time (f (bs_call s))) (c_billed_time (f (bs_call s)))"
  shows "leg_inv L s0 (upd_call f s)"
  using assms by (auto simp: leg_inv_def same_leg_def)

lemma leg_inv_times: "leg_inv K s0 s \<Longrightarrow> K (c_package_time (bs_call s)) (c_billed_time (bs_call s))"
  by (simp add: leg_inv_def)

lemma leg_inv_upd_call:
  assumes "leg_inv K s0 s" and "same_leg (bs_call s) (f (bs_call s))"
    and "c_package_time (f (bs_call s)) = c_package_time (bs_call s)"
    and "c_billed_time (f (bs_call s)) = c_billed_time (bs_call s)"
  shows "leg_inv K s0 (upd_call f s)"
  using assms by (auto simp: leg_inv_def same_leg_def)

lemma keeps_deref:
  assumes "\<And>a. p = Some a \<Longrightarrow> keeps P (f a)"
  shows "keeps P (deref p f)"
  using assms by (cases p) auto

lemma keeps_with_exc:
  assumes "\<And>a. e = Val a \<Longrightarrow> keeps P (f a)"
  shows "keeps P (with_exc e f)"
  using assms by (cases e) auto

text \<open>A sequence in two phases.\<close>

lemma keeps_phases:
  assumes "P s" and "\<And>f s. f \<in> set fs \<Longrightarrow> P s \<Longrightarrow> keeps P (f s)" and "\<And>s. P s \<Longrightarrow> Q s"
    and "\<And>g s. g \<in> set gs \<Longrightarrow> Q s \<Longrightarrow> keeps Q (g s)"
  shows "keeps Q (run_steps (fs @ gs) s)"
proof -
  have *: "keeps P (run_steps fs s)" using assms(1,2) by (rule keeps_run_steps)
  show ?thesis
  proof (cases "run_steps fs s")
    case (Next s')
    with * show ?thesis using keeps_run_steps [of Q s' gs] assms(3,4) by (simp add: run_steps_append)
  qed (use * assms(3) in \<open>auto simp: run_steps_append\<close>)
qed

named_theorems leg_keeps \<open>statements that keep the invariant of a leg\<close>

lemmas keeps_intros = keeps_deref keeps_with_exc leg_inv_upd_call

lemma keeps_setupTrunk [leg_keeps]: "leg_inv K s0 s \<Longrightarrow> keeps (leg_inv K s0) (setupTrunk s)"
  by (auto simp: setupTrunk_def Let_def same_leg_def intro!: leg_inv_upd_call split: option.splits)

lemma keeps_processSignalingCallId [leg_keeps]:
  "leg_inv K s0 s \<Longrightarrow> keeps (leg_inv K s0) (processSignalingCallId s)"
  by (auto simp: processSignalingCallId_def same_leg_def intro!: leg_inv_upd_call split: option.splits)

lemma preprocess_loop_numbers:
  assumes "preprocess_loop data trunk_id cdr order srcDone dstDone c = Val c'"
  shows "c' = c\<lparr> c_src_number := c_src_number c', c_dst_number := c_dst_number c' \<rparr>"
  using assms
proof (induction data trunk_id cdr order srcDone dstDone c rule: preprocess_loop.induct)
  case (1 data trunk_id cdr order srcDone dstDone c)
  show ?case
  proof (cases "TrunkNumberPreprocessingList_find data trunk_id order")
    case None
    with "1.prems" show ?thesis by (simp add: preprocess_loop.simps)
  next
    case (Some np)
    then obtain d1 c1 d2 c2 where st: "preprocess_src cdr np srcDone c = Val (d1, c1)"
      "preprocess_dst cdr np dstDone c1 = Val (d2, c2)"
      "preprocess_loop data trunk_id cdr (order + 1) d1 d2 c2 = Val c'"
      using "1.prems" by (subst (asm) preprocess_loop.simps) (auto split: exc.splits prod.splits)
    have "c' = c2\<lparr> c_src_number := c_src_number c', c_dst_number := c_dst_number c' \<rparr>"
      using "1.IH" [OF Some st(1) refl st(2) refl st(3)] .
    moreover have "\<And>a b. c2\<lparr> c_src_number := a, c_dst_number := b \<rparr> = c\<lparr> c_src_number := a, c_dst_number := b \<rparr>"
      using st(1,2) by (auto simp: preprocess_src_def preprocess_dst_def split: if_splits)
    ultimately show ?thesis by metis
  qed
qed

lemma keeps_numberPreprocessing [leg_keeps]:
  "leg_inv K s0 s \<Longrightarrow> keeps (leg_inv K s0) (numberPreprocessing s)"
  unfolding numberPreprocessing_def
  by (intro keeps_deref keeps_with_exc, drule preprocess_loop_numbers, erule ssubst) (simp add: leg_inv_def same_leg_def)

lemma keeps_processRedirectNumber [leg_keeps]:
  "leg_inv K s0 s \<Longrightarrow> keeps (leg_inv K s0) (processRedirectNumber s)"
  by (auto simp: processRedirectNumber_def processLineWithoutNumber_def same_leg_def intro!: keeps_intros split: option.splits)

lemma keeps_processGeo [leg_keeps]: "leg_inv K s0 s \<Longrightarrow> keeps (leg_inv K s0) (processGeo s)"
  by (auto simp: processGeo_def Let_def same_leg_def intro!: leg_inv_upd_call split: option.splits)

lemma getDest_state: "getDest g s = Val (d, s') \<Longrightarrow> s' = upd_info (ci_geo_update (\<lambda>_. getGeo (bs_repo s) g)) s"
  by (auto simp: getDest_def Let_def split: option.splits)

lemma keeps_processDestinations [leg_keeps]:
  "leg_inv K s0 s \<Longrightarrow> keeps (leg_inv K s0) (processDestinations s)"
  by (auto simp: processDestinations_def Let_def same_leg_def dest!: getDest_state intro!: keeps_intros split: option.splits)

lemma leg_inv_apply_order:
  "leg_inv K s0 s \<Longrightarrow> leg_inv K s0 (apply_order ord s)" "leg_inv K s0 s \<Longrightarrow> leg_inv K s0 (apply_nnp_order ord s)"
  by (auto simp: apply_order_def apply_nnp_order_def same_leg_def intro!: leg_inv_upd_call split: option.splits)

lemma keeps_setupEffectiveOrigTrunkSettings [leg_keeps]:
  "leg_inv K s0 s \<Longrightarrow> keeps (leg_inv K s0) (setupEffectiveOrigTrunkSettings s)"
  by (auto simp: setupEffectiveOrigTrunkSettings_def intro!: keeps_deref keeps_with_exc leg_inv_apply_order split: list.splits)

lemma leg_inv_trunkSettings:
  "leg_inv K s0 s \<Longrightarrow> trunk_settings.wf m \<Longrightarrow> leg_inv K s0 (s\<lparr> bs_trunkSettings := m \<rparr>)"
  by (simp add: leg_inv_def counters_ok_def)

lemma keeps_setupEffectiveTermTrunkSettings [leg_keeps]:
  assumes "leg_inv K s0 s"
  shows "keeps (leg_inv K s0) (setupEffectiveTermTrunkSettings s)"
proof -
  have wf: "trunk_settings.wf (bs_trunkSettings s)" using assms by (simp add: leg_inv_def counters_ok_def)
  have *: "trunk_settings.wf m"
    if "getTrunkSettingsOrderList (bs_repo s) trunk src dst ty = Val orders"
      "orderTermTrunkSettingsOrderList (bs_repo s) orders f t (bs_trunkSettings s) = Val (orders', m)" for trunk src dst ty orders f t orders' m
    using orderTerm_ok [OF wf, of orders "bs_repo s" f t] getTrunkSettingsOrderList_complete [OF that(1)] that(2) by auto
  show ?thesis unfolding setupEffectiveTermTrunkSettings_def Let_def
    by (intro keeps_deref keeps_with_exc; auto simp: assms same_leg_def
         intro!: keeps_intros leg_inv_apply_order leg_inv_trunkSettings split: option.splits list.splits; erule (1) *)
qed

lemma keeps_setupServiceTrunk [leg_keeps]: "leg_inv K s0 s \<Longrightarrow> keeps (leg_inv K s0) (setupServiceTrunk s)"
  by (auto simp: setupServiceTrunk_def same_leg_def intro!: leg_inv_upd_call split: option.splits)

lemma keeps_setupServiceNumber [leg_keeps]: "leg_inv K s0 s \<Longrightarrow> keeps (leg_inv K s0) (setupServiceNumber s)"
  by (auto simp: setupServiceNumber_def Let_def same_leg_def intro!: leg_inv_upd_call split: option.splits)

lemma keeps_setupServiceTrunkForNumber [leg_keeps]:
  "leg_inv K s0 s \<Longrightarrow> keeps (leg_inv K s0) (setupServiceTrunkForNumber s)"
  by (auto simp: setupServiceTrunkForNumber_def Let_def same_leg_def intro!: keeps_intros split: option.splits)

lemma keeps_setupAccount [leg_keeps]: "leg_inv K s0 s \<Longrightarrow> keeps (leg_inv K s0) (setupAccount s)"
  by (auto simp: setupAccount_def Let_def same_leg_def intro!: leg_inv_upd_call split: option.splits)

lemma keeps_setupPricelist [leg_keeps]: "leg_inv K s0 s \<Longrightarrow> keeps (leg_inv K s0) (setupPricelist i s)"
  by (auto simp: setupPricelist_def Let_def same_leg_def intro!: leg_inv_upd_call split: option.splits)

lemma keeps_setupPrice [leg_keeps]: "leg_inv K s0 s \<Longrightarrow> keeps (leg_inv K s0) (setupPrice n s)"
  by (auto simp: setupPrice_def set_price_def same_leg_def intro!: keeps_intros split: option.splits)

lemma keeps_setupCost [leg_keeps]: "leg_inv K s0 s \<Longrightarrow> keeps (leg_inv K s0) (setupCost s)"
  by (auto simp: setupCost_def call_cost_def Let_def same_leg_def intro!: leg_inv_upd_call)

lemma keeps_setupInterconnect [leg_keeps]: "leg_inv K s0 s \<Longrightarrow> keeps (leg_inv K s0) (setupInterconnect s)"
  by (auto simp: setupInterconnect_def Let_def same_leg_def intro!: keeps_intros)

lemma keeps_setupLogTariff [leg_keeps]: "leg_inv K s0 s \<Longrightarrow> keeps (leg_inv K s0) (setupLogTariff s)"
  by (auto simp: setupLogTariff_def Let_def intro!: keeps_deref)

lemma keeps_setupMainTariff [leg_keeps]: "leg_inv K s0 s \<Longrightarrow> keeps (leg_inv K s0) (setupMainTariff s)"
  by (auto simp: setupMainTariff_def Let_def intro!: keeps_deref)

lemma keeps_setupTariff [leg_keeps]: "leg_inv K s0 s \<Longrightarrow> keeps (leg_inv K s0) (setupTariff s)"
  by (auto simp: setupTariff_def Let_def intro!: keeps_deref)

lemma keeps_setupPackagePricelist [leg_keeps]:
  assumes "leg_inv K s0 s"
  shows "keeps (leg_inv K s0) (setupPackagePricelist s)"
proof -
  have "keeps (leg_inv K s0) (package_pricelist_loop pkgs s)" if "leg_inv K s0 s" for pkgs s
    using that
  proof (induction pkgs arbitrary: s)
    case (Cons pkg pkgs)
    then show ?case
      by (auto simp: same_leg_def intro!: keeps_with_exc leg_inv_upd_call Cons.IH split: option.splits)
  qed simp
  with assms show ?thesis by (simp add: setupPackagePricelist_def split: option.split)
qed

subsection \<open>Billed and package seconds\<close>

abbreviation fresh :: "int \<Rightarrow> int \<Rightarrow> bool" where "fresh \<equiv> \<lambda>pt bt. pt = 0"
abbreviation covered :: "int \<Rightarrow> int \<Rightarrow> bool" where "covered \<equiv> \<lambda>pt bt. 0 \<le> pt \<and> pt \<le> bt"
abbreviation bounded_by :: "int \<Rightarrow> int \<Rightarrow> bool" where "bounded_by \<equiv> \<lambda>pt bt. 0 \<le> pt \<and> pt \<le> max 0 bt"

lemma leg_inv_mono: "leg_inv K s0 s \<Longrightarrow> (\<And>pt bt. K pt bt \<Longrightarrow> L pt bt) \<Longrightarrow> leg_inv L s0 s"
  by (simp add: leg_inv_def)

lemma leg_inv_weaken:
  "leg_inv fresh s0 s \<Longrightarrow> leg_inv bounded_by s0 s" "leg_inv covered s0 s \<Longrightarrow> leg_inv bounded_by s0 s"
  by (erule leg_inv_mono; simp)+

lemma getCallLength_nonneg: "0 \<le> getCallLength conf len m f fr"
proof -
  have "len mod 60 < 60" by simp
  then show ?thesis by (auto simp: getCallLength_def Let_def)
qed

lemma setupBilledTime_covered:
  "leg_inv fresh s0 s \<Longrightarrow> keeps (leg_inv covered s0) (setupBilledTime s)"
  using leg_inv_times [of fresh s0 s]
  by (auto simp: setupBilledTime_def Let_def same_leg_def getCallLength_nonneg
      intro!: keeps_deref leg_inv_new_times [where K = fresh] split: option.splits)

lemma clamp_to_bounds:
  assumes "0 \<le> billed"
  shows "0 \<le> clamp_to a billed" and "clamp_to a billed \<le> billed" and "clamp_to a billed \<le> max 0 a"
  using assms by (auto simp: clamp_to_def Let_def)

lemma leg_inv_freemin: "leg_inv K s0 s \<Longrightarrow> freemin.wf m \<Longrightarrow> leg_inv K s0 (s\<lparr> bs_freemin := m \<rparr>)"
  by (simp add: leg_inv_def counters_ok_def)

lemma leg_inv_package: "leg_inv K s0 s \<Longrightarrow> package.wf m \<Longrightarrow> leg_inv K s0 (s\<lparr> bs_package := m \<rparr>)"
  by (simp add: leg_inv_def counters_ok_def)

lemma leg_inv_wf:
  assumes "leg_inv K s0 s"
  shows "freemin.wf (bs_freemin s)" "package.wf (bs_package s)" "trunk_settings.wf (bs_trunkSettings s)"
    "package_minute.wf (bs_minute s)" "\<And>m. bs_currentMinute s = Some m \<Longrightarrow> package_minute.wf m"
  using assms by (simp_all add: leg_inv_def counters_ok_def)

lemma keeps_setupFreemin:
  assumes inv: "leg_inv covered s0 s"
  shows "keeps (leg_inv covered s0) (setupFreemin s)"
proof -
  have times: "0 \<le> c_billed_time (bs_call s)" using leg_inv_times [OF inv] by simp
  have wf: "freemin.wf m" if "StatsFreemin_getCurrent c dt (bs_freemin s) = Some (st, m)" for c dt st m
    using StatsFreemin_getCurrent_ok [OF leg_inv_wf(1) [OF inv], of c dt] that by auto
  show ?thesis unfolding setupFreemin_def Let_def
    by (auto simp: inv same_leg_def clamp_to_bounds times
        intro!: keeps_deref leg_inv_freemin leg_inv_new_times [where K = covered]; erule wf)
qed

text \<open>The loop over the packages returns at most the billed seconds, and no more than are left in the
  row of the chosen package.\<close>

definition choice_ok :: "Call \<Rightarrow> int \<Rightarrow> prepaid_choice \<Rightarrow> bool" where
  "choice_ok c secs best \<longleftrightarrow> 0 \<le> secs \<and> secs \<le> c_billed_time c \<and>
     (case best of
        None \<Rightarrow> secs = 0
      | Some (pkg, tp, st) \<Rightarrow> sk_package_id st = sp_id pkg \<and> secs > 0 \<and>
          secs = min (c_billed_time c) (sk_paid_seconds st - sk_used_seconds st))"

lemma prepaid_loop_ok:
  assumes "prepaid_loop r c ci pkgs secs best m = Val (secs', best', m')" and "package.wf m"
    and "choice_ok c secs best" and "0 < c_billed_time c"
    and "\<And>pkg tp st. best = Some (pkg, tp, st) \<Longrightarrow> mg_stats m (sk_id st) = Some st"
  shows "package.wf m' \<and> choice_ok c secs' best' \<and> secs \<le> secs' \<and> mg_stats m \<subseteq>\<^sub>m mg_stats m' \<and>
    (\<forall>pkg tp st. best' = Some (pkg, tp, st) \<longrightarrow> mg_stats m' (sk_id st) = Some st)"
  using assms
proof (induction pkgs arbitrary: secs best m)
  case (Cons pkg pkgs)
  show ?case
  proof (cases "\<exists>tp account. getTariffPackage r (sp_tariff_package_id pkg) = Some tp \<and> tp_prepaid_minutes tp \<noteq> 0 \<and>
      matchTariffPackageDestination r c (ci_geo ci) tp = Val True \<and> ci_account ci = Some account")
    case False
    with Cons.prems(1) have "prepaid_loop r c ci pkgs secs best m = Val (secs', best', m')"
      by (auto split: option.splits if_splits)
    from Cons.IH [OF this Cons.prems(2-4)] Cons.prems(5) show ?thesis by blast
  next
    case True
    then obtain tp account where tp: "getTariffPackage r (sp_tariff_package_id pkg) = Some tp"
      "tp_prepaid_minutes tp \<noteq> 0" "matchTariffPackageDestination r c (ci_geo ci) tp = Val True"
      "ci_account ci = Some account" by blast
    obtain st m1 where st: "StatsPackage_getCurrent c account pkg tp m = Some (st, m1)" "package.wf m1"
      "mg_stats m1 (sk_id st) = Some st" "sk_package_id st = sp_id pkg" "mg_stats m \<subseteq>\<^sub>m mg_stats m1"
      using StatsPackage_getCurrent_ok [OF Cons.prems(2)] by blast
    define available where "available = max 0 (sk_paid_seconds st - sk_used_seconds st)"
    have step: "prepaid_loop r c ci (pkg # pkgs) secs best m =
      (if available \<ge> c_billed_time c then Val (c_billed_time c, Some (pkg, tp, st), m1)
       else if available > secs then prepaid_loop r c ci pkgs available (Some (pkg, tp, st)) m1
       else prepaid_loop r c ci pkgs secs best m1)"
      by (simp add: tp st(1) available_def max_def Let_def)
    have kept: "mg_stats m1 (sk_id st') = Some st'" if "best = Some (pkg', tp', st')" for pkg' tp' st'
      using Cons.prems(5) [OF that] st(5) by (metis domI map_le_def)
    consider "available \<ge> c_billed_time c" | "available < c_billed_time c" "available > secs"
      | "available < c_billed_time c" "\<not> available > secs" by linarith
    then show ?thesis
    proof cases
      case 1
      with step Cons.prems(1) have "secs' = c_billed_time c" "best' = Some (pkg, tp, st)" "m' = m1" by simp_all
      with 1 st Cons.prems(3,4) show ?thesis by (auto simp: choice_ok_def available_def)
    next
      case 2
      have "choice_ok c available (Some (pkg, tp, st))"
        using 2 st(4) Cons.prems(3) by (auto simp: choice_ok_def available_def)
      moreover from 2 step Cons.prems(1)
      have "prepaid_loop r c ci pkgs available (Some (pkg, tp, st)) m1 = Val (secs', best', m')" by simp
      ultimately show ?thesis using Cons.IH [OF _ st(2) _ Cons.prems(4)] 2 st(3) map_le_trans [OF st(5)] by force
    next
      case 3
      from 3 step Cons.prems(1) have "prepaid_loop r c ci pkgs secs best m1 = Val (secs', best', m')" by simp
      from Cons.IH [OF this st(2) Cons.prems(3,4)] kept show ?thesis using map_le_trans [OF st(5)] by blast
    qed
  qed
qed (simp add: map_le_def)

lemma keeps_setupPackagePrepaid:
  assumes inv: "leg_inv covered s0 s"
  shows "keeps (leg_inv covered s0) (setupPackagePrepaid s)"
proof (cases "c_billed_time (bs_call s) = 0 \<or> c_service_package_id (bs_call s) > 0")
  case False
  have billed: "0 < c_billed_time (bs_call s)" using leg_inv_times [OF inv] False by auto
  have ok: "package.wf m \<and> choice_ok (bs_call s) secs best"
    if "prepaid_loop (bs_repo s) (bs_call s) (bs_info s) pkgs 0 None (bs_package s) = Val (secs, best, m)" for pkgs secs best m
    using prepaid_loop_ok [OF that leg_inv_wf(2) [OF inv] _ billed] billed by (simp add: choice_ok_def)
  show ?thesis unfolding setupPackagePrepaid_def Let_def
    by (auto simp: inv same_leg_def choice_ok_def dest!: ok split: option.splits
        intro!: keeps_with_exc leg_inv_package leg_inv_new_times [where K = covered])
qed (simp add: setupPackagePrepaid_def inv)

section \<open>What the statements compute\<close>

text \<open>The manual prefixes are the number with its last digits cut off.\<close>

lemma number_prefixes_digits:
  assumes "0 \<le> n" and "n < 2 ^ 63"
  shows "p \<in> set (number_prefixes (lld n)) \<longleftrightarrow> (\<exists>j < length (lld n). p = n div 10 ^ j)"
proof -
  define L where "L = length (lld n)"
  have l: "lld n = dec_digits (nat n)" using assms by (simp add: lld_def)
  have t: "atoll (take k (lld n)) = n div 10 ^ (L - k)" if "0 < k" "k \<le> L" for k
  proof -
    have "take k (lld n) = lld (n div 10 ^ (L - k))"
      using take_dec_digits [of k "nat n"] that assms(1)
      by (simp add: l L_def lld_def pos_imp_zdiv_neg_iff nat_div_distrib nat_power_eq)
    moreover have "n div 10 ^ (L - k) \<le> n" "0 \<le> n div 10 ^ (L - k)" using assms(1) zdiv_mono2 [of n 1 "10 ^ (L - k)"]
      by (simp_all add: pos_imp_zdiv_nonneg_iff)
    ultimately show ?thesis using assms(2) by (simp add: atoll_lld)
  qed
  have "set (number_prefixes (lld n)) = (\<lambda>k. atoll (take k (lld n))) ` {1..L}"
    unfolding number_prefixes_def L_def set_map set_rev set_upt atLeastLessThanSuc_atLeastAtMost ..
  also have "\<dots> = (\<lambda>k. n div 10 ^ (L - k)) ` {1..L}" by (rule image_cong) (use t in auto)
  finally have "p \<in> set (number_prefixes (lld n)) \<longleftrightarrow> (\<exists>k \<in> {1..L}. p = n div 10 ^ (L - k))" by auto
  also have "\<dots> \<longleftrightarrow> (\<exists>j < L. p = n div 10 ^ j)"
  proof
    assume "\<exists>k \<in> {1..L}. p = n div 10 ^ (L - k)"
    then show "\<exists>j < L. p = n div 10 ^ j" by (metis Suc_le_eq One_nat_def atLeastAtMost_iff diff_less le_zero_eq not_gr_zero)
  next
    assume "\<exists>j < L. p = n div 10 ^ j"
    then obtain j where "j < L" "p = n div 10 ^ j" by blast
    then show "\<exists>k \<in> {1..L}. p = n div 10 ^ (L - k)" by (intro bexI [of _ "L - j"]) auto
  qed
  finally show ?thesis by (simp add: L_def)
qed

lemma match_manual_iff:
  assumes "0 \<le> c_dst_number c" and "c_dst_number c < 2 ^ 63" and "length (lld (c_dst_number c)) < 20"
  shows "match_manual pl c = Val (\<exists>p \<in> set (sl_prefixes pl). \<exists>j < length (lld (c_dst_number c)). p = c_dst_number c div 10 ^ j)"
  using assms by (simp add: match_manual_def any_exc_Val number_prefixes_digits)

lemma digits_no_mark:
  assumes "\<forall>c \<in> set d. is_digit c"
  shows "CHR ''='' \<notin> set d" "CHR ''*'' \<notin> set d" "CHR ''+'' \<notin> set d"
proof -
  have "\<not> is_digit (CHR ''='')" "\<not> is_digit (CHR ''*'')" "\<not> is_digit (CHR ''+'')" by (simp_all add: is_digit_def)
  with assms show "CHR ''='' \<notin> set d" "CHR ''*'' \<notin> set d" "CHR ''+'' \<notin> set d" by blast+
qed

lemma dest_of_range: "dest_of g st mob = Val d \<Longrightarrow> d \<in> {-1, 0, 1, 2}"
  by (auto simp: dest_of_def split: if_splits)

lemma deref_Next: "deref p f = Next s \<longleftrightarrow> (\<exists>a. p = Some a \<and> f a = Next s)"
  by (cases p) auto

lemma with_exc_Next: "with_exc e f = Next s \<longleftrightarrow> (\<exists>a. e = Val a \<and> f a = Next s)"
  by (cases e) auto

text \<open>A \<open>setupFreemin\<close> that took free seconds.\<close>

definition freemin_taken :: "Tariff \<Rightarrow> ServiceNumber \<Rightarrow> StatsFreemin \<Rightarrow> Call \<Rightarrow> Call" where
  "freemin_taken ta sn st c = c\<lparr> c_service_package_id := 1, c_service_package_stats_id := sf_id st,
     c_package_time := clamp_to (tariff_free_seconds ta sn - sf_used_seconds st) (c_billed_time c) \<rparr>"

lemma freemin_path:
  assumes "setupFreemin s = Next s'" and "s' \<noteq> s"
  shows "\<exists>ta sn dt st m. ci_mainTariff (bs_info s) = Some ta \<and> ci_serviceNumber (bs_info s) = Some sn \<and>
    StatsFreemin_getCurrent (bs_call s) dt (bs_freemin s) = Some (st, m) \<and> \<not> tariff_free_seconds ta sn \<le> 0 \<and>
    ci_dt (bs_info s) = Some dt \<and> isLocal (bs_call s) \<and> c_billed_time (bs_call s) \<noteq> 0"
proof -
  have g: "c_billed_time (bs_call s) \<noteq> 0" "isLocal (bs_call s)" using assms by (auto simp: setupFreemin_def Let_def split: if_splits)
  with assms(1) obtain ta sn where t: "ci_mainTariff (bs_info s) = Some ta" "ci_serviceNumber (bs_info s) = Some sn"
    by (simp add: setupFreemin_def Let_def deref_Next) blast
  with g assms have f: "\<not> tariff_free_seconds ta sn \<le> 0" by (auto simp: setupFreemin_def)
  with g t assms(1) obtain dt st m where "ci_dt (bs_info s) = Some dt"
    "StatsFreemin_getCurrent (bs_call s) dt (bs_freemin s) = Some (st, m)"
    by (simp add: setupFreemin_def Let_def deref_Next) blast
  with g t f show ?thesis by blast
qed

lemma setupFreemin_taken:
  assumes "setupFreemin s = Next s'" and "c_service_package_id (bs_call s') \<noteq> c_service_package_id (bs_call s)"
  shows "\<exists>ta sn dt st m. ci_mainTariff (bs_info s) = Some ta \<and> ci_serviceNumber (bs_info s) = Some sn \<and>
    StatsFreemin_getCurrent (bs_call s) dt (bs_freemin s) = Some (st, m) \<and>
    s' = upd_call (freemin_taken ta sn st) (s\<lparr> bs_freemin := m \<rparr>) \<and>
    0 < clamp_to (tariff_free_seconds ta sn - sf_used_seconds st) (c_billed_time (bs_call s))"
proof -
  have ne: "s' \<noteq> s" "\<And>m. s\<lparr> bs_freemin := m \<rparr> \<noteq> s'" using assms(2) by auto
  from assms(1) ne(1) obtain ta sn dt st m where l: "ci_mainTariff (bs_info s) = Some ta"
    "ci_serviceNumber (bs_info s) = Some sn" "StatsFreemin_getCurrent (bs_call s) dt (bs_freemin s) = Some (st, m)"
    "\<not> tariff_free_seconds ta sn \<le> 0" "ci_dt (bs_info s) = Some dt"
    "isLocal (bs_call s)" "c_billed_time (bs_call s) \<noteq> 0"
    using freemin_path by blast
  then have r: "setupFreemin s = Next (if 0 < clamp_to (tariff_free_seconds ta sn - sf_used_seconds st) (c_billed_time (bs_call s))
      then upd_call (freemin_taken ta sn st) (s\<lparr> bs_freemin := m \<rparr>) else s\<lparr> bs_freemin := m \<rparr>)"
    by (simp add: setupFreemin_def upd_call_def freemin_taken_def)
  with assms(1) ne(2) have "0 < clamp_to (tariff_free_seconds ta sn - sf_used_seconds st) (c_billed_time (bs_call s))"
    by (simp split: if_splits)
  with r assms(1) l(1-3) show ?thesis by auto
qed

definition prepaid_taken :: "int \<Rightarrow> ServicePackage \<Rightarrow> StatsPackage \<Rightarrow> Call \<Rightarrow> Call" where
  "prepaid_taken secs pkg st c = c\<lparr> c_package_time := secs, c_service_package_id := sp_id pkg,
     c_service_package_stats_id := sk_id st \<rparr>"

lemma setupPackagePrepaid_taken:
  assumes "setupPackagePrepaid s = Next s'" and "c_service_package_id (bs_call s') \<noteq> c_service_package_id (bs_call s)"
  shows "c_billed_time (bs_call s) \<noteq> 0 \<and> (\<exists>pkgs secs pkg tp st m.
    prepaid_loop (bs_repo s) (bs_call s) (bs_info s) pkgs 0 None (bs_package s) = Val (secs, Some (pkg, tp, st), m) \<and>
    s' = upd_info (\<lambda>ci. ci\<lparr> ci_servicePackagePrepaid := Some pkg, ci_tariffPackagePrepaid := Some tp \<rparr>)
       (upd_call (prepaid_taken secs pkg st) (s\<lparr> bs_package := m \<rparr>)))"
proof -
  have ne: "s' \<noteq> s" "\<And>m. s\<lparr> bs_package := m \<rparr> \<noteq> s'" using assms(2) by auto
  have nz: "\<not> (c_billed_time (bs_call s) = 0 \<or> c_service_package_id (bs_call s) > 0)"
    using assms(1) ne(1) by (auto simp: setupPackagePrepaid_def)
  then obtain pkgs where "leg_packages s = Some pkgs"
    using assms(1) ne(1) by (auto simp: setupPackagePrepaid_def split: option.splits)
  with nz assms(1) obtain secs best m where l:
    "prepaid_loop (bs_repo s) (bs_call s) (bs_info s) pkgs 0 None (bs_package s) = Val (secs, best, m)"
    by (auto simp: setupPackagePrepaid_def with_exc_Next)
  obtain pkg tp st where best: "best = Some (pkg, tp, st)"
  proof (cases best)
    case None
    with nz assms(1) l \<open>leg_packages s = Some pkgs\<close> ne(2) show ?thesis by (simp add: setupPackagePrepaid_def)
  qed (use that in \<open>cases "the best", auto\<close>)
  have "s' = upd_info (\<lambda>ci. ci\<lparr> ci_servicePackagePrepaid := Some pkg, ci_tariffPackagePrepaid := Some tp \<rparr>)
       (upd_call (prepaid_taken secs pkg st) (s\<lparr> bs_package := m \<rparr>))"
    using nz assms(1) l \<open>leg_packages s = Some pkgs\<close> best
    by (simp add: setupPackagePrepaid_def prepaid_taken_def upd_call_def)
  with nz l best show ?thesis by blast
qed

end
