(* ===== verification/Billing_NNP.thy ===== *)
theory Billing_NNP
  imports Billing_Steps
begin

text \<open>
  \<^verbatim>\<open>src/src-bill/classes/BillingCall_nnp.cpp\<close>: the attributes of the numbering plan on a leg, and the
  price of an originating leg of an account of version 5, which has packages of prices, pricelists
  and minutes instead of tariffs.
\<close>

section \<open>Attributes of the number\<close>

text \<open>The row of the number range is completed in place with its country when the table had none.\<close>

definition complete_range :: "Repo \<Rightarrow> int \<Rightarrow> NNPNumberRange \<Rightarrow> NNPNumberRange" where
  "complete_range r phone_number nr0 =
     (let nr1 = (if nr_country_prefix nr0 = 0
                 then (case getNNPCountryPrefix r phone_number of (pfx, code) \<Rightarrow>
                         nr0\<lparr> nr_country_prefix := pfx, nr_country_code := code \<rparr>)
                 else nr0)
      in if nr_country_code nr1 = 0
         then nr1\<lparr> nr_country_code := getNNPCountryCode r (nr_country_prefix nr1) \<rparr> else nr1)"

definition processNNP :: step where
  "processNNP s =
     (let r = bs_repo s; phone_number = call_getNumber (bs_call s) in
      case getNNPNumberRange_index (rp_nnpNumberRange r) (rp_nnpNumberRangeTree r) phone_number of
        None \<Rightarrow>
          (case getNNPCountryPrefix r phone_number of (pfx, code) \<Rightarrow>
             Next (upd_call (\<lambda>c. c\<lparr> c_nnp_country_prefix := pfx, c_nnp_country_code := code \<rparr>) s))
      | Some i \<Rightarrow>
          (let nr = complete_range r phone_number (rp_nnpNumberRange r ! i);
               r' = r\<lparr> rp_nnpNumberRange := (rp_nnpNumberRange r)[i := nr] \<rparr>
           in Next (upd_call (\<lambda>c. c\<lparr> c_nnp_number_range_id := nr_id nr, c_nnp_operator_id := nr_nnp_operator_id nr,
                      c_nnp_region_id := nr_nnp_region_id nr, c_nnp_city_id := nr_nnp_city_id nr,
                      c_nnp_country_prefix := nr_country_prefix nr, c_nnp_ndc := nr_ndc nr,
                      c_nnp_is_mob := nr_is_mob nr, c_nnp_country_code := nr_country_code nr \<rparr>)
                (upd_info (ci_nnpNumberRange_update (\<lambda>_. Some nr)) (s\<lparr> bs_repo := r' \<rparr>)))))"

section \<open>Billed time\<close>

definition getCallLengthNNP :: "int \<Rightarrow> int \<Rightarrow> int \<Rightarrow> int \<Rightarrow> int \<Rightarrow> int" where
  "getCallLengthNNP len free_seconds interval_seconds0 tarification_type min_paid_seconds =
     (let interval_seconds = (if interval_seconds0 = 0 then 1 else interval_seconds0) in
      if len \<le> 0 then 0
      else if len \<le> \<bar>free_seconds\<bar> then 0
      else if len \<le> \<bar>min_paid_seconds\<bar> then \<bar>min_paid_seconds\<bar>
      else
        (let q = sgn interval_seconds * (len div \<bar>interval_seconds\<bar>);
             rest = len mod \<bar>interval_seconds\<bar>;
             half = sgn interval_seconds * (\<bar>interval_seconds\<bar> div 2)
         in if rest = 0 then len
            else if rest \<le> half \<and> tarification_type = 1 then q * interval_seconds
            else (q + 1) * interval_seconds))"

definition setupBilledTimeNNP :: "NNPPackage \<Rightarrow> step" where
  "setupBilledTimeNNP pkg s =
     Next (upd_call (c_billed_time_update (\<lambda>_. getCallLengthNNP (cdr_session_time (bs_cdr s))
       (nk_tarification_free_seconds pkg) (nk_tarification_interval_seconds pkg) (nk_tarification_type pkg)
       (nk_tarification_min_paid_seconds pkg))) s)"

definition setupNNPCost :: step where
  "setupNNPCost s =
     (let c = bs_call s; paid_time = c_billed_time c - c_package_time c;
          s1 = (if paid_time > 0 then
                  (let s' = upd_call (c_cost_update (\<lambda>_. real_of_int paid_time * c_rate c / 60)) s
                   in upd_call (\<lambda>c. c\<lparr> c_cost := (if c_orig c then - c_cost c else c_cost c) \<rparr>) s')
                else upd_call (c_cost_update (\<lambda>_. 0)) s)
      in Next (if c_billed_time c > 0 then
                 (let s' = upd_call (c_package_credit_update (\<lambda>_. real_of_int (c_package_time c) * c_rate c / 60)) s1
                  in upd_call (\<lambda>c. c\<lparr> c_package_credit := (if c_orig c then - c_package_credit c else c_package_credit c) \<rparr>) s')
               else upd_call (c_package_credit_update (\<lambda>_. 0)) s1))"

definition setupNNPInterconnect :: step where
  "setupNNPInterconnect s =
     (let interconnect = (\<lambda>rate. upd_call (\<lambda>c. c\<lparr> c_interconnect_rate := rate,
            c_interconnect_cost := real_of_int (c_billed_time c) * rate / 60 \<rparr>)) in
      if c_orig (bs_call s) then Next s
      else
        (let s1 = (case ci_nnpPackagePrice (bs_info s) of
               Some p \<Rightarrow> if ni_interconnect_price p > 0.00001 then interconnect (ni_interconnect_price p) s else s
             | None \<Rightarrow> s)
         in case ci_nnpPackagePricelist (bs_info s1) of
              None \<Rightarrow> Next s1
            | Some npl \<Rightarrow>
                (case getPricelist (bs_repo s1) (nl_pricelist_id npl) of
                   None \<Rightarrow> Next s1
                 | Some pl \<Rightarrow>
                     (let s2 = (if pl_initiate_zona_cost pl > 0.00001 \<and> c_destination_id (bs_call s1) = 0
                                then interconnect (pl_initiate_zona_cost pl) s1 else s1)
                      in Next (if pl_initiate_mgmn_cost pl > 0.00001 \<and> c_destination_id (bs_call s2) > 0
                               then interconnect (pl_initiate_mgmn_cost pl) s2 else s2)))))"

section \<open>Packages\<close>

text \<open>The candidates of several tariffs in the order of their addresses, as the \<open>set\<close> of pairs holds
  equal prices.\<close>

definition in_address_order :: "'a list \<Rightarrow> (real \<times> 'a) list \<Rightarrow> (real \<times> 'a) list" where
  "in_address_order data cands = concat (map (\<lambda>p. filter (\<lambda>c. snd c = p) cands) data)"

definition setupNNPPackagePrice ::
    "Repo \<Rightarrow> NNPAccountTariffLight list \<Rightarrow> int set \<Rightarrow> (real \<times> NNPPackagePrice) option" where
  "setupNNPPackagePrice r atls nnpDestinationIds =
     cheapest (in_address_order (rp_nnpPackagePrice r)
       (concat (map (\<lambda>t. findNNPPackagePriceIds r (nt_nnp_tariff_id t) nnpDestinationIds) atls)))"

definition setupNNPPackagePricelist ::
    "Repo \<Rightarrow> NNPAccountTariffLight list \<Rightarrow> int \<Rightarrow> (real \<times> NNPPackagePricelist) option" where
  "setupNNPPackagePricelist r atls dst_number =
     cheapest (in_address_order (rp_nnpPackagePricelist r)
       (concat (map (\<lambda>t. findNNPPackagePricelistIds r (nt_nnp_tariff_id t) dst_number) atls)))"

text \<open>Conversion of a \<open>double\<close> to \<open>int\<close>.\<close>

definition c_trunc :: "real \<Rightarrow> int" where
  "c_trunc x = (if x \<ge> 0 then \<lfloor>x\<rfloor> else \<lceil>x\<rceil>)"

text \<open>The maps by tariff keep the last account tariff of each tariff.\<close>

definition tariff_of :: "NNPAccountTariffLight list \<Rightarrow> int \<Rightarrow> NNPAccountTariffLight option" where
  "tariff_of atls tariff_id = first_of (rev (filter (\<lambda>t. nt_nnp_tariff_id t = tariff_id) atls))"

definition minute_cost_of :: "NNPAccountTariffLight \<Rightarrow> NNPPackageMinute \<Rightarrow> real" where
  "minute_cost_of t pm = (if nm_minute pm > 0 then \<bar>nt_price t / nm_minute pm\<bar> else 10000000)"

text \<open>The set is ordered by the price of a minute, then by the seconds left; of equal keys the first
  stays. Only its first element is used.\<close>

type_synonym minute_choice = "(real \<times> int \<times> NNPPackageMinute) option"

definition better_minute :: "real \<times> int \<times> NNPPackageMinute \<Rightarrow> minute_choice \<Rightarrow> minute_choice" where
  "better_minute x best =
     (case best of
        None \<Rightarrow> Some x
      | Some y \<Rightarrow> if fst x < fst y \<or> fst x = fst y \<and> fst (snd x) < fst (snd y) then Some x else Some y)"

fun package_minute_loop :: "NNPAccountTariffLight list \<Rightarrow> int set \<Rightarrow> NNPPackageMinute list \<Rightarrow> minute_choice \<Rightarrow>
    BillingState \<Rightarrow> (minute_choice \<times> BillingState) exc" where
  "package_minute_loop atls ids [] best s = Val (best, s)"
| "package_minute_loop atls ids (pm # pms) best s =
     (if nm_nnp_destination_id pm \<in> ids then
        (case (tariff_of atls (nm_nnp_tariff_id pm), bs_currentMinute s) of
           (Some t, Some cur) \<Rightarrow>
             (case StatsNNPPackageMinute_getCurrent (rp_now (bs_repo s)) pm t cur of
                None \<Rightarrow> Exc ''out_of_range''
              | Some (st, cur') \<Rightarrow>
                  (let used = StatsNNPPackageMinute_getUsedSeconds (nt_id t) (nm_id pm)
                                (cdr_connect_time (bs_cdr s)) (bs_minute s);
                       global_used = (case bs_globalMinute s of
                           None \<Rightarrow> 0 | Some g \<Rightarrow> findPackageMinuteCounter g (nt_id t) (nm_id pm));
                       seconds_left = c_trunc (nm_minute pm * 60 - real_of_int used - real_of_int global_used
                                               - real_of_int (sm_used_seconds st));
                       best' = (if seconds_left > 0
                                then better_minute (minute_cost_of t pm, seconds_left, pm) best else best)
                   in package_minute_loop atls ids pms best' (s\<lparr> bs_currentMinute := Some cur' \<rparr>)))
         | _ \<Rightarrow> Undef)
      else package_minute_loop atls ids pms best s)"

definition package_minutes :: "Repo \<Rightarrow> NNPAccountTariffLight list \<Rightarrow> NNPPackageMinute list" where
  "package_minutes r atls =
     concat (map (\<lambda>t. getNNPPackageMinuteByTariff r (nt_nnp_tariff_id t) (nt_coefficient t)) atls)"

definition setupNNPPackageMinute :: "NNPAccountTariffLight list \<Rightarrow> int set \<Rightarrow> BillingState \<Rightarrow>
    ((int \<times> NNPPackageMinute) \<times> BillingState) exc" where
  "setupNNPPackageMinute atls ids s =
     bind_exc (package_minute_loop atls ids (package_minutes (bs_repo s) atls) None s)
       (\<lambda>(best, s'). Val (case best of None \<Rightarrow> (0, NNPPackageMinute_new) | Some y \<Rightarrow> snd y, s'))"

section \<open>Price of an originating leg\<close>

text \<open>The cheaper of the two packages by absolute value; the package price on a tie.\<close>

definition apply_package_price :: "real \<times> NNPPackagePrice \<Rightarrow> Call \<Rightarrow> Call" where
  "apply_package_price = (\<lambda>(price, p) c.
     c\<lparr> c_rate := price, c_nnp_package_price_id := ni_id p, c_nnp_package_id := ni_nnp_tariff_id p \<rparr>)"

definition apply_package_pricelist :: "real \<times> NNPPackagePricelist \<Rightarrow> Call \<Rightarrow> Call" where
  "apply_package_pricelist = (\<lambda>(price, p) c.
     c\<lparr> c_rate := price, c_nnp_package_pricelist_id := nl_id p, c_nnp_package_id := nl_nnp_tariff_id p \<rparr>)"

definition choose_rate ::
    "(real \<times> NNPPackagePrice) option \<Rightarrow> (real \<times> NNPPackagePricelist) option \<Rightarrow> Call \<Rightarrow> Call" where
  "choose_rate price pricelist c =
     (case (price, pricelist) of
        (Some p, Some l) \<Rightarrow> if \<bar>fst p\<bar> \<le> \<bar>fst l\<bar> then apply_package_price p c else apply_package_pricelist l c
      | (Some p, None) \<Rightarrow> apply_package_price p c
      | (None, Some l) \<Rightarrow> apply_package_pricelist l c
      | (None, None) \<Rightarrow> c\<lparr> c_rate := 0, c_nnp_package_pricelist_id := 0, c_nnp_package_id := 0 \<rparr>)"

text \<open>The minutes of the chosen package are booked on the counter of the account tariff.\<close>

definition book_minutes :: "NNPAccountTariffLight list \<Rightarrow> step" where
  "book_minutes atls s =
     (case getNNPPackageMinute (bs_repo s) (c_nnp_package_minute_id (bs_call s)) of
        None \<Rightarrow> if atls = [] then Next s else Fault
      | Some pm \<Rightarrow>
          (case List.find (\<lambda>t. nt_nnp_tariff_id t = nm_nnp_tariff_id pm) atls of
             None \<Rightarrow> Next s
           | Some t \<Rightarrow>
               deref (StatsNNPPackageMinute_getCurrent (cdr_connect_time (bs_cdr s)) pm t (bs_minute s)) (\<lambda>(st, m).
                 Next (upd_call (c_stats_nnp_package_minute_id_update (\<lambda>_. sm_id st)) (s\<lparr> bs_minute := m \<rparr>)))))"

definition apply_minutes :: "NNPAccountTariffLight list \<Rightarrow> int \<times> NNPPackageMinute \<Rightarrow> step" where
  "apply_minutes atls minutes s =
     (let available = clamp_to (fst minutes) (c_billed_time (bs_call s)); pm = snd minutes in
      if available > 0
      then book_minutes atls (upd_call (\<lambda>c. c\<lparr> c_nnp_package_minute_id := nm_id pm,
             c_nnp_package_id := nm_nnp_tariff_id pm, c_package_time := available \<rparr>) s)
      else Next s)"

definition nnp_billed_time :: "int \<Rightarrow> step" where
  "nnp_billed_time tariff_id s =
     (case getNNPPackage (bs_repo s) tariff_id of
        None \<Rightarrow> Stop ''NOT FOUND nnpPackages'' s
      | Some pkg \<Rightarrow> setupBilledTimeNNP pkg s)"

definition calcOrigNNPByNumber :: step where
  "calcOrigNNPByNumber s =
     (case ci_serviceNumber (bs_info s) of
        None \<Rightarrow> Stop ''NOT FOUND serviceNumber'' s
      | Some sn \<Rightarrow>
          (let r = bs_repo s; c = bs_call s;
               atls = getActiveNNPAccountTariffLight r (c_account_id c) (c_connect_time c) (sn_id sn) in
           if atls = [] then Stop ''NOT FOUND AccountTariffLight'' s
           else
             (let ids = getNNPDestinationByNumberRange r (getNNPNumberRange r (c_dst_number c));
                  price = setupNNPPackagePrice r atls ids;
                  pricelist = setupNNPPackagePricelist r atls (c_dst_number c)
              in with_exc (setupNNPPackageMinute atls ids s) (\<lambda>(minutes, s1).
                   let s2 = upd_call (\<lambda>c. (choose_rate price pricelist c)\<lparr> c_package_time := 0 \<rparr>) s1 in
                   if nm_id (snd minutes) \<noteq> 0
                   then run_steps [nnp_billed_time (nm_nnp_tariff_id (snd minutes)), apply_minutes atls minutes, setupNNPCost] s2
                   else run_steps [nnp_billed_time (c_nnp_package_id (bs_call s2)), setupNNPCost] s2))))"

section \<open>What every statement keeps\<close>

lemma keeps_processNNP [leg_keeps]: "leg_inv K s0 s \<Longrightarrow> keeps (leg_inv K s0) (processNNP s)"
  by (auto simp: processNNP_def Let_def same_leg_def intro!: leg_inv_upd_call split: option.splits prod.splits)

text \<open>The two cost computations are the same.\<close>

lemma setupNNPCost_eq: "setupNNPCost s = setupCost s"
  by (simp add: setupNNPCost_def setupCost_def call_cost_def upd_call_def Let_def)

lemma keeps_setupNNPCost [leg_keeps]: "leg_inv K s0 s \<Longrightarrow> keeps (leg_inv K s0) (setupNNPCost s)"
  by (simp add: setupNNPCost_eq keeps_setupCost)

lemma keeps_setupNNPInterconnect [leg_keeps]:
  "leg_inv K s0 s \<Longrightarrow> keeps (leg_inv K s0) (setupNNPInterconnect s)"
  by (auto simp: setupNNPInterconnect_def Let_def same_leg_def intro!: leg_inv_upd_call split: option.splits)

lemma keeps_setupBilledTimeNNP: "leg_inv fresh s0 s \<Longrightarrow> keeps (leg_inv fresh s0) (setupBilledTimeNNP pkg s)"
  using leg_inv_times [of fresh s0 s]
  by (auto simp: setupBilledTimeNNP_def same_leg_def intro!: leg_inv_new_times [where K = fresh])

lemma keeps_nnp_billed_time: "leg_inv fresh s0 s \<Longrightarrow> keeps (leg_inv fresh s0) (nnp_billed_time i s)"
  by (auto simp: nnp_billed_time_def keeps_setupBilledTimeNNP split: option.splits)

lemma leg_inv_currentMinute:
  "leg_inv K s0 s \<Longrightarrow> package_minute.wf m \<Longrightarrow> leg_inv K s0 (s\<lparr> bs_currentMinute := Some m \<rparr>)"
  by (simp add: leg_inv_def counters_ok_def)

lemma leg_inv_minute: "leg_inv K s0 s \<Longrightarrow> package_minute.wf m \<Longrightarrow> leg_inv K s0 (s\<lparr> bs_minute := m \<rparr>)"
  by (simp add: leg_inv_def counters_ok_def)

lemma minute_getCurrent_wf:
  assumes "package_minute.wf m" and "StatsNNPPackageMinute_getCurrent t pm atl m = Some (st, m')"
  shows "package_minute.wf m'"
  using StatsNNPPackageMinute_getCurrent_ok [OF assms(1), of t pm atl] assms(2) by auto

lemma package_minute_loop_inv:
  assumes "package_minute_loop atls ids pms best s = Val (best', s')" and "leg_inv K s0 s"
  shows "leg_inv K s0 s'"
  using assms
proof (induction pms arbitrary: best s)
  case (Cons pm pms)
  show ?case
  proof (cases "nm_nnp_destination_id pm \<in> ids")
    case True
    with Cons.prems(1) obtain t cur st cur' best1 where
      "bs_currentMinute s = Some cur" "StatsNNPPackageMinute_getCurrent (rp_now (bs_repo s)) pm t cur = Some (st, cur')"
      "package_minute_loop atls ids pms best1 (s\<lparr> bs_currentMinute := Some cur' \<rparr>) = Val (best', s')"
      by (auto simp: Let_def split: option.splits)
    with Cons.IH Cons.prems(2) leg_inv_wf(5) minute_getCurrent_wf leg_inv_currentMinute show ?thesis by metis
  qed (use Cons in auto)
qed simp

lemma keeps_book_minutes [leg_keeps]: "leg_inv K s0 s \<Longrightarrow> keeps (leg_inv K s0) (book_minutes atls s)"
  by (auto simp: book_minutes_def same_leg_def split: option.splits
      intro!: keeps_deref leg_inv_upd_call leg_inv_minute elim: minute_getCurrent_wf [OF leg_inv_wf(4)])

lemma keeps_apply_minutes:
  assumes inv: "leg_inv fresh s0 s"
  shows "keeps (leg_inv bounded_by s0) (apply_minutes atls minutes s)"
proof (cases "0 < clamp_to (fst minutes) (c_billed_time (bs_call s))")
  case True
  then have "0 \<le> c_billed_time (bs_call s)" by (auto simp: clamp_to_def Let_def split: if_splits)
  note b = clamp_to_bounds [OF this, of "fst minutes"]
  show ?thesis using True inv b(2)
    by (auto simp: apply_minutes_def Let_def same_leg_def
        intro!: keeps_book_minutes leg_inv_new_times [where K = fresh])
qed (use leg_inv_weaken(1) [OF inv] in \<open>simp add: apply_minutes_def Let_def\<close>)

lemma same_leg_choose_rate: "same_leg c ((choose_rate price pricelist c)\<lparr> c_package_time := pt \<rparr>)"
  by (auto simp: choose_rate_def apply_package_price_def apply_package_pricelist_def same_leg_def
      split: option.splits prod.splits)

lemma and_then_done [simp]: "and_then m (run_steps []) = m" "and_then m Next = m"
  by (cases m; simp)+

lemma keeps_calcOrigNNPByNumber:
  assumes inv: "leg_inv fresh s0 s"
  shows "keeps (leg_inv bounded_by s0) (calcOrigNNPByNumber s)"
proof -
  have s2: "leg_inv fresh s0 (upd_call (\<lambda>c. (choose_rate price pricelist c)\<lparr> c_package_time := 0 \<rparr>) s1)"
    if "leg_inv fresh s0 s1" for s1 price pricelist
    using that by (intro leg_inv_new_times [where K = fresh]) (simp_all add: same_leg_choose_rate)
  have minutes: "keeps (leg_inv bounded_by s0)
      (run_steps [nnp_billed_time i, apply_minutes atls minutes, setupNNPCost] s1)"
    if "leg_inv fresh s0 s1" for i atls minutes s1
    by (auto intro!: keeps_seq [OF keeps_nnp_billed_time [OF that]] keeps_seq [OF keeps_apply_minutes]
        keeps_setupNNPCost intro: leg_inv_weaken keeps_and_then)
  have plain: "keeps (leg_inv bounded_by s0) (run_steps [nnp_billed_time i, setupNNPCost] s1)"
    if "leg_inv fresh s0 s1" for i s1
    unfolding run_steps.simps and_then_done
    by (rule keeps_seq [OF keeps_nnp_billed_time [OF that]]) (simp_all add: leg_inv_weaken keeps_setupNNPCost)
  have loop: "leg_inv fresh s0 s1" if "setupNNPPackageMinute atls ids s = Val (minutes, s1)" for atls ids minutes s1
    using that package_minute_loop_inv [OF _ inv] by (auto simp: setupNNPPackageMinute_def)
  show ?thesis unfolding calcOrigNNPByNumber_def
    using leg_inv_weaken(1) [OF inv]
    by (auto simp del: run_steps.simps simp: Let_def split: option.splits
        intro!: keeps_with_exc minutes plain s2 elim: loop)
qed

section \<open>What the statements compute\<close>

lemma in_address_order_set: "set (in_address_order data cands) = {c \<in> set cands. snd c \<in> set data}"
  by (auto simp: in_address_order_def)

lemma findPackagePriceIds_set:
  assumes "sorted (map ni_nnp_tariff_id data)"
  shows "set (findPackagePriceIds data tariff_id ids) =
    {(ni_price p, p) | p. p \<in> set data \<and> ni_nnp_tariff_id p = tariff_id \<and> ni_nnp_destination_id p \<in> ids}"
  using assms by (auto simp: findPackagePriceIds_def equal_range_filter)

end
