(* ===== verification/Billing_Call.thy ===== *)
theory Billing_Call
  imports Billing_NNP
begin

text \<open>
  \<open>BillingCall::calc\<close> of \<^verbatim>\<open>src/src-bill/classes/BillingCall.cpp\<close>: the two schemes of pricing a leg, by
  trunk and by number, as sequences of the statements of \<open>Billing_Steps\<close> and \<open>Billing_NNP\<close>. The
  lemmas show what every leg satisfies, priced or stopped half way: the counters stay well formed,
  the identity of the leg is kept, the package seconds never exceed the billed seconds, and the cost
  is split exactly between the money and the package.
\<close>

section \<open>Composition\<close>

definition setVatFlag :: step where
  "setVatFlag s =
     (let c = bs_call s; ci = bs_info s;
          set_vat = (\<lambda>v. upd_call (c_price_includes_vat_update (\<lambda>_. v)) s) in
      if c_account_version c = 4 then
        Next (set_vat (case ci_pricelist ci of Some pl \<Rightarrow> pl_price_include_vat pl | None \<Rightarrow> False))
      else if c_account_version c \<noteq> 5 then Next s
      else if c_nnp_package_price_id c \<noteq> 0 then
        Next (set_vat (case ci_nnpPackage ci of Some p \<Rightarrow> nk_is_include_vat p | None \<Rightarrow> False))
      else if c_nnp_package_pricelist_id c \<noteq> 0 then
        Next (case ci_nnpPackagePricelist ci of
                None \<Rightarrow> s
              | Some npl \<Rightarrow>
                  (case getPricelist (bs_repo s) (nl_pricelist_id npl) of
                     None \<Rightarrow> s | Some pl \<Rightarrow> set_vat (pl_price_include_vat pl)))
      else Next s)"

definition isNeedForceCalcByNumber :: "BillingState \<Rightarrow> bool" where
  "isNeedForceCalcByNumber s =
     (case bs_mega s of
        None \<Rightarrow> False
      | Some mt \<Rightarrow> if c_orig (bs_call s) then isForceOrgAuthByNumber (bs_repo s) mt
                   else mt_isNeedForceTermAuthByNumber mt)"

definition call_isForceOrigTarifficationSkip :: "BillingState \<Rightarrow> bool \<times> BillingState" where
  "call_isForceOrigTarifficationSkip s =
     (case bs_mega s of
        None \<Rightarrow> (False, s)
      | Some mt \<Rightarrow> (case isForceOrigTarifficationSkip (bs_repo s) mt of
                     (skip, mt') \<Rightarrow> (skip, s\<lparr> bs_mega := Some mt' \<rparr>)))"

definition trunk_prices :: step where
  "trunk_prices s =
     (if c_account_version (bs_call s) = 4 then
        run_steps ((if c_orig (bs_call s) then [setupPackagePricelist] else [])
          @ [setupPricelist 0, setupPrice 0, setupBilledTime]
          @ (if c_orig (bs_call s) then [setupPackagePrepaid] else [])
          @ [setupInterconnect, setupCost]) s
      else if c_account_version (bs_call s) = 5 then
        deref (ci_nnpPackage (bs_info s)) (\<lambda>pkg.
          run_steps [setupBilledTimeNNP pkg, setupNNPInterconnect, setupNNPCost] s)
      else Stop ''UNKNOW ACCOUNT VERSION'' s)"

definition calcByTrunk :: step where
  "calcByTrunk s =
     run_steps [if c_orig (bs_call s) then setupEffectiveOrigTrunkSettings else setupEffectiveTermTrunkSettings,
       setupServiceTrunk, setupAccount, trunk_prices] s"

definition tariff_or_package_price :: step where
  "tariff_or_package_price s =
     (if ci_servicePackagePricelist (bs_info s) = None then
        run_steps [setupTariff,
          (\<lambda>s. deref (ci_tariff (bs_info s)) (\<lambda>ta. setupPricelist (ta_pricelist_id ta) s)),
          (\<lambda>s. setupPrice (c_dst_number (bs_call s)) s)] s
      else run_steps [setupPricelist 0, setupPrice 0] s)"

definition calcOrigByNumber :: step where
  "calcOrigByNumber s =
     (if c_account_version (bs_call s) = 5 then calcOrigNNPByNumber s
      else if c_account_version (bs_call s) = 4 then
        run_steps [setupLogTariff, setupMainTariff, setupBilledTime, setupPackagePricelist,
          tariff_or_package_price, setupFreemin, setupPackagePrepaid, setupCost] s
      else Stop ''UNKNOW ACCOUNT VERSION'' s)"

definition negate_cost :: step where
  "negate_cost s = Next (upd_call (\<lambda>c. c\<lparr> c_cost := - c_cost c \<rparr>) s)"

definition tariffication_7800 :: step where
  "tariffication_7800 s =
     with_exc (isUsage7800 (bs_call s)) (\<lambda>is7800.
       if is7800 then
         run_steps [(\<lambda>s. deref (ci_mainTariff (bs_info s)) (\<lambda>ta. setupPricelist (ta_pricelist_id ta) s)),
           (\<lambda>s. setupPrice (c_src_number (bs_call s)) s), setupCost, negate_cost] s
       else Next s)"

definition calcTermByNumber :: step where
  "calcTermByNumber s = run_steps [setupLogTariff, setupMainTariff, setupBilledTime, tariffication_7800] s"

text \<open>Calls redirected to a service number are not priced, nor those that leave a collecting trunk
  for another region.\<close>

definition orig_unless_service :: "bool \<Rightarrow> step" where
  "orig_unless_service fTarifficationSkip s =
     (let dst_replace = cdr_dst_replace (bs_cdr s) in
      if dst_replace \<noteq> [] then
        deref (ci_server (bs_info s)) (\<lambda>sv.
          if dst_replace \<in> set (sv_service_numbers sv)
          then Next (upd_call (c_is_service_number_update (\<lambda>_. True)) s)
          else if fTarifficationSkip then Next s else calcOrigByNumber s)
      else if fTarifficationSkip then Next s else calcOrigByNumber s)"

definition line_without_number :: step where
  "line_without_number s =
     (if c_orig (bs_call s) \<and> atoll (cdr_redirect_number (bs_cdr s)) = 0
      then Next (upd_call (processLineWithoutNumber (cdr_src_number (bs_cdr s))) s) else Next s)"

definition calcByNumber :: "bool \<Rightarrow> step" where
  "calcByNumber fTarifficationSkip =
     run_steps [line_without_number, setupServiceNumber, setupServiceTrunkForNumber, setupAccount,
       (\<lambda>s. if c_orig (bs_call s) then orig_unless_service fTarifficationSkip s else calcTermByNumber s)]"

definition calc_scheme :: step where
  "calc_scheme s0 =
     (let s = upd_info (ci_callIncomingFromMegatrunk_update (\<lambda>_. isNeedForceCalcByNumber s0)) s0 in
      deref (ci_trunk (bs_info s)) (\<lambda>t.
        if tr_auth_by_number t \<or> ci_callIncomingFromMegatrunk (bs_info s)
        then (case call_isForceOrigTarifficationSkip s of (skip, s') \<Rightarrow> calcByNumber skip s')
        else calcByTrunk s))"

definition calc_steps :: step where
  "calc_steps s =
     run_steps ([setupTrunk, processSignalingCallId]
       @ (if c_orig (bs_call s) then [numberPreprocessing, processRedirectNumber] else [])
       @ [processGeo, processDestinations, processNNP, calc_scheme, setVatFlag]) s"

definition calc :: step where
  "calc s = catch_stop (calc_steps s)"

section \<open>What every leg satisfies\<close>

lemma keeps_setVatFlag [leg_keeps]: "leg_inv K s0 s \<Longrightarrow> keeps (leg_inv K s0) (setVatFlag s)"
  by (auto simp: setVatFlag_def Let_def same_leg_def intro!: leg_inv_upd_call split: option.splits)

lemma leg_inv_skip:
  "leg_inv K s0 s \<Longrightarrow> call_isForceOrigTarifficationSkip s = (skip, s') \<Longrightarrow> leg_inv K s0 s'"
  by (auto simp: call_isForceOrigTarifficationSkip_def split: option.splits prod.splits)

lemma keeps_tariff_or_package_price [leg_keeps]:
  "leg_inv K s0 s \<Longrightarrow> keeps (leg_inv K s0) (tariff_or_package_price s)"
  unfolding tariff_or_package_price_def
  by (auto simp del: run_steps.simps intro!: keeps_run_steps keeps_deref intro: leg_keeps)

lemma run_steps_single: "run_steps [g] = g"
  by (rule ext) simp

lemma run_steps_snoc: "run_steps (fs @ [g]) s = and_then (run_steps fs s) g"
  by (simp only: run_steps_append run_steps_single)

text \<open>From a fresh leg: prepare, compute the billed time, then take seconds from packages.\<close>

lemma keeps_billing_phases:
  assumes "leg_inv fresh s0 s"
    and "\<forall>f \<in> set fs. \<forall>s. leg_inv fresh s0 s \<longrightarrow> keeps (leg_inv fresh s0) (f s)"
    and "\<forall>g \<in> set gs. \<forall>s. leg_inv covered s0 s \<longrightarrow> keeps (leg_inv covered s0) (g s)"
  shows "keeps (leg_inv bounded_by s0) (run_steps (fs @ setupBilledTime # gs) s)"
proof -
  have gs: "keeps (leg_inv covered s0) (run_steps gs s1)" if "leg_inv covered s0 s1" for s1
    using that by (rule keeps_run_steps) (use assms(3) in blast)
  have "keeps (leg_inv covered s0) (run_steps (setupBilledTime # gs) s1)" if "leg_inv fresh s0 s1" for s1
    using keeps_seq [OF setupBilledTime_covered [OF that] _ gs] by simp
  then have "keeps (leg_inv bounded_by s0) (run_steps (setupBilledTime # gs) s1)" if "leg_inv fresh s0 s1" for s1
    using that by (blast intro: keeps_mono leg_inv_weaken(2))
  moreover have "keeps (leg_inv fresh s0) (run_steps fs s)"
    using assms(1) by (rule keeps_run_steps) (use assms(2) in blast)
  ultimately show ?thesis unfolding run_steps_append by (blast intro: keeps_seq leg_inv_weaken(1))
qed

lemma keeps_trunk_prices:
  assumes "leg_inv fresh s0 s"
  shows "keeps (leg_inv bounded_by s0) (trunk_prices s)"
proof -
  have v4: "keeps (leg_inv bounded_by s0) (run_steps ((if b then [setupPackagePricelist] else [])
      @ [setupPricelist 0, setupPrice 0, setupBilledTime] @ (if b then [setupPackagePrepaid] else []) @ [setupInterconnect, setupCost]) s)" for b
    using keeps_billing_phases [OF assms, of "(if b then [setupPackagePricelist] else []) @ [setupPricelist 0, setupPrice 0]"
        "(if b then [setupPackagePrepaid] else []) @ [setupInterconnect, setupCost]"]
    by (force simp del: run_steps.simps simp: leg_keeps keeps_setupPackagePrepaid split: if_splits)
  have v5: "keeps (leg_inv bounded_by s0) (run_steps [setupBilledTimeNNP pkg, setupNNPInterconnect, setupNNPCost] s)" for pkg
  proof (rule keeps_mono [OF keeps_run_steps [of "leg_inv fresh s0", OF assms]])
    show "\<And>f s. f \<in> set [setupBilledTimeNNP pkg, setupNNPInterconnect, setupNNPCost] \<Longrightarrow> leg_inv fresh s0 s
        \<Longrightarrow> keeps (leg_inv fresh s0) (f s)" by (auto simp: leg_keeps keeps_setupBilledTimeNNP)
  qed (rule leg_inv_weaken)
  show ?thesis using v4 leg_inv_weaken(1) [OF assms]
    by (auto simp del: run_steps.simps simp: trunk_prices_def intro!: keeps_deref v5)
qed

lemma keeps_calcByTrunk:
  assumes "leg_inv fresh s0 s"
  shows "keeps (leg_inv bounded_by s0) (calcByTrunk s)"
proof -
  let ?fs = "[if c_orig (bs_call s) then setupEffectiveOrigTrunkSettings else setupEffectiveTermTrunkSettings,
    setupServiceTrunk, setupAccount]"
  have "keeps (leg_inv fresh s0) (run_steps ?fs s)"
    using assms by (rule keeps_run_steps) (auto simp: leg_keeps)
  moreover have "calcByTrunk s = and_then (run_steps ?fs s) trunk_prices"
    unfolding calcByTrunk_def using run_steps_snoc [of ?fs trunk_prices s] by simp
  ultimately show ?thesis by (simp only:) (erule keeps_seq; simp add: leg_inv_weaken keeps_trunk_prices)
qed

lemma keeps_calcOrigByNumber:
  assumes "leg_inv fresh s0 s"
  shows "keeps (leg_inv bounded_by s0) (calcOrigByNumber s)"
  using keeps_billing_phases [OF assms, of "[setupLogTariff, setupMainTariff]"
      "[setupPackagePricelist, tariff_or_package_price, setupFreemin, setupPackagePrepaid, setupCost]"]
    keeps_calcOrigNNPByNumber [OF assms] leg_inv_weaken(1) [OF assms]
  by (auto simp del: run_steps.simps simp: calcOrigByNumber_def
      leg_keeps keeps_setupFreemin keeps_setupPackagePrepaid)

lemma keeps_negate_cost [leg_keeps]: "leg_inv K s0 s \<Longrightarrow> keeps (leg_inv K s0) (negate_cost s)"
  by (auto simp: negate_cost_def same_leg_def intro!: leg_inv_upd_call)

lemma keeps_tariffication_7800 [leg_keeps]: "leg_inv K s0 s \<Longrightarrow> keeps (leg_inv K s0) (tariffication_7800 s)"
  unfolding tariffication_7800_def
  by (auto simp del: run_steps.simps simp: leg_keeps intro!: keeps_with_exc keeps_run_steps keeps_deref)

lemma keeps_calcTermByNumber:
  assumes "leg_inv fresh s0 s"
  shows "keeps (leg_inv bounded_by s0) (calcTermByNumber s)"
  using keeps_billing_phases [OF assms, of "[setupLogTariff, setupMainTariff]" "[tariffication_7800]"]
  by (auto simp del: run_steps.simps simp: calcTermByNumber_def leg_keeps)

lemma keeps_orig_unless_service:
  assumes "leg_inv fresh s0 s"
  shows "keeps (leg_inv bounded_by s0) (orig_unless_service skip s)"
  using leg_inv_weaken(1) [OF assms] keeps_calcOrigByNumber [OF assms]
  by (auto simp: orig_unless_service_def Let_def same_leg_def intro!: keeps_deref leg_inv_upd_call)

lemma keeps_line_without_number [leg_keeps]: "leg_inv K s0 s \<Longrightarrow> keeps (leg_inv K s0) (line_without_number s)"
  by (auto simp: line_without_number_def processLineWithoutNumber_def same_leg_def intro!: leg_inv_upd_call)

lemma keeps_calcByNumber:
  assumes "leg_inv fresh s0 s"
  shows "keeps (leg_inv bounded_by s0) (calcByNumber skip s)"
proof -
  let ?fs = "[line_without_number, setupServiceNumber, setupServiceTrunkForNumber, setupAccount]"
  let ?g = "\<lambda>s. if c_orig (bs_call s) then orig_unless_service skip s else calcTermByNumber s"
  have "keeps (leg_inv fresh s0) (run_steps ?fs s)"
    using assms by (rule keeps_run_steps) (auto simp: leg_keeps)
  moreover have "calcByNumber skip s = and_then (run_steps ?fs s) ?g"
    unfolding calcByNumber_def using run_steps_snoc [of ?fs ?g s] by simp
  moreover have "keeps (leg_inv bounded_by s0) (?g s)" if "leg_inv fresh s0 s" for s
    using keeps_orig_unless_service [OF that] keeps_calcTermByNumber [OF that] by simp
  ultimately show ?thesis by (simp only:) (erule keeps_seq; simp add: leg_inv_weaken)
qed

lemma keeps_calc_scheme:
  assumes "leg_inv fresh s0 s"
  shows "keeps (leg_inv bounded_by s0) (calc_scheme s)"
proof -
  have "leg_inv fresh s0 s'" if "call_isForceOrigTarifficationSkip (upd_info g s) = (skip, s')" for g skip s'
    using leg_inv_skip [OF _ that] assms by simp
  then show ?thesis using assms
    by (auto simp: calc_scheme_def Let_def intro!: keeps_deref keeps_calcByTrunk keeps_calcByNumber split: prod.splits)
qed

lemma keeps_calc:
  assumes "leg_inv fresh s0 s"
  shows "keeps (leg_inv bounded_by s0) (calc s)"
proof -
  let ?fs = "[setupTrunk, processSignalingCallId]
    @ (if c_orig (bs_call s) then [numberPreprocessing, processRedirectNumber] else [])
    @ [processGeo, processDestinations, processNNP]"
  have 1: "keeps (leg_inv fresh s0) (run_steps ?fs s)"
    using assms by (rule keeps_run_steps) (auto simp: leg_keeps split: if_splits)
  have 2: "keeps (leg_inv bounded_by s0) (run_steps [calc_scheme, setVatFlag] s1)" if "leg_inv fresh s0 s1" for s1
    using keeps_seq [OF keeps_calc_scheme [OF that]] keeps_setVatFlag by simp
  have "calc_steps s = and_then (run_steps ?fs s) (run_steps [calc_scheme, setVatFlag])"
    by (simp only: calc_steps_def run_steps_append [symmetric]) simp
  then show ?thesis unfolding calc_def keeps_catch_stop
    by (simp only:) (rule keeps_seq [OF 1]; simp add: leg_inv_weaken 2 del: run_steps.simps)
qed

section \<open>Exact split of the cost\<close>

lemma call_cost_split:
  assumes "0 \<le> c_package_time c" and "c_package_time c \<le> max 0 (c_billed_time c)"
  shows "c_cost (call_cost c) + c_package_credit (call_cost c) =
    (if c_orig c then -1 else 1) * (real_of_int (max 0 (c_billed_time c)) * c_rate c / 60)"
proof (cases "0 < c_billed_time c")
  case True
  with assms show ?thesis
    by (cases "c_package_time c = c_billed_time c") (auto simp: call_cost_def Let_def field_simps)
qed (use assms in \<open>auto simp: call_cost_def Let_def max_def\<close>)

text \<open>What a leg costs is what its billed seconds cost at its rate; the part covered by a package is
  credited instead of charged.\<close>

definition exact_split :: "Call \<Rightarrow> bool" where
  "exact_split c \<longleftrightarrow> c_cost c + c_package_credit c =
     (if c_orig c then -1 else 1) * (real_of_int (max 0 (c_billed_time c)) * c_rate c / 60)"

lemma call_cost_fields [simp]:
  "c_orig (call_cost c) = c_orig c" "c_billed_time (call_cost c) = c_billed_time c" "c_rate (call_cost c) = c_rate c"
  "c_package_time (call_cost c) = c_package_time c"
  by (simp_all add: call_cost_def Let_def)

lemma exact_split_call_cost:
  "0 \<le> c_package_time c \<Longrightarrow> c_package_time c \<le> max 0 (c_billed_time c) \<Longrightarrow> exact_split (call_cost c)"
  by (simp add: exact_split_def call_cost_split)

text \<open>A sequence that ends with the cost and keeps the bounds before it.\<close>

lemma ends_with_cost:
  assumes "run_steps (fs @ [setupCost]) s = Next s'" and "keeps (leg_inv K s0) (run_steps fs s)"
    and "\<And>pt bt. K pt bt \<Longrightarrow> 0 \<le> pt \<and> pt \<le> max 0 bt"
  shows "exact_split (bs_call s') \<and> c_orig (bs_call s') = c_orig (bs_call s0)"
proof (cases "run_steps fs s")
  case (Next s1)
  with assms(1) have s': "s' = upd_call call_cost s1" by (simp add: run_steps_snoc setupCost_def)
  have inv: "leg_inv K s0 s1" using assms(2) Next by simp
  show ?thesis using exact_split_call_cost assms(3) [OF leg_inv_times [OF inv]] inv
    by (simp add: s' leg_inv_def same_leg_def)
qed (use assms(1) in \<open>simp_all add: run_steps_snoc\<close>)


lemma setupNNPCost_is_setupCost: "setupNNPCost = setupCost"
  by (rule ext) (rule setupNNPCost_eq)

lemma nnp_minutes_split:
  assumes "leg_inv fresh s0 s" and "run_steps [nnp_billed_time i, apply_minutes atls minutes, setupNNPCost] s = Next s'"
  shows "exact_split (bs_call s')"
proof -
  have "keeps (leg_inv bounded_by s0) (run_steps [nnp_billed_time i, apply_minutes atls minutes] s)"
    unfolding run_steps.simps and_then_done
    by (rule keeps_seq [OF keeps_nnp_billed_time [OF assms(1)]]) (simp_all add: leg_inv_weaken keeps_apply_minutes)
  from ends_with_cost [OF _ this, of s'] assms(2) show ?thesis
    by (simp add: setupNNPCost_is_setupCost del: run_steps.simps)
qed

lemma nnp_plain_split:
  assumes "leg_inv fresh s0 s" and "run_steps [nnp_billed_time i, setupNNPCost] s = Next s'"
  shows "exact_split (bs_call s')"
proof -
  have "keeps (leg_inv fresh s0) (run_steps [nnp_billed_time i] s)"
    using keeps_nnp_billed_time [OF assms(1)] by simp
  from ends_with_cost [OF _ this, of s'] assms(2) show ?thesis
    by (simp add: setupNNPCost_is_setupCost del: run_steps.simps)
qed

lemma calcOrigNNPByNumber_split:
  assumes inv: "leg_inv fresh s0 s" and "calcOrigNNPByNumber s = Next s'"
  shows "exact_split (bs_call s')"
proof -
  obtain sn where sn: "ci_serviceNumber (bs_info s) = Some sn"
    using assms(2) by (auto simp: calcOrigNNPByNumber_def split: option.splits)
  define atls where "atls = getActiveNNPAccountTariffLight (bs_repo s) (c_account_id (bs_call s)) (c_connect_time (bs_call s)) (sn_id sn)"
  define ids where "ids = getNNPDestinationByNumberRange (bs_repo s) (getNNPNumberRange (bs_repo s) (c_dst_number (bs_call s)))"
  define s2 where "s2 s1 = upd_call (\<lambda>c. (choose_rate (setupNNPPackagePrice (bs_repo s) atls ids)
    (setupNNPPackagePricelist (bs_repo s) atls (c_dst_number (bs_call s))) c)\<lparr> c_package_time := 0 \<rparr>) s1" for s1
  have "atls \<noteq> []" using assms(2) sn by (auto simp: calcOrigNNPByNumber_def atls_def Let_def)
  then have "with_exc (setupNNPPackageMinute atls ids s) (\<lambda>(minutes, s1). if nm_id (snd minutes) \<noteq> 0
      then run_steps [nnp_billed_time (nm_nnp_tariff_id (snd minutes)), apply_minutes atls minutes, setupNNPCost] (s2 s1)
      else run_steps [nnp_billed_time (c_nnp_package_id (bs_call (s2 s1))), setupNNPCost] (s2 s1)) = Next s'"
    using assms(2) sn by (simp only: calcOrigNNPByNumber_def Let_def atls_def ids_def s2_def option.case if_False)
  then obtain minutes s1 where m: "setupNNPPackageMinute atls ids s = Val (minutes, s1)"
    "(if nm_id (snd minutes) \<noteq> 0
      then run_steps [nnp_billed_time (nm_nnp_tariff_id (snd minutes)), apply_minutes atls minutes, setupNNPCost] (s2 s1)
      else run_steps [nnp_billed_time (c_nnp_package_id (bs_call (s2 s1))), setupNNPCost] (s2 s1)) = Next s'"
    unfolding with_exc_Next by (auto simp del: run_steps.simps split: prod.splits)
  have "leg_inv fresh s0 s1"
    using m(1) package_minute_loop_inv [OF _ inv] by (auto simp: setupNNPPackageMinute_def)
  then have "leg_inv fresh s0 (s2 s1)"
    unfolding s2_def by (intro leg_inv_new_times [where K = fresh]) (simp_all add: same_leg_choose_rate)
  with m(2) show ?thesis using nnp_minutes_split nnp_plain_split by (simp split: if_splits del: run_steps.simps)
qed

lemma calcOrigByNumber_split:
  assumes inv: "leg_inv fresh s0 s" and "calcOrigByNumber s = Next s'"
  shows "exact_split (bs_call s')"
proof (cases "c_account_version (bs_call s) = 5")
  case True
  with assms show ?thesis by (simp add: calcOrigByNumber_def calcOrigNNPByNumber_split)
next
  case False
  let ?fs = "[setupLogTariff, setupMainTariff] @ setupBilledTime # [setupPackagePricelist, tariff_or_package_price,
    setupFreemin, setupPackagePrepaid]"
  have "run_steps (?fs @ [setupCost]) s = Next s'"
    using assms(2) False by (simp add: calcOrigByNumber_def del: run_steps.simps split: if_splits)
  moreover have "keeps (leg_inv bounded_by s0) (run_steps ?fs s)"
    by (rule keeps_billing_phases [OF inv]) (simp_all add: leg_keeps keeps_setupFreemin keeps_setupPackagePrepaid)
  ultimately show ?thesis using ends_with_cost by blast
qed

lemma trunk_prices_split:
  assumes inv: "leg_inv fresh s0 s" and "trunk_prices s = Next s'"
  shows "exact_split (bs_call s')"
proof -
  let ?b = "c_orig (bs_call s)"
  let ?fs = "((if ?b then [setupPackagePricelist] else []) @ [setupPricelist 0, setupPrice 0]) @ setupBilledTime #
    ((if ?b then [setupPackagePrepaid] else []) @ [setupInterconnect])"
  have v4: "exact_split (bs_call s')" if "run_steps (?fs @ [setupCost]) s = Next s'"
  proof -
    have "keeps (leg_inv bounded_by s0) (run_steps ?fs s)"
      by (rule keeps_billing_phases [OF inv]) (simp_all add: leg_keeps keeps_setupPackagePrepaid)
    with that ends_with_cost show ?thesis by blast
  qed
  have v5: "exact_split (bs_call s')" if "run_steps ([setupBilledTimeNNP pkg, setupNNPInterconnect] @ [setupCost]) s = Next s'" for pkg
  proof -
    have "keeps (leg_inv fresh s0) (run_steps [setupBilledTimeNNP pkg, setupNNPInterconnect] s)"
      using inv by (rule keeps_run_steps) (auto simp: leg_keeps keeps_setupBilledTimeNNP)
    from ends_with_cost [OF that this] show ?thesis by simp
  qed
  show ?thesis using assms(2) v4 v5
    by (auto simp: trunk_prices_def deref_Next setupNNPCost_is_setupCost simp del: run_steps.simps split: if_splits)
qed

lemma calcByTrunk_split:
  assumes inv: "leg_inv fresh s0 s" and "calcByTrunk s = Next s'"
  shows "exact_split (bs_call s')"
proof -
  let ?fs = "[if c_orig (bs_call s) then setupEffectiveOrigTrunkSettings else setupEffectiveTermTrunkSettings,
    setupServiceTrunk, setupAccount]"
  have k: "keeps (leg_inv fresh s0) (run_steps ?fs s)"
    using inv by (rule keeps_run_steps) (auto simp: leg_keeps)
  have "and_then (run_steps ?fs s) trunk_prices = Next s'"
    using assms(2) run_steps_snoc [of ?fs trunk_prices s] by (simp add: calcByTrunk_def del: run_steps.simps)
  then obtain s1 where "run_steps ?fs s = Next s1" "trunk_prices s1 = Next s'" by (cases "run_steps ?fs s") auto
  with k show ?thesis using trunk_prices_split by (metis keeps.simps(1))
qed

end
