(* ===== verification/Billing_Properties.thy ===== *)
theory Billing_Properties
  imports Sample_Data Billing_Call
begin

text \<open>
  The properties of the pricing of a leg, from single statements to \<open>BillingCall::calc\<close>, with their
  witnesses.
\<close>

section \<open>States for the witnesses\<close>

definition sample_state :: BillingState where
  "sample_state = \<lparr> bs_repo = empty_repo, bs_call = sample_call, bs_info = CallInfo_new, bs_cdr = sample_cdr,
     bs_origRegion = 1, bs_mega = None, bs_freemin = mg_new, bs_package = mg_new, bs_trunkSettings = mg_new,
     bs_minute = mg_new, bs_currentMinute = None, bs_globalMinute = None \<rparr>"

lemma sample_state_ok: "counters_ok sample_state"
  by (simp add: counters_ok_def sample_state_def freemin.wf_new package.wf_new trunk_settings.wf_new package_minute.wf_new)

definition sample_service_number :: ServiceNumber where
  "sample_service_number = \<lparr> sn_id = 5, sn_server_id = 1, sn_client_account_id = 10, sn_did = ''74951111111'',
     sn_lines_count = 1, sn_activation_dt = 0, sn_expire_dt = 5000, sn_tech_number = [], sn_tech_number_operator_id = 0,
     sn_is_local = True \<rparr>"

definition sample_service_trunk :: ServiceTrunk where
  "sample_service_trunk = \<lparr> st_id = 8, st_server_id = 1, st_client_account_id = 10, st_trunk_id = 2, st_activation_dt = 0,
     st_expire_dt = 5000, st_orig_enabled = True, st_term_enabled = True, st_orig_min_payment = 0, st_term_min_payment = 0 \<rparr>"

definition sample_tariff :: Tariff where
  "sample_tariff = \<lparr> ta_id = 7, ta_freemin = 1, ta_freemin_for_number = True, ta_pricelist_id = 1, ta_paid_redirect = False,
     ta_tariffication_by_minutes = True, ta_tariffication_full_first_minute = False,
     ta_tariffication_free_first_seconds = False \<rparr>"

definition sample_trunk :: Trunk where
  "sample_trunk = \<lparr> tr_id = 2, tr_server_id = 1, tr_name = ''Alpha'', tr_trunk_name = ''alpha'', tr_code = 0,
     tr_source_rule_default_allowed = True, tr_destination_rule_default_allowed = True,
     tr_source_trunk_rule_default_allowed = True, tr_default_priority = 0, tr_auto_routing = True, tr_route_table_id = 0,
     tr_our_trunk = False, tr_auth_by_number = False, tr_orig_redirect_number_7800 = False, tr_orig_redirect_number = False,
     tr_term_redirect_number = False, tr_sw_minimalki = False, tr_sw_shared = False, tr_tech_trunk = False,
     tr_pstn_trunk = False, tr_capacity = 0, tr_load_warning = 0, tr_road_to_regions = [] \<rparr>"

definition sample_package :: NNPPackage where
  "sample_package = \<lparr> nk_id = 6, nk_service_type_id = 0, nk_tarification_free_seconds = 0,
     nk_tarification_interval_seconds = 60, nk_tarification_type = 2, nk_tarification_min_paid_seconds = 0,
     nk_currency_id = ''RUB'', nk_is_include_vat = False \<rparr>"

definition number_state :: BillingState where
  "number_state = sample_state\<lparr> bs_info := CallInfo_new\<lparr> ci_serviceNumber := Some sample_service_number \<rparr>,
     bs_repo := empty_repo\<lparr> rp_tariffChangeLog := [(sample_log 0 7)\<lparr> tc_usage_id := 5, tc_expire_dt := 9000 \<rparr>],
       rp_tariff := [sample_tariff], rp_pricelist := [sample_pricelist 1], rp_pricelistPrice := [sample_price ''7'' 120], rp_currentTime := 50 \<rparr>,
     bs_call := sample_call\<lparr> c_destination_id := 2, c_dst_number := 7 \<rparr> \<rparr>"

definition trunk_state :: BillingState where
  "trunk_state = sample_state\<lparr> bs_info := CallInfo_new\<lparr> ci_trunk := Some sample_trunk,
       ci_serviceTrunk := Some sample_service_trunk, ci_nnpPackage := Some sample_package \<rparr>,
     bs_repo := empty_repo\<lparr> rp_client := [sample_account\<lparr> cl_account_version := 5 \<rparr>] \<rparr>,
     bs_call := sample_call\<lparr> c_rate := 3 \<rparr> \<rparr>"

lemmas lookups = equal_range_def equal_range_by_def upto_bound_def partition_point_def bound_loop.simps at_time_def

lemma sample_number_price: "\<exists>p. PricelistPriceList_find [sample_price ''7'' 120] 1 7 50 = Some p"
proof -
  have "prices.ordered [sample_price ''7'' 120]"
    by (auto simp: prices.ordered_def sorted_by2_def sample_price_def consecutive_def)
  moreover have "lld 7 = ''7''" by (simp add: lld_def dec_digits.simps digit_char_def)
  ultimately show ?thesis by (intro prices.find_total [of _ "sample_price ''7'' 120"]) (simp_all add: sample_price_def)
qed

lemma number_state_priced: "\<exists>s'. calcOrigByNumber number_state = Next s'"
proof -
  obtain p where "PricelistPriceList_find [sample_price ''7'' 120] 1 7 50 = Some p" using sample_number_price by blast
  then show ?thesis
    by (simp add: calcOrigByNumber_def number_state_def sample_state_def sample_call_def Call_new_def CallInfo_new_def
    setupLogTariff_def getTariffLog_def TariffChangeLogList_find_def lookups empty_repo_def sample_log_def sample_service_number_def
    setupMainTariff_def getTariff_def TariffList_find_def sample_tariff_def setupBilledTime_def setupPackagePricelist_def
    leg_packages_def getAllServiceNumberPackage_def ServiceNumberPackageList_findAll_def tariff_or_package_price_def
    setupTariff_def tariff_for_def call_class_defs setupPricelist_def getPricelist_def PricelistList_find_def sample_pricelist_def
    setupFreemin_def setupPackagePrepaid_def setupCost_def setupPrice_def Let_def set_price_def repo_getPrice_def)
qed

lemma trunk_state_priced: "\<exists>s'. calcByTrunk trunk_state = Next s'"
  by (simp add: calcByTrunk_def setupEffectiveOrigTrunkSettings_def trunk_state_def sample_state_def sample_call_def Call_new_def
   getTrunkSettingsOrderList_def getAllServiceTrunk_def ServiceTrunkList_findAll_def empty_repo_def lookups
   orderOrigTrunkSettingsOrderList_def std_sort_def setupServiceTrunk_def setupAccount_def CallInfo_new_def getAccount_def ClientList_find_def
   sample_account_def sample_service_trunk_def trunk_prices_def setupBilledTimeNNP_def setupNNPInterconnect_def setupNNPCost_def Let_def make_dt_def)

definition freemin_state :: BillingState where
  "freemin_state = sample_state\<lparr> bs_info := CallInfo_new\<lparr> ci_serviceNumber := Some sample_service_number,
       ci_mainTariff := Some sample_tariff, ci_dt := Some \<lparr> dt_day = 0, dt_month = 0 \<rparr> \<rparr>,
     bs_call := sample_call\<lparr> c_billed_time := 120 \<rparr>, bs_freemin := sample_freemin_mgr \<rparr>"

lemma freemin_state_step:
  "\<exists>s'. setupFreemin freemin_state = Next s' \<and> c_service_package_id (bs_call s') = 1 \<and>
     c_service_package_stats_id (bs_call s') = 1 \<and> c_package_time (bs_call s') = 30"
  by (simp add: setupFreemin_def freemin_state_def sample_state_def sample_call_def Call_new_def call_class_defs
      CallInfo_new_def sample_tariff_def sample_service_number_def tariff_free_seconds_def clamp_to_def Let_def
      StatsFreemin_getCurrent_def mg_getCurrent_def sample_freemin_mgr_def StatsFreemin_load_def mg_load_def mg_new_def
      push_id_def ids_of_key_def sample_freemin_def)

definition sample_service_package :: ServicePackage where
  "sample_service_package = \<lparr> sp_id = 3, sp_service_number_id = 5, sp_service_trunk_id = 0, sp_activation_dt = 0,
     sp_expire_dt = 5000, sp_tariff_package_id = 9, sp_periodical = False \<rparr>"

definition sample_package_stats :: StatsPackage where
  "sample_package_stats = \<lparr> sk_id = 1, sk_package_id = 3, sk_activation_dt = 0, sk_expire_dt = 5000, sk_used_seconds = 540,
     sk_used_credit = 0, sk_paid_seconds = 600, sk_min_call_id = 0, sk_max_call_id = 0 \<rparr>"

definition sample_package_mgr :: StatsPackageManager where
  "sample_package_mgr = StatsPackage_load 1 [sample_package_stats] mg_new"

definition sample_everywhere :: StatPrefixlist where
  "sample_everywhere = \<lparr> sl_id = 4, sl_type_id = 3, sl_prefixes = [], sl_sub_type = 0, sl_country_id = 0, sl_region_id = 0,
     sl_city_id = 0, sl_exclude_operators = False, sl_operators = [], sl_str_prefixes = [], sl_str_operators = [] \<rparr>"

definition prepaid_state :: BillingState where
  "prepaid_state = sample_state\<lparr> bs_info := CallInfo_new\<lparr> ci_serviceNumber := Some sample_service_number,
       ci_account := Some sample_account \<rparr>,
     bs_repo := empty_repo\<lparr> rp_serviceNumberPackage := [sample_service_package],
       rp_tariffPackage := [\<lparr> tp_id = 9, tp_destination_id = 2, tp_prepaid_minutes = 10, tp_pricelist_id = 0 \<rparr>],
       rp_statDestinationPrefixlists := [\<lparr> sd_destination_id = 2, sd_prefixlist_id = 4 \<rparr>],
       rp_statPrefixlist := [sample_everywhere] \<rparr>,
     bs_call := sample_call\<lparr> c_billed_time := 120 \<rparr>, bs_package := sample_package_mgr \<rparr>"

lemma sample_package_mgr_wf: "package.wf sample_package_mgr"
  by (auto simp: package.wf_def package.newest_def sample_package_mgr_def StatsPackage_load_def mg_load_def
      push_id_def ids_of_key_def mg_new_def sample_package_stats_def)

lemma prepaid_state_step:
  "\<exists>s'. setupPackagePrepaid prepaid_state = Next s' \<and> c_service_package_id (bs_call s') = 3 \<and>
     c_service_package_stats_id (bs_call s') = 1 \<and> c_package_time (bs_call s') = 60"
  by (simp add: setupPackagePrepaid_def prepaid_state_def sample_state_def sample_call_def Call_new_def 
      CallInfo_new_def leg_packages_def getAllServiceNumberPackage_def ServiceNumberPackageList_findAll_def lookups Let_def
      sample_service_package_def sample_service_number_def empty_repo_def getTariffPackage_def TariffPackageList_find_def
      matchTariffPackageDestination_def getAllStatPrefixlistIdsByStatDestinationId_def StatDestinationPrefixlistsList_findAll_def
      getStatPrefixlist_def StatPrefixlistList_find_def sample_everywhere_def match_roslink_def sample_cdr_def Cdr_new_def
      StatsPackage_getCurrent_def mg_getCurrent_def sample_package_mgr_def StatsPackage_load_def mg_load_def mg_new_def
      push_id_def ids_of_key_def sample_package_stats_def)

lemma sample_no_trunk:
  "getTrunkByName (bs_repo sample_state) (getRoute (bs_call sample_state) (bs_cdr sample_state)) (bs_origRegion sample_state) = None"
  by (simp add: sample_state_def getTrunkByName_def empty_repo_def TrunkByNameList_find_def TrunkByAliasList_find_def
      equal_range_def equal_range_by_def Let_def)

section \<open>The whole leg\<close>

text \<open>C1: Whatever the tables hold and wherever the pricing stops, \<open>calc\<close> lets no \<open>CalcException\<close> out, keeps
  the counters well formed and the identity of the leg unchanged, and leaves at most the billed seconds
  on a package.\<close>

theorem calc_keeps_leg:
  assumes "counters_ok s" and "c_package_time (bs_call s) = 0"
  shows "(\<forall>e s'. calc s \<noteq> Stop e s') \<and>
    (\<forall>s'. calc s = Next s' \<longrightarrow> counters_ok s' \<and> same_leg (bs_call s) (bs_call s') \<and> bs_cdr s' = bs_cdr s \<and>
       0 \<le> c_package_time (bs_call s') \<and> c_package_time (bs_call s') \<le> max 0 (c_billed_time (bs_call s')))"
proof -
  have "keeps (leg_inv bounded_by s) (calc s)"
    using assms by (intro keeps_calc leg_inv_refl) simp_all
  moreover have "calc s \<noteq> Stop e s'" for e s' by (cases "calc_steps s") (simp_all add: calc_def)
  ultimately show ?thesis by (auto simp: leg_inv_def)
qed

theorem calc_keeps_leg_witness:
  "\<exists>s'. calc sample_state = Next s' \<and> same_leg sample_call (bs_call s')"
proof -
  obtain s' where "calc sample_state = Next s'"
    using sample_no_trunk by (auto simp: calc_def calc_steps_def setupTrunk_def)
  moreover have "c_package_time (bs_call sample_state) = 0" by (simp add: sample_state_def sample_call_def Call_new_def)
  note calc_keeps_leg [OF sample_state_ok this]
  ultimately show ?thesis by (simp add: sample_state_def)
qed

text \<open>A leg whose trunk is not in the tables is left unpriced: only the trunk and the server of the
  instance are recorded.\<close>

theorem calc_unknown_trunk:
  assumes "getTrunkByName (bs_repo s) (getRoute (bs_call s) (bs_cdr s)) (bs_origRegion s) = None"
  shows "calc s = Next (upd_call (c_server_id_update (\<lambda>_. cf_instance_id (rp_conf (bs_repo s))))
    (upd_info (ci_trunk_update (\<lambda>_. None)) s))"
  using assms by (simp add: calc_def calc_steps_def setupTrunk_def)

theorem calc_unknown_trunk_witness:
  "\<exists>s'. calc sample_state = Next s' \<and> c_cost (bs_call s') = 0 \<and> c_server_id (bs_call s') = 1"
  using calc_unknown_trunk [OF sample_no_trunk]
  by (simp add: sample_state_def sample_call_def Call_new_def empty_repo_def)

text \<open>C24: The cost of an originating leg priced by number, charged and credited, is exactly its billed
  time at its rate, for both kinds of accounts.\<close>

theorem orig_by_number_cost_split:
  assumes "calcOrigByNumber s = Next s'" and "counters_ok s" and "c_package_time (bs_call s) = 0"
  shows "exact_split (bs_call s')"
  using calcOrigByNumber_split [OF leg_inv_refl [of s fresh]] assms by simp

theorem orig_by_number_cost_split_witness:
  "\<exists>s'. calcOrigByNumber number_state = Next s' \<and> exact_split (bs_call s')"
proof -
  obtain s' where s': "calcOrigByNumber number_state = Next s'" using number_state_priced by blast
  have "counters_ok number_state" "c_package_time (bs_call number_state) = 0"
    using sample_state_ok by (simp_all add: counters_ok_def number_state_def sample_call_def Call_new_def)
  from orig_by_number_cost_split [OF s' this] s' show ?thesis by blast
qed

text \<open>C25: The cost of a leg priced by trunk, charged and credited, is exactly its billed time at its
  rate: negative for an originating leg, positive for a terminating one.\<close>

theorem by_trunk_cost_split:
  assumes "calcByTrunk s = Next s'" and "counters_ok s" and "c_package_time (bs_call s) = 0"
  shows "exact_split (bs_call s')"
  using calcByTrunk_split [OF leg_inv_refl [of s fresh]] assms by simp

theorem by_trunk_cost_split_witness:
  "\<exists>s'. calcByTrunk trunk_state = Next s' \<and> exact_split (bs_call s')"
proof -
  obtain s' where s': "calcByTrunk trunk_state = Next s'" using trunk_state_priced by blast
  have "counters_ok trunk_state" "c_package_time (bs_call trunk_state) = 0"
    using sample_state_ok by (simp_all add: counters_ok_def trunk_state_def sample_call_def Call_new_def)
  from by_trunk_cost_split [OF s' this] s' show ?thesis by blast
qed

section \<open>Single statements\<close>

text \<open>A line without a number is recognised by its mark, and an ordinary number is read as it is:
  whatever digits stand before the mark \<open>=2A\<close>, \<open>=2B\<close>, \<open>*\<close> or \<open>+\<close>, the number read is the one after it.\<close>

theorem line_number_roundtrip:
  assumes "\<forall>c \<in> set d. is_digit c" and "0 \<le> n" and "n < 2 ^ 63"
  shows "line_number (d @ ''=2A'' @ lld n) = n \<and> line_number (d @ ''=2B'' @ lld n) = n \<and>
    line_number (d @ ''*'' @ lld n) = n \<and> line_number (d @ ''+'' @ lld n) = n \<and> line_number (lld n) = n"
proof -
  have n: "\<forall>c \<in> set (lld n). is_digit c" using assms(2) lld_no_mark by blast
  note no = digits_no_mark [OF assms(1)] digits_no_mark [OF n]
  have v: "atoll (lld n) = n" using assms(2,3) by (simp add: atoll_lld)
  have none: "strstr s (CHR ''='' # t) = None" if "CHR ''='' \<notin> set s" for s t using that by (simp add: strstr_None)
  have A: "strstr (d @ ''=2A'' @ lld n) ''=2A'' = Some (''=2A'' @ lld n)" using no by (intro strstr_after) auto
  have B: "strstr (d @ ''=2B'' @ lld n) ''=2B'' = Some (''=2B'' @ lld n)" using no by (intro strstr_after) auto
  have B0: "strstr (d @ ''=2B'' @ lld n) ''=2A'' = None"
  proof -
    have "strstr (''=2B'' @ lld n) ''=2A'' = strstr (''2B'' @ lld n) ''=2A''" by (subst strstr.simps) simp
    also have "\<dots> = None" using no by (intro strstr_None) auto
    finally show ?thesis using no by (subst strstr_skip) auto
  qed
  have S: "strstr (d @ ''*'' @ lld n) ''*'' = Some (''*'' @ lld n)" using no by (intro strstr_after) auto
  have P: "strstr (d @ ''+'' @ lld n) ''+'' = Some (''+'' @ lld n)" using no by (intro strstr_after) auto
  have P0: "strstr (d @ ''+'' @ lld n) ''*'' = None" using no by (intro strstr_None) auto
  have D: "strstr (lld n) ''*'' = None" "strstr (lld n) ''+'' = None" using no by (auto intro!: strstr_None)
  show ?thesis unfolding line_number_def using A B B0 S P P0 D v no by (simp add: none)
qed

theorem line_number_roundtrip_witness: "line_number (''74996850009'' @ ''=2A'' @ lld 4026) = 4026"
  using line_number_roundtrip [of "''74996850009''" 4026] by (simp add: is_digit_def)

text \<open>Number preprocessing puts the digits of the rule's prefix in front of the number and stays
  inside its buffer and the range of the type, for numbers of at most 18 digits with the prefix.\<close>

theorem prefixed_number_value:
  assumes "\<forall>c \<in> set pfx. is_digit c" and "0 \<le> n" and "length (pfx @ lld n) \<le> 18"
  shows "prefixed_number pfx n = Val (int (digits_value pfx) * 10 ^ length (lld n) + n)"
proof -
  have dig: "\<forall>c \<in> set (pfx @ lld n). is_digit c" using assms(1,2) lld_no_mark by auto
  have bound: "digits_value s < 10 ^ length s" if "\<forall>c \<in> set s. is_digit c" for s
    using that
  proof (induction s rule: rev_induct)
    case (snoc c s)
    then have "digit_val c \<le> 9" "digits_value s < 10 ^ length s" by (simp_all add: digit_val_le)
    then show ?case by (simp add: digits_value_snoc)
  qed (simp add: digits_value_def)
  have "digits_value (pfx @ lld n) < 10 ^ length (pfx @ lld n)" using bound [OF dig] .
  also have "\<dots> \<le> 10 ^ 18" using assms(3) by (intro power_increasing) auto
  finally have "clamp64 (int (digits_value (pfx @ lld n))) = int (digits_value (pfx @ lld n))"
    by (simp add: clamp64_def)
  moreover have "digits_value (lld n) = nat n" using assms(2) by (simp add: lld_def)
  ultimately have "clamp64 (int (digits_value (pfx @ lld n))) = int (digits_value pfx) * 10 ^ length (lld n) + n"
    using assms(2) by (simp only: digits_value_append) simp
  then show ?thesis using assms(3) by (simp add: prefixed_number_def atoll_digits [OF dig])
qed

theorem prefixed_number_value_witness: "prefixed_number ''7'' 4951234567 = Val 74951234567"
proof -
  have l: "lld 4951234567 = ''4951234567''" by (simp add: lld_def dec_digits.simps digit_char_def)
  show ?thesis using prefixed_number_value [of "''7''" 4951234567]
    by (simp add: is_digit_def l digits_value_def digit_val_def)
qed

text \<open>C31: The billed time is zero for an empty call or one within the free seconds; by minutes it is the
  call rounded up to the next multiple of 60; otherwise the seconds, at least 60 with a full first minute.\<close>

theorem getCallLength_reference:
  "getCallLength conf len byMinutes fullFirstMinute freeFirstMinutes =
     (if len \<le> 0 \<or> freeFirstMinutes \<and> len \<le> cf_billing_free_seconds conf then 0
      else if byMinutes then 60 * ((len + 59) div 60)
      else if fullFirstMinute then max 60 len else len)"
proof -
  have "(if len mod 60 = 0 then len else len + 60 - len mod 60) = 60 * ((len + 59) div 60)"
  proof (cases "len mod 60 = 0")
    case True
    have "(len + 59) div 60 = len div 60" by (rule int_div_pos_eq [where r = 59]) (use True in \<open>auto simp: minus_mod_eq_mult_div [symmetric]\<close>)
    with True show ?thesis by auto
  next
    case False
    have "len mod 60 \<ge> 0" "len mod 60 < 60" by simp_all
    with False have "(len + 59) div 60 = len div 60 + 1"
      by (intro int_div_pos_eq [where r = "len mod 60 - 1"]) (auto simp: algebra_simps)
    with False show ?thesis by (simp add: minus_mod_eq_mult_div [symmetric] algebra_simps)
  qed
  then show ?thesis by (auto simp: getCallLength_def Let_def)
qed

text \<open>The destination class computed from the geography always selects one of the tariffs of the
  log, by zone and by whether the number is mobile.\<close>

theorem tariff_for_dest:
  assumes "dest_of g settings (c_mob c) = Val d" and "c_destination_id c = d"
  shows "tariff_for c l =
    (if d = -1 then tc_tariff_id_local l
     else if d = 0 then (if c_mob c then tc_tariff_id_local_mob l else tc_tariff_id_russia l)
     else if d = 1 then (if c_mob c then tc_tariff_id_russia_mob l else tc_tariff_id_russia l)
     else tc_tariff_id_intern l)"
  using dest_of_range [OF assms(1)] assms(2) by (auto simp: tariff_for_def call_class_defs)


theorem tariff_for_dest_witness:
  "tariff_for (sample_call\<lparr> c_destination_id := -1 \<rparr>) (sample_log 0 8) = 8"
  using tariff_for_dest [of "\<lparr> geo_id = 1, geo_country_id = 643, geo_region_id = 1, geo_city_id = 77 \<rparr>"
      "\<lparr> is_id = 1, is_region_id = ''{1}'', is_city_geo_id = 0, is_country_id = 643, is_city_id = 77, is_auto_lock_finance = False \<rparr>"
      "sample_call\<lparr> c_destination_id := -1 \<rparr>" "-1" "sample_log 0 8"]
  by (simp add: dest_of_def sample_call_def Call_new_def sample_log_def)

text \<open>C26: When free minutes are applied to a local call and the call is then added to the counters, the
  used seconds of the month do not exceed the allowance of the tariff, and the call is given no more
  than its billed time.\<close>

theorem freemin_within_allowance:
  assumes wf: "freemin.wf (bs_freemin s)" and step: "setupFreemin s = Next s'" and billed: "0 \<le> c_billed_time (bs_call s)"
    and applied: "c_service_package_id (bs_call s) \<noteq> 1" "c_service_package_id (bs_call s') = 1"
    and ids: "c_number_service_id (bs_call s) \<noteq> 0" "c_service_package_stats_id (bs_call s') \<noteq> 0"
  shows "\<exists>ta sn m st. ci_mainTariff (bs_info s) = Some ta \<and> ci_serviceNumber (bs_info s) = Some sn \<and>
    StatsFreemin_add (bs_call s') (bs_freemin s') = Some m \<and>
    mg_stats m (c_service_package_stats_id (bs_call s')) = Some st \<and>
    0 < c_package_time (bs_call s') \<and> c_package_time (bs_call s') \<le> c_billed_time (bs_call s') \<and>
    sf_used_seconds st \<le> tariff_free_seconds ta sn"
proof -
  let ?c = "bs_call s"
  obtain ta sn dt st m where l: "ci_mainTariff (bs_info s) = Some ta"
    "ci_serviceNumber (bs_info s) = Some sn" "StatsFreemin_getCurrent ?c dt (bs_freemin s) = Some (st, m)"
    "s' = upd_call (freemin_taken ta sn st) (s\<lparr> bs_freemin := m \<rparr>)"
    "0 < clamp_to (tariff_free_seconds ta sn - sf_used_seconds st) (c_billed_time ?c)"
    using setupFreemin_taken [OF step] applied by auto
  have row: "freemin.wf m" "mg_stats m (sf_id st) = Some st"
    using StatsFreemin_getCurrent_ok [OF wf, of ?c dt] l(3) by auto
  obtain m' where m': "mg_update (sf_id st) (updateStatsFreemin (bs_call s')) m = Some m'"
    "mg_stats m' = (mg_stats m)(sf_id st \<mapsto> updateStatsFreemin (bs_call s') st)"
    using freemin.update_ok [OF row(1), of "updateStatsFreemin (bs_call s')" "sf_id st"] row(2)
    by (auto simp: updateStatsFreemin_def)
  note b = clamp_to_bounds [OF billed, of "tariff_free_seconds ta sn - sf_used_seconds st"]
  have "StatsFreemin_add (bs_call s') (bs_freemin s') = Some m'"
    using m'(1) ids by (simp add: StatsFreemin_add_def l(4) freemin_taken_def)
  moreover have "sf_used_seconds (updateStatsFreemin (bs_call s') st) \<le> tariff_free_seconds ta sn"
    using b(3) l(5) by (simp add: updateStatsFreemin_def l(4) freemin_taken_def)
  ultimately show ?thesis using b(2) l(1,2,5) m'(2) by (simp add: l(4) freemin_taken_def)
qed

theorem freemin_within_allowance_witness:
  "\<exists>s' m st. setupFreemin freemin_state = Next s' \<and> StatsFreemin_add (bs_call s') (bs_freemin s') = Some m \<and>
     mg_stats m 1 = Some st \<and> sf_used_seconds st \<le> 60"
proof -
  obtain s' where s': "setupFreemin freemin_state = Next s'" "c_service_package_id (bs_call s') = 1"
    "c_service_package_stats_id (bs_call s') = 1" using freemin_state_step by blast
  have "freemin.wf (bs_freemin freemin_state)" "0 \<le> c_billed_time (bs_call freemin_state)"
    "c_service_package_id (bs_call freemin_state) \<noteq> 1" "c_number_service_id (bs_call freemin_state) \<noteq> 0"
    by (simp_all add: freemin_state_def sample_freemin_mgr_wf sample_call_def Call_new_def)
  from freemin_within_allowance [OF this(1) s'(1) this(2,3) s'(2) this(4)] s' show ?thesis
    by (auto simp: freemin_state_def CallInfo_new_def sample_tariff_def tariff_free_seconds_def)
qed

text \<open>C27: When a prepaid package is applied to a call and the call is then added to the counters, the
  package has not been used beyond its paid seconds, and the call is given no more than its billed time.\<close>

theorem prepaid_within_paid:
  assumes wf: "package.wf (bs_package s)" and step: "setupPackagePrepaid s = Next s'"
    and billed: "0 \<le> c_billed_time (bs_call s)"
    and applied: "c_service_package_id (bs_call s') \<noteq> c_service_package_id (bs_call s)" "c_service_package_id (bs_call s') > 1"
    and ids: "c_number_service_id (bs_call s) \<noteq> 0" "c_service_package_stats_id (bs_call s') \<noteq> 0"
  shows "\<exists>m st. StatsPackage_add (bs_call s') (ci_servicePackagePrepaid (bs_info s') \<noteq> None) (bs_package s') = Some m \<and>
    mg_stats m (c_service_package_stats_id (bs_call s')) = Some st \<and>
    sk_package_id st = c_service_package_id (bs_call s') \<and>
    0 < c_package_time (bs_call s') \<and> c_package_time (bs_call s') \<le> c_billed_time (bs_call s') \<and>
    sk_used_seconds st \<le> sk_paid_seconds st"
proof -
  let ?c = "bs_call s"
  obtain pkgs secs pkg tp st m where l:
    "prepaid_loop (bs_repo s) ?c (bs_info s) pkgs 0 None (bs_package s) = Val (secs, Some (pkg, tp, st), m)"
    "s' = upd_info (\<lambda>ci. ci\<lparr> ci_servicePackagePrepaid := Some pkg, ci_tariffPackagePrepaid := Some tp \<rparr>)
       (upd_call (prepaid_taken secs pkg st) (s\<lparr> bs_package := m \<rparr>))" "c_billed_time ?c \<noteq> 0"
    using setupPackagePrepaid_taken [OF step applied(1)] by blast
  have nz: "c_billed_time ?c > 0" using billed l(3) by simp
  have "choice_ok ?c 0 None" using nz by (simp add: choice_ok_def)
  note ok = prepaid_loop_ok [OF l(1) wf this nz]
  have row: "package.wf m" "mg_stats m (sk_id st) = Some st" "choice_ok ?c secs (Some (pkg, tp, st))" using ok by auto
  obtain m' where m': "mg_update (sk_id st) (updateStatsPackage (bs_call s')) m = Some m'"
    "mg_stats m' = (mg_stats m)(sk_id st \<mapsto> updateStatsPackage (bs_call s') st)"
    using package.update_ok [OF row(1), of "updateStatsPackage (bs_call s')" "sk_id st"] row(2)
    by (auto simp: updateStatsPackage_def)
  have "StatsPackage_add (bs_call s') True (bs_package s') = Some m'"
    using m'(1) ids applied by (simp add: StatsPackage_add_def l(2) prepaid_taken_def)
  moreover have "sk_used_seconds (updateStatsPackage (bs_call s') st) \<le> sk_paid_seconds (updateStatsPackage (bs_call s') st)"
    "sk_package_id (updateStatsPackage (bs_call s') st) = sp_id pkg"
    using row(3) by (simp_all add: updateStatsPackage_def l(2) prepaid_taken_def choice_ok_def)
  moreover have "0 < c_package_time (bs_call s')" "c_package_time (bs_call s') \<le> c_billed_time (bs_call s')"
    using row(3) by (auto simp: l(2) prepaid_taken_def choice_ok_def)
  moreover have "c_service_package_stats_id (bs_call s') = sk_id st" "c_service_package_id (bs_call s') = sp_id pkg"
    "ci_servicePackagePrepaid (bs_info s') \<noteq> None" by (simp_all add: l(2) prepaid_taken_def)
  ultimately show ?thesis using m'(2) by simp
qed

theorem prepaid_within_paid_witness:
  "\<exists>s' m st. setupPackagePrepaid prepaid_state = Next s' \<and>
     StatsPackage_add (bs_call s') (ci_servicePackagePrepaid (bs_info s') \<noteq> None) (bs_package s') = Some m \<and>
     mg_stats m 1 = Some st \<and> sk_used_seconds st \<le> sk_paid_seconds st"
proof -
  obtain s' where s': "setupPackagePrepaid prepaid_state = Next s'" "c_service_package_id (bs_call s') = 3"
    "c_service_package_stats_id (bs_call s') = 1" using prepaid_state_step by blast
  have "package.wf (bs_package prepaid_state)" "0 \<le> c_billed_time (bs_call prepaid_state)"
    "c_service_package_id (bs_call s') \<noteq> c_service_package_id (bs_call prepaid_state)"
    "c_number_service_id (bs_call prepaid_state) \<noteq> 0" using s'(2)
    by (simp_all add: prepaid_state_def sample_package_mgr_wf sample_call_def Call_new_def)
  from prepaid_within_paid [OF this(1) s'(1) this(2,3) _ this(4)] s' show ?thesis by auto
qed

text \<open>The package price chosen for a call is the cheapest of all prices of the account's tariffs for
  the destinations of the number.\<close>

theorem setupNNPPackagePrice_cheapest:
  assumes "sorted (map ni_nnp_tariff_id (rp_nnpPackagePrice r))"
    and "setupNNPPackagePrice r atls ids = Some (price, p)"
  shows "price = ni_price p \<and> p \<in> set (rp_nnpPackagePrice r) \<and> ni_nnp_destination_id p \<in> ids \<and>
    ni_nnp_tariff_id p \<in> nt_nnp_tariff_id ` set atls \<and>
    (\<forall>q \<in> set (rp_nnpPackagePrice r). ni_nnp_destination_id q \<in> ids \<and> ni_nnp_tariff_id q \<in> nt_nnp_tariff_id ` set atls
       \<longrightarrow> price \<le> ni_price q)"
proof -
  let ?cands = "concat (map (\<lambda>t. findNNPPackagePriceIds r (nt_nnp_tariff_id t) ids) atls)"
  have cands: "set (in_address_order (rp_nnpPackagePrice r) ?cands) = {(ni_price p, p) | p.
      p \<in> set (rp_nnpPackagePrice r) \<and> ni_nnp_destination_id p \<in> ids \<and> ni_nnp_tariff_id p \<in> nt_nnp_tariff_id ` set atls}"
    using assms(1) by (auto simp: in_address_order_set findNNPPackagePriceIds_def findPackagePriceIds_set)
  from cheapest_minimal [OF assms(2) [unfolded setupNNPPackagePrice_def]] show ?thesis unfolding cands by force
qed

definition sample_package_price :: "int \<Rightarrow> int \<Rightarrow> NNPPackagePrice" where
  "sample_package_price i cents = \<lparr> ni_id = i, ni_nnp_tariff_id = 6, ni_nnp_destination_id = 2,
     ni_price = real_of_int cents / 100, ni_interconnect_price = 0 \<rparr>"

definition sample_account_tariff :: NNPAccountTariffLight where
  "sample_account_tariff = \<lparr> nt_id = 1, nt_service_number_id = 5, nt_service_trunk_id = 0, nt_account_client_id = 10,
     nt_nnp_tariff_id = 6, nt_coefficient = 1, nt_activate_from = 0, nt_deactivate_from = 5000, nt_service_type_id = 2,
     nt_price = 100 \<rparr>"

theorem setupNNPPackagePrice_cheapest_witness:
  "\<exists>p. setupNNPPackagePrice (empty_repo\<lparr> rp_nnpPackagePrice := [sample_package_price 1 90, sample_package_price 2 50] \<rparr>)
     [sample_account_tariff] {2} = Some p \<and> fst p \<le> 50 / 100"
proof -
  let ?r = "empty_repo\<lparr> rp_nnpPackagePrice := [sample_package_price 1 90, sample_package_price 2 50] \<rparr>"
  have s: "sorted (map ni_nnp_tariff_id (rp_nnpPackagePrice ?r))" by (simp add: sample_package_price_def)
  have "setupNNPPackagePrice ?r [sample_account_tariff] {2} \<noteq> None"
    by (simp add: setupNNPPackagePrice_def cheapest_None_iff findNNPPackagePriceIds_def findPackagePriceIds_def
        in_address_order_def equal_range_filter sample_package_price_def sample_account_tariff_def)
  then obtain price p where c: "setupNNPPackagePrice ?r [sample_account_tariff] {2} = Some (price, p)" by auto
  from setupNNPPackagePrice_cheapest [OF s c] c show ?thesis
    by (auto simp: sample_package_price_def sample_account_tariff_def)
qed

text \<open>C30: The billed time of a package call, for an interval that is not negative: zero for an empty call or one within
  the free seconds; the minimal paid seconds for a longer call within those; beyond both a multiple of the tariff's interval
  (of a second, where it is zero), rounded up to the next multiple, or for tariffs of type 1 to the nearest one, and down
  from the middle. The sign of the free and the minimal paid seconds does not matter.\<close>

theorem getCallLengthNNP_rounding:
  fixes len free_seconds interval_seconds tarification_type min_paid_seconds :: int
  assumes "0 \<le> interval_seconds"
  defines "unit \<equiv> (if interval_seconds = 0 then 1 else interval_seconds)"
    and "billed \<equiv> getCallLengthNNP len free_seconds interval_seconds tarification_type min_paid_seconds"
  shows "(if len \<le> 0 \<or> len \<le> \<bar>free_seconds\<bar> then billed = 0
    else if len \<le> \<bar>min_paid_seconds\<bar> then billed = \<bar>min_paid_seconds\<bar>
    else unit dvd billed \<and>
      (if tarification_type = 1 then 2 * (len - billed) \<le> unit \<and> 2 * (billed - len) < unit
       else len \<le> billed \<and> billed - len < unit))"
proof (cases "0 < len \<and> \<bar>free_seconds\<bar> < len \<and> \<bar>min_paid_seconds\<bar> < len")
  case True
  define q m where "q = len div unit" and "m = len mod unit"
  have u: "unit > 0" using assms(1) by (simp add: unit_def)
  have len: "len = q * unit + m" "0 \<le> m" "m < unit" using u by (simp_all add: q_def m_def)
  have b: "billed = (if m = 0 then len else if m \<le> unit div 2 \<and> tarification_type = 1 then q * unit else (q + 1) * unit)"
    using assms(1) u True by (simp add: billed_def getCallLengthNNP_def unit_def [symmetric] Let_def q_def m_def)
  consider "m = 0" | "m \<noteq> 0" "m \<le> unit div 2" "tarification_type = 1" | "m \<noteq> 0" "\<not> (m \<le> unit div 2 \<and> tarification_type = 1)"
    by blast
  then have "unit dvd billed \<and> (if tarification_type = 1 then 2 * (len - billed) \<le> unit \<and> 2 * (billed - len) < unit
      else len \<le> billed \<and> billed - len < unit)"
  proof cases
    case 1
    then show ?thesis using b len u by simp
  next
    case 2
    then have "billed = q * unit" "billed - len = - m" using b len(1) by simp_all
    with 2 len u show ?thesis by simp
  next
    case 3
    then have e: "billed = (q + 1) * unit" "billed - len = unit - m" using b len(1) by (auto simp: algebra_simps)
    have "2 * (unit - m) < unit" if "tarification_type = 1"
    proof -
      have "unit div 2 < m" using 3 that by simp
      then show ?thesis by presburger
    qed
    with 3 len e show ?thesis by auto
  qed
  moreover have "\<not> (len \<le> 0 \<or> len \<le> \<bar>free_seconds\<bar>)" "\<not> len \<le> \<bar>min_paid_seconds\<bar>" using True by simp_all
  ultimately show ?thesis by (simp only: if_False simp_thms) blast
next
  case False
  then show ?thesis by (auto simp: billed_def getCallLengthNNP_def Let_def)
qed

theorem getCallLengthNNP_rounding_witness:
  "(6::int) dvd getCallLengthNNP 61 5 6 2 0 \<and> 61 \<le> getCallLengthNNP 61 5 6 2 0 \<and> getCallLengthNNP 20 5 6 2 30 = 30"
  using getCallLengthNNP_rounding [of 6 61 5 2 0] getCallLengthNNP_rounding [of 6 20 5 2 30] by simp

end
