(* ===== verification/Data_Container.thy ===== *)
theory Data_Container
  imports Stats_Managers Calendar
begin

text \<open>
  The queues of the data container: \<^verbatim>\<open>classes/CdrManager.cpp\<close> (records waiting for their price),
  \<^verbatim>\<open>classes/CallsManager.cpp\<close> (priced legs waiting to be stored) and \<^verbatim>\<open>data/DataBillingContainer.cpp\<close>, which
  keeps them in step with the counters: one partition of calls and one of every counter belong together,
  the first partition is what is being stored, the last one takes new calls. An operation is optional
  where the source indexes a vector that may be empty.
\<close>

section \<open>Records waiting for their price\<close>

record CdrManager =
  dm_lastId :: int
  dm_lastTime :: int
  dm_counter :: nat
  dm_queue :: "Cdr list"

definition CDRS_PARTITION_SIZE :: nat where
  "CDRS_PARTITION_SIZE = 25000"

definition CDRS_MAX_QUEUE_SIZE :: nat where
  "CDRS_MAX_QUEUE_SIZE = 50000"

definition dm_clear :: CdrManager where
  "dm_clear = \<lparr> dm_lastId = -1, dm_lastTime = 0, dm_counter = 0, dm_queue = [] \<rparr>"

definition dm_ready :: "CdrManager \<Rightarrow> bool" where
  "dm_ready m \<longleftrightarrow> dm_lastId m \<ge> 0"

text \<open>\<open>fetch\<close> answers the query of \<open>loadPart\<close>: the records after an identifier, at most so many, in the
  order of their identifiers.\<close>

definition dm_push :: "Cdr \<Rightarrow> CdrManager \<Rightarrow> CdrManager" where
  "dm_push cdr m = m\<lparr> dm_queue := dm_queue m @ [cdr], dm_lastId := cdr_id cdr,
     dm_lastTime := cdr_connect_time cdr, dm_counter := dm_counter m + 1 \<rparr>"

definition dm_loadPart :: "(int \<Rightarrow> nat \<Rightarrow> Cdr list) \<Rightarrow> CdrManager \<Rightarrow> bool \<times> CdrManager" where
  "dm_loadPart fetch m =
     (if \<not> dm_ready m \<or> length (dm_queue m) \<ge> CDRS_MAX_QUEUE_SIZE then (True, m)
      else (let res = fetch (dm_lastId m) CDRS_PARTITION_SIZE
            in (length res < CDRS_PARTITION_SIZE, foldl (\<lambda>m cdr. dm_push cdr m) m res)))"

definition dm_getFirstCdr :: "CdrManager \<Rightarrow> Cdr option" where
  "dm_getFirstCdr m = (case dm_queue m of [] \<Rightarrow> None | c # cs \<Rightarrow> Some c)"

definition dm_removeFirstCdr :: "CdrManager \<Rightarrow> CdrManager" where
  "dm_removeFirstCdr m = m\<lparr> dm_queue := tl (dm_queue m) \<rparr>"

section \<open>Legs waiting to be stored\<close>

record CallsManager =
  cm_parts :: "Call list list"
  cm_realtimeLastId :: int
  cm_storedLastId :: int
  cm_realtimeLastTime :: int
  cm_storedLastTime :: int
  cm_realtimeCounter :: nat
  cm_storedCounter :: nat

definition CALLS_PARTITION_SIZE :: nat where
  "CALLS_PARTITION_SIZE = 50000"

definition CALLS_MAX_QUEUE_SIZE :: nat where
  "CALLS_MAX_QUEUE_SIZE = 1000000"

definition cm_clear :: CallsManager where
  "cm_clear = \<lparr> cm_parts = [[]], cm_realtimeLastId = -1, cm_storedLastId = -1, cm_realtimeLastTime = 0,
     cm_storedLastTime = 0, cm_realtimeCounter = 0, cm_storedCounter = 0 \<rparr>"

definition cm_ready :: "CallsManager \<Rightarrow> bool" where
  "cm_ready m \<longleftrightarrow> cm_realtimeLastId m \<ge> 0 \<and> cm_storedLastId m \<ge> 0"

definition cm_add :: "Call \<Rightarrow> CallsManager \<Rightarrow> CallsManager option" where
  "cm_add call m =
     (if cm_parts m = [] then None
      else Some (m\<lparr> cm_parts := butlast (cm_parts m) @ [last (cm_parts m) @ [call]],
        cm_realtimeLastId := c_id call, cm_realtimeLastTime := c_connect_time call,
        cm_realtimeCounter := cm_realtimeCounter m + 1 \<rparr>))"

definition cm_add2 :: "Call \<Rightarrow> Call \<Rightarrow> CallsManager \<Rightarrow> CallsManager option" where
  "cm_add2 origCall termCall m =
     (if cm_parts m = [] then None
      else Some (m\<lparr> cm_parts := butlast (cm_parts m) @ [last (cm_parts m) @ [origCall, termCall]],
        cm_realtimeLastId := c_id termCall, cm_realtimeLastTime := c_connect_time termCall,
        cm_realtimeCounter := cm_realtimeCounter m + 2 \<rparr>))"

definition cm_getQueueSize :: "CallsManager \<Rightarrow> nat" where
  "cm_getQueueSize m = foldl (\<lambda>size part. size + length part) 0 (cm_parts m)"

definition cm_isNeedSave :: "CallsManager \<Rightarrow> bool option" where
  "cm_isNeedSave m =
     (case cm_parts m of [] \<Rightarrow> None | p # ps \<Rightarrow> Some (length p > 0 \<or> length (cm_parts m) > 1))"

definition cm_isNeedCreatePartitionBeforeSave :: "CallsManager \<Rightarrow> bool" where
  "cm_isNeedCreatePartitionBeforeSave m \<longleftrightarrow> length (cm_parts m) = 1"

definition cm_getLastRealtimePartSize :: "CallsManager \<Rightarrow> nat option" where
  "cm_getLastRealtimePartSize m = (if cm_parts m = [] then None else Some (length (last (cm_parts m))))"

definition cm_isNeedCreatePartitionAfterAdd :: "CallsManager \<Rightarrow> bool option" where
  "cm_isNeedCreatePartitionAfterAdd m =
     (if cm_parts m = [] then None else Some (length (last (cm_parts m)) \<ge> CALLS_PARTITION_SIZE))"

definition cm_createNewPartition :: "CallsManager \<Rightarrow> CallsManager" where
  "cm_createNewPartition m = m\<lparr> cm_parts := cm_parts m @ [[]] \<rparr>"

definition cm_removePartitionAfterSave :: "CallsManager \<Rightarrow> CallsManager option" where
  "cm_removePartitionAfterSave m =
     (case cm_parts m of
        [] \<Rightarrow> None
      | p # ps \<Rightarrow>
          Some ((if length p > 0
                 then m\<lparr> cm_storedCounter := cm_storedCounter m + length p, cm_storedLastId := c_id (last p),
                         cm_storedLastTime := c_connect_time (last p) \<rparr>
                 else m)\<lparr> cm_parts := ps \<rparr>))"

section \<open>Rows of the table of calls\<close>

datatype sql_value = SqlNull | SqlInt int | SqlReal real | SqlBool bool | SqlTime int | SqlText string

definition sql_id :: "int \<Rightarrow> sql_value" where
  "sql_id n = (if n \<noteq> 0 then SqlInt n else SqlNull)"

definition sql_uuid :: "string \<Rightarrow> sql_value" where
  "sql_uuid s = (if length s > 0 then SqlText s else SqlNull)"

definition calls_insert_row :: "Call \<Rightarrow> sql_value list" where
  "calls_insert_row call =
    [SqlInt (c_id call), SqlBool (c_orig call), SqlBool (c_our call), SqlInt (c_peer_id call),
     SqlInt (c_cdr_id call), SqlTime (c_connect_time call), SqlInt (c_pdd call), sql_id (c_trunk_id call),
     sql_id (c_account_id call), sql_id (c_trunk_service_id call), sql_id (c_number_service_id call),
     sql_id (c_src_number call), sql_id (c_dst_number call), SqlInt (c_billed_time call), SqlReal (c_rate call),
     SqlReal (c_cost call), SqlReal (c_tax_cost call), SqlReal (c_interconnect_rate call),
     SqlReal (c_interconnect_cost call), sql_id (c_service_package_id call),
     sql_id (c_service_package_stats_id call), SqlInt (c_package_time call), SqlReal (c_package_credit call),
     sql_id (c_trunk_settings_stats_id call), SqlInt (c_destination_id call), sql_id (c_pricelist_id call),
     sql_id (c_prefix call), sql_id (c_geo_id call), sql_id (c_geo_operator_id call), SqlBool (c_mob call),
     SqlBool (c_geo_mob call), sql_id (c_account_version call), sql_id (c_stats_nnp_package_minute_id call),
     sql_id (c_nnp_number_range_id call), sql_id (c_nnp_operator_id call), sql_id (c_nnp_region_id call),
     sql_id (c_nnp_city_id call), sql_id (c_nnp_country_prefix call), sql_id (c_nnp_ndc call),
     SqlBool (c_nnp_is_mob call), sql_id (c_nnp_package_minute_id call), sql_id (c_nnp_package_price_id call),
     sql_id (c_nnp_package_pricelist_id call), sql_id (c_server_id call), sql_uuid (c_signalling_call_id call),
     sql_uuid (c_hash call), SqlInt (c_disconnect_cause call),
     (if c_nnp_country_code call > 0 then SqlInt (c_nnp_country_code call) else SqlNull),
     SqlBool (c_price_includes_vat call)]"

text \<open>The month whose table a call goes to, as \<open>prepareSaveQueries\<close> computes it.\<close>

definition call_month :: "Call \<Rightarrow> int" where
  "call_month call =
     (let t = c_connect_time call; (y, m, mday) = civil_of_days (t div 86400);
          dt_day = t - t mod 86400
      in dt_day - (mday - 1) * 86400)"

text \<open>\<open>queryPerMonth\<close> has the rows of one \<open>INSERT\<close> per month, \<open>querytime\<close> the months in the order of their
  first call.\<close>

definition add_to_query ::
    "(int \<rightharpoonup> sql_value list list) \<times> int list \<Rightarrow> Call \<Rightarrow> (int \<rightharpoonup> sql_value list list) \<times> int list" where
  "add_to_query = (\<lambda>(queryPerMonth, querytime) call.
     let dt_month = call_month call in
     case queryPerMonth dt_month of
       None \<Rightarrow> (queryPerMonth(dt_month \<mapsto> [calls_insert_row call]), querytime @ [dt_month])
     | Some q \<Rightarrow> (queryPerMonth(dt_month \<mapsto> q @ [calls_insert_row call]), querytime))"

definition cm_prepareSaveQueries ::
    "CallsManager \<Rightarrow> ((int \<rightharpoonup> sql_value list list) \<times> int list) option" where
  "cm_prepareSaveQueries m =
     (case cm_parts m of [] \<Rightarrow> None | p # ps \<Rightarrow> Some (foldl add_to_query (Map.empty, []) p))"

section \<open>The container\<close>

record DataBillingContainer =
  bd_cdrs :: CdrManager
  bd_calls :: CallsManager
  bd_statsAccount :: StatsAccountManager
  bd_statsFreemin :: StatsFreeminManager
  bd_statsPackage :: StatsPackageManager
  bd_statsTrunkSettings :: StatsTrunkSettingsManager
  bd_statsNNPPackageMinute :: StatsNNPPackageMinuteManager
  bd_clientLock_ready :: bool

definition bd_ready :: "DataBillingContainer \<Rightarrow> bool" where
  "bd_ready d \<longleftrightarrow> dm_ready (bd_cdrs d) \<and> cm_ready (bd_calls d) \<and> am_loaded (bd_statsAccount d) \<and>
     mg_loaded (bd_statsFreemin d) \<and> mg_loaded (bd_statsPackage d) \<and> mg_loaded (bd_statsTrunkSettings d) \<and>
     mg_loaded (bd_statsNNPPackageMinute d) \<and> bd_clientLock_ready d"

definition bd_createNewPartition :: "DataBillingContainer \<Rightarrow> DataBillingContainer" where
  "bd_createNewPartition d = d\<lparr>
     bd_calls := cm_createNewPartition (bd_calls d),
     bd_statsAccount := am_createNewPartition (bd_statsAccount d),
     bd_statsFreemin := mg_createNewPartition (bd_statsFreemin d),
     bd_statsPackage := mg_createNewPartition (bd_statsPackage d),
     bd_statsTrunkSettings := mg_createNewPartition (bd_statsTrunkSettings d),
     bd_statsNNPPackageMinute := mg_createNewPartition (bd_statsNNPPackageMinute d) \<rparr>"

definition bd_removePartitionAfterSave :: "DataBillingContainer \<Rightarrow> DataBillingContainer option" where
  "bd_removePartitionAfterSave d =
     map_option (\<lambda>calls. d\<lparr>
       bd_calls := calls,
       bd_statsAccount := am_removePartitionAfterSave (bd_statsAccount d),
       bd_statsFreemin := mg_removePartitionAfterSave (bd_statsFreemin d),
       bd_statsPackage := mg_removePartitionAfterSave (bd_statsPackage d),
       bd_statsTrunkSettings := mg_removePartitionAfterSave (bd_statsTrunkSettings d),
       bd_statsNNPPackageMinute := mg_removePartitionAfterSave (bd_statsNNPPackageMinute d) \<rparr>)
     (cm_removePartitionAfterSave (bd_calls d))"

text \<open>The account's counter reads \<open>dtUtc\<close>, which a leg without an account does not have.\<close>

definition add_account :: "Call \<Rightarrow> CallInfo \<Rightarrow> StatsAccountManager \<Rightarrow> StatsAccountManager option" where
  "add_account call ci m =
     (if ci_account ci = None \<or> \<bar>c_cost call\<bar> < 0.000001 then Some m
      else (case ci_dtUtc ci of None \<Rightarrow> None | Some dt \<Rightarrow> StatsAccount_add call (ci_account ci) dt m))"

definition addCall :: "Call \<Rightarrow> CallInfo \<Rightarrow> DataBillingContainer \<Rightarrow> DataBillingContainer option" where
  "addCall call ci d =
     Option.bind (add_account call ci (bd_statsAccount d)) (\<lambda>account.
     Option.bind (StatsFreemin_add call (bd_statsFreemin d)) (\<lambda>freemin.
     Option.bind (StatsPackage_add call (ci_servicePackagePrepaid ci \<noteq> None) (bd_statsPackage d)) (\<lambda>package.
     Option.bind (StatsTrunkSettings_add call (bd_statsTrunkSettings d)) (\<lambda>trunkSettings.
     Option.bind (StatsNNPPackageMinute_add call (bd_statsNNPPackageMinute d)) (\<lambda>minute.
     Option.bind (cm_add call (bd_calls d)) (\<lambda>calls.
     Option.bind (cm_isNeedCreatePartitionAfterAdd calls) (\<lambda>need.
       let d' = d\<lparr> bd_calls := calls, bd_statsAccount := account, bd_statsFreemin := freemin,
                   bd_statsPackage := package, bd_statsTrunkSettings := trunkSettings,
                   bd_statsNNPPackageMinute := minute \<rparr>
       in Some (if need then bd_createNewPartition d' else d'))))))))"

text \<open>Accounts whose sum has to be read again: active, known, and without a counter of the current
  accounting date.\<close>

definition getAccountIdsForRecalcAccountSum ::
    "int list \<Rightarrow> (int \<Rightarrow> Client option) \<Rightarrow> DataBillingContainer \<Rightarrow> int list" where
  "getAccountIdsForRecalcAccountSum activeClients find_client d =
     concat (map (\<lambda>accountId. case find_client accountId of
        None \<Rightarrow> []
      | Some client \<Rightarrow>
          (case am_stats (bd_statsAccount d) (cl_id client) of
             None \<Rightarrow> [cl_id client]
           | Some account \<Rightarrow> if sa_amount_date account \<noteq> cl_amount_date client then [cl_id client] else []))
       activeClients)"

section \<open>Loading\<close>

text \<open>What \<open>loadAll\<close> reads: the last identifiers and time of the stored calls, and the rows and last
  identifiers of the counters.\<close>

record StoredCounters =
  so_maxima :: "(int \<times> int \<times> int) option"
  so_account :: "StatsAccount list"
  so_freemin :: "int \<times> StatsFreemin list"
  so_package :: "int \<times> StatsPackage list"
  so_trunkSettings :: "int \<times> StatsTrunkSettings list"
  so_minute :: "int \<times> StatsNNPPackageMinute list"

definition loadLastCallIdAndCdrIdAndTime ::
    "(int \<times> int \<times> int) option \<Rightarrow> DataBillingContainer \<Rightarrow> DataBillingContainer" where
  "loadLastCallIdAndCdrIdAndTime maxima d =
     (case (case maxima of Some x \<Rightarrow> x | None \<Rightarrow> (0, 0, 0)) of (cdrId, callId, time) \<Rightarrow>
        d\<lparr> bd_cdrs := (bd_cdrs d)\<lparr> dm_lastId := cdrId, dm_lastTime := time \<rparr>,
           bd_calls := (bd_calls d)\<lparr> cm_storedLastId := callId, cm_storedLastTime := time,
             cm_realtimeLastId := callId, cm_realtimeLastTime := time \<rparr> \<rparr>)"

definition loadAll :: "StoredCounters \<Rightarrow> DataBillingContainer \<Rightarrow> DataBillingContainer" where
  "loadAll st d =
     (let d1 = loadLastCallIdAndCdrIdAndTime (so_maxima st) (d\<lparr> bd_cdrs := dm_clear, bd_calls := cm_clear \<rparr>)
      in d1\<lparr> bd_statsAccount := StatsAccount_load (so_account st) (bd_statsAccount d1),
             bd_statsFreemin := StatsFreemin_load (fst (so_freemin st)) (snd (so_freemin st)) (bd_statsFreemin d1),
             bd_statsPackage := StatsPackage_load (fst (so_package st)) (snd (so_package st)) (bd_statsPackage d1),
             bd_statsTrunkSettings :=
               StatsTrunkSettings_load (fst (so_trunkSettings st)) (snd (so_trunkSettings st)) (bd_statsTrunkSettings d1),
             bd_statsNNPPackageMinute :=
               StatsNNPPackageMinute_load (fst (so_minute st)) (snd (so_minute st)) (bd_statsNNPPackageMinute d1),
             bd_clientLock_ready := True \<rparr>)"

end
