(* ===== verification/Save_Journal.thy ===== *)
theory Save_Journal
  imports Data_Container
begin

text \<open>
  Counters and calls are stored partition by partition. This theory relates the two: a counter table
  together with the first partitions of its manager always accounts for exactly the stored calls and
  the calls of the same partitions. The locale states what the operations of a manager keep of this
  relation; it is interpreted on the managers whose counters depend on the call alone.
\<close>

locale counter_journal = stats_rows id_of key_of
  for id_of :: "'s \<Rightarrow> int" and key_of :: "'s \<Rightarrow> int" +
  fixes used :: "'s \<Rightarrow> int" and charge :: "Call \<Rightarrow> int option" and amount :: "Call \<Rightarrow> int"
    and upd :: "Call \<Rightarrow> 's \<Rightarrow> 's" and add :: "Call \<Rightarrow> 's stats_mgr \<Rightarrow> 's stats_mgr option"
  assumes add_charge: "add c m = (case charge c of None \<Rightarrow> Some m | Some i \<Rightarrow> mg_update i (upd c) m)"
    and used_upd: "used (upd c s) = used s + amount c"
    and upd_keeps: "id_of (upd c s) = id_of s" "key_of (upd c s) = key_of s"
begin

definition total :: "int \<Rightarrow> Call list \<Rightarrow> int" where
  "total i cs = sum_list (map amount (filter (\<lambda>c. charge c = Some i) cs))"

definition consistent :: "(int \<Rightarrow> int) \<Rightarrow> (int \<rightharpoonup> 's) \<Rightarrow> Call list \<Rightarrow> bool" where
  "consistent base tbl cs \<longleftrightarrow>
     (\<forall>i. case tbl i of Some s \<Rightarrow> used s = base i + total i cs | None \<Rightarrow> base i = 0 \<and> total i cs = 0)"

text \<open>\<open>S\<close> and \<open>P\<close> are the partitions of the manager and of the calls that are not stored yet.\<close>

definition journal :: "(int \<Rightarrow> int) \<Rightarrow> (int \<rightharpoonup> 's) \<Rightarrow> Call list \<Rightarrow> (int \<rightharpoonup> 's) list \<Rightarrow> Call list list \<Rightarrow> 's stats_mgr \<Rightarrow> bool" where
  "journal base tbl stored S P m \<longleftrightarrow> length S = length P \<and>
     (\<forall>k \<le> length S. consistent base (foldl (++) tbl (take k S)) (stored @ concat (take k P))) \<and>
     mg_stats m \<subseteq>\<^sub>m foldl (++) tbl S \<and> dom (foldl (++) tbl S) \<subseteq> {..mg_lastId m}"

lemma total_append [simp]: "total i (xs @ ys) = total i xs + total i ys"
  by (simp add: total_def)

lemma total_Nil [simp]: "total i [] = 0"
  by (simp add: total_def)

lemma total_one [simp]: "total i [c] = (if charge c = Some i then amount c else 0)"
  by (simp add: total_def)

lemma consistent_new:
  assumes "consistent base tbl cs" and "tbl i = None" and "used s = 0"
  shows "consistent base (tbl(i \<mapsto> s)) cs"
  unfolding consistent_def
proof
  fix i'
  show "case (tbl(i \<mapsto> s)) i' of Some s \<Rightarrow> used s = base i' + total i' cs | None \<Rightarrow> base i' = 0 \<and> total i' cs = 0"
    using assms spec [OF assms(1) [unfolded consistent_def], of i'] by (cases "i' = i") simp_all
qed

lemma consistent_free:
  assumes "consistent base tbl cs" and "charge c = None"
  shows "consistent base tbl (cs @ [c])"
  using assms by (simp add: consistent_def cong: option.case_cong)

lemma consistent_charge:
  assumes "consistent base tbl cs" and "charge c = Some i" and "tbl i = Some s"
  shows "consistent base (tbl(i \<mapsto> upd c s)) (cs @ [c])"
  unfolding consistent_def
proof
  fix i'
  show "case (tbl(i \<mapsto> upd c s)) i' of Some s \<Rightarrow> used s = base i' + total i' (cs @ [c])
    | None \<Rightarrow> base i' = 0 \<and> total i' (cs @ [c]) = 0"
    using assms(2,3) spec [OF assms(1) [unfolded consistent_def], of i'] used_upd
    by (cases "i' = i") (simp_all split: option.splits)
qed

lemma journal_now:
  assumes "journal base tbl stored S P m"
  shows "consistent base (foldl (++) tbl S) (stored @ concat P)" and "consistent base tbl stored"
  using assms unfolding journal_def by (metis le_refl take_all, metis append_Nil2 concat.simps(1) foldl_Nil le0 take_0)

text \<open>Only the last partition changes: the earlier prefixes stay consistent.\<close>

lemma journal_last:
  assumes "journal base tbl stored (S @ [p]) (P @ [q]) m"
    and "consistent base (foldl (++) tbl (S @ [p'])) (stored @ concat (P @ [q']))"
    and "mg_stats m' \<subseteq>\<^sub>m foldl (++) tbl (S @ [p'])" and "dom (foldl (++) tbl (S @ [p'])) \<subseteq> {..mg_lastId m'}"
  shows "journal base tbl stored (S @ [p']) (P @ [q']) m'"
proof -
  have len: "length S = length P" using assms(1) by (simp add: journal_def)
  have "consistent base (foldl (++) tbl (take k (S @ [p']))) (stored @ concat (take k (P @ [q'])))"
    if k: "k \<le> length (S @ [p'])" for k
  proof (cases "k = length (S @ [p'])")
    case True
    then show ?thesis using assms(2) len by simp
  next
    case False
    then have "k \<le> length S" using k by simp
    moreover have "consistent base (foldl (++) tbl (take k (S @ [p]))) (stored @ concat (take k (P @ [q])))"
      using assms(1) k unfolding journal_def by (metis length_append_singleton)
    ultimately show ?thesis using len by simp
  qed
  then show ?thesis using len assms(3,4) by (simp add: journal_def)
qed

lemma journal_lastId:
  assumes "journal base tbl stored S P m"
  shows "foldl (++) tbl S (mg_lastId m + 1) = None"
  using assms by (force simp: journal_def)

lemma foldl_last_upd: "foldl (++) tbl (S @ [p(i \<mapsto> s)]) = (foldl (++) tbl (S @ [p]))(i \<mapsto> s)"
  by simp

text \<open>A row created on demand has used nothing.\<close>

lemma journal_getCurrent:
  assumes j: "journal base tbl stored S P m" and parts: "mg_parts m = X @ S" "S \<noteq> []"
    and new: "\<And>i. used (mk i) = 0" and got: "mg_getCurrent k p mk m = Some (s, m')"
  shows "\<exists>S'. mg_parts m' = X @ S' \<and> S' \<noteq> [] \<and> journal base tbl stored S' P m'"
proof (cases "first_current p (mg_stats m) (ids_of_key m k)")
  case (Some s')
  with got have "m' = m" by (simp add: mg_getCurrent_def)
  with j parts show ?thesis by blast
next
  case None
  let ?i = "mg_lastId m + 1"
  obtain S0 p0 where S: "S = S0 @ [p0]" using parts(2) by (metis rev_exhaust)
  obtain P0 q0 where P: "P = P0 @ [q0]"
    using j S by (metis journal_def length_0_conv length_append_singleton nat.distinct(1) rev_exhaust)
  have m': "mg_parts m' = X @ S0 @ [p0(?i \<mapsto> mk ?i)]" "mg_stats m' = (mg_stats m)(?i \<mapsto> mk ?i)"
    "mg_lastId m' = ?i"
    using None got parts S
    by (auto simp: mg_getCurrent_def mg_create_def mg_register_def push_id_def Let_def butlast_append split: if_splits)
  note free = journal_lastId [OF j [unfolded S P]]
  have "consistent base (foldl (++) tbl (S0 @ [p0(?i \<mapsto> mk ?i)])) (stored @ concat (P0 @ [q0]))"
    unfolding foldl_last_upd by (rule consistent_new [OF journal_now(1) [OF j [unfolded S P]] free new])
  moreover have "mg_stats m \<subseteq>\<^sub>m foldl (++) tbl (S0 @ [p0])" "dom (foldl (++) tbl (S0 @ [p0])) \<subseteq> {..mg_lastId m}"
    using j by (simp_all add: journal_def S)
  ultimately have "journal base tbl stored (S0 @ [p0(?i \<mapsto> mk ?i)]) (P0 @ [q0]) m'"
    by (intro journal_last [OF j [unfolded S P]])
      (auto simp: m' foldl_last_upd map_le_def simp del: foldl_append)
  then show ?thesis using m'(1) P by blast
qed

text \<open>A call is added to the last partition of calls and charged to the last partition of its counter.\<close>

lemma journal_add:
  assumes j: "journal base tbl stored S (P @ [q]) m" and parts: "mg_parts m = X @ S" "S \<noteq> []"
    and row: "\<And>i. charge c = Some i \<Longrightarrow> mg_stats m i \<noteq> None" and added: "add c m = Some m'"
  shows "\<exists>S'. mg_parts m' = X @ S' \<and> S' \<noteq> [] \<and> journal base tbl stored S' (P @ [q @ [c]]) m'"
proof -
  obtain S0 p0 where S: "S = S0 @ [p0]" using parts(2) by (metis rev_exhaust)
  note j' = j [unfolded S]
  have cur: "mg_stats m \<subseteq>\<^sub>m foldl (++) tbl (S0 @ [p0])" "dom (foldl (++) tbl (S0 @ [p0])) \<subseteq> {..mg_lastId m}"
    using j by (simp_all add: journal_def S)
  show ?thesis
  proof (cases "charge c")
    case None
    then have "m' = m" using added by (simp add: add_charge)
    moreover have "consistent base (foldl (++) tbl (S0 @ [p0])) (stored @ concat (P @ [q @ [c]]))"
      using consistent_free [OF journal_now(1) [OF j'] None] by simp
    ultimately have "journal base tbl stored (S0 @ [p0]) (P @ [q @ [c]]) m'"
      using cur by (intro journal_last [OF j']) simp_all
    then show ?thesis using parts S \<open>m' = m\<close> by blast
  next
    case (Some i)
    obtain s where s: "mg_stats m i = Some s" using row [OF Some] by auto
    have m': "mg_parts m' = X @ S0 @ [p0(i \<mapsto> upd c s)]" "mg_stats m' = (mg_stats m)(i \<mapsto> upd c s)"
      "mg_lastId m' = mg_lastId m"
      using added Some s parts S
      by (auto simp: add_charge mg_update_def mg_register_def butlast_append split: if_splits)
    have now: "foldl (++) tbl (S0 @ [p0]) i = Some s" using cur(1) s by (metis domI map_le_def)
    have "consistent base ((foldl (++) tbl (S0 @ [p0]))(i \<mapsto> upd c s)) (stored @ concat (P @ [q @ [c]]))"
      using consistent_charge [OF journal_now(1) [OF j'] Some now] by simp
    moreover have "i \<le> mg_lastId m" using cur(2) now by (metis atMost_iff domI subsetD)
    ultimately have "journal base tbl stored (S0 @ [p0(i \<mapsto> upd c s)]) (P @ [q @ [c]]) m'"
      using cur by (intro journal_last [OF j'])
        (auto simp: m' foldl_last_upd map_le_def simp del: foldl_append)
    then show ?thesis using m'(1) by blast
  qed
qed

lemma journal_partition:
  assumes "journal base tbl stored S P m" and "mg_stats m' = mg_stats m" and "mg_lastId m' = mg_lastId m"
  shows "journal base tbl stored (S @ [Map.empty]) (P @ [[]]) m'"
  unfolding journal_def
proof (intro conjI allI impI)
  fix k assume "k \<le> length (S @ [Map.empty :: int \<rightharpoonup> 's])"
  moreover have "length S = length P" using assms(1) by (simp add: journal_def)
  ultimately show "consistent base (foldl (++) tbl (take k (S @ [Map.empty]))) (stored @ concat (take k (P @ [[]])))"
    using assms(1) journal_now(1) [OF assms(1)] by (cases "k = Suc (length S)") (simp_all add: journal_def le_Suc_eq)
qed (use assms in \<open>simp_all add: journal_def\<close>)

lemma journal_stored:
  assumes "journal base tbl stored (p # S) (q # P) m"
  shows "journal base (tbl ++ p) (stored @ q) S P m"
  unfolding journal_def
proof (intro conjI allI impI)
  fix k assume "k \<le> length S"
  then have "consistent base (foldl (++) tbl (take (Suc k) (p # S))) (stored @ concat (take (Suc k) (q # P)))"
    using assms unfolding journal_def by (metis Suc_le_mono length_Cons)
  then show "consistent base (foldl (++) (tbl ++ p) (take k S)) ((stored @ q) @ concat (take k P))" by simp
qed (use assms in \<open>simp_all add: journal_def\<close>)

lemma journal_same_rows:
  assumes "journal base tbl stored S P m" and "mg_stats m' = mg_stats m" and "mg_lastId m' = mg_lastId m"
  shows "journal base tbl stored S P m'"
  using assms by (simp add: journal_def)

end

section \<open>The managers\<close>

definition freemin_charge :: "Call \<Rightarrow> int option" where
  "freemin_charge c = (if c_number_service_id c = 0 \<or> c_service_package_id c \<noteq> 1 \<or> c_service_package_stats_id c = 0
     then None else Some (c_service_package_stats_id c))"

definition id_charge :: "int \<Rightarrow> int option" where
  "id_charge i = (if i = 0 then None else Some i)"

interpretation freemin: counter_journal sf_id sf_service_number_id sf_used_seconds freemin_charge c_package_time
    updateStatsFreemin StatsFreemin_add
  by unfold_locales (auto simp: StatsFreemin_add_def freemin_charge_def updateStatsFreemin_def)

interpretation trunk_settings: counter_journal ts_id ts_trunk_settings_id ts_used_seconds "id_charge \<circ> c_trunk_settings_stats_id"
    c_billed_time updateStatsTrunkSettings StatsTrunkSettings_add
  by unfold_locales (auto simp: StatsTrunkSettings_add_def id_charge_def updateStatsTrunkSettings_def)

interpretation package_minute: counter_journal sm_id sm_nnp_account_tariff_light_id sm_used_seconds
    "id_charge \<circ> c_stats_nnp_package_minute_id" c_package_time updateStatsNNPPackageMinute StatsNNPPackageMinute_add
  by unfold_locales (auto simp: StatsNNPPackageMinute_add_def id_charge_def updateStatsNNPPackageMinute_def)

end
