(* ===== verification/Save_System.thy ===== *)
theory Save_System
  imports Save_Journal
begin

text \<open>
  \<open>DataBillingContainer::save\<close> and what runs beside it. The save is a sequence of critical sections: open
  a new partition, prepare the six queries from the first partitions one by one, execute them in one
  transaction, drop the first partitions. Between any two sections the pricing may add calls and create
  counters, records may be fetched and counters synchronised. The step relation interleaves these
  sections; the mutexes \<open>saveLock\<close> and \<open>calcCallsLock\<close> admit one save and one pricing at a time.
\<close>

section \<open>The data base\<close>

text \<open>One table of calls per month, and the counters by their key. Inserting a counter row replaces the
  row of the same key, as the rules of the tables do (\<^verbatim>\<open>install/sql\<close>).\<close>

record Database =
  db_calls :: "int \<Rightarrow> sql_value list list"
  db_account :: "int \<rightharpoonup> StatsAccount"
  db_freemin :: "int \<rightharpoonup> StatsFreemin"
  db_package :: "int \<rightharpoonup> StatsPackage"
  db_trunkSettings :: "int \<rightharpoonup> StatsTrunkSettings"
  db_minute :: "int \<rightharpoonup> StatsNNPPackageMinute"

record SaveQueries =
  sq_calls :: "int \<rightharpoonup> sql_value list list"
  sq_account :: "int \<rightharpoonup> StatsAccount"
  sq_freemin :: "int \<rightharpoonup> StatsFreemin"
  sq_package :: "int \<rightharpoonup> StatsPackage"
  sq_trunkSettings :: "int \<rightharpoonup> StatsTrunkSettings"
  sq_minute :: "int \<rightharpoonup> StatsNNPPackageMinute"

definition SaveQueries_new :: SaveQueries where
  "SaveQueries_new = \<lparr> sq_calls = Map.empty, sq_account = Map.empty, sq_freemin = Map.empty,
     sq_package = Map.empty, sq_trunkSettings = Map.empty, sq_minute = Map.empty \<rparr>"

definition executeSaveQueries :: "SaveQueries \<Rightarrow> Database \<Rightarrow> Database" where
  "executeSaveQueries q db = \<lparr>
     db_calls = (\<lambda>month. db_calls db month @ (case sq_calls q month of None \<Rightarrow> [] | Some rows \<Rightarrow> rows)),
     db_account = db_account db ++ sq_account q, db_freemin = db_freemin db ++ sq_freemin q,
     db_package = db_package db ++ sq_package q, db_trunkSettings = db_trunkSettings db ++ sq_trunkSettings q,
     db_minute = db_minute db ++ sq_minute q \<rparr>"

section \<open>The sections of a save\<close>

text \<open>The first section: \<open>None\<close> for an exception, \<open>Some None\<close> when there is nothing to save.\<close>

definition save_open :: "DataBillingContainer \<Rightarrow> DataBillingContainer option option" where
  "save_open d =
     map_option (\<lambda>need.
       if \<not> need then None
       else Some (if cm_isNeedCreatePartitionBeforeSave (bd_calls d) then bd_createNewPartition d else d))
     (cm_isNeedSave (bd_calls d))"

definition first_part :: "'a list \<Rightarrow> 'a option" where
  "first_part parts = (case parts of [] \<Rightarrow> None | p # ps \<Rightarrow> Some p)"

definition prepare_section :: "nat \<Rightarrow> DataBillingContainer \<Rightarrow> SaveQueries \<Rightarrow> SaveQueries option" where
  "prepare_section k d q =
     (if k = 0 then map_option (\<lambda>(qs, months). q\<lparr> sq_calls := qs \<rparr>) (cm_prepareSaveQueries (bd_calls d))
      else if k = 1 then map_option (\<lambda>p. q\<lparr> sq_account := p \<rparr>) (first_part (am_parts (bd_statsAccount d)))
      else if k = 2 then map_option (\<lambda>p. q\<lparr> sq_freemin := p \<rparr>) (first_part (mg_parts (bd_statsFreemin d)))
      else if k = 3 then map_option (\<lambda>p. q\<lparr> sq_package := p \<rparr>) (first_part (mg_parts (bd_statsPackage d)))
      else if k = 4 then map_option (\<lambda>p. q\<lparr> sq_trunkSettings := p \<rparr>) (first_part (mg_parts (bd_statsTrunkSettings d)))
      else map_option (\<lambda>p. q\<lparr> sq_minute := p \<rparr>) (first_part (mg_parts (bd_statsNNPPackageMinute d))))"

text \<open>A save that nothing interrupts. \<open>ok\<close> is whether the transaction goes through; otherwise its
  exception leaves \<open>save\<close> and the partitions stay.\<close>

definition save :: "bool \<Rightarrow> DataBillingContainer \<times> Database \<Rightarrow> (DataBillingContainer \<times> Database) option" where
  "save ok = (\<lambda>(d, db).
     Option.bind (save_open d) (\<lambda>opened. case opened of
       None \<Rightarrow> Some (d, db)
     | Some d1 \<Rightarrow>
         Option.bind (foldl (\<lambda>q k. Option.bind q (prepare_section k d1)) (Some SaveQueries_new) [0..<6]) (\<lambda>q.
           if ok then map_option (\<lambda>d2. (d2, executeSaveQueries q db)) (bd_removePartitionAfterSave d1)
           else Some (d1, db))))"

section \<open>Interleaving\<close>

datatype SaveState = Idle | Preparing nat SaveQueries | Committed

text \<open>\<open>sy_log\<close> records every call added, in order.\<close>

record System =
  sy_data :: DataBillingContainer
  sy_db :: Database
  sy_save :: SaveState
  sy_log :: "Call list"

text \<open>The pricing adds calls whose counters it has created or found before.\<close>

definition rows_known :: "Call \<Rightarrow> DataBillingContainer \<Rightarrow> bool" where
  "rows_known call d \<longleftrightarrow>
     (case freemin_charge call of Some i \<Rightarrow> mg_stats (bd_statsFreemin d) i \<noteq> None | None \<Rightarrow> True) \<and>
     (case id_charge (c_trunk_settings_stats_id call) of
        Some i \<Rightarrow> mg_stats (bd_statsTrunkSettings d) i \<noteq> None | None \<Rightarrow> True) \<and>
     (case id_charge (c_stats_nnp_package_minute_id call) of
        Some i \<Rightarrow> mg_stats (bd_statsNNPPackageMinute d) i \<noteq> None | None \<Rightarrow> True)"

inductive pricing_step :: "System \<Rightarrow> System \<Rightarrow> bool" where
  add_call: "addCall call ci (sy_data s) = Some d \<Longrightarrow> rows_known call (sy_data s) \<Longrightarrow>
     pricing_step s (s\<lparr> sy_data := d, sy_log := sy_log s @ [call] \<rparr>)"
| get_freemin: "StatsFreemin_getCurrent call dt (bd_statsFreemin (sy_data s)) = Some (row, m) \<Longrightarrow>
     pricing_step s (s\<lparr> sy_data := (sy_data s)\<lparr> bd_statsFreemin := m \<rparr> \<rparr>)"
| get_package: "StatsPackage_getCurrent call account sp tp (bd_statsPackage (sy_data s)) = Some (row', m') \<Longrightarrow>
     pricing_step s (s\<lparr> sy_data := (sy_data s)\<lparr> bd_statsPackage := m' \<rparr> \<rparr>)"
| get_trunkSettings:
    "StatsTrunkSettings_getCurrent t account ts (bd_statsTrunkSettings (sy_data s)) = Some (row'', m'') \<Longrightarrow>
     pricing_step s (s\<lparr> sy_data := (sy_data s)\<lparr> bd_statsTrunkSettings := m'' \<rparr> \<rparr>)"
| get_minute:
    "StatsNNPPackageMinute_getCurrent t pm atl (bd_statsNNPPackageMinute (sy_data s)) = Some (row''', m''') \<Longrightarrow>
     pricing_step s (s\<lparr> sy_data := (sy_data s)\<lparr> bd_statsNNPPackageMinute := m''' \<rparr> \<rparr>)"
| queue_changed: "pricing_step s (s\<lparr> sy_data := (sy_data s)\<lparr> bd_cdrs := cdrs \<rparr> \<rparr>)"

inductive save_step :: "System \<Rightarrow> System \<Rightarrow> bool" where
  opened: "sy_save s = Idle \<Longrightarrow> save_open (sy_data s) = Some (Some d) \<Longrightarrow>
     save_step s (s\<lparr> sy_data := d, sy_save := Preparing 0 SaveQueries_new \<rparr>)"
| prepared: "sy_save s = Preparing k q \<Longrightarrow> k < 6 \<Longrightarrow> prepare_section k (sy_data s) q = Some q' \<Longrightarrow>
     save_step s (s\<lparr> sy_save := Preparing (Suc k) q' \<rparr>)"
| committed: "sy_save s = Preparing 6 q \<Longrightarrow>
     save_step s (s\<lparr> sy_db := executeSaveQueries q (sy_db s), sy_save := Committed \<rparr>)"
| removed: "sy_save s = Committed \<Longrightarrow> bd_removePartitionAfterSave (sy_data s) = Some d \<Longrightarrow>
     save_step s (s\<lparr> sy_data := d, sy_save := Idle \<rparr>)"

text \<open>Any exception of the data base during a save ends it before the commit.\<close>

inductive fail_step :: "System \<Rightarrow> System \<Rightarrow> bool" where
  failed: "sy_save s = Preparing k q \<Longrightarrow> fail_step s (s\<lparr> sy_save := Idle \<rparr>)"

text \<open>The synchronisation takes the changed sums of the accounts and gives them back after a failure;
  sums of accounts are read again. (The other managers synchronise from the tables.)\<close>

inductive sync_step :: "System \<Rightarrow> System \<Rightarrow> bool" where
  account_changes: "sync_step s (s\<lparr> sy_data := (sy_data s)\<lparr>
     bd_statsAccount := snd (snd (StatsAccount_getChanges (bd_statsAccount (sy_data s)))) \<rparr> \<rparr>)"
| account_returned: "sync_step s (s\<lparr> sy_data := (sy_data s)\<lparr>
     bd_statsAccount := StatsAccount_addChanges ch clear (bd_statsAccount (sy_data s)) \<rparr> \<rparr>)"
| account_reloaded: "sync_step s (s\<lparr> sy_data := (sy_data s)\<lparr>
     bd_statsAccount := reloadSum rows (bd_statsAccount (sy_data s)) \<rparr> \<rparr>)"

definition sys_step :: "System \<Rightarrow> System \<Rightarrow> bool" where
  "sys_step s s' \<longleftrightarrow> pricing_step s s' \<or> save_step s s' \<or> fail_step s s' \<or> sync_step s s'"

section \<open>Partitions that only change at their end\<close>

definition same_front :: "'a list \<Rightarrow> 'a list \<Rightarrow> bool" where
  "same_front xs ys \<longleftrightarrow> length ys = length xs \<and> butlast ys = butlast xs"

lemma same_front_refl [simp]: "same_front xs xs"
  by (simp add: same_front_def)

lemma same_front_last: "xs \<noteq> [] \<Longrightarrow> same_front xs (butlast xs @ [y])"
  by (simp add: same_front_def)

lemma same_front_first:
  assumes "same_front xs ys" and "length xs > 1"
  shows "first_part ys = first_part xs"
proof -
  obtain x xs' where "xs = x # xs'" "xs' \<noteq> []" using assms(2) by (cases xs) auto
  moreover obtain y ys' where "ys = y # ys'" using assms by (cases ys) (auto simp: same_front_def)
  ultimately show ?thesis using assms(1) by (auto simp: same_front_def first_part_def split: if_splits)
qed

lemma mg_register_front: "mg_register i s m = Some m' \<Longrightarrow> same_front (mg_parts m) (mg_parts m')"
  by (auto simp: mg_register_def same_front_def split: if_splits)

lemma mg_update_front: "mg_update i f m = Some m' \<Longrightarrow> same_front (mg_parts m) (mg_parts m')"
  by (auto simp: mg_update_def dest!: mg_register_front split: option.splits)

lemma mg_getCurrent_front: "mg_getCurrent k p mk m = Some (s, m') \<Longrightarrow> same_front (mg_parts m) (mg_parts m')"
  by (auto simp: mg_getCurrent_def mg_create_def Let_def push_id_def dest!: mg_register_front split: option.splits)

lemma add_account_front: "add_account call ci m = Some m' \<Longrightarrow> same_front (am_parts m) (am_parts m')"
  by (auto simp: add_account_def StatsAccount_add_def Let_def same_front_def split: if_splits option.splits)

lemma cm_add_front: "cm_add call m = Some m' \<Longrightarrow> same_front (cm_parts m) (cm_parts m')"
  by (auto simp: cm_add_def same_front_def split: if_splits)

lemma add_front:
  "StatsFreemin_add call m1 = Some m1' \<Longrightarrow> same_front (mg_parts m1) (mg_parts m1')"
  "StatsPackage_add call prepaid m2 = Some m2' \<Longrightarrow> same_front (mg_parts m2) (mg_parts m2')"
  "StatsTrunkSettings_add call m3 = Some m3' \<Longrightarrow> same_front (mg_parts m3) (mg_parts m3')"
  "StatsNNPPackageMinute_add call m4 = Some m4' \<Longrightarrow> same_front (mg_parts m4) (mg_parts m4')"
  by (auto simp: StatsFreemin_add_def StatsPackage_add_def StatsTrunkSettings_add_def StatsNNPPackageMinute_add_def
      split: if_splits intro: mg_update_front)

section \<open>What is stored\<close>

definition rows_of :: "int \<Rightarrow> Call list \<Rightarrow> sql_value list list" where
  "rows_of month cs = map calls_insert_row (filter (\<lambda>c. call_month c = month) cs)"

lemma rows_of_append [simp]: "rows_of m (xs @ ys) = rows_of m xs @ rows_of m ys"
  by (simp add: rows_of_def)

lemma query_rows:
  "fst (foldl add_to_query (q, months) p) m =
     (if rows_of m p = [] then q m else Some ((case q m of None \<Rightarrow> [] | Some r \<Rightarrow> r) @ rows_of m p))"
proof (induction p arbitrary: q months)
  case (Cons c p)
  obtain q1 months1 where a: "add_to_query (q, months) c = (q1, months1)" by fastforce
  have "q1 m = (if call_month c = m then Some ((case q m of None \<Rightarrow> [] | Some r \<Rightarrow> r) @ [calls_insert_row c]) else q m)"
    using a by (auto simp: add_to_query_def Let_def split: option.splits)
  then show ?case using Cons.IH [of q1 months1] a by (auto simp: rows_of_def split: option.splits)
qed (simp add: rows_of_def)

text \<open>The partitions that are not stored: all of them, without the first between commit and removal.\<close>

definition pend :: "SaveState \<Rightarrow> 'a list \<Rightarrow> 'a list" where
  "pend st parts = (case st of Committed \<Rightarrow> tl parts | _ \<Rightarrow> parts)"

definition pending :: "System \<Rightarrow> Call list" where
  "pending s = concat (pend (sy_save s) (cm_parts (bd_calls (sy_data s))))"

lemma pend_split:
  assumes "length parts > 0" and "st \<noteq> Idle \<Longrightarrow> length parts > 1"
  obtains X where "parts = X @ pend st parts" and "pend st parts \<noteq> []" and "\<And>S. pend st (X @ S) = S"
proof (cases "st = Committed")
  case True
  then obtain x xs where "parts = x # xs" "xs \<noteq> []" using assms by (cases parts) auto
  then show ?thesis using that [of "[x]"] True by (simp add: pend_def)
next
  case False
  then show ?thesis using that [of "[]"] assms(1) by (cases st) (simp_all add: pend_def)
qed

lemma pend_snoc: "parts \<noteq> [] \<Longrightarrow> pend st (parts @ [x]) = pend st parts @ [x]"
  by (cases st) (simp_all add: pend_def)

lemma length_pend: "length (pend st parts) = length parts - (if st = Committed then 1 else 0)"
  by (cases st) (simp_all add: pend_def)

end
