(* ===== verification/Save_Invariant.thy ===== *)
theory Save_Invariant
  imports Save_System
begin

text \<open>
  The invariant of the step relation of \<open>Save_System\<close>: the partitions of calls and counters stay in step,
  the queries prepared so far are the first partitions, the tables of calls hold exactly the calls added
  and not pending, and the counter tables account for exactly the stored calls.
\<close>

section \<open>The invariant\<close>

definition aligned :: "DataBillingContainer \<Rightarrow> nat \<Rightarrow> bool" where
  "aligned d n \<longleftrightarrow> length (cm_parts (bd_calls d)) = n \<and> length (am_parts (bd_statsAccount d)) = n \<and>
     length (mg_parts (bd_statsFreemin d)) = n \<and> length (mg_parts (bd_statsPackage d)) = n \<and>
     length (mg_parts (bd_statsTrunkSettings d)) = n \<and> length (mg_parts (bd_statsNNPPackageMinute d)) = n"

definition prepared_ok :: "nat \<Rightarrow> SaveQueries \<Rightarrow> DataBillingContainer \<Rightarrow> bool" where
  "prepared_ok k q d \<longleftrightarrow>
     (0 < k \<longrightarrow> Some (sq_calls q) = map_option (\<lambda>p. fst (foldl add_to_query (Map.empty, []) p)) (first_part (cm_parts (bd_calls d)))) \<and>
     (2 < k \<longrightarrow> Some (sq_freemin q) = first_part (mg_parts (bd_statsFreemin d))) \<and>
     (4 < k \<longrightarrow> Some (sq_trunkSettings q) = first_part (mg_parts (bd_statsTrunkSettings d))) \<and>
     (5 < k \<longrightarrow> Some (sq_minute q) = first_part (mg_parts (bd_statsNNPPackageMinute d)))"

text \<open>What the counter tables held for the calls stored before the start.\<close>

record Base =
  ba_freemin :: "int \<Rightarrow> int"
  ba_trunkSettings :: "int \<Rightarrow> int"
  ba_minute :: "int \<Rightarrow> int"

definition journals :: "Base \<Rightarrow> Database \<Rightarrow> SaveState \<Rightarrow> DataBillingContainer \<Rightarrow> Call list \<Rightarrow> bool" where
  "journals b db st d stored \<longleftrightarrow>
     freemin.journal (ba_freemin b) (db_freemin db) stored (pend st (mg_parts (bd_statsFreemin d)))
       (pend st (cm_parts (bd_calls d))) (bd_statsFreemin d) \<and>
     trunk_settings.journal (ba_trunkSettings b) (db_trunkSettings db) stored
       (pend st (mg_parts (bd_statsTrunkSettings d))) (pend st (cm_parts (bd_calls d))) (bd_statsTrunkSettings d) \<and>
     package_minute.journal (ba_minute b) (db_minute db) stored (pend st (mg_parts (bd_statsNNPPackageMinute d)))
       (pend st (cm_parts (bd_calls d))) (bd_statsNNPPackageMinute d)"

definition calls_stored :: "Database \<Rightarrow> Database \<Rightarrow> Call list \<Rightarrow> bool" where
  "calls_stored db0 db stored \<longleftrightarrow> (\<forall>m. db_calls db m = db_calls db0 m @ rows_of m stored)"

definition shape :: "SaveState \<Rightarrow> DataBillingContainer \<Rightarrow> bool" where
  "shape st d \<longleftrightarrow> (\<exists>n. aligned d n \<and> 0 < n \<and> (st \<noteq> Idle \<longrightarrow> 1 < n)) \<and>
     (case st of Preparing k q \<Rightarrow> k \<le> 6 \<and> prepared_ok k q d | _ \<Rightarrow> True)"

definition sys_inv :: "Base \<Rightarrow> Database \<Rightarrow> System \<Rightarrow> bool" where
  "sys_inv b db0 s \<longleftrightarrow> shape (sy_save s) (sy_data s) \<and>
     (\<exists>stored. sy_log s = stored @ pending s \<and> calls_stored db0 (sy_db s) stored \<and>
        journals b (sy_db s) (sy_save s) (sy_data s) stored)"

section \<open>Shape\<close>

definition fronts :: "DataBillingContainer \<Rightarrow> DataBillingContainer \<Rightarrow> bool" where
  "fronts d d' \<longleftrightarrow> same_front (cm_parts (bd_calls d)) (cm_parts (bd_calls d')) \<and>
     same_front (am_parts (bd_statsAccount d)) (am_parts (bd_statsAccount d')) \<and>
     same_front (mg_parts (bd_statsFreemin d)) (mg_parts (bd_statsFreemin d')) \<and>
     same_front (mg_parts (bd_statsPackage d)) (mg_parts (bd_statsPackage d')) \<and>
     same_front (mg_parts (bd_statsTrunkSettings d)) (mg_parts (bd_statsTrunkSettings d')) \<and>
     same_front (mg_parts (bd_statsNNPPackageMinute d)) (mg_parts (bd_statsNNPPackageMinute d'))"

lemma fronts_refl [simp]: "fronts d d"
  by (simp add: fronts_def)

lemma aligned_fronts: "fronts d d' \<Longrightarrow> aligned d n \<Longrightarrow> aligned d' n"
  by (simp add: fronts_def aligned_def same_front_def)

lemma prepared_fronts:
  assumes "fronts d d'" and "aligned d n" and "1 < n"
  shows "prepared_ok k q d' = prepared_ok k q d"
proof -
  have "first_part (cm_parts (bd_calls d')) = first_part (cm_parts (bd_calls d))"
    "first_part (mg_parts (bd_statsFreemin d')) = first_part (mg_parts (bd_statsFreemin d))"
    "first_part (mg_parts (bd_statsTrunkSettings d')) = first_part (mg_parts (bd_statsTrunkSettings d))"
    "first_part (mg_parts (bd_statsNNPPackageMinute d')) = first_part (mg_parts (bd_statsNNPPackageMinute d))"
    using assms by (auto simp: fronts_def aligned_def intro!: same_front_first)
  then show ?thesis by (simp add: prepared_ok_def)
qed

lemma shape_fronts: "fronts d d' \<Longrightarrow> shape st d \<Longrightarrow> shape st d'"
  using aligned_fronts [of d d'] prepared_fronts [of d d']
  by (cases st) (auto simp: shape_def)

lemma first_part_snoc: "xs \<noteq> [] \<Longrightarrow> first_part (xs @ [x]) = first_part xs"
  by (cases xs) (simp_all add: first_part_def)

lemma new_partition_parts [simp]:
  "cm_parts (bd_calls (bd_createNewPartition d)) = cm_parts (bd_calls d) @ [[]]"
  "am_parts (bd_statsAccount (bd_createNewPartition d)) = am_parts (bd_statsAccount d) @ [Map.empty]"
  "mg_parts (bd_statsFreemin (bd_createNewPartition d)) = mg_parts (bd_statsFreemin d) @ [Map.empty]"
  "mg_parts (bd_statsPackage (bd_createNewPartition d)) = mg_parts (bd_statsPackage d) @ [Map.empty]"
  "mg_parts (bd_statsTrunkSettings (bd_createNewPartition d)) = mg_parts (bd_statsTrunkSettings d) @ [Map.empty]"
  "mg_parts (bd_statsNNPPackageMinute (bd_createNewPartition d)) = mg_parts (bd_statsNNPPackageMinute d) @ [Map.empty]"
  by (simp_all add: bd_createNewPartition_def cm_createNewPartition_def am_createNewPartition_def mg_createNewPartition_def)

lemma new_partition_rows [simp]:
  "mg_stats (bd_statsFreemin (bd_createNewPartition d)) = mg_stats (bd_statsFreemin d)"
  "mg_lastId (bd_statsFreemin (bd_createNewPartition d)) = mg_lastId (bd_statsFreemin d)"
  "mg_stats (bd_statsTrunkSettings (bd_createNewPartition d)) = mg_stats (bd_statsTrunkSettings d)"
  "mg_lastId (bd_statsTrunkSettings (bd_createNewPartition d)) = mg_lastId (bd_statsTrunkSettings d)"
  "mg_stats (bd_statsNNPPackageMinute (bd_createNewPartition d)) = mg_stats (bd_statsNNPPackageMinute d)"
  "mg_lastId (bd_statsNNPPackageMinute (bd_createNewPartition d)) = mg_lastId (bd_statsNNPPackageMinute d)"
  by (simp_all add: bd_createNewPartition_def mg_createNewPartition_def)

lemma aligned_nonempty:
  assumes "aligned d n" and "0 < n"
  shows "cm_parts (bd_calls d) \<noteq> []" "mg_parts (bd_statsFreemin d) \<noteq> []" "mg_parts (bd_statsTrunkSettings d) \<noteq> []"
    "mg_parts (bd_statsNNPPackageMinute d) \<noteq> []"
  using assms by (auto simp: aligned_def)

lemma shape_new_partition:
  assumes "shape st d"
  shows "shape st (bd_createNewPartition d)"
proof -
  obtain n where n: "aligned d n" "0 < n" "st \<noteq> Idle \<Longrightarrow> 1 < n" using assms by (auto simp: shape_def)
  have "aligned (bd_createNewPartition d) (Suc n)" using n(1) by (simp add: aligned_def)
  moreover have "prepared_ok k q (bd_createNewPartition d) = prepared_ok k q d" for k q
    using aligned_nonempty [OF n(1,2)] by (simp add: prepared_ok_def first_part_snoc)
  ultimately show ?thesis using assms n by (cases st) (auto simp: shape_def)
qed

lemma journals_new_partition:
  assumes "shape st d" and "journals b db st d stored"
  shows "journals b db st (bd_createNewPartition d) stored"
proof -
  obtain n where "aligned d n" "0 < n" using assms(1) by (auto simp: shape_def)
  note ne = aligned_nonempty [OF this]
  show ?thesis using assms(2) ne
    by (auto simp: journals_def pend_snoc intro: freemin.journal_partition trunk_settings.journal_partition
        package_minute.journal_partition)
qed

section \<open>The pricing\<close>

text \<open>The parts of \<open>addCall\<close>: the managers, and perhaps a new partition.\<close>

lemma addCall_parts:
  assumes "addCall call ci d = Some d'"
  obtains account fm pk ts mi calls d1 where
    "add_account call ci (bd_statsAccount d) = Some account" "StatsFreemin_add call (bd_statsFreemin d) = Some fm"
    "StatsPackage_add call (ci_servicePackagePrepaid ci \<noteq> None) (bd_statsPackage d) = Some pk"
    "StatsTrunkSettings_add call (bd_statsTrunkSettings d) = Some ts"
    "StatsNNPPackageMinute_add call (bd_statsNNPPackageMinute d) = Some mi" "cm_add call (bd_calls d) = Some calls"
    "d1 = d\<lparr> bd_calls := calls, bd_statsAccount := account, bd_statsFreemin := fm, bd_statsPackage := pk,
       bd_statsTrunkSettings := ts, bd_statsNNPPackageMinute := mi \<rparr>"
    "d' = d1 \<or> d' = bd_createNewPartition d1"
  using assms by (auto simp: addCall_def bind_eq_Some_conv Let_def split: if_splits)

lemma journals_add:
  assumes shape: "shape st d" and j: "journals b db st d stored" and known: "rows_known call d"
    and adds: "StatsFreemin_add call (bd_statsFreemin d) = Some fm" "StatsTrunkSettings_add call (bd_statsTrunkSettings d) = Some ts"
      "StatsNNPPackageMinute_add call (bd_statsNNPPackageMinute d) = Some mi" "cm_add call (bd_calls d) = Some calls"
    and d1: "bd_calls d1 = calls" "bd_statsFreemin d1 = fm" "bd_statsTrunkSettings d1 = ts" "bd_statsNNPPackageMinute d1 = mi"
  shows "journals b db st d1 stored"
    and "concat (pend st (cm_parts calls)) = concat (pend st (cm_parts (bd_calls d))) @ [call]"
proof -
  obtain n where n: "aligned d n" "0 < n" "st \<noteq> Idle \<Longrightarrow> 1 < n" using shape by (auto simp: shape_def)
  have len: "length (cm_parts (bd_calls d)) = n" "length (mg_parts (bd_statsFreemin d)) = n"
    "length (mg_parts (bd_statsTrunkSettings d)) = n" "length (mg_parts (bd_statsNNPPackageMinute d)) = n"
    using n(1) by (simp_all add: aligned_def)
  obtain X where X: "cm_parts (bd_calls d) = X @ pend st (cm_parts (bd_calls d))" "pend st (cm_parts (bd_calls d)) \<noteq> []"
      "\<And>S. pend st (X @ S) = S" using pend_split [of "cm_parts (bd_calls d)" st] n len by metis
  obtain P q where P: "pend st (cm_parts (bd_calls d)) = P @ [q]" using X(2) by (metis rev_exhaust)
  have calls: "cm_parts calls = X @ P @ [q @ [call]]" using adds(4) X(1) P
    by (auto simp: cm_add_def butlast_append split: if_splits)
  show "concat (pend st (cm_parts calls)) = concat (pend st (cm_parts (bd_calls d))) @ [call]"
    using X(3) by (simp add: calls P)
  obtain F where F: "mg_parts (bd_statsFreemin d) = F @ pend st (mg_parts (bd_statsFreemin d))"
      "pend st (mg_parts (bd_statsFreemin d)) \<noteq> []" "\<And>S. pend st (F @ S) = S"
    using pend_split [of "mg_parts (bd_statsFreemin d)" st] n len by metis
  obtain T where T: "mg_parts (bd_statsTrunkSettings d) = T @ pend st (mg_parts (bd_statsTrunkSettings d))"
      "pend st (mg_parts (bd_statsTrunkSettings d)) \<noteq> []" "\<And>S. pend st (T @ S) = S"
    using pend_split [of "mg_parts (bd_statsTrunkSettings d)" st] n len by metis
  obtain M where M: "mg_parts (bd_statsNNPPackageMinute d) = M @ pend st (mg_parts (bd_statsNNPPackageMinute d))"
      "pend st (mg_parts (bd_statsNNPPackageMinute d)) \<noteq> []" "\<And>S. pend st (M @ S) = S"
    using pend_split [of "mg_parts (bd_statsNNPPackageMinute d)" st] n len by metis
  note js = j [unfolded journals_def P]
  have k: "freemin_charge call = Some i \<Longrightarrow> mg_stats (bd_statsFreemin d) i \<noteq> None"
    "(id_charge \<circ> c_trunk_settings_stats_id) call = Some i \<Longrightarrow> mg_stats (bd_statsTrunkSettings d) i \<noteq> None"
    "(id_charge \<circ> c_stats_nnp_package_minute_id) call = Some i \<Longrightarrow> mg_stats (bd_statsNNPPackageMinute d) i \<noteq> None" for i
    using known by (auto simp: rows_known_def)
  from freemin.journal_add [OF conjunct1 [OF js] F(1,2) k(1) adds(1)]
  obtain F' where "mg_parts fm = F @ F'" "freemin.journal (ba_freemin b) (db_freemin db) stored F' (P @ [q @ [call]]) fm"
    by blast
  moreover from trunk_settings.journal_add [OF conjunct1 [OF conjunct2 [OF js]] T(1,2) k(2) adds(2)]
  obtain T' where "mg_parts ts = T @ T'"
    "trunk_settings.journal (ba_trunkSettings b) (db_trunkSettings db) stored T' (P @ [q @ [call]]) ts" by blast
  moreover from package_minute.journal_add [OF conjunct2 [OF conjunct2 [OF js]] M(1,2) k(3) adds(3)]
  obtain M' where "mg_parts mi = M @ M'"
    "package_minute.journal (ba_minute b) (db_minute db) stored M' (P @ [q @ [call]]) mi" by blast
  ultimately show "journals b db st d1 stored" by (simp add: journals_def d1 calls X(3) F(3) T(3) M(3))
qed

text \<open>The partitions not stored of one manager.\<close>

lemma shape_split:
  assumes "shape st d" and "\<And>n. aligned d n \<Longrightarrow> length parts = n"
  obtains X where "parts = X @ pend st parts" and "pend st parts \<noteq> []" and "\<And>S. pend st (X @ S) = S"
proof -
  obtain n where "aligned d n" "0 < n" "st \<noteq> Idle \<Longrightarrow> 1 < n" using assms(1) by (auto simp: shape_def)
  then show ?thesis using pend_split [of parts st] assms(2) that by metis
qed

lemma journals_freemin:
  assumes shape: "shape st d" and j: "journals b db st d stored"
    and got: "StatsFreemin_getCurrent call dt (bd_statsFreemin d) = Some (row, m)"
  shows "journals b db st (d\<lparr> bd_statsFreemin := m \<rparr>) stored"
proof -
  obtain X where X: "mg_parts (bd_statsFreemin d) = X @ pend st (mg_parts (bd_statsFreemin d))"
      "pend st (mg_parts (bd_statsFreemin d)) \<noteq> []" "\<And>S. pend st (X @ S) = S"
    by (rule shape_split [OF shape, of "mg_parts (bd_statsFreemin d)"]) (simp_all add: aligned_def)
  obtain S where "mg_parts m = X @ S" "freemin.journal (ba_freemin b) (db_freemin db) stored S (pend st (cm_parts (bd_calls d))) m"
    using freemin.journal_getCurrent [OF conjunct1 [OF j [unfolded journals_def]] X(1,2) _
        got [unfolded StatsFreemin_getCurrent_def]] by (auto simp: createStatsFreemin_def)
  then show ?thesis using j X(3) by (simp add: journals_def)
qed

lemma journals_trunkSettings:
  assumes shape: "shape st d" and j: "journals b db st d stored"
    and got: "StatsTrunkSettings_getCurrent t account ts (bd_statsTrunkSettings d) = Some (row, m)"
  shows "journals b db st (d\<lparr> bd_statsTrunkSettings := m \<rparr>) stored"
proof -
  obtain X where X: "mg_parts (bd_statsTrunkSettings d) = X @ pend st (mg_parts (bd_statsTrunkSettings d))"
      "pend st (mg_parts (bd_statsTrunkSettings d)) \<noteq> []" "\<And>S. pend st (X @ S) = S"
    by (rule shape_split [OF shape, of "mg_parts (bd_statsTrunkSettings d)"]) (simp_all add: aligned_def)
  obtain S where "mg_parts m = X @ S"
    "trunk_settings.journal (ba_trunkSettings b) (db_trunkSettings db) stored S (pend st (cm_parts (bd_calls d))) m"
    using trunk_settings.journal_getCurrent [OF conjunct1 [OF conjunct2 [OF j [unfolded journals_def]]] X(1,2) _
        got [unfolded StatsTrunkSettings_getCurrent_def]] by (auto simp: createStatsTrunkSettings_def)
  then show ?thesis using j X(3) by (simp add: journals_def)
qed

lemma journals_minute:
  assumes shape: "shape st d" and j: "journals b db st d stored"
    and got: "StatsNNPPackageMinute_getCurrent t pm atl (bd_statsNNPPackageMinute d) = Some (row, m)"
  shows "journals b db st (d\<lparr> bd_statsNNPPackageMinute := m \<rparr>) stored"
proof -
  obtain X where X: "mg_parts (bd_statsNNPPackageMinute d) = X @ pend st (mg_parts (bd_statsNNPPackageMinute d))"
      "pend st (mg_parts (bd_statsNNPPackageMinute d)) \<noteq> []" "\<And>S. pend st (X @ S) = S"
    by (rule shape_split [OF shape, of "mg_parts (bd_statsNNPPackageMinute d)"]) (simp_all add: aligned_def)
  obtain S where "mg_parts m = X @ S"
    "package_minute.journal (ba_minute b) (db_minute db) stored S (pend st (cm_parts (bd_calls d))) m"
    using package_minute.journal_getCurrent [OF conjunct2 [OF conjunct2 [OF j [unfolded journals_def]]] X(1,2) _
        got [unfolded StatsNNPPackageMinute_getCurrent_def]] by (auto simp: createStatsNNPPackageMinute_def)
  then show ?thesis using j X(3) by (simp add: journals_def)
qed

text \<open>Changes that leave the partitions and rows of the calls and the journaled counters alone.\<close>

lemma sys_inv_same:
  assumes "sys_inv b db0 s" and "fronts (sy_data s) d" and "bd_calls d = bd_calls (sy_data s)"
    and "bd_statsFreemin d = bd_statsFreemin (sy_data s)" and "bd_statsTrunkSettings d = bd_statsTrunkSettings (sy_data s)"
    and "bd_statsNNPPackageMinute d = bd_statsNNPPackageMinute (sy_data s)"
  shows "sys_inv b db0 (s\<lparr> sy_data := d \<rparr>)"
  using assms shape_fronts [OF assms(2)] by (simp add: sys_inv_def pending_def journals_def)

lemma getCurrent_fronts:
  "StatsFreemin_getCurrent call dt (bd_statsFreemin d) = Some (r1, m1) \<Longrightarrow> fronts d (d\<lparr> bd_statsFreemin := m1 \<rparr>)"
  "StatsPackage_getCurrent call account sp tp (bd_statsPackage d) = Some (r2, m2) \<Longrightarrow> fronts d (d\<lparr> bd_statsPackage := m2 \<rparr>)"
  "StatsTrunkSettings_getCurrent t account ts (bd_statsTrunkSettings d) = Some (r3, m3) \<Longrightarrow>
     fronts d (d\<lparr> bd_statsTrunkSettings := m3 \<rparr>)"
  "StatsNNPPackageMinute_getCurrent t pm atl (bd_statsNNPPackageMinute d) = Some (r4, m4) \<Longrightarrow>
     fronts d (d\<lparr> bd_statsNNPPackageMinute := m4 \<rparr>)"
  by (auto simp: fronts_def StatsFreemin_getCurrent_def StatsPackage_getCurrent_def StatsTrunkSettings_getCurrent_def
      StatsNNPPackageMinute_getCurrent_def dest: mg_getCurrent_front)

lemma pricing_step_inv:
  assumes "pricing_step s s'" and "sys_inv b db0 s"
  shows "sys_inv b db0 s'"
proof -
  obtain stored where inv: "shape (sy_save s) (sy_data s)" "sy_log s = stored @ pending s"
    "calls_stored db0 (sy_db s) stored" "journals b (sy_db s) (sy_save s) (sy_data s) stored"
    using assms(2) by (auto simp: sys_inv_def)
  show ?thesis using assms(1)
  proof cases
    case (add_call call ci d)
    from add_call(2) obtain account fm pk ts mi calls d1 where a:
      "add_account call ci (bd_statsAccount (sy_data s)) = Some account" "StatsFreemin_add call (bd_statsFreemin (sy_data s)) = Some fm"
      "StatsPackage_add call (ci_servicePackagePrepaid ci \<noteq> None) (bd_statsPackage (sy_data s)) = Some pk"
      "StatsTrunkSettings_add call (bd_statsTrunkSettings (sy_data s)) = Some ts"
      "StatsNNPPackageMinute_add call (bd_statsNNPPackageMinute (sy_data s)) = Some mi"
      "cm_add call (bd_calls (sy_data s)) = Some calls"
      "d1 = (sy_data s)\<lparr> bd_calls := calls, bd_statsAccount := account, bd_statsFreemin := fm, bd_statsPackage := pk,
         bd_statsTrunkSettings := ts, bd_statsNNPPackageMinute := mi \<rparr>"
      and d: "d = d1 \<or> d = bd_createNewPartition d1" by (rule addCall_parts)
    have "fronts (sy_data s) d1" using a by (simp add: fronts_def add_account_front add_front cm_add_front)
    then have shape: "shape (sy_save s) d1" using inv(1) shape_fronts by blast
    note added = journals_add [OF inv(1,4) add_call(3) a(2,4,5,6), of d1]
    have j: "journals b (sy_db s) (sy_save s) d1 stored" using added(1) by (simp add: a(7))
    have calls: "concat (pend (sy_save s) (cm_parts (bd_calls d1))) = pending s @ [call]"
      using added(2) by (simp add: a(7) pending_def)
    have "cm_parts (bd_calls d1) \<noteq> []" using a(6,7) by (auto simp: cm_add_def split: if_splits)
    then have "concat (pend (sy_save s) (cm_parts (bd_calls d))) = pending s @ [call]" using d calls
      by (auto simp: pend_snoc)
    moreover have "shape (sy_save s) d" "journals b (sy_db s) (sy_save s) d stored"
      using d shape j shape_new_partition journals_new_partition by blast+
    ultimately show ?thesis using add_call(1) inv(2,3) by (auto simp: sys_inv_def pending_def)
  next
    case (get_freemin call dt row m)
    then show ?thesis using inv journals_freemin [OF inv(1,4)] shape_fronts [OF getCurrent_fronts(1) inv(1)]
      by (auto simp: sys_inv_def pending_def)
  next
    case (get_package call account sp tp row m)
    then show ?thesis using sys_inv_same [OF assms(2) getCurrent_fronts(2)] by auto
  next
    case (get_trunkSettings t account ts row m)
    then show ?thesis using inv journals_trunkSettings [OF inv(1,4)] shape_fronts [OF getCurrent_fronts(3) inv(1)]
      by (auto simp: sys_inv_def pending_def)
  next
    case (get_minute t pm atl row m)
    then show ?thesis using inv journals_minute [OF inv(1,4)] shape_fronts [OF getCurrent_fronts(4) inv(1)]
      by (auto simp: sys_inv_def pending_def)
  next
    case (queue_changed cdrs)
    then show ?thesis using sys_inv_same [OF assms(2), of "(sy_data s)\<lparr> bd_cdrs := cdrs \<rparr>"] by (simp add: fronts_def)
  qed
qed

section \<open>Synchronisation\<close>

lemma reloadSum_parts: "am_parts (reloadSum rows m) = am_parts m"
  unfolding reloadSum_def by (induction rows arbitrary: m) (simp_all split: prod.splits)

lemma sync_step_inv:
  assumes "sync_step s s'" and "sys_inv b db0 s"
  shows "sys_inv b db0 s'"
  using assms(1)
proof cases
  case account_changes
  then show ?thesis using sys_inv_same [OF assms(2)] by (auto simp: fronts_def StatsAccount_getChanges_def Let_def)
next
  case (account_returned ch clear)
  then show ?thesis using sys_inv_same [OF assms(2)] by (auto simp: fronts_def StatsAccount_addChanges_def)
next
  case (account_reloaded rows)
  then show ?thesis using sys_inv_same [OF assms(2)] by (auto simp: fronts_def reloadSum_parts)
qed

section \<open>The save\<close>

lemma save_open_cases:
  assumes "save_open d = Some (Some d')"
  shows "d' = (if length (cm_parts (bd_calls d)) = 1 then bd_createNewPartition d else d)"
  using assms by (auto simp: save_open_def cm_isNeedCreatePartitionBeforeSave_def split: if_splits)

lemma prepare_section_ok:
  assumes "prepare_section k d q = Some q'" and "prepared_ok k q d" and "k < 6"
  shows "prepared_ok (Suc k) q' d"
proof -
  consider "k = 0" | "k = 1" | "k = 2" | "k = 3" | "k = 4" | "k = 5" using assms(3) by linarith
  then show ?thesis using assms(1,2)
    by cases (auto simp: prepare_section_def prepared_ok_def cm_prepareSaveQueries_def first_part_def split: list.splits)
qed

text \<open>Between commit and removal the first partition has left what is pending; the queries were its rows.\<close>

lemma commit_inv:
  assumes inv: "sys_inv b db0 s" and st: "sy_save s = Preparing 6 q"
  shows "sys_inv b db0 (s\<lparr> sy_db := executeSaveQueries q (sy_db s), sy_save := Committed \<rparr>)"
proof -
  let ?d = "sy_data s"
  obtain stored where i: "sy_log s = stored @ pending s" "calls_stored db0 (sy_db s) stored"
    "journals b (sy_db s) (sy_save s) ?d stored" using inv by (auto simp: sys_inv_def)
  obtain n where n: "aligned ?d n" "1 < n" and ok: "prepared_ok 6 q ?d" using inv st by (auto simp: sys_inv_def shape_def)
  obtain p P where P: "cm_parts (bd_calls ?d) = p # P" using n by (cases "cm_parts (bd_calls ?d)") (auto simp: aligned_def)
  obtain f F where F: "mg_parts (bd_statsFreemin ?d) = f # F"
    using n by (cases "mg_parts (bd_statsFreemin ?d)") (auto simp: aligned_def)
  obtain t T where T: "mg_parts (bd_statsTrunkSettings ?d) = t # T"
    using n by (cases "mg_parts (bd_statsTrunkSettings ?d)") (auto simp: aligned_def)
  obtain m M where M: "mg_parts (bd_statsNNPPackageMinute ?d) = m # M"
    using n by (cases "mg_parts (bd_statsNNPPackageMinute ?d)") (auto simp: aligned_def)
  have q: "sq_calls q = fst (foldl add_to_query (Map.empty, []) p)" "sq_freemin q = f" "sq_trunkSettings q = t" "sq_minute q = m"
    using ok by (simp_all add: prepared_ok_def P F T M first_part_def)
  have "journals b (executeSaveQueries q (sy_db s)) Committed ?d (stored @ p)"
    using i(3) by (simp add: journals_def st pend_def P F T M executeSaveQueries_def q freemin.journal_stored
        trunk_settings.journal_stored package_minute.journal_stored)
  moreover have "calls_stored db0 (executeSaveQueries q (sy_db s)) (stored @ p)"
    using i(2) query_rows [of Map.empty "[]" p] by (simp add: calls_stored_def executeSaveQueries_def q)
  moreover have "sy_log s = (stored @ p) @ concat P" using i(1) by (simp add: pending_def st pend_def P)
  moreover have "shape Committed ?d" using n by (auto simp: shape_def)
  ultimately show ?thesis by (auto simp: sys_inv_def pending_def pend_def P)
qed

lemma remove_inv:
  assumes inv: "sys_inv b db0 s" and st: "sy_save s = Committed" and r: "bd_removePartitionAfterSave (sy_data s) = Some d"
  shows "sys_inv b db0 (s\<lparr> sy_data := d, sy_save := Idle \<rparr>)"
proof -
  have parts: "cm_parts (bd_calls d) = tl (cm_parts (bd_calls (sy_data s)))"
    "am_parts (bd_statsAccount d) = tl (am_parts (bd_statsAccount (sy_data s)))"
    "mg_parts (bd_statsFreemin d) = tl (mg_parts (bd_statsFreemin (sy_data s)))"
    "mg_parts (bd_statsPackage d) = tl (mg_parts (bd_statsPackage (sy_data s)))"
    "mg_parts (bd_statsTrunkSettings d) = tl (mg_parts (bd_statsTrunkSettings (sy_data s)))"
    "mg_parts (bd_statsNNPPackageMinute d) = tl (mg_parts (bd_statsNNPPackageMinute (sy_data s)))"
    using r by (auto simp: bd_removePartitionAfterSave_def cm_removePartitionAfterSave_def am_removePartitionAfterSave_def
        mg_removePartitionAfterSave_def split: list.splits if_splits)
  have rows: "mg_stats (bd_statsFreemin d) = mg_stats (bd_statsFreemin (sy_data s))"
    "mg_lastId (bd_statsFreemin d) = mg_lastId (bd_statsFreemin (sy_data s))"
    "mg_stats (bd_statsTrunkSettings d) = mg_stats (bd_statsTrunkSettings (sy_data s))"
    "mg_lastId (bd_statsTrunkSettings d) = mg_lastId (bd_statsTrunkSettings (sy_data s))"
    "mg_stats (bd_statsNNPPackageMinute d) = mg_stats (bd_statsNNPPackageMinute (sy_data s))"
    "mg_lastId (bd_statsNNPPackageMinute d) = mg_lastId (bd_statsNNPPackageMinute (sy_data s))"
    using r by (auto simp: bd_removePartitionAfterSave_def mg_removePartitionAfterSave_def)
  obtain n where "aligned (sy_data s) n" "1 < n" using inv st by (auto simp: sys_inv_def shape_def)
  then have "aligned d (n - 1)" "0 < n - 1" by (simp_all add: aligned_def parts)
  then have "shape Idle d" by (auto simp: shape_def)
  then show ?thesis using inv st
    by (auto simp: sys_inv_def pending_def pend_def parts journals_def rows intro: freemin.journal_same_rows [OF _ rows(1,2)]
        trunk_settings.journal_same_rows [OF _ rows(3,4)] package_minute.journal_same_rows [OF _ rows(5,6)])
qed

lemma save_step_inv:
  assumes "save_step s s'" and inv: "sys_inv b db0 s"
  shows "sys_inv b db0 s'"
  using assms(1)
proof cases
  case (opened d)
  have shape: "shape Idle (sy_data s)" and stored: "\<exists>stored. sy_log s = stored @ pending s \<and>
      calls_stored db0 (sy_db s) stored \<and> journals b (sy_db s) Idle (sy_data s) stored"
    using inv opened(2) by (simp_all add: sys_inv_def)
  obtain n where n: "aligned (sy_data s) n" "0 < n" using shape by (auto simp: shape_def)
  note d = save_open_cases [OF opened(3)]
  have "shape Idle d" "\<And>stored. journals b (sy_db s) Idle (sy_data s) stored \<Longrightarrow> journals b (sy_db s) Idle d stored"
    using d shape shape_new_partition journals_new_partition by auto
  moreover have "\<exists>n. aligned d n \<and> 1 < n" using d n by (auto simp: aligned_def)
  moreover have "concat (cm_parts (bd_calls d)) = concat (cm_parts (bd_calls (sy_data s)))" using d by simp
  ultimately show ?thesis using opened(1,2) stored
    by (auto simp: sys_inv_def shape_def prepared_ok_def pending_def pend_def journals_def)
next
  case (prepared k q q')
  then show ?thesis using inv prepare_section_ok [OF prepared(4) _ prepared(3)]
    by (auto simp: sys_inv_def shape_def pending_def pend_def journals_def)
next
  case (committed q)
  then show ?thesis using commit_inv [OF inv] by simp
next
  case (removed d)
  then show ?thesis using remove_inv [OF inv] by simp
qed

lemma fail_step_inv:
  assumes "fail_step s s'" and "sys_inv b db0 s"
  shows "sys_inv b db0 s'"
  using assms by (cases) (auto simp: sys_inv_def shape_def pending_def pend_def journals_def)

lemma sys_step_inv: "sys_step s s' \<Longrightarrow> sys_inv b db0 s \<Longrightarrow> sys_inv b db0 s'"
  using pricing_step_inv save_step_inv fail_step_inv sync_step_inv by (auto simp: sys_step_def)

lemma sys_steps_inv: "sys_step\<^sup>*\<^sup>* s s' \<Longrightarrow> sys_inv b db0 s \<Longrightarrow> sys_inv b db0 s'"
  by (induction rule: rtranclp_induct) (auto intro: sys_step_inv)

section \<open>The start\<close>

text \<open>After loading: empty partitions, counters read from the tables, and identifiers beyond those of
  the tables.\<close>

definition sys_start :: "System \<Rightarrow> bool" where
  "sys_start s \<longleftrightarrow> sy_save s = Idle \<and> sy_log s = [] \<and> cm_parts (bd_calls (sy_data s)) = [[]] \<and>
     am_parts (bd_statsAccount (sy_data s)) = [Map.empty] \<and> mg_parts (bd_statsFreemin (sy_data s)) = [Map.empty] \<and>
     mg_parts (bd_statsPackage (sy_data s)) = [Map.empty] \<and> mg_parts (bd_statsTrunkSettings (sy_data s)) = [Map.empty] \<and>
     mg_parts (bd_statsNNPPackageMinute (sy_data s)) = [Map.empty] \<and>
     mg_stats (bd_statsFreemin (sy_data s)) \<subseteq>\<^sub>m db_freemin (sy_db s) \<and>
     dom (db_freemin (sy_db s)) \<subseteq> {..mg_lastId (bd_statsFreemin (sy_data s))} \<and>
     mg_stats (bd_statsTrunkSettings (sy_data s)) \<subseteq>\<^sub>m db_trunkSettings (sy_db s) \<and>
     dom (db_trunkSettings (sy_db s)) \<subseteq> {..mg_lastId (bd_statsTrunkSettings (sy_data s))} \<and>
     mg_stats (bd_statsNNPPackageMinute (sy_data s)) \<subseteq>\<^sub>m db_minute (sy_db s) \<and>
     dom (db_minute (sy_db s)) \<subseteq> {..mg_lastId (bd_statsNNPPackageMinute (sy_data s))}"

definition used_in :: "('s \<Rightarrow> int) \<Rightarrow> (int \<rightharpoonup> 's) \<Rightarrow> int \<Rightarrow> int" where
  "used_in used tbl i = (case tbl i of Some s \<Rightarrow> used s | None \<Rightarrow> 0)"

definition start_base :: "Database \<Rightarrow> Base" where
  "start_base db = \<lparr> ba_freemin = used_in sf_used_seconds (db_freemin db),
     ba_trunkSettings = used_in ts_used_seconds (db_trunkSettings db), ba_minute = used_in sm_used_seconds (db_minute db) \<rparr>"

lemma start_inv:
  assumes "sys_start s"
  shows "sys_inv (start_base (sy_db s)) (sy_db s) s"
proof -
  let ?b = "start_base (sy_db s)"
  have "freemin.consistent (ba_freemin ?b) (db_freemin (sy_db s)) []"
    "trunk_settings.consistent (ba_trunkSettings ?b) (db_trunkSettings (sy_db s)) []"
    "package_minute.consistent (ba_minute ?b) (db_minute (sy_db s)) []"
    by (auto simp: freemin.consistent_def trunk_settings.consistent_def package_minute.consistent_def start_base_def
        used_in_def split: option.splits)
  then have "journals ?b (sy_db s) Idle (sy_data s) []"
    using assms by (auto simp: journals_def sys_start_def pend_def freemin.journal_def trunk_settings.journal_def
        package_minute.journal_def le_Suc_eq)
  moreover have "shape Idle (sy_data s)"
    using assms by (auto simp: sys_start_def shape_def aligned_def)
  ultimately show ?thesis
    using assms by (auto simp: sys_inv_def sys_start_def pending_def pend_def calls_stored_def rows_of_def)
qed

lemma reachable_inv:
  assumes "sys_start s0" and "sys_step\<^sup>*\<^sup>* s0 s"
  shows "sys_inv (start_base (sy_db s0)) (sy_db s0) s"
  using sys_steps_inv [OF assms(2) start_inv [OF assms(1)]] .

end
