(* ===== verification/Save_Properties.thy ===== *)
theory Save_Properties
  imports Sample_Data Save_Invariant
begin

text \<open>
  The properties of the container and of the interleaved save, with their witnesses.
\<close>

section \<open>Progress of a save\<close>

text \<open>Every section of a save can run when its turn comes.\<close>

lemma first_part_total: "xs \<noteq> [] \<Longrightarrow> \<exists>y. first_part xs = Some y"
  by (cases xs) (simp_all add: first_part_def)

lemma prepare_section_total:
  assumes "aligned d n" and "0 < n"
  shows "\<exists>q'. prepare_section k d q = Some q'"
proof -
  have "cm_parts (bd_calls d) \<noteq> []" "am_parts (bd_statsAccount d) \<noteq> []" "mg_parts (bd_statsFreemin d) \<noteq> []"
    "mg_parts (bd_statsPackage d) \<noteq> []" "mg_parts (bd_statsTrunkSettings d) \<noteq> []"
    "mg_parts (bd_statsNNPPackageMinute d) \<noteq> []" using assms by (auto simp: aligned_def)
  then show ?thesis
    by (auto simp: prepare_section_def cm_prepareSaveQueries_def first_part_total split: list.splits)
qed

lemma prepare_all:
  assumes "sys_inv b db0 s" and "sy_save s = Preparing k q"
  shows "\<exists>q'. save_step\<^sup>*\<^sup>* s (s\<lparr> sy_save := Preparing 6 q' \<rparr>)"
  using assms
proof (induction "6 - k" arbitrary: s k q)
  case 0
  then have "k = 6" by (auto simp: sys_inv_def shape_def)
  with 0 show ?case by (intro exI [of _ q]) (metis System.surjective System.update_convs(3) rtranclp.rtrancl_refl)
next
  case (Suc m)
  obtain n where n: "aligned (sy_data s) n" "0 < n" using Suc.prems by (auto simp: sys_inv_def shape_def)
  obtain q' where q': "prepare_section k (sy_data s) q = Some q'" using prepare_section_total [OF n] by blast
  have step: "save_step s (s\<lparr> sy_save := Preparing (Suc k) q' \<rparr>)"
    using Suc.hyps(2) Suc.prems(2) q' by (intro save_step.prepared) simp_all
  have "m = 6 - Suc k" using Suc.hyps(2) by simp
  from Suc.hyps(1) [OF this save_step_inv [OF step Suc.prems(1)], of q']
  obtain q'' where "save_step\<^sup>*\<^sup>* (s\<lparr> sy_save := Preparing (Suc k) q' \<rparr>) (s\<lparr> sy_save := Preparing 6 q'' \<rparr>)" by auto
  with step show ?case by (meson converse_rtranclp_into_rtranclp)
qed

lemma finish_save:
  assumes inv: "sys_inv b db0 s" and busy: "sy_save s \<noteq> Idle"
  shows "\<exists>s'. save_step\<^sup>*\<^sup>* s s' \<and> sy_save s' = Idle \<and> sy_log s' = sy_log s \<and>
    cm_parts (bd_calls (sy_data s')) = tl (cm_parts (bd_calls (sy_data s)))"
proof -
  have commit: "\<exists>s1. save_step\<^sup>*\<^sup>* s s1 \<and> sy_save s1 = Committed \<and> sy_log s1 = sy_log s \<and> sy_data s1 = sy_data s"
  proof (cases "sy_save s")
    case (Preparing k q)
    obtain q' where "save_step\<^sup>*\<^sup>* s (s\<lparr> sy_save := Preparing 6 q' \<rparr>)" using prepare_all [OF inv Preparing] by blast
    moreover have "save_step (s\<lparr> sy_save := Preparing 6 q' \<rparr>)
        (s\<lparr> sy_save := Preparing 6 q', sy_db := executeSaveQueries q' (sy_db s), sy_save := Committed \<rparr>)"
      using save_step.committed [of "s\<lparr> sy_save := Preparing 6 q' \<rparr>" q'] by simp
    ultimately have "save_step\<^sup>*\<^sup>* s (s\<lparr> sy_save := Preparing 6 q', sy_db := executeSaveQueries q' (sy_db s), sy_save := Committed \<rparr>)"
      by (rule rtranclp.rtrancl_into_rtrancl)
    then show ?thesis
      by (intro exI [of _ "s\<lparr> sy_save := Preparing 6 q', sy_db := executeSaveQueries q' (sy_db s), sy_save := Committed \<rparr>"]) simp
  qed (use busy in \<open>auto intro: exI [of _ s]\<close>)
  then obtain s1 where s1: "save_step\<^sup>*\<^sup>* s s1" "sy_save s1 = Committed" "sy_log s1 = sy_log s" "sy_data s1 = sy_data s" by blast
  obtain p P where P: "cm_parts (bd_calls (sy_data s)) = p # P"
    using inv by (cases "cm_parts (bd_calls (sy_data s))") (auto simp: sys_inv_def shape_def aligned_def)
  then obtain d where d: "bd_removePartitionAfterSave (sy_data s1) = Some d" "cm_parts (bd_calls d) = P"
    by (auto simp: bd_removePartitionAfterSave_def cm_removePartitionAfterSave_def s1(4))
  have "save_step s1 (s1\<lparr> sy_data := d, sy_save := Idle \<rparr>)" using save_step.removed [OF s1(2) d(1)] .
  with s1(1,3) d(2) P show ?thesis
    by (intro exI [of _ "s1\<lparr> sy_data := d, sy_save := Idle \<rparr>"]) (auto intro: rtranclp.rtrancl_into_rtrancl)
qed

lemma save_steps_inv: "save_step\<^sup>*\<^sup>* s s' \<Longrightarrow> sys_inv b db0 s \<Longrightarrow> sys_inv b db0 s'"
  by (induction rule: rtranclp_induct) (auto intro: save_step_inv)

lemma save_once:
  assumes inv: "sys_inv b db0 s" and idle: "sy_save s = Idle" and need: "cm_parts (bd_calls (sy_data s)) \<noteq> [[]]"
  shows "\<exists>s'. save_step\<^sup>*\<^sup>* s s' \<and> sy_save s' = Idle \<and> sy_log s' = sy_log s \<and>
    cm_parts (bd_calls (sy_data s')) = (case cm_parts (bd_calls (sy_data s)) of [p] \<Rightarrow> [[]] | ps \<Rightarrow> tl ps)"
proof -
  let ?ps = "cm_parts (bd_calls (sy_data s))"
  obtain p ps where ps: "?ps = p # ps" using inv by (cases ?ps) (auto simp: sys_inv_def shape_def aligned_def)
  define d where "d = (if length ?ps = 1 then bd_createNewPartition (sy_data s) else sy_data s)"
  have "p \<noteq> [] \<or> ps \<noteq> []" using need ps by auto
  then have "save_open (sy_data s) = Some (Some d)"
    by (auto simp: save_open_def d_def cm_isNeedSave_def cm_isNeedCreatePartitionBeforeSave_def ps)
  from save_step.opened [OF idle this]
  have step: "save_step s (s\<lparr> sy_data := d, sy_save := Preparing 0 SaveQueries_new \<rparr>)" .
  from finish_save [OF save_step_inv [OF step inv]] obtain s' where
    "save_step\<^sup>*\<^sup>* (s\<lparr> sy_data := d, sy_save := Preparing 0 SaveQueries_new \<rparr>) s'" "sy_save s' = Idle"
    "sy_log s' = sy_log s" "cm_parts (bd_calls (sy_data s')) = tl (cm_parts (bd_calls d))" by auto
  with step show ?thesis
    by (intro exI [of _ s']) (auto simp: d_def ps split: list.splits intro: converse_rtranclp_into_rtranclp)
qed

lemma save_all:
  assumes "sys_inv b db0 s" and "sy_save s = Idle"
  shows "\<exists>s'. save_step\<^sup>*\<^sup>* s s' \<and> sy_save s' = Idle \<and> sy_log s' = sy_log s \<and> cm_parts (bd_calls (sy_data s')) = [[]]"
  using assms
proof (induction "length (cm_parts (bd_calls (sy_data s)))" arbitrary: s rule: less_induct)
  case less
  show ?case
  proof (cases "cm_parts (bd_calls (sy_data s)) = [[]]")
    case False
    from save_once [OF less.prems False] obtain s1 where s1: "save_step\<^sup>*\<^sup>* s s1" "sy_save s1 = Idle"
      "sy_log s1 = sy_log s" "cm_parts (bd_calls (sy_data s1)) =
         (case cm_parts (bd_calls (sy_data s)) of [p] \<Rightarrow> [[]] | ps \<Rightarrow> tl ps)" by blast
    show ?thesis
    proof (cases "cm_parts (bd_calls (sy_data s1)) = [[]]")
      case False
      then have "length (cm_parts (bd_calls (sy_data s1))) < length (cm_parts (bd_calls (sy_data s)))"
        using s1(4) less.prems(1) by (auto simp: sys_inv_def shape_def aligned_def split: list.splits)
      from less.hyps [OF this save_steps_inv [OF s1(1) less.prems(1)] s1(2)] s1(1,3) show ?thesis
        by (metis (no_types, lifting) rtranclp_trans)
    qed (use s1 in blast)
  qed (use less.prems in blast)
qed

section \<open>Refinement\<close>

text \<open>The specification of the container: a ledger to which calls are appended, and whose oldest pending
  calls become stored.\<close>

record Ledger =
  lg_stored :: "Call list"
  lg_pending :: "Call list"

inductive ledger_step :: "Ledger \<Rightarrow> Ledger \<Rightarrow> bool" where
  append_call: "ledger_step l (l\<lparr> lg_pending := lg_pending l @ [call] \<rparr>)"
| store_calls: "lg_pending l = xs @ ys \<Longrightarrow> ledger_step l (l\<lparr> lg_stored := lg_stored l @ xs, lg_pending := ys \<rparr>)"

definition ledger_of :: "System \<Rightarrow> Ledger" where
  "ledger_of s = \<lparr> lg_stored = take (length (sy_log s) - length (pending s)) (sy_log s), lg_pending = pending s \<rparr>"

lemma ledger_of_inv:
  assumes "sys_inv b db0 s"
  obtains stored where "sy_log s = stored @ pending s" and "ledger_of s = \<lparr> lg_stored = stored, lg_pending = pending s \<rparr>"
    and "calls_stored db0 (sy_db s) stored" and "journals b (sy_db s) (sy_save s) (sy_data s) stored"
proof -
  obtain stored where "sy_log s = stored @ pending s" "calls_stored db0 (sy_db s) stored"
    "journals b (sy_db s) (sy_save s) (sy_data s) stored" using assms by (auto simp: sys_inv_def)
  then show ?thesis using that [of stored] by (simp add: ledger_of_def)
qed

text \<open>What a step does to the log and to the pending calls.\<close>

lemma addCall_log:
  assumes "sys_inv b db0 s" and "addCall call ci (sy_data s) = Some d"
  shows "concat (pend (sy_save s) (cm_parts (bd_calls d))) = pending s @ [call]"
proof -
  have shape: "shape (sy_save s) (sy_data s)" using assms(1) by (simp add: sys_inv_def)
  let ?ps = "cm_parts (bd_calls (sy_data s))"
  obtain X where X: "?ps = X @ pend (sy_save s) ?ps" "pend (sy_save s) ?ps \<noteq> []" "\<And>S. pend (sy_save s) (X @ S) = S"
    by (rule shape_split [OF shape, of ?ps]) (simp_all add: aligned_def)
  obtain P q where P: "pend (sy_save s) ?ps = P @ [q]" using X(2) by (metis rev_exhaust)
  from assms(2) obtain calls where calls: "cm_add call (bd_calls (sy_data s)) = Some calls"
    "cm_parts (bd_calls d) = cm_parts calls \<or> cm_parts (bd_calls d) = cm_parts calls @ [[]]"
    by (rule addCall_parts) auto
  have "cm_parts calls = X @ P @ [q @ [call]]" using calls(1) X(1) P by (auto simp: cm_add_def butlast_append split: if_splits)
  then show ?thesis using calls(2) X(3) [of "P @ [q @ [call]]"] X(3) [of "P @ [q @ [call], []]"]
    by (auto simp: pending_def P)
qed

lemma save_step_log:
  assumes "save_step s s'" and inv: "sys_inv b db0 s"
  shows "sy_log s' = sy_log s \<and> (\<exists>xs. pending s = xs @ pending s')"
  using assms(1)
proof cases
  case (opened d)
  then show ?thesis using save_open_cases [OF opened(3)] by (simp add: pending_def pend_def)
next
  case (committed q)
  obtain p P where "cm_parts (bd_calls (sy_data s)) = p # P"
    using inv by (cases "cm_parts (bd_calls (sy_data s))") (auto simp: sys_inv_def shape_def aligned_def)
  then show ?thesis using committed by (simp add: pending_def pend_def)
next
  case (removed d)
  then have "cm_parts (bd_calls d) = tl (cm_parts (bd_calls (sy_data s)))"
    by (auto simp: bd_removePartitionAfterSave_def cm_removePartitionAfterSave_def split: list.splits if_splits)
  then show ?thesis using removed by (simp add: pending_def pend_def)
qed (simp add: pending_def pend_def)

lemma sys_step_log:
  assumes "sys_step s s'" and inv: "sys_inv b db0 s"
  shows "(\<exists>call. sy_log s' = sy_log s @ [call] \<and> pending s' = pending s @ [call]) \<or>
    (sy_log s' = sy_log s \<and> (\<exists>xs. pending s = xs @ pending s'))"
proof -
  consider "pricing_step s s'" | "save_step s s'" | "fail_step s s'" | "sync_step s s'" using assms(1) by (auto simp: sys_step_def)
  then show ?thesis
  proof cases
    case 1
    then show ?thesis by cases (auto simp: pending_def addCall_log [OF inv])
  next
    case 2
    then show ?thesis using save_step_log [OF _ inv] by blast
  next
    case 3
    then show ?thesis by cases (simp add: pending_def pend_def)
  next
    case 4
    then show ?thesis by cases (simp_all add: pending_def)
  qed
qed

section \<open>Properties\<close>

text \<open>A container just loaded from empty tables, and a leg added to it.\<close>

definition sample_system :: System where
  "sample_system = \<lparr>
     sy_data = loadAll \<lparr> so_maxima = None, so_account = [], so_freemin = (0, []), so_package = (0, []),
         so_trunkSettings = (0, []), so_minute = (0, []) \<rparr>
       \<lparr> bd_cdrs = dm_clear, bd_calls = cm_clear, bd_statsAccount = am_new, bd_statsFreemin = mg_new,
         bd_statsPackage = mg_new, bd_statsTrunkSettings = mg_new, bd_statsNNPPackageMinute = mg_new,
         bd_clientLock_ready = False \<rparr>,
     sy_db = \<lparr> db_calls = (\<lambda>_. []), db_account = Map.empty, db_freemin = Map.empty, db_package = Map.empty,
       db_trunkSettings = Map.empty, db_minute = Map.empty \<rparr>,
     sy_save = Idle, sy_log = [] \<rparr>"

lemmas sample_system_defs = sample_system_def loadAll_def loadLastCallIdAndCdrIdAndTime_def dm_clear_def cm_clear_def
  am_new_def mg_new_def StatsAccount_load_def StatsFreemin_load_def StatsPackage_load_def StatsTrunkSettings_load_def
  StatsNNPPackageMinute_load_def mg_load_def

lemma sample_system_start: "sys_start sample_system"
  by (simp add: sys_start_def sample_system_defs)

lemma sample_system_add:
  "\<exists>s. sys_step\<^sup>*\<^sup>* sample_system s \<and> sys_step sample_system s \<and> sy_log s = [sample_call] \<and> pending s = [sample_call] \<and>
     db_calls (sy_db s) = (\<lambda>_. []) \<and> db_calls (sy_db sample_system) = (\<lambda>_. []) \<and> sy_save s = Idle"
proof -
  have leg: "c_service_package_id sample_call = 0" "c_trunk_settings_stats_id sample_call = 0"
    "c_stats_nnp_package_minute_id sample_call = 0" by (simp_all add: sample_call_def Call_new_def)
  have info: "ci_account CallInfo_new = None" "ci_servicePackagePrepaid CallInfo_new = None" by (simp_all add: CallInfo_new_def)
  obtain d where d: "addCall sample_call CallInfo_new (sy_data sample_system) = Some d"
    "cm_parts (bd_calls d) = [[sample_call]]"
    by (simp add: addCall_def add_account_def StatsFreemin_add_def StatsPackage_add_def StatsTrunkSettings_add_def
        StatsNNPPackageMinute_add_def leg info cm_add_def cm_isNeedCreatePartitionAfterAdd_def CALLS_PARTITION_SIZE_def
        sample_system_defs)
  have "rows_known sample_call (sy_data sample_system)" by (simp add: rows_known_def freemin_charge_def id_charge_def leg)
  from pricing_step.add_call [OF d(1) this]
  have step: "sys_step sample_system (sample_system\<lparr> sy_data := d, sy_log := [sample_call] \<rparr>)"
    by (simp add: sys_step_def sample_system_def)
  show ?thesis
  proof (intro exI conjI)
    show "sys_step\<^sup>*\<^sup>* sample_system (sample_system\<lparr> sy_data := d, sy_log := [sample_call] \<rparr>)" using step by blast
  qed (use step d in \<open>simp_all add: sample_system_def pending_def pend_def\<close>)
qed

text \<open>C2: However pricing, saving, failures of the data base and synchronisation interleave, the tables of
  the months hold every call added and no longer pending exactly once, in the order added: nothing is lost
  and nothing is stored twice.\<close>

theorem calls_stored_once:
  assumes "sys_start s0" and "sys_step\<^sup>*\<^sup>* s0 s"
  shows "db_calls (sy_db s) month @ rows_of month (pending s) = db_calls (sy_db s0) month @ rows_of month (sy_log s)"
proof -
  obtain stored where "sy_log s = stored @ pending s" "calls_stored (sy_db s0) (sy_db s) stored"
    using reachable_inv [OF assms] by (auto simp: sys_inv_def)
  then show ?thesis by (simp add: calls_stored_def)
qed

theorem calls_stored_once_witness:
  "\<exists>s. sys_step\<^sup>*\<^sup>* sample_system s \<and> sy_log s = [sample_call] \<and>
     db_calls (sy_db s) 0 @ rows_of 0 (pending s) = rows_of 0 [sample_call]"
proof -
  obtain s where s: "sys_step\<^sup>*\<^sup>* sample_system s" "sy_log s = [sample_call]" "db_calls (sy_db sample_system) = (\<lambda>_. [])"
    using sample_system_add by blast
  from calls_stored_once [OF sample_system_start s(1), of 0] s show ?thesis by auto
qed

text \<open>C3: The counter tables always account for exactly the calls in the tables of calls: the used seconds
  of a row are those it had at the start plus those of the stored calls charged to it, for free minutes, trunk
  settings and package minutes. A crash between two saves leaves calls and counters consistent.\<close>

theorem counters_match_stored_calls:
  assumes "sys_start s0" and "sys_step\<^sup>*\<^sup>* s0 s"
  shows "\<exists>stored. sy_log s = stored @ pending s \<and>
    (\<forall>month. db_calls (sy_db s) month = db_calls (sy_db s0) month @ rows_of month stored) \<and>
    (\<forall>i row. db_freemin (sy_db s) i = Some row \<longrightarrow>
       sf_used_seconds row = used_in sf_used_seconds (db_freemin (sy_db s0)) i + freemin.total i stored) \<and>
    (\<forall>i row. db_trunkSettings (sy_db s) i = Some row \<longrightarrow>
       ts_used_seconds row = used_in ts_used_seconds (db_trunkSettings (sy_db s0)) i + trunk_settings.total i stored) \<and>
    (\<forall>i row. db_minute (sy_db s) i = Some row \<longrightarrow>
       sm_used_seconds row = used_in sm_used_seconds (db_minute (sy_db s0)) i + package_minute.total i stored)"
proof -
  obtain stored where log: "sy_log s = stored @ pending s" "calls_stored (sy_db s0) (sy_db s) stored"
    and j: "journals (start_base (sy_db s0)) (sy_db s) (sy_save s) (sy_data s) stored"
    using reachable_inv [OF assms] by (auto simp: sys_inv_def)
  have "freemin.consistent (ba_freemin (start_base (sy_db s0))) (db_freemin (sy_db s)) stored"
    "trunk_settings.consistent (ba_trunkSettings (start_base (sy_db s0))) (db_trunkSettings (sy_db s)) stored"
    "package_minute.consistent (ba_minute (start_base (sy_db s0))) (db_minute (sy_db s)) stored"
    using j freemin.journal_now(2) trunk_settings.journal_now(2) package_minute.journal_now(2)
    unfolding journals_def by blast+
  then show ?thesis using log
    by (intro exI [of _ stored]) (auto simp: calls_stored_def freemin.consistent_def trunk_settings.consistent_def
        package_minute.consistent_def start_base_def split: option.splits)
qed

theorem counters_match_stored_calls_witness:
  "\<exists>s stored. sys_step\<^sup>*\<^sup>* sample_system s \<and> sy_log s = [sample_call] \<and> [sample_call] = stored @ pending s"
proof -
  obtain s where s: "sys_step\<^sup>*\<^sup>* sample_system s" "sy_log s = [sample_call]" using sample_system_add by blast
  from counters_match_stored_calls [OF sample_system_start s(1)] s show ?thesis by metis
qed

text \<open>C4: The container with its interleaved save refines the ledger: every step of the system is a call
  appended to the ledger, its oldest pending calls becoming stored, or nothing; and what the ledger calls
  stored is what the tables hold.\<close>

theorem save_refines_ledger:
  assumes "sys_start s0" and "sys_step\<^sup>*\<^sup>* s0 s" and "sys_step s s'"
  shows "ledger_step (ledger_of s) (ledger_of s') \<and>
    db_calls (sy_db s) month = db_calls (sy_db s0) month @ rows_of month (lg_stored (ledger_of s))"
proof -
  note inv = reachable_inv [OF assms(1,2)]
  obtain stored where l: "sy_log s = stored @ pending s" "ledger_of s = \<lparr> lg_stored = stored, lg_pending = pending s \<rparr>"
    "calls_stored (sy_db s0) (sy_db s) stored" by (rule ledger_of_inv [OF inv])
  obtain stored' where l': "sy_log s' = stored' @ pending s'" "ledger_of s' = \<lparr> lg_stored = stored', lg_pending = pending s' \<rparr>"
    by (rule ledger_of_inv [OF sys_step_inv [OF assms(3) inv]])
  from sys_step_log [OF assms(3) inv] have "ledger_step (ledger_of s) (ledger_of s')"
  proof (elim disjE exE conjE)
    fix call assume "sy_log s' = sy_log s @ [call]" "pending s' = pending s @ [call]"
    then have "stored' = stored" using l(1) l'(1) by simp
    then show ?thesis using ledger_step.append_call [of "ledger_of s" call] \<open>pending s' = pending s @ [call]\<close> l(2) l'(2) by simp
  next
    fix xs assume "sy_log s' = sy_log s" "pending s = xs @ pending s'"
    then have "stored' = stored @ xs" using l(1) l'(1) by (metis append_assoc append_same_eq)
    then show ?thesis using ledger_step.store_calls [of "ledger_of s" xs "pending s'"] \<open>pending s = xs @ pending s'\<close> l(2) l'(2)
      by simp
  qed
  then show ?thesis using l by (simp add: calls_stored_def)
qed

theorem save_refines_ledger_witness:
  "\<exists>s. sys_step sample_system s \<and> pending s = [sample_call] \<and> ledger_step (ledger_of sample_system) (ledger_of s)"
proof -
  obtain s where s: "sys_step sample_system s" "pending s = [sample_call]" using sample_system_add by blast
  from save_refines_ledger [OF sample_system_start rtranclp.rtrancl_refl s(1)] s show ?thesis by blast
qed

text \<open>C5: From every state the system can reach, the sections of the saving thread alone bring it to a
  state where every call added is in the tables and nothing is pending.\<close>

theorem save_stores_everything:
  assumes "sys_start s0" and "sys_step\<^sup>*\<^sup>* s0 s"
  shows "\<exists>s'. save_step\<^sup>*\<^sup>* s s' \<and> pending s' = [] \<and> sy_log s' = sy_log s \<and>
    (\<forall>month. db_calls (sy_db s') month = db_calls (sy_db s0) month @ rows_of month (sy_log s))"
proof -
  note inv = reachable_inv [OF assms]
  obtain s1 where s1: "save_step\<^sup>*\<^sup>* s s1" "sy_save s1 = Idle" "sy_log s1 = sy_log s"
  proof (cases "sy_save s = Idle")
    case False
    then show ?thesis using finish_save [OF inv False] that by blast
  qed (use that in blast)
  obtain s' where s': "save_step\<^sup>*\<^sup>* s1 s'" "sy_save s' = Idle" "sy_log s' = sy_log s1" "cm_parts (bd_calls (sy_data s')) = [[]]"
    using save_all [OF save_steps_inv [OF s1(1) inv] s1(2)] by blast
  have p: "pending s' = []" using s'(2,4) by (simp add: pending_def pend_def)
  have "sys_inv (start_base (sy_db s0)) (sy_db s0) s'" using save_steps_inv [OF s'(1) save_steps_inv [OF s1(1) inv]] .
  then obtain stored where "sy_log s' = stored @ pending s'" "calls_stored (sy_db s0) (sy_db s') stored"
    by (auto simp: sys_inv_def)
  then have "db_calls (sy_db s') month = db_calls (sy_db s0) month @ rows_of month (sy_log s)" for month
    using p s'(3) s1(3) by (simp add: calls_stored_def)
  moreover have "save_step\<^sup>*\<^sup>* s s'" using s1(1) s'(1) by (rule rtranclp_trans)
  ultimately show ?thesis using p s'(3) s1(3) by auto
qed

theorem save_stores_everything_witness:
  "\<exists>s s'. sys_step\<^sup>*\<^sup>* sample_system s \<and> save_step\<^sup>*\<^sup>* s s' \<and> pending s = [sample_call] \<and> pending s' = [] \<and>
     db_calls (sy_db s') 0 = rows_of 0 [sample_call]"
proof -
  obtain s where s: "sys_step\<^sup>*\<^sup>* sample_system s" "sy_log s = [sample_call]" "pending s = [sample_call]"
    "db_calls (sy_db sample_system) = (\<lambda>_. [])" using sample_system_add by blast
  from save_stores_everything [OF sample_system_start s(1)] s show ?thesis by fastforce
qed

definition stored_fields :: "Call \<Rightarrow> Call" where
  "stored_fields c = c\<lparr> c_cdr_call_id := 0, c_is_service_number := False, c_nnp_package_id := 0,
     c_nnp_country_code := max 0 (c_nnp_country_code c) \<rparr>"

text \<open>The row inserted for a call determines every column of the call, although zero identifiers are
  written as \<open>NULL\<close>: two calls with the same row agree in all fields that are stored.\<close>

theorem call_row_determines_call: "calls_insert_row c = calls_insert_row c' \<longleftrightarrow> stored_fields c = stored_fields c'"
proof -
  have ids: "sql_id a = sql_id b \<longleftrightarrow> a = b" for a b by (auto simp: sql_id_def)
  have uuids: "sql_uuid a = sql_uuid b \<longleftrightarrow> a = b" for a b by (auto simp: sql_uuid_def)
  have code: "(if a > 0 then SqlInt a else SqlNull) = (if b > 0 then SqlInt b else SqlNull) \<longleftrightarrow> max 0 a = max 0 b"
    for a b :: int by (auto simp: max_def)
  show ?thesis
    by (cases c; cases c') (auto simp: calls_insert_row_def stored_fields_def ids uuids code)
qed

end
