(* ===== verification/Billing_Loop.thy ===== *)
theory Billing_Loop
  imports Billing_Call Save_Invariant
begin

text \<open>
  \<^verbatim>\<open>src/src-bill/classes/Billing.cpp\<close>: the loop that takes records from the queue, prices their two legs and
  adds them to the container, and the pricing of the calls in progress. The tables are replaced by other
  threads between two iterations, so the model reads them anew in each: \<open>Tables\<close> is what \<open>Repository::prepare\<close>
  finds, with what earlier rounds have written into its rows. The thread that fetches records appends to the
  queue while the loop runs, and the same run prices what it appends: \<open>arrive n\<close> are the records appended
  between the starts of rounds \<open>n - 1\<close> and \<open>n\<close>. Records are appended at the end and the loop looks at and removes
  the first only, so where in a round they arrive makes no difference. Nothing else runs meanwhile in this model:
  the saves of the other thread, which empty the queue of calls, are the subject of \<open>Save_System\<close>.
\<close>

section \<open>One record\<close>

record Tables =
  tb_loaded :: "string \<Rightarrow> bool"
  tb_hub_found :: bool
  tb_repo :: Repo
  tb_currentMinute :: "StatsNNPPackageMinuteManager option"
  tb_globalMinute :: "GlobalNNPPackageMinuteCounters list option"

definition repository_prepare :: "Tables \<Rightarrow> int \<Rightarrow> Repo option" where
  "repository_prepare tb currentTime =
     (let r = tb_repo tb; i = cf_instance_id (rp_conf r) in
      if fst (prepare (rp_conf r) (tb_loaded tb) (tb_hub_found tb) (getServer r i \<noteq> None)
                (getInstanceSettings r i \<noteq> None) [])
      then Some (r\<lparr> rp_currentTime := (if currentTime = 0 then rp_now r else currentTime) \<rparr>)
      else None)"

definition mega_of_cdr :: "Repo \<Rightarrow> Cdr \<Rightarrow> StateMegaTrunk" where
  "mega_of_cdr r cdr = PhaseCalc r (prepareFromCdr r (Some cdr) [] [] (StateMegaTrunk_new (rp_conf r)))"

text \<open>\<open>junk\<close> is the value of the member the constructor of \<open>Call\<close> leaves alone.\<close>

definition leg_state :: "Tables \<Rightarrow> Repo \<Rightarrow> Cdr \<Rightarrow> StateMegaTrunk \<Rightarrow> Call \<Rightarrow> DataBillingContainer \<Rightarrow> BillingState" where
  "leg_state tb r cdr mega call d = \<lparr> bs_repo = r, bs_call = call, bs_info = CallInfo_new, bs_cdr = cdr,
     bs_origRegion = cf_instance_id (rp_conf r), bs_mega = Some mega, bs_freemin = bd_statsFreemin d,
     bs_package = bd_statsPackage d, bs_trunkSettings = bd_statsTrunkSettings d,
     bs_minute = bd_statsNNPPackageMinute d, bs_currentMinute = tb_currentMinute tb,
     bs_globalMinute = tb_globalMinute tb \<rparr>"

definition counters_back :: "BillingState \<Rightarrow> DataBillingContainer \<Rightarrow> DataBillingContainer" where
  "counters_back s d = d\<lparr> bd_statsFreemin := bs_freemin s, bd_statsPackage := bs_package s,
     bd_statsTrunkSettings := bs_trunkSettings s, bd_statsNNPPackageMinute := bs_minute s \<rparr>"

definition next_state :: "BillingState outcome \<Rightarrow> BillingState option" where
  "next_state x = (case x of Next s \<Rightarrow> Some s | _ \<Rightarrow> None)"

text \<open>Both legs: the second takes the numbers from the first, after their preprocessing, and sees the
  repository with what the first has written into the row of its number range.\<close>

definition calc_legs :: "Tables \<Rightarrow> Repo \<Rightarrow> Cdr \<Rightarrow> StateMegaTrunk \<Rightarrow> Call \<Rightarrow> Call \<Rightarrow> DataBillingContainer \<Rightarrow>
    (BillingState \<times> BillingState \<times> DataBillingContainer) option" where
  "calc_legs tb r cdr mega origCall termCall d =
     Option.bind (next_state (calc (leg_state tb r cdr mega origCall d))) (\<lambda>so.
       let termCall' = termCall\<lparr> c_src_number := c_src_number (bs_call so), c_dst_number := c_dst_number (bs_call so) \<rparr>;
           mega' = (case bs_mega so of Some m \<Rightarrow> m | None \<Rightarrow> mega);
           s1 = (leg_state tb (bs_repo so) cdr mega' termCall' (counters_back so d))\<lparr> bs_currentMinute := bs_currentMinute so \<rparr>
       in Option.bind (next_state (calc s1)) (\<lambda>st. Some (so, st, counters_back st (counters_back so d))))"

definition skip_cdr :: "Repo \<Rightarrow> StateMegaTrunk \<Rightarrow> bool \<times> StateMegaTrunk" where
  "skip_cdr r mega =
     (case isForceOrigTarifficationSkip r mega of (skip, mega') \<Rightarrow>
        (skip \<or> mt_isNeedForceTermTarifficationSkip mega' \<or> isTechOrig mega', mega'))"

definition new_leg :: "int \<Rightarrow> Cdr \<Rightarrow> bool \<Rightarrow> int \<Rightarrow> int \<Rightarrow> Call" where
  "new_leg junk cdr orig i peer = (Call_new junk cdr orig)\<lparr> c_id := i, c_peer_id := peer, c_hash := cdr_hash cdr \<rparr>"

definition calc_cdr :: "int \<Rightarrow> Tables \<Rightarrow> Repo \<Rightarrow> Cdr \<Rightarrow> DataBillingContainer \<Rightarrow> DataBillingContainer option" where
  "calc_cdr junk tb r cdr d =
     (let lastCallId = cm_realtimeLastId (bd_calls d) in
      case skip_cdr r (mega_of_cdr r cdr) of (skip, mega) \<Rightarrow>
        if skip then Some d
        else
          Option.bind (calc_legs tb r cdr mega (new_leg junk cdr True (lastCallId + 1) (lastCallId + 2))
              (new_leg junk cdr False (lastCallId + 2) (lastCallId + 1)) d) (\<lambda>(so, st, d1).
          Option.bind (addCall (bs_call so) (bs_info so) d1) (\<lambda>d2.
            addCall (bs_call st) (bs_info st) d2)))"

section \<open>The loop\<close>

datatype StopReason = NotReady | QueueFull | NoCdr | TablesMissing | Crashed

lemma addCall_cdrs: "addCall call ci d = Some d' \<Longrightarrow> bd_cdrs d' = bd_cdrs d"
  by (auto simp: addCall_def bind_eq_Some_conv Let_def bd_createNewPartition_def split: if_splits)

lemma counters_back_simps [simp]:
  "bd_cdrs (counters_back s d) = bd_cdrs d" "bd_calls (counters_back s d) = bd_calls d"
  "bd_statsAccount (counters_back s d) = bd_statsAccount d" "bd_statsFreemin (counters_back s d) = bs_freemin s"
  "bd_statsPackage (counters_back s d) = bs_package s" "bd_statsTrunkSettings (counters_back s d) = bs_trunkSettings s"
  "bd_statsNNPPackageMinute (counters_back s d) = bs_minute s"
  by (simp_all add: counters_back_def)

lemma calc_cdr_cdrs:
  assumes "calc_cdr junk tb r cdr d = Some d'"
  shows "bd_cdrs d' = bd_cdrs d"
  using assms
  by (auto simp: calc_cdr_def calc_legs_def bind_eq_Some_conv Let_def addCall_cdrs split: prod.splits if_splits)

text \<open>The loop need not end while records keep arriving: it is a partial function. Beside the reason and the
  container it returns the number of the round in which it stopped.\<close>

definition arrived :: "Cdr list \<Rightarrow> DataBillingContainer \<Rightarrow> DataBillingContainer" where
  "arrived cdrs d = d\<lparr> bd_cdrs := foldl (\<lambda>m cdr. dm_push cdr m) (bd_cdrs d) cdrs \<rparr>"

partial_function (option) calc_loop :: "(nat \<Rightarrow> Tables) \<Rightarrow> (nat \<Rightarrow> Cdr list) \<Rightarrow> int \<Rightarrow> nat \<Rightarrow> DataBillingContainer \<Rightarrow>
    (StopReason \<times> nat \<times> DataBillingContainer) option" where
  "calc_loop tables arrive junk n d0 =
     (let d = arrived (arrive n) d0 in
      if cm_getQueueSize (bd_calls d) \<ge> CALLS_MAX_QUEUE_SIZE then Some (QueueFull, n, d)
      else (case dm_getFirstCdr (bd_cdrs d) of
              None \<Rightarrow> Some (NoCdr, n, d)
            | Some cdr \<Rightarrow>
                (case repository_prepare (tables n) (cdr_connect_time cdr) of
                   None \<Rightarrow> Some (TablesMissing, n, d)
                 | Some r \<Rightarrow>
                     (case calc_cdr junk (tables n) r cdr d of
                        None \<Rightarrow> Some (Crashed, n, d)
                      | Some d' \<Rightarrow>
                          calc_loop tables arrive junk (Suc n) (d'\<lparr> bd_cdrs := dm_removeFirstCdr (bd_cdrs d') \<rparr>)))))"

definition billing_calc :: "(nat \<Rightarrow> Tables) \<Rightarrow> (nat \<Rightarrow> Cdr list) \<Rightarrow> int \<Rightarrow> DataBillingContainer \<Rightarrow>
    (StopReason \<times> nat \<times> DataBillingContainer) option" where
  "billing_calc tables arrive junk d =
     (if \<not> bd_ready d then Some (NotReady, 0, d) else calc_loop tables arrive junk 0 d)"

section \<open>Calls in progress\<close>

record CurrentCalls =
  cc_calls :: "Call list"
  cc_statsAccount :: StatsAccountManager
  cc_statsFreemin :: StatsFreeminManager
  cc_statsPackage :: StatsPackageManager
  cc_statsTrunkSettings :: StatsTrunkSettingsManager
  cc_statsNNPPackageMinute :: StatsNNPPackageMinuteManager

definition CurrentCalls_new :: CurrentCalls where
  "CurrentCalls_new = \<lparr> cc_calls = [], cc_statsAccount = am_new, cc_statsFreemin = mg_new, cc_statsPackage = mg_new,
     cc_statsTrunkSettings = mg_new, cc_statsNNPPackageMinute = mg_new \<rparr>"

definition add_current :: "BillingState \<Rightarrow> CurrentCalls \<Rightarrow> CurrentCalls option" where
  "add_current s c =
     (let call = bs_call s; ci = bs_info s in
      Option.bind (add_account call ci (cc_statsAccount c)) (\<lambda>account.
      Option.bind (StatsFreemin_add call (cc_statsFreemin c)) (\<lambda>freemin.
      Option.bind (StatsPackage_add call (ci_servicePackagePrepaid ci \<noteq> None) (cc_statsPackage c)) (\<lambda>package.
      Option.bind (StatsTrunkSettings_add call (cc_statsTrunkSettings c)) (\<lambda>trunkSettings.
      Option.bind (StatsNNPPackageMinute_add call (cc_statsNNPPackageMinute c)) (\<lambda>minute.
        Some \<lparr> cc_calls = cc_calls c @ [call], cc_statsAccount = account, cc_statsFreemin = freemin,
               cc_statsPackage = package, cc_statsTrunkSettings = trunkSettings, cc_statsNNPPackageMinute = minute \<rparr>))))))"

text \<open>The identifiers of these legs stay zero: they are not stored.\<close>

fun current_loop :: "int \<Rightarrow> (nat \<Rightarrow> Tables) \<Rightarrow> nat \<Rightarrow> Cdr list \<Rightarrow> CurrentCalls \<Rightarrow> DataBillingContainer \<Rightarrow>
    (CurrentCalls \<times> DataBillingContainer) option" where
  "current_loop junk tables n [] c d = Some (c, d)"
| "current_loop junk tables n (cdr # cdrs) c d =
     (case repository_prepare (tables n) (cdr_connect_time cdr) of
        None \<Rightarrow> Some (c, d)
      | Some r \<Rightarrow>
          Option.bind (calc_legs (tables n) r cdr (mega_of_cdr r cdr) (Call_new junk cdr True) (Call_new junk cdr False) d)
            (\<lambda>(so, st, d').
              Option.bind (add_current so c) (\<lambda>c1. Option.bind (add_current st c1) (\<lambda>c2.
                current_loop junk tables (Suc n) cdrs c2 d'))))"

definition calcCurrentCalls :: "int \<Rightarrow> (nat \<Rightarrow> Tables) \<Rightarrow> Cdr list option \<Rightarrow> CurrentCalls \<Rightarrow> DataBillingContainer \<Rightarrow>
    (CurrentCalls \<times> DataBillingContainer) option" where
  "calcCurrentCalls junk tables currentCdrs published d =
     (case currentCdrs of
        None \<Rightarrow> Some (published, d)
      | Some cdrs \<Rightarrow> current_loop junk tables 0 cdrs CurrentCalls_new d)"

definition fetchGlobalCounters :: "GlobalCounters list option \<Rightarrow> int \<Rightarrow> real \<Rightarrow> real \<times> real" where
  "fetchGlobalCounters counters accountId vat_rate =
     (case (case counters of None \<Rightarrow> None | Some l \<Rightarrow> GlobalCountersList_find l accountId) of
        Some g \<Rightarrow> (GlobalCounters_sumBalance g vat_rate, GlobalCounters_sumDay g vat_rate)
      | None \<Rightarrow> (0, 0))"

section \<open>What an iteration keeps\<close>

definition bd_ok :: "DataBillingContainer \<Rightarrow> bool" where
  "bd_ok d \<longleftrightarrow> freemin.wf (bd_statsFreemin d) \<and> package.wf (bd_statsPackage d) \<and>
     trunk_settings.wf (bd_statsTrunkSettings d) \<and> package_minute.wf (bd_statsNNPPackageMinute d) \<and>
     cm_parts (bd_calls d) \<noteq> []"

definition current_ok :: "Tables \<Rightarrow> bool" where
  "current_ok tb \<longleftrightarrow> (case tb_currentMinute tb of None \<Rightarrow> True | Some m \<Rightarrow> package_minute.wf m)"

lemma add_wf:
  "StatsFreemin_add call m1 = Some m1' \<Longrightarrow> freemin.wf m1 \<Longrightarrow> freemin.wf m1'"
  "StatsPackage_add call prepaid m2 = Some m2' \<Longrightarrow> package.wf m2 \<Longrightarrow> package.wf m2'"
  "StatsTrunkSettings_add call m3 = Some m3' \<Longrightarrow> trunk_settings.wf m3 \<Longrightarrow> trunk_settings.wf m3'"
  "StatsNNPPackageMinute_add call m4 = Some m4' \<Longrightarrow> package_minute.wf m4 \<Longrightarrow> package_minute.wf m4'"
proof -
  show "StatsFreemin_add call m1 = Some m1' \<Longrightarrow> freemin.wf m1 \<Longrightarrow> freemin.wf m1'"
    using freemin.update_ok [of m1 "updateStatsFreemin call" "c_service_package_stats_id call"]
    by (auto simp: StatsFreemin_add_def updateStatsFreemin_def split: if_splits)
  show "StatsPackage_add call prepaid m2 = Some m2' \<Longrightarrow> package.wf m2 \<Longrightarrow> package.wf m2'"
    using package.update_ok [of m2 "updateStatsPackage call" "c_service_package_stats_id call"]
    by (auto simp: StatsPackage_add_def updateStatsPackage_def split: if_splits)
  show "StatsTrunkSettings_add call m3 = Some m3' \<Longrightarrow> trunk_settings.wf m3 \<Longrightarrow> trunk_settings.wf m3'"
    using trunk_settings.update_ok [of m3 "updateStatsTrunkSettings call" "c_trunk_settings_stats_id call"]
    by (auto simp: StatsTrunkSettings_add_def updateStatsTrunkSettings_def split: if_splits)
  show "StatsNNPPackageMinute_add call m4 = Some m4' \<Longrightarrow> package_minute.wf m4 \<Longrightarrow> package_minute.wf m4'"
    using package_minute.update_ok [of m4 "updateStatsNNPPackageMinute call" "c_stats_nnp_package_minute_id call"]
    by (auto simp: StatsNNPPackageMinute_add_def updateStatsNNPPackageMinute_def split: if_splits)
qed

lemma addCall_ok:
  assumes "addCall call ci d = Some d'" and "bd_ok d"
  shows "bd_ok d'" and "concat (cm_parts (bd_calls d')) = concat (cm_parts (bd_calls d)) @ [call]"
    and "cm_realtimeLastId (bd_calls d') = c_id call"
proof -
  from assms(1) obtain account fm pk ts mi calls d1 where a:
    "StatsFreemin_add call (bd_statsFreemin d) = Some fm"
    "StatsPackage_add call (ci_servicePackagePrepaid ci \<noteq> None) (bd_statsPackage d) = Some pk"
    "StatsTrunkSettings_add call (bd_statsTrunkSettings d) = Some ts"
    "StatsNNPPackageMinute_add call (bd_statsNNPPackageMinute d) = Some mi" "cm_add call (bd_calls d) = Some calls"
    "d1 = d\<lparr> bd_calls := calls, bd_statsAccount := account, bd_statsFreemin := fm, bd_statsPackage := pk,
       bd_statsTrunkSettings := ts, bd_statsNNPPackageMinute := mi \<rparr>"
    and d': "d' = d1 \<or> d' = bd_createNewPartition d1" by (rule addCall_parts)
  have parts: "cm_parts calls = butlast (cm_parts (bd_calls d)) @ [last (cm_parts (bd_calls d)) @ [call]]"
    "cm_realtimeLastId calls = c_id call" "cm_parts (bd_calls d) \<noteq> []"
    using a(5) by (auto simp: cm_add_def split: if_splits)
  have "concat (cm_parts (bd_calls d)) = concat (butlast (cm_parts (bd_calls d))) @ last (cm_parts (bd_calls d))"
    using parts(3) by (metis append_butlast_last_id concat.simps concat_append append_Nil2)
  then have c: "concat (cm_parts calls) = concat (cm_parts (bd_calls d)) @ [call]" by (simp add: parts)
  have ok1: "bd_ok d1" using assms(2) add_wf(1) [OF a(1)] add_wf(2) [OF a(2)] add_wf(3) [OF a(3)] add_wf(4) [OF a(4)] parts
    by (simp add: bd_ok_def a(6))
  then have "bd_ok (bd_createNewPartition d1)"
    by (simp add: bd_ok_def bd_createNewPartition_def cm_createNewPartition_def freemin.wf_createNewPartition
        package.wf_createNewPartition trunk_settings.wf_createNewPartition package_minute.wf_createNewPartition)
  with ok1 d' show "bd_ok d'" by blast
  show "concat (cm_parts (bd_calls d')) = concat (cm_parts (bd_calls d)) @ [call]"
    using d' c by (auto simp: a(6))
  show "cm_realtimeLastId (bd_calls d') = c_id call"
    using d' parts(2) by (auto simp: a(6) bd_createNewPartition_def cm_createNewPartition_def)
qed

lemma next_calc:
  assumes "next_state (calc s) = Some s'" and "counters_ok s" and "c_package_time (bs_call s) = 0"
  shows "counters_ok s'" and "same_leg (bs_call s) (bs_call s')"
proof -
  have "calc s = Next s'" using assms(1) by (auto simp: next_state_def split: outcome.splits)
  moreover have "keeps (leg_inv bounded_by s) (calc s)" using assms(2,3) by (intro keeps_calc leg_inv_refl) simp_all
  ultimately show "counters_ok s'" and "same_leg (bs_call s) (bs_call s')" by (simp_all add: leg_inv_def)
qed

lemma calc_legs_ok:
  assumes legs: "calc_legs tb r cdr mega oc tc d = Some (so, st, d')" and ok: "bd_ok d" "current_ok tb"
    and z: "c_package_time oc = 0" "c_package_time tc = 0"
  shows "bd_ok d'" and "same_leg oc (bs_call so)" and "same_leg tc (bs_call st)" and "bd_calls d' = bd_calls d"
proof -
  define tc' where "tc' = tc\<lparr> c_src_number := c_src_number (bs_call so), c_dst_number := c_dst_number (bs_call so) \<rparr>"
  define mega' where "mega' = (case bs_mega so of Some m \<Rightarrow> m | None \<Rightarrow> mega)"
  define s1 where "s1 = (leg_state tb (bs_repo so) cdr mega' tc' (counters_back so d))\<lparr> bs_currentMinute := bs_currentMinute so \<rparr>"
  have steps: "next_state (calc (leg_state tb r cdr mega oc d)) = Some so" "next_state (calc s1) = Some st"
    "d' = counters_back st (counters_back so d)"
    using legs by (auto simp: calc_legs_def bind_eq_Some_conv Let_def s1_def tc'_def mega'_def)
  have "counters_ok (leg_state tb r cdr mega oc d)" "c_package_time (bs_call (leg_state tb r cdr mega oc d)) = 0"
    using ok z(1) by (simp_all add: counters_ok_def leg_state_def bd_ok_def current_ok_def)
  note so = next_calc [OF steps(1) this]
  have "counters_ok s1" "c_package_time (bs_call s1) = 0"
    using so(1) z(2) by (simp_all add: counters_ok_def s1_def leg_state_def tc'_def)
  note st = next_calc [OF steps(2) this]
  show "same_leg oc (bs_call so)" using so(2) by (simp add: leg_state_def)
  show "same_leg tc (bs_call st)" using st(2) by (simp add: s1_def leg_state_def tc'_def same_leg_def)
  show "bd_calls d' = bd_calls d" by (simp add: steps(3))
  show "bd_ok d'" using st(1) ok(1) by (simp add: steps(3) bd_ok_def counters_ok_def)
qed

text \<open>The two legs of a record: consecutive identifiers, each the peer of the other.\<close>

fun legs_numbered :: "int \<Rightarrow> Call list \<Rightarrow> bool" where
  "legs_numbered l [] = True"
| "legs_numbered l [c] = False"
| "legs_numbered l (a # b # cs) \<longleftrightarrow> c_id a = l + 1 \<and> c_id b = l + 2 \<and> c_peer_id a = c_id b \<and> c_peer_id b = c_id a \<and>
     c_orig a \<and> \<not> c_orig b \<and> c_cdr_id a = c_cdr_id b \<and> c_hash a = c_hash b \<and> legs_numbered (l + 2) cs"

lemma calc_cdr_ok:
  assumes calc: "calc_cdr junk tb r cdr d = Some d'" and ok: "bd_ok d" "current_ok tb"
  defines "l \<equiv> cm_realtimeLastId (bd_calls d)"
  shows "bd_ok d'" and "fst (skip_cdr r (mega_of_cdr r cdr)) \<Longrightarrow> d' = d"
    and "\<not> fst (skip_cdr r (mega_of_cdr r cdr)) \<Longrightarrow>
      \<exists>a b. concat (cm_parts (bd_calls d')) = concat (cm_parts (bd_calls d)) @ [a, b] \<and>
        legs_numbered l [a, b] \<and> c_cdr_id a = cdr_id cdr \<and> cm_realtimeLastId (bd_calls d') = l + 2"
proof -
  obtain skip mega where skip: "skip_cdr r (mega_of_cdr r cdr) = (skip, mega)" by fastforce
  have "bd_ok d' \<and> (if skip then d' = d else (\<exists>a b. concat (cm_parts (bd_calls d')) = concat (cm_parts (bd_calls d)) @ [a, b] \<and>
    legs_numbered l [a, b] \<and> c_cdr_id a = cdr_id cdr \<and> cm_realtimeLastId (bd_calls d') = l + 2))"
  proof (cases skip)
    case True
    then show ?thesis using calc skip ok by (simp add: calc_cdr_def)
  next
    case False
    obtain so st d1 d2 where legs: "calc_legs tb r cdr mega (new_leg junk cdr True (l + 1) (l + 2))
        (new_leg junk cdr False (l + 2) (l + 1)) d = Some (so, st, d1)"
      and adds: "addCall (bs_call so) (bs_info so) d1 = Some d2" "addCall (bs_call st) (bs_info st) d2 = Some d'"
      using calc skip False by (auto simp: calc_cdr_def l_def bind_eq_Some_conv Let_def)
    have z: "c_package_time (new_leg junk cdr o1 i p) = 0" for o1 i p by (simp add: new_leg_def Call_new_def)
    note ls = calc_legs_ok [OF legs ok z z]
    note a1 = addCall_ok [OF adds(1) ls(1)] and a2 = addCall_ok [OF adds(2) addCall_ok(1) [OF adds(1) ls(1)]]
    have "legs_numbered l [bs_call so, bs_call st]" "c_cdr_id (bs_call so) = cdr_id cdr" "c_id (bs_call st) = l + 2"
      using ls(2,3) by (simp_all add: same_leg_def new_leg_def Call_new_def)
    moreover have "concat (cm_parts (bd_calls d')) = concat (cm_parts (bd_calls d)) @ [bs_call so, bs_call st]"
      using a1(2) a2(2) ls(4) by simp
    ultimately show ?thesis using a2(1,3) False by auto
  qed
  then show "bd_ok d'" and "fst (skip_cdr r (mega_of_cdr r cdr)) \<Longrightarrow> d' = d"
    and "\<not> fst (skip_cdr r (mega_of_cdr r cdr)) \<Longrightarrow>
      \<exists>a b. concat (cm_parts (bd_calls d')) = concat (cm_parts (bd_calls d)) @ [a, b] \<and>
        legs_numbered l [a, b] \<and> c_cdr_id a = cdr_id cdr \<and> cm_realtimeLastId (bd_calls d') = l + 2"
    using skip by auto
qed

section \<open>What the loop does\<close>

lemma queue_size: "cm_getQueueSize m = length (concat (cm_parts m))"
proof -
  have "foldl (\<lambda>size part. size + length part) n ps = n + length (concat ps)" for n and ps :: "Call list list"
    by (induction ps arbitrary: n) simp_all
  then show ?thesis by (simp add: cm_getQueueSize_def)
qed

lemma legs_numbered_append:
  assumes "legs_numbered l xs" and "legs_numbered (l + int (length xs)) ys"
  shows "legs_numbered l (xs @ ys)"
  using assms by (induction l xs rule: legs_numbered.induct) (simp_all add: algebra_simps)

lemma arrived_simps [simp]:
  "bd_calls (arrived cdrs d) = bd_calls d" "bd_ok (arrived cdrs d) = bd_ok d"
  "dm_queue (bd_cdrs (arrived cdrs d)) = dm_queue (bd_cdrs d) @ cdrs"
proof -
  have "dm_queue (foldl (\<lambda>m cdr. dm_push cdr m) m cdrs) = dm_queue m @ cdrs" for m
    by (induction cdrs arbitrary: m) (simp_all add: dm_push_def)
  then show "dm_queue (bd_cdrs (arrived cdrs d)) = dm_queue (bd_cdrs d) @ cdrs" by (simp add: arrived_def)
qed (simp_all add: arrived_def bd_ok_def)

lemma bd_ok_cdrs [simp]: "bd_ok (d\<lparr> bd_cdrs := q \<rparr>) = bd_ok d"
  by (simp add: bd_ok_def)

text \<open>The records of the legs a round writes, and why a run stops.\<close>

definition leg_ids :: "Tables \<Rightarrow> Cdr \<Rightarrow> int list" where
  "leg_ids tb cdr =
     (case repository_prepare tb (cdr_connect_time cdr) of
        None \<Rightarrow> []
      | Some r \<Rightarrow> if fst (skip_cdr r (mega_of_cdr r cdr)) then [] else [cdr_id cdr, cdr_id cdr])"

fun all_leg_ids :: "(nat \<Rightarrow> Tables) \<Rightarrow> nat \<Rightarrow> Cdr list \<Rightarrow> int list" where
  "all_leg_ids tables n [] = []"
| "all_leg_ids tables n (cdr # cdrs) = leg_ids (tables n) cdr @ all_leg_ids tables (Suc n) cdrs"

definition stopped_for :: "Tables \<Rightarrow> int \<Rightarrow> DataBillingContainer \<Rightarrow> StopReason \<Rightarrow> bool" where
  "stopped_for tb junk d reason \<longleftrightarrow>
     (case reason of
        NotReady \<Rightarrow> \<not> bd_ready d
      | QueueFull \<Rightarrow> cm_getQueueSize (bd_calls d) \<ge> CALLS_MAX_QUEUE_SIZE
      | NoCdr \<Rightarrow> dm_queue (bd_cdrs d) = []
      | TablesMissing \<Rightarrow> (case dm_queue (bd_cdrs d) of [] \<Rightarrow> False
          | cdr # cdrs \<Rightarrow> repository_prepare tb (cdr_connect_time cdr) = None)
      | Crashed \<Rightarrow> (case dm_queue (bd_cdrs d) of [] \<Rightarrow> False
          | cdr # cdrs \<Rightarrow> (case repository_prepare tb (cdr_connect_time cdr) of None \<Rightarrow> False
              | Some r \<Rightarrow> calc_cdr junk tb r cdr d = None)))"

lemma calc_loop_cases:
  fixes tables arrive junk n and d0 :: DataBillingContainer
  defines "d \<equiv> arrived (arrive n) d0"
  obtains (stop) reason where "calc_loop tables arrive junk n d0 = Some (reason, n, d)"
      "stopped_for (tables n) junk d reason" "reason \<noteq> NotReady"
  | (go) cdr cdrs r d' where "cm_getQueueSize (bd_calls d) < CALLS_MAX_QUEUE_SIZE" "dm_queue (bd_cdrs d) = cdr # cdrs"
      "repository_prepare (tables n) (cdr_connect_time cdr) = Some r" "calc_cdr junk (tables n) r cdr d = Some d'"
      "calc_loop tables arrive junk n d0 =
         calc_loop tables arrive junk (Suc n) (d'\<lparr> bd_cdrs := dm_removeFirstCdr (bd_cdrs d') \<rparr>)"
proof (cases "cm_getQueueSize (bd_calls d) \<ge> CALLS_MAX_QUEUE_SIZE")
  case True
  then show ?thesis using stop [of QueueFull] calc_loop.simps [of tables arrive junk n d0]
    by (simp add: d_def [symmetric] Let_def stopped_for_def)
next
  case False
  note unfold = trans [OF calc_loop.simps [of tables arrive junk n d0, unfolded Let_def, folded d_def] if_not_P [OF False]]
  show ?thesis
  proof (cases "dm_queue (bd_cdrs d)")
    case Nil
    then show ?thesis using stop [of NoCdr] by (simp add: unfold dm_getFirstCdr_def stopped_for_def)
  next
    case (Cons cdr cdrs)
    then have first: "dm_getFirstCdr (bd_cdrs d) = Some cdr" by (simp add: dm_getFirstCdr_def)
    show ?thesis
    proof (cases "repository_prepare (tables n) (cdr_connect_time cdr)")
      case None
      then show ?thesis using stop [of TablesMissing] Cons first by (simp add: unfold stopped_for_def)
    next
      case r: (Some r)
      show ?thesis
      proof (cases "calc_cdr junk (tables n) r cdr d")
        case None
        then show ?thesis using stop [of Crashed] Cons first r by (simp add: unfold stopped_for_def)
      next
        case d': (Some d')
        then show ?thesis using go [of cdr cdrs r d'] Cons first r False by (simp add: unfold)
      qed
    qed
  qed
qed

text \<open>What one round writes.\<close>

lemma round_legs:
  assumes "calc_cdr junk tb r cdr d = Some d'" and "bd_ok d" "current_ok tb"
    and r: "repository_prepare tb (cdr_connect_time cdr) = Some r"
  shows "\<exists>legs. concat (cm_parts (bd_calls d')) = concat (cm_parts (bd_calls d)) @ legs \<and>
      legs_numbered (cm_realtimeLastId (bd_calls d)) legs \<and> map c_cdr_id legs = leg_ids tb cdr \<and>
      cm_realtimeLastId (bd_calls d') = cm_realtimeLastId (bd_calls d) + int (length legs)"
proof (cases "fst (skip_cdr r (mega_of_cdr r cdr))")
  case True
  then show ?thesis using calc_cdr_ok(2) [OF assms(1-3)] r by (intro exI [of _ "[]"]) (simp add: leg_ids_def)
next
  case False
  from calc_cdr_ok(3) [OF assms(1-3) False] obtain a b where
    "concat (cm_parts (bd_calls d')) = concat (cm_parts (bd_calls d)) @ [a, b]"
    "legs_numbered (cm_realtimeLastId (bd_calls d)) [a, b]" "c_cdr_id a = cdr_id cdr"
    "cm_realtimeLastId (bd_calls d') = cm_realtimeLastId (bd_calls d) + 2" by blast
  with False r show ?thesis by (intro exI [of _ "[a, b]"]) (simp add: leg_ids_def)
qed

lemma leg_ids_length: "length (leg_ids tb cdr) \<le> 2"
  by (simp add: leg_ids_def split: option.splits)

text \<open>A run ends as soon as records cease to arrive.\<close>

lemma calc_loop_ok:
  assumes "bd_ok d" and "\<And>n. current_ok (tables n)" and "\<And>i. i \<ge> N \<Longrightarrow> arrive i = []"
  shows "\<exists>reason priced legs d'. calc_loop tables arrive junk n d = Some (reason, n + length priced, d') \<and>
    dm_queue (bd_cdrs d) @ concat (map arrive [n..<Suc (n + length priced)]) = priced @ dm_queue (bd_cdrs d') \<and>
    concat (cm_parts (bd_calls d')) = concat (cm_parts (bd_calls d)) @ legs \<and>
    map c_cdr_id legs = all_leg_ids tables n priced \<and> legs_numbered (cm_realtimeLastId (bd_calls d)) legs \<and>
    cm_realtimeLastId (bd_calls d') = cm_realtimeLastId (bd_calls d) + int (length legs) \<and> bd_ok d' \<and>
    cm_getQueueSize (bd_calls d') \<le> max (cm_getQueueSize (bd_calls d)) (CALLS_MAX_QUEUE_SIZE + 1) \<and>
    stopped_for (tables (n + length priced)) junk d' reason \<and> reason \<noteq> NotReady"
  using assms(1)
proof (induction "length (dm_queue (bd_cdrs d)) + length (concat (map arrive [n..<N]))" arbitrary: n d rule: less_induct)
  case less
  let ?d = "arrived (arrive n) d"
  show ?case
  proof (cases rule: calc_loop_cases [where ?tables = tables and ?arrive = arrive and ?junk = junk and ?n = n and ?d0.0 = d])
    case (stop reason)
    then show ?thesis using less.prems by (intro exI [of _ reason] exI [of _ "[]"] exI [of _ ?d]) simp
  next
    case (go cdr cdrs r d1)
    let ?d2 = "d1\<lparr> bd_cdrs := dm_removeFirstCdr (bd_cdrs d1) \<rparr>"
    have q1: "bd_cdrs d1 = bd_cdrs ?d" by (rule calc_cdr_cdrs [OF go(4)])
    then have q2: "dm_queue (bd_cdrs ?d2) = cdrs" using go(2) by (simp add: dm_removeFirstCdr_def)
    have q: "dm_queue (bd_cdrs d) @ arrive n = cdr # cdrs" using go(2) by simp
    have ok: "bd_ok ?d" "bd_ok ?d2" using less.prems calc_cdr_ok(1) [OF go(4) _ assms(2)] by simp_all
    obtain legs1 where l1: "concat (cm_parts (bd_calls d1)) = concat (cm_parts (bd_calls d)) @ legs1"
      "legs_numbered (cm_realtimeLastId (bd_calls d)) legs1" "map c_cdr_id legs1 = leg_ids (tables n) cdr"
      "cm_realtimeLastId (bd_calls d1) = cm_realtimeLastId (bd_calls d) + int (length legs1)"
      using round_legs [OF go(4) ok(1) assms(2) go(3)] by auto
    have len1: "length legs1 \<le> 2" using l1(3) leg_ids_length by (metis length_map)
    have "length (arrive n) + length (concat (map arrive [Suc n..<N])) = length (concat (map arrive [n..<N]))"
      using assms(3) by (cases "n < N") (simp_all add: upt_conv_Cons)
    then have "length (dm_queue (bd_cdrs ?d2)) + length (concat (map arrive [Suc n..<N]))
        < length (dm_queue (bd_cdrs d)) + length (concat (map arrive [n..<N]))"
      using arg_cong [OF q, of length] q2 by simp
    from less.hyps [OF this ok(2)] obtain reason priced legs d' where
      l: "calc_loop tables arrive junk (Suc n) ?d2 = Some (reason, Suc n + length priced, d')"
      "dm_queue (bd_cdrs ?d2) @ concat (map arrive [Suc n..<Suc (Suc n + length priced)]) = priced @ dm_queue (bd_cdrs d')"
      "concat (cm_parts (bd_calls d')) = concat (cm_parts (bd_calls ?d2)) @ legs"
      "map c_cdr_id legs = all_leg_ids tables (Suc n) priced" "legs_numbered (cm_realtimeLastId (bd_calls ?d2)) legs"
      "cm_realtimeLastId (bd_calls d') = cm_realtimeLastId (bd_calls ?d2) + int (length legs)" "bd_ok d'"
      "cm_getQueueSize (bd_calls d') \<le> max (cm_getQueueSize (bd_calls ?d2)) (CALLS_MAX_QUEUE_SIZE + 1)"
      "stopped_for (tables (Suc n + length priced)) junk d' reason" "reason \<noteq> NotReady" by blast
    have "[n..<Suc (n + length (cdr # priced))] = n # [Suc n..<Suc (Suc n + length priced)]"
      by (subst upt_conv_Cons) simp_all
    then have queue: "dm_queue (bd_cdrs d) @ concat (map arrive [n..<Suc (n + length (cdr # priced))]) =
        (cdr # priced) @ dm_queue (bd_cdrs d')" using q l(2) q2 by (simp flip: append_assoc)
    have "cm_getQueueSize (bd_calls d1) \<le> CALLS_MAX_QUEUE_SIZE + 1" using l1(1) len1 go(1) by (simp add: queue_size)
    with queue l l1 go(5) show ?thesis
      by (intro exI [of _ reason] exI [of _ "cdr # priced"] exI [of _ "legs1 @ legs"] exI [of _ d'])
        (auto intro: legs_numbered_append)
  qed
qed

section \<open>The counters of calls in progress\<close>

lemma add_empty:
  "mg_stats m1 = Map.empty \<Longrightarrow> StatsFreemin_add call m1 = Some m1"
  "mg_stats m2 = Map.empty \<Longrightarrow> StatsPackage_add call prepaid m2 = Some m2"
  "mg_stats m3 = Map.empty \<Longrightarrow> StatsTrunkSettings_add call m3 = Some m3"
  "mg_stats m4 = Map.empty \<Longrightarrow> StatsNNPPackageMinute_add call m4 = Some m4"
  by (simp_all add: StatsFreemin_add_def StatsPackage_add_def StatsTrunkSettings_add_def StatsNNPPackageMinute_add_def
      mg_update_def)

definition no_counters :: "CurrentCalls \<Rightarrow> bool" where
  "no_counters c \<longleftrightarrow> cc_statsFreemin c = mg_new \<and> cc_statsPackage c = mg_new \<and> cc_statsTrunkSettings c = mg_new \<and>
     cc_statsNNPPackageMinute c = mg_new"

lemma add_current_counters: "add_current s c = Some c' \<Longrightarrow> no_counters c \<Longrightarrow> no_counters c'"
  by (auto simp: add_current_def no_counters_def Let_def bind_eq_Some_conv add_empty mg_new_def)

lemma current_loop_counters: "current_loop junk tables n cdrs c d = Some (c', d') \<Longrightarrow> no_counters c \<Longrightarrow> no_counters c'"
  by (induction junk tables n cdrs c d arbitrary: c' d' rule: current_loop.induct)
    (auto simp: bind_eq_Some_conv add_current_counters split: option.splits)

end
