(* ===== verification/Loop_Properties.thy ===== *)
theory Loop_Properties
  imports Save_Properties Billing_Loop
begin

text \<open>
  The properties of the billing loop, with their witnesses.
\<close>

section \<open>Tables for the witnesses\<close>

definition sample_server :: Server where
  "sample_server = \<lparr> sv_id = 1, sv_hub_id = 0, sv_low_balance_outcome_id = 0, sv_blocked_outcome_id = 0, sv_calling_station_id_for_line_without_number = [], sv_min_price_for_autorouting = 0, sv_our_numbers_id = 0, sv_emergency_prefixlist_id = 0, sv_call_sync_delay = [], sv_cdr_sync_delay = [], sv_call_save_delay = [], sv_cdr_proc_wait_count = [], sv_call_save_wait_count = [], sv_thread_error_count = [], sv_radius_request_delay = [], sv_service_numbers = [], sv_main_event_count = [], sv_local_event_count = [], sv_name = [], sv_nas_ip_address = 0 \<rparr>"

definition sample_tables :: Tables where
  "sample_tables = \<lparr> tb_loaded = (\<lambda>_. True), tb_hub_found = True,
     tb_repo = empty_repo\<lparr>
       rp_server := [sample_server],
       rp_instanceSettings := [\<lparr> is_id = 1, is_region_id = ''{1}'', is_city_geo_id = 0, is_country_id = 643,
         is_city_id = 77, is_auto_lock_finance = False \<rparr>] \<rparr>,
     tb_currentMinute = None, tb_globalMinute = None \<rparr>"

definition sample_container :: DataBillingContainer where
  "sample_container = (sy_data sample_system)\<lparr> bd_cdrs := dm_push sample_cdr (bd_cdrs (sy_data sample_system)) \<rparr>"

lemma load_nothing:
  "mg_load id_of key_of 0 [] mg_new = mg_new\<lparr> mg_loaded := True \<rparr>"
  by (simp add: mg_load_def mg_new_def)

lemma wf_loaded:
  "freemin.wf (mg_new\<lparr> mg_loaded := True \<rparr>)" "package.wf (mg_new\<lparr> mg_loaded := True \<rparr>)"
  "trunk_settings.wf (mg_new\<lparr> mg_loaded := True \<rparr>)" "package_minute.wf (mg_new\<lparr> mg_loaded := True \<rparr>)"
  by (simp_all add: freemin.wf_def package.wf_def trunk_settings.wf_def package_minute.wf_def mg_new_def ids_of_key_def
      freemin.newest_def package.newest_def trunk_settings.newest_def package_minute.newest_def)

lemma sample_container_ok: "bd_ok sample_container"
  by (simp add: bd_ok_def sample_container_def sample_system_def loadAll_def loadLastCallIdAndCdrIdAndTime_def cm_clear_def
      StatsFreemin_load_def StatsPackage_load_def StatsTrunkSettings_load_def StatsNNPPackageMinute_load_def load_nothing
      wf_loaded)

lemma sample_tables_ok: "current_ok sample_tables"
  by (simp add: current_ok_def sample_tables_def)

lemma sample_tables_found:
  "getServer (tb_repo sample_tables) 1 = Some sample_server" "getInstanceSettings (tb_repo sample_tables) 1 \<noteq> None"
  by (simp_all add: getServer_def ServerList_find_def getInstanceSettings_def InstanceSettingsList_find_def first_of_def
      equal_range_def equal_range_by_def partition_point_def bound_loop.simps sample_tables_def empty_repo_def sample_server_def)

lemma sample_tables_conf:
  "cf_instance_id (rp_conf (tb_repo sample_tables)) = 1" "rp_now (tb_repo sample_tables) = 1000" "tb_hub_found sample_tables"
  "\<And>n. tb_loaded sample_tables n" by (simp_all add: sample_tables_def empty_repo_def)

lemma sample_tables_prepare:
  "repository_prepare sample_tables t = Some ((tb_repo sample_tables)\<lparr> rp_currentTime := (if t = 0 then 1000 else t) \<rparr>)"
proof -
  have "List.find (\<lambda>n. \<not> tb_loaded sample_tables n) xs = None" for xs by (simp add: find_None_iff sample_tables_conf)
  then show ?thesis
    by (simp add: repository_prepare_def Let_def prepare_def sample_tables_found sample_tables_conf)
qed

text \<open>With these tables no trunk is known: both legs are recorded without a price.\<close>

definition sample_repo :: "int \<Rightarrow> Repo" where
  "sample_repo t = (tb_repo sample_tables)\<lparr> rp_currentTime := (if t = 0 then 1000 else t) \<rparr>"

lemma sample_repo_trunk: "getTrunkByName (sample_repo t) n i = None"
  by (simp add: sample_repo_def sample_tables_def getTrunkByName_def empty_repo_def TrunkByNameList_find_def
      TrunkByAliasList_find_def equal_range_def equal_range_by_def Let_def)

lemma sample_leg:
  assumes "bs_repo s = sample_repo t"
  shows "\<exists>s'. next_state (calc s) = Some s' \<and> ci_account (bs_info s') = ci_account (bs_info s) \<and>
    c_service_package_id (bs_call s') = c_service_package_id (bs_call s) \<and>
    c_trunk_settings_stats_id (bs_call s') = c_trunk_settings_stats_id (bs_call s) \<and>
    c_stats_nnp_package_minute_id (bs_call s') = c_stats_nnp_package_minute_id (bs_call s) \<and> bs_repo s' = bs_repo s"
  using assms by (simp add: next_state_def calc_def calc_steps_def setupTrunk_def sample_repo_trunk)

lemma unpriced_added:
  assumes "ci_account ci = None" "c_service_package_id call = 0" "c_trunk_settings_stats_id call = 0"
    "c_stats_nnp_package_minute_id call = 0" and "cm_parts (bd_calls d) \<noteq> []"
  shows "\<exists>d'. addCall call ci d = Some d' \<and> cm_parts (bd_calls d') \<noteq> []"
  using assms
  by (auto simp: addCall_def add_account_def StatsFreemin_add_def StatsPackage_add_def StatsTrunkSettings_add_def
      StatsNNPPackageMinute_add_def cm_add_def cm_isNeedCreatePartitionAfterAdd_def Let_def)

lemma sample_no_skip: "\<exists>mega. skip_cdr (sample_repo t) (mega_of_cdr (sample_repo t) cdr) = (False, mega)"
  by (simp add: skip_cdr_def mega_of_cdr_def PhaseCalc_def prepareFromCdr_def sample_repo_trunk StateMegaTrunk_new_def
      isForceOrigTarifficationSkip_def isTechOrig_def Let_def)

definition unpriced :: "BillingState \<Rightarrow> bool" where
  "unpriced s \<longleftrightarrow> ci_account (bs_info s) = None \<and> c_service_package_id (bs_call s) = 0 \<and>
     c_trunk_settings_stats_id (bs_call s) = 0 \<and> c_stats_nnp_package_minute_id (bs_call s) = 0"

lemma sample_legs:
  assumes "unpriced (leg_state tb (sample_repo t) cdr mega oc d)" "unpriced (leg_state tb (sample_repo t) cdr mega tc d)"
  shows "\<exists>so st. unpriced so \<and> unpriced st \<and>
    calc_legs tb (sample_repo t) cdr mega oc tc d = Some (so, st, counters_back st (counters_back so d))"
proof -
  let ?r = "sample_repo t"
  obtain so where so: "next_state (calc (leg_state tb ?r cdr mega oc d)) = Some so" "unpriced so" "bs_repo so = ?r"
    using sample_leg [of "leg_state tb ?r cdr mega oc d" t] assms(1) by (auto simp: leg_state_def unpriced_def)
  define s1 where "s1 = (leg_state tb (bs_repo so) cdr (case bs_mega so of Some m \<Rightarrow> m | None \<Rightarrow> mega)
      (tc\<lparr> c_src_number := c_src_number (bs_call so), c_dst_number := c_dst_number (bs_call so) \<rparr>)
      (counters_back so d))\<lparr> bs_currentMinute := bs_currentMinute so \<rparr>"
  obtain st where st: "next_state (calc s1) = Some st" "unpriced st"
    using sample_leg [of s1 t] assms(2) so(3) by (auto simp: s1_def leg_state_def unpriced_def)
  show ?thesis using so st by (intro exI [of _ so] exI [of _ st]) (simp add: calc_legs_def s1_def Let_def)
qed

lemma sample_calc_cdr:
  assumes "bd_ok d"
  shows "\<exists>d'. calc_cdr junk sample_tables (sample_repo t) cdr d = Some d'"
proof -
  let ?r = "sample_repo t" and ?l = "cm_realtimeLastId (bd_calls d)"
  obtain mega where mega: "skip_cdr ?r (mega_of_cdr ?r cdr) = (False, mega)" using sample_no_skip by blast
  let ?oc = "new_leg junk cdr True (?l + 1) (?l + 2)" and ?tc = "new_leg junk cdr False (?l + 2) (?l + 1)"
  have "unpriced (leg_state sample_tables ?r cdr mega (new_leg junk cdr b i p) d)" for b i p
    by (simp add: unpriced_def leg_state_def new_leg_def Call_new_def CallInfo_new_def)
  from sample_legs [OF this this] obtain so st where u: "unpriced so" "unpriced st"
    and legs: "calc_legs sample_tables ?r cdr mega ?oc ?tc d = Some (so, st, counters_back st (counters_back so d))" by blast
  have "cm_parts (bd_calls (counters_back st (counters_back so d))) \<noteq> []" using assms by (simp add: bd_ok_def)
  from unpriced_added [OF _ _ _ _ this, of "bs_info so" "bs_call so"] u(1)
  obtain d2 where d2: "addCall (bs_call so) (bs_info so) (counters_back st (counters_back so d)) = Some d2"
    "cm_parts (bd_calls d2) \<noteq> []" by (auto simp: unpriced_def)
  from unpriced_added [OF _ _ _ _ d2(2), of "bs_info st" "bs_call st"] u(2)
  obtain d3 where "addCall (bs_call st) (bs_info st) d2 = Some d3" by (auto simp: unpriced_def)
  with mega legs d2(1) show ?thesis by (simp add: calc_cdr_def Let_def)
qed

lemma unpriced_current: "unpriced s \<Longrightarrow> \<exists>c'. add_current s c = Some c'"
  by (simp add: unpriced_def add_current_def add_account_def StatsFreemin_add_def StatsPackage_add_def
      StatsTrunkSettings_add_def StatsNNPPackageMinute_add_def Let_def)

lemma sample_current:
  "\<exists>c d'. calcCurrentCalls 0 (\<lambda>_. sample_tables) (Some [sample_cdr]) CurrentCalls_new sample_container = Some (c, d')"
proof -
  let ?r = "sample_repo (cdr_connect_time sample_cdr)"
  have "unpriced (leg_state sample_tables ?r sample_cdr mega (Call_new 0 sample_cdr b) sample_container)" for b mega
    by (simp add: unpriced_def leg_state_def Call_new_def CallInfo_new_def)
  from sample_legs [OF this this] obtain so st where u: "unpriced so" "unpriced st"
    and legs: "calc_legs sample_tables ?r sample_cdr (mega_of_cdr ?r sample_cdr) (Call_new 0 sample_cdr True)
      (Call_new 0 sample_cdr False) sample_container = Some (so, st, counters_back st (counters_back so sample_container))" by blast
  obtain c1 where c1: "add_current so CurrentCalls_new = Some c1" using unpriced_current [OF u(1)] by blast
  obtain c2 where c2: "add_current st c1 = Some c2" using unpriced_current [OF u(2)] by blast
  have "repository_prepare sample_tables (cdr_connect_time sample_cdr) = Some ?r"
    by (simp add: sample_tables_prepare sample_repo_def)
  then show ?thesis by (simp add: calcCurrentCalls_def legs c1 c2)
qed

section \<open>Properties\<close>

text \<open>C6: A run of the billing loop that starts with a ready container ends as soon as records cease to
  arrive. Whatever arrives meanwhile, it prices the records of the queue followed by those that arrived, in
  order and without leaving one out; what it has not priced is left in the queue. To the calls it appends
  exactly two legs of the record for each record priced that is not a technical leg of a mega trunk, and none for
  the others: an originating and a terminating leg with the next two identifiers, each the peer of the other.
  The queue of calls exceeds its limit by at most one. The loop stops only because that queue is full, the
  queue of records is empty, or the tables are not loaded or the pricing crashes for the first record left.\<close>

theorem billing_loop_pairs:
  assumes "bd_ready d" and "bd_ok d" and "\<And>n. current_ok (tables n)" and "\<And>i. i \<ge> N \<Longrightarrow> arrive i = []"
  shows "\<exists>reason priced legs d'. billing_calc tables arrive junk d = Some (reason, length priced, d') \<and>
    dm_queue (bd_cdrs d) @ concat (map arrive [0..<Suc (length priced)]) = priced @ dm_queue (bd_cdrs d') \<and>
    concat (cm_parts (bd_calls d')) = concat (cm_parts (bd_calls d)) @ legs \<and>
    map c_cdr_id legs = all_leg_ids tables 0 priced \<and> legs_numbered (cm_realtimeLastId (bd_calls d)) legs \<and>
    cm_realtimeLastId (bd_calls d') = cm_realtimeLastId (bd_calls d) + int (length legs) \<and> bd_ok d' \<and>
    cm_getQueueSize (bd_calls d') \<le> max (cm_getQueueSize (bd_calls d)) (CALLS_MAX_QUEUE_SIZE + 1) \<and>
    stopped_for (tables (length priced)) junk d' reason \<and> reason \<noteq> NotReady"
  using calc_loop_ok [OF assms(2,3,4), where n = 0 and junk = junk] assms(1) by (simp add: billing_calc_def del: upt_Suc)

lemma sample_container_ready: "bd_ready sample_container"
  by (simp add: bd_ready_def sample_container_def dm_push_def dm_ready_def cm_ready_def sample_cdr_def Cdr_new_def
      sample_system_defs)

lemma sample_container_queue: "dm_queue (bd_cdrs sample_container) = [sample_cdr]" "cm_getQueueSize (bd_calls sample_container) = 0"
  by (simp_all add: sample_container_def dm_push_def sample_system_defs cm_getQueueSize_def)

lemma sample_leg_ids: "leg_ids sample_tables cdr = [cdr_id cdr, cdr_id cdr]"
  using sample_no_skip [of "cdr_connect_time cdr" cdr]
  by (auto simp: leg_ids_def sample_tables_prepare sample_repo_def)

lemma sample_not_stopped:
  assumes "stopped_for sample_tables 0 d reason" "reason \<noteq> NotReady" "bd_ok d"
  shows "reason = QueueFull \<or> reason = NoCdr"
proof -
  have *: "\<exists>d'. calc_cdr 0 sample_tables r cdr d = Some d'"
    if "repository_prepare sample_tables (cdr_connect_time cdr) = Some r" for r cdr
    using sample_calc_cdr [OF assms(3), of 0 "cdr_connect_time cdr" cdr] that by (auto simp: sample_tables_prepare sample_repo_def)
  show ?thesis
  proof (cases reason)
    case Crashed
    then show ?thesis using assms(1) by (auto simp: stopped_for_def dest!: * split: list.splits option.splits)
  qed (use assms in \<open>auto simp: stopped_for_def sample_tables_prepare split: list.splits\<close>)
qed

text \<open>A record that arrives during the first round is priced by the same run: four legs.\<close>

theorem billing_loop_pairs_witness:
  "\<exists>legs d'. billing_calc (\<lambda>_. sample_tables) (\<lambda>i. if i = 1 then [sample_cdr] else []) 0 sample_container = Some (NoCdr, 2, d') \<and>
     concat (cm_parts (bd_calls d')) = concat (cm_parts (bd_calls sample_container)) @ legs \<and>
     map c_cdr_id legs = replicate 4 (cdr_id sample_cdr) \<and> dm_queue (bd_cdrs d') = []"
proof -
  let ?arrive = "\<lambda>i::nat. if i = 1 then [sample_cdr] else []"
  obtain reason priced legs d' where run:
    "billing_calc (\<lambda>_. sample_tables) ?arrive 0 sample_container = Some (reason, length priced, d')"
    "dm_queue (bd_cdrs sample_container) @ concat (map ?arrive [0..<Suc (length priced)]) = priced @ dm_queue (bd_cdrs d')"
    "concat (cm_parts (bd_calls d')) = concat (cm_parts (bd_calls sample_container)) @ legs"
    "map c_cdr_id legs = all_leg_ids (\<lambda>_. sample_tables) 0 priced"
    "cm_getQueueSize (bd_calls d') = length legs"
    "stopped_for sample_tables 0 d' reason" "reason \<noteq> NotReady" "bd_ok d'"
    using billing_loop_pairs [OF sample_container_ready sample_container_ok sample_tables_ok, of 2 ?arrive 0]
      sample_container_queue(2) by (auto simp: queue_size)
  have one: "concat (map (\<lambda>i. if i = Suc 0 then [sample_cdr] else []) [0..<k]) = (if k \<ge> 2 then [sample_cdr] else [])" for k by (induction k) auto
  have "length priced \<le> 2" using arg_cong [OF run(2), of length]
    by (simp add: sample_container_queue one del: upt_Suc split: if_splits)
  moreover have ids: "all_leg_ids (\<lambda>_. sample_tables) n cs = concat (map (\<lambda>c. [cdr_id c, cdr_id c]) cs)" for n cs
    by (induction cs arbitrary: n) (simp_all add: sample_leg_ids)
  ultimately have "length legs \<le> 4" using arg_cong [OF run(4), of length]
    by (auto simp: length_concat comp_def sum_list_triv)
  then have r: "reason = NoCdr" "dm_queue (bd_cdrs d') = []" using sample_not_stopped [OF run(6,7,8)] run(5,6)
    by (auto simp: stopped_for_def CALLS_MAX_QUEUE_SIZE_def)
  have p: "priced = [sample_cdr, sample_cdr]" using run(2) r(2)
    by (cases "length priced \<ge> 1") (auto simp: sample_container_queue one simp del: upt_Suc split: if_splits)
  with run r show ?thesis by (intro exI [of _ legs] exI [of _ d']) (simp add: ids numeral_eq_Suc)
qed

text \<open>The counters of the calls in progress count nothing: they start without rows, and adding a call
  only updates rows that exist, so the used seconds reported for a package by the calls in progress are
  always zero.\<close>

theorem current_calls_count_nothing:
  assumes "calcCurrentCalls junk tables (Some cdrs) published d = Some (c, d')"
  shows "cc_statsNNPPackageMinute c = mg_new \<and> cc_statsFreemin c = mg_new \<and> cc_statsPackage c = mg_new \<and>
    cc_statsTrunkSettings c = mg_new \<and>
    StatsNNPPackageMinute_getUsedSeconds tariff minute t (cc_statsNNPPackageMinute c) = 0"
proof -
  have "no_counters CurrentCalls_new" by (simp add: no_counters_def CurrentCalls_new_def)
  then have "no_counters c" using assms current_loop_counters by (auto simp: calcCurrentCalls_def)
  moreover have "StatsNNPPackageMinute_getUsedSeconds tariff minute t mg_new = 0"
    by (simp add: StatsNNPPackageMinute_getUsedSeconds_def mg_new_def ids_of_key_def)
  ultimately show ?thesis by (simp add: no_counters_def)
qed

theorem current_calls_count_nothing_witness:
  "\<exists>c d'. calcCurrentCalls 0 (\<lambda>_. sample_tables) (Some [sample_cdr]) CurrentCalls_new sample_container = Some (c, d') \<and>
     StatsNNPPackageMinute_getUsedSeconds 1 1 1000 (cc_statsNNPPackageMinute c) = 0"
proof -
  obtain c d' where run: "calcCurrentCalls 0 (\<lambda>_. sample_tables) (Some [sample_cdr]) CurrentCalls_new sample_container =
      Some (c, d')" using sample_current by blast
  from current_calls_count_nothing [OF run, of 1 1 1000] run show ?thesis by blast
qed

end
