(* ===== verification/Radius_Auth.thy ===== *)
theory Radius_Auth
  imports Billing_Loop "HOL-Library.AList"
begin

text \<open>
  \<^verbatim>\<open>src/src-bill/classes/RadiusAuthProcessor.cpp\<close>: the answer to a RADIUS request. The call is priced as if
  it lasted a minute, the account's limits are checked, and a route is searched in the tables. The response,
  the number read, the server in charge and the accounts blocked are the state; \<open>RadiusEnv\<close> is what the
  request only reads. What the methods write to the log and to the trace is left out.
\<close>

section \<open>Data\<close>

datatype RejectReason = REASON_NO_BALANCE | REASON_DAILY_LIMIT

record RadiusAuthRequest =
  rq_trunkName :: string
  rq_srcNumber :: string
  rq_dstNumber :: string
  rq_redirectNumber :: string
  rq_callingPartyCategory :: string
  rq_nasIpAddress :: int
  rq_srcNoa :: int
  rq_dstNoa :: int
  rq_region :: int

definition RadiusAuthRequest_new :: RadiusAuthRequest where
  "RadiusAuthRequest_new = \<lparr> rq_trunkName = [], rq_srcNumber = [], rq_dstNumber = [], rq_redirectNumber = [],
     rq_callingPartyCategory = [], rq_nasIpAddress = 0, rq_srcNoa = 3, rq_dstNoa = 3, rq_region = 0 \<rparr>"

text \<open>The member \<open>accept\<close> has no initial value.\<close>

record RadiusAuthResponse =
  rs_accept :: bool
  rs_srcNumber :: string
  rs_dstNumber :: string
  rs_routeCase :: string
  rs_releaseReason :: string
  rs_airp :: string
  rs_error :: string

definition RadiusAuthResponse_new :: "bool \<Rightarrow> RadiusAuthResponse" where
  "RadiusAuthResponse_new junk = \<lparr> rs_accept = junk, rs_srcNumber = [], rs_dstNumber = [], rs_routeCase = [],
     rs_releaseReason = [], rs_airp = [], rs_error = [] \<rparr>"

definition setRouteCase :: "string \<Rightarrow> RadiusAuthResponse \<Rightarrow> RadiusAuthResponse" where
  "setRouteCase routeCase p = p\<lparr> rs_accept := True, rs_routeCase := routeCase \<rparr>"

definition setAirp :: "string \<Rightarrow> RadiusAuthResponse \<Rightarrow> RadiusAuthResponse" where
  "setAirp airp p = p\<lparr> rs_accept := True, rs_airp := airp \<rparr>"

definition setReleaseReason :: "string \<Rightarrow> RadiusAuthResponse \<Rightarrow> RadiusAuthResponse" where
  "setReleaseReason releaseReason p = p\<lparr> rs_accept := True, rs_releaseReason := releaseReason \<rparr>"

definition setAccept :: "RadiusAuthResponse \<Rightarrow> RadiusAuthResponse" where
  "setAccept p = p\<lparr> rs_accept := True \<rparr>"

definition setReject :: "RadiusAuthResponse \<Rightarrow> RadiusAuthResponse" where
  "setReject p = p\<lparr> rs_accept := False, rs_srcNumber := [], rs_dstNumber := [] \<rparr>"

text \<open>\<open>ra_blocked\<close> is the map \<open>accountIdsBlockedBefore\<close>: by account the reason and the time the block ends.\<close>

record RadiusState =
  ra_repo :: Repo
  ra_request :: RadiusAuthRequest
  ra_response :: RadiusAuthResponse
  ra_aNumber :: string
  ra_bNumber :: string
  ra_server :: "Server option"
  ra_origTrunk :: "Trunk option"
  ra_account :: "Client option"
  ra_billingNotReady :: bool
  ra_blocked :: "(int \<times> RejectReason \<times> int) list"
  ra_data :: DataBillingContainer

text \<open>The tables, the counters of the calls in progress, the counters of the other regions (none before
  they were loaded), the mode of the program, the permutation \<open>random_shuffle\<close> picks and the value of the
  member that the constructor of \<open>Call\<close> leaves alone.\<close>

record RadiusEnv =
  ev_tables :: Tables
  ev_currentAccount :: StatsAccountManager
  ev_globalCounters :: "GlobalCounters list option"
  ev_isApiHostMode :: bool
  ev_shuffle :: "Trunk list \<Rightarrow> Trunk list"
  ev_junk :: int

section \<open>Results\<close>

text \<open>\<open>Done\<close> is a return, \<open>Thrown\<close> an exception with its text, \<open>Broken\<close> undefined behaviour and \<open>Endless\<close> a
  recursion deeper than the bound. An exception leaves behind what was written before it.\<close>

datatype 'a reply = Done 'a RadiusState | Thrown string RadiusState | Broken | Endless

fun after :: "'a reply \<Rightarrow> ('a \<Rightarrow> RadiusState \<Rightarrow> 'b reply) \<Rightarrow> 'b reply" where
  "after (Done a s) f = f a s"
| "after (Thrown e s) f = Thrown e s"
| "after Broken f = Broken"
| "after Endless f = Endless"

fun lift_exc :: "'a exc \<Rightarrow> RadiusState \<Rightarrow> 'a reply" where
  "lift_exc (Val a) s = Done a s"
| "lift_exc (Exc e) s = Thrown e s"
| "lift_exc Undef s = Broken"

definition need :: "'a option \<Rightarrow> ('a \<Rightarrow> 'b exc) \<Rightarrow> 'b exc" where
  "need p f = (case p of None \<Rightarrow> Undef | Some a \<Rightarrow> f a)"

definition respond :: "(RadiusAuthResponse \<Rightarrow> RadiusAuthResponse) \<Rightarrow> RadiusState \<Rightarrow> RadiusState" where
  "respond f s = s\<lparr> ra_response := f (ra_response s) \<rparr>"

text \<open>\<open>Exception::getFullMessage\<close> for an exception with one trace entry.\<close>

definition full_message :: "string \<Rightarrow> string \<Rightarrow> string" where
  "full_message trace_entry message = trace_entry @ '' -> '' @ [CHR 0x0A] @ message"

definition not_found :: "string \<Rightarrow> string \<Rightarrow> int \<Rightarrow> string" where
  "not_found function what i = full_message (''RadiusAuthProcessor::'' @ function) (what @ '' #'' @ lld i @ '' not found'')"

lemma after_Done_iff [simp]: "after m f = Done b s' \<longleftrightarrow> (\<exists>a s. m = Done a s \<and> f a s = Done b s')"
  by (cases m) auto

lemma after_Endless_iff [simp]: "after m f = Endless \<longleftrightarrow> m = Endless \<or> (\<exists>a s. m = Done a s \<and> f a s = Endless)"
  by (cases m) auto

lemma lift_exc_Done_iff [simp]: "lift_exc e s = Done a s' \<longleftrightarrow> e = Val a \<and> s' = s"
  by (cases e) auto

lemma lift_exc_not_Endless [simp]: "lift_exc e s \<noteq> Endless"
  by (cases e) auto

lemma need_Val_iff [simp]: "need p f = Val b \<longleftrightarrow> (\<exists>a. p = Some a \<and> f a = Val b)"
  by (cases p) (auto simp: need_def)

lemma need_Some [simp]: "need (Some a) f = f a"
  by (simp add: need_def)

lemma respond_simps [simp]:
  "ra_response (respond f s) = f (ra_response s)" "ra_server (respond f s) = ra_server s"
  "ra_blocked (respond f s) = ra_blocked s" "ra_repo (respond f s) = ra_repo s" "ra_data (respond f s) = ra_data s"
  "ra_origTrunk (respond f s) = ra_origTrunk s" "ra_bNumber (respond f s) = ra_bNumber s"
  "ra_aNumber (respond f s) = ra_aNumber s" "ra_request (respond f s) = ra_request s"
  by (simp_all add: respond_def)

lemma accept_simps [simp]:
  "rs_accept (setRouteCase x p)" "rs_accept (setAirp x p)" "rs_accept (setReleaseReason x p)" "rs_accept (setAccept p)"
  "\<not> rs_accept (setReject p)"
  by (simp_all add: setRouteCase_def setAirp_def setReleaseReason_def setAccept_def setReject_def)

section \<open>Filters\<close>

definition filterByNumber :: "Repo \<Rightarrow> int \<Rightarrow> string \<Rightarrow> bool exc" where
  "filterByNumber r numberId strNumber =
     (case getNumber r numberId of
        None \<Rightarrow> Exc (not_found ''filterByNumber'' ''Number'' numberId)
      | Some n \<Rightarrow>
          bind_exc (getPrefixlistIds n) (any_exc (\<lambda>i.
            case getPrefixlist r i of
              None \<Rightarrow> Exc (not_found ''filterByNumber'' ''Prefixlist'' i)
            | Some pl \<Rightarrow> bind_exc (getPrefixlistPrefix r (pf_id pl) strNumber) (\<lambda>p. Val (p \<noteq> None)))))"

definition filter_if_set :: "Repo \<Rightarrow> int \<Rightarrow> string \<Rightarrow> bool exc" where
  "filter_if_set r numberId strNumber = (if numberId > 0 then filterByNumber r numberId strNumber else Val True)"

definition matchTrunkGroup :: "Repo \<Rightarrow> int \<Rightarrow> int \<Rightarrow> bool exc" where
  "matchTrunkGroup r trunkGroupId matchTrunkId =
     (case getTrunkGroup r trunkGroupId of
        None \<Rightarrow> Exc (not_found ''matchTrunkGroup'' ''TrunkGroup'' trunkGroupId)
      | Some _ \<Rightarrow> Val (matchTrunkId \<in> set (getAllTrunkGroupTrunkIds r trunkGroupId)))"

definition auth_matchPrefixlist :: "Repo \<Rightarrow> int \<Rightarrow> string \<Rightarrow> bool exc" where
  "auth_matchPrefixlist r prefixlistId strNumber =
     (case getPrefixlist r prefixlistId of
        None \<Rightarrow> Exc (not_found ''matchPrefixlist'' ''Prefixlist'' prefixlistId)
      | Some pl \<Rightarrow> bind_exc (getPrefixlistPrefix r (pf_id pl) strNumber) (\<lambda>p. Val (p \<noteq> None)))"

text \<open>The rules list exceptions to the default. A rule for all trunks has no group; where the default
  is to refuse, every rule must name its group.\<close>

definition autoTrunkFilterSrcTrunk :: "RadiusState \<Rightarrow> Trunk \<Rightarrow> bool exc" where
  "autoTrunkFilterSrcTrunk s termTrunk =
     (let r = ra_repo s; rules = getAllTrunkGroupRules r (tr_id termTrunk) in
      if tr_source_trunk_rule_default_allowed termTrunk then
        bind_exc (any_exc (\<lambda>rule.
            bind_exc (filter_if_set r (tt_number_id_filter_a rule) (ra_aNumber s)) (\<lambda>f_a.
            bind_exc (filter_if_set r (tt_number_id_filter_b rule) (ra_bNumber s)) (\<lambda>f_b.
            bind_exc (case ra_origTrunk s of
                        Some orig \<Rightarrow> if tt_trunk_group_id rule > 0
                                     then matchTrunkGroup r (tt_trunk_group_id rule) (tr_id orig) else Val True
                      | None \<Rightarrow> Val True) (\<lambda>f_trunk_group.
            Val (f_a \<and> f_b \<and> f_trunk_group))))) rules)
          (\<lambda>matched. Val (\<not> matched))
      else
        any_exc (\<lambda>rule.
            bind_exc (filter_if_set r (tt_number_id_filter_a rule) (ra_aNumber s)) (\<lambda>f_a.
            bind_exc (filter_if_set r (tt_number_id_filter_b rule) (ra_bNumber s)) (\<lambda>f_b.
            if f_a \<and> f_b
            then need (ra_origTrunk s) (\<lambda>orig. matchTrunkGroup r (tt_trunk_group_id rule) (tr_id orig))
            else Val False))) rules)"

definition rules_allow :: "Repo \<Rightarrow> bool \<Rightarrow> TrunkRule list \<Rightarrow> string \<Rightarrow> bool exc" where
  "rules_allow r default_allowed rules strNumber =
     bind_exc (any_exc (\<lambda>rule. auth_matchPrefixlist r (tu_prefixlist_id rule) strNumber) rules)
       (\<lambda>matched. Val (if default_allowed then \<not> matched else matched))"

definition autoTrunkFilterSrcNumber :: "RadiusState \<Rightarrow> Trunk \<Rightarrow> bool exc" where
  "autoTrunkFilterSrcNumber s termTrunk =
     rules_allow (ra_repo s) (tr_source_rule_default_allowed termTrunk)
       (getAllTrunkRules (ra_repo s) (tr_id termTrunk) False) (ra_aNumber s)"

definition autoTrunkFilterDstNumber :: "RadiusState \<Rightarrow> Trunk \<Rightarrow> bool exc" where
  "autoTrunkFilterDstNumber s termTrunk =
     rules_allow (ra_repo s) (tr_destination_rule_default_allowed termTrunk)
       (getAllTrunkRules (ra_repo s) (tr_id termTrunk) True) (ra_bNumber s)"

section \<open>The request\<close>

definition init :: "RadiusEnv \<Rightarrow> RadiusState \<Rightarrow> unit reply" where
  "init env s =
     (case (if bd_ready (ra_data s) then repository_prepare (ev_tables env) 0 else None) of
        None \<Rightarrow> Thrown (full_message ''RadiusAuthProcessor::init'' ''Billing not ready.'') (s\<lparr> ra_billingNotReady := True \<rparr>)
      | Some r \<Rightarrow>
          (let byIP = ev_isApiHostMode env \<and> rq_region (ra_request s) = 0;
               id0 = (if byIP then getServerIdByIP r (rq_nasIpAddress (ra_request s)) else 0);
               request = (if byIP then (ra_request s)\<lparr> rq_region := id0 \<rparr> else ra_request s);
               server_id = (if rq_region request > 0
                            then (case getServer r (rq_region request) of Some sv \<Rightarrow> sv_id sv | None \<Rightarrow> id0) else id0);
               origTrunk = getTrunkByName r (rq_trunkName request) server_id;
               s1 = s\<lparr> ra_repo := r, ra_billingNotReady := False, ra_request := request, ra_origTrunk := origTrunk,
                       ra_server := (if rq_region request > 0 then getServer r (rq_region request) else ra_server s) \<rparr>
           in case origTrunk of
                None \<Rightarrow> Thrown (full_message ''RadiusAuthProcessor::process''
                                 (''Udp request validation: trunk not found: '' @ rq_trunkName request)) s1
              | Some orig \<Rightarrow>
                  (let server = getServer r (if rq_region request > 0 then rq_region request else tr_server_id orig) in
                   if server = None
                   then Thrown (full_message ''RadiusAuthProcessor::process''
                          (''Udp request validation: server_id'' @ lld (tr_server_id orig) @ '' by trunk not found: '' @
                           rq_trunkName request)) (s1\<lparr> ra_server := None \<rparr>)
                   else Done () (s1\<lparr> ra_server := server, ra_aNumber := rq_srcNumber request,
                                     ra_bNumber := rq_dstNumber request \<rparr>))))"

definition has_redirect :: "RadiusState \<Rightarrow> Trunk \<Rightarrow> bool" where
  "has_redirect s orig \<longleftrightarrow> tr_orig_redirect_number orig \<and> length (rq_redirectNumber (ra_request s)) > 0"

definition auth_processRedirectNumber :: "Trunk \<Rightarrow> RadiusState \<Rightarrow> RadiusState" where
  "auth_processRedirectNumber orig s =
     (if has_redirect s orig then s\<lparr> ra_aNumber := rq_redirectNumber (ra_request s) \<rparr> else s)"

definition auth_processLineWithoutNumber :: "Trunk \<Rightarrow> Server \<Rightarrow> RadiusState \<Rightarrow> RadiusState" where
  "auth_processLineWithoutNumber orig server s =
     (if \<not> tr_our_trunk orig \<or> \<not> tr_auth_by_number orig \<or> sv_calling_station_id_for_line_without_number server = []
      then s
      else if (CHR ''*'' \<in> set (ra_aNumber s) \<or> CHR ''+'' \<in> set (ra_aNumber s)) \<and> \<not> has_redirect s orig
      then respond (\<lambda>p. p\<lparr> rs_srcNumber := sv_calling_station_id_for_line_without_number server \<rparr>) s
      else s)"

text \<open>The record of a call of one minute. \<open>strncpy\<close> fills the 32 bytes of a member and does not write the
  byte behind them, which the constructor leaves alone: a longer text is not terminated.\<close>

definition request_cdr :: "Repo \<Rightarrow> RadiusAuthRequest \<Rightarrow> Cdr exc" where
  "request_cdr r request =
     (if length (rq_srcNumber request) \<ge> 32 \<or> length (rq_dstNumber request) \<ge> 32 \<or>
         length (rq_redirectNumber request) \<ge> 32 \<or> length (rq_trunkName request) \<ge> 32 then Undef
      else Val (Cdr_new\<lparr> cdr_connect_time := rp_now r, cdr_session_time := 60,
             cdr_src_number := strncpy (rq_srcNumber request) 32, cdr_dst_number := strncpy (rq_dstNumber request) 32,
             cdr_redirect_number := strncpy (rq_redirectNumber request) 32,
             cdr_src_route := strncpy (rq_trunkName request) 32, cdr_dst_route := strncpy (rq_trunkName request) 32,
             cdr_src_noa := rq_srcNoa request, cdr_dst_noa := rq_dstNoa request \<rparr>))"

definition request_mega :: "RadiusState \<Rightarrow> Cdr \<Rightarrow> StateMegaTrunk" where
  "request_mega s cdr =
     (let r = ra_repo s; region = rq_region (ra_request s); m0 = StateMegaTrunk_new (rp_conf r);
          m1 = (if region > 0 then setOrigRegion region m0 else m0)
      in PhaseCalc r (prepareFromCdr r (Some cdr) (ra_aNumber s) (ra_bNumber s) m1))"

definition request_leg :: "RadiusEnv \<Rightarrow> RadiusState \<Rightarrow> Cdr \<Rightarrow> BillingState" where
  "request_leg env s cdr =
     (let r = ra_repo s; region = rq_region (ra_request s);
          leg = leg_state (ev_tables env) r cdr (request_mega s cdr) (Call_new (ev_junk env) cdr True) (ra_data s)
      in if region > 0 then leg\<lparr> bs_origRegion := region \<rparr> else leg)"

definition price_leg :: "RadiusEnv \<Rightarrow> Cdr \<Rightarrow> RadiusState \<Rightarrow> BillingState option reply" where
  "price_leg env cdr s =
     (case calc (request_leg env s cdr) of
        Next leg \<Rightarrow> Done (Some leg) (s\<lparr> ra_account := ci_account (bs_info leg), ra_data := counters_back leg (ra_data s) \<rparr>)
      | _ \<Rightarrow> Broken)"

text \<open>The answer is \<open>None\<close> for a call that lawful interception accepts at once; otherwise it is the priced
  leg, with the state of the collecting trunk.\<close>

definition bill_request :: "RadiusEnv \<Rightarrow> RadiusState \<Rightarrow> BillingState option reply" where
  "bill_request env s =
     after (init env s) (\<lambda>_ s1.
       if (cf_instance_id (rp_conf (ra_repo s1)) = 99 \<or> rq_region (ra_request s1) = 99) \<and>
          rq_callingPartyCategory (ra_request s1) = ''INTERCEPT''
       then Done None (respond setAccept s1)
       else
         (case (ra_origTrunk s1, ra_server s1) of
            (Some orig, Some server) \<Rightarrow>
              (let s2 = auth_processLineWithoutNumber orig server (auth_processRedirectNumber orig s1) in
               after (lift_exc (request_cdr (ra_repo s2) (ra_request s2)) s2) (\<lambda>cdr _. price_leg env cdr s2))
          | _ \<Rightarrow> Broken))"

section \<open>Limits\<close>

definition auth_fetchGlobalCounters :: "GlobalCounters list option \<Rightarrow> int \<Rightarrow> real \<Rightarrow> real \<times> real \<times> real" where
  "auth_fetchGlobalCounters counters accountId vat_rate =
     (case (case counters of None \<Rightarrow> None | Some l \<Rightarrow> GlobalCountersList_find l accountId) of
        Some g \<Rightarrow> (GlobalCounters_sumBalance g vat_rate, GlobalCounters_sumDay g vat_rate, GlobalCounters_sumMNDay g vat_rate)
      | None \<Rightarrow> (0, 0, 0))"

text \<open>What the account has spent: the stored calls of this region, those in progress with this one, and
  those of the other regions. The answer is for the balance, the day, and the day's international calls.\<close>

definition spent_sums :: "RadiusEnv \<Rightarrow> RadiusState \<Rightarrow> Client \<Rightarrow> Call \<Rightarrow> real \<times> real \<times> real" where
  "spent_sums env s client call =
     (let i = c_account_id call; vat_rate = getVatRate (Some client); now = rp_now (ra_repo s);
          stored = bd_statsAccount (ra_data s); current = ev_currentAccount env in
      case auth_fetchGlobalCounters (ev_globalCounters env) i vat_rate of (balance, day, mnDay) \<Rightarrow>
        (getSumBalance stored i vat_rate + (getSumBalance current i vat_rate + c_cost call) + balance,
         getSumDay now stored i vat_rate + (getSumDay now current i vat_rate + c_cost call) + day,
         getSumMNDay now stored i vat_rate + (getSumMNDay now current i vat_rate + c_cost call) + mnDay))"

definition isLowBalance :: "(real \<Rightarrow> bool) \<Rightarrow> RejectReason \<Rightarrow> real \<Rightarrow> Call \<Rightarrow> RadiusState \<Rightarrow> bool \<times> RadiusState" where
  "isLowBalance checkLimit reason spentBalanceSum call s =
     (if checkLimit spentBalanceSum then
        (if checkLimit (spentBalanceSum - c_cost call) then (True, s)
         else (False, s\<lparr> ra_blocked := AList.update (c_account_id call) (reason, rp_now (ra_repo s) + 60) (ra_blocked s) \<rparr>))
      else (False, s))"

definition auto_lock_finance :: "Repo \<Rightarrow> bool" where
  "auto_lock_finance r =
     (case getInstanceSettings r (cf_instance_id (rp_conf r)) of Some i \<Rightarrow> is_auto_lock_finance i | None \<Rightarrow> False)"

definition block_answer :: "RejectReason \<Rightarrow> string" where
  "block_answer reason = (if reason = REASON_NO_BALANCE then ''low_balance'' else ''voip_disabled'')"

text \<open>The checks of \<open>analyzeCall\<close> on an account that is not blocked.\<close>

definition check_trunk_limits :: "real \<Rightarrow> Client \<Rightarrow> Call \<Rightarrow> RadiusState \<Rightarrow> string \<times> RadiusState" where
  "check_trunk_limits balance client call s =
     (case isLowBalance (isConsumedCreditLimit client) REASON_NO_BALANCE balance call s of (low, s1) \<Rightarrow>
        (if low \<and> auto_lock_finance (ra_repo s) then ''low_balance'' else ''accept'', s1))"

definition check_number_limits :: "real \<times> real \<times> real \<Rightarrow> Client \<Rightarrow> Call \<Rightarrow> RadiusState \<Rightarrow> string \<times> RadiusState" where
  "check_number_limits spent client call s =
     (let (balance, day, mnDay) = spent;
          (low, s1) = isLowBalance (isConsumedCreditLimit client) REASON_NO_BALANCE balance call s in
      if low \<and> \<bar>c_cost call\<bar> > 0.000001 \<and> auto_lock_finance (ra_repo s) then (''low_balance'', s1)
      else
        (let (lowDay, s2) = (if \<not> isLocal call
                             then isLowBalance (isConsumedDailyLimit client) REASON_DAILY_LIMIT day call s1
                             else (False, s1)) in
         if lowDay then (''voip_disabled'', s2)
         else
           (let (lowMN, s3) = (if isInternational call
                               then isLowBalance (isConsumedDailyMNLimit client) REASON_DAILY_LIMIT mnDay call s2
                               else (False, s2)) in
            if lowMN then (''voip_disabled'', s3)
            else if cl_is_blocked client then (''voip_disabled'', s3)
            else if \<not> isLocal call \<and> cl_disabled client then (''voip_disabled'', s3)
            else (''accept'', s3))))"

definition check_limits :: "RadiusEnv \<Rightarrow> Client \<Rightarrow> Call \<Rightarrow> RadiusState \<Rightarrow> string \<times> RadiusState" where
  "check_limits env client call s =
     (let spent = spent_sums env s client call in
      if c_trunk_service_id call \<noteq> 0 then check_trunk_limits (fst spent) client call s
      else if c_number_service_id call \<noteq> 0 \<and> c_orig call then check_number_limits spent client call s
      else (''accept'', s))"

definition analyzeCall :: "RadiusEnv \<Rightarrow> Call \<Rightarrow> RadiusState \<Rightarrow> string reply" where
  "analyzeCall env call s =
     (case ra_origTrunk s of
        None \<Rightarrow> Broken
      | Some orig \<Rightarrow>
          if tr_tech_trunk orig \<or> tr_pstn_trunk orig then Done ''accept'' s
          else
            after (lift_exc (isEmergencyCall (ra_repo s) (ra_bNumber s) (tr_server_id orig)) s) (\<lambda>emergency _.
              if emergency then Done ''accept'' s
              else if c_account_id call = 0 then Done ''reject'' s
              else
                (case getAccount (ra_repo s) (c_account_id call) of
                   None \<Rightarrow> Done ''reject'' s
                 | Some client \<Rightarrow>
                     (case map_of (ra_blocked s) (c_account_id call) of
                        Some (reason, _) \<Rightarrow> Done (block_answer reason) s
                      | None \<Rightarrow>
                          (case check_limits env client call s of (answer, s') \<Rightarrow> Done answer s')))))"

section \<open>The route table\<close>

text \<open>A row applies when its number filters match. An outcome for collecting trunks is passed over unless
  the call is in that phase; a row may refer to another table. The answer \<open>0\<close> means that no row applied.\<close>

definition route_applies :: "RadiusState \<Rightarrow> RouteTableRoute \<Rightarrow> bool exc" where
  "route_applies s route =
     bind_exc (if rr_a_number_id route \<noteq> 0 then filterByNumber (ra_repo s) (rr_a_number_id route) (ra_aNumber s)
               else Val True) (\<lambda>a.
     if \<not> a then Val False
     else if rr_b_number_id route \<noteq> 0 then filterByNumber (ra_repo s) (rr_b_number_id route) (ra_bNumber s)
     else Val True)"

definition outcome_applies :: "Repo \<Rightarrow> StateMegaTrunk \<Rightarrow> int \<Rightarrow> bool" where
  "outcome_applies r mega outcome_id =
     (case getOutcome r outcome_id of
        None \<Rightarrow> True
      | Some oc \<Rightarrow> \<not> (isMegToReg oc \<and> \<not> mt_isPhase1 mega) \<and> \<not> (isMegToMeg oc \<and> \<not> mt_isPhase2 mega))"

fun try_routes :: "(int \<Rightarrow> RadiusState \<Rightarrow> int reply) \<Rightarrow> StateMegaTrunk \<Rightarrow> RouteTableRoute list \<Rightarrow> RadiusState \<Rightarrow> int reply" where
  "try_routes rec mega [] s = Done 0 s"
| "try_routes rec mega (route # routes) s =
     after (lift_exc (route_applies s route) s) (\<lambda>applies _.
       if \<not> applies then try_routes rec mega routes s
       else if rr_outcome_id route \<noteq> 0 then
         (if outcome_applies (ra_repo s) mega (rr_outcome_id route) then Done (rr_outcome_id route) s
          else try_routes rec mega routes s)
       else if rr_outcome_route_table_id route \<noteq> 0 then
         after (rec (rr_outcome_route_table_id route) s) (\<lambda>outcomeId s'.
           if outcomeId \<noteq> 0 then Done outcomeId s' else try_routes rec mega routes s')
       else try_routes rec mega routes s)"

text \<open>The server of the table takes over, and stays in charge when the search goes on elsewhere.\<close>

definition change_region :: "Server \<Rightarrow> RouteTable \<Rightarrow> RadiusState \<Rightarrow> RadiusState" where
  "change_region server routeTable s =
     (case getServer (ra_repo s) (rt_server_id routeTable) of
        Some new_server \<Rightarrow> if sv_id server \<noteq> sv_id new_server then s\<lparr> ra_server := Some new_server \<rparr> else s
      | None \<Rightarrow> s)"

text \<open>\<open>fuel\<close> bounds the depth of the recursion.\<close>

fun processRouteTable :: "nat \<Rightarrow> StateMegaTrunk \<Rightarrow> int \<Rightarrow> RadiusState \<Rightarrow> int reply" where
  "processRouteTable 0 mega routeTableId s = Endless"
| "processRouteTable (Suc fuel) mega routeTableId s =
     (case getRouteTable (ra_repo s) routeTableId of
        None \<Rightarrow> Thrown (not_found ''processRouteTable'' ''Route table'' routeTableId) s
      | Some routeTable \<Rightarrow>
          (case ra_server s of
             None \<Rightarrow> Broken
           | Some server \<Rightarrow>
               try_routes (processRouteTable fuel mega) mega
                 (getAllRouteTableRoutes (ra_repo s) (rt_id routeTable)) (change_region server routeTable s)))"

section \<open>Automatic routing\<close>

definition getAvailableOrigServiceTrunk :: "RadiusState \<Rightarrow> ServiceTrunkOrder exc" where
  "getAvailableOrigServiceTrunk s =
     need (ra_origTrunk s) (\<lambda>orig.
       bind_exc (getTrunkSettingsOrderList (ra_repo s) orig (atoll (ra_aNumber s)) (atoll (ra_bNumber s)) 1) (\<lambda>orders.
         Val (case orderOrigTrunkSettingsOrderList (ra_repo s) orders of [] \<Rightarrow> ServiceTrunkOrder_new | ord # _ \<Rightarrow> ord)))"

text \<open>The guards on a trunk: no loop, the three filters, and support for redirected calls.\<close>

definition term_trunk_allowed :: "bool \<Rightarrow> RadiusState \<Rightarrow> Trunk \<Rightarrow> bool exc" where
  "term_trunk_allowed skipLoopProtection s termTrunk =
     (if map_option tr_id (ra_origTrunk s) = Some (tr_id termTrunk) \<and> \<not> skipLoopProtection then Val False
      else
        bind_exc (autoTrunkFilterSrcTrunk s termTrunk) (\<lambda>bySrcTrunk. if \<not> bySrcTrunk then Val False else
        bind_exc (autoTrunkFilterSrcNumber s termTrunk) (\<lambda>bySrcNumber. if \<not> bySrcNumber then Val False else
        bind_exc (autoTrunkFilterDstNumber s termTrunk) (\<lambda>byDstNumber. if \<not> byDstNumber then Val False else
        need (ra_origTrunk s) (\<lambda>orig. Val (\<not> (has_redirect s orig \<and> \<not> tr_term_redirect_number termTrunk)))))))"

definition anti_fraud_declines :: "RadiusState \<Rightarrow> Server \<Rightarrow> ServiceTrunkOrder \<Rightarrow> bool" where
  "anti_fraud_declines s server termOrder \<longleftrightarrow>
     sv_min_price_for_autorouting server > 0 \<and>
     (case (o_price termOrder, o_pricelist termOrder) of
        (Some p, Some pl) \<Rightarrow> priceToRoubles (ra_repo s) (pp_price p) (pl_currency_id pl) > real_of_int (sv_min_price_for_autorouting server)
      | _ \<Rightarrow> False) \<and>
     (case ra_account s of Some account \<Rightarrow> \<not> cl_anti_fraud_disabled account | None \<Rightarrow> False)"

definition order_roubles :: "Repo \<Rightarrow> ServiceTrunkOrder \<Rightarrow> real exc" where
  "order_roubles r ord = need (getCurrency ord) (\<lambda>currency. Val (priceToRoubles r (getPrice ord) currency))"

text \<open>A margin in percent is the mark-up on the price of the terminating trunk, a margin by value is the
  profit per minute.\<close>

definition trunk_margin :: "ServiceTrunkSettings \<Rightarrow> real \<Rightarrow> real \<Rightarrow> real" where
  "trunk_margin origSettings origRub termRub =
     (if ss_minimum_margin_type origSettings = 2 then origRub - termRub else (origRub - termRub) / termRub * 100)"

definition margin_declines :: "RadiusState \<Rightarrow> ServiceTrunkOrder \<Rightarrow> ServiceTrunkOrder \<Rightarrow> bool exc" where
  "margin_declines s origOrder termOrder =
     (case o_trunkSettings origOrder of
        None \<Rightarrow> Val False
      | Some origSettings \<Rightarrow>
          if ss_minimum_margin_type origSettings \<noteq> 0 \<and> is_price_present termOrder \<and> is_price_present origOrder \<and>
             (ss_minimum_margin_type origSettings = 1 \<or> ss_minimum_margin_type origSettings = 2) then
            bind_exc (order_roubles (ra_repo s) origOrder) (\<lambda>origRub.
            bind_exc (order_roubles (ra_repo s) termOrder) (\<lambda>termRub.
            Val (origRub > 0.000001 \<and> termRub > 0.000001 \<and>
                 trunk_margin origSettings origRub termRub < ss_minimum_margin origSettings)))
          else Val False)"

definition term_order_offer :: "RadiusState \<Rightarrow> ServiceTrunkOrder \<Rightarrow> ServiceTrunkOrder \<Rightarrow> ServiceTrunkOrder option exc" where
  "term_order_offer s origOrder termOrder =
     need (ra_server s) (\<lambda>server.
       if anti_fraud_declines s server termOrder then Val None
       else bind_exc (margin_declines s origOrder termOrder) (\<lambda>declined. Val (if declined then None else Some termOrder)))"

text \<open>Sorting the offers of a trunk looks up its counters, and creates those of the current period. The
  counters of a well formed container are always found; otherwise nothing is said.\<close>

definition order_offers :: "bool \<Rightarrow> ServiceTrunkOrder list \<Rightarrow> RadiusState \<Rightarrow> ServiceTrunkOrder list reply" where
  "order_offers fUseMinimalki orders s =
     (case orderTermTrunkSettingsOrderList (ra_repo s) orders fUseMinimalki (rp_now (ra_repo s))
             (bd_statsTrunkSettings (ra_data s)) of
        Val (orders', m) \<Rightarrow> Done orders' (s\<lparr> ra_data := (ra_data s)\<lparr> bd_statsTrunkSettings := m \<rparr> \<rparr>)
      | _ \<Rightarrow> Broken)"

fun term_offers :: "bool \<Rightarrow> bool \<Rightarrow> ServiceTrunkOrder \<Rightarrow> Trunk list \<Rightarrow> RadiusState \<Rightarrow> ServiceTrunkOrder list reply" where
  "term_offers fUseMinimalki skipLoopProtection origOrder [] s = Done [] s"
| "term_offers fUseMinimalki skipLoopProtection origOrder (termTrunk # trunks) s =
     after (lift_exc (term_trunk_allowed skipLoopProtection s termTrunk) s) (\<lambda>allowed _.
       if \<not> allowed then term_offers fUseMinimalki skipLoopProtection origOrder trunks s
       else
         after (lift_exc (getTrunkSettingsOrderList (ra_repo s) termTrunk (atoll (ra_aNumber s)) (atoll (ra_bNumber s)) 2) s)
           (\<lambda>orders _.
         after (order_offers fUseMinimalki orders s) (\<lambda>orders' s1.
         after (lift_exc (collect_exc (term_order_offer s1 origOrder) orders') s1) (\<lambda>accepted _.
         after (term_offers fUseMinimalki skipLoopProtection origOrder trunks s1) (\<lambda>others s2.
         Done (accepted @ others) s2)))))"

fun find_exc :: "('a \<Rightarrow> bool exc) \<Rightarrow> 'a list \<Rightarrow> 'a option exc" where
  "find_exc p [] = Val None"
| "find_exc p (x # xs) = bind_exc (p x) (\<lambda>b. if b then Val (Some x) else find_exc p xs)"

definition priority_applies :: "RadiusState \<Rightarrow> TrunkPriority \<Rightarrow> bool exc" where
  "priority_applies s p =
     bind_exc (filter_if_set (ra_repo s) (ty_number_id_filter_a p) (ra_aNumber s)) (\<lambda>f_a.
     bind_exc (filter_if_set (ra_repo s) (ty_number_id_filter_b p) (ra_bNumber s)) (\<lambda>f_b.
     if f_a \<and> f_b then need (ra_origTrunk s) (\<lambda>orig. matchTrunkGroup (ra_repo s) (ty_trunk_group_id p) (tr_id orig))
     else Val False))"

definition set_priority :: "RadiusState \<Rightarrow> ServiceTrunkOrder \<Rightarrow> ServiceTrunkOrder option exc" where
  "set_priority s ord =
     (case o_trunk ord of
        None \<Rightarrow> Val (Some ord)
      | Some t \<Rightarrow>
          bind_exc (find_exc (priority_applies s) (getTrunkPriority (ra_repo s) (tr_id t))) (\<lambda>rule.
            Val (Some (ord\<lparr> o_priority := (case rule of Some p \<Rightarrow> ty_priority p | None \<Rightarrow> tr_default_priority t) \<rparr>))))"

definition server_id_of :: "RadiusState \<Rightarrow> int" where
  "server_id_of s = (case ra_server s of Some server \<Rightarrow> sv_id server | None \<Rightarrow> cf_instance_id (rp_conf (ra_repo s)))"

definition getAvailableTermServiceTrunk ::
    "bool \<Rightarrow> bool \<Rightarrow> ServiceTrunkOrder \<Rightarrow> RadiusState \<Rightarrow> ServiceTrunkOrder list reply" where
  "getAvailableTermServiceTrunk fUseMinimalki skipLoopProtection origOrder s =
     (let r = ra_repo s; trunks = getAllAutoRoutingTrunks r (server_id_of s) (getSimblingRegion r (server_id_of s)) in
      after (term_offers fUseMinimalki skipLoopProtection origOrder trunks s) (\<lambda>orders s1.
      after (lift_exc (collect_exc (set_priority s1) orders) s1) (\<lambda>orders' _.
      order_offers fUseMinimalki orders' s1)))"

text \<open>The trunks of the answer: the first three different ones.\<close>

fun route_trunks :: "int list \<Rightarrow> ServiceTrunkOrder list \<Rightarrow> Trunk list exc" where
  "route_trunks trunkIds [] = Val []"
| "route_trunks trunkIds (ord # orders) =
     need (o_trunk ord) (\<lambda>t.
       if tr_id t \<in> set trunkIds then route_trunks trunkIds orders
       else if length trunkIds + 1 = 3 then Val [t]
       else bind_exc (route_trunks (tr_id t # trunkIds) orders) (\<lambda>ts. Val (t # ts)))"

definition join_names :: "string list \<Rightarrow> string" where
  "join_names names = foldl (\<lambda>routeCase n. (if routeCase \<noteq> [] then routeCase @ '','' else routeCase) @ n) [] names"

text \<open>\<open>processAutoRouteResponse\<close> answers the price per minute and the price list of the first offer, which
  are only logged.\<close>

definition buy_rate :: "ServiceTrunkOrder \<Rightarrow> real \<times> Pricelist option" where
  "buy_rate ord =
     (case o_account ord of
        None \<Rightarrow> 0
      | Some account \<Rightarrow>
          if cl_account_version account = 5 then o_nnp_price ord
          else (case o_price ord of Some p \<Rightarrow> if cl_account_version account = 4 then pp_price p else 0 | None \<Rightarrow> 0),
      o_pricelist ord)"

definition processAutoRouteResponse :: "ServiceTrunkOrder list \<Rightarrow> RadiusState \<Rightarrow> (real \<times> Pricelist option) option reply" where
  "processAutoRouteResponse termOrders s =
     (case termOrders of
        [] \<Rightarrow> Done None (respond (setReleaseReason ''NO_ROUTE_TO_DESTINATION'') s)
      | ord # _ \<Rightarrow>
          after (lift_exc (route_trunks [] termOrders) s) (\<lambda>trunks _.
            Done (Some (buy_rate ord)) (respond (setRouteCase (join_names (map tr_trunk_name trunks))) s)))"

definition processAutoOutcome :: "bool \<Rightarrow> RadiusState \<Rightarrow> (real \<times> Pricelist option) option reply" where
  "processAutoOutcome skipLoopProtection s =
     after (lift_exc (getAvailableOrigServiceTrunk s) s) (\<lambda>origOrder _.
     after (getAvailableTermServiceTrunk (case ra_origTrunk s of Some orig \<Rightarrow> tr_sw_minimalki orig | None \<Rightarrow> False)
              skipLoopProtection origOrder s) (\<lambda>orders s1.
     processAutoRouteResponse orders s1))"

section \<open>Outcomes\<close>

definition set_numbers :: "Outcome \<Rightarrow> RadiusAuthResponse \<Rightarrow> RadiusAuthResponse" where
  "set_numbers outc p = p\<lparr>
     rs_srcNumber := (if oc_calling_station_id outc \<noteq> [] then oc_calling_station_id outc else rs_srcNumber p),
     rs_dstNumber := (if oc_called_station_id outc \<noteq> [] then oc_called_station_id outc else rs_dstNumber p) \<rparr>"

definition processRouteCaseOutcome :: "Outcome \<Rightarrow> RadiusState \<Rightarrow> unit reply" where
  "processRouteCaseOutcome outc s =
     (case getRouteCase (ra_repo s) (oc_route_case_id outc) of
        None \<Rightarrow> Thrown (not_found ''processRouteCaseOutcome'' ''Route case'' (oc_route_case_id outc)) s
      | Some routeCase \<Rightarrow>
          (let more = (\<lambda>i. case getRouteCase (ra_repo s) i of Some c \<Rightarrow> '','' @ rc_name c | None \<Rightarrow> []) in
           Done () (respond (set_numbers outc \<circ> setRouteCase (rc_name routeCase @ more (oc_route_case_1_id outc) @
                               more (oc_route_case_2_id outc))) s)))"

definition processReleaseReasonOutcome :: "Outcome \<Rightarrow> RadiusState \<Rightarrow> unit reply" where
  "processReleaseReasonOutcome outc s =
     (case getReleaseReason (ra_repo s) (oc_release_reason_id outc) of
        None \<Rightarrow> Thrown (not_found ''processReleaseReasonOutcome'' ''Release reason'' (oc_release_reason_id outc)) s
      | Some reason \<Rightarrow> Done () (respond (setReleaseReason (re_name reason)) s))"

definition processAirpOutcome :: "Outcome \<Rightarrow> RadiusState \<Rightarrow> unit reply" where
  "processAirpOutcome outc s =
     (case getAirp (ra_repo s) (oc_airp_id outc) of
        None \<Rightarrow> Thrown (not_found ''processAirpOutcome'' ''Airp'' (oc_airp_id outc)) s
      | Some airp \<Rightarrow> Done () (respond (set_numbers outc \<circ> setAirp (ai_name airp)) s))"

text \<open>Phase 1 sends the call to the other region over the trunks that lead there, in random order.\<close>

definition processMegaTrunkPhase1 :: "RadiusEnv \<Rightarrow> StateMegaTrunk \<Rightarrow> RadiusState \<Rightarrow> unit reply" where
  "processMegaTrunkPhase1 env mega s =
     (let r = ra_repo s;
          trunks = ev_shuffle env (getAllRoadToRegion r (server_id_of s) (mt_destRegion mega)
                                     (getSimblingRegion r (server_id_of s)));
          routeCase = join_names (map tr_trunk_name trunks) in
      if routeCase = []
      then Thrown (full_message ''RadiusAuthProcessor::processMegaTrunkPhase1''
                     (''not found road to Region #'' @ lld (mt_destRegion mega))) s
      else Done () (respond (setRouteCase routeCase) s))"

definition processMegaTrunkPhase2 :: "StateMegaTrunk \<Rightarrow> RadiusState \<Rightarrow> unit reply" where
  "processMegaTrunkPhase2 mega s =
     (case mt_destTrunk mega of
        None \<Rightarrow> Thrown (full_message ''RadiusAuthProcessor::processMegaTrunkPhase1'' ''not found MegaTrunk'') s
      | Some t \<Rightarrow> Done () (respond (setRouteCase (tr_trunk_name t)) s))"

definition processOutcome :: "RadiusEnv \<Rightarrow> int \<Rightarrow> StateMegaTrunk \<Rightarrow> bool \<Rightarrow> RadiusState \<Rightarrow>
    (real \<times> Pricelist option) option reply" where
  "processOutcome env outcomeId mega skipLoopProtection s =
     (let unlogged = (\<lambda>m. after m (\<lambda>_ s'. Done None s')) in
      case getOutcome (ra_repo s) outcomeId of
        None \<Rightarrow> Thrown (not_found ''processOutcome'' ''Outcome'' outcomeId) s
      | Some outc \<Rightarrow>
          if isAuto outc then processAutoOutcome skipLoopProtection s
          else if isMegToReg outc then unlogged (processMegaTrunkPhase1 env mega s)
          else if isMegToMeg outc then unlogged (processMegaTrunkPhase2 mega s)
          else if isRouteCase outc then unlogged (processRouteCaseOutcome outc s)
          else if isReleaseReason outc then unlogged (processReleaseReasonOutcome outc s)
          else if isAirp outc then unlogged (processAirpOutcome outc s)
          else if isAccept outc then unlogged (Done () (respond setAccept s))
          else Thrown (full_message ''RadiusAuthProcessor::processOutcome''
                         (''Unexpected type of outcome #'' @ lld (oc_id outc))) s)"

section \<open>The whole request\<close>

text \<open>The outcome that the answer of the billing leads to, \<open>None\<close> when the response is complete.\<close>

definition choose_outcome :: "nat \<Rightarrow> string \<Rightarrow> StateMegaTrunk \<Rightarrow> RadiusState \<Rightarrow> int option reply" where
  "choose_outcome fuel billResponse mega s =
     (case (ra_server s, ra_origTrunk s) of
        (Some server, Some orig) \<Rightarrow>
          (let special = (\<lambda>i. if i = 0 then Done None (respond setReject s) else Done (Some i) s) in
           if billResponse = ''voip_disabled'' then special (sv_blocked_outcome_id server)
           else if billResponse = ''low_balance'' then special (sv_low_balance_outcome_id server)
           else if billResponse = ''reject'' then Done None (respond setReject s)
           else after (processRouteTable fuel mega (tr_route_table_id orig) s) (\<lambda>outcomeId s'.
                  if outcomeId = 0 then Done None (respond (setReleaseReason ''NO_ROUTE_TO_DESTINATION'') s')
                  else Done (Some outcomeId) s'))
      | _ \<Rightarrow> Broken)"

definition route_request :: "nat \<Rightarrow> RadiusEnv \<Rightarrow> BillingState \<Rightarrow> RadiusState \<Rightarrow> unit reply" where
  "route_request fuel env leg s =
     (let mega = (case bs_mega leg of Some m \<Rightarrow> m | None \<Rightarrow> request_mega s (bs_cdr leg)) in
      after (analyzeCall env (bs_call leg) s) (\<lambda>billResponse s1.
      after (choose_outcome fuel billResponse mega s1) (\<lambda>chosen s2.
      case chosen of
        None \<Rightarrow> Done () s2
      | Some outcomeId \<Rightarrow>
          after (processOutcome env outcomeId mega (ci_callIncomingFromMegatrunk (bs_info leg)) s2) (\<lambda>_ s3. Done () s3))))"

text \<open>The handler: the text of the exception is added to the response. A request from an unknown trunk
  has no route; any other failure lets the call through on the default route.\<close>

definition catch_request :: "unit reply \<Rightarrow> unit reply" where
  "catch_request m =
     (case m of
        Thrown e s \<Rightarrow>
          (let s1 = respond (\<lambda>p. p\<lparr> rs_error := rs_error p @ '' '' @ e \<rparr>) s in
           Done () (if ra_origTrunk s1 = None \<and> \<not> ra_billingNotReady s1
                    then respond (setReleaseReason ''NO_ROUTE_TO_DESTINATION'') s1
                    else respond setAccept s1))
      | _ \<Rightarrow> m)"

definition process :: "nat \<Rightarrow> RadiusEnv \<Rightarrow> RadiusState \<Rightarrow> unit reply" where
  "process fuel env s =
     catch_request (after (bill_request env s) (\<lambda>priced s1.
       case priced of None \<Rightarrow> Done () s1 | Some leg \<Rightarrow> route_request fuel env leg s1))"

text \<open>\<open>processRequest\<close> first removes the blocks that have ended, from inside the loop over the map: after the
  first removal the iterator is invalid.\<close>

definition processRequest :: "nat \<Rightarrow> RadiusEnv \<Rightarrow> RadiusState \<Rightarrow> unit reply" where
  "processRequest fuel env s =
     (if list_ex (\<lambda>(i, reason, until). until \<le> rp_now (tb_repo (ev_tables env))) (ra_blocked s) then Broken
      else process fuel env s)"

end
