(* ===== verification/Radius_Routes.thy ===== *)
theory Radius_Routes
  imports Radius_Auth
begin

text \<open>
  Lemmas on the authorisation: the search in the route tables ends when the tables do not refer to each
  other in a circle, every way through the outcomes accepts the call, and what the offers of automatic
  routing have passed.
\<close>

section \<open>The route table search\<close>

text \<open>The result does not depend on the bound once the search has ended.\<close>

lemma try_routes_mono:
  assumes "\<And>i s. f i s \<noteq> Endless \<Longrightarrow> g i s = f i s" and "try_routes f mega routes s \<noteq> Endless"
  shows "try_routes g mega routes s = try_routes f mega routes s"
  using assms(2)
proof (induction routes arbitrary: s)
  case (Cons route routes)
  show ?case
  proof (cases "route_applies s route")
    case (Val applies)
    show ?thesis
    proof (cases "applies \<and> rr_outcome_id route = 0 \<and> rr_outcome_route_table_id route \<noteq> 0")
      case True
      with Cons.prems Val have "f (rr_outcome_route_table_id route) s \<noteq> Endless" by auto
      then have "g (rr_outcome_route_table_id route) s = f (rr_outcome_route_table_id route) s" by (rule assms(1))
      with True Val Cons show ?thesis by (cases "f (rr_outcome_route_table_id route) s") auto
    next
      case False
      with Val Cons show ?thesis by (auto split: if_splits)
    qed
  qed simp_all
qed simp

lemma processRouteTable_Suc:
  "processRouteTable fuel mega i s \<noteq> Endless \<Longrightarrow> processRouteTable (Suc fuel) mega i s = processRouteTable fuel mega i s"
proof (induction fuel arbitrary: i s)
  case (Suc fuel)
  have step: "try_routes (processRouteTable (Suc fuel) mega) mega routes s1 = try_routes (processRouteTable fuel mega) mega routes s1"
    if "try_routes (processRouteTable fuel mega) mega routes s1 \<noteq> Endless" for routes s1
    by (rule try_routes_mono [OF Suc.IH that])
  note unfold = processRouteTable.simps(2) [of "Suc fuel" mega i s] processRouteTable.simps(2) [of fuel mega i s]
  show ?case
  proof (cases "getRouteTable (ra_repo s) i")
    case (Some t)
    with Suc.prems show ?thesis unfolding unfold by (cases "ra_server s") (simp_all add: step del: processRouteTable.simps)
  qed (simp add: unfold del: processRouteTable.simps)
qed simp

lemma processRouteTable_mono:
  assumes "processRouteTable fuel mega i s \<noteq> Endless" and "fuel \<le> fuel'"
  shows "processRouteTable fuel' mega i s = processRouteTable fuel mega i s"
  using assms(2)
proof (induction fuel' rule: dec_induct)
  case (step n)
  then show ?case using processRouteTable_Suc [of n mega i s] assms(1) by simp
qed simp

text \<open>A row without an outcome refers to the next table.\<close>

definition table_links :: "Repo \<Rightarrow> (int \<times> int) set" where
  "table_links r = {(a, b). \<exists>route \<in> set (getAllRouteTableRoutes r a).
     rr_outcome_id route = 0 \<and> rr_outcome_route_table_id route = b}"

lemma change_region_repo [simp]: "ra_repo (change_region server t s) = ra_repo s"
  by (simp add: change_region_def split: option.splits)

lemma change_region_server: "ra_server s \<noteq> None \<Longrightarrow> ra_server (change_region server t s) \<noteq> None"
  by (simp add: change_region_def split: option.splits)

text \<open>The search changes the server in charge and nothing else.\<close>

definition same_but_server :: "RadiusState \<Rightarrow> RadiusState \<Rightarrow> bool" where
  "same_but_server s s' \<longleftrightarrow> (\<exists>server. s' = s\<lparr> ra_server := server \<rparr>)"

lemma same_but_server_refl [simp]: "same_but_server s s"
  unfolding same_but_server_def by (rule exI [of _ "ra_server s"]) simp

lemma same_but_server_trans: "same_but_server s s1 \<Longrightarrow> same_but_server s1 s2 \<Longrightarrow> same_but_server s s2"
  by (auto simp: same_but_server_def)

lemma change_region_same: "same_but_server s (change_region server t s)"
  by (auto simp: change_region_def same_but_server_def split: option.splits intro: exI [of _ "ra_server s"])

lemma try_routes_same:
  assumes "\<And>i s y s'. f i s = Done y s' \<Longrightarrow> same_but_server s s'" and "try_routes f mega routes s = Done x s'"
  shows "same_but_server s s'"
  using assms(2)
proof (induction routes arbitrary: s)
  case (Cons route routes)
  then show ?case
    by (auto split: if_splits dest: assms(1) intro: same_but_server_trans)
qed simp

lemma processRouteTable_same: "processRouteTable fuel mega i s = Done x s' \<Longrightarrow> same_but_server s s'"
proof (induction fuel arbitrary: i s x s')
  case (Suc fuel)
  from Suc.prems obtain t server where
    "try_routes (processRouteTable fuel mega) mega (getAllRouteTableRoutes (ra_repo s) (rt_id t)) (change_region server t s) = Done x s'"
    by (auto split: option.splits)
  from try_routes_same [OF Suc.IH this] show ?case
    by (rule same_but_server_trans [OF change_region_same])
qed simp

lemma same_but_server_repo: "same_but_server s s' \<Longrightarrow> ra_repo s' = ra_repo s"
  by (auto simp: same_but_server_def)

lemma try_routes_ends:
  assumes "\<And>route s1. route \<in> set routes \<Longrightarrow> rr_outcome_id route = 0 \<Longrightarrow> ra_repo s1 = ra_repo s \<Longrightarrow>
      f (rr_outcome_route_table_id route) s1 \<noteq> Endless"
    and "\<And>i s x s'. f i s = Done x s' \<Longrightarrow> ra_repo s' = ra_repo s"
  shows "try_routes f mega routes s \<noteq> Endless"
  using assms(1)
proof (induction routes arbitrary: s)
  case (Cons route routes)
  have later: "try_routes f mega routes s1 \<noteq> Endless" if "ra_repo s1 = ra_repo s" for s1
    using Cons.IH [of s1] Cons.prems that by auto
  show ?case
    using Cons.prems [of route s] later by (auto split: if_splits dest: assms(2))
qed simp

text \<open>The tables on the way are different ones, so there are at most as many as the list has.\<close>

lemma processRouteTable_ends:
  assumes acyc: "acyclic (table_links r)" and sorted: "sorted (map rt_id (rp_routeTable r))"
    and "ra_repo s = r" and "V \<subseteq> rt_id ` set (rp_routeTable r)" and "\<And>v. v \<in> V \<Longrightarrow> (v, i) \<in> (table_links r)\<^sup>+"
    and "length (rp_routeTable r) < card V + fuel"
  shows "processRouteTable fuel mega i s \<noteq> Endless"
  using assms(3-6)
proof (induction fuel arbitrary: i s V)
  case 0
  have "card V \<le> card (rt_id ` set (rp_routeTable r))" using 0 by (intro card_mono) auto
  also have "\<dots> \<le> length (rp_routeTable r)"
    using card_image_le [of "set (rp_routeTable r)" rt_id] card_length [of "rp_routeTable r"] by simp
  finally show ?case using 0 by simp
next
  case (Suc fuel)
  show ?case
  proof (cases "getRouteTable (ra_repo s) i")
    case (Some t)
    have t: "t \<in> set (rp_routeTable r)" "rt_id t = i"
      using Some Suc.prems(1) routeTables.find_member routeTables.find_key [OF sorted] by (auto simp: getRouteTable_def)
    have new: "i \<notin> V" using Suc.prems(3) acyc by (auto simp: acyclic_def)
    have "finite V" using Suc.prems(2) finite_subset by blast
    have "processRouteTable fuel mega (rr_outcome_route_table_id route) s1 \<noteq> Endless"
      if "route \<in> set (getAllRouteTableRoutes r (rt_id t))" "rr_outcome_id route = 0" "ra_repo s1 = r" for route s1
    proof (rule Suc.IH [OF that(3), of "insert i V"])
      have link: "(i, rr_outcome_route_table_id route) \<in> table_links r" using that t by (auto simp: table_links_def)
      show "insert i V \<subseteq> rt_id ` set (rp_routeTable r)" using Suc.prems(2) t by auto
      show "(v, rr_outcome_route_table_id route) \<in> (table_links r)\<^sup>+" if "v \<in> insert i V" for v
        using that link Suc.prems(3) by (auto intro: trancl_into_trancl)
      show "length (rp_routeTable r) < card (insert i V) + fuel" using Suc.prems(4) new \<open>finite V\<close> by simp
    qed
    then have "try_routes (processRouteTable fuel mega) mega (getAllRouteTableRoutes r (rt_id t)) s1 \<noteq> Endless"
      if "ra_repo s1 = r" for s1
      using that by (intro try_routes_ends) (auto dest: same_but_server_repo [OF processRouteTable_same])
    with Some Suc.prems(1) show ?thesis by (simp split: option.splits)
  qed simp
qed

text \<open>A table whose first row sends every call back to the table is never left.\<close>

lemma self_reference_never_ends:
  assumes "getRouteTable (ra_repo s) i = Some t" and "rt_id t = i" and "ra_server s = Some server"
    and "getAllRouteTableRoutes (ra_repo s) i = route # routes"
    and "rr_a_number_id route = 0" and "rr_b_number_id route = 0" and "rr_outcome_id route = 0"
    and "rr_outcome_route_table_id route = i" and "i \<noteq> 0"
  shows "processRouteTable fuel mega i s = Endless"
  using assms(1,3,4)
proof (induction fuel arbitrary: s server)
  case (Suc fuel)
  obtain server' where c: "ra_server (change_region server t s) = Some server'"
    using change_region_server [of s server t] Suc.prems(2) by auto
  then have "processRouteTable fuel mega i (change_region server t s) = Endless"
    using Suc.prems by (intro Suc.IH) simp_all
  with Suc.prems assms show ?case by (simp add: route_applies_def)
qed simp

section \<open>Every outcome accepts\<close>

lemma set_numbers_accept [simp]: "rs_accept (set_numbers outc p) = rs_accept p"
  by (simp add: set_numbers_def)

lemma processAutoRouteResponse_accepts:
  "processAutoRouteResponse orders s = Done x s' \<Longrightarrow> rs_accept (ra_response s')"
  by (auto simp: processAutoRouteResponse_def split: list.splits)

lemma processOutcome_accepts:
  "processOutcome env i mega skip s = Done x s' \<Longrightarrow> rs_accept (ra_response s')"
  by (auto simp: processOutcome_def processAutoOutcome_def processAutoRouteResponse_accepts processMegaTrunkPhase1_def
      processMegaTrunkPhase2_def processRouteCaseOutcome_def processReleaseReasonOutcome_def processAirpOutcome_def Let_def
      split: option.splits if_splits)

lemma processOutcome_ends [simp]: "processOutcome env i mega skip s \<noteq> Endless"
proof -
  have order: "order_offers m orders s \<noteq> Endless" for m orders s
    by (simp add: order_offers_def split: exc.splits prod.splits)
  have offers: "term_offers m skip ord trunks s \<noteq> Endless" for m ord trunks s
    by (induction trunks arbitrary: s) (auto simp: order split: if_splits)
  have auto: "processAutoOutcome skip s \<noteq> Endless"
    by (auto simp: processAutoOutcome_def getAvailableTermServiceTrunk_def processAutoRouteResponse_def Let_def order offers
        split: list.splits)
  show ?thesis
    by (auto simp: processOutcome_def auto processMegaTrunkPhase1_def processMegaTrunkPhase2_def processRouteCaseOutcome_def
        processReleaseReasonOutcome_def processAirpOutcome_def Let_def split: option.splits if_splits)
qed

lemma processRouteTable_keeps_response:
  "processRouteTable fuel mega i s = Done x s' \<Longrightarrow> ra_response s' = ra_response s"
  by (auto dest!: processRouteTable_same simp: same_but_server_def)

section \<open>Offers of automatic routing\<close>

text \<open>The guards do not look at the counters.\<close>

lemma filters_ignore_data [simp]:
  "autoTrunkFilterSrcTrunk (s\<lparr> ra_data := d \<rparr>) t = autoTrunkFilterSrcTrunk s t"
  "autoTrunkFilterSrcNumber (s\<lparr> ra_data := d \<rparr>) t = autoTrunkFilterSrcNumber s t"
  "autoTrunkFilterDstNumber (s\<lparr> ra_data := d \<rparr>) t = autoTrunkFilterDstNumber s t"
  "has_redirect (s\<lparr> ra_data := d \<rparr>) orig = has_redirect s orig"
  "anti_fraud_declines (s\<lparr> ra_data := d \<rparr>) server ord = anti_fraud_declines s server ord"
  "margin_declines (s\<lparr> ra_data := d \<rparr>) origOrder ord = margin_declines s origOrder ord"
  by (simp_all add: autoTrunkFilterSrcTrunk_def autoTrunkFilterSrcNumber_def autoTrunkFilterDstNumber_def has_redirect_def
      anti_fraud_declines_def margin_declines_def cong: if_cong option.case_cong)

lemma term_trunk_allowed_data [simp]:
  "term_trunk_allowed skip (s\<lparr> ra_data := d \<rparr>) t = term_trunk_allowed skip s t"
  by (simp add: term_trunk_allowed_def cong: if_cong)

lemma term_order_offer_data [simp]:
  "term_order_offer (s\<lparr> ra_data := d \<rparr>) origOrder ord = term_order_offer s origOrder ord"
  by (simp add: term_order_offer_def cong: if_cong)

lemma set_priority_data [simp]: "set_priority (s\<lparr> ra_data := d \<rparr>) = set_priority s"
proof -
  have "priority_applies (s\<lparr> ra_data := d \<rparr>) = priority_applies s" by (rule ext) (simp add: priority_applies_def cong: if_cong)
  then show ?thesis by (intro ext) (simp add: set_priority_def cong: option.case_cong)
qed

text \<open>The counters filled in do not change what an offer is; neither does its priority.\<close>

lemma split_orders_mem:
  assumes "split_orders m t all rest mg = Val (free, pay, mg')" and "x \<in> set free \<union> set pay"
  shows "\<exists>ord \<in> set rest. \<exists>stats. x = ord\<lparr> o_statsTrunkSettings := stats \<rparr>"
  using assms
proof (induction rest arbitrary: mg free pay)
  case (Cons ord rest)
  then obtain account ts stats mg1 where c: "o_account ord = Some account" "o_trunkSettings ord = Some ts"
    "StatsTrunkSettings_getCurrent t account ts mg = Some (stats, mg1)"
    by (auto split: option.splits)
  with Cons.prems(1) obtain free1 pay1 where r: "split_orders m t all rest mg1 = Val (free1, pay1, mg')"
    by (auto simp: Let_def split: prod.splits if_splits)
  have "x = ord\<lparr> o_statsTrunkSettings := Some stats \<rparr> \<or> x \<in> set free1 \<union> set pay1"
    using Cons.prems c r by (auto simp: Let_def split: if_splits)
  with Cons.IH [OF r] show ?case by auto
qed simp

lemma order_offers_mem:
  assumes "order_offers m orders s = Done orders' s'" and "x \<in> set orders'"
  shows "\<exists>ord \<in> set orders. \<exists>stats. x = ord\<lparr> o_statsTrunkSettings := stats \<rparr>"
  using assms split_orders_mem
  by (fastforce simp: order_offers_def orderTermTrunkSettingsOrderList_def split: exc.splits prod.splits)

lemma order_offers_data: "order_offers m orders s = Done orders' s' \<Longrightarrow> \<exists>d. s' = s\<lparr> ra_data := d \<rparr>"
  by (auto simp: order_offers_def split: exc.splits prod.splits)

lemma getTrunkSettingsOrderList_trunk:
  assumes "getTrunkSettingsOrderList r t src dst ty = Val orders" and "ord \<in> set orders"
  shows "o_trunk ord = Some t"
proof -
  obtain x ds where "trunk_settings_offer r t src dst ds x = Val (Some ord)"
    using collect_exc_mem [OF assms(1) [unfolded getTrunkSettingsOrderList_def Let_def] assms(2)] by blast
  then show ?thesis
    by (auto simp: trunk_settings_offer_def Let_def split: prod.splits option.splits if_splits)
qed

text \<open>An offer that has passed the guards on its trunk and was declined neither by the anti-fraud limit nor
  for its margin.\<close>

definition sound_offer :: "bool \<Rightarrow> RadiusState \<Rightarrow> ServiceTrunkOrder \<Rightarrow> Trunk list \<Rightarrow> ServiceTrunkOrder \<Rightarrow> bool" where
  "sound_offer skip s origOrder trunks ord \<longleftrightarrow>
     (\<exists>t \<in> set trunks. o_trunk ord = Some t \<and> term_trunk_allowed skip s t = Val True) \<and>
     (\<exists>server. ra_server s = Some server \<and> \<not> anti_fraud_declines s server ord) \<and>
     margin_declines s origOrder ord = Val False"

lemma sound_offer_data [simp]: "sound_offer skip (s\<lparr> ra_data := d \<rparr>) origOrder trunks ord = sound_offer skip s origOrder trunks ord"
  by (simp add: sound_offer_def)

lemma sound_offer_irrelevant:
  "sound_offer skip s origOrder trunks (ord\<lparr> o_statsTrunkSettings := stats \<rparr>) = sound_offer skip s origOrder trunks ord"
  "sound_offer skip s origOrder trunks (ord\<lparr> o_priority := prio \<rparr>) = sound_offer skip s origOrder trunks ord"
proof -
  have fields: "is_price_present (ord\<lparr> o_statsTrunkSettings := stats \<rparr>) = is_price_present ord"
    "is_price_present (ord\<lparr> o_priority := prio \<rparr>) = is_price_present ord"
    "order_roubles r (ord\<lparr> o_statsTrunkSettings := stats \<rparr>) = order_roubles r ord"
    "order_roubles r (ord\<lparr> o_priority := prio \<rparr>) = order_roubles r ord" for r
    by (simp_all add: is_price_present_def order_roubles_def getCurrency_def getPrice_def cong: option.case_cong)
  show "sound_offer skip s origOrder trunks (ord\<lparr> o_statsTrunkSettings := stats \<rparr>) = sound_offer skip s origOrder trunks ord"
    and "sound_offer skip s origOrder trunks (ord\<lparr> o_priority := prio \<rparr>) = sound_offer skip s origOrder trunks ord"
    by (simp_all add: sound_offer_def anti_fraud_declines_def margin_declines_def fields cong: option.case_cong if_cong)
qed

lemma term_order_offer_Some:
  "term_order_offer s origOrder ord = Val (Some x) \<Longrightarrow>
     x = ord \<and> (\<exists>server. ra_server s = Some server \<and> \<not> anti_fraud_declines s server ord) \<and>
     margin_declines s origOrder ord = Val False"
  by (auto simp: term_order_offer_def split: if_splits)

lemma term_offers_sound:
  "term_offers m skip origOrder trunks s = Done orders s' \<Longrightarrow>
     (\<exists>d. s' = s\<lparr> ra_data := d \<rparr>) \<and> (\<forall>ord \<in> set orders. sound_offer skip s origOrder trunks ord)"
proof (induction trunks arbitrary: s orders)
  case Nil
  then show ?case by (auto intro: exI [of _ "ra_data s"])
next
  case (Cons t trunks)
  from Cons.prems obtain allowed where al: "term_trunk_allowed skip s t = Val allowed" by auto
  show ?case
  proof (cases allowed)
    case False
    with Cons.prems al have "term_offers m skip origOrder trunks s = Done orders s'" by simp
    from Cons.IH [OF this] show ?thesis by (auto simp: sound_offer_def)
  next
    case True
    with Cons.prems al obtain os os' s1 acc rest where st:
      "getTrunkSettingsOrderList (ra_repo s) t (atoll (ra_aNumber s)) (atoll (ra_bNumber s)) 2 = Val os"
      "order_offers m os s = Done os' s1" "collect_exc (term_order_offer s1 origOrder) os' = Val acc"
      "term_offers m skip origOrder trunks s1 = Done rest s'" "orders = acc @ rest" by auto
    obtain d where s1: "s1 = s\<lparr> ra_data := d \<rparr>" using order_offers_data [OF st(2)] by blast
    have "sound_offer skip s origOrder (t # trunks) x" if x: "x \<in> set acc" for x
    proof -
      obtain y where y: "y \<in> set os'" "term_order_offer s1 origOrder y = Val (Some x)"
        using collect_exc_mem [OF st(3) x] by blast
      obtain ord stats where "ord \<in> set os" "y = ord\<lparr> o_statsTrunkSettings := stats \<rparr>"
        using order_offers_mem [OF st(2) y(1)] by blast
      moreover have "o_trunk ord = Some t" if "ord \<in> set os" for ord
        using getTrunkSettingsOrderList_trunk [OF st(1) that] .
      ultimately show ?thesis
        using term_order_offer_Some [OF y(2)] al True by (auto simp: sound_offer_def s1)
    qed
    moreover have "(\<exists>d. s' = s\<lparr> ra_data := d \<rparr>) \<and> (\<forall>ord \<in> set rest. sound_offer skip s origOrder trunks ord)"
      using Cons.IH [OF st(4)] by (auto simp: s1)
    ultimately show ?thesis by (auto simp: st(5) sound_offer_def)
  qed
qed

lemma getAvailableTermServiceTrunk_sound:
  assumes "getAvailableTermServiceTrunk m skip origOrder s = Done orders s'" and "ord \<in> set orders"
  shows "sound_offer skip s origOrder
    (getAllAutoRoutingTrunks (ra_repo s) (server_id_of s) (getSimblingRegion (ra_repo s) (server_id_of s))) ord"
proof -
  define trunks where "trunks = getAllAutoRoutingTrunks (ra_repo s) (server_id_of s) (getSimblingRegion (ra_repo s) (server_id_of s))"
  from assms(1) obtain os s1 os' where st: "term_offers m skip origOrder trunks s = Done os s1"
    "collect_exc (set_priority s1) os = Val os'" "order_offers m os' s1 = Done orders s'"
    by (auto simp: getAvailableTermServiceTrunk_def Let_def trunks_def)
  obtain o1 stats where o1: "o1 \<in> set os'" "ord = o1\<lparr> o_statsTrunkSettings := stats \<rparr>"
    using order_offers_mem [OF st(3) assms(2)] by blast
  obtain o2 where o2: "o2 \<in> set os" "set_priority s1 o2 = Val (Some o1)"
    using collect_exc_mem [OF st(2) o1(1)] by blast
  have "o1 = o2 \<or> (\<exists>prio. o1 = o2\<lparr> o_priority := prio \<rparr>)"
    using o2(2) by (auto simp: set_priority_def split: option.splits)
  moreover have "sound_offer skip s origOrder trunks o2" using term_offers_sound [OF st(1)] o2(1) by blast
  ultimately show ?thesis using o1(2) by (auto simp: sound_offer_irrelevant trunks_def)
qed

section \<open>The trunks of the answer\<close>

lemma route_trunks_ok:
  assumes "route_trunks ids orders = Val ts" and "length ids < 3"
  shows "length ids + length ts \<le> 3 \<and> distinct (map tr_id ts) \<and> set (map tr_id ts) \<inter> set ids = {} \<and>
    (\<forall>t \<in> set ts. \<exists>ord \<in> set orders. o_trunk ord = Some t)"
  using assms
proof (induction orders arbitrary: ids ts)
  case (Cons ord orders)
  from Cons.prems(1) obtain t where t: "o_trunk ord = Some t" by auto
  show ?case
  proof (cases "tr_id t \<in> set ids \<or> length ids + 1 = 3")
    case True
    with Cons t show ?thesis by (auto split: if_splits)
  next
    case False
    with Cons.prems t obtain rest where r: "route_trunks (tr_id t # ids) orders = Val rest" "ts = t # rest" by auto
    from Cons.IH [OF r(1)] False Cons.prems(2) t r(2) show ?thesis by auto
  qed
qed simp

lemma route_trunks_nonempty:
  "route_trunks [] (ord # orders) = Val ts \<Longrightarrow> \<exists>t rest. ts = t # rest \<and> o_trunk ord = Some t"
  by auto

section \<open>Sorting the offers succeeds\<close>

lemma order_offers_total:
  assumes "trunk_settings.wf (bd_statsTrunkSettings (ra_data s))" and "\<forall>ord \<in> set orders. complete_order ord"
  shows "\<exists>orders' s'. order_offers m orders s = Done orders' s' \<and>
    trunk_settings.wf (bd_statsTrunkSettings (ra_data s')) \<and>
    mset (map (\<lambda>d. d\<lparr> o_statsTrunkSettings := None \<rparr>) orders') = mset (map (\<lambda>d. d\<lparr> o_statsTrunkSettings := None \<rparr>) orders)"
proof -
  obtain orders' mg where "orderTermTrunkSettingsOrderList (ra_repo s) orders m (rp_now (ra_repo s))
      (bd_statsTrunkSettings (ra_data s)) = Val (orders', mg)" "trunk_settings.wf mg"
    "mset (map (\<lambda>d. d\<lparr> o_statsTrunkSettings := None \<rparr>) orders') = mset (map (\<lambda>d. d\<lparr> o_statsTrunkSettings := None \<rparr>) orders)"
    using orderTerm_ok [OF assms, of "ra_repo s" m "rp_now (ra_repo s)"] by blast
  then show ?thesis by (simp add: order_offers_def)
qed

end
