(* ===== verification/Radius_Properties.thy ===== *)
theory Radius_Properties
  imports Radius_Routes Loop_Properties
begin

text \<open>
  What the authorisation promises: which calls it refuses, that it answers, who may be called whatever the
  balance, how parallel calls are held back and which trunks an automatic route may contain.
\<close>

section \<open>Refusals\<close>

text \<open>The answer of the billing and of the server's settings that refuses a call.\<close>

definition refusing :: "string \<Rightarrow> Server option \<Rightarrow> bool" where
  "refusing answer server =
     (answer = ''reject'' \<or>
      (case server of
         None \<Rightarrow> False
       | Some sv \<Rightarrow> (answer = ''low_balance'' \<and> sv_low_balance_outcome_id sv = 0) \<or>
                     (answer = ''voip_disabled'' \<and> sv_blocked_outcome_id sv = 0)))"

definition billing_refuses :: "RadiusEnv \<Rightarrow> RadiusState \<Rightarrow> bool" where
  "billing_refuses env s =
     (case bill_request env s of
        Done (Some leg) s1 \<Rightarrow>
          (case analyzeCall env (bs_call leg) s1 of Done answer s2 \<Rightarrow> refusing answer (ra_server s2) | _ \<Rightarrow> False)
      | _ \<Rightarrow> False)"

lemma billing_refuses_iff:
  "billing_refuses env s \<longleftrightarrow>
     (\<exists>leg s1 answer s2. bill_request env s = Done (Some leg) s1 \<and> analyzeCall env (bs_call leg) s1 = Done answer s2 \<and>
        refusing answer (ra_server s2))" (is "?L \<longleftrightarrow> ?R")
proof
  assume L: ?L
  then obtain leg s1 where bill: "bill_request env s = Done (Some leg) s1"
    by (auto simp: billing_refuses_def split: reply.split_asm option.split_asm)
  with L show ?R by (cases "analyzeCall env (bs_call leg) s1") (auto simp: billing_refuses_def)
next
  assume ?R then show ?L by (auto simp: billing_refuses_def)
qed

lemma choose_outcome_refusing:
  "refusing answer (ra_server s) \<Longrightarrow>
     choose_outcome fuel answer mega s = Done None (respond setReject s) \<or> choose_outcome fuel answer mega s = Broken"
  by (auto simp: choose_outcome_def refusing_def Let_def split: option.splits)

lemma choose_outcome_None:
  "choose_outcome fuel answer mega s = Done None s' \<Longrightarrow> \<not> refusing answer (ra_server s) \<Longrightarrow> rs_accept (ra_response s')"
  by (auto simp: choose_outcome_def refusing_def Let_def split: option.splits if_splits)

lemma route_request_refusing:
  assumes "analyzeCall env (bs_call leg) s = Done answer s1" and "refusing answer (ra_server s1)"
  shows "route_request fuel env leg s = Done () (respond setReject s1) \<or> route_request fuel env leg s = Broken"
  using assms choose_outcome_refusing [OF assms(2), of fuel] by (fastforce simp: route_request_def Let_def)

lemma route_request_lets_through:
  assumes "route_request fuel env leg s = Done () s'"
  shows "\<exists>answer s1. analyzeCall env (bs_call leg) s = Done answer s1 \<and>
    (refusing answer (ra_server s1) \<or> rs_accept (ra_response s'))"
proof -
  obtain answer s1 chosen s2 mega where st: "analyzeCall env (bs_call leg) s = Done answer s1"
    "choose_outcome fuel answer mega s1 = Done chosen s2"
    "(case chosen of None \<Rightarrow> Done () s2
      | Some i \<Rightarrow> after (processOutcome env i mega (ci_callIncomingFromMegatrunk (bs_info leg)) s2) (\<lambda>_ s3. Done () s3)) = Done () s'"
    using assms by (auto simp: route_request_def Let_def)
  have "rs_accept (ra_response s')" if "\<not> refusing answer (ra_server s1)"
  proof (cases chosen)
    case None
    with st choose_outcome_None [OF _ that, of fuel mega s2] show ?thesis by simp
  next
    case (Some i)
    with st show ?thesis by (auto dest: processOutcome_accepts)
  qed
  with st(1) show ?thesis by blast
qed

lemma price_leg_Done:
  "price_leg env cdr s = Done x s' \<Longrightarrow> \<exists>leg. x = Some leg \<and> calc (request_leg env s cdr) = Next leg \<and>
     s' = s\<lparr> ra_account := ci_account (bs_info leg), ra_data := counters_back leg (ra_data s) \<rparr>"
  by (auto simp: price_leg_def split: outcome.splits)

lemma bill_request_None: "bill_request env s = Done None s1 \<Longrightarrow> rs_accept (ra_response s1)"
  by (auto simp: bill_request_def Let_def dest: price_leg_Done split: if_splits option.splits)

lemma catch_request_Thrown: "catch_request (Thrown e s) = Done () s' \<Longrightarrow> rs_accept (ra_response s')"
  by (auto simp: catch_request_def Let_def split: if_splits)

lemma process_accepts_iff:
  assumes "process fuel env s = Done () s'"
  shows "\<not> rs_accept (ra_response s') \<longleftrightarrow> billing_refuses env s"
proof (cases "bill_request env s")
  case bill: (Done priced s1)
  show ?thesis
  proof (cases priced)
    case None
    with assms bill bill_request_None [of env s s1] show ?thesis
      by (simp add: process_def catch_request_def billing_refuses_def)
  next
    case (Some leg)
    note run = assms [unfolded process_def bill Some, simplified]
    show ?thesis
    proof (cases "billing_refuses env s")
      case True
      then obtain answer s2 where "analyzeCall env (bs_call leg) s1 = Done answer s2" "refusing answer (ra_server s2)"
        by (auto simp: billing_refuses_def bill Some split: reply.splits)
      from route_request_refusing [OF this, of fuel] run True show ?thesis by (auto simp: catch_request_def)
    next
      case False
      have "rs_accept (ra_response s')"
      proof (cases "route_request fuel env leg s1")
        case (Done u s2)
        with run have "route_request fuel env leg s1 = Done () s'" by (simp add: catch_request_def)
        from route_request_lets_through [OF this] False show ?thesis by (auto simp: billing_refuses_def bill Some)
      next
        case (Thrown e s2)
        with run show ?thesis using catch_request_Thrown [of e s2 s'] by simp
      qed (use run in \<open>simp_all add: catch_request_def\<close>)
      with False show ?thesis by simp
    qed
  qed
next
  case (Thrown e s1)
  with assms catch_request_Thrown [of e s1 s'] show ?thesis by (simp add: process_def billing_refuses_def)
qed (use assms in \<open>simp_all add: process_def catch_request_def\<close>)

text \<open>The two answers of the check that refuse a call whatever the server's settings come from the account:
  the leg has none, or its row is missing. The others can be given another outcome by the server.\<close>

definition account_missing :: "Repo \<Rightarrow> Call \<Rightarrow> bool" where
  "account_missing r call \<longleftrightarrow> c_account_id call = 0 \<or> getAccount r (c_account_id call) = None"

definition call_exempt :: "Call \<Rightarrow> RadiusState \<Rightarrow> bool" where
  "call_exempt call s \<longleftrightarrow>
     (case ra_origTrunk s of
        None \<Rightarrow> False
      | Some orig \<Rightarrow> tr_tech_trunk orig \<or> tr_pstn_trunk orig \<or>
          isEmergencyCall (ra_repo s) (ra_bNumber s) (tr_server_id orig) = Val True)"

lemma check_limits_answers: "check_limits env client call s = (answer, s') \<Longrightarrow> answer \<noteq> ''reject''"
  by (auto simp: check_limits_def check_trunk_limits_def check_number_limits_def Let_def split: prod.splits if_splits)

lemma analyzeCall_reject:
  assumes "analyzeCall env call s = Done answer s'"
  shows "answer = ''reject'' \<longleftrightarrow> \<not> call_exempt call s \<and> account_missing (ra_repo s) call"
proof (cases "call_exempt call s \<or> account_missing (ra_repo s) call")
  case True
  then show ?thesis using assms
    by (auto simp: analyzeCall_def call_exempt_def account_missing_def split: option.splits if_splits)
next
  case False
  then show ?thesis using assms
    by (auto dest: check_limits_answers simp: analyzeCall_def call_exempt_def account_missing_def block_answer_def split: option.splits if_splits prod.splits)
qed

text \<open>C7: A request whose processing returns is refused exactly in these cases: the leg was priced, the call comes
  neither from a technical trunk nor from the public network nor goes to an emergency number, and the pricing
  left the leg without an account whose row is known (so also where a trunk, service, number or tariff was not
  found before it came to the account); or the check of the priced leg answers that the account is over its balance
  limit, or that its calls are disabled, and the server in charge has no outcome for that answer. The initial value
  of \<open>accept\<close>, which the constructor leaves unset, does not matter.\<close>

theorem refused_only_by_billing:
  assumes "process fuel env s = Done () s'"
  shows "\<not> rs_accept (ra_response s') \<longleftrightarrow>
    (\<exists>leg s1 answer s2. bill_request env s = Done (Some leg) s1 \<and> analyzeCall env (bs_call leg) s1 = Done answer s2 \<and>
       (\<not> call_exempt (bs_call leg) s1 \<and> account_missing (ra_repo s1) (bs_call leg) \<or>
        answer = ''low_balance'' \<and> map_option sv_low_balance_outcome_id (ra_server s2) = Some 0 \<or>
        answer = ''voip_disabled'' \<and> map_option sv_blocked_outcome_id (ra_server s2) = Some 0))"
proof -
  have *: "refusing answer (ra_server s2) \<longleftrightarrow> answer = ''reject'' \<or>
        answer = ''low_balance'' \<and> map_option sv_low_balance_outcome_id (ra_server s2) = Some 0 \<or>
        answer = ''voip_disabled'' \<and> map_option sv_blocked_outcome_id (ra_server s2) = Some 0" for answer and s2 :: RadiusState
    by (cases "ra_server s2") (auto simp: refusing_def)
  then show ?thesis
    unfolding process_accepts_iff [OF assms] billing_refuses_iff *
    by (intro ex_cong1 conj_cong refl disj_cong analyzeCall_reject)
qed

section \<open>The request is answered\<close>

lemma analyzeCall_ends [simp]: "analyzeCall env call s \<noteq> Endless"
  by (auto simp: analyzeCall_def Let_def split: option.splits prod.splits if_splits)

lemma bill_request_ends [simp]: "bill_request env s \<noteq> Endless"
proof -
  have "price_leg env cdr s \<noteq> Endless" for cdr s by (simp add: price_leg_def split: outcome.splits)
  moreover have "init env s \<noteq> Endless" by (simp add: init_def Let_def split: option.splits)
  ultimately show ?thesis by (auto simp: bill_request_def Let_def split: option.splits if_splits)
qed

lemma repository_prepare_routes:
  assumes "repository_prepare tb t = Some r"
  shows "rp_routeTable r = rp_routeTable (tb_repo tb)" and "rp_routeTableRoute r = rp_routeTableRoute (tb_repo tb)"
  using assms by (auto simp: repository_prepare_def Let_def split: if_splits)

text \<open>The checks change the blocks and nothing else.\<close>

definition only_blocks :: "RadiusState \<Rightarrow> RadiusState \<Rightarrow> bool" where
  "only_blocks s s' \<longleftrightarrow> (\<exists>b. s' = s\<lparr> ra_blocked := b \<rparr>)"

lemma only_blocks_refl [simp]: "only_blocks s s"
  unfolding only_blocks_def by (rule exI [of _ "ra_blocked s"]) simp

lemma only_blocks_trans: "only_blocks s s1 \<Longrightarrow> only_blocks s1 s2 \<Longrightarrow> only_blocks s s2"
  by (auto simp: only_blocks_def)

lemma isLowBalance_only: "isLowBalance chk reason x call s = (low, s') \<Longrightarrow> only_blocks s s'"
  by (cases "chk x"; cases "chk (x - c_cost call)") (auto simp: isLowBalance_def only_blocks_def)

lemma check_trunk_limits_only: "check_trunk_limits x client call s = (answer, s') \<Longrightarrow> only_blocks s s'"
  by (auto simp: check_trunk_limits_def split: prod.splits dest: isLowBalance_only)

lemma check_number_limits_only:
  assumes "check_number_limits spent client call s = (answer, s')"
  shows "only_blocks s s'"
proof -
  obtain balance day mnDay where sp: "spent = (balance, day, mnDay)" by (cases spent)
  obtain low s1 where 1: "isLowBalance (isConsumedCreditLimit client) REASON_NO_BALANCE balance call s = (low, s1)"
    by fastforce
  obtain lowDay s2 where 2: "(if \<not> isLocal call then isLowBalance (isConsumedDailyLimit client) REASON_DAILY_LIMIT day call s1
      else (False, s1)) = (lowDay, s2)" by fastforce
  obtain lowMN s3 where 3: "(if isInternational call then isLowBalance (isConsumedDailyMNLimit client) REASON_DAILY_LIMIT mnDay call s2
      else (False, s2)) = (lowMN, s3)" by fastforce
  have o: "only_blocks s s1" "only_blocks s1 s2" "only_blocks s2 s3"
    using 1 2 3 by (auto dest: isLowBalance_only split: if_splits)
  have "s' = s1 \<or> s' = s2 \<or> s' = s3"
    using assms unfolding check_number_limits_def sp Let_def prod.case 1 2 3 by (auto split: if_splits)
  with o show ?thesis using only_blocks_trans by blast
qed

lemma check_limits_only: "check_limits env client call s = (answer, s') \<Longrightarrow> only_blocks s s'"
  by (auto simp: check_limits_def Let_def dest: check_trunk_limits_only check_number_limits_only split: if_splits)

lemma analyzeCall_only: "analyzeCall env call s = Done answer s' \<Longrightarrow> only_blocks s s'"
  by (auto simp: analyzeCall_def dest: check_limits_only split: option.splits prod.splits if_splits)

lemma analyzeCall_repo: "analyzeCall env call s = Done answer s' \<Longrightarrow> ra_repo s' = ra_repo s"
  by (auto dest!: analyzeCall_only simp: only_blocks_def)

lemma bill_request_repo:
  assumes "bill_request env s = Done priced s1"
  shows "repository_prepare (ev_tables env) 0 = Some (ra_repo s1)"
proof -
  obtain sa where i: "init env s = Done () sa" using assms by (auto simp: bill_request_def)
  have "repository_prepare (ev_tables env) 0 = Some (ra_repo sa)"
    using i by (auto simp: init_def Let_def split: option.splits if_splits)
  moreover have "ra_repo s1 = ra_repo sa"
    using assms i
    by (auto simp: bill_request_def Let_def auth_processLineWithoutNumber_def auth_processRedirectNumber_def
        dest!: price_leg_Done split: option.splits if_splits)
  ultimately show ?thesis by simp
qed

text \<open>With enough depth the search gives one result, and so does the request.\<close>

lemma choose_outcome_fuel:
  assumes "acyclic (table_links (ra_repo s))" and "sorted (map rt_id (rp_routeTable (ra_repo s)))"
    and "length (rp_routeTable (ra_repo s)) < fuel" and "fuel \<le> fuel'"
  shows "choose_outcome fuel answer mega s \<noteq> Endless" and "choose_outcome fuel' answer mega s = choose_outcome fuel answer mega s"
proof -
  have ends: "processRouteTable fuel mega i s \<noteq> Endless" for i
    using processRouteTable_ends [OF assms(1,2) refl, of "{}" i fuel] assms(3) by simp
  then show "choose_outcome fuel answer mega s \<noteq> Endless"
    by (auto simp: choose_outcome_def Let_def split: option.splits if_splits)
  show "choose_outcome fuel' answer mega s = choose_outcome fuel answer mega s"
    using processRouteTable_mono [OF ends assms(4)]
    by (simp add: choose_outcome_def cong: option.case_cong if_cong)
qed

lemma route_request_fuel:
  assumes "acyclic (table_links (ra_repo s))" and "sorted (map rt_id (rp_routeTable (ra_repo s)))"
    and "length (rp_routeTable (ra_repo s)) < fuel" and "fuel \<le> fuel'"
  shows "route_request fuel env leg s \<noteq> Endless" and "route_request fuel' env leg s = route_request fuel env leg s"
proof -
  note fuel = choose_outcome_fuel [OF _ _ _ assms(4)]
  show "route_request fuel env leg s \<noteq> Endless"
    using assms fuel(1) by (auto simp: route_request_def Let_def analyzeCall_repo split: option.splits)
  show "route_request fuel' env leg s = route_request fuel env leg s"
    using assms fuel(2) by (cases "analyzeCall env (bs_call leg) s") (simp_all add: route_request_def Let_def analyzeCall_repo)
qed

text \<open>C9: When no route table leads back to itself, a request is answered: a depth greater than the number of
  tables is enough, and the answer does not depend on the bound. (A table whose first row sends every call
  back to the table is never left, \<open>self_reference_never_ends\<close>.)
\<close>

theorem request_is_answered:
  assumes "acyclic (table_links (tb_repo (ev_tables env)))" and "sorted (map rt_id (rp_routeTable (tb_repo (ev_tables env))))"
  shows "\<exists>answer. answer \<noteq> Endless \<and>
    (\<forall>fuel > length (rp_routeTable (tb_repo (ev_tables env))). process fuel env s = answer)"
proof -
  define n where "n = Suc (length (rp_routeTable (tb_repo (ev_tables env))))"
  have "process n env s \<noteq> Endless \<and> process fuel env s = process n env s" if "n \<le> fuel" for fuel
  proof (cases "bill_request env s")
    case (Done priced s1)
    show ?thesis
    proof (cases priced)
      case (Some leg)
      note tables = repository_prepare_routes [OF bill_request_repo [OF Done]]
      have "table_links (ra_repo s1) = table_links (tb_repo (ev_tables env))"
        by (simp add: table_links_def getAllRouteTableRoutes_def tables)
      then have "route_request n env leg s1 \<noteq> Endless" "route_request fuel env leg s1 = route_request n env leg s1"
        using assms that route_request_fuel [of s1 n fuel env leg] by (simp_all add: tables n_def)
      with Done Some show ?thesis
        by (cases "route_request n env leg s1") (simp_all add: process_def catch_request_def Let_def)
    qed (simp add: process_def Done catch_request_def)
  qed (simp_all add: process_def catch_request_def Let_def)
  then show ?thesis unfolding n_def Suc_le_eq by blast
qed

section \<open>Exempt calls\<close>

lemma bill_request_leg:
  assumes "bill_request env s = Done (Some leg) s2" and "init env s = Done () s1"
  shows "ra_origTrunk s2 = ra_origTrunk s1" and "ra_bNumber s2 = ra_bNumber s1" and "ra_repo s2 = ra_repo s1"
  using assms
  by (auto simp: bill_request_def Let_def auth_processLineWithoutNumber_def auth_processRedirectNumber_def
      dest!: price_leg_Done split: option.splits if_splits)

text \<open>A call from a technical trunk or from the public network, or to an emergency number, is never refused,
  whatever the account, its balance and the blocks.\<close>

theorem exempt_calls_accepted:
  assumes "init env s = Done () s1" and "ra_origTrunk s1 = Some orig"
    and "tr_tech_trunk orig \<or> tr_pstn_trunk orig \<or>
         isEmergencyCall (ra_repo s1) (ra_bNumber s1) (tr_server_id orig) = Val True"
    and "process fuel env s = Done () s'"
  shows "rs_accept (ra_response s')"
proof -
  have "\<not> refusing answer (ra_server s3)"
    if bill: "bill_request env s = Done (Some leg) s2" and ans: "analyzeCall env (bs_call leg) s2 = Done answer s3"
    for leg s2 answer s3
  proof -
    have "analyzeCall env (bs_call leg) s2 = Done ''accept'' s2"
      using assms(2,3) unfolding analyzeCall_def bill_request_leg [OF bill assms(1)] by auto
    with ans have "answer = ''accept''" by simp
    then show ?thesis by (simp add: refusing_def split: option.splits)
  qed
  then have "\<not> billing_refuses env s" by (auto simp: billing_refuses_iff)
  then show ?thesis using process_accepts_iff [OF assms(4)] by simp
qed

section \<open>Parallel calls\<close>

text \<open>A call crosses a limit when the account is within it without the call and beyond it with it.\<close>

definition crosses :: "(real \<Rightarrow> bool) \<Rightarrow> real \<Rightarrow> Call \<Rightarrow> bool" where
  "crosses chk spent call \<longleftrightarrow> chk spent \<and> \<not> chk (spent - c_cost call)"

text \<open>An account beyond a limit without the call is over it.\<close>

definition over :: "(real \<Rightarrow> bool) \<Rightarrow> real \<Rightarrow> Call \<Rightarrow> bool" where
  "over chk spent call \<longleftrightarrow> chk spent \<and> chk (spent - c_cost call)"

text \<open>The limits that are looked at for a call and the reason of the block when it crosses one: of a trunk service
  the credit limit only; of an outgoing call of a number the credit limit, then, unless a paid call of an overdrawn
  account was refused, the daily limit of calls that are not local, then, unless that one was exceeded, the daily limit
  of international calls. A later reason replaces an earlier one.\<close>

definition crossed_limit :: "bool \<Rightarrow> Client \<Rightarrow> real \<times> real \<times> real \<Rightarrow> Call \<Rightarrow> RejectReason option" where
  "crossed_limit lock client spent call =
     (case spent of (balance, day, mnDay) \<Rightarrow>
        let credit = (if crosses (isConsumedCreditLimit client) balance call then Some REASON_NO_BALANCE else None);
            daily = isConsumedDailyLimit client; international = isConsumedDailyMNLimit client in
        if c_trunk_service_id call \<noteq> 0 then credit
        else if c_number_service_id call = 0 \<or> \<not> c_orig call then None
        else if over (isConsumedCreditLimit client) balance call \<and> \<bar>c_cost call\<bar> > 0.000001 \<and> lock then None
        else if \<not> isLocal call \<and> crosses daily day call then Some REASON_DAILY_LIMIT
        else if isInternational call \<and> crosses international mnDay call \<and> \<not> (\<not> isLocal call \<and> over daily day call)
        then Some REASON_DAILY_LIMIT
        else credit)"

text \<open>The reason for which a call newly blocks its account: none for the calls that come to no check.\<close>

definition new_block :: "RadiusEnv \<Rightarrow> Call \<Rightarrow> RadiusState \<Rightarrow> RejectReason option" where
  "new_block env call s =
     (if call_exempt call s \<or> c_account_id call = 0 \<or> map_of (ra_blocked s) (c_account_id call) \<noteq> None then None
      else Option.bind (getAccount (ra_repo s) (c_account_id call)) (\<lambda>client.
             crossed_limit (auto_lock_finance (ra_repo s)) client (spent_sums env s client call) call))"

definition block_minute :: "Call \<Rightarrow> RadiusState \<Rightarrow> RejectReason option \<Rightarrow> int \<rightharpoonup> RejectReason \<times> int" where
  "block_minute call s reason =
     (case reason of
        None \<Rightarrow> map_of (ra_blocked s)
      | Some why \<Rightarrow> (map_of (ra_blocked s))(c_account_id call \<mapsto> (why, rp_now (ra_repo s) + 60)))"

lemma isLowBalance_crosses:
  assumes "isLowBalance chk reason x call s = (low, s')"
  shows "low \<longleftrightarrow> over chk x call" and "ra_repo s' = ra_repo s"
    and "map_of (ra_blocked s') = block_minute call s (if crosses chk x call then Some reason else None)"
  using assms by (auto simp: isLowBalance_def crosses_def over_def block_minute_def update_conv' split: if_splits)

lemma block_minute_again:
  assumes "map_of (ra_blocked s') = block_minute call s r" and "ra_repo s' = ra_repo s"
  shows "block_minute call s' r' = block_minute call s (if r' = None then r else r')"
  using assms by (auto simp: block_minute_def split: option.splits)

lemma crosses_not_over: "crosses chk x call \<Longrightarrow> \<not> over chk x call"
  by (simp add: crosses_def over_def)

lemma check_number_limits_blocks:
  assumes "check_number_limits spent client call s = (answer, s')"
    and "c_trunk_service_id call = 0" "c_number_service_id call \<noteq> 0" "c_orig call"
  shows "map_of (ra_blocked s') = block_minute call s (crossed_limit (auto_lock_finance (ra_repo s)) client spent call)"
proof -
  obtain balance day mnDay where sp: "spent = (balance, day, mnDay)" by (cases spent)
  obtain low s1 where 1: "isLowBalance (isConsumedCreditLimit client) REASON_NO_BALANCE balance call s = (low, s1)"
    by fastforce
  obtain lowDay s2 where 2: "isLowBalance (isConsumedDailyLimit client) REASON_DAILY_LIMIT day call s1 = (lowDay, s2)"
    by fastforce
  define s2' where "s2' = (if \<not> isLocal call then s2 else s1)"
  obtain lowMN s3 where 3: "isLowBalance (isConsumedDailyMNLimit client) REASON_DAILY_LIMIT mnDay call s2' = (lowMN, s3)"
    by fastforce
  note b1 = isLowBalance_crosses [OF 1] and b2 = isLowBalance_crosses [OF 2] and b3 = isLowBalance_crosses [OF 3]
  define r1 where "r1 = (if crosses (isConsumedCreditLimit client) balance call then Some REASON_NO_BALANCE else None)"
  define r2 where "r2 = (if \<not> isLocal call \<and> crosses (isConsumedDailyLimit client) day call then Some REASON_DAILY_LIMIT else r1)"
  have m1: "map_of (ra_blocked s1) = block_minute call s r1" "ra_repo s1 = ra_repo s" using b1 by (simp_all add: r1_def)
  have m2: "map_of (ra_blocked s2') = block_minute call s r2" "ra_repo s2' = ra_repo s"
    using b2 m1 block_minute_again [OF m1] by (simp_all add: s2'_def r2_def)
  have m3: "map_of (ra_blocked s3) =
      block_minute call s (if crosses (isConsumedDailyMNLimit client) mnDay call then Some REASON_DAILY_LIMIT else r2)"
    using b3 block_minute_again [OF m2] by simp
  have "(answer, s') = (if low \<and> \<bar>c_cost call\<bar> > 0.000001 \<and> auto_lock_finance (ra_repo s) then (answer, s1)
      else if \<not> isLocal call \<and> lowDay then (answer, s2') else if isInternational call then (answer, s3) else (answer, s2'))"
    using assms(1) unfolding check_number_limits_def sp Let_def prod.case 1
    using 2 3 by (auto simp: s2'_def split: if_splits)
  then show ?thesis
    using assms(2-4) m1(1) m2(1) m3 b1(1) b2(1) crosses_not_over
    by (auto simp: crossed_limit_def sp Let_def r1_def r2_def split: if_splits)
qed

lemma check_limits_blocks:
  assumes "check_limits env client call s = (answer, s')"
  shows "map_of (ra_blocked s') = block_minute call s
    (crossed_limit (auto_lock_finance (ra_repo s)) client (spent_sums env s client call) call)"
proof -
  obtain balance day mnDay where sp: "spent_sums env s client call = (balance, day, mnDay)" by (metis prod_cases3)
  obtain low s1 where 1: "isLowBalance (isConsumedCreditLimit client) REASON_NO_BALANCE balance call s = (low, s1)"
    by fastforce
  consider "c_trunk_service_id call \<noteq> 0" | "c_trunk_service_id call = 0" "c_number_service_id call \<noteq> 0" "c_orig call"
    | "c_trunk_service_id call = 0" "c_number_service_id call = 0 \<or> \<not> c_orig call" by blast
  then show ?thesis
  proof cases
    case 1
    then show ?thesis using assms isLowBalance_crosses(3) [OF \<open>isLowBalance _ _ _ _ _ = _\<close>]
      by (auto simp: check_limits_def check_trunk_limits_def crossed_limit_def sp \<open>isLowBalance _ _ _ _ _ = _\<close> Let_def)
  next
    case 2
    then show ?thesis using assms check_number_limits_blocks by (simp add: check_limits_def)
  next
    case 3
    then show ?thesis using assms by (auto simp: check_limits_def crossed_limit_def sp block_minute_def Let_def)
  qed
qed

lemma analyzeCall_blocks:
  assumes "analyzeCall env call s = Done answer s'"
  shows "map_of (ra_blocked s') = block_minute call s (new_block env call s)"
proof (cases "new_block env call s = None \<and> s' = s")
  case True
  then show ?thesis by (simp add: block_minute_def)
next
  case False
  then obtain client where "getAccount (ra_repo s) (c_account_id call) = Some client" "\<not> call_exempt call s"
    "c_account_id call \<noteq> 0" "map_of (ra_blocked s) (c_account_id call) = None" "check_limits env client call s = (answer, s')"
    using assms
    by (auto simp: analyzeCall_def new_block_def call_exempt_def bind_eq_None_conv split: option.splits if_splits prod.splits)
  then show ?thesis using check_limits_blocks by (simp add: new_block_def)
qed

text \<open>C8: The check of a call blocks the account exactly when the call comes to the check of a limit and crosses it:
  the account is within the limit without the cost of the call and beyond it with it. The block is for one minute, for
  the reason of that limit; no other block changes. While it stands, every further call of the account that is not
  exempt is answered by the reason of the block, whatever its price.\<close>

theorem parallel_calls_held_back:
  assumes "analyzeCall env call s = Done answer s1"
    and "ra_blocked s2 = ra_blocked s1" and "c_account_id call2 = c_account_id call"
    and "ra_origTrunk s2 = Some orig" and "\<not> tr_tech_trunk orig" and "\<not> tr_pstn_trunk orig"
    and "isEmergencyCall (ra_repo s2) (ra_bNumber s2) (tr_server_id orig) = Val False"
    and "getAccount (ra_repo s2) (c_account_id call) \<noteq> None"
  shows "map_of (ra_blocked s1) = block_minute call s (new_block env call s) \<and>
    (\<forall>reason. new_block env call s = Some reason \<longrightarrow> analyzeCall env2 call2 s2 = Done (block_answer reason) s2)"
proof (intro conjI allI impI)
  show m: "map_of (ra_blocked s1) = block_minute call s (new_block env call s)" by (rule analyzeCall_blocks [OF assms(1)])
  fix reason assume r: "new_block env call s = Some reason"
  then have "c_account_id call \<noteq> 0" by (auto simp: new_block_def split: if_splits)
  moreover have "map_of (ra_blocked s2) (c_account_id call2) = Some (reason, rp_now (ra_repo s) + 60)"
    using m assms(2,3) r by (simp add: block_minute_def)
  ultimately show "analyzeCall env2 call2 s2 = Done (block_answer reason) s2"
    using assms(3-8) by (auto simp: analyzeCall_def)
qed

section \<open>Automatic routes\<close>

text \<open>C10: An automatic route names at most three different trunks. Each takes part in automatic routing for the
  server in charge, passed the filters, is not the trunk the call came from (unless the loop protection is
  off), and has an offer that neither the anti-fraud limit nor the margin declined. Without such an offer the
  call is released for want of a route.\<close>

theorem auto_route_sound:
  assumes "processAutoOutcome skip s = Done rate s'"
  shows "(\<exists>ts origOrder. rs_routeCase (ra_response s') = join_names (map tr_trunk_name ts) \<and> ts \<noteq> [] \<and> length ts \<le> 3 \<and>
      distinct (map tr_id ts) \<and> getAvailableOrigServiceTrunk s = Val origOrder \<and>
      (\<forall>t \<in> set ts. \<exists>ord. o_trunk ord = Some t \<and>
         sound_offer skip s origOrder
           (getAllAutoRoutingTrunks (ra_repo s) (server_id_of s) (getSimblingRegion (ra_repo s) (server_id_of s))) ord \<and>
         (skip \<or> map_option tr_id (ra_origTrunk s) \<noteq> Some (tr_id t)))) \<or>
    rs_releaseReason (ra_response s') = ''NO_ROUTE_TO_DESTINATION''"
proof -
  define m where "m = (case ra_origTrunk s of Some orig \<Rightarrow> tr_sw_minimalki orig | None \<Rightarrow> False)"
  obtain origOrder orders s1 where st: "getAvailableOrigServiceTrunk s = Val origOrder"
    "getAvailableTermServiceTrunk m skip origOrder s = Done orders s1" "processAutoRouteResponse orders s1 = Done rate s'"
    using assms by (auto simp: processAutoOutcome_def m_def)
  show ?thesis
  proof (cases orders)
    case Nil
    then show ?thesis using st(3) by (auto simp: processAutoRouteResponse_def setReleaseReason_def)
  next
    case (Cons ord rest)
    then obtain ts where ts: "route_trunks [] orders = Val ts" "s' = respond (setRouteCase (join_names (map tr_trunk_name ts))) s1"
      using st(3) by (auto simp: processAutoRouteResponse_def simp del: route_trunks.simps)
    have ne: "ts \<noteq> []" using route_trunks_nonempty ts(1) Cons by blast
    have ok: "length ts \<le> 3" "distinct (map tr_id ts)" "\<forall>t \<in> set ts. \<exists>ord \<in> set orders. o_trunk ord = Some t"
      using route_trunks_ok [OF ts(1)] by simp_all
    have "\<exists>ord. o_trunk ord = Some t \<and>
        sound_offer skip s origOrder
          (getAllAutoRoutingTrunks (ra_repo s) (server_id_of s) (getSimblingRegion (ra_repo s) (server_id_of s))) ord \<and>
        (skip \<or> map_option tr_id (ra_origTrunk s) \<noteq> Some (tr_id t))" if t: "t \<in> set ts" for t
    proof -
      obtain ord where o: "ord \<in> set orders" "o_trunk ord = Some t" using ok(3) t by blast
      have sound: "sound_offer skip s origOrder
          (getAllAutoRoutingTrunks (ra_repo s) (server_id_of s) (getSimblingRegion (ra_repo s) (server_id_of s))) ord"
        by (rule getAvailableTermServiceTrunk_sound [OF st(2) o(1)])
      then have "term_trunk_allowed skip s t = Val True" using o(2) by (auto simp: sound_offer_def)
      then have "skip \<or> map_option tr_id (ra_origTrunk s) \<noteq> Some (tr_id t)"
        by (auto simp: term_trunk_allowed_def split: if_splits)
      with sound o(2) show ?thesis by blast
    qed
    moreover have "rs_routeCase (ra_response s') = join_names (map tr_trunk_name ts)" by (simp add: ts(2) setRouteCase_def)
    ultimately show ?thesis using ne ok(1,2) st(1) by blast
  qed
qed

end
