(* ===== verification/Radius_Samples.thy ===== *)
theory Radius_Samples
  imports Radius_Properties Billing_Properties
begin

text \<open>
  Tables and requests for the witnesses of the authorisation, and the witnesses. The trunk of the requests
  belongs to the second server of the hub, which has no instance settings: the billing finds no account.
\<close>

section \<open>A request that the billing refuses\<close>

definition radius_trunk :: "bool \<Rightarrow> Trunk" where
  "radius_trunk tech = sample_trunk\<lparr> tr_server_id := 2, tr_tech_trunk := tech, tr_route_table_id := 1 \<rparr>"

definition radius_server :: "int \<Rightarrow> Server" where
  "radius_server i = sample_server\<lparr> sv_id := i, sv_hub_id := 5 \<rparr>"

definition sample_route :: "int \<Rightarrow> int \<Rightarrow> int \<Rightarrow> RouteTableRoute" where
  "sample_route table outc next_table = \<lparr> rr_route_table_id = table, rr_order = 1, rr_a_number_id = 0, rr_b_number_id = 0,
     rr_outcome_id = outc, rr_outcome_route_table_id = next_table \<rparr>"

definition radius_tables :: "bool \<Rightarrow> Tables" where
  "radius_tables tech = sample_tables\<lparr> tb_repo := (tb_repo sample_tables)\<lparr> rp_server := [radius_server 1, radius_server 2],
     rp_trunkByName := [radius_trunk tech],
     rp_routeTable := [\<lparr> rt_id = 1, rt_server_id = 1, rt_name = [] \<rparr>, \<lparr> rt_id = 2, rt_server_id = 1, rt_name = [] \<rparr>],
     rp_routeTableRoute := [sample_route 1 0 2, sample_route 2 7 0],
     rp_outcome := [\<lparr> oc_id = 7, oc_name = [], oc_type_id = 5, oc_route_case_id = 0, oc_route_case_1_id = 0,
       oc_route_case_2_id = 0, oc_release_reason_id = 0, oc_airp_id = 0, oc_calling_station_id = [],
       oc_called_station_id = [] \<rparr>] \<rparr> \<rparr>"

definition radius_env :: "bool \<Rightarrow> RadiusEnv" where
  "radius_env tech = \<lparr> ev_tables = radius_tables tech, ev_currentAccount = am_new, ev_globalCounters = None,
     ev_isApiHostMode = False, ev_shuffle = id, ev_junk = 0 \<rparr>"

definition radius_start :: RadiusState where
  "radius_start = \<lparr> ra_repo = empty_repo, ra_request = RadiusAuthRequest_new\<lparr> rq_trunkName := ''alpha'', rq_srcNumber := ''7495'',
       rq_dstNumber := ''112'' \<rparr>, ra_response = RadiusAuthResponse_new True, ra_aNumber = [], ra_bNumber = [],
     ra_server = None, ra_origTrunk = None, ra_account = None, ra_billingNotReady = False, ra_blocked = [],
     ra_data = sample_container \<rparr>"

definition radius_repo :: "bool \<Rightarrow> Repo" where
  "radius_repo tech = (tb_repo (radius_tables tech))\<lparr> rp_currentTime := 1000 \<rparr>"

lemma radius_server_id [simp]: "sv_id (radius_server i) = i" "sv_hub_id (radius_server i) = 5"
  "sv_emergency_prefixlist_id (radius_server i) = 0"
  by (simp_all add: radius_server_def sample_server_def)

lemma radius_trunk_fields [simp]:
  "tr_id (radius_trunk tech) = 2" "tr_server_id (radius_trunk tech) = 2" "tr_trunk_name (radius_trunk tech) = ''alpha''"
  "tr_tech_trunk (radius_trunk tech) = tech" "\<not> tr_pstn_trunk (radius_trunk tech)" "\<not> tr_our_trunk (radius_trunk tech)"
  "\<not> tr_orig_redirect_number (radius_trunk tech)" "tr_route_table_id (radius_trunk tech) = 1"
  by (simp_all add: radius_trunk_def sample_trunk_def)

lemma radius_repo_rows [simp]:
  "rp_server (radius_repo tech) = [radius_server 1, radius_server 2]" "rp_trunkByName (radius_repo tech) = [radius_trunk tech]"
  "cf_instance_id (rp_conf (radius_repo tech)) = 1" "rp_now (radius_repo tech) = 1000"
  "rp_instanceSettings (radius_repo tech) = rp_instanceSettings (tb_repo sample_tables)"
  by (simp_all add: radius_repo_def radius_tables_def sample_tables_def empty_repo_def)

lemma radius_getServer: "getServer (radius_repo tech) i = (if i = 1 \<or> i = 2 then Some (radius_server i) else None)"
  by (auto simp: getServer_def servers.find_sorted)

lemma radius_getTrunkByName: "getTrunkByName (radius_repo tech) ''alpha'' 0 = Some (radius_trunk tech)"
  by (auto simp: getTrunkByName_def getSimblingRegion_def ServerList_getSimblingRegion_def servers.find_sorted
      TrunkByNameList_find_def range_simps Let_def first_of_def)

lemma radius_no_settings: "getInstanceSettings (radius_repo tech) 2 = None"
  by (simp add: getInstanceSettings_def instances.find_sorted sample_tables_def)

lemma radius_prepare: "repository_prepare (radius_tables tech) 0 = Some (radius_repo tech)"
proof -
  have f: "List.find (\<lambda>n. False) xs = None" for xs :: "string list" by (simp add: find_None_iff)
  have "getServer (tb_repo (radius_tables tech)) 1 \<noteq> None" "getInstanceSettings (tb_repo (radius_tables tech)) 1 \<noteq> None"
    using radius_getServer [of tech 1] sample_tables_found(2)
    by (simp_all add: getServer_def getInstanceSettings_def radius_repo_def radius_tables_def)
  moreover have "cf_instance_id (rp_conf (tb_repo (radius_tables tech))) = 1" "rp_now (tb_repo (radius_tables tech)) = 1000"
    "tb_hub_found (radius_tables tech)" "\<And>n. tb_loaded (radius_tables tech) n"
    by (simp_all add: radius_tables_def sample_tables_def empty_repo_def)
  ultimately show ?thesis
    by (simp add: repository_prepare_def Let_def prepare_def f radius_repo_def)
qed

definition radius_ready :: "bool \<Rightarrow> RadiusState" where
  "radius_ready tech = radius_start\<lparr> ra_repo := radius_repo tech, ra_origTrunk := Some (radius_trunk tech),
     ra_server := Some (radius_server 2), ra_aNumber := ''7495'', ra_bNumber := ''112'' \<rparr>"

lemma radius_ready_fields [simp]:
  "ra_repo (radius_ready tech) = radius_repo tech" "ra_origTrunk (radius_ready tech) = Some (radius_trunk tech)"
  "ra_server (radius_ready tech) = Some (radius_server 2)" "ra_bNumber (radius_ready tech) = ''112''"
  "ra_request (radius_ready tech) = ra_request radius_start" "ra_data (radius_ready tech) = sample_container"
  by (simp_all add: radius_ready_def radius_start_def)

lemma radius_init: "init (radius_env tech) radius_start = Done () (radius_ready tech)"
proof -
  have "bd_ready (ra_data radius_start)" by (simp add: radius_start_def sample_container_ready)
  moreover have "rq_region (ra_request radius_start) = 0" "rq_trunkName (ra_request radius_start) = ''alpha''"
    "rq_srcNumber (ra_request radius_start) = ''7495''" "rq_dstNumber (ra_request radius_start) = ''112''"
    by (simp_all add: radius_start_def RadiusAuthRequest_new_def)
  ultimately show ?thesis
    by (simp add: init_def radius_prepare radius_env_def radius_getTrunkByName radius_getServer Let_def)
      (simp add: radius_ready_def radius_start_def)
qed

lemma radius_leg:
  assumes "bs_repo s = radius_repo tech" and "bs_origRegion s = 1" and "c_orig (bs_call s)" and "cdr_src_route (bs_cdr s) = ''alpha''"
  shows "\<exists>leg. calc s = Next leg \<and> c_account_id (bs_call leg) = c_account_id (bs_call s)"
proof -
  have "getTrunkByName (radius_repo tech) ''alpha'' 1 = Some (radius_trunk tech)"
    using radius_getTrunkByName [of tech] by (simp add: getTrunkByName_def)
  then show ?thesis using assms
    by (simp add: calc_def calc_steps_def setupTrunk_def getRoute_def radius_getServer radius_no_settings Let_def)
qed

lemma radius_bill:
  "\<exists>leg s1. bill_request (radius_env tech) radius_start = Done (Some leg) s1 \<and> c_account_id (bs_call leg) = 0 \<and>
     ra_origTrunk s1 = Some (radius_trunk tech) \<and> ra_bNumber s1 = ''112'' \<and> ra_repo s1 = radius_repo tech \<and>
     ra_server s1 = Some (radius_server 2)"
proof -
  have s2: "auth_processLineWithoutNumber (radius_trunk tech) (radius_server 2)
      (auth_processRedirectNumber (radius_trunk tech) (radius_ready tech)) = radius_ready tech"
    by (simp add: auth_processLineWithoutNumber_def auth_processRedirectNumber_def has_redirect_def)
  have rq: "rq_region (ra_request radius_start) = 0" "rq_callingPartyCategory (ra_request radius_start) = []"
    by (simp_all add: radius_start_def RadiusAuthRequest_new_def)
  obtain cdr where cdr: "request_cdr (radius_repo tech) (ra_request radius_start) = Val cdr" "cdr_src_route cdr = ''alpha''"
    by (simp add: request_cdr_def radius_start_def RadiusAuthRequest_new_def strncpy_def)
  let ?leg = "request_leg (radius_env tech) (radius_ready tech) cdr"
  have "bs_repo ?leg = radius_repo tech" "bs_origRegion ?leg = 1" "c_orig (bs_call ?leg)" "bs_cdr ?leg = cdr"
    "c_account_id (bs_call ?leg) = 0"
    by (simp_all add: request_leg_def leg_state_def rq Call_new_def)
  then obtain leg where leg: "calc ?leg = Next leg" "c_account_id (bs_call leg) = 0"
    using radius_leg [of ?leg tech] cdr(2) by auto
  show ?thesis
    by (simp add: bill_request_def radius_init rq s2 cdr price_leg_def leg)
qed

lemma radius_not_emergency: "isEmergencyCall (radius_repo tech) n 2 = Val False"
  by (simp add: isEmergencyCall_def radius_getServer)

text \<open>From an ordinary trunk the call is refused, from a technical one it is routed.\<close>

lemma radius_refused: "\<exists>s'. process fuel (radius_env False) radius_start = Done () s' \<and> \<not> rs_accept (ra_response s')"
proof -
  obtain leg s1 where b: "bill_request (radius_env False) radius_start = Done (Some leg) s1" "c_account_id (bs_call leg) = 0"
    "ra_origTrunk s1 = Some (radius_trunk False)" "ra_bNumber s1 = ''112''" "ra_repo s1 = radius_repo False"
    "ra_server s1 = Some (radius_server 2)" using radius_bill by blast
  have "analyzeCall (radius_env False) (bs_call leg) s1 = Done ''reject'' s1"
    by (simp add: analyzeCall_def b radius_not_emergency)
  then show ?thesis
    by (simp add: process_def b(1) route_request_def choose_outcome_def b(3,6) catch_request_def Let_def)
qed

theorem refused_only_by_billing_witness:
  "\<exists>s' leg s1 answer s2. process 5 (radius_env False) radius_start = Done () s' \<and> \<not> rs_accept (ra_response s') \<and>
     bill_request (radius_env False) radius_start = Done (Some leg) s1 \<and>
     analyzeCall (radius_env False) (bs_call leg) s1 = Done answer s2"
proof -
  obtain s' where p: "process 5 (radius_env False) radius_start = Done () s'" "\<not> rs_accept (ra_response s')"
    using radius_refused by blast
  from refused_only_by_billing [OF p(1)] p show ?thesis by blast
qed

section \<open>A request that is routed\<close>

lemma radius_routes:
  "getRouteTable (radius_repo tech) i = (if i = 1 \<or> i = 2 then Some \<lparr> rt_id = i, rt_server_id = 1, rt_name = [] \<rparr> else None)"
  "getAllRouteTableRoutes (radius_repo tech) i =
     (if i = 1 then [sample_route 1 0 2] else if i = 2 then [sample_route 2 7 0] else [])"
  by (auto simp: getRouteTable_def routeTables.find_sorted getAllRouteTableRoutes_def RouteTableRouteList_findAll_def
      range_simps radius_repo_def radius_tables_def sample_route_def)

lemma radius_acyclic: "acyclic (table_links (radius_repo tech))"
proof -
  have "table_links (radius_repo tech) \<subseteq> {(1, 2)}"
    by (auto simp: table_links_def radius_routes sample_route_def split: if_splits)
  moreover have "acyclic {(1 :: int, 2 :: int)}" by (simp add: acyclic_insert, simp add: acyclic_def)
  ultimately show ?thesis by (rule acyclic_subset [rotated])
qed

theorem request_is_answered_witness:
  "process 3 (radius_env True) radius_start \<noteq> Endless \<and>
   process 3 (radius_env True) radius_start = process 100 (radius_env True) radius_start"
proof -
  have "acyclic (table_links (tb_repo (ev_tables (radius_env True))))"
    using radius_acyclic [of True] by (simp add: table_links_def getAllRouteTableRoutes_def radius_repo_def radius_env_def)
  moreover have "sorted (map rt_id (rp_routeTable (tb_repo (ev_tables (radius_env True)))))"
    "length (rp_routeTable (tb_repo (ev_tables (radius_env True)))) = 2"
    by (simp_all add: radius_env_def radius_tables_def)
  ultimately show ?thesis using request_is_answered [of "radius_env True" radius_start] by fastforce
qed

lemma radius_outcome: "\<exists>outc. getOutcome (radius_repo tech) 7 = Some outc \<and> oc_type_id outc = 5"
  by (simp add: getOutcome_def outcomes.find_sorted radius_repo_def radius_tables_def)

lemma radius_table_search:
  assumes "ra_repo s = radius_repo tech" and "ra_server s = Some (radius_server 2)"
  shows "\<exists>s'. processRouteTable 3 mega 1 s = Done 7 s' \<and> ra_repo s' = radius_repo tech"
proof -
  have "outcome_applies (radius_repo tech) mega 7"
    using radius_outcome [of tech] by (auto simp: outcome_applies_def outcome_type_defs)
  then show ?thesis using assms
    by (simp add: numeral_3_eq_3 radius_routes sample_route_def route_applies_def change_region_def radius_getServer)
qed

lemma radius_accepted: "\<exists>s'. process 3 (radius_env True) radius_start = Done () s'"
proof -
  obtain leg s1 where b: "bill_request (radius_env True) radius_start = Done (Some leg) s1"
    "ra_origTrunk s1 = Some (radius_trunk True)" "ra_repo s1 = radius_repo True" "ra_server s1 = Some (radius_server 2)"
    using radius_bill by blast
  have a: "analyzeCall (radius_env True) (bs_call leg) s1 = Done ''accept'' s1" by (simp add: analyzeCall_def b)
  define mega where "mega = (case bs_mega leg of Some m \<Rightarrow> m | None \<Rightarrow> request_mega s1 (bs_cdr leg))"
  obtain s2 where r: "processRouteTable 3 mega 1 s1 = Done 7 s2" "ra_repo s2 = radius_repo True"
    using radius_table_search [OF b(3,4)] by blast
  obtain outc where "getOutcome (radius_repo True) 7 = Some outc" "oc_type_id outc = 5" using radius_outcome by blast
  then have "processOutcome (radius_env True) 7 mega skip s2 = Done None (respond setAccept s2)" for skip
    by (simp add: processOutcome_def r(2) outcome_type_defs)
  then show ?thesis
    by (simp add: process_def b(1) route_request_def mega_def [symmetric] a choose_outcome_def b(2,4) r(1) catch_request_def)
qed

theorem exempt_calls_accepted_witness:
  "\<exists>s'. process 3 (radius_env True) radius_start = Done () s' \<and> rs_accept (ra_response s')"
proof -
  obtain s' where p: "process 3 (radius_env True) radius_start = Done () s'" using radius_accepted by blast
  from exempt_calls_accepted [OF radius_init _ _ p, of "radius_trunk True"] p show ?thesis by simp
qed

section \<open>A call that crosses the limit\<close>

text \<open>The account has 20 and the call costs 30. The settings do not lock accounts, the call is accepted, and
  yet the next call is answered with the lack of balance.\<close>

definition limit_state :: RadiusState where
  "limit_state = (radius_ready False)\<lparr> ra_repo := (radius_repo False)\<lparr> rp_client := [sample_account] \<rparr>,
     ra_data := sample_container\<lparr> bd_statsAccount := am_new \<rparr> \<rparr>"

definition limit_call :: "real \<Rightarrow> Call" where
  "limit_call cost = sample_call\<lparr> c_account_id := 10, c_trunk_service_id := 8, c_cost := cost \<rparr>"

lemma limit_state_facts:
  "ra_origTrunk limit_state = Some (radius_trunk False)" "ra_blocked limit_state = []"
  "getAccount (ra_repo limit_state) 10 = Some sample_account" "rp_now (ra_repo limit_state) = 1000"
  "isEmergencyCall (ra_repo limit_state) n 2 = Val False" "\<not> auto_lock_finance (ra_repo limit_state)"
proof -
  show "ra_origTrunk limit_state = Some (radius_trunk False)" "ra_blocked limit_state = []" "rp_now (ra_repo limit_state) = 1000"
    by (simp_all add: limit_state_def radius_ready_def radius_start_def)
  show "getAccount (ra_repo limit_state) 10 = Some sample_account"
    by (simp add: limit_state_def getAccount_def clients.find_sorted sample_account_def)
  show "isEmergencyCall (ra_repo limit_state) n 2 = Val False"
    by (simp add: limit_state_def isEmergencyCall_def getServer_def servers.find_sorted)
  show "\<not> auto_lock_finance (ra_repo limit_state)"
    by (simp add: auto_lock_finance_def limit_state_def getInstanceSettings_def instances.find_sorted sample_tables_def
        split: option.splits)
qed

lemma limit_spent: "fst (spent_sums (radius_env False) limit_state sample_account (limit_call cost)) = cost"
  by (simp add: spent_sums_def auth_fetchGlobalCounters_def radius_env_def limit_state_def limit_call_def getSumBalance_def
      am_new_def Let_def)

lemma limit_crossed:
  "analyzeCall (radius_env False) (limit_call (-30)) limit_state =
     Done ''accept'' (limit_state\<lparr> ra_blocked := [(10, REASON_NO_BALANCE, 1060)] \<rparr>)"
proof -
  have "c_account_id (limit_call x) = 10" "c_trunk_service_id (limit_call x) = 8" "c_cost (limit_call x) = x" for x
    by (simp_all add: limit_call_def)
  moreover have "isConsumedCreditLimit sample_account (-30)" "\<not> isConsumedCreditLimit sample_account 0"
    by (simp_all add: isConsumedCreditLimit_def hasCreditLimit_def sample_account_def)
  ultimately show ?thesis
    by (simp add: analyzeCall_def limit_state_facts check_limits_def check_trunk_limits_def limit_spent isLowBalance_def Let_def)
qed

lemma limit_block: "new_block (radius_env False) (limit_call (-30)) limit_state = Some REASON_NO_BALANCE"
proof -
  obtain day mnDay where sp: "spent_sums (radius_env False) limit_state sample_account (limit_call (-30)) = (-30, day, mnDay)"
    using limit_spent [of "-30"] by (metis prod.collapse)
  have "c_account_id (limit_call x) = 10" "c_trunk_service_id (limit_call x) = 8" "c_cost (limit_call x) = x" for x
    by (simp_all add: limit_call_def)
  moreover have "isConsumedCreditLimit sample_account (-30)" "\<not> isConsumedCreditLimit sample_account 0"
    by (simp_all add: isConsumedCreditLimit_def hasCreditLimit_def sample_account_def)
  ultimately show ?thesis
    by (simp add: new_block_def call_exempt_def limit_state_facts crossed_limit_def sp crosses_def Let_def)
qed

theorem parallel_calls_held_back_witness:
  "\<exists>s2. analyzeCall (radius_env False) (limit_call (-30)) limit_state = Done ''accept'' s2 \<and>
     \<not> auto_lock_finance (ra_repo s2) \<and> analyzeCall (radius_env False) (limit_call 0) s2 = Done ''low_balance'' s2"
proof -
  let ?s2 = "limit_state\<lparr> ra_blocked := [(10, REASON_NO_BALANCE, 1060)] \<rparr>"
  have ids: "c_account_id (limit_call x) = 10" for x by (simp add: limit_call_def)
  have "new_block (radius_env False) (limit_call (-30)) limit_state = Some REASON_NO_BALANCE" by (rule limit_block)
  moreover have "\<forall>reason. new_block (radius_env False) (limit_call (-30)) limit_state = Some reason \<longrightarrow>
      analyzeCall (radius_env False) (limit_call 0) ?s2 = Done (block_answer reason) ?s2"
    by (rule conjunct2 [OF parallel_calls_held_back [OF limit_crossed, of ?s2 "limit_call 0" "radius_trunk False"]])
      (simp_all add: limit_state_facts ids)
  ultimately show ?thesis using limit_crossed limit_state_facts(6) by (auto simp: ids block_answer_def)
qed

section \<open>An automatic route\<close>

definition beta_trunk :: Trunk where
  "beta_trunk = sample_trunk\<lparr> tr_id := 3, tr_trunk_name := ''beta'' \<rparr>"

definition auto_repo :: Repo where
  "auto_repo = empty_repo\<lparr> rp_currentTime := 50, rp_server := [sample_server], rp_trunk := [beta_trunk],
     rp_serviceTrunk := [sample_service_trunk\<lparr> st_trunk_id := 3 \<rparr>],
     rp_serviceTrunkSettings := [sample_settings\<lparr> ss_trunk_id := 8 \<rparr>], rp_client := [sample_account],
     rp_pricelist := [sample_pricelist 1], rp_pricelistPrice := [sample_price ''7'' 120] \<rparr>"

definition auto_state :: RadiusState where
  "auto_state = radius_start\<lparr> ra_repo := auto_repo, ra_origTrunk := Some sample_trunk, ra_server := Some sample_server,
     ra_bNumber := ''7'' \<rparr>"

lemma auto_state_fields [simp]:
  "ra_repo auto_state = auto_repo" "ra_origTrunk auto_state = Some sample_trunk" "ra_server auto_state = Some sample_server"
  "ra_bNumber auto_state = ''7''" "ra_aNumber auto_state = []" "ra_account auto_state = None"
  "ra_data auto_state = sample_container" "rq_redirectNumber (ra_request auto_state) = []"
  by (simp_all add: auto_state_def radius_start_def RadiusAuthRequest_new_def)

lemma auto_services:
  "getAllServiceTrunk auto_repo i = (if i = 3 then [sample_service_trunk\<lparr> st_trunk_id := 3 \<rparr>] else [])"
  "getAllServiceTrunkSettings auto_repo 8 2 = [sample_settings\<lparr> ss_trunk_id := 8 \<rparr>]"
  "getAccount auto_repo 10 = Some sample_account" "getPricelist auto_repo 1 = Some (sample_pricelist 1)"
  by (simp_all add: getAllServiceTrunk_def ServiceTrunkList_findAll_filter sorted_by2_def auto_repo_def
      getAllServiceTrunkSettings_def ServiceTrunkSettingsList_findAll_def range_simps sample_service_trunk_def sample_settings_def
      getAccount_def clients.find_sorted sample_account_def getPricelist_def pricelists.find_sorted sample_pricelist_def)

lemma auto_price: "\<exists>p. repo_getPrice auto_repo 1 7 = Some p"
  using sample_number_price by (simp add: repo_getPrice_def auto_repo_def)

lemma auto_orders: "\<exists>ord. getTrunkSettingsOrderList auto_repo beta_trunk (atoll []) (atoll ''7'') 2 = Val [ord] \<and>
    o_trunk ord = Some beta_trunk \<and> complete_order ord"
proof -
  obtain p where p: "repo_getPrice auto_repo 1 7 = Some p" using auto_price by blast
  have seven: "atoll ''7'' = 7" by code_simp
  have "cl_account_version sample_account = 4" "st_client_account_id (sample_service_trunk\<lparr> st_trunk_id := 3 \<rparr>) = 10"
    "st_id (sample_service_trunk\<lparr> st_trunk_id := 3 \<rparr>) = 8" "tr_id beta_trunk = 3" "\<not> pl_local (sample_pricelist 1)"
    by (simp_all add: sample_account_def sample_service_trunk_def beta_trunk_def sample_pricelist_def)
  then show ?thesis
    by (simp add: getTrunkSettingsOrderList_def auto_services trunk_settings_offer_def Let_def seven
        checkTrunkSettingsOldPricelistConditions_def sample_settings_def p complete_order_def ServiceTrunkOrder_new_def)
qed

lemma auto_trunks:
  "getAllAutoRoutingTrunks auto_repo (server_id_of auto_state) (getSimblingRegion auto_repo (server_id_of auto_state)) = [beta_trunk]"
  by (simp add: getAllAutoRoutingTrunks_def findAllAutorouting_def auto_repo_def server_id_of_def beta_trunk_def sample_trunk_def
      sample_server_def)

lemma auto_allowed: "term_trunk_allowed False auto_state beta_trunk = Val True"
proof -
  have "getAllTrunkGroupRules auto_repo 3 = []" "getAllTrunkRules auto_repo 3 b = []" for b
    by (simp_all add: getAllTrunkGroupRules_def findTrunkGroupRules_def getAllTrunkRules_def TrunkRuleList_findAll_def
        auto_repo_def empty_repo_def range_simps)
  moreover have "tr_id beta_trunk = 3" "tr_id sample_trunk = 2" "tr_source_trunk_rule_default_allowed beta_trunk"
    "tr_source_rule_default_allowed beta_trunk" "tr_destination_rule_default_allowed beta_trunk"
    by (simp_all add: beta_trunk_def sample_trunk_def)
  ultimately show ?thesis
    by (simp add: term_trunk_allowed_def autoTrunkFilterSrcTrunk_def autoTrunkFilterSrcNumber_def autoTrunkFilterDstNumber_def
        rules_allow_def has_redirect_def)
qed

lemma auto_orig: "getAvailableOrigServiceTrunk auto_state = Val ServiceTrunkOrder_new"
  by (simp add: getAvailableOrigServiceTrunk_def getTrunkSettingsOrderList_def auto_services sample_trunk_def Let_def
      orderOrigTrunkSettingsOrderList_def std_sort_def)

lemma auto_offer: "term_order_offer auto_state ServiceTrunkOrder_new ord = Val (Some ord)"
  by (simp add: term_order_offer_def anti_fraud_declines_def margin_declines_def ServiceTrunkOrder_new_def sample_server_def)

lemma singleton_cleared:
  assumes "mset (map (\<lambda>d. d\<lparr> o_statsTrunkSettings := None \<rparr>) orders') = mset (map (\<lambda>d. d\<lparr> o_statsTrunkSettings := None \<rparr>) [ord])"
  obtains ord' where "orders' = [ord']" "o_trunk ord' = o_trunk ord" "complete_order ord' = complete_order ord"
proof -
  have "size (mset orders') = 1" using arg_cong [OF assms, of size] by simp
  then obtain ord' where o: "orders' = [ord']" by (cases orders') auto
  then have "ord'\<lparr> o_statsTrunkSettings := None \<rparr> = ord\<lparr> o_statsTrunkSettings := None \<rparr>" using assms by simp
  from arg_cong [OF this, of o_trunk] arg_cong [OF this, of complete_order] that [OF o] show thesis
    by (simp add: complete_order_def)
qed

lemma auto_routed: "\<exists>rate s'. processAutoOutcome False auto_state = Done rate s' \<and> rs_routeCase (ra_response s') = ''beta''"
proof -
  obtain ord where ord: "getTrunkSettingsOrderList auto_repo beta_trunk (atoll []) (atoll ''7'') 2 = Val [ord]"
    "o_trunk ord = Some beta_trunk" "complete_order ord" using auto_orders by blast
  have wf: "trunk_settings.wf (bd_statsTrunkSettings (ra_data auto_state))" using sample_container_ok by (simp add: bd_ok_def)
  have "\<forall>x \<in> set [ord]. complete_order x" using ord(3) by simp
  from order_offers_total [OF wf this, of False] obtain os1 s1 where s1: "order_offers False [ord] auto_state = Done os1 s1"
    "trunk_settings.wf (bd_statsTrunkSettings (ra_data s1))"
    "mset (map (\<lambda>d. d\<lparr> o_statsTrunkSettings := None \<rparr>) os1) = mset (map (\<lambda>d. d\<lparr> o_statsTrunkSettings := None \<rparr>) [ord])" by blast
  obtain o1 where o1: "os1 = [o1]" "o_trunk o1 = Some beta_trunk" "complete_order o1"
    using singleton_cleared [OF s1(3)] ord by metis
  obtain d where d: "s1 = auto_state\<lparr> ra_data := d \<rparr>" using order_offers_data [OF s1(1)] by blast
  have offers: "term_offers False False ServiceTrunkOrder_new [beta_trunk] auto_state = Done [o1] s1"
    by (simp add: auto_allowed ord(1) s1(1) o1(1)) (simp add: d auto_offer)
  have "getTrunkPriority auto_repo 3 = []"
    by (simp add: getTrunkPriority_def findAllTrunkPriority_def auto_repo_def empty_repo_def range_simps)
  then have prio: "set_priority s1 o1 = Val (Some (o1\<lparr> o_priority := 0 \<rparr>))"
    by (simp add: d set_priority_def o1(2) beta_trunk_def sample_trunk_def)
  have "\<forall>x \<in> set [o1\<lparr> o_priority := 0 \<rparr>]. complete_order x" using o1(3) by (simp add: complete_order_def)
  from order_offers_total [OF s1(2) this, of False] obtain os2 s2 where s2: "order_offers False [o1\<lparr> o_priority := 0 \<rparr>] s1 = Done os2 s2"
    "mset (map (\<lambda>d. d\<lparr> o_statsTrunkSettings := None \<rparr>) os2) = mset (map (\<lambda>d. d\<lparr> o_statsTrunkSettings := None \<rparr>) [o1\<lparr> o_priority := 0 \<rparr>])"
    by blast
  obtain o2 where o2: "os2 = [o2]" "o_trunk o2 = Some beta_trunk" using singleton_cleared [OF s2(2)] o1(2) by force
  have "tr_trunk_name beta_trunk = ''beta''" "\<not> tr_sw_minimalki sample_trunk" by (simp_all add: beta_trunk_def sample_trunk_def)
  then show ?thesis
    by (simp add: processAutoOutcome_def auto_orig getAvailableTermServiceTrunk_def auto_trunks offers prio s2(1) o2
        processAutoRouteResponse_def join_names_def setRouteCase_def Let_def del: term_offers.simps)
qed

theorem auto_route_sound_witness:
  "\<exists>rate s' ts. processAutoOutcome False auto_state = Done rate s' \<and> rs_routeCase (ra_response s') = ''beta'' \<and>
     (rs_routeCase (ra_response s') = join_names (map tr_trunk_name (ts :: Trunk list)) \<and> ts \<noteq> [] \<and> length ts \<le> 3 \<and> distinct (map tr_id ts) \<or>
      rs_releaseReason (ra_response s') = ''NO_ROUTE_TO_DESTINATION'')"
proof -
  obtain rate s' where p: "processAutoOutcome False auto_state = Done rate s'" "rs_routeCase (ra_response s') = ''beta''"
    using auto_routed by blast
  from auto_route_sound [OF p(1)] p show ?thesis by blast
qed

end
