(* ===== verification/Prefix_Tree.thy ===== *)
theory Prefix_Tree
  imports Repository "HOL-Library.Sublist"
begin

text \<open>
  \<^verbatim>\<open>src/src-bill/classes/nnp/PrefixNode.cpp\<close> and \<^verbatim>\<open>PrefixTree.cpp\<close>: a decimal trie that turns ranges of numbers
  into prefixes. The nodes lie in one vector and refer to each other by index; a child is an index, \<open>ALL\<close>
  (every number below) or \<open>NO\<close> (none). It is used by \<open>getPrefixByNNPDestination\<close> and \<open>getPrefixByFilter\<close> of
  \<^verbatim>\<open>Repository_npp.cpp\<close>.

  In \<open>block.at(i).set(k, alloc())\<close> the language leaves open whether \<open>alloc\<close> runs before the reference into the
  vector is taken. If it runs after and the vector has to grow, the reference is dangling. The parameter
  \<open>args_first\<close> of the operations is the choice of the compiler.
\<close>

section \<open>Nodes\<close>

record PrefixNode =
  pn_child :: "int list"
  pn_count :: nat

definition child_ALL :: int where "child_ALL = -1"

definition child_NO :: int where "child_NO = -2"

definition child_ERROR :: int where "child_ERROR = -3"

definition PrefixNode_new :: PrefixNode where
  "PrefixNode_new = \<lparr> pn_child = replicate 10 child_NO, pn_count = 0 \<rparr>"

definition pn_get :: "PrefixNode \<Rightarrow> nat \<Rightarrow> int" where
  "pn_get n i = (if i > 9 then child_ERROR else pn_child n ! i)"

text \<open>The count is an \<open>unsigned char\<close>.\<close>

definition pn_set :: "nat \<Rightarrow> int \<Rightarrow> PrefixNode \<Rightarrow> PrefixNode" where
  "pn_set i what n =
     (if i > 9 then n
      else if what \<ge> 0 then
        (if pn_child n ! i \<noteq> child_ALL then n\<lparr> pn_child := (pn_child n)[i := what] \<rparr> else n)
      else if what = child_ALL then
        n\<lparr> pn_child := (pn_child n)[i := child_ALL],
           pn_count := (if pn_child n ! i \<noteq> child_ALL then (pn_count n + 1) mod 256 else pn_count n) \<rparr>
      else if what = child_NO then
        n\<lparr> pn_child := (pn_child n)[i := child_NO],
           pn_count := (if pn_child n ! i = child_ALL then (pn_count n + 255) mod 256 else pn_count n) \<rparr>
      else n)"

definition pn_setAll :: "PrefixNode \<Rightarrow> PrefixNode" where
  "pn_setAll n = \<lparr> pn_child = replicate 10 child_ALL, pn_count = 10 \<rparr>"

section \<open>The vector of nodes\<close>

record PrefixTree =
  pt_blockSize :: nat
  pt_current :: nat
  pt_master :: nat
  pt_block :: "PrefixNode list"

definition alloc :: "PrefixTree \<Rightarrow> nat \<times> PrefixTree" where
  "alloc t =
     (let t1 = (if pt_current t = length (pt_block t)
                then t\<lparr> pt_block := pt_block t @ replicate (pt_blockSize t) PrefixNode_new \<rparr> else t)
      in (pt_current t1, t1\<lparr> pt_current := pt_current t1 + 1 \<rparr>))"

definition PrefixTree_new :: "nat \<Rightarrow> PrefixTree" where
  "PrefixTree_new storage_size =
     (case alloc \<lparr> pt_blockSize = storage_size, pt_current = 0, pt_master = 0,
                   pt_block = replicate storage_size PrefixNode_new \<rparr> of
        (m, t) \<Rightarrow> t\<lparr> pt_master := m \<rparr>)"

text \<open>\<open>block.at(i)\<close> throws outside the vector; an index below zero is a huge \<open>size_t\<close>.\<close>

definition node_at :: "PrefixTree \<Rightarrow> int \<Rightarrow> PrefixNode exc" where
  "node_at t i = (if 0 \<le> i \<and> nat i < length (pt_block t) then Val (pt_block t ! nat i) else Exc ''out_of_range'')"

definition tree_get :: "PrefixTree \<Rightarrow> int \<Rightarrow> nat \<Rightarrow> int exc" where
  "tree_get t i k = bind_exc (node_at t i) (\<lambda>n. Val (pn_get n k))"

definition tree_set :: "int \<Rightarrow> nat \<Rightarrow> int \<Rightarrow> PrefixTree \<Rightarrow> PrefixTree exc" where
  "tree_set i k what t =
     bind_exc (node_at t i) (\<lambda>n. Val (t\<lparr> pt_block := (pt_block t)[nat i := pn_set k what n] \<rparr>))"

definition tree_count :: "PrefixTree \<Rightarrow> int \<Rightarrow> nat exc" where
  "tree_count t i = bind_exc (node_at t i) (\<lambda>n. Val (pn_count n))"

definition set_alloc :: "bool \<Rightarrow> int \<Rightarrow> nat \<Rightarrow> PrefixTree \<Rightarrow> PrefixTree exc" where
  "set_alloc args_first i k t =
     (if \<not> args_first \<and> pt_current t = length (pt_block t) then Undef
      else (case alloc t of (c, t1) \<Rightarrow> tree_set i k (int c) t1))"

text \<open>The character a pointer into a text points to, and the conversion of an index to \<open>unsigned char\<close>.\<close>

definition char_at :: "string \<Rightarrow> int" where
  "char_at s = (case s of [] \<Rightarrow> 0 | c # _ \<Rightarrow> of_char c)"

definition slot :: "int \<Rightarrow> nat" where
  "slot j = nat ((j - 48) mod 256)"

fun set_slots :: "int \<Rightarrow> int list \<Rightarrow> PrefixTree \<Rightarrow> PrefixTree exc" where
  "set_slots i [] t = Val t"
| "set_slots i (j # js) t = bind_exc (tree_set i (slot j) child_ALL t) (set_slots i js)"

section \<open>Adding a range\<close>

text \<open>One level down: a missing child is allocated first, a child whose ten children are all set becomes
  \<open>ALL\<close>. The first argument works on the child; it is not called for a child that is \<open>ALL\<close>.\<close>

definition into_child :: "(int \<Rightarrow> PrefixTree \<Rightarrow> (nat \<times> PrefixTree) exc) \<Rightarrow> int \<Rightarrow> nat \<Rightarrow> PrefixTree \<Rightarrow> PrefixTree exc" where
  "into_child f i k t =
     bind_exc (tree_get t i k) (\<lambda>c. bind_exc (f c t) (\<lambda>(res, t1).
       if res = 10 then tree_set i k child_ALL t1 else Val t1))"

definition descend :: "bool \<Rightarrow> (int \<Rightarrow> PrefixTree \<Rightarrow> (nat \<times> PrefixTree) exc) \<Rightarrow> int \<Rightarrow> nat \<Rightarrow> PrefixTree \<Rightarrow> PrefixTree exc" where
  "descend args_first f i k t =
     bind_exc (tree_get t i k) (\<lambda>v.
       bind_exc (if v = child_NO then set_alloc args_first i k t else Val t) (\<lambda>t1.
         bind_exc (tree_get t1 i k) (\<lambda>c. if c \<ge> 0 then into_child f i k t1 else Val t1)))"

definition with_count :: "int \<Rightarrow> PrefixTree \<Rightarrow> (nat \<times> PrefixTree) exc" where
  "with_count i t = bind_exc (tree_count t i) (\<lambda>n. Val (n, t))"

fun rangeUp :: "bool \<Rightarrow> string \<Rightarrow> int \<Rightarrow> PrefixTree \<Rightarrow> (nat \<times> PrefixTree) exc" where
  "rangeUp args_first [] i t = Undef"
| "rangeUp args_first (c # cs) i t =
     bind_exc (if cs = [] then tree_set i (slot (of_char c)) child_ALL t
               else descend args_first (rangeUp args_first cs) i (slot (of_char c)) t) (\<lambda>t1.
       bind_exc (set_slots i [of_char c + 1 .. 57] t1) (with_count i))"

fun rangeDown :: "bool \<Rightarrow> string \<Rightarrow> int \<Rightarrow> PrefixTree \<Rightarrow> (nat \<times> PrefixTree) exc" where
  "rangeDown args_first [] i t = Undef"
| "rangeDown args_first (c # cs) i t =
     bind_exc (if cs = [] then tree_set i (slot (of_char c)) child_ALL t
               else descend args_first (rangeDown args_first cs) i (slot (of_char c)) t) (\<lambda>t1.
       bind_exc (set_slots i (rev [48 .. of_char c - 1]) t1) (with_count i))"

text \<open>\<open>addRange(high, low, i)\<close>. The text \<open>high\<close> is not empty; \<open>low\<close> may have ended before it.\<close>

fun addRange :: "bool \<Rightarrow> string \<Rightarrow> string \<Rightarrow> int \<Rightarrow> PrefixTree \<Rightarrow> (nat \<times> PrefixTree) exc" where
  "addRange args_first [] low i t = Undef"
| "addRange args_first (h # hs) low i t =
     (let num = slot (of_char h) in
      if of_char h = char_at low then
        bind_exc (tree_get t i num) (\<lambda>v.
          bind_exc
            (if v = child_ALL then Val t
             else if hs = [] then tree_set i num child_ALL t
             else bind_exc (if v = child_NO then set_alloc args_first i num t else Val t)
                    (into_child (addRange args_first hs (tl low)) i num))
            (with_count i))
      else
        bind_exc (set_slots i [char_at low + 1 .. of_char h - 1] t) (\<lambda>t1.
          bind_exc
            (if hs = [] then
               bind_exc (tree_set i num child_ALL t1) (tree_set i (slot (char_at low)) child_ALL)
             else
               bind_exc (descend args_first (rangeDown args_first hs) i num t1)
                 (descend args_first (rangeUp args_first (tl low)) i (slot (char_at low))))
            (with_count i)))"

definition addRange_pair :: "bool \<Rightarrow> int \<times> int \<Rightarrow> PrefixTree \<Rightarrow> PrefixTree exc" where
  "addRange_pair args_first pair t =
     bind_exc (addRange args_first (lld (snd pair)) (lld (fst pair)) (int (pt_master t)) t) (\<lambda>(n, t1). Val t1)"

section \<open>Asking and printing\<close>

fun checkInclusion :: "string \<Rightarrow> int \<Rightarrow> PrefixTree \<Rightarrow> bool exc" where
  "checkInclusion [] i t = Undef"
| "checkInclusion (c # cs) i t =
     bind_exc (tree_get t i (slot (of_char c))) (\<lambda>v.
       if v = child_NO then Val False
       else if v = child_ALL then Val True
       else if cs = [] then Val False
       else checkInclusion cs v t)"

text \<open>\<open>print\<close>: the argument \<open>array\<close> is what stands before \<open>pos\<close>. The first argument bounds the depth of the
  recursion.\<close>

fun print_tree :: "nat \<Rightarrow> string \<Rightarrow> int \<Rightarrow> PrefixTree \<Rightarrow> int list exc" where
  "print_tree 0 array i t = Undef"
| "print_tree (Suc depth) array i t =
     foldl (\<lambda>storage j.
       bind_exc storage (\<lambda>s. bind_exc (tree_get t i j) (\<lambda>v.
         if v = child_NO then Val s
         else if v = child_ALL then Val (s @ [atoll (array @ [digit_char j])])
         else if v \<ge> 0 then bind_exc (print_tree depth (array @ [digit_char j]) v t) (\<lambda>below. Val (s @ below))
         else Val s))) (Val []) [0..<10]"

section \<open>Joining and taking away\<close>

fun addNode :: "nat \<Rightarrow> bool \<Rightarrow> PrefixTree \<Rightarrow> int \<Rightarrow> int \<Rightarrow> PrefixTree \<Rightarrow> (nat \<times> PrefixTree) exc" where
  "addNode 0 args_first tree input output t = Undef"
| "addNode (Suc depth) args_first tree input output t =
     bind_exc (foldl (\<lambda>m i. bind_exc m (\<lambda>t. bind_exc (tree_get t output i) (\<lambda>v.
         if v = child_ALL then Val t
         else bind_exc (tree_get tree input i) (\<lambda>w.
           if w = child_ALL then tree_set output i child_ALL t
           else if w \<noteq> child_NO then
             bind_exc (if v = child_NO then set_alloc args_first output i t else Val t)
               (into_child (\<lambda>c. addNode depth args_first tree w c) output i)
           else Val t)))) (Val t) [0..<10])
       (with_count output)"

definition addTree :: "nat \<Rightarrow> bool \<Rightarrow> PrefixTree \<Rightarrow> PrefixTree \<Rightarrow> PrefixTree exc" where
  "addTree depth args_first tree t = bind_exc (addNode depth args_first tree 0 0 t) (\<lambda>(n, t1). Val t1)"

fun subNode :: "nat \<Rightarrow> bool \<Rightarrow> PrefixTree \<Rightarrow> int \<Rightarrow> int \<Rightarrow> PrefixTree \<Rightarrow> (nat \<times> PrefixTree) exc" where
  "subNode 0 args_first tree input output t = Undef"
| "subNode (Suc depth) args_first tree input output t =
     bind_exc (foldl (\<lambda>m i. bind_exc m (\<lambda>t. bind_exc (tree_get t output i) (\<lambda>v.
         if v = child_NO then Val t
         else bind_exc (tree_get tree input i) (\<lambda>w.
           if w = child_ALL then tree_set output i child_NO t
           else if w \<noteq> child_NO then
             bind_exc
               (if v = child_ALL then
                  bind_exc (tree_set output i child_NO t) (\<lambda>t1.
                    bind_exc (set_alloc args_first output i t1) (\<lambda>t2.
                      bind_exc (tree_get t2 output i) (\<lambda>c. bind_exc (node_at t2 c) (\<lambda>n.
                        Val (t2\<lparr> pt_block := (pt_block t2)[nat c := pn_setAll n] \<rparr>)))))
                else Val t) (\<lambda>t3.
               bind_exc (tree_get t3 output i) (\<lambda>c.
                 bind_exc (subNode depth args_first tree w c t3) (\<lambda>(res, t4).
                   if res = 0 then tree_set output i child_NO t4 else Val t4)))
           else Val t)))) (Val t) [0..<10])
       (with_count output)"

definition subTree :: "nat \<Rightarrow> bool \<Rightarrow> PrefixTree \<Rightarrow> PrefixTree \<Rightarrow> PrefixTree exc" where
  "subTree depth args_first tree t = bind_exc (subNode depth args_first tree 0 0 t) (\<lambda>(n, t1). Val t1)"

section \<open>From ranges to prefixes\<close>

text \<open>The text \<open>print\<close> writes to has 32 characters, which bounds the depth.\<close>

definition range_pair :: "NNPNumberRange \<Rightarrow> int \<times> int" where
  "range_pair r = (nr_full_number_from r, nr_full_number_to r)"

definition add_ranges :: "bool \<Rightarrow> NNPNumberRange list \<Rightarrow> PrefixTree \<Rightarrow> PrefixTree exc" where
  "add_ranges args_first rs t = foldl (\<lambda>m r. bind_exc m (addRange_pair args_first (range_pair r))) (Val t) rs"

definition ranges_of_prefixes :: "Repo \<Rightarrow> int list \<Rightarrow> NNPNumberRange list" where
  "ranges_of_prefixes r ids =
     List.map_filter (getNNPNumberRangeById (rp_nnpNumberRange r))
       (concat (map (getNumberRangesByNNPPrefix (rp_nnpNumberRangePrefix r)) ids))"

definition getPrefixByNNPDestination :: "bool \<Rightarrow> Repo \<Rightarrow> int \<Rightarrow> int list exc" where
  "getPrefixByNNPDestination args_first r destinationId =
     (case getPrefixsByNNPDestination (rp_nnpPrefixDestination r) destinationId of (prefixPlus, prefixMinus) \<Rightarrow>
        bind_exc (add_ranges args_first (ranges_of_prefixes r prefixPlus) (PrefixTree_new 10000)) (\<lambda>plusTree.
          bind_exc (add_ranges args_first (ranges_of_prefixes r prefixMinus) (PrefixTree_new 10000)) (\<lambda>minusTree.
            bind_exc (subTree 31 args_first minusTree plusTree) (print_tree 31 [] 0))))"

record RangeFilter =
  rf_country_code :: int
  rf_operator_list :: "int list"
  rf_oper_excluded :: bool
  rf_region_id :: int
  rf_city_id :: int
  rf_ndc_type_id :: int

definition range_selected :: "RangeFilter \<Rightarrow> NNPNumberRange \<Rightarrow> bool" where
  "range_selected f r \<longleftrightarrow>
     (rf_country_code f = 0 \<or> nr_country_code r = rf_country_code f) \<and>
     (rf_operator_list f = [] \<or>
        (if nr_nnp_operator_id r \<in> set (rf_operator_list f) then \<not> rf_oper_excluded f else rf_oper_excluded f)) \<and>
     (rf_region_id f = 0 \<or> nr_nnp_region_id r = rf_region_id f) \<and>
     (rf_city_id f = 0 \<or> nr_nnp_city_id r = rf_city_id f) \<and>
     (rf_ndc_type_id f = 0 \<or> nr_ndc_type_id r = rf_ndc_type_id f)"

definition getPrefixByFilter :: "bool \<Rightarrow> Repo \<Rightarrow> RangeFilter \<Rightarrow> int list exc" where
  "getPrefixByFilter args_first r f =
     bind_exc (add_ranges args_first (filter (range_selected f) (rp_nnpNumberRange r)) (PrefixTree_new 100))
       (print_tree 31 [] 0)"

end
