(* ===== verification/Prefix_Tree_Ranges.thy ===== *)
theory Prefix_Tree_Ranges
  imports Prefix_Tree
begin

text \<open>
  What the decimal trie of \<open>Prefix_Tree\<close> holds after ranges were added. The nodes share one vector, so an
  operation on one child could disturb another: every node is given the digits that lead to it (\<open>tree_ok\<close>), an
  operation below a node writes only nodes whose digits extend those of that node (\<open>grows\<close>), and what a child
  holds depends on nodes below it only.
\<close>

section \<open>Digits\<close>

definition digits :: "string \<Rightarrow> bool" where
  "digits x \<longleftrightarrow> (\<forall>c \<in> set x. is_digit c)"

lemma digits_simps [simp]: "digits []" "digits (c # x) \<longleftrightarrow> is_digit c \<and> digits x"
  by (simp_all add: digits_def)

lemma of_char_digit: "is_digit c \<Longrightarrow> (of_char c :: int) = 48 + int (digit_val c)"
  by (auto simp: is_digit_def digit_val_def)

lemma slot_digit: "is_digit c \<Longrightarrow> slot (of_char c) = digit_val c"
  using digit_val_le [of c] by (simp add: slot_def of_char_digit)

lemma slot_nat: "d \<le> 9 \<Longrightarrow> slot (48 + int d) = d"
  by (simp add: slot_def)

lemma digit_val_eq: "is_digit c \<Longrightarrow> is_digit e \<Longrightarrow> digit_val c = digit_val e \<longleftrightarrow> c = e"
  by (auto simp: is_digit_def digit_val_def)

lemma digit_val_less: "is_digit c \<Longrightarrow> is_digit e \<Longrightarrow> digit_val c < digit_val e \<longleftrightarrow> c < e"
  by (auto simp: is_digit_def digit_val_def less_char_def)

section \<open>Nodes\<close>

lemma child_marks [simp]:
  "child_ALL \<noteq> child_NO" "child_NO \<noteq> child_ALL" "int c \<noteq> child_ALL" "int c \<noteq> child_NO" "child_ALL \<noteq> int c" "child_NO \<noteq> int c"
  "\<not> 0 \<le> child_ALL" "\<not> 0 \<le> child_NO" "0 \<noteq> child_ALL" "child_ALL \<noteq> 0"
  by (simp_all add: child_ALL_def child_NO_def)

definition node_ok :: "PrefixNode \<Rightarrow> bool" where
  "node_ok n \<longleftrightarrow> length (pn_child n) = 10 \<and> pn_count n = card {d. d < 10 \<and> pn_child n ! d = child_ALL}"

lemma node_ok_new [simp]: "node_ok PrefixNode_new"
proof -
  have "{d. d < (10::nat) \<and> replicate 10 child_NO ! d = child_ALL} = {}" by (auto simp: child_ALL_def child_NO_def)
  then show ?thesis by (simp add: node_ok_def PrefixNode_new_def)
qed

lemma node_full:
  assumes "node_ok n" and "pn_count n = 10" and "d < 10"
  shows "pn_child n ! d = child_ALL"
proof -
  have "{d. d < 10 \<and> pn_child n ! d = child_ALL} = {0..<10::nat}"
    by (rule card_subset_eq) (use assms in \<open>auto simp: node_ok_def\<close>)
  with assms(3) show ?thesis by (auto simp: set_eq_iff)
qed

lemma node_count_le: "node_ok n \<Longrightarrow> pn_count n \<le> 10"
  using card_mono [of "{0..<10::nat}" "{d. d < 10 \<and> pn_child n ! d = child_ALL}"]
  by (fastforce simp: node_ok_def)

lemma pn_set_ALL:
  assumes "node_ok n" and "k \<le> 9"
  shows "node_ok (pn_set k child_ALL n)" and "pn_child (pn_set k child_ALL n) = (pn_child n)[k := child_ALL]"
proof -
  have l: "length (pn_child n) = 10" and c: "pn_count n = card {d. d < 10 \<and> pn_child n ! d = child_ALL}"
    using assms(1) by (auto simp: node_ok_def)
  show "pn_child (pn_set k child_ALL n) = (pn_child n)[k := child_ALL]"
    using assms(2) by (simp add: pn_set_def child_ALL_def)
  have s: "{d. d < 10 \<and> (pn_child n)[k := child_ALL] ! d = child_ALL} = insert k {d. d < 10 \<and> pn_child n ! d = child_ALL}"
    using l assms(2) by (auto simp: nth_list_update)
  show "node_ok (pn_set k child_ALL n)"
  proof (cases "pn_child n ! k = child_ALL")
    case True
    then have "insert k {d. d < 10 \<and> pn_child n ! d = child_ALL} = {d. d < 10 \<and> pn_child n ! d = child_ALL}"
      using assms(2) by auto
    with True show ?thesis using assms(2) l c s by (simp add: node_ok_def pn_set_def child_ALL_def)
  next
    case False
    then have "card (insert k {d. d < 10 \<and> pn_child n ! d = child_ALL}) = pn_count n + 1" by (simp add: c)
    with False show ?thesis using assms(2) l s node_count_le [OF assms(1)]
      by (simp add: node_ok_def pn_set_def child_ALL_def)
  qed
qed

lemma pn_set_index:
  assumes "node_ok n" and "k \<le> 9" and "pn_child n ! k = child_NO"
  shows "node_ok (pn_set k (int c) n)" and "pn_child (pn_set k (int c) n) = (pn_child n)[k := int c]"
proof -
  have l: "length (pn_child n) = 10" and c: "pn_count n = card {d. d < 10 \<and> pn_child n ! d = child_ALL}"
    using assms(1) by (auto simp: node_ok_def)
  show ch: "pn_child (pn_set k (int c) n) = (pn_child n)[k := int c]"
    using assms(2,3) by (simp add: pn_set_def child_ALL_def child_NO_def)
  have "{d. d < 10 \<and> (pn_child n)[k := int c] ! d = child_ALL} = {d. d < 10 \<and> pn_child n ! d = child_ALL}"
    using l assms(2,3) by (auto simp: nth_list_update child_ALL_def child_NO_def)
  moreover have "pn_count (pn_set k (int c) n) = pn_count n"
    using assms(2,3) by (simp add: pn_set_def child_ALL_def child_NO_def)
  ultimately show "node_ok (pn_set k (int c) n)" using l c by (simp add: node_ok_def ch)
qed

section \<open>The vector\<close>

abbreviation kid :: "PrefixTree \<Rightarrow> nat \<Rightarrow> nat \<Rightarrow> int" where
  "kid t i d \<equiv> pn_child (pt_block t ! i) ! d"

definition tree_ok :: "PrefixTree \<Rightarrow> (nat \<Rightarrow> nat list) \<Rightarrow> bool" where
  "tree_ok t p \<longleftrightarrow>
     0 < pt_blockSize t \<and> 0 < pt_current t \<and> pt_current t \<le> length (pt_block t) \<and>
     (\<forall>i < length (pt_block t). node_ok (pt_block t ! i)) \<and>
     (\<forall>i < length (pt_block t). pt_current t \<le> i \<longrightarrow> pt_block t ! i = PrefixNode_new) \<and>
     (\<forall>i < pt_current t. \<forall>d < 10. kid t i d = child_ALL \<or> kid t i d = child_NO \<or>
        (0 \<le> kid t i d \<and> nat (kid t i d) < pt_current t \<and> p (nat (kid t i d)) = p i @ [d]))"

lemma tree_okD:
  assumes "tree_ok t p"
  shows "0 < pt_blockSize t" "0 < pt_current t" "pt_current t \<le> length (pt_block t)"
    "i < length (pt_block t) \<Longrightarrow> node_ok (pt_block t ! i)"
    "i < length (pt_block t) \<Longrightarrow> pt_current t \<le> i \<Longrightarrow> pt_block t ! i = PrefixNode_new"
  using assms by (auto simp: tree_ok_def)

lemma kid_cases:
  assumes "tree_ok t p" and "i < pt_current t" and "d < 10"
  obtains (all) "kid t i d = child_ALL" | (none) "kid t i d = child_NO"
  | (node) c where "kid t i d = int c" "c < pt_current t" "p c = p i @ [d]"
proof -
  have "kid t i d = child_ALL \<or> kid t i d = child_NO \<or>
      (0 \<le> kid t i d \<and> nat (kid t i d) < pt_current t \<and> p (nat (kid t i d)) = p i @ [d])"
    using assms by (simp add: tree_ok_def)
  moreover have thesis if "0 \<le> kid t i d" "nat (kid t i d) < pt_current t" "p (nat (kid t i d)) = p i @ [d]"
    using node [of "nat (kid t i d)"] that by simp
  ultimately show thesis using all none by blast
qed

lemma node_at_ok: "tree_ok t p \<Longrightarrow> i < pt_current t \<Longrightarrow> node_at t (int i) = Val (pt_block t ! i)"
  by (auto simp: node_at_def tree_ok_def)

lemma tree_get_ok: "tree_ok t p \<Longrightarrow> i < pt_current t \<Longrightarrow> k \<le> 9 \<Longrightarrow> tree_get t (int i) k = Val (kid t i k)"
  by (simp add: tree_get_def node_at_ok pn_get_def)

lemma with_count_ok: "tree_ok t p \<Longrightarrow> i < pt_current t \<Longrightarrow> with_count (int i) t = Val (pn_count (pt_block t ! i), t)"
  by (simp add: with_count_def tree_count_def node_at_ok)

subsection \<open>What a child holds\<close>

fun holds :: "PrefixTree \<Rightarrow> int \<Rightarrow> string \<Rightarrow> bool" where
  "holds t c [] \<longleftrightarrow> c = child_ALL"
| "holds t c (y # ys) \<longleftrightarrow> c = child_ALL \<or> (0 \<le> c \<and> holds t (kid t (nat c) (digit_val y)) ys)"

lemma holds_ALL [simp]: "holds t child_ALL x" and holds_NO [simp]: "\<not> holds t child_NO x"
  by (cases x; simp add: child_ALL_def child_NO_def)+

lemma holds_node [simp]: "holds t (int i) (y # ys) \<longleftrightarrow> holds t (kid t i (digit_val y)) ys"
  by (simp add: child_ALL_def)

lemma holds_empty [simp]: "\<not> holds t (int i) []"
  by (simp add: child_ALL_def)

lemma checkInclusion_holds:
  assumes "tree_ok t p" and "i < pt_current t" and "digits x" and "x \<noteq> []"
  shows "checkInclusion x (int i) t = Val (holds t (int i) x)"
  using assms(2-4)
proof (induction x arbitrary: i)
  case (Cons c cs)
  have c: "is_digit c" "digit_val c \<le> 9" using Cons.prems(2) by (auto simp: digit_val_le)
  have g: "tree_get t (int i) (slot (of_char c)) = Val (kid t i (digit_val c))"
    using tree_get_ok [OF assms(1) Cons.prems(1)] c by (simp add: slot_digit)
  show ?case
  proof (rule kid_cases [OF assms(1) Cons.prems(1), of "digit_val c"])
    fix j assume j: "kid t i (digit_val c) = int j" "j < pt_current t" "p j = p i @ [digit_val c]"
    show ?thesis
    proof (cases "cs = []")
      case False
      then show ?thesis using Cons.IH [OF j(2)] Cons.prems j g by simp
    qed (use j g in simp)
  qed (use c g in simp_all)
qed simp

lemma holds_frame:
  assumes "tree_ok t p" and "c < pt_current t" and "digits x"
    and "\<And>j. j < pt_current t \<Longrightarrow> prefix (p c) (p j) \<Longrightarrow> pt_block t' ! j = pt_block t ! j"
  shows "holds t' (int c) x = holds t (int c) x"
  using assms(2-4)
proof (induction x arbitrary: c)
  case (Cons y ys)
  have y: "digit_val y < 10" using Cons.prems(2) digit_val_le [of y] by simp
  have b: "pt_block t' ! c = pt_block t ! c" using Cons.prems(1,3) by simp
  show ?case
  proof (rule kid_cases [OF assms(1) Cons.prems(1) y])
    fix e assume e: "kid t c (digit_val y) = int e" "e < pt_current t" "p e = p c @ [digit_val y]"
    have "holds t' (int e) ys = holds t (int e) ys"
    proof (rule Cons.IH [OF e(2)])
      show "digits ys" using Cons.prems(2) by simp
      fix j assume "j < pt_current t" "prefix (p e) (p j)"
      then show "pt_block t' ! j = pt_block t ! j"
        using Cons.prems(3) [of j] by (auto simp: e(3) dest: append_prefixD)
    qed
    then show ?thesis by (simp add: b e(1))
  qed (simp_all add: b)
qed simp

section \<open>Growth below a node\<close>

definition grows :: "nat \<Rightarrow> nat \<Rightarrow> (string \<Rightarrow> bool) \<Rightarrow> nat \<Rightarrow> PrefixTree \<Rightarrow> (nat \<Rightarrow> nat list) \<Rightarrow>
    PrefixTree \<Rightarrow> (nat \<Rightarrow> nat list) \<Rightarrow> bool" where
  "grows m a R i t p t' p' \<longleftrightarrow>
     tree_ok t' p' \<and> pt_blockSize t' = pt_blockSize t \<and> pt_master t' = pt_master t \<and>
     length (pt_block t) \<le> length (pt_block t') \<and>
     pt_current t \<le> pt_current t' \<and> pt_current t' \<le> pt_current t + a \<and>
     (\<forall>j < pt_current t. p' j = p j \<and> (\<not> prefix (p i) (p j) \<longrightarrow> pt_block t' ! j = pt_block t ! j)) \<and>
     (\<forall>j. pt_current t \<le> j \<and> j < pt_current t' \<longrightarrow> length (p' j) < length (p i) + m) \<and>
     (\<forall>x. digits x \<and> m \<le> length x \<longrightarrow> holds t' (int i) x = (holds t (int i) x \<or> R x))"

lemma growsD:
  assumes "grows m a R i t p t' p'"
  shows "tree_ok t' p'" "pt_current t \<le> pt_current t'" "j < pt_current t \<Longrightarrow> p' j = p j"
    "j < pt_current t \<Longrightarrow> \<not> prefix (p i) (p j) \<Longrightarrow> pt_block t' ! j = pt_block t ! j"
    "digits x \<Longrightarrow> m \<le> length x \<Longrightarrow> holds t' (int i) x = (holds t (int i) x \<or> R x)"
    "pt_current t \<le> j \<Longrightarrow> j < pt_current t' \<Longrightarrow> length (p' j) < length (p i) + m"
  using assms by (auto simp: grows_def)

lemma grows_weaken:
  assumes "grows m a R i t p t' p'" and "m \<le> m'" and "a \<le> a'"
    and "\<And>x. digits x \<Longrightarrow> m' \<le> length x \<Longrightarrow> holds t (int i) x \<or> R x \<longleftrightarrow> holds t (int i) x \<or> S x"
  shows "grows m' a' S i t p t' p'"
proof -
  have "holds t' (int i) x = (holds t (int i) x \<or> S x)" if "digits x" "m' \<le> length x" for x
    using growsD(5) [OF assms(1) that(1)] assms(2) that(2) assms(4) [OF that] by simp
  moreover have "pt_current t' \<le> pt_current t + a'" using assms(1,3) by (simp add: grows_def)
  moreover have "length (p' j) < length (p i) + m'" if "pt_current t \<le> j" "j < pt_current t'" for j
    using growsD(6) [OF assms(1) that] assms(2) by simp
  ultimately show ?thesis using assms(1) by (simp add: grows_def)
qed

lemma grows_refl: "tree_ok t p \<Longrightarrow> grows m a (\<lambda>x. False) i t p t p"
  by (simp add: grows_def)

lemma grows_trans:
  assumes "grows m a R i t p t1 p1" and "grows m b S i t1 p1 t2 p2" and "i < pt_current t"
  shows "grows m (a + b) (\<lambda>x. R x \<or> S x) i t p t2 p2"
proof -
  have i: "p1 i = p i" using assms(1,3) by (simp add: grows_def)
  have "length (p2 j) < length (p i) + m" if "pt_current t \<le> j" "j < pt_current t2" for j
    using growsD(6) [OF assms(1) that(1)] growsD(6) [OF assms(2) _ that(2)] growsD(3) [OF assms(2), of j]
    by (cases "j < pt_current t1") (auto simp: i)
  then show ?thesis using assms(1,2) i unfolding grows_def by auto
qed

text \<open>Room for \<open>a\<close> more nodes, when the vector may not grow.\<close>

definition room :: "bool \<Rightarrow> nat \<Rightarrow> PrefixTree \<Rightarrow> bool" where
  "room args_first a t \<longleftrightarrow> args_first \<or> pt_current t + a \<le> length (pt_block t)"

lemma room_grows: "room af (a + b) t \<Longrightarrow> grows m a R i t p t' p' \<Longrightarrow> room af b t'"
  by (auto simp: room_def grows_def)

lemma room_mono: "room af b t \<Longrightarrow> a \<le> b \<Longrightarrow> room af a t"
  by (auto simp: room_def)

definition works :: "bool \<Rightarrow> nat \<Rightarrow> nat \<Rightarrow> (string \<Rightarrow> bool) \<Rightarrow> (int \<Rightarrow> PrefixTree \<Rightarrow> (nat \<times> PrefixTree) exc) \<Rightarrow> bool" where
  "works af m a R f \<longleftrightarrow>
     (\<forall>t p i. tree_ok t p \<and> i < pt_current t \<and> room af a t \<longrightarrow>
        (\<exists>t' p'. f (int i) t = Val (pn_count (pt_block t' ! i), t') \<and> grows m a R i t p t' p'))"

subsection \<open>Setting children\<close>

lemma path_not_below: "\<not> prefix (ds @ [d]) ds"
  by (simp add: prefix_def)

lemma tree_set_ALL:
  assumes "tree_ok t p" and "i < pt_current t" and "k \<le> 9"
  obtains t' where "tree_set (int i) k child_ALL t = Val t'" and "grows 1 0 (\<lambda>x. digit_val (hd x) = k) i t p t' p"
proof
  let ?t = "t\<lparr> pt_block := (pt_block t)[i := pn_set k child_ALL (pt_block t ! i)] \<rparr>"
  have l: "i < length (pt_block t)" and ok: "node_ok (pt_block t ! i)" using assms by (auto simp: tree_ok_def)
  show "tree_set (int i) k child_ALL t = Val ?t" using assms by (simp add: tree_set_def node_at_ok)
  have kid: "kid ?t j d = (if j = i \<and> d = k then child_ALL else kid t j d)" if "d < 10" for j d
    using l ok assms(3) that pn_set_ALL [OF ok assms(3)] by (auto simp: nth_list_update node_ok_def)
  have ok': "tree_ok ?t p"
    unfolding tree_ok_def
  proof (intro conjI allI impI)
    fix j assume "j < length (pt_block ?t)"
    then show "node_ok (pt_block ?t ! j)"
      using pn_set_ALL(1) [OF ok assms(3)] tree_okD(4) [OF assms(1), of j] by (cases "j = i") auto
  next
    fix j assume "j < length (pt_block ?t)" "pt_current ?t \<le> j"
    then show "pt_block ?t ! j = PrefixNode_new" using tree_okD(5) [OF assms(1), of j] assms(2) by auto
  next
    fix j d assume j: "j < pt_current ?t" "d < (10::nat)"
    then have "j < pt_current t" by simp
    then show "kid ?t j d = child_ALL \<or> kid ?t j d = child_NO \<or>
      (0 \<le> kid ?t j d \<and> nat (kid ?t j d) < pt_current ?t \<and> p (nat (kid ?t j d)) = p j @ [d])"
      unfolding kid [OF j(2)] by (rule kid_cases [OF assms(1) _ j(2)]) auto
  qed (use tree_okD(1-3) [OF assms(1)] in auto)
  have "holds ?t (int i) x = (holds t (int i) x \<or> digit_val (hd x) = k)" if "digits x" "1 \<le> length x" for x
  proof -
    obtain y ys where x: "x = y # ys" using \<open>1 \<le> length x\<close> by (cases x) auto
    have y: "digit_val y < 10" "digits ys" using \<open>digits x\<close> digit_val_le [of y] by (auto simp: x)
    have "holds ?t (kid t i (digit_val y)) ys = holds t (kid t i (digit_val y)) ys"
    proof (rule kid_cases [OF assms(1,2) y(1)])
      fix c assume c: "kid t i (digit_val y) = int c" "c < pt_current t" "p c = p i @ [digit_val y]"
      have "pt_block ?t ! j = pt_block t ! j" if "prefix (p c) (p j)" for j
        using that by (cases "j = i") (auto simp: c(3) path_not_below)
      then show ?thesis using holds_frame [OF assms(1) c(2) y(2), of ?t] by (simp only: c(1))
    qed simp_all
    then show ?thesis using kid [OF y(1), of i] by (auto simp: x)
  qed
  moreover have "pt_block ?t ! j = pt_block t ! j" if "\<not> prefix (p i) (p j)" for j
    using that by (cases "j = i") auto
  ultimately show "grows 1 0 (\<lambda>x. digit_val (hd x) = k) i t p ?t p"
    using ok' by (simp add: grows_def)
qed

lemma set_slots_ALL:
  assumes "tree_ok t p" and "i < pt_current t" and "\<And>j. j \<in> set js \<Longrightarrow> 48 \<le> j \<and> j \<le> 57"
  shows "\<exists>t'. set_slots (int i) js t = Val t' \<and> grows 1 0 (\<lambda>x. 48 + int (digit_val (hd x)) \<in> set js) i t p t' p"
  using assms
proof (induction js arbitrary: t)
  case Nil
  then show ?case by (simp add: grows_refl)
next
  case (Cons j js)
  have j: "slot j \<le> 9" "48 + int (slot j) = j" using Cons.prems(3) [of j] by (auto simp: slot_def)
  obtain t1 where t1: "tree_set (int i) (slot j) child_ALL t = Val t1" "grows 1 0 (\<lambda>x. digit_val (hd x) = slot j) i t p t1 p"
    using tree_set_ALL [OF Cons.prems(1,2) j(1)] .
  have "tree_ok t1 p" "i < pt_current t1" using growsD(1,2) [OF t1(2)] Cons.prems(2) by auto
  then obtain t2 where t2: "set_slots (int i) js t1 = Val t2"
      "grows 1 0 (\<lambda>x. 48 + int (digit_val (hd x)) \<in> set js) i t1 p t2 p"
    using Cons.IH [of t1] Cons.prems(3) by auto
  have "grows 1 0 (\<lambda>x. 48 + int (digit_val (hd x)) \<in> set (j # js)) i t p t2 p"
    by (rule grows_weaken [OF grows_trans [OF t1(2) t2(2) Cons.prems(2)]]) (use j(2) in auto)
  then show ?case using t1(1) t2(1) by simp
qed

lemma set_alloc_full:
  assumes "tree_ok t p" and "i < pt_current t" and "k \<le> 9" and "kid t i k = child_NO" and "room af 1 t" and "2 \<le> m"
  obtains t' p' where "set_alloc af (int i) k t = Val t'" and "grows m 1 (\<lambda>x. False) i t p t' p'"
    and "kid t' i k = int (pt_current t)" and "pt_current t' = pt_current t + 1"
    and "\<And>x. digits x \<Longrightarrow> holds t' (int i) x = holds t (int i) x" and "p' = p(pt_current t := p i @ [k])"
    and "\<And>j. j < pt_current t \<Longrightarrow> j \<noteq> i \<Longrightarrow> pt_block t' ! j = pt_block t ! j"
proof
  let ?c = "pt_current t"
  let ?p = "p(?c := p i @ [k])"
  define b where "b = (if ?c = length (pt_block t) then pt_block t @ replicate (pt_blockSize t) PrefixNode_new else pt_block t)"
  let ?t = "t\<lparr> pt_block := b[i := pn_set k (int ?c) (b ! i)], pt_current := ?c + 1 \<rparr>"
  have b: "i < length b" "?c < length b" "b ! i = pt_block t ! i" "\<And>j. j < ?c \<Longrightarrow> b ! j = pt_block t ! j"
    "length (pt_block t) \<le> length b"
    using assms(1,2) by (auto simp: b_def tree_ok_def nth_append)
  have bn: "b ! j = PrefixNode_new" if "?c \<le> j" "j < length b" for j
    using that assms(1) by (auto simp: b_def tree_ok_def nth_append split: if_splits)
  have ok: "node_ok (b ! i)" "kid t i k = child_NO" using assms by (auto simp: b(3) tree_ok_def)
  note new = pn_set_index [OF ok(1) assms(3), of ?c]
  have al: "alloc t = (?c, t\<lparr> pt_block := b, pt_current := ?c + 1 \<rparr>)" by (simp add: alloc_def b_def Let_def)
  show "set_alloc af (int i) k t = Val ?t"
    using assms(5) b(1) by (auto simp: set_alloc_def al room_def tree_set_def node_at_def)
  have kid: "kid ?t j d = (if j = i \<and> d = k then int ?c else if j = ?c then child_NO else kid t j d)" if "d < 10" "j \<le> ?c" for j d
  proof (cases "j = i")
    case True
    then show ?thesis using that assms(2-4) b new ok by (auto simp: nth_list_update node_ok_def)
  next
    case False
    then show ?thesis using that b bn [of j] by (auto simp: PrefixNode_new_def)
  qed
  show "kid ?t i k = int ?c" using kid [of k i] assms(2,3) by simp
  have nodes: "node_ok (b ! j)" if "j < length b" for j
    using that bn [of j] b(4) [of j] tree_okD(4) [OF assms(1), of j] tree_okD(3) [OF assms(1)] by (cases "j < ?c") auto
  have kids: "kid ?t j d = child_ALL \<or> kid ?t j d = child_NO \<or>
      (0 \<le> kid ?t j d \<and> nat (kid ?t j d) < ?c + 1 \<and> ?p (nat (kid ?t j d)) = ?p j @ [d])" if "j < ?c + 1" "d < 10" for j d
  proof (cases "j = i \<and> d = k \<or> j = ?c")
    case True
    then show ?thesis using kid [OF that(2), of j] that(1) assms(2) by auto
  next
    case False
    then have j: "j < ?c" "kid ?t j d = kid t j d" using that kid [OF that(2), of j] by auto
    show ?thesis by (rule kid_cases [OF assms(1) j(1) that(2)]) (use j in auto)
  qed
  have ok': "tree_ok ?t ?p"
    unfolding tree_ok_def
  proof (intro conjI allI impI)
    fix j assume "j < length (pt_block ?t)"
    then show "node_ok (pt_block ?t ! j)"
      using new(1) nodes [of j] assms(4) b by (cases "j = i") auto
  next
    fix j assume "j < length (pt_block ?t)" "pt_current ?t \<le> j"
    then show "pt_block ?t ! j = PrefixNode_new" using bn [of j] assms(2) by auto
  next
    fix j d assume "j < pt_current ?t" "d < (10::nat)"
    then show "kid ?t j d = child_ALL \<or> kid ?t j d = child_NO \<or>
      (0 \<le> kid ?t j d \<and> nat (kid ?t j d) < pt_current ?t \<and> ?p (nat (kid ?t j d)) = ?p j @ [d])"
      using kids [of j d] by simp
  qed (use tree_okD(1) [OF assms(1)] b in auto)
  have empty: "\<not> holds ?t (int ?c) ys" if "digits ys" for ys
  proof (cases ys)
    case (Cons y zs)
    then show ?thesis using that kid [of "digit_val y" ?c] digit_val_le [of y] assms(2) by auto
  qed simp
  show same: "holds ?t (int i) x = holds t (int i) x" if "digits x" for x
  proof (cases x)
    case (Cons y ys)
    have y: "digit_val y < 10" "digits ys" using \<open>digits x\<close> digit_val_le [of y] by (auto simp: Cons)
    have "holds ?t (kid t i (digit_val y)) ys = holds t (kid t i (digit_val y)) ys"
    proof (rule kid_cases [OF assms(1,2) y(1)])
      fix c assume c: "kid t i (digit_val y) = int c" "c < pt_current t" "p c = p i @ [digit_val y]"
      have "pt_block ?t ! j = pt_block t ! j" if "j < pt_current t" "prefix (p c) (p j)" for j
        using that b(4) [of j] by (cases "j = i") (auto simp: c(3) path_not_below)
      then show ?thesis using holds_frame [OF assms(1) c(2) y(2), of ?t] by (simp only: c(1))
    qed simp_all
    then show ?thesis using kid [OF y(1), of i] empty [OF y(2)] assms(2,4)
      by (cases "digit_val y = k") (auto simp: Cons)
  qed simp
  have "pt_block ?t ! j = pt_block t ! j" if "j < ?c" "\<not> prefix (p i) (p j)" for j
    using that b(4) by (cases "j = i") auto
  then show "grows m 1 (\<lambda>x. False) i t p ?t ?p"
    using ok' b assms(6) same by (simp add: grows_def)
  show "pt_block ?t ! j = pt_block t ! j" if "j < ?c" "j \<noteq> i" for j using that b(4) by simp
  show "?p = p(pt_current t := p i @ [k])" ..
  show "pt_current ?t = pt_current t + 1" by simp
qed

lemma set_alloc_ok:
  assumes "tree_ok t p" and "i < pt_current t" and "k \<le> 9" and "kid t i k = child_NO" and "room af 1 t" and "2 \<le> m"
  shows "\<exists>t' p'. set_alloc af (int i) k t = Val t' \<and> grows m 1 (\<lambda>x. False) i t p t' p' \<and>
    kid t' i k = int (pt_current t) \<and> pt_current t' = pt_current t + 1"
  by (rule set_alloc_full [OF assms]) blast

subsection \<open>One level down\<close>

lemma siblings: "prefix (ds @ [a]) q \<Longrightarrow> prefix (ds @ [b]) q \<Longrightarrow> a = b"
  by (auto simp: prefix_def)

lemma child_grows:
  assumes ok: "tree_ok t p" "i < pt_current t" and c: "kid t i k = int c" "c < pt_current t" "p c = p i @ [k]"
    and g: "grows m a R c t p t1 p1"
  shows "grows (Suc m) a (\<lambda>x. digit_val (hd x) = k \<and> R (tl x)) i t p t1 p1" and "kid t1 i k = int c"
proof -
  have bi: "pt_block t1 ! i = pt_block t ! i" using growsD(4) [OF g ok(2)] by (simp add: c(3) path_not_below)
  then show "kid t1 i k = int c" using c(1) by simp
  have "holds t1 (int i) x = (holds t (int i) x \<or> digit_val (hd x) = k \<and> R (tl x))"
    if "digits x" "Suc m \<le> length x" for x
  proof -
    obtain y ys where x: "x = y # ys" using \<open>Suc m \<le> length x\<close> by (cases x) auto
    have y: "digit_val y < 10" "digits ys" "m \<le> length ys" using that digit_val_le [of y] by (auto simp: x)
    show ?thesis
    proof (cases "digit_val y = k")
      case True
      then show ?thesis using growsD(5) [OF g y(2,3)] by (simp add: x bi c(1))
    next
      case False
      have "holds t1 (kid t i (digit_val y)) ys = holds t (kid t i (digit_val y)) ys"
      proof (rule kid_cases [OF ok y(1)])
        fix e assume e: "kid t i (digit_val y) = int e" "e < pt_current t" "p e = p i @ [digit_val y]"
        have "pt_block t1 ! j = pt_block t ! j" if "j < pt_current t" "prefix (p e) (p j)" for j
          using growsD(4) [OF g that(1)] that(2) False siblings [of "p i" k "p j" "digit_val y"] by (auto simp: e(3) c(3))
        then show ?thesis using holds_frame [OF ok(1) e(2) y(2), of t1] by (simp only: e(1))
      qed simp_all
      then show ?thesis using False by (simp add: x bi)
    qed
  qed
  moreover have "pt_block t1 ! j = pt_block t ! j" if "j < pt_current t" "\<not> prefix (p i) (p j)" for j
    using growsD(4) [OF g that(1)] that(2) by (auto simp: c(3) dest: append_prefixD)
  moreover have "length (p1 j) < length (p i) + Suc m" if "pt_current t \<le> j" "j < pt_current t1" for j
    using growsD(6) [OF g that] by (simp add: c(3))
  ultimately show "grows (Suc m) a (\<lambda>x. digit_val (hd x) = k \<and> R (tl x)) i t p t1 p1"
    using g by (simp add: grows_def)
qed

lemma into_child_grows:
  assumes ok: "tree_ok t p" "i < pt_current t" and k: "k \<le> 9" and c: "kid t i k = int c"
    and f: "works af m a R f" and m: "1 \<le> m" and r: "room af a t"
  shows "\<exists>t' p'. into_child f (int i) k t = Val t' \<and>
    grows (Suc m) a (\<lambda>x. digit_val (hd x) = k \<and> R (tl x)) i t p t' p'"
proof -
  let ?R = "\<lambda>x. digit_val (hd x) = k \<and> R (tl x)"
  have "k < 10" using k by simp
  then have pc: "c < pt_current t" "p c = p i @ [k]"
    by (rule kid_cases [OF ok]; use c in auto)+
  obtain t1 p1 where t1: "f (int c) t = Val (pn_count (pt_block t1 ! c), t1)" "grows m a R c t p t1 p1"
    using f ok(1) pc(1) r unfolding works_def by blast
  note g = child_grows [OF ok c pc t1(2)]
  have ok1: "tree_ok t1 p1" "i < pt_current t1" "c < pt_current t1" using growsD(1,2) [OF t1(2)] ok(2) pc(1) by auto
  have get: "tree_get t (int i) k = Val (int c)" using tree_get_ok [OF ok k] c by simp
  show ?thesis
  proof (cases "pn_count (pt_block t1 ! c) = 10")
    case False
    then show ?thesis using g(1) t1(1) by (auto simp: into_child_def get)
  next
    case full: True
    obtain t2 where t2: "tree_set (int i) k child_ALL t1 = Val t2" "grows 1 0 (\<lambda>x. digit_val (hd x) = k) i t1 p1 t2 p1"
      using tree_set_ALL [OF ok1(1,2) k] .
    have all: "holds t1 (int i) x" if x: "digits x" "Suc m \<le> length x" and hd: "digit_val (hd x) = k" for x
    proof -
      obtain y z zs where yz: "x = y # z # zs" using x(2) m by (cases x; cases "tl x") auto
      have "node_ok (pt_block t1 ! c)" using ok1 by (auto simp: tree_ok_def)
      then have "kid t1 c (digit_val z) = child_ALL"
        using node_full [of "pt_block t1 ! c" "digit_val z"] full x(1) digit_val_le [of z] by (simp add: yz)
      then show ?thesis using hd g(2) by (simp add: yz)
    qed
    have "grows (Suc m) (a + 0) (\<lambda>x. ?R x \<or> digit_val (hd x) = k) i t p t2 p1"
      by (rule grows_trans [OF g(1) grows_weaken [OF t2(2)] ok(2)]) auto
    then have "grows (Suc m) a ?R i t p t2 p1"
      by (rule grows_weaken) (use all growsD(5) [OF g(1)] in auto)
    then show ?thesis using t1(1) t2(1) full by (auto simp: into_child_def get)
  qed
qed

lemma descend_grows:
  assumes ok: "tree_ok t p" "i < pt_current t" and k: "k \<le> 9"
    and f: "works af m a R f" and m: "1 \<le> m" and r: "room af (Suc a) t"
  shows "\<exists>t' p'. descend af f (int i) k t = Val t' \<and>
    grows (Suc m) (Suc a) (\<lambda>x. digit_val (hd x) = k \<and> R (tl x)) i t p t' p'"
proof -
  let ?R = "\<lambda>x. digit_val (hd x) = k \<and> R (tl x)"
  have get: "tree_get t (int i) k = Val (kid t i k)" using tree_get_ok [OF ok k] .
  have "k < 10" using k by simp
  with ok show ?thesis
  proof (cases rule: kid_cases)
    case all
    have "grows (Suc m) (Suc a) ?R i t p t p"
    proof (rule grows_weaken [OF grows_refl [OF ok(1)]])
      fix x assume "digits x" "Suc m \<le> length x"
      then show "holds t (int i) x \<or> False \<longleftrightarrow> holds t (int i) x \<or> ?R x" using all by (cases x) auto
    qed auto
    then show ?thesis using get all by (auto simp: descend_def)
  next
    case none
    obtain t1 p1 where t1: "set_alloc af (int i) k t = Val t1" "grows (Suc m) 1 (\<lambda>x. False) i t p t1 p1"
        "kid t1 i k = int (pt_current t)" "pt_current t1 = pt_current t + 1"
      using set_alloc_ok [OF ok k none room_mono [OF r], of "Suc m"] m by auto
    have ok1: "tree_ok t1 p1" "i < pt_current t1" using growsD(1,2) [OF t1(2)] ok(2) by auto
    have r1: "room af a t1" by (rule room_grows [OF _ t1(2)]) (use r in simp)
    obtain t2 p2 where t2: "into_child f (int i) k t1 = Val t2" "grows (Suc m) a ?R i t1 p1 t2 p2"
      using into_child_grows [OF ok1 k t1(3) f m r1] by auto
    have "grows (Suc m) (Suc a) ?R i t p t2 p2"
      by (rule grows_weaken [OF grows_trans [OF t1(2) t2(2) ok(2)]]) auto
    then show ?thesis using t1 t2(1) get none tree_get_ok [OF ok1 k] by (auto simp: descend_def)
  next
    case (node c)
    obtain t2 p2 where t2: "into_child f (int i) k t = Val t2" "grows (Suc m) a ?R i t p t2 p2"
      using into_child_grows [OF ok k node(1) f m room_mono [OF r]] by auto
    have "grows (Suc m) (Suc a) ?R i t p t2 p2" by (rule grows_weaken [OF t2(2)]) auto
    then show ?thesis using t2(1) get node by (auto simp: descend_def)
  qed
qed

section \<open>Ranges\<close>

lemma finish_count:
  assumes "grows m a R i t p t' p'" and "i < pt_current t"
  shows "with_count (int i) t' = Val (pn_count (pt_block t' ! i), t')"
  using with_count_ok [OF growsD(1) [OF assms(1)], of i] growsD(2) [OF assms(1)] assms(2) by simp

text \<open>The step shared by \<open>rangeUp\<close> and \<open>rangeDown\<close>: the child of the first digit takes the rest of the bound, the
  children on one side of it are set.\<close>

lemma bound_step:
  assumes ok: "tree_ok t p" "i < pt_current t" and c: "is_digit c" and r: "room af (length cs) t"
    and IH: "cs \<noteq> [] \<Longrightarrow> works af (length cs) (length cs - 1) R f"
    and js: "\<And>j. j \<in> set js \<Longrightarrow> 48 \<le> j \<and> j \<le> 57"
  shows "\<exists>t' p'. bind_exc (if cs = [] then tree_set (int i) (slot (of_char c)) child_ALL t
        else descend af f (int i) (slot (of_char c)) t) (\<lambda>t1. bind_exc (set_slots (int i) js t1) (with_count (int i)))
      = Val (pn_count (pt_block t' ! i), t') \<and>
    grows (Suc (length cs)) (length cs)
      (\<lambda>x. digit_val (hd x) = digit_val c \<and> (cs = [] \<or> R (tl x)) \<or> 48 + int (digit_val (hd x)) \<in> set js) i t p t' p'"
proof -
  have k: "slot (of_char c) = digit_val c" "digit_val c \<le> 9" using c by (auto simp: slot_digit digit_val_le)
  have "\<exists>t1 p1. (if cs = [] then tree_set (int i) (slot (of_char c)) child_ALL t
        else descend af f (int i) (slot (of_char c)) t) = Val t1 \<and>
      grows (Suc (length cs)) (length cs) (\<lambda>x. digit_val (hd x) = digit_val c \<and> (cs = [] \<or> R (tl x))) i t p t1 p1"
  proof (cases "cs = []")
    case True
    obtain t1 where "tree_set (int i) (digit_val c) child_ALL t = Val t1"
        "grows 1 0 (\<lambda>x. digit_val (hd x) = digit_val c) i t p t1 p"
      using tree_set_ALL [OF ok k(2)] .
    then show ?thesis using True by (auto simp: k(1))
  next
    case False
    then have l: "Suc (length cs - 1) = length cs" "1 \<le> length cs" by (cases cs; simp)+
    show ?thesis using descend_grows [OF ok k(2) IH [OF False] l(2)] r False by (simp add: k(1) l(1))
  qed
  then obtain t1 p1 where t1: "(if cs = [] then tree_set (int i) (slot (of_char c)) child_ALL t
        else descend af f (int i) (slot (of_char c)) t) = Val t1"
      "grows (Suc (length cs)) (length cs) (\<lambda>x. digit_val (hd x) = digit_val c \<and> (cs = [] \<or> R (tl x))) i t p t1 p1" by blast
  have ok1: "tree_ok t1 p1" "i < pt_current t1" using growsD(1,2) [OF t1(2)] ok(2) by auto
  obtain t2 where t2: "set_slots (int i) js t1 = Val t2"
      "grows 1 0 (\<lambda>x. 48 + int (digit_val (hd x)) \<in> set js) i t1 p1 t2 p1"
    using set_slots_ALL [OF ok1 js] by blast
  have g: "grows (Suc (length cs)) (length cs + 0)
      (\<lambda>x. digit_val (hd x) = digit_val c \<and> (cs = [] \<or> R (tl x)) \<or> 48 + int (digit_val (hd x)) \<in> set js) i t p t2 p1"
    by (rule grows_trans [OF t1(2) grows_weaken [OF t2(2)] ok(2)]) auto
  then show ?thesis using t1(1) t2(1) finish_count [OF g ok(2)] by auto
qed

lemma rangeUp_works:
  assumes "digits s" and "s \<noteq> []"
  shows "works af (length s) (length s - 1) (\<lambda>x. s \<le> take (length s) x) (rangeUp af s)"
  using assms
proof (induction s)
  case (Cons c cs)
  have c: "is_digit c" "digits cs" using Cons.prems by auto
  show ?case
    unfolding works_def
  proof (intro allI impI, elim conjE)
    fix t p i assume t: "tree_ok t p" "i < pt_current t" "room af (length (c # cs) - 1) t"
    have js: "48 \<le> j \<and> j \<le> 57" if "j \<in> set [of_char c + 1 .. 57]" for j :: int
      using that of_char_digit [OF c(1)] by auto
    have r: "length (c # cs) - 1 = length cs" by simp
    obtain t' p' where t': "rangeUp af (c # cs) (int i) t = Val (pn_count (pt_block t' ! i), t')"
        "grows (Suc (length cs)) (length cs) (\<lambda>x. digit_val (hd x) = digit_val c \<and> (cs = [] \<or> cs \<le> take (length cs) (tl x)) \<or>
           48 + int (digit_val (hd x)) \<in> set [of_char c + 1 .. 57]) i t p t' p'"
      unfolding rangeUp.simps using bound_step [OF t(1,2) c(1) _ Cons.IH [OF c(2)] js] t(3) unfolding r by blast
    have "grows (length (c # cs)) (length (c # cs) - 1) (\<lambda>x. c # cs \<le> take (length (c # cs)) x) i t p t' p'"
    proof (rule grows_weaken [OF t'(2)])
      fix x assume x: "digits x" "length (c # cs) \<le> length x"
      then obtain y ys where y: "x = y # ys" "is_digit y" by (cases x) auto
      show "holds t (int i) x \<or> (digit_val (hd x) = digit_val c \<and> (cs = [] \<or> cs \<le> take (length cs) (tl x)) \<or>
           48 + int (digit_val (hd x)) \<in> set [of_char c + 1 .. 57]) \<longleftrightarrow>
         holds t (int i) x \<or> c # cs \<le> take (length (c # cs)) x"
        using y c(1) digit_val_le [of y] of_char_digit [OF c(1)] digit_val_eq [OF y(2) c(1)] digit_val_less [OF c(1) y(2)]
        by auto
    qed auto
    then show "\<exists>t' p'. rangeUp af (c # cs) (int i) t = Val (pn_count (pt_block t' ! i), t') \<and>
        grows (length (c # cs)) (length (c # cs) - 1) (\<lambda>x. c # cs \<le> take (length (c # cs)) x) i t p t' p'"
      using t'(1) by blast
  qed
qed simp

lemma rangeDown_works:
  assumes "digits s" and "s \<noteq> []"
  shows "works af (length s) (length s - 1) (\<lambda>x. take (length s) x \<le> s) (rangeDown af s)"
  using assms
proof (induction s)
  case (Cons c cs)
  have c: "is_digit c" "digits cs" using Cons.prems by auto
  show ?case
    unfolding works_def
  proof (intro allI impI, elim conjE)
    fix t p i assume t: "tree_ok t p" "i < pt_current t" "room af (length (c # cs) - 1) t"
    have js: "48 \<le> j \<and> j \<le> 57" if "j \<in> set (rev [48 .. of_char c - 1])" for j :: int
      using that of_char_digit [OF c(1)] digit_val_le [OF c(1)] by auto
    have r: "length (c # cs) - 1 = length cs" by simp
    obtain t' p' where t': "rangeDown af (c # cs) (int i) t = Val (pn_count (pt_block t' ! i), t')"
        "grows (Suc (length cs)) (length cs) (\<lambda>x. digit_val (hd x) = digit_val c \<and> (cs = [] \<or> take (length cs) (tl x) \<le> cs) \<or>
           48 + int (digit_val (hd x)) \<in> set (rev [48 .. of_char c - 1])) i t p t' p'"
      unfolding rangeDown.simps using bound_step [OF t(1,2) c(1) _ Cons.IH [OF c(2)] js] t(3) unfolding r by blast
    have "grows (length (c # cs)) (length (c # cs) - 1) (\<lambda>x. take (length (c # cs)) x \<le> c # cs) i t p t' p'"
    proof (rule grows_weaken [OF t'(2)])
      fix x assume x: "digits x" "length (c # cs) \<le> length x"
      then obtain y ys where y: "x = y # ys" "is_digit y" by (cases x) auto
      show "holds t (int i) x \<or> (digit_val (hd x) = digit_val c \<and> (cs = [] \<or> take (length cs) (tl x) \<le> cs) \<or>
           48 + int (digit_val (hd x)) \<in> set (rev [48 .. of_char c - 1])) \<longleftrightarrow>
         holds t (int i) x \<or> take (length (c # cs)) x \<le> c # cs"
        using y c(1) digit_val_le [of y] of_char_digit [OF c(1)] digit_val_eq [OF y(2) c(1)] digit_val_less [OF y(2) c(1)]
        by auto
    qed auto
    then show "\<exists>t' p'. rangeDown af (c # cs) (int i) t = Val (pn_count (pt_block t' ! i), t') \<and>
        grows (length (c # cs)) (length (c # cs) - 1) (\<lambda>x. take (length (c # cs)) x \<le> c # cs) i t p t' p'"
      using t'(1) by blast
  qed
qed simp

text \<open>The branch of \<open>addRange\<close> for equal digits does what \<open>descend\<close> does.\<close>

lemma equal_digit_descend:
  assumes "tree_ok t p" and "i < pt_current t" and "k \<le> 9" and "room af 1 t"
  shows "bind_exc (tree_get t (int i) k) (\<lambda>v. bind_exc (if v = child_ALL then Val t
      else bind_exc (if v = child_NO then set_alloc af (int i) k t else Val t) (into_child f (int i) k)) g) =
    bind_exc (descend af f (int i) k t) g"
proof -
  have get: "tree_get t (int i) k = Val (kid t i k)" using tree_get_ok [OF assms(1-3)] .
  have "k < 10" using assms(3) by simp
  with assms(1,2) show ?thesis
  proof (cases rule: kid_cases)
    case none
    obtain t1 p1 where t1: "set_alloc af (int i) k t = Val t1" "grows 2 1 (\<lambda>x. False) i t p t1 p1"
        "kid t1 i k = int (pt_current t)"
      using set_alloc_ok [OF assms(1-3) none assms(4) order_refl] by blast
    have "tree_get t1 (int i) k = Val (int (pt_current t))"
      using tree_get_ok [OF growsD(1) [OF t1(2)] _ assms(3), of i] growsD(2) [OF t1(2)] assms(2) t1(3) by simp
    then show ?thesis using get none t1(1) by (simp add: descend_def)
  qed (use get in \<open>simp_all add: descend_def\<close>)
qed

lemma works_step:
  assumes "grows m a R i t p t1 p1" and "i < pt_current t" and "\<And>x. digits x \<Longrightarrow> m' \<le> length x \<Longrightarrow>
      holds t (int i) x \<or> R x \<longleftrightarrow> holds t (int i) x \<or> S x" and "m \<le> m'" and "a \<le> a'"
  shows "\<exists>t' p'. with_count (int i) t1 = Val (pn_count (pt_block t' ! i), t') \<and> grows m' a' S i t p t' p'"
  using finish_count [OF assms(1,2)] grows_weaken [OF assms(1,4,5,3)] by blast

lemma equal_digit_works:
  assumes ok: "tree_ok t p" "i < pt_current t" "room af (2 * length hs) t" and h: "is_digit h"
    and IH: "hs \<noteq> [] \<Longrightarrow> works af (length hs) (2 * (length hs - 1)) (\<lambda>x. ls \<le> take (length hs) x \<and> take (length hs) x \<le> hs) (addRange af hs ls)"
    and len: "length ls = length hs"
  shows "\<exists>t' p'. addRange af (h # hs) (h # ls) (int i) t = Val (pn_count (pt_block t' ! i), t') \<and>
    grows (Suc (length hs)) (2 * length hs) (\<lambda>x. h # ls \<le> take (Suc (length hs)) x \<and> take (Suc (length hs)) x \<le> h # hs) i t p t' p'"
proof -
  have k: "slot (of_char h) = digit_val h" "digit_val h \<le> 9" using h by (auto simp: slot_digit digit_val_le)
  have R: "holds t (int i) x \<or> digit_val (hd x) = digit_val h \<and>
      (hs = [] \<or> ls \<le> take (length hs) (tl x) \<and> take (length hs) (tl x) \<le> hs) \<longleftrightarrow>
    holds t (int i) x \<or> h # ls \<le> take (Suc (length hs)) x \<and> take (Suc (length hs)) x \<le> h # hs"
    if "digits x" "Suc (length hs) \<le> length x" for x
    using that h len digit_val_eq [of _ h] by (cases x) auto
  have get: "tree_get t (int i) (digit_val h) = Val (kid t i (digit_val h))" using tree_get_ok [OF ok(1,2) k(2)] .
  show ?thesis
  proof (cases "hs = []")
    case True
    obtain t1 where t1: "tree_set (int i) (digit_val h) child_ALL t = Val t1"
        "grows 1 0 (\<lambda>x. digit_val (hd x) = digit_val h) i t p t1 p"
      using tree_set_ALL [OF ok(1,2) k(2)] .
    show ?thesis
    proof (cases "kid t i (digit_val h) = child_ALL")
      case all: True
      have "grows 1 0 (\<lambda>x. digit_val (hd x) = digit_val h) i t p t p"
      proof (rule grows_weaken [OF grows_refl [OF ok(1)]])
        fix x assume "digits x" "1 \<le> length x"
        then show "holds t (int i) x \<or> False \<longleftrightarrow> holds t (int i) x \<or> digit_val (hd x) = digit_val h"
          using all by (cases x) auto
      qed auto
      from works_step [OF this ok(2)] show ?thesis using True all get len R by (simp add: k(1) char_at_def)
    next
      case False
      from works_step [OF t1(2) ok(2)] show ?thesis using True False get len R t1(1) by (simp add: k(1) char_at_def)
    qed
  next
    case False
    then have l: "1 \<le> length hs" "Suc (2 * (length hs - 1)) \<le> 2 * length hs" by (cases hs; simp)+
    obtain t1 p1 where t1: "descend af (addRange af hs ls) (int i) (digit_val h) t = Val t1"
        "grows (Suc (length hs)) (Suc (2 * (length hs - 1))) (\<lambda>x. digit_val (hd x) = digit_val h \<and>
           (ls \<le> take (length hs) (tl x) \<and> take (length hs) (tl x) \<le> hs)) i t p t1 p1"
      using descend_grows [OF ok(1,2) k(2) IH [OF False] l(1) room_mono [OF ok(3) l(2)]] by blast
    have r1: "room af 1 t" by (rule room_mono [OF ok(3)]) (use l in simp)
    have "addRange af (h # hs) (h # ls) (int i) t = with_count (int i) t1"
      using equal_digit_descend [OF ok(1,2) k(2) r1, of "addRange af hs ls" "with_count (int i)"] False t1(1)
      by (simp add: k(1) char_at_def cong: if_cong)
    then show ?thesis using works_step [OF t1(2) ok(2), of "Suc (length hs)"] R False l(2) by simp
  qed
qed

text \<open>Different digits: the children between them are set, the two at the ends take the rest of the bounds.\<close>

definition ends_do :: "bool \<Rightarrow> char \<Rightarrow> string \<Rightarrow> char \<Rightarrow> string \<Rightarrow> nat \<Rightarrow> PrefixTree \<Rightarrow> PrefixTree exc" where
  "ends_do af h hs l ls i t1 =
     (if hs = [] then bind_exc (tree_set (int i) (digit_val h) child_ALL t1) (tree_set (int i) (digit_val l) child_ALL)
      else bind_exc (descend af (rangeDown af hs) (int i) (digit_val h) t1)
             (descend af (rangeUp af ls) (int i) (digit_val l)))"

lemma ends_work:
  assumes ok: "tree_ok t p" "i < pt_current t" "room af (2 * length hs) t"
    and d: "is_digit h" "digits hs" "is_digit l" "digits ls" and len: "length ls = length hs"
  shows "\<exists>t' p'. ends_do af h hs l ls i t = Val t' \<and> grows (Suc (length hs)) (2 * length hs)
    (\<lambda>x. digit_val (hd x) = digit_val h \<and> take (length hs) (tl x) \<le> hs \<or>
         digit_val (hd x) = digit_val l \<and> ls \<le> take (length hs) (tl x)) i t p t' p'"
proof (cases "hs = []")
  case True
  obtain t1 where t1: "tree_set (int i) (digit_val h) child_ALL t = Val t1" "grows 1 0 (\<lambda>x. digit_val (hd x) = digit_val h) i t p t1 p"
    using tree_set_ALL [OF ok(1,2) digit_val_le [OF d(1)]] .
  have ok1: "tree_ok t1 p" "i < pt_current t1" using growsD(1,2) [OF t1(2)] ok(2) by auto
  obtain t2 where t2: "tree_set (int i) (digit_val l) child_ALL t1 = Val t2" "grows 1 0 (\<lambda>x. digit_val (hd x) = digit_val l) i t1 p t2 p"
    using tree_set_ALL [OF ok1 digit_val_le [OF d(3)]] .
  show ?thesis using grows_trans [OF t1(2) t2(2) ok(2)] t1(1) t2(1) True len by (auto simp: ends_do_def)
next
  case False
  then have n: "1 \<le> length hs" "Suc (length hs - 1) = length hs" "ls \<noteq> []" using len by (cases hs; auto)+
  have R: "grows (Suc (length hs)) (length hs + length hs) R i t p t2 p2 \<Longrightarrow>
    grows (Suc (length hs)) (2 * length hs) R i t p t2 p2" for R t2 p2 by (simp add: mult_2)
  have r: "room af (length hs) t" by (rule room_mono [OF ok(3)]) simp
  obtain t1 p1 where t1: "descend af (rangeDown af hs) (int i) (digit_val h) t = Val t1"
      "grows (Suc (length hs)) (length hs) (\<lambda>x. digit_val (hd x) = digit_val h \<and> take (length hs) (tl x) \<le> hs) i t p t1 p1"
    using descend_grows [OF ok(1,2) digit_val_le [OF d(1)] rangeDown_works [OF d(2) False] n(1)] r unfolding n(2) by blast
  have ok1: "tree_ok t1 p1" "i < pt_current t1" using growsD(1,2) [OF t1(2)] ok(2) by auto
  have r1: "room af (length hs) t1" by (rule room_grows [OF _ t1(2)]) (use ok(3) in \<open>simp add: mult_2\<close>)
  obtain t2 p2 where t2: "descend af (rangeUp af ls) (int i) (digit_val l) t1 = Val t2"
      "grows (Suc (length hs)) (length hs) (\<lambda>x. digit_val (hd x) = digit_val l \<and> ls \<le> take (length hs) (tl x)) i t1 p1 t2 p2"
    using descend_grows [OF ok1 digit_val_le [OF d(3)] rangeUp_works [OF d(4) n(3)]] n(1) r1 unfolding len n(2) by blast
  show ?thesis using R [OF grows_trans [OF t1(2) t2(2) ok(2)]] t1(1) t2(1) False by (auto simp: ends_do_def)
qed

lemma different_digit_works:
  assumes ok: "tree_ok t p" "i < pt_current t" "room af (2 * length hs) t"
    and d: "is_digit h" "digits hs" "is_digit l" "digits ls" and len: "length ls = length hs" and lt: "l < h"
  shows "\<exists>t' p'. addRange af (h # hs) (l # ls) (int i) t = Val (pn_count (pt_block t' ! i), t') \<and>
    grows (Suc (length hs)) (2 * length hs) (\<lambda>x. l # ls \<le> take (Suc (length hs)) x \<and> take (Suc (length hs)) x \<le> h # hs) i t p t' p'"
proof -
  have k: "slot (of_char h) = digit_val h" "slot (of_char l) = digit_val l" using d by (auto simp: slot_digit)
  have ne: "(of_char h :: int) \<noteq> char_at (l # ls)" using lt by (auto simp: char_at_def)
  have js: "48 \<le> j \<and> j \<le> 57" if "j \<in> set [of_char l + 1 .. of_char h - 1]" for j :: int
    using that of_char_digit [OF d(1)] of_char_digit [OF d(3)] digit_val_le [OF d(1)] by auto
  obtain t1 where t1: "set_slots (int i) [of_char l + 1 .. of_char h - 1] t = Val t1"
      "grows 1 0 (\<lambda>x. 48 + int (digit_val (hd x)) \<in> set [of_char l + 1 .. of_char h - 1]) i t p t1 p"
    using set_slots_ALL [OF ok(1,2) js] by blast
  have ok1: "tree_ok t1 p" "i < pt_current t1" using growsD(1,2) [OF t1(2)] ok(2) by auto
  have r1: "room af (2 * length hs) t1" by (rule room_grows [OF _ t1(2)]) (use ok(3) in simp)
  obtain t2 p2 where t2: "ends_do af h hs l ls i t1 = Val t2" "grows (Suc (length hs)) (2 * length hs)
      (\<lambda>x. digit_val (hd x) = digit_val h \<and> take (length hs) (tl x) \<le> hs \<or>
           digit_val (hd x) = digit_val l \<and> ls \<le> take (length hs) (tl x)) i t1 p t2 p2"
    using ends_work [OF ok1 r1 d len] by blast
  have run: "addRange af (h # hs) (l # ls) (int i) t = with_count (int i) t2"
    using ne t1(1) t2(1) by (simp add: k ends_do_def char_at_def cong: if_cong)
  have g: "grows (Suc (length hs)) (0 + 2 * length hs)
      (\<lambda>x. 48 + int (digit_val (hd x)) \<in> set [of_char l + 1 .. of_char h - 1] \<or>
           (digit_val (hd x) = digit_val h \<and> take (length hs) (tl x) \<le> hs \<or>
            digit_val (hd x) = digit_val l \<and> ls \<le> take (length hs) (tl x))) i t p t2 p2"
    by (rule grows_trans [OF grows_weaken [OF t1(2)] t2(2) ok(2)]) auto
  show ?thesis
    unfolding run
  proof (rule works_step [OF g ok(2)])
    fix x assume x: "digits x" "Suc (length hs) \<le> length x"
    then obtain y ys where y: "x = y # ys" "is_digit y" by (cases x) auto
    show "holds t (int i) x \<or> (48 + int (digit_val (hd x)) \<in> set [of_char l + 1 .. of_char h - 1] \<or>
           (digit_val (hd x) = digit_val h \<and> take (length hs) (tl x) \<le> hs \<or>
            digit_val (hd x) = digit_val l \<and> ls \<le> take (length hs) (tl x))) \<longleftrightarrow>
      holds t (int i) x \<or> l # ls \<le> take (Suc (length hs)) x \<and> take (Suc (length hs)) x \<le> h # hs"
      using y lt of_char_digit [OF d(1)] of_char_digit [OF d(3)] digit_val_eq [OF y(2) d(1)] digit_val_eq [OF y(2) d(3)]
        digit_val_less [OF y(2) d(1)] digit_val_less [OF d(3) y(2)]
      by auto
  qed auto
qed

lemma addRange_works:
  assumes "digits high" and "digits low" and "length low = length high" and "high \<noteq> []" and "low \<le> high"
  shows "works af (length high) (2 * (length high - 1))
    (\<lambda>x. low \<le> take (length high) x \<and> take (length high) x \<le> high) (addRange af high low)"
  using assms
proof (induction high arbitrary: low)
  case (Cons h hs)
  obtain l ls where low: "low = l # ls" using Cons.prems(3) by (cases low) auto
  have d: "is_digit h" "digits hs" "is_digit l" "digits ls" "length ls = length hs" using Cons.prems low by auto
  show ?case
    unfolding works_def
  proof (intro allI impI, elim conjE)
    fix t p i assume t: "tree_ok t p" "i < pt_current t" "room af (2 * (length (h # hs) - 1)) t"
    then have t': "tree_ok t p" "i < pt_current t" "room af (2 * length hs) t" by auto
    show "\<exists>t' p'. addRange af (h # hs) low (int i) t = Val (pn_count (pt_block t' ! i), t') \<and>
      grows (length (h # hs)) (2 * (length (h # hs) - 1))
        (\<lambda>x. low \<le> take (length (h # hs)) x \<and> take (length (h # hs)) x \<le> h # hs) i t p t' p'"
    proof (cases "l = h")
      case True
      have "works af (length hs) (2 * (length hs - 1)) (\<lambda>x. ls \<le> take (length hs) x \<and> take (length hs) x \<le> hs) (addRange af hs ls)"
        if "hs \<noteq> []" using Cons.IH [OF d(2,4,5) that] Cons.prems(5) True low by simp
      then show ?thesis using equal_digit_works [OF t' d(1) _ d(5)] True low by simp
    next
      case False
      then have "l < h" using Cons.prems(5) low by auto
      then show ?thesis using different_digit_works [OF t' d] low by simp
    qed
  qed
qed simp

end
