(* ===== verification/Prefix_Tree_Properties.thy ===== *)
theory Prefix_Tree_Properties
  imports Prefix_Tree_Ranges
begin

text \<open>
  The ranges of the decimal trie as numbers, the prefixes it prints, and what follows for the lists of prefixes
  made from the ranges of the numbering plan.
\<close>

section \<open>Numbers as texts\<close>

lemma digits_lld: "0 \<le> n \<Longrightarrow> digits (lld n)"
  using lld_no_mark [of n] by (auto simp: digits_def)

lemma digits_append [simp]: "digits (x @ y) \<longleftrightarrow> digits x \<and> digits y"
  by (auto simp: digits_def)

lemma digits_take: "digits x \<Longrightarrow> digits (take n x)"
  using set_take_subset [of n x] by (auto simp: digits_def)

lemma digits_value_Cons: "digits_value (c # s) = digit_val c * 10 ^ length s + digits_value s"
  using digits_value_append [of "[c]" s] by (simp add: digits_value_def)

lemma digits_value_less: "digits s \<Longrightarrow> digits_value s < 10 ^ length s"
proof (induction s)
  case (Cons c s)
  have "digit_val c * 10 ^ length s \<le> 9 * 10 ^ length s" using digit_val_le [of c] Cons.prems by simp
  moreover have "digits_value s < 10 ^ length s" using Cons by simp
  ultimately show ?case unfolding digits_value_Cons list.size(4) add_0_right add_Suc_right power_Suc by linarith
qed (simp add: digits_value_def)

text \<open>Texts of digits of one length are ordered like their values.\<close>

lemma digits_value_mono:
  assumes "digits s" and "digits t" and "length s = length t"
  shows "s \<le> t \<longleftrightarrow> digits_value s \<le> digits_value t"
  using assms
proof (induction s arbitrary: t)
  case (Cons c s)
  obtain e u where t: "t = e # u" using Cons.prems(3) by (cases t) auto
  have IH: "s \<le> u \<longleftrightarrow> digits_value s \<le> digits_value u" using Cons t by simp
  have b: "digits_value s < 10 ^ length u" "digits_value u < 10 ^ length u"
    using digits_value_less [of s] digits_value_less [of u] Cons.prems t by auto
  have ce: "is_digit c" "is_digit e" "length s = length u" using Cons.prems t by auto
  have lt: "digits_value (c # s) < digits_value (e # u)" if "digit_val c < digit_val e" "length s = length u"
    "digits_value s < 10 ^ length u" for c e s u
  proof -
    have "(digit_val c + 1) * 10 ^ length u \<le> digit_val e * 10 ^ length u" using that(1) by (intro mult_right_mono) auto
    with that show ?thesis by (simp add: digits_value_Cons)
  qed
  show ?case
  proof (cases "c = e")
    case True
    then show ?thesis using IH ce by (simp add: t digits_value_Cons)
  next
    case False
    then consider "c < e" | "e < c" by fastforce
    then show ?thesis
    proof cases
      case 1
      then show ?thesis using lt [of c e s u] digit_val_less [OF ce(1,2)] ce(3) b by (simp add: t)
    next
      case 2
      then have "digits_value (e # u) < digits_value (c # s)"
        using lt [of e c u s] digit_val_less [OF ce(2,1)] ce(3) b by simp
      with 2 show ?thesis by (auto simp: t)
    qed
  qed
qed (simp add: digits_value_def)

lemma lld_le_iff:
  assumes "0 \<le> a" and "0 \<le> b" and "length (lld a) = length (lld b)"
  shows "lld a \<le> lld b \<longleftrightarrow> a \<le> b"
  using digits_value_mono [OF digits_lld [OF assms(1)] digits_lld [OF assms(2)] assms(3)] assms
  by (simp add: lld_def nat_le_eq_zle)

lemma lld_nonempty [simp]: "lld n \<noteq> []"
  by (simp add: lld_def)

text \<open>The number that the first \<open>n\<close> digits of \<open>x\<close> give.\<close>

definition leading :: "nat \<Rightarrow> int \<Rightarrow> int" where
  "leading n x = x div 10 ^ (length (lld x) - n)"

lemma take_lld:
  assumes "0 \<le> x" and "0 < n" and "n \<le> length (lld x)"
  shows "take n (lld x) = lld (leading n x)" and "0 \<le> leading n x"
proof -
  have "leading n x = int (nat x div 10 ^ (length (lld x) - n))"
    using assms(1) by (simp add: leading_def zdiv_int)
  then show "take n (lld x) = lld (leading n x)" "0 \<le> leading n x"
    using take_dec_digits [of n "nat x"] assms by (simp_all add: lld_def)
qed

lemma leading_all: "leading (length (lld x)) x = x"
  by (simp add: leading_def)

section \<open>Adding ranges\<close>

definition valid_range :: "nat \<Rightarrow> int \<times> int \<Rightarrow> bool" where
  "valid_range n r \<longleftrightarrow> 0 < fst r \<and> fst r \<le> snd r \<and> length (lld (fst r)) = length (lld (snd r)) \<and> length (lld (snd r)) \<le> n"

definition in_range :: "int \<times> int \<Rightarrow> int \<Rightarrow> bool" where
  "in_range r x \<longleftrightarrow> (let y = leading (length (lld (fst r))) x in fst r \<le> y \<and> y \<le> snd r)"

text \<open>A tree whose nodes lie less than \<open>n\<close> digits deep below the root.\<close>

definition rooted :: "nat \<Rightarrow> PrefixTree \<Rightarrow> (nat \<Rightarrow> nat list) \<Rightarrow> bool" where
  "rooted n t p \<longleftrightarrow> tree_ok t p \<and> pt_master t = 0 \<and> p 0 = [] \<and> (\<forall>j < pt_current t. length (p j) < n)"

definition covered :: "int \<times> int \<Rightarrow> string \<Rightarrow> bool" where
  "covered r x \<longleftrightarrow> (let n = length (lld (snd r)) in lld (fst r) \<le> take n x \<and> take n x \<le> lld (snd r))"

lemma add_range:
  assumes t: "rooted n t p" and r: "valid_range n r" "room af (2 * (n - 1)) t"
  shows "\<exists>t' p'. addRange_pair af r t = Val t' \<and> rooted n t' p' \<and>
    length (pt_block t) \<le> length (pt_block t') \<and> pt_current t' \<le> pt_current t + 2 * (n - 1) \<and>
    (\<forall>x. digits x \<and> length (lld (snd r)) \<le> length x \<longrightarrow> holds t' 0 x = (holds t 0 x \<or> covered r x))"
proof -
  let ?h = "lld (snd r)" and ?l = "lld (fst r)"
  have v: "0 \<le> fst r" "0 \<le> snd r" "length ?l = length ?h" "length ?h \<le> n" "fst r \<le> snd r"
    using r(1) by (auto simp: valid_range_def)
  have ok: "tree_ok t p" "0 < pt_current t" "pt_master t = 0" "p 0 = []"
    using t by (auto simp: rooted_def tree_ok_def)
  have w: "works af (length ?h) (2 * (length ?h - 1)) (\<lambda>x. ?l \<le> take (length ?h) x \<and> take (length ?h) x \<le> ?h) (addRange af ?h ?l)"
    by (rule addRange_works) (use v in \<open>auto simp: digits_lld lld_le_iff\<close>)
  have "room af (2 * (length ?h - 1)) t" by (rule room_mono [OF r(2)]) (use v in simp)
  then obtain t' p' where t': "addRange af ?h ?l (int 0) t = Val (pn_count (pt_block t' ! 0), t')"
      "grows (length ?h) (2 * (length ?h - 1)) (\<lambda>x. ?l \<le> take (length ?h) x \<and> take (length ?h) x \<le> ?h) 0 t p t' p'"
    using w ok unfolding works_def by blast
  have d: "length (p' j) < n" if "j < pt_current t'" for j
    using that t growsD(3) [OF t'(2), of j] growsD(6) [OF t'(2) _ that] v(4) ok(4)
    by (cases "j < pt_current t") (auto simp: rooted_def)
  have len: "length (pt_block t) \<le> length (pt_block t')" "pt_master t' = pt_master t"
    "pt_current t' \<le> pt_current t + 2 * (length ?h - 1)" using t'(2) by (auto simp: grows_def)
  have "rooted n t' p'" using growsD(1) [OF t'(2)] growsD(3) [OF t'(2) ok(2)] ok d len(2) by (simp add: rooted_def)
  moreover have "addRange_pair af r t = Val t'" using t'(1) ok(3) by (simp add: addRange_pair_def)
  moreover have "holds t' 0 x = (holds t 0 x \<or> covered r x)" if "digits x" "length ?h \<le> length x" for x
    using growsD(5) [OF t'(2) that] by (simp add: covered_def Let_def)
  moreover have "pt_current t' \<le> pt_current t + 2 * (n - 1)" using len(3) v(4) by simp
  ultimately show ?thesis using len(1) by blast
qed

lemma covered_lld:
  assumes "valid_range n r" and "0 \<le> x" and "length (lld (snd r)) \<le> length (lld x)"
  shows "covered r (lld x) \<longleftrightarrow> in_range r x"
proof -
  let ?n = "length (lld (snd r))"
  have v: "0 \<le> fst r" "0 \<le> snd r" "length (lld (fst r)) = ?n" using assms(1) by (auto simp: valid_range_def)
  have n: "0 < ?n" by simp
  note k = take_lld [OF assms(2) n assms(3)]
  have "length (lld (leading ?n x)) = ?n" using k(1) assms(3) by (metis length_take min.absorb2)
  then show ?thesis using v k lld_le_iff [of "fst r" "leading ?n x"] lld_le_iff [of "leading ?n x" "snd r"]
    by (simp add: covered_def in_range_def Let_def)
qed

lemma rooted_new:
  assumes "0 < b" and "0 < n"
  shows "rooted n (PrefixTree_new b) (\<lambda>_. [])" and "pt_current (PrefixTree_new b) = 1"
    and "length (pt_block (PrefixTree_new b)) = b" and "digits x \<Longrightarrow> \<not> holds (PrefixTree_new b) 0 x"
proof -
  have t: "PrefixTree_new b = \<lparr> pt_blockSize = b, pt_current = 1, pt_master = 0, pt_block = replicate b PrefixNode_new \<rparr>"
    using assms(1) by (simp add: PrefixTree_new_def alloc_def)
  have kid: "kid (PrefixTree_new b) 0 d = child_NO" if "d < 10" for d
    using that assms(1) by (simp add: t PrefixNode_new_def)
  then show "rooted n (PrefixTree_new b) (\<lambda>_. [])"
    using assms by (simp add: rooted_def tree_ok_def t PrefixNode_new_def [symmetric] node_ok_new)
  show "pt_current (PrefixTree_new b) = 1" "length (pt_block (PrefixTree_new b)) = b" by (simp_all add: t)
  show "\<not> holds (PrefixTree_new b) 0 x" if "digits x"
    using that kid digit_val_le [of "hd x"] by (cases x) auto
qed

section \<open>The printed prefixes\<close>

text \<open>The prefixes below a node, in the order they are printed.\<close>

fun leaves :: "nat \<Rightarrow> PrefixTree \<Rightarrow> int \<Rightarrow> string list" where
  "leaves 0 t i = []"
| "leaves (Suc n) t i = concat (map (\<lambda>d.
     if kid t (nat i) d = child_ALL then [[digit_char d]]
     else if kid t (nat i) d \<ge> 0 then map (Cons (digit_char d)) (leaves n t (kid t (nat i) d)) else []) [0..<10])"

lemma foldl_collect:
  assumes "\<And>s j. j \<in> set js \<Longrightarrow> f (Val s) j = Val (s @ g j)"
  shows "foldl f (Val s) js = Val (s @ concat (map g js))"
  using assms by (induction js arbitrary: s) simp_all

lemma print_leaves:
  assumes "tree_ok t p" and "\<And>j. j < pt_current t \<Longrightarrow> length (p j) < n" and "i < pt_current t" and "n \<le> length (p i) + depth"
  shows "print_tree depth array (int i) t = Val (map (\<lambda>q. atoll (array @ q)) (leaves depth t (int i)))"
  using assms(3,4)
proof (induction depth arbitrary: array i)
  case 0
  then show ?case using assms(2) [of i] by simp
next
  case (Suc depth)
  let ?g = "\<lambda>d. map (\<lambda>q. atoll (array @ q)) (if kid t i d = child_ALL then [[digit_char d]]
     else if kid t i d \<ge> 0 then map (Cons (digit_char d)) (leaves depth t (kid t i d)) else [])"
  let ?f = "\<lambda>storage j. bind_exc storage (\<lambda>s. bind_exc (tree_get t (int i) j) (\<lambda>v.
         if v = child_NO then Val s
         else if v = child_ALL then Val (s @ [atoll (array @ [digit_char j])])
         else if v \<ge> 0 then bind_exc (print_tree depth (array @ [digit_char j]) v t) (\<lambda>below. Val (s @ below))
         else Val s))"
  have "?f (Val s) d = Val (s @ ?g d)" if "d \<in> set [0..<10]" for s d
  proof -
    have d: "d < 10" "d \<le> 9" using that by auto
    have get: "tree_get t (int i) d = Val (kid t i d)" using tree_get_ok [OF assms(1) Suc.prems(1) d(2)] .
    show ?thesis
    proof (rule kid_cases [OF assms(1) Suc.prems(1) d(1)])
      fix c assume c: "kid t i d = int c" "c < pt_current t" "p c = p i @ [d]"
      have "print_tree depth (array @ [digit_char d]) (int c) t =
          Val (map (\<lambda>q. atoll ((array @ [digit_char d]) @ q)) (leaves depth t (int c)))"
        by (rule Suc.IH [OF c(2)]) (use Suc.prems(2) c(3) in simp)
      then show ?thesis using get c(1) by simp
    qed (use get in simp_all)
  qed
  then have "foldl ?f (Val []) [0..<10] = Val ([] @ concat (map ?g [0..<10]))" by (rule foldl_collect)
  moreover have "map (\<lambda>q. atoll (array @ q)) (leaves (Suc depth) t (int i)) = concat (map ?g [0..<10])"
    unfolding leaves.simps map_concat map_map comp_def nat_int ..
  ultimately show ?case by (simp only: print_tree.simps append_Nil)
qed

lemma digit_char_val: "is_digit y \<Longrightarrow> digit_char (digit_val y) = y"
  using digit_val_eq [of "digit_char (digit_val y)" y] digit_val_le [of y] by simp

lemma mem_leaves:
  "q \<in> set (leaves (Suc n) t (int i)) \<longleftrightarrow>
     (\<exists>d < 10. kid t i d = child_ALL \<and> q = [digit_char d] \<or>
        0 \<le> kid t i d \<and> (\<exists>q' \<in> set (leaves n t (kid t i d)). q = digit_char d # q'))"
proof -
  have "q \<in> set (if kid t i d = child_ALL then [[digit_char d]]
       else if kid t i d \<ge> 0 then map (Cons (digit_char d)) (leaves n t (kid t i d)) else []) \<longleftrightarrow>
     kid t i d = child_ALL \<and> q = [digit_char d] \<or>
       0 \<le> kid t i d \<and> (\<exists>q' \<in> set (leaves n t (kid t i d)). q = digit_char d # q')" for d
    by auto
  then show ?thesis by (simp only: leaves.simps set_concat set_map UN_iff nat_int set_upt atLeastLessThan_iff image_image bex_simps) auto
qed

declare leaves.simps(2) [simp del]

lemma holds_leaves:
  assumes "tree_ok t p" and "\<And>j. j < pt_current t \<Longrightarrow> length (p j) < n" and "i < pt_current t" and "n \<le> length (p i) + depth"
    and "digits x"
  shows "holds t (int i) x \<longleftrightarrow> (\<exists>q \<in> set (leaves depth t (int i)). prefix q x)"
  using assms(3-5)
proof (induction depth arbitrary: i x)
  case 0
  then show ?case using assms(2) [of i] by simp
next
  case (Suc depth)
  show ?case
  proof (cases x)
    case Nil
    then show ?thesis by (auto simp: mem_leaves)
  next
    case (Cons y ys)
    have y: "is_digit y" "digit_val y < 10" "digits ys" using Suc.prems(3) digit_val_le [of y] by (auto simp: Cons)
    have c: "digit_char d = y \<longleftrightarrow> d = digit_val y" if "d < 10" for d
      using digit_char_val [OF y(1)] digit_val_digit_char [of d] that by auto
    let ?v = "kid t i (digit_val y)"
    have "(\<exists>q \<in> set (leaves (Suc depth) t (int i)). prefix q x) \<longleftrightarrow>
        (\<exists>d < 10. digit_char d = y \<and> (kid t i d = child_ALL \<or>
           0 \<le> kid t i d \<and> (\<exists>q \<in> set (leaves depth t (kid t i d)). prefix q ys)))" (is "?L \<longleftrightarrow> ?R")
    proof
      assume ?L
      then show ?R unfolding Bex_def mem_leaves Cons by fastforce
    next
      assume ?R
      then obtain d where d: "d < 10" "digit_char d = y" "kid t i d = child_ALL \<or>
           0 \<le> kid t i d \<and> (\<exists>q \<in> set (leaves depth t (kid t i d)). prefix q ys)" by blast
      then have "\<exists>q. (kid t i d = child_ALL \<and> q = [digit_char d] \<or>
        0 \<le> kid t i d \<and> (\<exists>q' \<in> set (leaves depth t (kid t i d)). q = digit_char d # q')) \<and> prefix q x"
        by (force simp: Cons)
      then show ?L using d(1) unfolding Bex_def mem_leaves by blast
    qed
    also have "\<dots> \<longleftrightarrow> ?v = child_ALL \<or> 0 \<le> ?v \<and> (\<exists>q \<in> set (leaves depth t ?v). prefix q ys)"
      using c y(2) by auto
    also have "\<dots> \<longleftrightarrow> holds t (int i) x"
    proof (rule kid_cases [OF assms(1) Suc.prems(1) y(2)])
      fix e assume e: "?v = int e" "e < pt_current t" "p e = p i @ [digit_val y]"
      show ?thesis using Suc.IH [OF e(2) _ y(3)] Suc.prems(2) e by (simp add: Cons)
    qed (simp_all add: Cons)
    finally show ?thesis by simp
  qed
qed

lemma leaves_shape:
  assumes "tree_ok t p" and "\<And>j. j < pt_current t \<Longrightarrow> length (p j) < n" and "i < pt_current t"
    and "q \<in> set (leaves depth t (int i))"
  shows "digits q \<and> q \<noteq> [] \<and> length (p i) + length q \<le> n"
  using assms(3,4)
proof (induction depth arbitrary: i q)
  case (Suc depth)
  then obtain d where d: "d < 10" "kid t i d = child_ALL \<and> q = [digit_char d] \<or>
      0 \<le> kid t i d \<and> (\<exists>q'. q = digit_char d # q' \<and> q' \<in> set (leaves depth t (kid t i d)))"
    unfolding mem_leaves by blast
  show ?case
  proof (rule kid_cases [OF assms(1) Suc.prems(1) d(1)])
    fix c assume c: "kid t i d = int c" "c < pt_current t" "p c = p i @ [d]"
    then obtain q' where q: "q = digit_char d # q'" "q' \<in> set (leaves depth t (int c))" using d(2) by auto
    show ?thesis using Suc.IH [OF c(2) q(2)] c(3) q(1) by simp
  qed (use d assms(2) [OF Suc.prems(1)] in auto)
qed simp

section \<open>Reading the prefixes back\<close>

lemma hd_dec_digits_nonzero: "0 < n \<Longrightarrow> hd (dec_digits n) \<noteq> CHR ''0''"
proof (induction n rule: dec_digits.induct)
  case (1 n)
  show ?case
  proof (cases "n < 10")
    case True
    have "digit_val (digit_char n) \<noteq> digit_val (CHR ''0'')" using True "1.prems" by (simp add: digit_val_def [of "CHR ''0''"])
    then have "digit_char n \<noteq> CHR ''0''" by metis
    then show ?thesis using True by (subst dec_digits.simps) simp
  next
    case False
    then have "hd (dec_digits n) = hd (dec_digits (n div 10))" by (subst dec_digits.simps) simp
    then show ?thesis using False "1.IH" by simp
  qed
qed

lemma digits_value_pos: "digits q \<Longrightarrow> q \<noteq> [] \<Longrightarrow> hd q \<noteq> CHR ''0'' \<Longrightarrow> 0 < digits_value q"
  using digit_val_eq [of "hd q" "CHR ''0''"]
  by (cases q) (auto simp: digits_value_Cons digit_val_def [of "CHR ''0''"] is_digit_def [of "CHR ''0''"])

lemma dec_digits_value:
  assumes "digits q" and "q \<noteq> []" and "hd q \<noteq> CHR ''0''"
  shows "dec_digits (digits_value q) = q"
  using assms
proof (induction q rule: rev_induct)
  case (snoc c s)
  have c: "is_digit c" "digit_val c \<le> 9" using snoc.prems(1) by (auto simp: digit_val_le)
  show ?case
  proof (cases "s = []")
    case True
    then show ?thesis using c digit_char_val [OF c(1)] by (subst dec_digits.simps) (simp add: digits_value_def)
  next
    case False
    then have s: "digits s" "hd s \<noteq> CHR ''0''" using snoc.prems by auto
    have "\<not> digits_value s * 10 + digit_val c < 10" using digits_value_pos [OF s(1) False s(2)] by simp
    then show ?thesis using snoc.IH [OF s(1) False s(2)] c digit_char_val [OF c(1)]
      by (subst dec_digits.simps) (simp add: digits_value_snoc)
  qed
qed simp

lemma lld_atoll:
  assumes "digits q" and "q \<noteq> []" and "hd q \<noteq> CHR ''0''" and "length q \<le> 18"
  shows "lld (atoll q) = q"
proof -
  have "digits_value q < 10 ^ 18"
    using less_le_trans [OF digits_value_less [OF assms(1)] power_increasing [OF assms(4), of 10]] by simp
  then have "atoll q = int (digits_value q)" using atoll_digits [of q] assms(1) by (simp add: digits_def clamp64_def)
  then show ?thesis using dec_digits_value [OF assms(1-3)] by (simp add: lld_def)
qed

section \<open>The lists of prefixes\<close>

lemma add_ranges_holds:
  assumes "rooted n t p" and "\<And>r. r \<in> set rs \<Longrightarrow> valid_range n (range_pair r)"
    and "room af (length rs * (2 * (n - 1))) t"
  shows "\<exists>t' p'. add_ranges af rs t = Val t' \<and> rooted n t' p' \<and>
    (\<forall>x. digits x \<and> (\<forall>r \<in> set rs. length (lld (snd (range_pair r))) \<le> length x) \<longrightarrow>
       holds t' 0 x = (holds t 0 x \<or> (\<exists>r \<in> set rs. covered (range_pair r) x)))"
  using assms
proof (induction rs arbitrary: t p)
  case Nil
  then show ?case by (auto simp: add_ranges_def)
next
  case (Cons r rs)
  have r: "room af (2 * (n - 1)) t" by (rule room_mono [OF Cons.prems(3)]) simp
  obtain t1 p1 where t1: "addRange_pair af (range_pair r) t = Val t1" "rooted n t1 p1"
      "length (pt_block t) \<le> length (pt_block t1)" "pt_current t1 \<le> pt_current t + 2 * (n - 1)"
      "\<And>x. digits x \<Longrightarrow> length (lld (snd (range_pair r))) \<le> length x \<Longrightarrow> holds t1 0 x = (holds t 0 x \<or> covered (range_pair r) x)"
    using add_range [OF Cons.prems(1) _ r, of "range_pair r"] Cons.prems(2) by (auto simp: list.set_intros)
  have "room af (length rs * (2 * (n - 1))) t1"
    using Cons.prems(3) t1(3,4) by (auto simp: room_def)
  then obtain t2 p2 where t2: "add_ranges af rs t1 = Val t2" "rooted n t2 p2"
      "\<And>x. digits x \<Longrightarrow> (\<forall>r \<in> set rs. length (lld (snd (range_pair r))) \<le> length x) \<Longrightarrow>
         holds t2 0 x = (holds t1 0 x \<or> (\<exists>r \<in> set rs. covered (range_pair r) x))"
    using Cons.IH [OF t1(2)] Cons.prems(2) by (auto simp: list.set_intros)
  have "add_ranges af (r # rs) t = Val t2" using t1(1) t2(1) by (simp add: add_ranges_def)
  then show ?case using t2(2,3) t1(5) by auto
qed

lemma covered_no_leading_zero:
  assumes "0 < fst r" and "hd x = CHR ''0''" and "x \<noteq> []"
  shows "\<not> covered r x"
proof -
  obtain y ys where x: "x = CHR ''0'' # ys" using assms(2,3) by (cases x) auto
  obtain l ls where l: "lld (fst r) = l # ls" by (cases "lld (fst r)") auto
  have "l \<noteq> CHR ''0''" using hd_dec_digits_nonzero [of "nat (fst r)"] assms(1) l by (simp add: lld_def)
  moreover have "is_digit l" using digits_lld [of "fst r"] assms(1) l by simp
  ultimately have "CHR ''0'' < l" by (auto simp: is_digit_def less_char_def)
  moreover have "0 < length (lld (snd r))" by simp
  then obtain n where "length (lld (snd r)) = Suc n" using gr0_conv_Suc by blast
  ultimately show ?thesis by (auto simp: covered_def l x)
qed

lemma printed_prefixes:
  assumes "rooted 18 t p" and zero: "\<And>x. digits x \<Longrightarrow> 18 \<le> length x \<Longrightarrow> hd x = CHR ''0'' \<Longrightarrow> \<not> holds t 0 x"
  shows "\<exists>ps. print_tree 31 [] 0 t = Val ps \<and>
    (\<forall>x. 0 \<le> x \<longrightarrow> (\<exists>q \<in> set ps. prefix (lld q) (lld x)) = holds t 0 (lld x))"
proof -
  have ok: "tree_ok t p" "\<And>j. j < pt_current t \<Longrightarrow> length (p j) < 18" "0 < pt_current t" "18 \<le> length (p 0) + 31"
    using assms(1) by (auto simp: rooted_def tree_ok_def)
  define ps where "ps = leaves 31 t (int 0)"
  have pr: "print_tree 31 [] (int 0) t = Val (map atoll ps)"
    using print_leaves [OF ok, of "[]"] by (simp add: ps_def)
  have h: "holds t (int 0) x \<longleftrightarrow> (\<exists>q \<in> set ps. prefix q x)" if "digits x" for x
    unfolding ps_def by (rule holds_leaves [OF ok that])
  have nz: "hd q \<noteq> CHR ''0''" if q: "q \<in> set ps" for q
  proof
    assume hd: "hd q = CHR ''0''"
    let ?x = "q @ replicate 18 (CHR ''0'')"
    have d: "digits q" "q \<noteq> []" using leaves_shape [OF ok(1-3)] q by (auto simp: ps_def)
    then have dx: "digits ?x" by (simp add: digits_def is_digit_def)
    have "prefix q ?x" by (rule prefixI) simp
    then have "\<exists>q \<in> set ps. prefix q ?x" using q by blast
    then have "holds t 0 ?x" using h [OF dx] by simp
    then show False using zero [OF dx] hd d(2) by simp
  qed
  have "lld (atoll q) = q" if "q \<in> set ps" for q
    using lld_atoll [of q] leaves_shape [OF ok(1-3)] nz [OF that] that assms(1) by (auto simp: ps_def rooted_def)
  then have "(\<exists>q \<in> set (map atoll ps). prefix (lld q) (lld x)) = holds t 0 (lld x)" if "0 \<le> x" for x
    using h [OF digits_lld [OF that]] by auto
  then show ?thesis using pr by auto
qed

text \<open>C18: \<open>addRange\<close> on any tree built by it: for numbers with the same number of digits it neither throws nor
  leaves the vector, and afterwards \<open>checkInclusion\<close> answers true for exactly the numbers it did before and those whose
  leading digits lie between the two ends, the ends included.\<close>

theorem addRange_exact:
  assumes "rooted n t p" and "valid_range n r" and "room args_first (2 * (n - 1)) t"
  shows "\<exists>t' p'. addRange_pair args_first r t = Val t' \<and> rooted n t' p' \<and>
    (\<forall>x. 0 \<le> x \<and> length (lld (snd r)) \<le> length (lld x) \<longrightarrow>
       checkInclusion (lld x) 0 t' = Val (checkInclusion (lld x) 0 t = Val True \<or> in_range r x))"
proof -
  obtain t' p' where t': "addRange_pair args_first r t = Val t'" "rooted n t' p'"
      "\<And>x. digits x \<Longrightarrow> length (lld (snd r)) \<le> length x \<Longrightarrow> holds t' 0 x = (holds t 0 x \<or> covered r x)"
    using add_range [OF assms] by blast
  have "checkInclusion (lld x) 0 t' = Val (checkInclusion (lld x) 0 t = Val True \<or> in_range r x)"
    if "0 \<le> x" "length (lld (snd r)) \<le> length (lld x)" for x
    using checkInclusion_holds [of t p 0 "lld x"] checkInclusion_holds [of t' p' 0 "lld x"] digits_lld [OF that(1)]
      t'(2) t'(3) [of "lld x"] covered_lld [OF assms(2) that] assms(1) that(2)
    by (auto simp: rooted_def tree_ok_def)
  then show ?thesis using t'(1,2) by blast
qed

text \<open>C21: the list of prefixes made for a filter (\<open>Repository::getPrefixByFilter\<close>): a number with at least as many
  digits as the selected ranges begins with one of the printed prefixes exactly when it lies in one of the selected
  ranges. The compiler must evaluate the argument first, or the ranges be few enough for the first hundred nodes.\<close>

theorem getPrefixByFilter_exact:
  assumes valid: "\<And>r. r \<in> set (rp_nnpNumberRange rp) \<Longrightarrow> range_selected f r \<Longrightarrow> valid_range 18 (range_pair r)"
    and room: "args_first \<or> 34 * length (filter (range_selected f) (rp_nnpNumberRange rp)) < 100"
  shows "\<exists>prefixList. getPrefixByFilter args_first rp f = Val prefixList \<and>
    (\<forall>x. 0 \<le> x \<and> (\<forall>r \<in> set (rp_nnpNumberRange rp). range_selected f r \<longrightarrow> length (lld (nr_full_number_to r)) \<le> length (lld x)) \<longrightarrow>
       (\<exists>q \<in> set prefixList. prefix (lld q) (lld x)) =
       (\<exists>r \<in> set (rp_nnpNumberRange rp). range_selected f r \<and> in_range (range_pair r) x))"
proof -
  let ?rs = "filter (range_selected f) (rp_nnpNumberRange rp)"
  have rm: "room args_first (length ?rs * (2 * (18 - 1))) (PrefixTree_new 100)"
    using room rooted_new(2,3) [of 100 18] by (auto simp: room_def)
  have v: "valid_range 18 (range_pair r)" if "r \<in> set ?rs" for r using valid that by simp
  obtain t p where t: "add_ranges args_first ?rs (PrefixTree_new 100) = Val t" "rooted 18 t p"
      "\<And>x. digits x \<Longrightarrow> (\<forall>r \<in> set ?rs. length (lld (snd (range_pair r))) \<le> length x) \<Longrightarrow>
         holds t 0 x = (holds (PrefixTree_new 100) 0 x \<or> (\<exists>r \<in> set ?rs. covered (range_pair r) x))"
    using add_ranges_holds [OF rooted_new(1) v rm] by auto
  have new: "\<not> holds (PrefixTree_new 100) 0 x" if "digits x" for x by (rule rooted_new(4) [of 100 18, OF _ _ that]) simp_all
  have "\<not> holds t 0 x" if x: "digits x" "18 \<le> length x" "hd x = CHR ''0''" for x
  proof -
    have "\<forall>r \<in> set ?rs. length (lld (snd (range_pair r))) \<le> length x" using v x(2) by (fastforce simp: valid_range_def)
    moreover have "\<not> covered (range_pair r) x" if "r \<in> set ?rs" for r
      using covered_no_leading_zero [of "range_pair r" x] v [OF that] x by (cases "x = []") (auto simp: valid_range_def)
    ultimately show ?thesis using t(3) [OF x(1)] new [OF x(1)] by blast
  qed
  then obtain ps where ps: "print_tree 31 [] 0 t = Val ps"
      "\<And>x. 0 \<le> x \<Longrightarrow> (\<exists>q \<in> set ps. prefix (lld q) (lld x)) = holds t 0 (lld x)"
    using printed_prefixes [OF t(2)] by blast
  have "(\<exists>q \<in> set ps. prefix (lld q) (lld x)) = (\<exists>r \<in> set ?rs. in_range (range_pair r) x)"
    if x: "0 \<le> x" "\<forall>r \<in> set ?rs. length (lld (nr_full_number_to r)) \<le> length (lld x)" for x
  proof -
    note d = digits_lld [OF x(1)]
    have x2: "\<forall>r \<in> set ?rs. length (lld (snd (range_pair r))) \<le> length (lld x)" using x(2) by (simp add: range_pair_def)
    have "(\<exists>q \<in> set ps. prefix (lld q) (lld x)) = (\<exists>r \<in> set ?rs. covered (range_pair r) (lld x))"
      using ps(2) [OF x(1)] t(3) [OF d x2] new [OF d] by simp
    also have "\<dots> = (\<exists>r \<in> set ?rs. in_range (range_pair r) x)"
      using covered_lld [OF v x(1)] x2 by (intro bex_cong) auto
    finally show ?thesis .
  qed
  then show ?thesis using ps(1) t(1) by (auto simp: getPrefixByFilter_def)
qed

end
