(* ===== verification/Prefix_Tree_Minus.thy ===== *)
theory Prefix_Tree_Minus
  imports Prefix_Tree_Properties
begin

text \<open>
  Taking one decimal trie from another. What is left lies in the first and not in the second (\<open>shrinks\<close>); the
  converse fails, see \<open>subTree_loses_numbers\<close>. The argument of \<open>set\<close> is evaluated first here (\<open>args_first\<close>).
\<close>

section \<open>Shrinking below a node\<close>

definition shrinks :: "nat \<Rightarrow> (string \<Rightarrow> bool) \<Rightarrow> nat \<Rightarrow> PrefixTree \<Rightarrow> (nat \<Rightarrow> nat list) \<Rightarrow>
    PrefixTree \<Rightarrow> (nat \<Rightarrow> nat list) \<Rightarrow> bool" where
  "shrinks m P i t p t' p' \<longleftrightarrow>
     tree_ok t' p' \<and> pt_master t' = pt_master t \<and> pt_current t \<le> pt_current t' \<and>
     (\<forall>j < pt_current t. p' j = p j \<and> (\<not> prefix (p i) (p j) \<longrightarrow> pt_block t' ! j = pt_block t ! j)) \<and>
     (\<forall>j. pt_current t \<le> j \<and> j < pt_current t' \<longrightarrow> length (p' j) < length (p i) + m) \<and>
     (\<forall>x. digits x \<and> holds t' (int i) x \<longrightarrow> holds t (int i) x \<and> \<not> P x)"

lemma shrinksD:
  assumes "shrinks m P i t p t' p'"
  shows "tree_ok t' p'" "pt_current t \<le> pt_current t'" "j < pt_current t \<Longrightarrow> p' j = p j"
    "j < pt_current t \<Longrightarrow> \<not> prefix (p i) (p j) \<Longrightarrow> pt_block t' ! j = pt_block t ! j"
    "digits x \<Longrightarrow> holds t' (int i) x \<Longrightarrow> holds t (int i) x \<and> \<not> P x"
    "pt_current t \<le> j \<Longrightarrow> j < pt_current t' \<Longrightarrow> length (p' j) < length (p i) + m"
  using assms by (auto simp: shrinks_def)

lemma shrinks_refl: "tree_ok t p \<Longrightarrow> (\<And>x. digits x \<Longrightarrow> holds t (int i) x \<Longrightarrow> \<not> P x) \<Longrightarrow> shrinks m P i t p t p"
  by (auto simp: shrinks_def)

lemma shrinks_trans:
  assumes "shrinks m P i t p t1 p1" and "shrinks m Q i t1 p1 t2 p2" and "i < pt_current t"
  shows "shrinks m (\<lambda>x. P x \<or> Q x) i t p t2 p2"
proof -
  have i: "p1 i = p i" using assms(1,3) by (simp add: shrinks_def)
  have "length (p2 j) < length (p i) + m" if "pt_current t \<le> j" "j < pt_current t2" for j
    using shrinksD(6) [OF assms(1) that(1)] shrinksD(6) [OF assms(2) _ that(2)] shrinksD(3) [OF assms(2), of j]
    by (cases "j < pt_current t1") (auto simp: i)
  moreover have "holds t (int i) x \<and> \<not> (P x \<or> Q x)" if "digits x" "holds t2 (int i) x" for x
    using shrinksD(5) [OF assms(2) that] shrinksD(5) [OF assms(1) that(1)] by blast
  moreover have "p2 j = p j \<and> (\<not> prefix (p i) (p j) \<longrightarrow> pt_block t2 ! j = pt_block t ! j)" if "j < pt_current t" for j
    using shrinksD(2,3,4) [OF assms(1)] shrinksD(3,4) [OF assms(2), of j] that i by simp
  ultimately show ?thesis using assms(1,2) by (simp add: shrinks_def)
qed

lemma shrinks_mono:
  "shrinks m P i t p t' p' \<Longrightarrow> (\<And>x. digits x \<Longrightarrow> Q x \<Longrightarrow> P x) \<Longrightarrow> shrinks m Q i t p t' p'"
  unfolding shrinks_def by blast

section \<open>Clearing and filling a child\<close>

lemma pn_set_NO:
  assumes "node_ok n" and "k \<le> 9"
  shows "node_ok (pn_set k child_NO n)" and "pn_child (pn_set k child_NO n) = (pn_child n)[k := child_NO]"
proof -
  have l: "length (pn_child n) = 10" and c: "pn_count n = card {d. d < 10 \<and> pn_child n ! d = child_ALL}"
    using assms(1) by (auto simp: node_ok_def)
  show ch: "pn_child (pn_set k child_NO n) = (pn_child n)[k := child_NO]"
    using assms(2) by (simp add: pn_set_def child_ALL_def child_NO_def)
  let ?A = "{d. d < 10 \<and> pn_child n ! d = child_ALL}"
  have s: "{d. d < 10 \<and> (pn_child n)[k := child_NO] ! d = child_ALL} = ?A - {k}"
    using l assms(2) by (auto simp: nth_list_update)
  have wrap: "(c + 255) mod 256 = c - 1" if "0 < c" "c \<le> 10" for c :: nat using that by (simp add: mod_if)
  have "pn_count (pn_set k child_NO n) = card (?A - {k})"
  proof (cases "pn_child n ! k = child_ALL")
    case True
    then have k: "k \<in> ?A" using assms(2) by simp
    have "0 < card ?A" using k by (auto simp: card_gt_0_iff)
    then have "(card ?A + 255) mod 256 = card ?A - 1"
      using wrap [of "card ?A"] node_count_le [OF assms(1)] c by simp
    then show ?thesis using True k assms(2) c by (simp add: pn_set_def card_Diff_singleton child_ALL_def child_NO_def)
  next
    case False
    then have "?A - {k} = ?A" by auto
    then show ?thesis using False assms(2) c by (simp add: pn_set_def child_ALL_def child_NO_def)
  qed
  then show "node_ok (pn_set k child_NO n)" using l by (simp add: node_ok_def ch s)
qed

lemma tree_set_NO:
  assumes "tree_ok t p" and "i < pt_current t" and "k \<le> 9"
  obtains t' where "tree_set (int i) k child_NO t = Val t'" and "shrinks m (\<lambda>x. x \<noteq> [] \<and> digit_val (hd x) = k) i t p t' p"
    and "pt_current t' = pt_current t" and "\<And>d. d < 10 \<Longrightarrow> kid t' i d = (if d = k then child_NO else kid t i d)"
proof
  let ?t = "t\<lparr> pt_block := (pt_block t)[i := pn_set k child_NO (pt_block t ! i)] \<rparr>"
  have l: "i < length (pt_block t)" and ok: "node_ok (pt_block t ! i)" using assms by (auto simp: tree_ok_def)
  show "tree_set (int i) k child_NO t = Val ?t" using assms by (simp add: tree_set_def node_at_ok)
  have kid: "kid ?t j d = (if j = i \<and> d = k then child_NO else kid t j d)" if "d < 10" for j d
    using l ok assms(3) that pn_set_NO [OF ok assms(3)] by (auto simp: nth_list_update node_ok_def)
  show "kid ?t i d = (if d = k then child_NO else kid t i d)" if "d < 10" for d using kid [OF that] by simp
  show "pt_current ?t = pt_current t" by simp
  have ok': "tree_ok ?t p"
    unfolding tree_ok_def
  proof (intro conjI allI impI)
    fix j assume "j < length (pt_block ?t)"
    then show "node_ok (pt_block ?t ! j)"
      using pn_set_NO(1) [OF ok assms(3)] tree_okD(4) [OF assms(1), of j] by (cases "j = i") auto
  next
    fix j assume "j < length (pt_block ?t)" "pt_current ?t \<le> j"
    then show "pt_block ?t ! j = PrefixNode_new" using tree_okD(5) [OF assms(1), of j] assms(2) by auto
  next
    fix j d assume j: "j < pt_current ?t" "d < (10::nat)"
    then have "j < pt_current t" by simp
    then show "kid ?t j d = child_ALL \<or> kid ?t j d = child_NO \<or>
      (0 \<le> kid ?t j d \<and> nat (kid ?t j d) < pt_current ?t \<and> p (nat (kid ?t j d)) = p j @ [d])"
      unfolding kid [OF j(2)] by (rule kid_cases [OF assms(1) _ j(2)]) auto
  qed (use tree_okD(1-3) [OF assms(1)] in auto)
  have "holds t (int i) x \<and> \<not> (x \<noteq> [] \<and> digit_val (hd x) = k)" if dx: "digits x" and hx: "holds ?t (int i) x" for x
  proof -
    obtain y ys where x: "x = y # ys" using hx by (cases x) auto
    have y: "digit_val y < 10" "digits ys" using dx digit_val_le [of y] by (auto simp: x)
    have "holds ?t (kid t i (digit_val y)) ys = holds t (kid t i (digit_val y)) ys"
    proof (rule kid_cases [OF assms(1,2) y(1)])
      fix c assume c: "kid t i (digit_val y) = int c" "c < pt_current t" "p c = p i @ [digit_val y]"
      have "pt_block ?t ! j = pt_block t ! j" if "prefix (p c) (p j)" for j
        using that by (cases "j = i") (auto simp: c(3) path_not_below)
      then show ?thesis using holds_frame [OF assms(1) c(2) y(2), of ?t] by (simp only: c(1))
    qed simp_all
    then show ?thesis using kid [OF y(1), of i] hx by (auto simp: x split: if_splits)
  qed
  moreover have "pt_block ?t ! j = pt_block t ! j" if "\<not> prefix (p i) (p j)" for j
    using that by (cases "j = i") auto
  ultimately show "shrinks m (\<lambda>x. x \<noteq> [] \<and> digit_val (hd x) = k) i t p ?t p"
    using ok' by (simp add: shrinks_def)
qed

lemma node_ok_full [simp]: "node_ok (pn_setAll n)"
proof -
  have "{d. d < 10 \<and> replicate 10 child_ALL ! d = child_ALL} = {0..<10::nat}" by auto
  then show ?thesis by (simp add: node_ok_def pn_setAll_def)
qed

text \<open>A child that is \<open>ALL\<close> becomes a node with ten such children.\<close>

definition split_all :: "nat \<Rightarrow> nat \<Rightarrow> PrefixTree \<Rightarrow> PrefixTree exc" where
  "split_all i k t =
     bind_exc (tree_set (int i) k child_NO t) (\<lambda>t1. bind_exc (set_alloc True (int i) k t1) (\<lambda>t2.
       bind_exc (tree_get t2 (int i) k) (\<lambda>c. bind_exc (node_at t2 c) (\<lambda>n.
         Val (t2\<lparr> pt_block := (pt_block t2)[nat c := pn_setAll n] \<rparr>)))))"

lemma split_all_shrinks:
  assumes ok: "tree_ok t p" "i < pt_current t" "k \<le> 9" and all: "kid t i k = child_ALL" and m: "2 \<le> m"
  shows "\<exists>t' p'. split_all i k t = Val t' \<and> shrinks m (\<lambda>x. False) i t p t' p' \<and> kid t' i k = int (pt_current t) \<and>
    pt_current t < pt_current t' \<and> p' (pt_current t) = p i @ [k]"
proof -
  obtain t1 where t1: "tree_set (int i) k child_NO t = Val t1" "shrinks m (\<lambda>x. x \<noteq> [] \<and> digit_val (hd x) = k) i t p t1 p"
      "pt_current t1 = pt_current t" "\<And>d. d < 10 \<Longrightarrow> kid t1 i d = (if d = k then child_NO else kid t i d)"
    using tree_set_NO [OF ok] by blast
  let ?c = "pt_current t"
  have ok1: "tree_ok t1 p" "i < pt_current t1" "kid t1 i k = child_NO" "room True 1 t1"
    using shrinksD(1) [OF t1(2)] ok t1(3,4) by (auto simp: room_def)
  obtain t2 p2 where t2: "set_alloc True (int i) k t1 = Val t2" "grows m 1 (\<lambda>x. False) i t1 p t2 p2"
      "kid t2 i k = int ?c" "pt_current t2 = ?c + 1" "\<And>x. digits x \<Longrightarrow> holds t2 (int i) x = holds t1 (int i) x"
      "p2 = p(?c := p i @ [k])" "\<And>j. j < ?c \<Longrightarrow> j \<noteq> i \<Longrightarrow> pt_block t2 ! j = pt_block t1 ! j"
    using set_alloc_full [OF ok1(1,2) ok(3) ok1(3,4) m] unfolding t1(3) by blast
  have ok2: "tree_ok t2 p2" "?c < length (pt_block t2)" "i < pt_current t2"
    using growsD(1) [OF t2(2)] t2(4) ok(2) by (auto simp: tree_ok_def)
  have p2: "p2 i = p i" "p2 ?c = p i @ [k]" using t2(6) ok(2) by auto
  let ?t = "t2\<lparr> pt_block := (pt_block t2)[?c := pn_setAll (pt_block t2 ! ?c)] \<rparr>"
  have run: "split_all i k t = Val ?t"
    using t1(1) t2(1) tree_get_ok [OF ok2(1,3) ok(3)] t2(3) ok2(2) by (simp add: split_all_def node_at_def)
  have kid: "kid ?t j d = (if j = ?c then child_ALL else kid t2 j d)" if "d < 10" for j d
    using that ok2(2) by (auto simp: nth_list_update pn_setAll_def)
  have ok3: "tree_ok ?t p2"
    unfolding tree_ok_def
  proof (intro conjI allI impI)
    fix j assume "j < length (pt_block ?t)"
    then show "node_ok (pt_block ?t ! j)" using tree_okD(4) [OF ok2(1), of j] ok2(2) by (cases "j = ?c") auto
  next
    fix j assume "j < length (pt_block ?t)" "pt_current ?t \<le> j"
    then show "pt_block ?t ! j = PrefixNode_new" using tree_okD(5) [OF ok2(1), of j] t2(4) by auto
  next
    fix j d assume j: "j < pt_current ?t" "d < (10::nat)"
    then have "j < pt_current t2" by simp
    then show "kid ?t j d = child_ALL \<or> kid ?t j d = child_NO \<or>
      (0 \<le> kid ?t j d \<and> nat (kid ?t j d) < pt_current ?t \<and> p2 (nat (kid ?t j d)) = p2 j @ [d])"
      unfolding kid [OF j(2)] by (rule kid_cases [OF ok2(1) _ j(2)]) auto
  qed (use tree_okD(1-3) [OF ok2(1)] in auto)
  have "holds t (int i) x" if dx: "digits x" and hx: "holds ?t (int i) x" for x
  proof -
    obtain y ys where x: "x = y # ys" using hx by (cases x) auto
    have y: "digit_val y < 10" "digits ys" using dx digit_val_le [of y] by (auto simp: x)
    show ?thesis
    proof (cases "digit_val y = k")
      case True
      then show ?thesis by (simp add: x all)
    next
      case False
      have "holds ?t (kid t2 i (digit_val y)) ys = holds t2 (kid t2 i (digit_val y)) ys"
      proof (rule kid_cases [OF ok2(1,3) y(1)])
        fix e assume e: "kid t2 i (digit_val y) = int e" "e < pt_current t2" "p2 e = p2 i @ [digit_val y]"
        have "pt_block ?t ! j = pt_block t2 ! j" if "prefix (p2 e) (p2 j)" for j
          using that False by (cases "j = ?c") (auto simp: e(3) p2 path_not_below)
        then show ?thesis using holds_frame [OF ok2(1) e(2) y(2), of ?t] by (simp only: e(1))
      qed simp_all
      then have "holds t2 (int i) x" using hx kid [OF y(1), of i] ok(2) by (simp add: x)
      then show ?thesis using t2(5) [OF dx] shrinksD(5) [OF t1(2) dx] by blast
    qed
  qed
  moreover have "p2 j = p j \<and> (\<not> prefix (p i) (p j) \<longrightarrow> pt_block ?t ! j = pt_block t ! j)" if "j < ?c" for j
    using that t2(6) t2(7) [of j] shrinksD(4) [OF t1(2) that] by (cases "j = i") auto
  ultimately have "shrinks m (\<lambda>x. False) i t p ?t p2"
    using ok3 t1(2) t2(2,4,6) m by (simp add: shrinks_def grows_def)
  then show ?thesis using run kid [of k i] ok(2,3) t2(3,4,6) by auto
qed

section \<open>One child of the loop\<close>

lemma child_shrinks:
  assumes ok: "tree_ok t p" "i < pt_current t" and c: "kid t i k = int c" "c < pt_current t" "p c = p i @ [k]"
    and g: "shrinks m P c t p t1 p1"
  shows "shrinks (Suc m) (\<lambda>x. x \<noteq> [] \<and> digit_val (hd x) = k \<and> P (tl x)) i t p t1 p1" and "kid t1 i k = int c"
proof -
  have bi: "pt_block t1 ! i = pt_block t ! i" using shrinksD(4) [OF g ok(2)] by (simp add: c(3) path_not_below)
  then show "kid t1 i k = int c" using c(1) by simp
  have "holds t (int i) x \<and> \<not> (x \<noteq> [] \<and> digit_val (hd x) = k \<and> P (tl x))" if dx: "digits x" and hx: "holds t1 (int i) x" for x
  proof -
    obtain y ys where x: "x = y # ys" using hx by (cases x) auto
    have y: "digit_val y < 10" "digits ys" using dx digit_val_le [of y] by (auto simp: x)
    show ?thesis
    proof (cases "digit_val y = k")
      case True
      then show ?thesis using shrinksD(5) [OF g y(2)] hx by (simp add: x bi c(1))
    next
      case False
      have "holds t1 (kid t i (digit_val y)) ys = holds t (kid t i (digit_val y)) ys"
      proof (rule kid_cases [OF ok y(1)])
        fix e assume e: "kid t i (digit_val y) = int e" "e < pt_current t" "p e = p i @ [digit_val y]"
        have "pt_block t1 ! j = pt_block t ! j" if "j < pt_current t" "prefix (p e) (p j)" for j
          using shrinksD(4) [OF g that(1)] that(2) False siblings [of "p i" k "p j" "digit_val y"] by (auto simp: e(3) c(3))
        then show ?thesis using holds_frame [OF ok(1) e(2) y(2), of t1] by (simp only: e(1))
      qed simp_all
      then show ?thesis using False hx by (simp add: x bi)
    qed
  qed
  moreover have "pt_block t1 ! j = pt_block t ! j" if "j < pt_current t" "\<not> prefix (p i) (p j)" for j
    using shrinksD(4) [OF g that(1)] that(2) by (auto simp: c(3) dest: append_prefixD)
  moreover have "length (p1 j) < length (p i) + Suc m" if "pt_current t \<le> j" "j < pt_current t1" for j
    using shrinksD(6) [OF g that] by (simp add: c(3))
  ultimately show "shrinks (Suc m) (\<lambda>x. x \<noteq> [] \<and> digit_val (hd x) = k \<and> P (tl x)) i t p t1 p1"
    using g by (simp add: shrinks_def)
qed

text \<open>The body of the loop of \<open>subNode\<close> for one digit.\<close>

definition sub_child :: "nat \<Rightarrow> PrefixTree \<Rightarrow> int \<Rightarrow> nat \<Rightarrow> PrefixTree \<Rightarrow> nat \<Rightarrow> PrefixTree exc" where
  "sub_child depth tree input output t k =
     bind_exc (tree_get t (int output) k) (\<lambda>v.
         if v = child_NO then Val t
         else bind_exc (tree_get tree input k) (\<lambda>w.
           if w = child_ALL then tree_set (int output) k child_NO t
           else if w \<noteq> child_NO then
             bind_exc (if v = child_ALL then split_all output k t else Val t) (\<lambda>t3.
               bind_exc (tree_get t3 (int output) k) (\<lambda>c.
                 bind_exc (subNode depth True tree w c t3) (\<lambda>(res, t4).
                   if res = 0 then tree_set (int output) k child_NO t4 else Val t4)))
           else Val t))"

lemma subNode_loop:
  "subNode (Suc depth) True tree input (int output) t =
     bind_exc (foldl (\<lambda>m k. bind_exc m (\<lambda>t. sub_child depth tree input output t k)) (Val t) [0..<10]) (with_count (int output))"
  by (simp only: subNode.simps sub_child_def split_all_def)

lemma sub_child_shrinks:
  assumes tr: "tree_ok tree q" "iw < pt_current tree" and n: "\<And>j. j < pt_current tree \<Longrightarrow> length (q j) < n"
    and ok: "tree_ok t p" "i < pt_current t" and k: "k < 10"
    and IH: "\<And>w t p c. w < pt_current tree \<Longrightarrow> length (q w) = Suc (length (q iw)) \<Longrightarrow> tree_ok t p \<Longrightarrow> c < pt_current t \<Longrightarrow>
      \<exists>t' p'. subNode depth True tree (int w) (int c) t = Val (pn_count (pt_block t' ! c), t') \<and>
        shrinks (n - length (q w)) (holds tree (int w)) c t p t' p'"
  shows "\<exists>t' p'. sub_child depth tree (int iw) i t k = Val t' \<and>
    shrinks (n - length (q iw)) (\<lambda>x. x \<noteq> [] \<and> digit_val (hd x) = k \<and> holds tree (int iw) x) i t p t' p'"
proof -
  let ?m = "n - length (q iw)"
  let ?P = "\<lambda>x. x \<noteq> [] \<and> digit_val (hd x) = k \<and> holds tree (int iw) x"
  have k9: "k \<le> 9" using k by simp
  have get: "tree_get t (int i) k = Val (kid t i k)" and getw: "tree_get tree (int iw) k = Val (kid tree iw k)"
    using tree_get_ok [OF ok k9] tree_get_ok [OF tr k9] by auto
  show ?thesis
  proof (cases "kid t i k = child_NO")
    case True
    have "shrinks ?m ?P i t p t p" by (rule shrinks_refl [OF ok(1)]) (use True in \<open>auto simp: neq_Nil_conv\<close>)
    then show ?thesis using True get by (auto simp: sub_child_def)
  next
    case v: False
    show ?thesis
    proof (rule kid_cases [OF tr k])
      assume w: "kid tree iw k = child_ALL"
      obtain t1 where "tree_set (int i) k child_NO t = Val t1" "shrinks ?m (\<lambda>x. x \<noteq> [] \<and> digit_val (hd x) = k) i t p t1 p"
        using tree_set_NO [OF ok k9] by blast
      then show ?thesis using shrinks_mono [of ?m _ i t p t1 p ?P] v w get getw by (auto simp: sub_child_def)
    next
      assume w: "kid tree iw k = child_NO"
      have "shrinks ?m ?P i t p t p" by (rule shrinks_refl [OF ok(1)]) (use w in \<open>auto simp: neq_Nil_conv\<close>)
      then show ?thesis using v w get getw by (auto simp: sub_child_def)
    next
      fix w assume w: "kid tree iw k = int w" "w < pt_current tree" "q w = q iw @ [k]"
      have m: "Suc (n - length (q w)) = ?m" "2 \<le> ?m" using n [OF w(2)] by (simp_all add: w(3))
      have "\<exists>t3 p3 c. (if kid t i k = child_ALL then split_all i k t else Val t) = Val t3 \<and>
          shrinks ?m (\<lambda>x. False) i t p t3 p3 \<and> kid t3 i k = int c \<and> c < pt_current t3 \<and> p3 c = p3 i @ [k]"
      proof (rule kid_cases [OF ok k])
        assume all: "kid t i k = child_ALL"
        obtain t' p' where t': "split_all i k t = Val t'" "shrinks ?m (\<lambda>x. False) i t p t' p'" "kid t' i k = int (pt_current t)"
            "pt_current t < pt_current t'" "p' (pt_current t) = p i @ [k]"
          using split_all_shrinks [OF ok k9 all m(2)] by blast
        then show ?thesis using all shrinksD(3) [OF t'(2) ok(2)] by auto
      next
        fix c assume "kid t i k = int c" "c < pt_current t" "p c = p i @ [k]"
        moreover have "shrinks ?m (\<lambda>x. False) i t p t p" by (rule shrinks_refl [OF ok(1)]) simp
        ultimately show ?thesis by auto
      qed (use v in simp)
      then obtain t3 p3 c where t3: "(if kid t i k = child_ALL then split_all i k t else Val t) = Val t3"
          "shrinks ?m (\<lambda>x. False) i t p t3 p3" "kid t3 i k = int c" "c < pt_current t3" "p3 c = p3 i @ [k]" by blast
      have ok3: "tree_ok t3 p3" "i < pt_current t3" using shrinksD(1,2) [OF t3(2)] ok(2) by auto
      obtain t4 p4 where t4: "subNode depth True tree (int w) (int c) t3 = Val (pn_count (pt_block t4 ! c), t4)"
          "shrinks (n - length (q w)) (holds tree (int w)) c t3 p3 t4 p4"
        using IH [OF w(2) _ ok3(1) t3(4)] w(3) by auto
      have g4: "shrinks ?m (\<lambda>x. x \<noteq> [] \<and> digit_val (hd x) = k \<and> holds tree (int w) (tl x)) i t3 p3 t4 p4"
        using child_shrinks(1) [OF ok3 t3(3-5) t4(2)] by (simp only: m(1))
      have g: "shrinks ?m ?P i t p t4 p4"
        by (rule shrinks_mono [OF shrinks_trans [OF t3(2) g4 ok(2)]]) (use w(1) in \<open>auto simp: neq_Nil_conv\<close>)
      have get3: "tree_get t3 (int i) k = Val (int c)" using tree_get_ok [OF ok3 k9] t3(3) by simp
      have ok4: "tree_ok t4 p4" "i < pt_current t4" using shrinksD(1,2) [OF g] ok(2) by auto
      obtain t5 where t5: "tree_set (int i) k child_NO t4 = Val t5" "shrinks ?m (\<lambda>x. x \<noteq> [] \<and> digit_val (hd x) = k) i t4 p4 t5 p4"
        using tree_set_NO [OF ok4 k9] by blast
      have g5: "shrinks ?m ?P i t p t5 p4"
        by (rule shrinks_mono [OF shrinks_trans [OF g t5(2) ok(2)]]) auto
      have run: "sub_child depth tree (int iw) i t k =
          (if pn_count (pt_block t4 ! c) = 0 then tree_set (int i) k child_NO t4 else Val t4)"
        using v w(1) get getw t3(1) get3 t4(1) by (simp add: sub_child_def cong: if_cong)
      show ?thesis unfolding run using g g5 t5(1) by auto
    qed
  qed
qed

section \<open>The whole subtraction\<close>

lemma sub_loop_shrinks:
  assumes step: "\<And>t p k. tree_ok t p \<Longrightarrow> i < pt_current t \<Longrightarrow> k \<in> set ks \<Longrightarrow>
      \<exists>t' p'. f t k = Val t' \<and> shrinks m (P k) i t p t' p'" and ok: "tree_ok t p" "i < pt_current t"
  shows "\<exists>t' p'. foldl (\<lambda>m k. bind_exc m (\<lambda>t. f t k)) (Val t) ks = Val t' \<and>
    shrinks m (\<lambda>x. \<exists>k \<in> set ks. P k x) i t p t' p'"
  using assms
proof (induction ks arbitrary: t p)
  case Nil
  then show ?case by (auto intro: shrinks_refl)
next
  case (Cons k ks)
  obtain t1 p1 where t1: "f t k = Val t1" "shrinks m (P k) i t p t1 p1" using Cons.prems(1) [OF Cons.prems(2,3), of k] by auto
  have ok1: "tree_ok t1 p1" "i < pt_current t1" using shrinksD(1,2) [OF t1(2)] Cons.prems(3) by auto
  have step: "\<exists>t' p'. f t k = Val t' \<and> shrinks m (P k) i t p t' p'"
    if "tree_ok t p" "i < pt_current t" "k \<in> set ks" for t p k
    by (rule Cons.prems(1) [OF that(1,2)]) (use that(3) in simp)
  obtain t2 p2 where t2: "foldl (\<lambda>m k. bind_exc m (\<lambda>t. f t k)) (Val t1) ks = Val t2"
      "shrinks m (\<lambda>x. \<exists>k \<in> set ks. P k x) i t1 p1 t2 p2"
    using Cons.IH [OF step ok1] by blast
  have "shrinks m (\<lambda>x. \<exists>k \<in> set (k # ks). P k x) i t p t2 p2"
    by (rule shrinks_mono [OF shrinks_trans [OF t1(2) t2(2) Cons.prems(3)]]) auto
  then show ?case using t1(1) t2(1) by auto
qed

lemma subNode_shrinks:
  assumes tr: "tree_ok tree q" and n: "\<And>j. j < pt_current tree \<Longrightarrow> length (q j) < n"
    and "iw < pt_current tree" and "n \<le> length (q iw) + depth" and "tree_ok t p" and "i < pt_current t"
  shows "\<exists>t' p'. subNode depth True tree (int iw) (int i) t = Val (pn_count (pt_block t' ! i), t') \<and>
    shrinks (n - length (q iw)) (holds tree (int iw)) i t p t' p'"
  using assms(3-6)
proof (induction depth arbitrary: iw t p i)
  case 0
  then show ?case using n [of iw] by simp
next
  case (Suc depth)
  let ?m = "n - length (q iw)"
  have IH: "\<exists>t' p'. subNode depth True tree (int w) (int c) t = Val (pn_count (pt_block t' ! c), t') \<and>
        shrinks (n - length (q w)) (holds tree (int w)) c t p t' p'"
    if "w < pt_current tree" "length (q w) = Suc (length (q iw))" "tree_ok t p" "c < pt_current t" for w t p c
    by (rule Suc.IH [OF that(1) _ that(3,4)]) (use Suc.prems(2) that(2) in simp)
  have "\<exists>t' p'. sub_child depth tree (int iw) i t k = Val t' \<and>
      shrinks ?m (\<lambda>x. x \<noteq> [] \<and> digit_val (hd x) = k \<and> holds tree (int iw) x) i t p t' p'"
    if "tree_ok t p" "i < pt_current t" "k \<in> set [0..<10]" for t p k
  proof -
    have k: "k < 10" using that(3) by simp
    show ?thesis by (rule sub_child_shrinks [OF tr Suc.prems(1) n that(1,2) k IH])
  qed
  from sub_loop_shrinks [of i "[0..<10]" "sub_child depth tree (int iw) i" ?m
      "\<lambda>k x. x \<noteq> [] \<and> digit_val (hd x) = k \<and> holds tree (int iw) x", OF this Suc.prems(3,4)]
  obtain t' p' where t': "foldl (\<lambda>m k. bind_exc m (\<lambda>t. sub_child depth tree (int iw) i t k)) (Val t) [0..<10] = Val t'"
      "shrinks ?m (\<lambda>x. \<exists>k \<in> set [0..<10]. x \<noteq> [] \<and> digit_val (hd x) = k \<and> holds tree (int iw) x) i t p t' p'" by auto
  have "shrinks ?m (holds tree (int iw)) i t p t' p'"
  proof (rule shrinks_mono [OF t'(2)])
    fix x assume "digits x" "holds tree (int iw) x"
    then show "\<exists>k \<in> set [0..<10]. x \<noteq> [] \<and> digit_val (hd x) = k \<and> holds tree (int iw) x"
      using digit_val_le [of "hd x"] by (cases x) auto
  qed
  then show ?case
    using t'(1) with_count_ok [OF shrinksD(1) [OF t'(2)], of i] shrinksD(2) [OF t'(2)] Suc.prems(4)
    unfolding subNode_loop by auto
qed

lemma subTree_rooted:
  assumes "rooted n minusTree q" and "rooted n t p" and "n \<le> 31"
  shows "\<exists>t' p'. subTree 31 True minusTree t = Val t' \<and> rooted n t' p' \<and>
    (\<forall>x. digits x \<and> holds t' 0 x \<longrightarrow> holds t 0 x \<and> \<not> holds minusTree 0 x)"
proof -
  have m: "tree_ok minusTree q" "\<And>j. j < pt_current minusTree \<Longrightarrow> length (q j) < n" "0 < pt_current minusTree"
      "n \<le> length (q 0) + 31" "q 0 = []" and t: "tree_ok t p" "0 < pt_current t" "p 0 = []" "pt_master t = 0"
    using assms by (auto simp: rooted_def tree_ok_def)
  obtain t' p' where t': "subNode 31 True minusTree (int 0) (int 0) t = Val (pn_count (pt_block t' ! 0), t')"
      "shrinks (n - length (q 0)) (holds minusTree (int 0)) 0 t p t' p'"
    using subNode_shrinks [OF m(1-4) t(1,2)] by blast
  have "length (p' j) < n" if "j < pt_current t'" for j
    using that shrinksD(3) [OF t'(2), of j] shrinksD(6) [OF t'(2) _ that] assms(2) t(3) m(5)
    by (cases "j < pt_current t") (auto simp: rooted_def)
  then have "rooted n t' p'"
    using t'(2) t shrinksD(1) [OF t'(2)] shrinksD(3) [OF t'(2) t(2)] by (simp add: rooted_def shrinks_def)
  then show ?thesis using t'(1) shrinksD(5) [OF t'(2)] by (auto simp: subTree_def)
qed

text \<open>C20: the list of prefixes made for a destination (\<open>Repository::getPrefixByNNPDestination\<close>) is safe: a number
  that begins with one of the printed prefixes lies in a range that the destination adds and in none that it takes
  away.\<close>

theorem getPrefixByNNPDestination_safe:
  assumes dest: "getPrefixsByNNPDestination (rp_nnpPrefixDestination rp) destinationId = (prefixPlus, prefixMinus)"
    and valid: "\<And>r. r \<in> set (ranges_of_prefixes rp (prefixPlus @ prefixMinus)) \<Longrightarrow> valid_range 18 (range_pair r)"
  shows "\<exists>prefixList. getPrefixByNNPDestination True rp destinationId = Val prefixList \<and>
    (\<forall>x. 0 \<le> x \<and> (\<forall>r \<in> set (ranges_of_prefixes rp (prefixPlus @ prefixMinus)). length (lld (snd (range_pair r))) \<le> length (lld x)) \<and>
       (\<exists>q \<in> set prefixList. prefix (lld q) (lld x)) \<longrightarrow>
       (\<exists>r \<in> set (ranges_of_prefixes rp prefixPlus). in_range (range_pair r) x) \<and>
       \<not> (\<exists>r \<in> set (ranges_of_prefixes rp prefixMinus). in_range (range_pair r) x))"
proof -
  let ?plus = "ranges_of_prefixes rp prefixPlus" and ?minus = "ranges_of_prefixes rp prefixMinus"
  have app: "set (ranges_of_prefixes rp (prefixPlus @ prefixMinus)) = set ?plus \<union> set ?minus"
    by (simp add: ranges_of_prefixes_def map_filter_def)
  have rm: "room True a t" for a t by (simp add: room_def)
  have vp: "valid_range 18 (range_pair r)" if "r \<in> set ?plus" for r using valid that by (simp add: app)
  have vm: "valid_range 18 (range_pair r)" if "r \<in> set ?minus" for r using valid that by (simp add: app)
  have rn: "rooted 18 (PrefixTree_new 10000) (\<lambda>_. [])" by (rule rooted_new(1)) simp_all
  obtain t p where t: "add_ranges True ?plus (PrefixTree_new 10000) = Val t" "rooted 18 t p"
      "\<And>x. digits x \<Longrightarrow> (\<forall>r \<in> set ?plus. length (lld (snd (range_pair r))) \<le> length x) \<Longrightarrow>
         holds t 0 x = (holds (PrefixTree_new 10000) 0 x \<or> (\<exists>r \<in> set ?plus. covered (range_pair r) x))"
    using add_ranges_holds [where rs = ?plus, OF rn _ rm] vp by blast
  obtain m q where m: "add_ranges True ?minus (PrefixTree_new 10000) = Val m" "rooted 18 m q"
      "\<And>x. digits x \<Longrightarrow> (\<forall>r \<in> set ?minus. length (lld (snd (range_pair r))) \<le> length x) \<Longrightarrow>
         holds m 0 x = (holds (PrefixTree_new 10000) 0 x \<or> (\<exists>r \<in> set ?minus. covered (range_pair r) x))"
    using add_ranges_holds [where rs = ?minus, OF rn _ rm] vm by blast
  have new: "\<not> holds (PrefixTree_new 10000) 0 x" if "digits x" for x by (rule rooted_new(4) [of 10000 18, OF _ _ that]) simp_all
  obtain rest p' where rest: "subTree 31 True m t = Val rest" "rooted 18 rest p'"
      "\<And>x. digits x \<Longrightarrow> holds rest 0 x \<Longrightarrow> holds t 0 x \<and> \<not> holds m 0 x"
    using subTree_rooted [OF m(2) t(2)] by auto
  have "\<not> holds rest 0 x" if x: "digits x" "18 \<le> length x" "hd x = CHR ''0''" for x
  proof -
    have "\<forall>r \<in> set ?plus. length (lld (snd (range_pair r))) \<le> length x" using vp x(2) by (fastforce simp: valid_range_def)
    moreover have "\<not> covered (range_pair r) x" if "r \<in> set ?plus" for r
      using covered_no_leading_zero [of "range_pair r" x] vp [OF that] x by (cases "x = []") (auto simp: valid_range_def)
    ultimately show ?thesis using t(3) [OF x(1)] new [OF x(1)] rest(3) [OF x(1)] by blast
  qed
  then obtain ps where ps: "print_tree 31 [] 0 rest = Val ps"
      "\<And>x. 0 \<le> x \<Longrightarrow> (\<exists>q \<in> set ps. prefix (lld q) (lld x)) = holds rest 0 (lld x)"
    using printed_prefixes [OF rest(2)] by blast
  have "(\<exists>r \<in> set ?plus. in_range (range_pair r) x) \<and> \<not> (\<exists>r \<in> set ?minus. in_range (range_pair r) x)"
    if x: "0 \<le> x" "\<forall>r \<in> set (ranges_of_prefixes rp (prefixPlus @ prefixMinus)). length (lld (snd (range_pair r))) \<le> length (lld x)"
      "\<exists>q \<in> set ps. prefix (lld q) (lld x)" for x
  proof -
    note d = digits_lld [OF x(1)]
    have "holds t 0 (lld x)" "\<not> holds m 0 (lld x)" using rest(3) [OF d] ps(2) [OF x(1)] x(3) by auto
    then show ?thesis using t(3) [OF d] m(3) [OF d] new [OF d] x(2) covered_lld [OF vp x(1)] covered_lld [OF vm x(1)]
      by (auto simp: app)
  qed
  then show ?thesis using dest t(1) m(1) rest(1) ps(1) by (auto simp: getPrefixByNNPDestination_def)
qed

end
