(* ===== verification/Prefix_Tree_Samples.thy ===== *)
theory Prefix_Tree_Samples
  imports Prefix_Tree_Minus Sample_Data
begin

text \<open>Concrete trees and ranges for the properties of the decimal trie, and a subtraction that goes wrong.\<close>

section \<open>Taking away\<close>

definition plus_ranges :: "NNPNumberRange list" where
  "plus_ranges = [sample_range 110 111, sample_range 120 121]"

definition minus_ranges :: "NNPNumberRange list" where
  "minus_ranges = [sample_range 110 110]"

text \<open>What the three trees answer for a number, and what is left when the second is taken from the first.\<close>

definition taken_away :: "int \<Rightarrow> (bool \<times> bool \<times> bool) exc" where
  "taken_away x =
     bind_exc (add_ranges True plus_ranges (PrefixTree_new 20)) (\<lambda>plusTree.
       bind_exc (add_ranges True minus_ranges (PrefixTree_new 20)) (\<lambda>minusTree.
         bind_exc (subTree 31 True minusTree plusTree) (\<lambda>rest.
           bind_exc (checkInclusion (lld x) 0 plusTree) (\<lambda>a.
             bind_exc (checkInclusion (lld x) 0 minusTree) (\<lambda>b.
               bind_exc (checkInclusion (lld x) 0 rest) (\<lambda>c. Val (a, b, c)))))))"

text \<open>\<open>subTree\<close> loses numbers. \<open>subNode\<close> returns the number of children that are \<open>ALL\<close>, and its caller drops the
  child when that is zero, although children that are nodes may be left: taking 110 from the ranges 110 to 111 and
  120 to 121 leaves nothing of 111, 120 and 121.\<close>

theorem subTree_loses_numbers:
  "taken_away 110 = Val (True, True, False) \<and> taken_away 111 = Val (True, False, False) \<and>
   taken_away 120 = Val (True, False, False)"
  by code_simp

section \<open>Witnesses\<close>

lemma sample_lengths: "length (lld 120) = 3" "length (lld 457) = 3" "length (lld 300) = 3" "length (lld 500) = 3" "length (lld 310) = 3"
  by code_simp+

lemma sample_valid: "valid_range 3 (120, 457)" "valid_range 18 (120, 457)" "valid_range 18 (310, 457)"
  by (simp_all add: valid_range_def sample_lengths)

lemma sample_in_range:
  "in_range (120, 457) 300" "\<not> in_range (120, 457) 500" "\<not> in_range (310, 457) 300" "in_range (310, 457) 310"
  by (simp_all add: in_range_def leading_def sample_lengths)

lemma addRange_exact_witness:
  "\<exists>t'. addRange_pair False (120, 457) (PrefixTree_new 100) = Val t' \<and>
     checkInclusion (lld 300) 0 t' = Val True \<and> checkInclusion (lld 500) 0 t' = Val False"
proof -
  have r: "rooted 3 (PrefixTree_new 100) (\<lambda>_. [])" "room False (2 * (3 - 1)) (PrefixTree_new 100)"
    using rooted_new(1-3) [of 100 3] by (simp_all add: room_def)
  have no: "checkInclusion (lld 300) 0 (PrefixTree_new 100) \<noteq> Val True" "checkInclusion (lld 500) 0 (PrefixTree_new 100) \<noteq> Val True"
    by code_simp+
  obtain t' where t': "addRange_pair False (120, 457) (PrefixTree_new 100) = Val t'"
      "\<And>x. 0 \<le> x \<Longrightarrow> length (lld 457) \<le> length (lld x) \<Longrightarrow> checkInclusion (lld x) 0 t' =
         Val (checkInclusion (lld x) 0 (PrefixTree_new 100) = Val True \<or> in_range (120, 457) x)"
    using addRange_exact [OF r(1) sample_valid(1) r(2)] by auto
  show ?thesis using t'(1) t'(2) [of 300] t'(2) [of 500] no sample_in_range by (auto simp: sample_lengths)
qed

definition range_repo :: Repo where
  "range_repo = empty_repo\<lparr> rp_nnpNumberRange := [(sample_range 120 457)\<lparr> nr_id := 1 \<rparr>, (sample_range 310 457)\<lparr> nr_id := 2, nr_country_code := 36 \<rparr>],
     rp_nnpNumberRangePrefix := [\<lparr> nx_nnp_prefix_id = 1, nx_nnp_number_range_id = 1, nx_insert_time = 0 \<rparr>, \<lparr> nx_nnp_prefix_id = 2, nx_nnp_number_range_id = 2, nx_insert_time = 0 \<rparr>],
     rp_nnpPrefixDestination := [\<lparr> nd_nnp_prefix_id = 1, nd_nnp_destination_id = 5, nd_is_addition = True, nd_insert_time = 0 \<rparr>,
       \<lparr> nd_nnp_prefix_id = 2, nd_nnp_destination_id = 5, nd_is_addition = False, nd_insert_time = 0 \<rparr>] \<rparr>"

definition country_filter :: RangeFilter where
  "country_filter = \<lparr> rf_country_code = 643, rf_operator_list = [], rf_oper_excluded = False, rf_region_id = 0,
     rf_city_id = 0, rf_ndc_type_id = 0 \<rparr>"

lemma range_repo_rows:
  "rp_nnpNumberRange range_repo = [(sample_range 120 457)\<lparr> nr_id := 1 \<rparr>, (sample_range 310 457)\<lparr> nr_id := 2, nr_country_code := 36 \<rparr>]"
  by (simp add: range_repo_def)

lemma getPrefixByFilter_exact_witness:
  "\<exists>prefixList. getPrefixByFilter False range_repo country_filter = Val prefixList \<and>
     (\<exists>q. q \<in> set prefixList \<and> prefix (lld q) (lld 300)) \<and> \<not> (\<exists>q. q \<in> set prefixList \<and> prefix (lld q) (lld 500))"
proof -
  have sel: "range_selected country_filter ((sample_range 120 457)\<lparr> nr_id := 1 \<rparr>)"
      "\<not> range_selected country_filter ((sample_range 310 457)\<lparr> nr_id := 2, nr_country_code := 36 \<rparr>)"
    by (simp_all add: range_selected_def country_filter_def sample_range_def)
  have pair: "range_pair ((sample_range 120 457)\<lparr> nr_id := 1 \<rparr>) = (120, 457)" by (simp add: range_pair_def sample_range_def)
  have len: "nr_full_number_to ((sample_range 120 457)\<lparr> nr_id := 1 \<rparr>) = 457" by (simp add: sample_range_def)
  have "valid_range 18 (range_pair r)" if "r \<in> set (rp_nnpNumberRange range_repo)" "range_selected country_filter r" for r
    using that sel pair sample_valid(2) by (auto simp: range_repo_rows)
  then obtain ps where ps: "getPrefixByFilter False range_repo country_filter = Val ps"
      "\<And>x. 0 \<le> x \<Longrightarrow> (\<forall>r \<in> set (rp_nnpNumberRange range_repo). range_selected country_filter r \<longrightarrow> length (lld (nr_full_number_to r)) \<le> length (lld x)) \<Longrightarrow>
       (\<exists>q \<in> set ps. prefix (lld q) (lld x)) =
       (\<exists>r \<in> set (rp_nnpNumberRange range_repo). range_selected country_filter r \<and> in_range (range_pair r) x)"
    using getPrefixByFilter_exact [of range_repo country_filter False] sel by (auto simp: range_repo_rows)
  have "(\<exists>q \<in> set ps. prefix (lld q) (lld 300))" "\<not> (\<exists>q \<in> set ps. prefix (lld q) (lld 500))"
    using ps(2) [of 300] ps(2) [of 500] sel pair len sample_in_range by (auto simp: range_repo_rows sample_lengths)
  then show ?thesis using ps(1) by blast
qed

lemma range_repo_ranges:
  "ranges_of_prefixes range_repo [1] = [(sample_range 120 457)\<lparr> nr_id := 1 \<rparr>]"
  "ranges_of_prefixes range_repo [1, 2] = rp_nnpNumberRange range_repo"
  "ranges_of_prefixes range_repo [2] = [(sample_range 310 457)\<lparr> nr_id := 2, nr_country_code := 36 \<rparr>]"
  by (simp_all add: ranges_of_prefixes_def range_repo_def getNumberRangesByNNPPrefix_def getNNPNumberRangeById_def
      sample_range_def map_filter_def first_of_def range_simps)

lemma getPrefixByNNPDestination_safe_witness:
  "\<exists>prefixList. getPrefixByNNPDestination True range_repo 5 = Val prefixList \<and> \<not> (\<exists>q. q \<in> set prefixList \<and> prefix (lld q) (lld 310))"
proof -
  have dest: "getPrefixsByNNPDestination (rp_nnpPrefixDestination range_repo) 5 = ([1], [2])"
    by (simp add: getPrefixsByNNPDestination_def range_repo_def)
  have pairs: "range_pair ((sample_range 120 457)\<lparr> nr_id := 1 \<rparr>) = (120, 457)"
      "range_pair ((sample_range 310 457)\<lparr> nr_id := 2, nr_country_code := 36 \<rparr>) = (310, 457)"
    by (simp_all add: range_pair_def sample_range_def)
  have "valid_range 18 (range_pair r)" if "r \<in> set (ranges_of_prefixes range_repo ([1] @ [2]))" for r
    using that pairs sample_valid by (auto simp: range_repo_ranges range_repo_rows)
  then obtain ps where ps: "getPrefixByNNPDestination True range_repo 5 = Val ps"
      "\<And>x. 0 \<le> x \<Longrightarrow> (\<forall>r \<in> set (ranges_of_prefixes range_repo ([1] @ [2])). length (lld (snd (range_pair r))) \<le> length (lld x)) \<Longrightarrow>
         (\<exists>q \<in> set ps. prefix (lld q) (lld x)) \<Longrightarrow> \<not> (\<exists>r \<in> set (ranges_of_prefixes range_repo [2]). in_range (range_pair r) x)"
    using getPrefixByNNPDestination_safe [OF dest] by blast
  have "\<not> (\<exists>q \<in> set ps. prefix (lld q) (lld 310))"
    using ps(2) [of 310] pairs sample_in_range by (auto simp: range_repo_ranges range_repo_rows sample_lengths)
  then show ?thesis using ps(1) by blast
qed

end
