(* ===== verification/Cdr_Parser.thy ===== *)
theory Cdr_Parser
  imports Voip_Prelude "HOL-Library.Sublist"
begin

text \<open>
  \<^verbatim>\<open>src/src-bill/classes/CdrParser.cpp\<close>: a file of call records is cut at its tags, and the fields of each record
  are taken out of it; \<^verbatim>\<open>src/src-bill/threads/ThreadCdrParser.cpp\<close>: the files of the switch are taken in their
  order, parsed and stored.
  A position in a text is a number, \<open>npos\<close> is \<open>None\<close>; positions wrap around only where the source adds to \<open>npos\<close>,
  which is written out. The MD5 digest, the FTP server and the stored procedures of the data base are parameters.
\<close>

section \<open>Texts\<close>

text \<open>\<open>s.find(pat, pos)\<close> for a pattern that is not empty.\<close>

definition find_from :: "string \<Rightarrow> string \<Rightarrow> nat \<Rightarrow> nat option" where
  "find_from s pat pos =
     (case strstr (drop pos s) pat of None \<Rightarrow> None | Some rest \<Rightarrow> Some (length s - length rest))"

text \<open>\<open>s.substr(pos, n)\<close>, up to the end for \<open>npos\<close>.\<close>

definition substr :: "string \<Rightarrow> nat \<Rightarrow> nat option \<Rightarrow> string exc" where
  "substr s pos n =
     (if pos > length s then Exc ''out_of_range''
      else Val (case n of Some k \<Rightarrow> take k (drop pos s) | None \<Rightarrow> drop pos s))"

text \<open>The last place where a pattern stands.\<close>

fun rfind :: "string \<Rightarrow> string \<Rightarrow> nat option" where
  "rfind [] pat = None"
| "rfind (c # s) pat =
     (case rfind s pat of
        Some k \<Rightarrow> Some (Suc k)
      | None \<Rightarrow> if take (length pat) (c # s) = pat then Some 0 else None)"

definition lower_char :: "char \<Rightarrow> char" where
  "lower_char c = (let n = of_char c :: nat in if 65 \<le> n \<and> n \<le> 90 then char_of (n + 32) else c)"

definition iequals :: "string \<Rightarrow> string \<Rightarrow> bool" where
  "iequals a b \<longleftrightarrow> map lower_char a = map lower_char b"

text \<open>\<open>boost::lexical_cast\<close> to an unsigned integer of \<open>w\<close> bits (a minus sign wraps around) and to \<open>int\<close>.\<close>

definition cast_digits :: "string \<Rightarrow> nat exc" where
  "cast_digits s = (if s \<noteq> [] \<and> list_all is_digit s then Val (digits_value s) else Exc ''bad_lexical_cast'')"

definition split_sign :: "string \<Rightarrow> bool \<times> string" where
  "split_sign s = (case s of
      [] \<Rightarrow> (False, [])
    | c # cs \<Rightarrow> if c = CHR ''-'' then (True, cs) else if c = CHR ''+'' then (False, cs) else (False, s))"

definition lexical_cast_unsigned :: "nat \<Rightarrow> string \<Rightarrow> nat exc" where
  "lexical_cast_unsigned w s =
     (case split_sign s of (neg, d) \<Rightarrow> bind_exc (cast_digits d) (\<lambda>n.
        if n < 2 ^ w then Val (if neg then (2 ^ w - n) mod 2 ^ w else n) else Exc ''bad_lexical_cast''))"

definition lexical_cast_int :: "string \<Rightarrow> int exc" where
  "lexical_cast_int s =
     (case split_sign s of (neg, d) \<Rightarrow> bind_exc (cast_digits d) (\<lambda>n.
        if neg then (if n \<le> 2 ^ 31 then Val (- int n) else Exc ''bad_lexical_cast'')
        else if n < 2 ^ 31 then Val (int n) else Exc ''bad_lexical_cast''))"

definition hex_digit :: "nat \<Rightarrow> char" where
  "hex_digit d = ''0123456789abcdef'' ! (d mod 16)"

definition hex2 :: "nat \<Rightarrow> string" where
  "hex2 b = [hex_digit (b div 16), hex_digit b]"

section \<open>One record\<close>

record CallData =
  cd_call_id :: string
  cd_src_number :: string
  cd_dst_number :: string
  cd_redirect_number :: string
  cd_dst_replace :: string
  cd_setup_time :: string
  cd_connect_time :: string
  cd_disconnect_time :: string
  cd_session_time :: nat
  cd_src_route :: string
  cd_dst_route :: string
  cd_src_noa :: nat
  cd_dst_noa :: nat
  cd_disconnect_cause :: int
  cd_setup_time_raw :: string
  cd_hash :: string
  cd_call_finished :: string
  cd_releasing_party :: string
  cd_release_timestamp :: string
  cd_in_sig_call_id :: string
  cd_out_sig_call_id :: string

definition IsFinished :: "CallData \<Rightarrow> bool" where
  "IsFinished call \<longleftrightarrow> iequals (cd_call_finished call) ''YES''"

text \<open>\<open>GetValue\<close>: the regular expression \<open>Name>(.*)</Name\<close> matches from the first opening tag, and its greedy
  group reaches the last closing one. Lines were joined before, so the dot matches every character.\<close>

definition GetValue :: "string \<Rightarrow> string \<Rightarrow> string" where
  "GetValue Name Data =
     (case strstr Data (Name @ ''>'') of
        None \<Rightarrow> []
      | Some rest \<Rightarrow>
          (let body = drop (length Name + 1) rest in
           case rfind body (''</'' @ Name) of None \<Rightarrow> [] | Some k \<Rightarrow> take k body))"

definition ParseDateTime :: "string \<Rightarrow> string \<Rightarrow> string exc" where
  "ParseDateTime Name Data =
     (let value = GetValue Name Data in
      if value = [] then Val []
      else
        bind_exc (substr value 0 (Some 4)) (\<lambda>y. bind_exc (substr value 4 (Some 2)) (\<lambda>m.
        bind_exc (substr value 6 (Some 2)) (\<lambda>d. bind_exc (substr value 8 (Some 2)) (\<lambda>h.
        bind_exc (substr value 10 (Some 2)) (\<lambda>mi. bind_exc (substr value 12 (Some 2)) (\<lambda>s.
        bind_exc (substr value 15 (Some 6)) (\<lambda>f.
          Val (y @ ''-'' @ m @ ''-'' @ d @ '' '' @ h @ '':'' @ mi @ '':'' @ s @ ''.'' @ f @ ''+00'')))))))))"

definition ParseNumber :: "string \<Rightarrow> string \<Rightarrow> bool \<Rightarrow> (string \<times> nat) exc" where
  "ParseNumber Name Data CanBeEmpty =
     (let value = GetValue Name Data in
      bind_exc
        (if value \<noteq> [] \<or> \<not> CanBeEmpty then
           (case find_from value '' '' 0 of
              Some spacepos \<Rightarrow>
                bind_exc (substr value 0 (Some spacepos)) (\<lambda>n.
                  bind_exc (substr value (spacepos + 1) None) (\<lambda>a.
                    bind_exc (lexical_cast_unsigned 32 a) (\<lambda>noa. Val (n, noa))))
            | None \<Rightarrow> Val (value, 3))
         else Val (''anonymous'', 3))
        (\<lambda>(number, noa). Val (if length number > 32 then take 32 number else number, noa)))"

definition ParseSessionTime :: "string \<Rightarrow> string \<Rightarrow> nat exc" where
  "ParseSessionTime Name Data =
     (let value = GetValue Name Data in
      if value = [] then Val 0
      else
        (case find_from value '':'' 0 of
           Some dividerpos \<Rightarrow>
             bind_exc (substr value 0 (Some dividerpos)) (\<lambda>v.
               bind_exc (lexical_cast_unsigned 64 v) (\<lambda>n. Val ((n + 1) mod 2 ^ 64)))
         | None \<Rightarrow> bind_exc (lexical_cast_unsigned 64 value) (\<lambda>n. Val ((n + 1) mod 2 ^ 64))))"

definition ParseDisconnectCause :: "string \<Rightarrow> string \<Rightarrow> int exc" where
  "ParseDisconnectCause Name Data =
     (let value = GetValue Name Data in
      case find_from value '':'' 0 of
        None \<Rightarrow> Val 0
      | Some startpos \<Rightarrow>
          bind_exc (substr value (startpos + 1)
              (case find_from value '' '' (startpos + 1) of Some endpos \<Rightarrow> Some (endpos - startpos - 1) | None \<Rightarrow> None))
            lexical_cast_int)"

definition CalculateHash :: "(string \<Rightarrow> nat list) \<Rightarrow> CallData \<Rightarrow> CallData" where
  "CalculateHash md5 call =
     call\<lparr> cd_hash := concat (map hex2 (md5 (cd_call_id call @ take 14 (cd_setup_time_raw call)))) \<rparr>"

text \<open>\<open>ParseCall\<close>: the record, or the exception that one of its fields threw. The call identifier, which the list
  of errors shows, is read before anything can throw.\<close>

definition ParseCall :: "(string \<Rightarrow> nat list) \<Rightarrow> string \<Rightarrow> CallData exc" where
  "ParseCall md5 raw =
     bind_exc (ParseNumber ''IncomingCallingAddress'' raw True) (\<lambda>(src_number, src_noa).
     bind_exc (ParseNumber ''IncomingCalledAddress'' raw (\<not> iequals (GetValue ''CallFinished'' raw) ''YES'')) (\<lambda>(dst_number, dst_noa).
     bind_exc (ParseNumber ''IncomingRedirectingAddress'' raw True) (\<lambda>(redirect_number, _).
     bind_exc (ParseNumber ''OutgoingCalledAddress'' raw True) (\<lambda>(dst_replace, _).
     bind_exc (ParseDateTime ''StartTimeStamp'' raw) (\<lambda>setup_time.
     bind_exc (ParseDateTime ''AnswerTimeStamp'' raw) (\<lambda>connect_time.
     bind_exc (ParseDateTime ''ReleaseTimeStamp'' raw) (\<lambda>disconnect_time.
     bind_exc (ParseSessionTime ''CallDuration'' raw) (\<lambda>session_time.
     bind_exc (ParseDisconnectCause ''CauseIndicator'' raw) (\<lambda>disconnect_cause.
     bind_exc (ParseDateTime ''ReleaseTimeStamp'' raw) (\<lambda>release_timestamp.
       Val (CalculateHash md5
         \<lparr> cd_call_id = GetValue ''CallReference'' raw, cd_src_number = src_number, cd_dst_number = dst_number,
           cd_redirect_number = redirect_number, cd_dst_replace = dst_replace, cd_setup_time = setup_time,
           cd_connect_time = connect_time, cd_disconnect_time = disconnect_time, cd_session_time = session_time,
           cd_src_route = GetValue ''IncomingRouteId'' raw, cd_dst_route = GetValue ''OutgoingRouteId'' raw,
           cd_src_noa = src_noa, cd_dst_noa = dst_noa, cd_disconnect_cause = disconnect_cause,
           cd_setup_time_raw = GetValue ''StartTimeStamp'' raw, cd_hash = [],
           cd_call_finished = GetValue ''CallFinished'' raw, cd_releasing_party = GetValue ''ReleasingParty'' raw,
           cd_release_timestamp = release_timestamp, cd_in_sig_call_id = GetValue ''IncomingSignallingCallID'' raw,
           cd_out_sig_call_id = GetValue ''OutgoingSignallingCallID'' raw \<rparr>)))))))))))"

section \<open>A file\<close>

definition open_tag :: string where "open_tag = ''<OT_Call_CDR>''"

definition close_tag :: string where "close_tag = ''</OT_Call_CDR>''"

lemma tags [simp]: "open_tag \<noteq> []" "close_tag \<noteq> []" "length open_tag = 13" "length close_tag = 14"
  by (simp_all add: open_tag_def close_tag_def)

text \<open>The text behind a tag that was found; \<open>npos\<close> plus the length of the tag wraps around to twelve.\<close>

definition after_tag :: "nat option \<Rightarrow> nat" where
  "after_tag p = (case p of Some q \<Rightarrow> q + 13 | None \<Rightarrow> 12)"

definition data_length :: "nat option \<Rightarrow> nat option \<Rightarrow> nat \<Rightarrow> nat option" where
  "data_length next_call close_call beginpos =
     (case (next_call, close_call) of
        (Some n, Some c) \<Rightarrow> if n < c then Some (n - beginpos) else Some (c - beginpos)
      | (Some n, None) \<Rightarrow> Some (n - beginpos)
      | (None, Some c) \<Rightarrow> Some (c - beginpos)
      | (None, None) \<Rightarrow> None)"

subsection \<open>Where a pattern stands\<close>

definition stands_at :: "string \<Rightarrow> string \<Rightarrow> nat \<Rightarrow> bool" where
  "stands_at s pat n \<longleftrightarrow> take (length pat) (drop n s) = pat"

lemma strstr_cases:
  assumes "pat \<noteq> []"
  shows "case strstr s pat of
      None \<Rightarrow> \<forall>n. \<not> stands_at s pat n
    | Some rest \<Rightarrow> \<exists>n. rest = drop n s \<and> n < length s \<and> stands_at s pat n \<and> (\<forall>j < n. \<not> stands_at s pat j)"
proof (induction s)
  case Nil
  then show ?case using assms by (subst strstr.simps) (auto simp: stands_at_def)
next
  case (Cons c s)
  show ?case
  proof (cases "take (length pat) (c # s) = pat")
    case True
    then show ?thesis by (subst strstr.simps) (auto simp: stands_at_def intro!: exI [of _ 0])
  next
    case False
    then have eq: "strstr (c # s) pat = strstr s pat" by (subst strstr.simps) simp
    have st: "stands_at (c # s) pat n \<longleftrightarrow> (\<exists>m. n = Suc m \<and> stands_at s pat m)" for n
      using False by (cases n) (auto simp: stands_at_def)
    show ?thesis
    proof (cases "strstr s pat")
      case None
      then show ?thesis using Cons by (simp add: eq st)
    next
      case (Some rest)
      then obtain n where n: "rest = drop n s" "n < length s" "stands_at s pat n" "\<forall>j < n. \<not> stands_at s pat j"
        using Cons by auto
      have "\<forall>j < Suc n. \<not> stands_at (c # s) pat j" using n(4) st by auto
      then show ?thesis using n st [of "Suc n"] Some by (auto simp: eq intro!: exI [of _ "Suc n"])
    qed
  qed
qed

lemma find_from_Some:
  assumes "pat \<noteq> []" and "find_from s pat pos = Some n"
  shows "pos \<le> n" "n < length s" "stands_at s pat n" "\<And>j. pos \<le> j \<Longrightarrow> j < n \<Longrightarrow> \<not> stands_at s pat j"
proof -
  obtain rest where rest: "strstr (drop pos s) pat = Some rest" "n = length s - length rest"
    using assms(2) by (auto simp: find_from_def split: option.splits)
  then obtain m where m: "rest = drop m (drop pos s)" "m < length (drop pos s)" "stands_at (drop pos s) pat m"
      "\<forall>j < m. \<not> stands_at (drop pos s) pat j"
    using strstr_cases [OF assms(1), of "drop pos s"] by auto
  have n: "n = pos + m" using rest(2) m(1,2) by simp
  show "pos \<le> n" "n < length s" using n m(2) by auto
  show "stands_at s pat n" using m(3) by (simp add: stands_at_def n add.commute)
  show "\<not> stands_at s pat j" if "pos \<le> j" "j < n" for j
    using m(4) that n by (auto simp: stands_at_def dest: spec [of _ "j - pos"])
qed

lemma find_from_None:
  assumes "pat \<noteq> []" and "find_from s pat pos = None" and "pos \<le> j"
  shows "\<not> stands_at s pat j"
proof -
  have "strstr (drop pos s) pat = None" using assms(2) by (auto simp: find_from_def split: option.splits)
  then show ?thesis using strstr_cases [OF assms(1), of "drop pos s"] assms(3)
    by (auto simp: stands_at_def dest: spec [of _ "j - pos"])
qed

lemma find_from_eq:
  assumes "pat \<noteq> []" and "pos \<le> n" and "stands_at s pat n" and "\<And>j. pos \<le> j \<Longrightarrow> j < n \<Longrightarrow> \<not> stands_at s pat j"
  shows "find_from s pat pos = Some n"
proof (cases "find_from s pat pos")
  case None
  then show ?thesis using find_from_None [OF assms(1) None assms(2)] assms(3) by simp
next
  case (Some m)
  note f = find_from_Some [OF assms(1) Some]
  have "m = n" using f(1,3) f(4) [OF assms(2)] assms(3) assms(4) [of m] by (cases m n rule: linorder_cases) auto
  then show ?thesis using Some by simp
qed

lemma find_from_None_iff: "pat \<noteq> [] \<Longrightarrow> find_from s pat pos = None \<longleftrightarrow> (\<forall>j \<ge> pos. \<not> stands_at s pat j)"
  using find_from_None find_from_Some(1,3) by (metis option.exhaust)

subsection \<open>The loop\<close>

text \<open>The pieces of text that \<open>Parse\<close> hands to \<open>ParseCall\<close>, from a position on: an iteration looks for the next
  opening tag, for the one behind it and for the closing tag; it is the last one when there is none behind.\<close>

function raw_calls :: "string \<Rightarrow> nat \<Rightarrow> string list exc" where
  "raw_calls rawdata pos =
     (let beginpos = after_tag (find_from rawdata open_tag pos);
          next_call = find_from rawdata open_tag beginpos;
          datalength = data_length next_call (find_from rawdata close_tag beginpos) beginpos in
      bind_exc (substr rawdata beginpos datalength) (\<lambda>rawcalldata.
        case (next_call, datalength) of
          (Some _, Some len) \<Rightarrow> bind_exc (raw_calls rawdata (beginpos + len)) (\<lambda>rest. Val (rawcalldata # rest))
        | _ \<Rightarrow> Val [rawcalldata]))"
  by pat_completeness auto

text \<open>While there is an opening tag ahead, the distance from it to the end falls.\<close>

definition tag_measure :: "string \<Rightarrow> nat \<Rightarrow> nat" where
  "tag_measure s pos = (case find_from s open_tag pos of None \<Rightarrow> length s + 1 | Some p \<Rightarrow> length s - p)"

lemma next_position:
  assumes "beginpos = after_tag (find_from s open_tag pos)" and "find_from s open_tag beginpos = Some n"
    and "data_length (Some n) close_call beginpos = Some len" and "close_call = find_from s close_tag beginpos"
  shows "beginpos \<le> beginpos + len" "beginpos + len \<le> n" "find_from s open_tag (beginpos + len) = Some n"
proof -
  note f = find_from_Some [OF tags(1) assms(2)]
  show "beginpos \<le> beginpos + len" by simp
  have c: "beginpos \<le> c" if "close_call = Some c" for c using find_from_Some(1) [OF tags(2)] that assms(4) by auto
  show le: "beginpos + len \<le> n"
    using assms(3) f(1) c by (auto simp: data_length_def split: option.splits if_splits)
  show "find_from s open_tag (beginpos + len) = Some n"
    by (rule find_from_eq [OF tags(1) le f(3)]) (use f(4) in auto)
qed

termination raw_calls
proof (relation "measure (\<lambda>(s, pos). tag_measure s pos)")
  fix rawdata pos x xa xb xc xd y b y'
  assume a: "x = after_tag (find_from rawdata open_tag pos)" "xa = find_from rawdata open_tag x"
      "xb = data_length xa (find_from rawdata close_tag x) x" "(xd, y) = (xa, xb)" "xd = Some b" "y = Some y'"
  then have f: "find_from rawdata open_tag x = Some b" "data_length (Some b) (find_from rawdata close_tag x) x = Some y'" by auto
  note n = next_position [OF a(1) f(1) f(2) refl] and f2 = find_from_Some [OF tags(1) f(1)]
  have "length rawdata - b < tag_measure rawdata pos"
  proof (cases "find_from rawdata open_tag pos")
    case None
    then show ?thesis using f2 by (simp add: tag_measure_def)
  next
    case (Some q)
    then have "x = q + 13" using a(1) by (simp add: after_tag_def)
    then show ?thesis using f2(1,2) Some by (simp add: tag_measure_def)
  qed
  then show "((rawdata, x + y'), rawdata, pos) \<in> measure (\<lambda>(s, pos). tag_measure s pos)"
    using n(3) by (simp add: tag_measure_def)
qed simp

declare raw_calls.simps [simp del]

text \<open>\<open>Parse\<close>: the calls, the number of records with an error and their identifiers. What \<open>substr\<close> throws is no
  \<open>Exception\<close> of the program, so it leaves \<open>Parse\<close>.\<close>

record ParseResult =
  pr_calls :: "CallData list"
  pr_errorcallscount :: nat
  pr_errorids :: string

definition parse_one :: "(string \<Rightarrow> nat list) \<Rightarrow> ParseResult \<Rightarrow> string \<Rightarrow> ParseResult" where
  "parse_one md5 r rawcalldata =
     (case ParseCall md5 rawcalldata of
        Val call \<Rightarrow> r\<lparr> pr_calls := pr_calls r @ [call] \<rparr>
      | _ \<Rightarrow> r\<lparr> pr_errorcallscount := pr_errorcallscount r + 1,
               pr_errorids := pr_errorids r @ GetValue ''CallReference'' rawcalldata @ '', '' \<rparr>)"

definition join_lines :: "string \<Rightarrow> string" where
  "join_lines s = filter (\<lambda>c. of_char c \<noteq> (13 :: nat) \<and> of_char c \<noteq> (10 :: nat)) s"

definition Parse :: "(string \<Rightarrow> nat list) \<Rightarrow> string \<Rightarrow> ParseResult exc" where
  "Parse md5 RawData =
     bind_exc (raw_calls (join_lines RawData) 0) (\<lambda>raws.
       Val (foldl (parse_one md5) \<lparr> pr_calls = [], pr_errorcallscount = 0, pr_errorids = [] \<rparr> raws))"

section \<open>The thread\<close>

record CdrFile =
  cf_file_name :: string
  cf_total_count :: nat
  cf_insert_count :: nat
  cf_error_count :: nat
  cf_error_ids :: string
  cf_progress :: nat

definition CdrFile_clear :: CdrFile where
  "CdrFile_clear = \<lparr> cf_file_name = [], cf_total_count = 0, cf_insert_count = 0, cf_error_count = 0, cf_error_ids = [],
     cf_progress = 0 \<rparr>"

text \<open>The thread with what it has written: the calls handed to \<open>insert_cdr2\<close> and to \<open>insert_cdr_unfinished\<close>, and
  the rows of the table of files.\<close>

record ParserState =
  th_cdrFile :: CdrFile
  th_last_files :: "CdrFile list"
  db_cdr :: "CallData list"
  db_unfinished :: "CallData list"
  db_files :: "CdrFile list"

text \<open>The world: the list of the files, and whether listing succeeds once certain files are stored; their contents (none when
  fetching fails); the digest; whether a statement succeeds; and the answer of \<open>isUnfinishedCallExists\<close>, none when its query
  fails.\<close>

record ParserEnv =
  en_ls :: "string list"
  en_ls_ok :: "CdrFile list \<Rightarrow> bool"
  en_fetch :: "string \<Rightarrow> string option"
  en_md5 :: "string \<Rightarrow> nat list"
  en_insert_ok :: "CallData \<Rightarrow> bool"
  en_insert_unfinished_ok :: "CallData \<Rightarrow> bool"
  en_file_query_ok :: "string \<Rightarrow> bool"
  en_file_insert_ok :: "CdrFile \<Rightarrow> bool"
  en_unfinished_exists :: "CallData list \<Rightarrow> string \<Rightarrow> string \<Rightarrow> bool option"

definition isFileProcessed :: "ParserEnv \<Rightarrow> ParserState \<Rightarrow> string \<Rightarrow> bool" where
  "isFileProcessed env s f \<longleftrightarrow> \<not> en_file_query_ok env f \<or> f \<in> set (map cf_file_name (db_files s))"

definition getFileNameForParse :: "ParserEnv \<Rightarrow> ParserState \<Rightarrow> string exc" where
  "getFileNameForParse env s =
     (if en_ls_ok env (db_files s) then
        (let notParsed = takeWhile (\<lambda>f. \<not> isFileProcessed env s f) (rev (en_ls env))
         in Val (if notParsed = [] then [] else last notParsed))
      else Exc ''FtpException'')"

definition saveCall :: "ParserEnv \<Rightarrow> CallData \<Rightarrow> ParserState \<Rightarrow> ParserState outcome" where
  "saveCall env call s =
     (if en_insert_ok env call then
        Next (s\<lparr> db_cdr := db_cdr s @ [call],
                 th_cdrFile := (th_cdrFile s)\<lparr> cf_insert_count := cf_insert_count (th_cdrFile s) + 1 \<rparr> \<rparr>)
      else Stop ''DbException'' s)"

definition saveUnfinishedCall :: "ParserEnv \<Rightarrow> CallData \<Rightarrow> ParserState \<Rightarrow> ParserState" where
  "saveUnfinishedCall env call s =
     (if en_insert_unfinished_ok env call then s\<lparr> db_unfinished := db_unfinished s @ [call] \<rparr> else s)"

definition save_one :: "ParserEnv \<Rightarrow> CallData \<Rightarrow> ParserState \<Rightarrow> ParserState outcome" where
  "save_one env call s =
     (let s1 = s\<lparr> th_cdrFile := (th_cdrFile s)\<lparr> cf_progress := cf_progress (th_cdrFile s) + 1 \<rparr> \<rparr> in
      if IsFinished call then saveCall env call s1
      else (case en_unfinished_exists env (db_unfinished s1) (cd_hash call) (cd_dst_route call) of
              None \<Rightarrow> Stop ''DbException'' s1
            | Some found \<Rightarrow> if \<not> found then Next (saveUnfinishedCall env call s1) else Next s1))"

definition saveCalls :: "ParserEnv \<Rightarrow> CallData list \<Rightarrow> ParserState \<Rightarrow> ParserState outcome" where
  "saveCalls env calls s = run_steps (map (save_one env) calls) s"

text \<open>\<open>parseFile\<close>: the calls to be saved, none when a record had an error.\<close>

definition parseFile :: "ParserEnv \<Rightarrow> string \<Rightarrow> ParserState \<Rightarrow> (CallData list option \<times> ParserState) exc" where
  "parseFile env fileContent s =
     bind_exc (Parse (en_md5 env) fileContent) (\<lambda>r.
       if pr_errorcallscount r > 0 then Val (None, s)
       else Val (Some (pr_calls r), s\<lparr> th_cdrFile := (th_cdrFile s)\<lparr> cf_total_count := length (pr_calls r),
              cf_error_count := pr_errorcallscount r, cf_error_ids := pr_errorids r \<rparr> \<rparr>))"

text \<open>When the row of the file cannot be stored, the calls stay stored and the file stays unknown: the next run takes it again.\<close>

definition saveCdrFile :: "ParserEnv \<Rightarrow> ParserState \<Rightarrow> ParserState outcome" where
  "saveCdrFile env s =
     (if en_file_insert_ok env (th_cdrFile s) then
        Next (s\<lparr> db_files := db_files s @ [th_cdrFile s], th_last_files := th_last_files s @ [th_cdrFile s] \<rparr>)
      else Stop ''DbException'' s)"

definition processFile :: "ParserEnv \<Rightarrow> string \<Rightarrow> ParserState \<Rightarrow> ParserState outcome" where
  "processFile env fileName s =
     (let s1 = s\<lparr> th_cdrFile := CdrFile_clear\<lparr> cf_file_name := fileName \<rparr> \<rparr> in
      case en_fetch env fileName of
        None \<Rightarrow> Stop ''FtpException'' s1
      | Some fileContent \<Rightarrow>
          (case parseFile env fileContent s1 of
             Val (None, s2) \<Rightarrow> saveCdrFile env s2
           | Val (Some calls, s2) \<Rightarrow> and_then (saveCalls env calls s2) (saveCdrFile env)
           | Exc e \<Rightarrow> Stop e s1
           | Undef \<Rightarrow> Fault))"

subsection \<open>Files are taken one after the other\<close>

lemma save_one_frame:
  "save_one env call s = Next s' \<Longrightarrow> db_files s' = db_files s \<and> cf_file_name (th_cdrFile s') = cf_file_name (th_cdrFile s)"
  by (auto simp: save_one_def saveCall_def saveUnfinishedCall_def Let_def split: if_splits option.splits)

lemma saveCalls_frame:
  "saveCalls env calls s = Next s' \<Longrightarrow> db_files s' = db_files s \<and> cf_file_name (th_cdrFile s') = cf_file_name (th_cdrFile s)"
proof (induction calls arbitrary: s)
  case (Cons call calls)
  then obtain s1 where "save_one env call s = Next s1" "saveCalls env calls s1 = Next s'"
    by (cases "save_one env call s") (auto simp: saveCalls_def)
  then show ?case using Cons.IH [of s1] save_one_frame [of env call s s1] by simp
qed (simp add: saveCalls_def)

lemma parseFile_frame:
  "parseFile env c s = Val (r, s') \<Longrightarrow> db_files s' = db_files s \<and> cf_file_name (th_cdrFile s') = cf_file_name (th_cdrFile s) \<and>
     db_cdr s' = db_cdr s \<and> db_unfinished s' = db_unfinished s"
  by (auto simp: parseFile_def split: if_splits)

lemma processFile_records_file:
  assumes "processFile env f s = Next s'"
  shows "\<exists>row. cf_file_name row = f \<and> db_files s' = db_files s @ [row]"
proof -
  let ?s1 = "s\<lparr> th_cdrFile := CdrFile_clear\<lparr> cf_file_name := f \<rparr> \<rparr>"
  obtain content where c: "en_fetch env f = Some content" using assms by (auto simp: processFile_def Let_def split: option.splits)
  then obtain r s2 where p: "parseFile env content ?s1 = Val (r, s2)"
    using assms by (cases "parseFile env content ?s1") (auto simp: processFile_def Let_def)
  have f2: "db_files s2 = db_files s" "cf_file_name (th_cdrFile s2) = f" using parseFile_frame [OF p] by simp_all
  show ?thesis
  proof (cases r)
    case None
    then show ?thesis using assms c p f2 by (auto simp: processFile_def saveCdrFile_def Let_def split: if_splits)
  next
    case (Some calls)
    then obtain s3 where s3: "saveCalls env calls s2 = Next s3" "saveCdrFile env s3 = Next s'"
      using assms c p by (cases "saveCalls env calls s2") (auto simp: processFile_def Let_def)
    then show ?thesis using saveCalls_frame [OF s3(1)] f2 by (auto simp: saveCdrFile_def split: if_splits)
  qed
qed

definition unparsed :: "ParserEnv \<Rightarrow> ParserState \<Rightarrow> string list" where
  "unparsed env s = takeWhile (\<lambda>f. \<not> isFileProcessed env s f) (rev (en_ls env))"

lemma takeWhile_shorter:
  assumes "\<And>x. Q x \<Longrightarrow> P x" and "takeWhile P xs \<noteq> []" and "\<not> Q (last (takeWhile P xs))"
  shows "length (takeWhile Q xs) < length (takeWhile P xs)"
  using assms(2,3)
proof (induction xs)
  case (Cons x xs)
  show ?case
  proof (cases "Q x")
    case True
    then have p: "P x" using assms(1) by blast
    have "takeWhile P xs \<noteq> []" using Cons.prems p True by (auto split: if_splits)
    then show ?thesis using Cons.IH Cons.prems p True by simp
  next
    case False
    then show ?thesis using Cons.prems by (simp split: if_splits)
  qed
qed simp

lemma unparsed_shorter:
  assumes "getFileNameForParse env s = Val f" and "f \<noteq> []" and "processFile env f s = Next s'"
  shows "length (unparsed env s') < length (unparsed env s)"
proof -
  obtain row where row: "cf_file_name row = f" "db_files s' = db_files s @ [row]"
    using processFile_records_file [OF assms(3)] by blast
  have ne: "unparsed env s \<noteq> []" and l: "f = last (unparsed env s)"
    using assms(1,2) by (auto simp: getFileNameForParse_def unparsed_def Let_def split: if_splits)
  show ?thesis
    unfolding unparsed_def
    by (rule takeWhile_shorter) (use ne l row in \<open>auto simp: isFileProcessed_def unparsed_def\<close>)
qed

function run_parser :: "ParserEnv \<Rightarrow> ParserState \<Rightarrow> ParserState outcome" where
  "run_parser env s =
     (case getFileNameForParse env s of
        Val fileName \<Rightarrow>
          if fileName = [] then Next (s\<lparr> th_cdrFile := CdrFile_clear \<rparr>)
          else (case processFile env fileName s of
                  Next s' \<Rightarrow> run_parser env s' | Stop e s' \<Rightarrow> Stop e s' | Fault \<Rightarrow> Fault)
      | Exc e \<Rightarrow> Stop e s
      | Undef \<Rightarrow> Fault)"
  by pat_completeness auto

termination run_parser
  by (relation "measure (\<lambda>(env, s). length (unparsed env s))") (auto dest: unparsed_shorter)

declare run_parser.simps [simp del]

definition cdr_parser_run :: "string \<Rightarrow> ParserEnv \<Rightarrow> ParserState \<Rightarrow> ParserState outcome" where
  "cdr_parser_run cdr_ftp_host env s =
     (let s1 = s\<lparr> th_cdrFile := CdrFile_clear \<rparr> in if cdr_ftp_host = [] then Next s1 else run_parser env s1)"

end
