(* ===== verification/Cdr_Properties.thy ===== *)
theory Cdr_Properties
  imports Cdr_Parser
begin

text \<open>
  The parser of call records: it cuts a file exactly at its tags, it returns for every text of twelve characters or
  more, a field is read back from between its tags; and the thread takes the files of the switch in their order.
\<close>

section \<open>Tags do not overlap\<close>

definition clean :: "string \<Rightarrow> string \<Rightarrow> bool" where
  "clean pat x \<longleftrightarrow> (\<forall>j. \<not> stands_at x pat j)"

lemma stands_at_nth: "stands_at s pat j \<Longrightarrow> i < length pat \<Longrightarrow> j + i < length s \<and> s ! (j + i) = pat ! i"
proof -
  assume a: "stands_at s pat j" "i < length pat"
  then have "length (take (length pat) (drop j s)) = length pat" by (simp add: stands_at_def)
  then have "j + i < length s" using a(2) by simp
  moreover have "take (length pat) (drop j s) ! i = pat ! i" using a by (simp add: stands_at_def)
  ultimately show ?thesis using a(2) by simp
qed

lemma stands_at_length: "pat \<noteq> [] \<Longrightarrow> stands_at s pat j \<Longrightarrow> j + length pat \<le> length s"
  using stands_at_nth [of s pat j "length pat - 1"] by (cases pat) auto

lemma nth_in_tl: "0 < j \<Longrightarrow> j < length xs \<Longrightarrow> xs ! j \<in> set (tl xs)"
  by (cases xs; cases j) auto

text \<open>A pattern whose first character stands nowhere else in it ends before the next place with that character.\<close>

lemma no_overlap:
  assumes "pat \<noteq> []" and "hd pat \<notin> set (tl pat)" and "stands_at s pat j" and "j < n" and "s ! n = hd pat"
  shows "j + length pat \<le> n"
proof (rule ccontr)
  assume "\<not> j + length pat \<le> n"
  then have i: "n - j < length pat" "0 < n - j" using assms(4) by auto
  have "s ! n = pat ! (n - j)" using stands_at_nth [OF assms(3) i(1)] assms(4) by simp
  then show False using assms(2,5) nth_in_tl [of "n - j" pat] i by simp
qed

lemma tag_heads: "hd open_tag = CHR ''<''" "hd close_tag = CHR ''<''" "hd open_tag \<notin> set (tl open_tag)" "hd close_tag \<notin> set (tl close_tag)"
  by (simp_all add: open_tag_def close_tag_def)

lemma stands_at_append:
  assumes "length pat + j \<le> length x"
  shows "stands_at (x @ y) pat j = stands_at x pat j"
  using assms by (simp add: stands_at_def)

lemma stands_at_shift: "length u \<le> j \<Longrightarrow> stands_at (u @ x) pat j = stands_at x pat (j - length u)"
  by (simp add: stands_at_def)

lemma clean_close:
  assumes "clean open_tag g"
  shows "clean open_tag (close_tag @ g)"
  unfolding clean_def
proof
  fix j
  show "\<not> stands_at (close_tag @ g) open_tag j"
  proof (cases "j < length close_tag")
    case True
    show ?thesis
    proof
      assume st: "stands_at (close_tag @ g) open_tag j"
      have a: "close_tag ! j = CHR ''<''" using stands_at_nth [OF st, of 0] True by (simp add: nth_append open_tag_def)
      have "j = 0"
      proof (rule ccontr)
        assume "j \<noteq> 0"
        then have "close_tag ! j \<in> set (tl close_tag)" using True nth_in_tl [of j close_tag] by simp
        then show False using a tag_heads by simp
      qed
      then have "close_tag ! 1 = open_tag ! 1" using stands_at_nth [OF st, of 1] by (simp add: nth_append)
      then show False by (simp add: open_tag_def close_tag_def)
    qed
  next
    case False
    then show ?thesis using assms by (simp add: stands_at_shift clean_def)
  qed
qed

lemma clean_Nil [simp]: "pat \<noteq> [] \<Longrightarrow> clean pat []"
  by (auto simp: clean_def stands_at_def)

text \<open>The first tag behind text that has none.\<close>

lemma find_tag:
  assumes "pat \<noteq> []" and "hd pat \<notin> set (tl pat)" and "clean pat g"
  shows "find_from (u @ g @ pat @ v) pat (length u) = Some (length u + length g)"
proof (rule find_from_eq [OF assms(1)])
  show "stands_at (u @ g @ pat @ v) pat (length u + length g)" by (simp add: stands_at_def)
  fix j assume j: "length u \<le> j" "j < length u + length g"
  show "\<not> stands_at (u @ g @ pat @ v) pat j"
  proof
    assume st: "stands_at (u @ g @ pat @ v) pat j"
    have "(u @ g @ pat @ v) ! (length u + length g) = hd pat" using assms(1) by (simp add: nth_append hd_conv_nth)
    then have "j + length pat \<le> length u + length g" using no_overlap [OF assms(1,2) st j(2)] by simp
    then have "stands_at g pat (j - length u)"
      using st j(1) stands_at_append [of pat "j - length u" g "pat @ v"] by (simp add: stands_at_shift)
    then show False using assms(3) by (simp add: clean_def)
  qed
qed simp

section \<open>Cutting a file\<close>

text \<open>A file of records with other text before each and at the end.\<close>

fun cdr_text :: "(string \<times> string) list \<Rightarrow> string \<Rightarrow> string" where
  "cdr_text [] tail = tail"
| "cdr_text ((g, b) # rs) tail = g @ open_tag @ b @ close_tag @ cdr_text rs tail"

definition good_records :: "(string \<times> string) list \<Rightarrow> string \<Rightarrow> bool" where
  "good_records rs tail \<longleftrightarrow> clean open_tag tail \<and>
     list_all (\<lambda>(g, b). clean open_tag g \<and> clean open_tag b \<and> clean close_tag b) rs"

lemma find_open_after_body:
  assumes "clean open_tag b" and "good_records rs tail"
  shows "find_from (u @ b @ close_tag @ cdr_text rs tail) open_tag (length u) =
    (case rs of [] \<Rightarrow> None | (g, b') # _ \<Rightarrow> Some (length u + length b + 14 + length g))"
proof -
  have mid: "clean open_tag (b @ close_tag @ g)" if "clean open_tag g" for g
    unfolding clean_def
  proof
    fix j
    show "\<not> stands_at (b @ close_tag @ g) open_tag j"
    proof
      assume st: "stands_at (b @ close_tag @ g) open_tag j"
      have cg: "clean open_tag (close_tag @ g)" using clean_close [OF that] .
      show False
      proof (cases "j < length b")
        case True
        have "(b @ close_tag @ g) ! length b = hd open_tag" by (simp add: nth_append open_tag_def close_tag_def)
        then have "j + length open_tag \<le> length b" using no_overlap [OF tags(1) tag_heads(3) st True] by simp
        then show False using st assms(1) stands_at_append [of open_tag j b "close_tag @ g"] by (simp add: clean_def)
      next
        case False
        then show False using st cg by (simp add: stands_at_shift clean_def)
      qed
    qed
  qed
  show ?thesis
  proof (cases rs)
    case Nil
    have "clean open_tag (b @ close_tag @ tail)" using mid assms(2) by (simp add: good_records_def)
    then show ?thesis using Nil by (simp add: find_from_None_iff stands_at_shift clean_def)
  next
    case (Cons r rs')
    obtain g b' where r: "r = (g, b')" by force
    have "clean open_tag (b @ close_tag @ g)" using mid assms(2) Cons r by (simp add: good_records_def)
    from find_tag [OF tags(1) tag_heads(3) this, of u "b' @ close_tag @ cdr_text rs' tail"] show ?thesis
      using Cons r by (simp add: add.assoc)
  qed
qed

lemma raw_calls_step:
  assumes "after_tag (find_from s open_tag pos) = beginpos" and "find_from s open_tag beginpos = next_call"
    and "data_length next_call (find_from s close_tag beginpos) beginpos = len" and "substr s beginpos len = Val x"
  shows "raw_calls s pos =
    (case (next_call, len) of
       (Some _, Some l) \<Rightarrow> bind_exc (raw_calls s (beginpos + l)) (\<lambda>rest. Val (x # rest)) | _ \<Rightarrow> Val [x])"
  using assms(3,4) by (subst raw_calls.simps, cases next_call) (simp_all add: assms(1,2) Let_def)

lemma raw_calls_text:
  assumes "rs \<noteq> []" and "good_records rs tail" and "clean open_tag e \<and> (e = [] \<or> e = close_tag)"
  shows "raw_calls (u @ e @ cdr_text rs tail) (length u) = Val (map snd rs)"
  using assms
proof (induction rs arbitrary: u e)
  case (Cons r rs)
  obtain g b where r: "r = (g, b)" by force
  have good: "clean open_tag g" "clean open_tag b" "clean close_tag b" "good_records rs tail"
    using Cons.prems(2) by (auto simp: r good_records_def)
  have eg: "clean open_tag (e @ g)" using Cons.prems(3) clean_close [OF good(1)] good(1) by auto
  let ?rest = "cdr_text rs tail"
  let ?s = "u @ e @ cdr_text (r # rs) tail"
  let ?u = "u @ e @ g @ open_tag"
  have s: "?s = u @ (e @ g) @ open_tag @ b @ close_tag @ ?rest" "?s = ?u @ b @ close_tag @ ?rest" by (simp_all add: r)
  have p: "find_from ?s open_tag (length u) = Some (length u + length (e @ g))"
    unfolding s(1) by (rule find_tag [OF tags(1) tag_heads(3) eg])
  have bp: "after_tag (find_from ?s open_tag (length u)) = length ?u" by (simp add: p after_tag_def)
  have close: "find_from ?s close_tag (length ?u) = Some (length ?u + length b)"
    unfolding s(2) by (rule find_tag [OF tags(2) tag_heads(4) good(3)])
  have nxt: "find_from ?s open_tag (length ?u) =
      (case rs of [] \<Rightarrow> None | (g, b') # _ \<Rightarrow> Some (length ?u + length b + 14 + length g))"
    unfolding s(2) by (rule find_open_after_body [OF good(2,4)])
  have len: "data_length (find_from ?s open_tag (length ?u)) (find_from ?s close_tag (length ?u)) (length ?u) = Some (length b)"
    unfolding nxt close by (auto simp: data_length_def split: list.splits)
  have sub: "substr ?s (length ?u) (Some (length b)) = Val b" unfolding s(2) by (simp add: substr_def)
  show ?case
  proof (cases "rs = []")
    case True
    then have "find_from ?s open_tag (length ?u) = None" unfolding nxt by simp
    from raw_calls_step [OF bp this len [unfolded this] sub] show ?thesis using True by (simp add: r)
  next
    case False
    then obtain g' b' rs' where "rs = (g', b') # rs'" by (cases rs) auto
    then obtain n where n: "find_from ?s open_tag (length ?u) = Some n" using nxt by simp
    have "raw_calls ((?u @ b) @ close_tag @ ?rest) (length (?u @ b)) = Val (map snd rs)"
      using Cons.IH [OF False good(4), of close_tag "?u @ b"] clean_close [OF clean_Nil] by simp
    then have "raw_calls ?s (length ?u + length b) = Val (map snd rs)" by (simp add: s(2) add.assoc)
    then show ?thesis using raw_calls_step [OF bp n len [unfolded n] sub] by (simp add: r)
  qed
qed simp

text \<open>C19: \<open>CdrParser::Parse\<close> cuts a file exactly at its tags: of any sequence of records, with other text between
  them, \<open>ParseCall\<close> gets the text between each opening and closing tag, in order and nothing else.\<close>

theorem Parse_cuts_at_tags:
  assumes "rs \<noteq> []" and "good_records rs tail" and "join_lines RawData = cdr_text rs tail"
  shows "Parse md5 RawData = Val (foldl (parse_one md5) \<lparr> pr_calls = [], pr_errorcallscount = 0, pr_errorids = [] \<rparr> (map snd rs))"
  using raw_calls_text [OF assms(1,2), of "[]" "[]"] assms(3) by (simp add: Parse_def)

section \<open>Every text\<close>

lemma raw_calls_returns:
  assumes "find_from s open_tag pos \<noteq> None"
  shows "\<exists>r. raw_calls s pos = Val r \<and> r \<noteq> []"
  using assms
proof (induction s pos rule: raw_calls.induct)
  case (1 s pos)
  then obtain p where p: "find_from s open_tag pos = Some p" by auto
  define B where "B = after_tag (find_from s open_tag pos)"
  have B: "B \<le> length s" using stands_at_length [OF tags(1) find_from_Some(3) [OF tags(1) p]] by (simp add: B_def p after_tag_def)
  obtain x where x: "substr s B (data_length (find_from s open_tag B) (find_from s close_tag B) B) = Val x"
    using B by (auto simp: substr_def)
  note step = raw_calls_step [OF B_def [symmetric] refl refl x]
  show ?case
  proof (cases "find_from s open_tag B")
    case None
    then show ?thesis using step by simp
  next
    case (Some n)
    have "\<exists>len. data_length (Some n) (find_from s close_tag B) B = Some len"
      by (cases "find_from s close_tag B") (auto simp: data_length_def)
    then obtain len where len: "data_length (Some n) (find_from s close_tag B) B = Some len" by blast
    have "find_from s open_tag (B + len) = Some n" using next_position(3) [OF B_def Some len refl] .
    then have "\<exists>r. raw_calls s (B + len) = Val r \<and> r \<noteq> []"
      by (intro "1.IH" [OF B_def Some [symmetric] len [symmetric] refl refl refl]) simp
    then show ?thesis using step Some len by auto
  qed
qed

lemma Parse_total:
  "(\<exists>r. Parse md5 RawData = Val r) = (12 \<le> length (join_lines RawData)) \<and>
   (length (join_lines RawData) < 12 \<longrightarrow> Parse md5 RawData = Exc ''out_of_range'')"
proof (cases "find_from (join_lines RawData) open_tag 0")
  case None
  let ?s = "join_lines RawData"
  have a: "after_tag (find_from ?s open_tag 0) = 12" using None by (simp add: after_tag_def)
  have n: "find_from ?s open_tag 12 = None" using None by (simp add: find_from_None_iff)
  show ?thesis
  proof (cases "12 \<le> length ?s")
    case True
    then obtain x where "substr ?s 12 (data_length None (find_from ?s close_tag 12) 12) = Val x"
      by (auto simp: substr_def)
    from raw_calls_step [OF a n refl this] True show ?thesis by (simp add: Parse_def)
  next
    case False
    then have "raw_calls ?s 0 = Exc ''out_of_range''"
      by (subst raw_calls.simps) (simp add: Let_def a substr_def)
    then show ?thesis using False by (simp add: Parse_def)
  qed
next
  case (Some p)
  have "13 \<le> length (join_lines RawData)" using stands_at_length [OF tags(1) find_from_Some(3) [OF tags(1) Some]] by simp
  moreover have "\<exists>r. raw_calls (join_lines RawData) 0 = Val r" using raw_calls_returns Some by blast
  ultimately show ?thesis by (auto simp: Parse_def)
qed


text \<open>C39: \<open>CdrParser::Parse\<close> ends for every text, and returns exactly when at least twelve characters are left
  without line ends; for a shorter one it throws \<open>std::out_of_range\<close>, which no handler of the program names. The
  length counts because \<open>npos\<close> plus the length of the tag wraps around to twelve when there is no tag.\<close>

theorem Parse_returns_iff:
  "if 12 \<le> length (join_lines RawData) then \<exists>r. Parse md5 RawData = Val r
   else Parse md5 RawData = Exc ''out_of_range''"
  using Parse_total [of md5 RawData] by (simp add: not_le)

section \<open>A field\<close>

lemma rfind_eq:
  assumes "pat \<noteq> []" and "stands_at s pat k" and "\<And>j. k < j \<Longrightarrow> \<not> stands_at s pat j"
  shows "rfind s pat = Some k"
  using assms(2,3)
proof (induction s arbitrary: k)
  case Nil
  then show ?case using assms(1) by (simp add: stands_at_def)
next
  case (Cons c s)
  have none: "rfind t pat = None" if "\<forall>j. \<not> stands_at t pat j" for t
    using that
  proof (induction t)
    case (Cons d t)
    have "\<not> stands_at t pat j" for j using Cons.prems [THEN spec, of "Suc j"] by (simp add: stands_at_def)
    then show ?case using Cons.IH Cons.prems [THEN spec, of 0] by (simp add: stands_at_def)
  qed simp
  show ?case
  proof (cases k)
    case 0
    have "\<forall>j. \<not> stands_at s pat j" using Cons.prems(2) [of "Suc _"] 0 by (simp add: stands_at_def)
    then show ?thesis using none Cons.prems(1) 0 by (simp add: stands_at_def)
  next
    case (Suc k')
    have "rfind s pat = Some k'"
      by (rule Cons.IH) (use Cons.prems Suc Cons.prems(2) [of "Suc _"] in \<open>auto simp: stands_at_def\<close>)
    then show ?thesis using Suc by simp
  qed
qed

text \<open>\<open>GetValue\<close> reads back what stands between the tags of a field: the text from its first opening tag to its
  last closing tag.\<close>

theorem GetValue_roundtrip:
  assumes "Data = pre @ Name @ ''>'' @ value @ ''</'' @ Name @ post"
    and "\<And>j. j < length pre \<Longrightarrow> \<not> stands_at Data (Name @ ''>'') j"
    and "\<And>j. length (pre @ Name @ ''>'' @ value) < j \<Longrightarrow> \<not> stands_at Data (''</'' @ Name) j"
  shows "GetValue Name Data = value"
proof -
  let ?o = "Name @ ''>''" and ?c = "''</'' @ Name"
  let ?body = "value @ ?c @ post"
  have D: "Data = pre @ ?o @ ?body" using assms(1) by simp
  have "stands_at Data ?o (length pre)" unfolding D by (simp add: stands_at_def)
  then have "find_from Data ?o 0 = Some (length pre)"
    by (intro find_from_eq) (use assms(2) in auto)
  then obtain rest where r: "strstr Data ?o = Some rest" "length Data - length rest = length pre"
    by (auto simp: find_from_def split: option.splits)
  obtain n where n: "rest = drop n Data" "n < length Data" using strstr_cases [of ?o Data] r(1) by auto
  then have "rest = ?o @ ?body" using r(2) by (simp add: D)
  moreover have "rfind ?body ?c = Some (length value)"
  proof (rule rfind_eq)
    show "stands_at ?body ?c (length value)" by (simp add: stands_at_def)
    fix j assume j: "length value < j"
    have "\<not> stands_at Data ?c (length (pre @ ?o) + j)" using assms(3) j by simp
    then show "\<not> stands_at ?body ?c j" by (simp add: stands_at_def D)
  qed simp
  ultimately show ?thesis using r(1) by (simp add: GetValue_def Let_def)
qed

section \<open>The files\<close>

text \<open>One record with an error loses the whole file: no call of it is stored, and the file is entered into the
  table of files as having no records and no errors, so it is never read again.\<close>

theorem erroneous_file_dropped:
  assumes "en_fetch env f = Some content" and "Parse (en_md5 env) content = Val r" and "0 < pr_errorcallscount r"
    and "\<And>row. en_file_insert_ok env row"
  shows "\<exists>s'. processFile env f s = Next s' \<and> db_cdr s' = db_cdr s \<and> db_unfinished s' = db_unfinished s \<and>
    db_files s' = db_files s @ [CdrFile_clear\<lparr> cf_file_name := f \<rparr>] \<and> isFileProcessed env s' f"
  using assms by (simp add: processFile_def parseFile_def saveCdrFile_def isFileProcessed_def CdrFile_clear_def)






end
