(* ===== verification/Cdr_Samples.thy ===== *)
theory Cdr_Samples
  imports Cdr_Properties
begin

text \<open>Concrete files for the properties of the parser of call records.\<close>

lemma clean_no_head: "pat \<noteq> [] \<Longrightarrow> hd pat \<notin> set x \<Longrightarrow> clean pat x"
  unfolding clean_def
proof (intro allI notI)
  fix j assume "pat \<noteq> []" "hd pat \<notin> set x" "stands_at x pat j"
  then show False using stands_at_nth [of x pat j 0] nth_mem [of j x] by (simp add: hd_conv_nth)
qed

lemma clean_code: "pat \<noteq> [] \<Longrightarrow> list_all (\<lambda>j. \<not> stands_at x pat j) [0..<length x] \<Longrightarrow> clean pat x"
  unfolding clean_def
proof (intro allI notI)
  fix j assume a: "pat \<noteq> []" "list_all (\<lambda>j. \<not> stands_at x pat j) [0..<length x]" "stands_at x pat j"
  have "0 < length pat" using a(1) by simp
  then have "j < length x" using stands_at_length [OF a(1,3)] by linarith
  then show False using a(2,3) by (simp add: list_all_iff)
qed

definition sample_records :: "(string \<times> string) list" where
  "sample_records = [([], ''one''), (''gap'', ''two'')]"

lemma Parse_cuts_at_tags_witness:
  "Parse (\<lambda>_. []) (cdr_text sample_records ''end'') =
     Val (foldl (parse_one (\<lambda>_. [])) \<lparr> pr_calls = [], pr_errorcallscount = 0, pr_errorids = [] \<rparr> [''one'', ''two''])"
proof -
  have "good_records sample_records ''end''"
    by (auto simp: good_records_def sample_records_def tag_heads intro!: clean_no_head)
  moreover have "join_lines (cdr_text sample_records ''end'') = cdr_text sample_records ''end''" by code_simp
  ultimately have "Parse (\<lambda>_. []) (cdr_text sample_records ''end'') =
      Val (foldl (parse_one (\<lambda>_. [])) \<lparr> pr_calls = [], pr_errorcallscount = 0, pr_errorids = [] \<rparr> (map snd sample_records))"
    by (intro Parse_cuts_at_tags) (simp_all add: sample_records_def)
  then show ?thesis by (simp add: sample_records_def)
qed

lemma GetValue_roundtrip_witness: "GetValue ''ab'' ''<ab>12</ab>'' = ''12''"
proof (rule GetValue_roundtrip [where pre = "''<''" and post = "''>''"])
  fix j assume "j < length ''<''"
  then show "\<not> stands_at ''<ab>12</ab>'' (''ab'' @ ''>'') j" by (simp add: stands_at_def)
next
  fix j assume "length (''<'' @ ''ab'' @ ''>'' @ ''12'') < j"
  then have j: "6 < j" by simp
  show "\<not> stands_at ''<ab>12</ab>'' (''</'' @ ''ab'') j"
  proof
    assume st: "stands_at ''<ab>12</ab>'' (''</'' @ ''ab'') j"
    then have "j = 7" using stands_at_length [OF _ st] j by simp
    then show False using st by (simp add: stands_at_def)
  qed
qed simp

definition bad_record :: string where
  "bad_record = ''CallDuration>x</CallDuration''"

definition bad_file :: string where
  "bad_file = cdr_text [([], ''CallFinished>YES</CallFinished''), ([], bad_record)] []"

definition sample_env :: ParserEnv where
  "sample_env = \<lparr> en_ls = [''a'', ''b''], en_ls_ok = (\<lambda>_. True), en_fetch = (\<lambda>f. Some (if f = ''a'' then bad_file else ''twelve characters'')),
     en_md5 = (\<lambda>_. []), en_insert_ok = (\<lambda>_. True), en_insert_unfinished_ok = (\<lambda>_. True),
     en_file_query_ok = (\<lambda>_. True), en_file_insert_ok = (\<lambda>_. True),
     en_unfinished_exists = (\<lambda>_ _ _. Some False) \<rparr>"

definition sample_parser :: ParserState where
  "sample_parser = \<lparr> th_cdrFile = CdrFile_clear, th_last_files = [], db_cdr = [], db_unfinished = [], db_files = [] \<rparr>"

lemma bad_file_parsed: "\<exists>r. Parse (\<lambda>_. []) bad_file = Val r \<and> 0 < pr_errorcallscount r"
proof -
  have c: "clean open_tag ''CallFinished>YES</CallFinished''" "clean close_tag ''CallFinished>YES</CallFinished''"
      "clean open_tag bad_record" "clean close_tag bad_record"
    by (rule clean_code; code_simp)+
  then have g: "good_records [([], ''CallFinished>YES</CallFinished''), ([], bad_record)] []" by (simp add: good_records_def)
  have j: "join_lines bad_file = cdr_text [([], ''CallFinished>YES</CallFinished''), ([], bad_record)] []"
    unfolding bad_file_def by code_simp
  have v: "GetValue ''IncomingCallingAddress'' bad_record = []" "GetValue ''IncomingCalledAddress'' bad_record = []"
      "GetValue ''IncomingRedirectingAddress'' bad_record = []" "GetValue ''OutgoingCalledAddress'' bad_record = []"
      "GetValue ''StartTimeStamp'' bad_record = []" "GetValue ''AnswerTimeStamp'' bad_record = []"
      "GetValue ''ReleaseTimeStamp'' bad_record = []" "GetValue ''CallFinished'' bad_record = []"
      "GetValue ''CallDuration'' bad_record = ''x''" "find_from ''x'' '':'' 0 = None" "\<not> is_digit (CHR ''x'')"
    by code_simp+
  have e: "ParseCall (\<lambda>_. []) bad_record = Exc ''bad_lexical_cast''"
    by (simp add: ParseCall_def ParseNumber_def ParseDateTime_def ParseSessionTime_def v iequals_def Let_def
        lexical_cast_unsigned_def split_sign_def cast_digits_def)
  have "0 < pr_errorcallscount (foldl (parse_one (\<lambda>_. [])) r0 (xs @ [bad_record]))" for r0 xs
    by (simp add: parse_one_def e)
  from this [of _ "[''CallFinished>YES</CallFinished'']"] show ?thesis
    using raw_calls_text [OF _ g, of "[]" "[]"] by (simp add: Parse_def j)
qed

lemma erroneous_file_dropped_witness:
  "\<exists>s'. processFile sample_env ''a'' sample_parser = Next s' \<and> db_cdr s' = [] \<and> isFileProcessed sample_env s' ''a''"
proof -
  obtain r where r: "Parse (\<lambda>_. []) bad_file = Val r" "0 < pr_errorcallscount r"
    using bad_file_parsed by blast
  have "en_fetch sample_env ''a'' = Some bad_file" "Parse (en_md5 sample_env) bad_file = Val r"
    using r(1) by (simp_all add: sample_env_def)
  from erroneous_file_dropped [OF this r(2), of sample_parser] show ?thesis by (auto simp: sample_parser_def sample_env_def)
qed


end
