(* ===== verification/Client_Locks.thy ===== *)
theory Client_Locks
  imports Repository Data_Container
begin

text \<open>
  The locks of accounts: \<^verbatim>\<open>lists/ClientLockCounter.h\<close> (the locks in force and the changes not yet sent),
  \<^verbatim>\<open>lists/ActiveCounter.h\<close> (accounts with a service in use), \<^verbatim>\<open>threads/ThreadClientLock.cpp\<close> (which accounts are to be
  locked), \<^verbatim>\<open>threads/ThreadSyncLocks.cpp\<close> (sending the changes to the central data base) and
  \<^verbatim>\<open>threads/ThreadLimitControl.cpp\<close> (which calls in progress are to be cut off).
  A \<open>std::map\<close> is an association list in the order of its keys, a \<open>std::set\<close> a list in order. The markers are
  unsigned numbers of 64 bits in the source and do not overflow in the life of the program.
\<close>

section \<open>Ordered maps\<close>

fun om_put :: "'k::linorder \<Rightarrow> 'v \<Rightarrow> ('k \<times> 'v) list \<Rightarrow> ('k \<times> 'v) list" where
  "om_put k v [] = [(k, v)]"
| "om_put k v ((j, w) # m) =
     (if k < j then (k, v) # (j, w) # m else if k = j then (k, v) # m else (j, w) # om_put k v m)"

definition om_erase :: "'k \<Rightarrow> ('k \<times> 'v) list \<Rightarrow> ('k \<times> 'v) list" where
  "om_erase k m = filter (\<lambda>p. fst p \<noteq> k) m"

text \<open>\<open>insert\<close> keeps an entry that is there, \<open>operator[]\<close> makes one from the default.\<close>

definition om_insert :: "'k::linorder \<Rightarrow> 'v \<Rightarrow> ('k \<times> 'v) list \<Rightarrow> ('k \<times> 'v) list" where
  "om_insert k v m = (case map_of m k of None \<Rightarrow> om_put k v m | Some _ \<Rightarrow> m)"

definition om_ok :: "('k::linorder \<times> 'v) list \<Rightarrow> bool" where
  "om_ok m \<longleftrightarrow> sorted_wrt (<) (map fst m)"

lemma map_of_om_put [simp]: "map_of (om_put k v m) = (map_of m)(k \<mapsto> v)"
  by (induction m) (auto simp: fun_eq_iff)

lemma fst_om_put: "fst ` set (om_put k v m) = insert k (fst ` set m)"
  by (induction k v m rule: om_put.induct) (simp_all add: insert_commute)

lemma om_ok_put: "om_ok m \<Longrightarrow> om_ok (om_put k v m)"
proof (induction m)
  case (Cons p m)
  obtain j w where p: "p = (j, w)" by force
  have "\<forall>x \<in> set (map fst (om_put k v m)). j < x" if "j < k" using Cons.prems that p fst_om_put [of k v m] by (auto simp: om_ok_def)
  then show ?case using Cons p by (auto simp: om_ok_def not_less)
qed (simp add: om_ok_def)

lemma map_of_om_erase [simp]: "map_of (om_erase k m) = (map_of m)(k := None)"
  by (induction m) (auto simp: om_erase_def fun_eq_iff)

lemma om_ok_erase: "om_ok m \<Longrightarrow> om_ok (om_erase k m)"
  by (induction m) (auto simp: om_ok_def om_erase_def)

lemma om_ok_filter: "om_ok m \<Longrightarrow> om_ok (filter P m)"
  by (induction m) (auto simp: om_ok_def)

lemma om_ok_distinct: "om_ok m \<Longrightarrow> distinct (map fst m)"
  by (induction m) (auto simp: om_ok_def)

lemma map_of_filter_ok: "om_ok m \<Longrightarrow> map_of (filter P m) k = (case map_of m k of Some v \<Rightarrow> if P (k, v) then Some v else None | None \<Rightarrow> None)"
proof (induction m)
  case (Cons p m)
  obtain j w where p: "p = (j, w)" by force
  have m: "om_ok m" "j \<notin> dom (map_of m)" using Cons.prems p by (auto simp: om_ok_def dom_map_of_conv_image_fst)
  then have "map_of m j = None" by auto
  then show ?case using Cons.IH [OF m(1)] p by (auto split: option.splits)
qed simp

section \<open>The locks in force\<close>

record ClientLockObj =
  lk_client_id :: int
  lk_disabled_local :: bool
  lk_disabled_global :: bool
  lk_is_finance_block :: bool
  lk_is_overran :: bool
  lk_is_mn_overran :: bool

definition ClientLockObj_zero :: ClientLockObj where
  "ClientLockObj_zero = \<lparr> lk_client_id = 0, lk_disabled_local = False, lk_disabled_global = False,
     lk_is_finance_block = False, lk_is_overran = False, lk_is_mn_overran = False \<rparr>"

text \<open>The values a row of the central table has besides the account.\<close>

definition lock_flags :: "ClientLockObj \<Rightarrow> bool \<times> bool \<times> bool \<times> bool \<times> bool" where
  "lock_flags l = (lk_disabled_global l, lk_disabled_local l, lk_is_finance_block l, lk_is_overran l, lk_is_mn_overran l)"

record ClientLockCounter =
  lc_marker :: nat
  lc_needTotalSync :: bool
  lc_isReady :: bool
  lc_counter :: "(int \<times> ClientLockObj) list"
  lc_changes :: "(int \<times> nat) list"

definition ClientLockCounter_new :: ClientLockCounter where
  "ClientLockCounter_new = \<lparr> lc_marker = 0, lc_needTotalSync = True, lc_isReady = False, lc_counter = [], lc_changes = [] \<rparr>"

definition counter_at :: "ClientLockCounter \<Rightarrow> int \<Rightarrow> ClientLockObj" where
  "counter_at c i = (case map_of (lc_counter c) i of Some l \<Rightarrow> l | None \<Rightarrow> ClientLockObj_zero)"

text \<open>\<open>get\<close> answers \<open>counter[client_id]\<close>, which makes an entry for an account that has none.\<close>

definition lock_get :: "int \<Rightarrow> ClientLockCounter \<Rightarrow> ClientLockObj \<times> ClientLockCounter" where
  "lock_get client_id c =
     (counter_at c client_id, c\<lparr> lc_counter := om_put client_id (counter_at c client_id) (lc_counter c) \<rparr>)"

definition push_row :: "ClientLockCounter \<Rightarrow> int \<times> ClientLockObj \<Rightarrow> ClientLockCounter" where
  "push_row c pair =
     (case pair of (i, l) \<Rightarrow>
        let cc = counter_at c i in
        if lk_client_id cc = 0 \<or> lock_flags cc \<noteq> lock_flags l then
          c\<lparr> lc_counter := om_put i (l\<lparr> lk_client_id := i \<rparr>) (lc_counter c), lc_marker := lc_marker c + 1,
             lc_changes := om_put i (lc_marker c + 1) (lc_changes c) \<rparr>
        else c)"

text \<open>The second loop of \<open>push\<close> walks over the entries and erases those that are not wanted. It steps the iterator
  before it reads the key to be marked as changed, so it marks the next account, and reads through \<open>end()\<close> after
  the last one: \<open>past_end\<close> stands for what is read there.\<close>

fun drop_rows :: "int \<Rightarrow> (int \<times> ClientLockObj) list \<Rightarrow> (int \<times> ClientLockObj) list \<Rightarrow> ClientLockCounter \<Rightarrow> ClientLockCounter" where
  "drop_rows past_end client_locks [] c = c"
| "drop_rows past_end client_locks ((i, l) # rest) c =
     drop_rows past_end client_locks rest
       (if map_of client_locks i = None then
          c\<lparr> lc_counter := om_erase i (lc_counter c), lc_marker := lc_marker c + 1,
             lc_changes := om_put (case rest of [] \<Rightarrow> past_end | (j, _) # _ \<Rightarrow> j) (lc_marker c + 1) (lc_changes c),
             lc_needTotalSync := True \<rparr>
        else c)"

definition lock_push :: "int \<Rightarrow> (int \<times> ClientLockObj) list \<Rightarrow> ClientLockCounter \<Rightarrow> ClientLockCounter" where
  "lock_push past_end client_locks c =
     (let c1 = foldl push_row c client_locks
      in (drop_rows past_end client_locks (lc_counter c1) c1)\<lparr> lc_isReady := True \<rparr>)"

definition getLocks :: "ClientLockCounter \<Rightarrow> ClientLockObj list" where
  "getLocks c = map snd (lc_counter c)"

definition lock_getChanges :: "ClientLockCounter \<Rightarrow> nat \<times> int list \<times> bool" where
  "lock_getChanges c =
     (lc_marker c, if lc_needTotalSync c then map fst (lc_counter c) else map fst (lc_changes c), lc_needTotalSync c)"

definition fixChanges :: "nat \<Rightarrow> ClientLockCounter \<Rightarrow> ClientLockCounter" where
  "fixChanges old_marker c = c\<lparr> lc_changes := filter (\<lambda>p. \<not> snd p \<le> old_marker) (lc_changes c) \<rparr>"

section \<open>Accounts with a service in use\<close>

record ActiveCounter =
  ac_activeNumbers :: "int list"
  ac_activeTrunks :: "int list"
  ac_activeClients :: "int list"
  ac_clientNumbers :: "(int \<times> (int \<times> ServiceNumber) list) list"
  ac_clientTrunks :: "(int \<times> (int \<times> ServiceTrunk) list) list"

definition ActiveCounter_new :: ActiveCounter where
  "ActiveCounter_new = \<lparr> ac_activeNumbers = [], ac_activeTrunks = [], ac_activeClients = [], ac_clientNumbers = [],
     ac_clientTrunks = [] \<rparr>"

definition entries_at :: "(int \<times> (int \<times> 'a) list) list \<Rightarrow> int \<Rightarrow> (int \<times> 'a) list" where
  "entries_at m i = (case map_of m i of Some x \<Rightarrow> x | None \<Rightarrow> [])"

definition active_number :: "int \<Rightarrow> ServiceNumber \<Rightarrow> bool" where
  "active_number now n \<longleftrightarrow> \<not> (sn_activation_dt n > now \<or> sn_expire_dt n < now \<or> \<not> sn_is_local n)"

definition active_trunk :: "int \<Rightarrow> ServiceTrunk \<Rightarrow> bool" where
  "active_trunk now t \<longleftrightarrow> \<not> (st_activation_dt t > now \<or> st_expire_dt t < now)"

definition add_active_number :: "int \<Rightarrow> ActiveCounter \<Rightarrow> ServiceNumber \<Rightarrow> ActiveCounter" where
  "add_active_number now a n =
     (if \<not> active_number now n then a
      else a\<lparr> ac_activeNumbers := insort_insert (sn_id n) (ac_activeNumbers a),
              ac_activeClients := insort_insert (sn_client_account_id n) (ac_activeClients a),
              ac_clientNumbers := om_put (sn_client_account_id n)
                (om_insert (sn_id n) n (entries_at (ac_clientNumbers a) (sn_client_account_id n))) (ac_clientNumbers a) \<rparr>)"

definition add_active_trunk :: "int \<Rightarrow> ActiveCounter \<Rightarrow> ServiceTrunk \<Rightarrow> ActiveCounter" where
  "add_active_trunk now a t =
     (if \<not> active_trunk now t then a
      else a\<lparr> ac_activeTrunks := insort_insert (st_id t) (ac_activeTrunks a),
              ac_activeClients := insort_insert (st_client_account_id t) (ac_activeClients a),
              ac_clientTrunks := om_put (st_client_account_id t)
                (om_insert (st_id t) t (entries_at (ac_clientTrunks a) (st_client_account_id t))) (ac_clientTrunks a) \<rparr>)"

definition ActiveCounter_load :: "int \<Rightarrow> ServiceNumber list \<Rightarrow> ServiceTrunk list \<Rightarrow> ActiveCounter \<Rightarrow> ActiveCounter" where
  "ActiveCounter_load now serviceNumberList serviceTrunkList a =
     foldl (add_active_trunk now) (foldl (add_active_number now) a serviceNumberList) serviceTrunkList"

section \<open>Which accounts are locked\<close>

text \<open>What an account has spent: the calls stored and waiting here and those of the other regions, for the balance,
  the day, and the day's international calls.\<close>

definition lock_sums :: "Repo \<Rightarrow> StatsAccountManager \<Rightarrow> GlobalCounters list \<Rightarrow> Client \<Rightarrow> real \<times> real \<times> real" where
  "lock_sums r stats globals client =
     (let i = cl_id client; vat_rate = getVatRate (Some client); now = rp_now r;
          g = GlobalCountersList_find globals i in
      (getSumBalance stats i vat_rate + (case g of Some c \<Rightarrow> GlobalCounters_sumBalance c vat_rate | None \<Rightarrow> 0),
       getSumDay now stats i vat_rate + (case g of Some c \<Rightarrow> GlobalCounters_sumDay c vat_rate | None \<Rightarrow> 0),
       getSumMNDay now stats i vat_rate + (case g of Some c \<Rightarrow> GlobalCounters_sumMNDay c vat_rate | None \<Rightarrow> 0)))"

definition lock_finance_on :: "Repo \<Rightarrow> bool" where
  "lock_finance_on r =
     (case getInstanceSettings r (cf_instance_id (rp_conf r)) of Some i \<Rightarrow> is_auto_lock_finance i | None \<Rightarrow> False)"

text \<open>The answer of \<open>needLockLocal\<close> and the three flags it sets: finance, daily limit, international limit.\<close>

definition needLockLocal :: "Repo \<Rightarrow> StatsAccountManager \<Rightarrow> GlobalCounters list \<Rightarrow> int \<Rightarrow> bool \<times> bool \<times> bool \<times> bool" where
  "needLockLocal r stats globals i =
     (case getAccount r i of
        None \<Rightarrow> (False, False, False, False)
      | Some client \<Rightarrow>
          (case lock_sums r stats globals client of (spentBalance, spentDay, spentDayMN) \<Rightarrow>
             let finance = isConsumedCreditLimit client spentBalance \<and> lock_finance_on r;
                 overran = isConsumedDailyLimit client spentDay;
                 mn = isConsumedDailyMNLimit client spentDayMN
             in (cl_disabled client \<or> finance \<or> overran, finance, overran, mn)))"

definition needLockGlobal :: "Repo \<Rightarrow> int \<Rightarrow> bool" where
  "needLockGlobal r i = (case getAccount r i of Some client \<Rightarrow> cl_is_blocked client | None \<Rightarrow> False)"

definition account_lock :: "Repo \<Rightarrow> StatsAccountManager \<Rightarrow> GlobalCounters list \<Rightarrow> int \<Rightarrow> ClientLockObj option" where
  "account_lock r stats globals i =
     (case needLockLocal r stats globals i of (local, finance, overran, mn) \<Rightarrow>
        let global = needLockGlobal r i in
        if local \<or> global \<or> overran \<or> finance \<or> mn then
          Some \<lparr> lk_client_id = i, lk_disabled_local = local, lk_disabled_global = global, lk_is_finance_block = finance,
                 lk_is_overran = overran, lk_is_mn_overran = mn \<rparr>
        else None)"

definition wanted_locks :: "Repo \<Rightarrow> StatsAccountManager \<Rightarrow> GlobalCounters list \<Rightarrow> int list \<Rightarrow> (int \<times> ClientLockObj) list" where
  "wanted_locks r stats globals activeClients =
     foldl (\<lambda>m i. case account_lock r stats globals i of Some l \<Rightarrow> om_put i l m | None \<Rightarrow> m) [] activeClients"

text \<open>\<open>ThreadClientLock::run\<close>; the three flags are what \<open>prepare\<close> and \<open>ready\<close> answer.\<close>

definition client_lock_run :: "bool \<Rightarrow> bool \<Rightarrow> GlobalCounters list option \<Rightarrow> int \<Rightarrow> Repo \<Rightarrow> StatsAccountManager \<Rightarrow> ActiveCounter \<Rightarrow>
    ClientLockCounter \<Rightarrow> ClientLockCounter" where
  "client_lock_run prepared data_ready globals past_end r stats active c =
     (if \<not> prepared then c
      else if \<not> data_ready then c
      else (case globals of
              None \<Rightarrow> c
            | Some g \<Rightarrow> lock_push past_end (wanted_locks r stats g (ac_activeClients active)) c))"

section \<open>Which calls are cut off\<close>

datatype KillReason = full_block | credit_limit | mgmn_block | mn_block | daily_limit

text \<open>\<open>limitControlKillNeeded\<close>: the reason of the log entry, or none. \<open>prepared\<close> is what \<open>prepare\<close> answers at its
  beginning; \<open>current\<close> counts the calls in progress.\<close>

definition limitControlKillNeeded :: "bool \<Rightarrow> Repo \<Rightarrow> StatsAccountManager \<Rightarrow> StatsAccountManager \<Rightarrow> GlobalCounters list option \<Rightarrow>
    Call \<Rightarrow> KillReason option exc" where
  "limitControlKillNeeded prepared r stats current globals call =
     (let auto_lock_finance = (if prepared then lock_finance_on r else True) in
      if c_is_service_number call then Val None
      else bind_exc (isEmergencyCall r (lld (c_dst_number call)) (c_server_id call)) (\<lambda>emergency.
        if emergency then Val None
        else if c_account_id call = 0 then Val None
        else (case getAccount r (c_account_id call) of
           None \<Rightarrow> Val None
         | Some client \<Rightarrow>
             (let i = c_account_id call; vat_rate = getVatRate (Some client); now = rp_now r;
                  g = (case globals of None \<Rightarrow> None | Some l \<Rightarrow> GlobalCountersList_find l i);
                  spentBalance = getSumBalance stats i vat_rate + getSumBalance current i vat_rate +
                    (case g of Some c \<Rightarrow> GlobalCounters_sumBalance c vat_rate | None \<Rightarrow> 0);
                  spentDay = getSumDay now stats i vat_rate + getSumDay now current i vat_rate +
                    (case g of Some c \<Rightarrow> GlobalCounters_sumDay c vat_rate | None \<Rightarrow> 0);
                  spentDayMN = getSumMNDay now stats i vat_rate + getSumMNDay now current i vat_rate +
                    (case g of Some c \<Rightarrow> GlobalCounters_sumMNDay c vat_rate | None \<Rightarrow> 0)
              in Val (if cl_is_blocked client then Some full_block
                 else if c_trunk_service_id call \<noteq> 0 then
                   (if isConsumedCreditLimit client spentBalance \<and> auto_lock_finance then Some credit_limit else None)
                 else if c_number_service_id call \<noteq> 0 \<and> c_orig call then
                   (if \<not> isLocal call \<and> cl_disabled client then Some mgmn_block
                    else if \<not> isLocal call \<and> isConsumedCreditLimit client spentBalance \<and> auto_lock_finance then Some credit_limit
                    else if isInternational call \<and> isConsumedDailyMNLimit client spentDayMN then Some mn_block
                    else if \<not> isLocal call \<and> isConsumedDailyLimit client spentDay then Some daily_limit
                    else None)
                 else None)))))"

text \<open>\<open>ThreadLimitControl::run\<close>: the messages sent to the switch, a pair of number and call each.\<close>

fun limit_control_run :: "bool \<Rightarrow> Repo \<Rightarrow> StatsAccountManager \<Rightarrow> StatsAccountManager \<Rightarrow> GlobalCounters list option \<Rightarrow>
    Call list \<Rightarrow> (string \<times> string) list exc" where
  "limit_control_run prepared r stats current globals calls =
     (if \<not> prepared then Val []
      else collect_exc (\<lambda>call. bind_exc (limitControlKillNeeded prepared r stats current globals call) (\<lambda>kill.
             Val (case kill of Some _ \<Rightarrow> Some (lld (c_src_number call), lld (c_cdr_call_id call)) | None \<Rightarrow> None))) calls)"

end
