(* ===== verification/Black_Lists.thy ===== *)
theory Black_Lists
  imports Client_Locks
begin

text \<open>
  The black lists of the switch: \<^verbatim>\<open>classes/UdpControlClient.cpp\<close> (the messages), \<^verbatim>\<open>classes/BlackList.cpp\<close> with its four
  instances (what the switch is known to bar), \<^verbatim>\<open>threads/ThreadBlacklistCalc.cpp\<close> (what it ought to bar),
  \<^verbatim>\<open>threads/ThreadBlacklistFetch.cpp\<close>, and \<^verbatim>\<open>threads/ThreadCheckStartTable.cpp\<close> (calls the switch has forgotten).
  The switch is the parameter \<open>udp\<close>: it answers a message, or not, depending on the exchanges so far. A
  \<open>set<string>\<close> is a list in order. \<open>operator[]\<close> of the active services makes an empty entry for an account that has
  none, which reads as the missing one; it is left out, and so are the log entries.
\<close>

type_synonym udp_log = "(string \<times> string option) list"

type_synonym udp = "udp_log \<Rightarrow> string \<Rightarrow> string option"

section \<open>Messages\<close>

definition sendrecv :: "udp \<Rightarrow> string \<Rightarrow> udp_log \<Rightarrow> string option \<times> udp_log" where
  "sendrecv udp msg h = (udp h msg, h @ [(msg, udp h msg)])"

text \<open>\<open>boost::split\<close> at commas with \<open>token_compress_on\<close>: neighbouring commas are one mark.\<close>

fun split_compress :: "string \<Rightarrow> string list" where
  "split_compress [] = [[]]"
| "split_compress (c # cs) =
     (if c = CHR '','' then (if cs \<noteq> [] \<and> hd cs = CHR '','' then split_compress cs else [] # split_compress cs)
      else (case split_compress cs of [] \<Rightarrow> [[c]] | f # fs \<Rightarrow> (c # f) # fs))"

text \<open>A query of a list. \<open>list\<close> is what the vector held before: an empty answer calls \<open>list.empty()\<close>, which
  leaves it as it is.\<close>

definition read_list :: "udp \<Rightarrow> string \<Rightarrow> string list \<Rightarrow> udp_log \<Rightarrow> string list option \<times> udp_log" where
  "read_list udp msg list h =
     (case sendrecv udp msg h of (res, h') \<Rightarrow>
        (case res of None \<Rightarrow> None
         | Some res \<Rightarrow> if res = ''0'' then None else if res = [] then Some list else Some (split_compress res), h'))"

definition command :: "udp \<Rightarrow> string \<Rightarrow> udp_log \<Rightarrow> bool \<times> udp_log" where
  "command udp msg h = (case sendrecv udp msg h of (res, h') \<Rightarrow> (res = Some ''1'', h'))"

definition select_calls :: "udp \<Rightarrow> string list \<Rightarrow> udp_log \<Rightarrow> string list option \<times> udp_log" where
  "select_calls udp list h =
     (case sendrecv udp ''SELECT'' h of (res, h') \<Rightarrow>
        (case res of None \<Rightarrow> None | Some res \<Rightarrow> if res = [] then Some list else Some (split_compress res), h'))"

definition kill :: "udp \<Rightarrow> string \<Rightarrow> string \<Rightarrow> udp_log \<Rightarrow> bool \<times> udp_log" where
  "kill udp phones ids h = (case sendrecv udp (''KILL '' @ phones @ '' '' @ ids) h of (res, h') \<Rightarrow> (res \<noteq> None, h'))"

definition blacklist_local :: "udp \<Rightarrow> string list \<Rightarrow> udp_log \<Rightarrow> string list option \<times> udp_log" where
  "blacklist_local udp list h = read_list udp ''READ_BLACKLIST_LOCAL'' list h"

definition blacklist_global :: "udp \<Rightarrow> string list \<Rightarrow> udp_log \<Rightarrow> string list option \<times> udp_log" where
  "blacklist_global udp list h = read_list udp ''READ_BLACKLIST_GLOBAL'' list h"

definition blacklist_trunk :: "udp \<Rightarrow> string list \<Rightarrow> udp_log \<Rightarrow> string list option \<times> udp_log" where
  "blacklist_trunk udp list h = read_list udp ''READ_LOCKED_TRUNK'' list h"

definition blacklist_anti_fraud_disable :: "udp \<Rightarrow> string list \<Rightarrow> udp_log \<Rightarrow> string list option \<times> udp_log" where
  "blacklist_anti_fraud_disable udp list h = read_list udp ''READ_BLACKLIST_ANTI_FRAUD_DISABLE'' list h"

definition lock_local :: "udp \<Rightarrow> string \<Rightarrow> udp_log \<Rightarrow> bool \<times> udp_log" where
  "lock_local udp phone h = command udp (''LOCK_LOCAL '' @ phone) h"

definition lock_global :: "udp \<Rightarrow> string \<Rightarrow> udp_log \<Rightarrow> bool \<times> udp_log" where
  "lock_global udp phone h = command udp (''LOCK_GLOBAL '' @ phone) h"

definition lock_trunk :: "udp \<Rightarrow> string \<Rightarrow> udp_log \<Rightarrow> bool \<times> udp_log" where
  "lock_trunk udp trunk h = command udp (''LOCK_TRUNK '' @ trunk) h"

definition add_anti_fraud_disable :: "udp \<Rightarrow> string \<Rightarrow> udp_log \<Rightarrow> bool \<times> udp_log" where
  "add_anti_fraud_disable udp phone h = command udp (''ADD_ANTI_FRAUD_DISABLE '' @ phone) h"

definition unlock_local :: "udp \<Rightarrow> string \<Rightarrow> udp_log \<Rightarrow> bool \<times> udp_log" where
  "unlock_local udp phone h = command udp (''UNLOCK_LOCAL '' @ phone) h"

definition unlock_global :: "udp \<Rightarrow> string \<Rightarrow> udp_log \<Rightarrow> bool \<times> udp_log" where
  "unlock_global udp phone h = command udp (''UNLOCK_GLOBAL '' @ phone) h"

definition unlock_trunk :: "udp \<Rightarrow> string \<Rightarrow> udp_log \<Rightarrow> bool \<times> udp_log" where
  "unlock_trunk udp trunk h = command udp (''UNLOCK_TRUNK '' @ trunk) h"

definition del_anti_fraud_disable :: "udp \<Rightarrow> string \<Rightarrow> udp_log \<Rightarrow> bool \<times> udp_log" where
  "del_anti_fraud_disable udp phone h = command udp (''DEL_ANTI_FRAUD_DISABLE '' @ phone) h"

section \<open>A black list\<close>

datatype BlackListKind = BlackListLocal | BlackListGlobal | BlackListTrunk | BlackListAntiFraudDisable

fun udp_blacklist :: "BlackListKind \<Rightarrow> udp \<Rightarrow> string list \<Rightarrow> udp_log \<Rightarrow> string list option \<times> udp_log" where
  "udp_blacklist BlackListLocal = blacklist_local"
| "udp_blacklist BlackListGlobal = blacklist_global"
| "udp_blacklist BlackListTrunk = blacklist_trunk"
| "udp_blacklist BlackListAntiFraudDisable = blacklist_anti_fraud_disable"

fun udp_lock :: "BlackListKind \<Rightarrow> udp \<Rightarrow> string \<Rightarrow> udp_log \<Rightarrow> bool \<times> udp_log" where
  "udp_lock BlackListLocal = lock_local"
| "udp_lock BlackListGlobal = lock_global"
| "udp_lock BlackListTrunk = lock_trunk"
| "udp_lock BlackListAntiFraudDisable = add_anti_fraud_disable"

fun udp_unlock :: "BlackListKind \<Rightarrow> udp \<Rightarrow> string \<Rightarrow> udp_log \<Rightarrow> bool \<times> udp_log" where
  "udp_unlock BlackListLocal = unlock_local"
| "udp_unlock BlackListGlobal = unlock_global"
| "udp_unlock BlackListTrunk = unlock_trunk"
| "udp_unlock BlackListAntiFraudDisable = del_anti_fraud_disable"

record BlackList =
  bl_blacklist :: "string list"
  bl_list_to_add :: "string list"
  bl_list_to_del :: "string list"

definition BlackList_new :: BlackList where
  "BlackList_new = \<lparr> bl_blacklist = [], bl_list_to_add = [], bl_list_to_del = [] \<rparr>"

definition bl_fetch :: "udp \<Rightarrow> BlackListKind \<Rightarrow> BlackList \<Rightarrow> udp_log \<Rightarrow> BlackList \<times> udp_log" where
  "bl_fetch udp k b h =
     (case udp_blacklist k udp [] h of (res, h') \<Rightarrow>
        (case res of None \<Rightarrow> b | Some curr_list \<Rightarrow> b\<lparr> bl_blacklist := foldl (\<lambda>l p. insort_insert p l) [] curr_list \<rparr>, h'))"

fun lock_phones :: "udp \<Rightarrow> BlackListKind \<Rightarrow> string list \<Rightarrow> BlackList \<Rightarrow> udp_log \<Rightarrow> BlackList \<times> udp_log" where
  "lock_phones udp k [] b h = (b, h)"
| "lock_phones udp k (phone # rest) b h =
     (case udp_lock k udp phone h of (ok, h') \<Rightarrow>
        lock_phones udp k rest (if ok then b\<lparr> bl_blacklist := insort_insert phone (bl_blacklist b) \<rparr> else b) h')"

fun unlock_phones :: "udp \<Rightarrow> BlackListKind \<Rightarrow> string list \<Rightarrow> BlackList \<Rightarrow> udp_log \<Rightarrow> BlackList \<times> udp_log" where
  "unlock_phones udp k [] b h = (b, h)"
| "unlock_phones udp k (phone # rest) b h =
     (case udp_unlock k udp phone h of (ok, h') \<Rightarrow>
        unlock_phones udp k rest (if ok then b\<lparr> bl_blacklist := filter (\<lambda>p. p \<noteq> phone) (bl_blacklist b) \<rparr> else b) h')"

text \<open>\<open>ready\<close> is what \<open>prepare\<close> and \<open>billingData->ready\<close> answer.\<close>

definition bl_push :: "bool \<Rightarrow> udp \<Rightarrow> BlackListKind \<Rightarrow> string list \<Rightarrow> BlackList \<Rightarrow> udp_log \<Rightarrow> BlackList \<times> udp_log" where
  "bl_push ready udp k wanted_blacklist b h =
     (let b1 = b\<lparr> bl_list_to_del := filter (\<lambda>p. p \<notin> set wanted_blacklist) (bl_blacklist b),
                  bl_list_to_add := filter (\<lambda>p. p \<notin> set (bl_blacklist b)) wanted_blacklist \<rparr>
      in if \<not> ready then (b1, h)
         else (case lock_phones udp k (bl_list_to_add b1) b1 h of (b2, h2) \<Rightarrow> unlock_phones udp k (bl_list_to_del b1) b2 h2))"

section \<open>What is to be barred\<close>

definition asBlacklistNumber :: "ServiceNumber \<Rightarrow> string" where
  "asBlacklistNumber n = (if sn_tech_number n \<noteq> [] then sn_tech_number n else sn_did n)"

definition is7800 :: "ServiceNumber \<Rightarrow> bool" where
  "is7800 n \<longleftrightarrow> take 4 (sn_did n) = ''7800'' \<and> length (sn_did n) > 4"

record WantedLists =
  wl_local :: "string list"
  wl_global :: "string list"
  wl_trunk :: "string list"
  wl_anti_fraud_disable :: "string list"

definition WantedLists_new :: WantedLists where
  "WantedLists_new = \<lparr> wl_local = [], wl_global = [], wl_trunk = [], wl_anti_fraud_disable = [] \<rparr>"

definition want_number :: "ClientLockObj \<Rightarrow> WantedLists \<Rightarrow> ServiceNumber \<Rightarrow> WantedLists" where
  "want_number lock w number =
     (let w1 = (if lk_disabled_local lock then
                  (if \<not> is7800 number then w\<lparr> wl_local := insort_insert (sn_did number) (wl_local w) \<rparr>
                   else w\<lparr> wl_global := insort_insert (asBlacklistNumber number) (wl_global w) \<rparr>)
                else w)
      in if lk_disabled_global lock then w1\<lparr> wl_global := insort_insert (asBlacklistNumber number) (wl_global w1) \<rparr> else w1)"

definition want_finance_trunk :: "Repo \<Rightarrow> WantedLists \<Rightarrow> ServiceTrunk \<Rightarrow> WantedLists" where
  "want_finance_trunk r w st =
     (case getTrunk r (st_trunk_id st) of
        Some t \<Rightarrow> if \<not> tr_auth_by_number t then w\<lparr> wl_trunk := insort_insert (tr_trunk_name t) (wl_trunk w) \<rparr> else w
      | None \<Rightarrow> w)"

definition want_blocked_trunk :: "Repo \<Rightarrow> WantedLists \<Rightarrow> ServiceTrunk \<Rightarrow> WantedLists" where
  "want_blocked_trunk r w st =
     (case getTrunk r (st_trunk_id st) of
        Some t \<Rightarrow> w\<lparr> wl_trunk := insort_insert (tr_trunk_name t) (wl_trunk w) \<rparr>
      | None \<Rightarrow> w)"

definition want_lock :: "Repo \<Rightarrow> ActiveCounter \<Rightarrow> WantedLists \<Rightarrow> ClientLockObj \<Rightarrow> WantedLists" where
  "want_lock r active w lock =
     (let numbers = map snd (entries_at (ac_clientNumbers active) (lk_client_id lock));
          trunks = map snd (entries_at (ac_clientTrunks active) (lk_client_id lock));
          w1 = (if lk_disabled_local lock \<or> lk_disabled_global lock then foldl (want_number lock) w numbers else w);
          w2 = (if lk_is_finance_block lock then foldl (want_finance_trunk r) w1 trunks else w1)
      in if lk_disabled_global lock then foldl (want_blocked_trunk r) w2 trunks else w2)"

definition want_account :: "Repo \<Rightarrow> ActiveCounter \<Rightarrow> WantedLists \<Rightarrow> int \<Rightarrow> WantedLists" where
  "want_account r active w client_account_id =
     (case getAccount r client_account_id of
        None \<Rightarrow> w
      | Some client \<Rightarrow>
          if \<not> cl_anti_fraud_disabled client then w
          else foldl (\<lambda>w number. w\<lparr> wl_anti_fraud_disable := insort_insert (asBlacklistNumber number) (wl_anti_fraud_disable w) \<rparr>)
                 w (map snd (entries_at (ac_clientNumbers active) (cl_id client))))"

definition wanted_lists :: "Repo \<Rightarrow> ActiveCounter \<Rightarrow> ClientLockCounter \<Rightarrow> WantedLists" where
  "wanted_lists r active c =
     foldl (want_account r active) (foldl (want_lock r active) WantedLists_new (getLocks c)) (ac_activeClients active)"

record BlackLists =
  bk_local :: BlackList
  bk_global :: BlackList
  bk_trunk :: BlackList
  bk_anti_fraud_disable :: BlackList

text \<open>\<open>ThreadBlacklistCalc::run\<close>. The first two flags are the answers at its beginning, \<open>push_ready\<close> the one inside
  \<open>push\<close>.\<close>

definition blacklist_calc_run :: "bool \<Rightarrow> bool \<Rightarrow> bool \<Rightarrow> udp \<Rightarrow> Repo \<Rightarrow> ActiveCounter \<Rightarrow> ClientLockCounter \<Rightarrow> BlackLists \<Rightarrow> udp_log \<Rightarrow>
    BlackLists \<times> udp_log" where
  "blacklist_calc_run data_ready prepared push_ready udp r active c bs h =
     (if \<not> data_ready then (bs, h)
      else if \<not> prepared then (bs, h)
      else if \<not> lc_isReady c then (bs, h)
      else
        let w = wanted_lists r active c;
            (b1, h1) = bl_push push_ready udp BlackListLocal (wl_local w) (bk_local bs) h;
            (b2, h2) = bl_push push_ready udp BlackListGlobal (wl_global w) (bk_global bs) h1;
            (b3, h3) = bl_push push_ready udp BlackListTrunk (wl_trunk w) (bk_trunk bs) h2;
            (b4, h4) = bl_push push_ready udp BlackListAntiFraudDisable (wl_anti_fraud_disable w) (bk_anti_fraud_disable bs) h3
        in (\<lparr> bk_local = b1, bk_global = b2, bk_trunk = b3, bk_anti_fraud_disable = b4 \<rparr>, h4))"

definition blacklist_fetch_run :: "udp \<Rightarrow> BlackLists \<Rightarrow> udp_log \<Rightarrow> BlackLists \<times> udp_log" where
  "blacklist_fetch_run udp bs h =
     (let (b1, h1) = bl_fetch udp BlackListLocal (bk_local bs) h;
          (b2, h2) = bl_fetch udp BlackListGlobal (bk_global bs) h1;
          (b3, h3) = bl_fetch udp BlackListTrunk (bk_trunk bs) h2;
          (b4, h4) = bl_fetch udp BlackListAntiFraudDisable (bk_anti_fraud_disable bs) h3
      in (\<lparr> bk_local = b1, bk_global = b2, bk_trunk = b3, bk_anti_fraud_disable = b4 \<rparr>, h4))"

section \<open>Calls the switch has forgotten\<close>

text \<open>\<open>ThreadCheckStartTable::run\<close>: the calls whose record of the start is deleted. \<open>cdrs\<close> are the calls in progress at
  the beginning, \<open>newCdrs\<close> those after the pause. No answer of the switch is an exception.\<close>

definition fetchOpencaCurrentCalls :: "udp \<Rightarrow> udp_log \<Rightarrow> int list exc \<times> udp_log" where
  "fetchOpencaCurrentCalls udp h =
     (case select_calls udp [] h of (res, h') \<Rightarrow>
        (case res of None \<Rightarrow> Exc ''Can't receive current calls list''
         | Some openca_calls \<Rightarrow> Val (foldl (\<lambda>l s. insort_insert (atoll s) l) [] openca_calls), h'))"

definition spawnWaitingForFinishCalls :: "int list \<Rightarrow> Cdr list \<Rightarrow> int list" where
  "spawnWaitingForFinishCalls opencaCalls cdrs =
     foldl (\<lambda>l cdr. if cdr_call_id cdr \<notin> set opencaCalls then insort_insert (cdr_call_id cdr) l else l) [] cdrs"

definition forceFinishCalls :: "int list \<Rightarrow> Cdr list \<Rightarrow> int list" where
  "forceFinishCalls waitingForFinishCalls newCdrs =
     (let callsIds = foldl (\<lambda>l cdr. insort_insert (cdr_call_id cdr) l) [] newCdrs
      in filter (\<lambda>i. i \<in> set callsIds) waitingForFinishCalls)"

definition check_start_run :: "bool \<Rightarrow> bool \<Rightarrow> udp \<Rightarrow> Cdr list \<Rightarrow> Cdr list \<Rightarrow> udp_log \<Rightarrow> int list exc \<times> udp_log" where
  "check_start_run udp_ready calls_ready udp cdrs newCdrs h =
     (if \<not> udp_ready then (Val [], h)
      else if \<not> calls_ready then (Val [], h)
      else (case fetchOpencaCurrentCalls udp h of (res, h') \<Rightarrow>
              (bind_exc res (\<lambda>opencaCalls.
                 let waiting = spawnWaitingForFinishCalls opencaCalls cdrs
                 in Val (if waiting \<noteq> [] then forceFinishCalls waiting newCdrs else [])), h')))"

section \<open>Laws\<close>

lemma set_foldl_insort: "set (foldl (\<lambda>l p. insort_insert (f p) l) l ps) = f ` set ps \<union> set l"
  by (induction ps arbitrary: l) (auto simp: set_insort_insert)

lemma set_foldl_union:
  assumes "\<And>w x. set (f (g w x)) = set (f w) \<union> P x"
  shows "set (f (foldl g w xs)) = set (f w) \<union> (\<Union>x \<in> set xs. P x)"
  by (induction xs arbitrary: w) (auto simp: assms)

lemma split_compress_field:
  "f \<noteq> [] \<Longrightarrow> CHR '','' \<notin> set f \<Longrightarrow> split_compress f = [f]"
proof (induction f)
  case (Cons c f)
  then show ?case by (cases "f = []") auto
qed simp

lemma split_compress_fields:
  "f \<noteq> [] \<Longrightarrow> CHR '','' \<notin> set f \<Longrightarrow> rest \<noteq> [] \<Longrightarrow> hd rest \<noteq> CHR '','' \<Longrightarrow> split_compress (f @ '','' @ rest) = f # split_compress rest"
proof (induction f)
  case (Cons c f)
  then show ?case by (cases "f = []") auto
qed simp

end
