(* ===== verification/Lock_Sync.thy ===== *)
theory Lock_Sync
  imports Client_Locks
begin

text \<open>
  \<^verbatim>\<open>threads/ThreadSyncLocks.cpp\<close> beside \<^verbatim>\<open>threads/ThreadClientLock.cpp\<close>: the changes of the locks are sent to the
  central data base while the other thread goes on changing them. \<open>save_client_locks\<close> takes the spinlock for every
  access of the locks only, so the model runs it as a sequence of sections with a \<open>push\<close> between any two.
  \<open>INSERT INTO billing.clients_locks\<close> is the parameter \<open>ins\<close>: the program sends a row again whenever it changes, so it
  relies on the table replacing a row of the same account (\<open>replaces_rows\<close>).
\<close>

type_synonym lock_row = "bool \<times> bool \<times> bool \<times> bool \<times> bool"

type_synonym lock_table = "int \<Rightarrow> lock_row option"

definition replaces_rows :: "((int \<times> lock_row) list \<Rightarrow> lock_table \<Rightarrow> lock_table) \<Rightarrow> bool" where
  "replaces_rows ins \<longleftrightarrow> (\<forall>rows t a. ins rows t a = (case map_of rows a of Some v \<Rightarrow> Some v | None \<Rightarrow> t a))"

section \<open>The sections of a synchronisation\<close>

datatype SyncPhase =
    Idle
  | Reading nat bool "int list" "(int \<times> lock_row) list"
  | Written nat bool
  | Fixing nat

record LockSystem =
  sy_locks :: ClientLockCounter
  sy_central :: lock_table
  sy_phase :: SyncPhase

definition sync_begin :: "LockSystem \<Rightarrow> LockSystem" where
  "sync_begin s = (case lock_getChanges (sy_locks s) of (marker, changes, needTotalSync) \<Rightarrow>
     s\<lparr> sy_phase := Reading marker needTotalSync changes [] \<rparr>)"

definition sync_get :: "nat \<Rightarrow> bool \<Rightarrow> int \<Rightarrow> int list \<Rightarrow> (int \<times> lock_row) list \<Rightarrow> LockSystem \<Rightarrow> LockSystem" where
  "sync_get marker tot account_id rest rows s = (case lock_get account_id (sy_locks s) of (l, c) \<Rightarrow>
     s\<lparr> sy_locks := c, sy_phase := Reading marker tot rest (rows @ [(account_id, lock_flags l)]) \<rparr>)"

definition sync_write :: "((int \<times> lock_row) list \<Rightarrow> lock_table \<Rightarrow> lock_table) \<Rightarrow> nat \<Rightarrow> bool \<Rightarrow> (int \<times> lock_row) list \<Rightarrow>
    LockSystem \<Rightarrow> LockSystem" where
  "sync_write ins marker tot rows s =
     (let t = (if tot then (\<lambda>_. None) else sy_central s) in
      s\<lparr> sy_central := (if rows \<noteq> [] then ins rows t else t), sy_phase := Written marker tot \<rparr>)"

definition sync_reset :: "nat \<Rightarrow> bool \<Rightarrow> LockSystem \<Rightarrow> LockSystem" where
  "sync_reset marker tot s =
     s\<lparr> sy_locks := (if tot then (sy_locks s)\<lparr> lc_needTotalSync := False \<rparr> else sy_locks s), sy_phase := Fixing marker \<rparr>"

definition sync_fix :: "nat \<Rightarrow> LockSystem \<Rightarrow> LockSystem" where
  "sync_fix marker s = s\<lparr> sy_locks := fixChanges marker (sy_locks s), sy_phase := Idle \<rparr>"

text \<open>A \<open>push\<close> gets rows whose key is their account, as \<open>ThreadClientLock::run\<close> makes them.\<close>

definition proper_locks :: "(int \<times> ClientLockObj) list \<Rightarrow> bool" where
  "proper_locks m \<longleftrightarrow> om_ok m \<and> (\<forall>(i, l) \<in> set m. lk_client_id l = i)"

inductive lock_step :: "((int \<times> lock_row) list \<Rightarrow> lock_table \<Rightarrow> lock_table) \<Rightarrow> LockSystem \<Rightarrow> LockSystem \<Rightarrow> bool"
  for ins where
  push: "proper_locks client_locks \<Longrightarrow>
    lock_step ins s (s\<lparr> sy_locks := lock_push past_end client_locks (sy_locks s) \<rparr>)"
| begin_sync: "sy_phase s = Idle \<Longrightarrow> lock_step ins s (sync_begin s)"
| get: "sy_phase s = Reading marker tot (a # rest) rows \<Longrightarrow> lock_step ins s (sync_get marker tot a rest rows s)"
| nothing: "sy_phase s = Reading marker False [] [] \<Longrightarrow> lock_step ins s (s\<lparr> sy_phase := Idle \<rparr>)"
| failed: "sy_phase s = Reading marker tot [] rows \<Longrightarrow> lock_step ins s (s\<lparr> sy_phase := Idle \<rparr>)"
| written: "sy_phase s = Reading marker tot [] rows \<Longrightarrow> rows \<noteq> [] \<or> tot \<Longrightarrow> lock_step ins s (sync_write ins marker tot rows s)"
| reset: "sy_phase s = Written marker tot \<Longrightarrow> lock_step ins s (sync_reset marker tot s)"
| fixed: "sy_phase s = Fixing marker \<Longrightarrow> lock_step ins s (sync_fix marker s)"

inductive_cases lock_stepE: "lock_step ins s s'"

definition LockSystem_new :: "lock_table \<Rightarrow> LockSystem" where
  "LockSystem_new t = \<lparr> sy_locks = ClientLockCounter_new, sy_central = t, sy_phase = Idle \<rparr>"

inductive lock_reachable :: "((int \<times> lock_row) list \<Rightarrow> lock_table \<Rightarrow> lock_table) \<Rightarrow> LockSystem \<Rightarrow> bool" for ins where
  start: "lock_reachable ins (LockSystem_new t)"
| step: "lock_reachable ins s \<Longrightarrow> lock_step ins s s' \<Longrightarrow> lock_reachable ins s'"

section \<open>What a push does\<close>

text \<open>A row of the counter is either as it was or marked with a marker above the old one.\<close>

definition marks :: "ClientLockCounter \<Rightarrow> ClientLockCounter \<Rightarrow> bool" where
  "marks c c' \<longleftrightarrow> lc_marker c \<le> lc_marker c' \<and> (lc_needTotalSync c \<longrightarrow> lc_needTotalSync c') \<and>
     (\<forall>i k. map_of (lc_changes c) i = Some k \<longrightarrow> (\<exists>k' \<ge> k. map_of (lc_changes c') i = Some k')) \<and>
     (\<forall>i l. map_of (lc_counter c') i = Some l \<longrightarrow>
        map_of (lc_counter c) i = Some l \<or> (\<exists>k > lc_marker c. map_of (lc_changes c') i = Some k))"

definition locks_ok :: "ClientLockCounter \<Rightarrow> bool" where
  "locks_ok c \<longleftrightarrow> om_ok (lc_counter c) \<and> om_ok (lc_changes c) \<and> (\<forall>i k. map_of (lc_changes c) i = Some k \<longrightarrow> k \<le> lc_marker c)"

lemma marks_refl: "marks c c"
  by (auto simp: marks_def)

lemma marks_keep: "marks c c' \<Longrightarrow> map_of (lc_changes c) i = Some k \<Longrightarrow> \<exists>k' \<ge> k. map_of (lc_changes c') i = Some k'"
  by (simp add: marks_def)

lemma key_map_of: "i \<in> fst ` set m \<longleftrightarrow> (\<exists>k. map_of m i = Some k)"
  using map_of_eq_None_iff [of m i] by (metis not_None_eq)

lemma marks_trans:
  assumes "marks a b" and "marks b c"
  shows "marks a c"
proof -
  have keep: "\<exists>k' \<ge> k. map_of (lc_changes c) i = Some k'" if "map_of (lc_changes b) i = Some k" for i k
    using marks_keep [OF assms(2) that] .
  have "\<exists>k' \<ge> k. map_of (lc_changes c) i = Some k'" if k: "map_of (lc_changes a) i = Some k" for i k
  proof -
    obtain k1 where k1: "k \<le> k1" "map_of (lc_changes b) i = Some k1" using marks_keep [OF assms(1) k] by blast
    show ?thesis using keep [OF k1(2)] k1(1) le_trans by blast
  qed
  moreover have "map_of (lc_counter a) i = Some l \<or> (\<exists>k > lc_marker a. map_of (lc_changes c) i = Some k)"
    if l: "map_of (lc_counter c) i = Some l" for i l
  proof -
    consider "map_of (lc_counter a) i = Some l" | k where "k > lc_marker a" "map_of (lc_changes b) i = Some k"
      | k where "k > lc_marker b" "map_of (lc_changes c) i = Some k"
      using assms l unfolding marks_def by blast
    then show ?thesis
    proof cases
      case 2
      show ?thesis using keep [OF 2(2)] 2(1) less_le_trans by blast
    next
      case 3
      have "lc_marker a \<le> lc_marker b" using assms(1) by (simp add: marks_def)
      then show ?thesis using 3 le_less_trans by blast
    qed simp
  qed
  ultimately show ?thesis using assms unfolding marks_def by auto
qed

lemma push_row_marks:
  assumes "locks_ok c"
  shows "marks c (push_row c p)" and "locks_ok (push_row c p)"
proof -
  obtain i l where p: "p = (i, l)" by force
  show "marks c (push_row c p)"
    using assms by (fastforce simp: marks_def p push_row_def Let_def locks_ok_def)
  show "locks_ok (push_row c p)"
    using assms by (auto simp: locks_ok_def p push_row_def Let_def om_ok_put le_Suc_eq)
qed

lemma drop_rows_marks:
  assumes "locks_ok c"
  shows "marks c (drop_rows pe m rest c) \<and> locks_ok (drop_rows pe m rest c)"
  using assms
proof (induction pe m rest c rule: drop_rows.induct)
  case (2 pe m i l rest c)
  let ?c = "if map_of m i = None then
      c\<lparr> lc_counter := om_erase i (lc_counter c), lc_marker := lc_marker c + 1,
         lc_changes := om_put (case rest of [] \<Rightarrow> pe | (j, _) # _ \<Rightarrow> j) (lc_marker c + 1) (lc_changes c), lc_needTotalSync := True \<rparr>
    else c"
  have ok: "locks_ok ?c" using "2.prems" by (auto simp: locks_ok_def om_ok_put om_ok_erase le_Suc_eq)
  have mk: "marks c ?c"
    using "2.prems" unfolding marks_def locks_ok_def by (auto simp: fun_upd_def intro: le_SucI split: if_splits)
  show ?case unfolding drop_rows.simps using "2.IH" [OF ok] marks_trans [OF mk] by blast
qed (simp add: marks_refl)

lemma lock_push_marks:
  assumes "locks_ok c"
  shows "marks c (lock_push pe m c)" and "locks_ok (lock_push pe m c)"
proof -
  have f: "marks c (foldl push_row c m) \<and> locks_ok (foldl push_row c m)"
    using assms
  proof (induction m arbitrary: c)
    case (Cons p m)
    then show ?case using push_row_marks [OF Cons.prems, of p] Cons.IH [of "push_row c p"] marks_trans by auto
  qed (simp add: marks_refl)
  let ?c = "drop_rows pe m (lc_counter (foldl push_row c m)) (foldl push_row c m)"
  have "marks c ?c" "locks_ok ?c" using drop_rows_marks f marks_trans by blast+
  then show "marks c (lock_push pe m c)" "locks_ok (lock_push pe m c)"
    by (simp_all add: lock_push_def Let_def marks_def locks_ok_def)
qed

section \<open>The invariant\<close>

definition settled :: "lock_table \<Rightarrow> ClientLockCounter \<Rightarrow> int \<Rightarrow> bool" where
  "settled t c i \<longleftrightarrow> (\<forall>l. map_of (lc_counter c) i = Some l \<longrightarrow> t i = Some (lock_flags l))"

text \<open>The account was changed after a marker.\<close>

definition later :: "nat \<Rightarrow> ClientLockCounter \<Rightarrow> int \<Rightarrow> bool" where
  "later m c i \<longleftrightarrow> (\<exists>k > m. map_of (lc_changes c) i = Some k)"

definition awaits :: "ClientLockCounter \<Rightarrow> int \<Rightarrow> bool" where
  "awaits c i \<longleftrightarrow> lc_needTotalSync c \<or> i \<in> fst ` set (lc_changes c)"

fun phase_ok :: "SyncPhase \<Rightarrow> lock_table \<Rightarrow> ClientLockCounter \<Rightarrow> bool" where
  "phase_ok Idle t c \<longleftrightarrow> True"
| "phase_ok (Reading m tot todo rows) t c \<longleftrightarrow> distinct (map fst rows @ todo) \<and> m \<le> lc_marker c \<and> (tot \<longrightarrow> lc_needTotalSync c) \<and>
     (\<not> tot \<longrightarrow> set todo \<subseteq> fst ` set (lc_changes c)) \<and>
     (\<forall>i. later m c i \<or> i \<in> set todo \<or> settled (map_of rows) c i \<or>
        \<not> tot \<and> (lc_needTotalSync c \<or> map_of rows i = None \<and> settled t c i))"
| "phase_ok (Written m tot) t c \<longleftrightarrow> m \<le> lc_marker c \<and> (\<forall>i. later m c i \<or> settled t c i \<or> \<not> tot \<and> lc_needTotalSync c)"
| "phase_ok (Fixing m) t c \<longleftrightarrow> m \<le> lc_marker c \<and> (\<forall>i. later m c i \<or> settled t c i \<or> lc_needTotalSync c)"

definition lock_inv :: "LockSystem \<Rightarrow> bool" where
  "lock_inv s \<longleftrightarrow> locks_ok (sy_locks s) \<and>
     (\<forall>i. awaits (sy_locks s) i \<or> settled (sy_central s) (sy_locks s) i) \<and>
     phase_ok (sy_phase s) (sy_central s) (sy_locks s)"

lemma later_awaits: "later m c i \<Longrightarrow> awaits c i"
  by (force simp: later_def awaits_def dest: map_of_SomeD)

lemma marks_later: "marks c c' \<Longrightarrow> later m c i \<Longrightarrow> later m c' i"
  unfolding marks_def later_def using less_le_trans by blast

lemma marks_settled:
  assumes "marks c c'" and "m \<le> lc_marker c" and "settled t c i"
  shows "settled t c' i \<or> later m c' i"
  using assms unfolding marks_def settled_def later_def by (meson le_less_trans)

lemma marks_awaits:
  assumes "marks c c'" and "awaits c i"
  shows "awaits c' i"
proof (cases "lc_needTotalSync c")
  case True
  then show ?thesis using assms(1) by (simp add: marks_def awaits_def)
next
  case False
  then obtain k where "map_of (lc_changes c) i = Some k" using assms(2) unfolding awaits_def key_map_of by blast
  then show ?thesis using marks_keep [OF assms(1)] unfolding awaits_def key_map_of by blast
qed

lemma phase_ok_push:
  assumes "phase_ok ph t c" and "marks c c'"
  shows "phase_ok ph t c'"
proof -
  have mk: "lc_marker c \<le> lc_marker c'" "lc_needTotalSync c \<Longrightarrow> lc_needTotalSync c'" using assms(2) by (auto simp: marks_def)
  have keys: "fst ` set (lc_changes c) \<subseteq> fst ` set (lc_changes c')"
  proof
    fix i assume "i \<in> fst ` set (lc_changes c)"
    then show "i \<in> fst ` set (lc_changes c')" using marks_keep [OF assms(2)] unfolding key_map_of by blast
  qed
  show ?thesis
  proof (cases ph)
    case (Reading m tot todo rows)
    have m: "m \<le> lc_marker c" using assms(1) Reading by simp
    have "later m c' i \<or> i \<in> set todo \<or> settled (map_of rows) c' i \<or>
        \<not> tot \<and> (lc_needTotalSync c' \<or> map_of rows i = None \<and> settled t c' i)" for i
    proof -
      have "later m c i \<or> i \<in> set todo \<or> settled (map_of rows) c i \<or>
        \<not> tot \<and> (lc_needTotalSync c \<or> map_of rows i = None \<and> settled t c i)" using assms(1) Reading by simp
      then show ?thesis
        using marks_later [OF assms(2), of m i] marks_settled [OF assms(2) m, of "map_of rows" i] marks_settled [OF assms(2) m, of t i] mk(2)
        by blast
    qed
    then show ?thesis using assms(1) Reading mk keys by auto
  next
    case (Written m tot)
    have m: "m \<le> lc_marker c" using assms(1) Written by simp
    then show ?thesis using assms(1) Written mk marks_later [OF assms(2), of m] marks_settled [OF assms(2) m, of t]
      by (metis le_trans phase_ok.simps(3))
  next
    case (Fixing m)
    have m: "m \<le> lc_marker c" using assms(1) Fixing by simp
    then show ?thesis using assms(1) Fixing mk marks_later [OF assms(2), of m] marks_settled [OF assms(2) m, of t]
      by (metis le_trans phase_ok.simps(4))
  qed simp
qed

lemma lock_inv_push:
  assumes "lock_inv s"
  shows "lock_inv (s\<lparr> sy_locks := lock_push pe m (sy_locks s) \<rparr>)"
proof -
  let ?c = "sy_locks s" and ?c' = "lock_push pe m (sy_locks s)"
  have ok: "locks_ok ?c" "\<And>i. awaits ?c i \<or> settled (sy_central s) ?c i" "phase_ok (sy_phase s) (sy_central s) ?c"
    using assms by (auto simp: lock_inv_def)
  note mk = lock_push_marks [OF ok(1), of pe m]
  have "awaits ?c' i \<or> settled (sy_central s) ?c' i" for i
    using ok(2) [of i] marks_awaits [OF mk(1), of i] marks_settled [OF mk(1) order_refl, of "sy_central s" i] later_awaits by blast
  then show ?thesis using mk(2) phase_ok_push [OF ok(3) mk(1)] by (simp add: lock_inv_def)
qed

lemma lock_get_other:
  "i \<noteq> a \<Longrightarrow> map_of (lc_counter (snd (lock_get a c))) i = map_of (lc_counter c) i"
  "map_of (lc_counter (snd (lock_get a c))) a = Some (counter_at c a)" "fst (lock_get a c) = counter_at c a"
  "lc_changes (snd (lock_get a c)) = lc_changes c" "lc_needTotalSync (snd (lock_get a c)) = lc_needTotalSync c"
  "lc_marker (snd (lock_get a c)) = lc_marker c"
  by (simp_all add: lock_get_def)

lemma lock_inv_get:
  assumes "lock_inv s" and ph: "sy_phase s = Reading m tot (a # rest) rows"
  shows "lock_inv (sync_get m tot a rest rows s)"
proof -
  let ?c = "sy_locks s" and ?t = "sy_central s"
  let ?c' = "snd (lock_get a ?c)" and ?rows = "rows @ [(a, lock_flags (counter_at ?c a))]"
  have ok: "locks_ok ?c" "\<And>i. awaits ?c i \<or> settled ?t ?c i" "m \<le> lc_marker ?c" "tot \<longrightarrow> lc_needTotalSync ?c"
      "\<not> tot \<longrightarrow> set (a # rest) \<subseteq> fst ` set (lc_changes ?c)"
      "\<And>i. later m ?c i \<or> i \<in> set (a # rest) \<or> settled (map_of rows) ?c i \<or>
        \<not> tot \<and> (lc_needTotalSync ?c \<or> map_of rows i = None \<and> settled ?t ?c i)"
    using assms by (auto simp: lock_inv_def)
  have d: "distinct (map fst rows @ a # rest)" using assms by (auto simp: lock_inv_def)
  have other: "settled t ?c' i = settled t ?c i" if "i \<noteq> a" for t i using that by (simp add: settled_def lock_get_other)
  have same: "later m ?c' i = later m ?c i" "awaits ?c' i = awaits ?c i" for i by (simp_all add: later_def awaits_def lock_get_other)
  have pa: "awaits ?c a" using ok(4,5) by (auto simp: awaits_def)
  have "locks_ok ?c'" using ok(1) by (simp add: locks_ok_def lock_get_def om_ok_put)
  moreover have "awaits ?c' i \<or> settled ?t ?c' i" for i using ok(2) [of i] pa same other by (cases "i = a") auto
  moreover have "later m ?c' i \<or> i \<in> set rest \<or> settled (map_of ?rows) ?c' i \<or>
      \<not> tot \<and> (lc_needTotalSync ?c' \<or> map_of ?rows i = None \<and> settled ?t ?c' i)" for i
  proof (cases "i = a")
    case True
    have "map_of rows a = None" using d by (auto simp: map_of_eq_None_iff)
    then show ?thesis using True by (simp add: settled_def lock_get_other map_add_def)
  next
    case False
    then have "map_of ?rows i = map_of rows i" by (simp add: map_add_def split: option.splits)
    then show ?thesis using ok(6) [of i] False other [OF False] same by (auto simp: settled_def lock_get_other)
  qed
  ultimately show ?thesis using ok(3-5) ph d
    by (simp add: lock_inv_def sync_get_def lock_get_other prod.case_eq_if)
qed

lemma lock_inv_begin:
  assumes "lock_inv s" and "sy_phase s = Idle"
  shows "lock_inv (sync_begin s)"
proof -
  let ?c = "sy_locks s"
  have ok: "locks_ok ?c" "\<And>i. awaits ?c i \<or> settled (sy_central s) ?c i" using assms by (auto simp: lock_inv_def)
  have d: "distinct (map fst (lc_counter ?c))" "distinct (map fst (lc_changes ?c))"
    using ok(1) by (auto simp: locks_ok_def om_ok_distinct)
  have "i \<in> fst ` set (lc_counter ?c) \<or> settled t ?c i" for i t by (auto simp: settled_def key_map_of)
  then show ?thesis using ok d
    by (auto simp: lock_inv_def sync_begin_def lock_getChanges_def awaits_def)
qed

lemma lock_inv_written:
  assumes "lock_inv s" and ph: "sy_phase s = Reading m tot [] rows" and ins: "replaces_rows ins"
  shows "lock_inv (sync_write ins m tot rows s)"
proof -
  let ?c = "sy_locks s" and ?t = "sy_central s"
  let ?t' = "sy_central (sync_write ins m tot rows s)"
  have ok: "locks_ok ?c" "\<And>i. awaits ?c i \<or> settled ?t ?c i" "m \<le> lc_marker ?c" "tot \<longrightarrow> lc_needTotalSync ?c"
      "\<And>i. later m ?c i \<or> settled (map_of rows) ?c i \<or> \<not> tot \<and> (lc_needTotalSync ?c \<or> map_of rows i = None \<and> settled ?t ?c i)"
    using assms(1) ph by (auto simp: lock_inv_def)
  have new: "?t' i = (case map_of rows i of Some v \<Rightarrow> Some v | None \<Rightarrow> if tot then None else ?t i)" for i
    using ins by (auto simp: sync_write_def replaces_rows_def Let_def split: option.splits)
  have s1: "settled ?t' ?c i" if "settled (map_of rows) ?c i" for i using that by (auto simp: settled_def new)
  have s2: "settled ?t' ?c i" if "\<not> tot" "map_of rows i = None" "settled ?t ?c i" for i using that new [of i] by (simp add: settled_def)
  have w: "later m ?c i \<or> settled ?t' ?c i \<or> \<not> tot \<and> lc_needTotalSync ?c" for i using ok(5) [of i] s1 s2 by blast
  then have "awaits ?c i \<or> settled ?t' ?c i" for i using later_awaits [of m ?c i] by (auto simp: awaits_def)
  then show ?thesis using ok(1,3) w by (simp add: lock_inv_def sync_write_def Let_def)
qed

lemma lock_inv_reset:
  assumes "lock_inv s" and "sy_phase s = Written m tot"
  shows "lock_inv (sync_reset m tot s)"
proof -
  let ?c = "sy_locks s" and ?c' = "sy_locks (sync_reset m tot s)"
  have ok: "locks_ok ?c" "\<And>i. awaits ?c i \<or> settled (sy_central s) ?c i" "m \<le> lc_marker ?c"
      "\<And>i. later m ?c i \<or> settled (sy_central s) ?c i \<or> \<not> tot \<and> lc_needTotalSync ?c"
    using assms by (auto simp: lock_inv_def)
  have c: "lc_counter ?c' = lc_counter ?c" "lc_changes ?c' = lc_changes ?c" "lc_marker ?c' = lc_marker ?c"
    "lc_needTotalSync ?c' = (if tot then False else lc_needTotalSync ?c)" by (simp_all add: sync_reset_def)
  have same: "later m ?c' i = later m ?c i" "settled t ?c' i = settled t ?c i" for t i by (simp_all add: later_def settled_def c)
  have f: "later m ?c' i \<or> settled (sy_central s) ?c' i \<or> lc_needTotalSync ?c'" for i using ok(4) [of i] same c(4) by auto
  then have "awaits ?c' i \<or> settled (sy_central s) ?c' i" for i using later_awaits [of m ?c' i] by (auto simp: awaits_def)
  then have "locks_ok ?c' \<and> (\<forall>i. awaits ?c' i \<or> settled (sy_central s) ?c' i) \<and> phase_ok (Fixing m) (sy_central s) ?c'"
    using ok(1,3) f by (simp add: locks_ok_def c)
  then show ?thesis by (simp add: lock_inv_def sync_reset_def)
qed

lemma lock_inv_fixed:
  assumes "lock_inv s" and "sy_phase s = Fixing m"
  shows "lock_inv (sync_fix m s)"
proof -
  let ?c = "sy_locks s" and ?c' = "fixChanges m (sy_locks s)"
  have ok: "locks_ok ?c" "\<And>i. later m ?c i \<or> settled (sy_central s) ?c i \<or> lc_needTotalSync ?c"
    using assms by (auto simp: lock_inv_def)
  have ch: "map_of (lc_changes ?c') i = (case map_of (lc_changes ?c) i of Some k \<Rightarrow> if \<not> k \<le> m then Some k else None | None \<Rightarrow> None)" for i
    using ok(1) map_of_filter_ok [of "lc_changes ?c" "\<lambda>p. \<not> snd p \<le> m" i]
    by (simp add: fixChanges_def locks_ok_def cong: option.case_cong)
  have "later m ?c' i" if "later m ?c i" for i using that by (auto simp: later_def ch)
  then have "awaits ?c' i \<or> settled (sy_central s) ?c' i" for i
    using ok(2) [of i] later_awaits [of m ?c' i] by (auto simp: awaits_def settled_def fixChanges_def)
  moreover have "locks_ok ?c'"
    using ok(1) ch by (auto simp: locks_ok_def om_ok_filter fixChanges_def map_of_filter_ok split: option.splits if_splits)
  ultimately show ?thesis by (simp add: lock_inv_def sync_fix_def)
qed

lemma lock_inv_idle: "lock_inv s \<Longrightarrow> lock_inv (s\<lparr> sy_phase := Idle \<rparr>)"
  by (simp add: lock_inv_def)

lemma lock_inv_new: "lock_inv (LockSystem_new t)"
  by (simp add: lock_inv_def LockSystem_new_def ClientLockCounter_new_def locks_ok_def om_ok_def awaits_def)

lemma lock_inv_reachable:
  assumes "replaces_rows ins" and "lock_reachable ins s"
  shows "lock_inv s"
  using assms(2)
proof (induction rule: lock_reachable.induct)
  case (step s s')
  from step.hyps(2) step.IH show ?case
    by (cases rule: lock_step.cases)
      (auto intro: lock_inv_push lock_inv_begin lock_inv_get lock_inv_idle lock_inv_written [OF _ _ assms(1)] lock_inv_reset lock_inv_fixed)
qed (rule lock_inv_new)

end
