(* ===== verification/Lock_Properties.thy ===== *)
theory Lock_Properties
  imports Lock_Sync Sample_Data
begin

text \<open>
  The locks of accounts: they are what the limits of the accounts ask for, a lock in force is known to the central
  data base or waits to be sent, whatever the order of the two threads, but the removal of one can be forgotten; and
  the calls of a locked account are cut off.
\<close>

section \<open>A run of the lock thread\<close>

definition rows_named :: "(int \<times> ClientLockObj) list \<Rightarrow> bool" where
  "rows_named m \<longleftrightarrow> om_ok m \<and> (\<forall>i l. map_of m i = Some l \<longrightarrow> lk_client_id l = i \<or> lk_client_id l = 0)"

lemma counter_at_named:
  assumes "rows_named (lc_counter c)" and "lk_client_id (counter_at c i) \<noteq> 0"
  shows "map_of (lc_counter c) i = Some (counter_at c i)" and "lk_client_id (counter_at c i) = i"
proof -
  show r: "map_of (lc_counter c) i = Some (counter_at c i)"
    using assms(2) by (cases "map_of (lc_counter c) i") (simp_all add: counter_at_def ClientLockObj_zero_def)
  show "lk_client_id (counter_at c i) = i" using assms r by (auto simp: rows_named_def)
qed

lemma lock_flags_inject: "lock_flags l = lock_flags l' \<Longrightarrow> lk_client_id l = lk_client_id l' \<Longrightarrow> l = l'"
  by (simp add: lock_flags_def)

lemma push_row_installs:
  assumes "rows_named (lc_counter c)" and "lk_client_id l = i"
  shows "map_of (lc_counter (push_row c (i, l))) = (map_of (lc_counter c))(i \<mapsto> l)" and "rows_named (lc_counter (push_row c (i, l)))"
proof -
  have "map_of (lc_counter c) i = Some l" if "lk_client_id (counter_at c i) \<noteq> 0" "lock_flags (counter_at c i) = lock_flags l"
    using counter_at_named [OF assms(1) that(1)] lock_flags_inject [OF that(2)] assms(2) by simp
  moreover have "l\<lparr> lk_client_id := i \<rparr> = l" using assms(2) by auto
  ultimately show m: "map_of (lc_counter (push_row c (i, l))) = (map_of (lc_counter c))(i \<mapsto> l)"
    by (auto simp: push_row_def Let_def)
  have "om_ok (lc_counter (push_row c (i, l)))"
    using assms(1) by (simp add: push_row_def Let_def rows_named_def om_ok_put)
  then show "rows_named (lc_counter (push_row c (i, l)))" using assms unfolding rows_named_def m by auto
qed

lemma map_add_upd_left_new: "g k = None \<Longrightarrow> f(k \<mapsto> v) ++ g = f ++ g(k \<mapsto> v)"
  by (rule ext) (simp add: map_add_def split: option.split)

lemma push_rows_install:
  assumes "rows_named (lc_counter c)" and "\<forall>(i, l) \<in> set m. lk_client_id l = i" and "distinct (map fst m)"
  shows "map_of (lc_counter (foldl push_row c m)) = map_of (lc_counter c) ++ map_of m \<and> rows_named (lc_counter (foldl push_row c m))"
  using assms
proof (induction m arbitrary: c)
  case (Cons p m)
  obtain i l where p: "p = (i, l)" by force
  have l: "lk_client_id l = i" using Cons.prems(2) p by simp
  note r = push_row_installs [OF Cons.prems(1) l]
  have "map_of m i = None" using Cons.prems(3) p by (simp add: map_of_eq_None_iff)
  then have "map_of (lc_counter (push_row c p)) ++ map_of m = map_of (lc_counter c) ++ map_of (p # m)"
    using map_add_upd_left_new [of "map_of m" i "map_of (lc_counter c)" l] r(1) by (simp add: p fun_upd_def)
  moreover have "map_of (lc_counter (foldl push_row (push_row c p) m)) = map_of (lc_counter (push_row c p)) ++ map_of m \<and>
      rows_named (lc_counter (foldl push_row (push_row c p) m))"
    by (rule Cons.IH) (use Cons.prems r(2) p in auto)
  ultimately show ?case unfolding foldl.simps by (simp only: simp_thms)
qed simp

lemma drop_rows_counter:
  "map_of (lc_counter (drop_rows pe m rest c)) i =
     (if i \<in> fst ` set rest \<and> map_of m i = None then None else map_of (lc_counter c) i)"
  by (induction pe m rest c rule: drop_rows.induct) auto

lemma drop_rows_om_ok: "om_ok (lc_counter c) \<Longrightarrow> om_ok (lc_counter (drop_rows pe m rest c))"
  by (induction pe m rest c rule: drop_rows.induct) (simp_all add: om_ok_erase)

lemma drop_rows_rows_named: "rows_named (lc_counter c) \<Longrightarrow> rows_named (lc_counter (drop_rows pe m rest c))"
  unfolding rows_named_def drop_rows_counter using drop_rows_om_ok by (metis option.distinct(1))

lemma lock_push_installs:
  assumes "rows_named (lc_counter c)" and "proper_locks m"
  shows "map_of (lc_counter (lock_push pe m c)) = map_of m" and "rows_named (lc_counter (lock_push pe m c))"
proof -
  have m: "\<forall>(i, l) \<in> set m. lk_client_id l = i" "distinct (map fst m)" using assms(2) by (auto simp: proper_locks_def om_ok_distinct)
  note f = push_rows_install [OF assms(1) m]
  have "map_of (lc_counter (lock_push pe m c)) i = map_of m i" for i
    using f by (auto simp: lock_push_def Let_def drop_rows_counter key_map_of map_add_def split: option.splits)
  then show "map_of (lc_counter (lock_push pe m c)) = map_of m" by blast
  show "rows_named (lc_counter (lock_push pe m c))" using drop_rows_rows_named f by (simp add: lock_push_def Let_def)
qed

definition put_lock :: "Repo \<Rightarrow> StatsAccountManager \<Rightarrow> GlobalCounters list \<Rightarrow> (int \<times> ClientLockObj) list \<Rightarrow> int \<Rightarrow> (int \<times> ClientLockObj) list" where
  "put_lock r stats g m i = (case account_lock r stats g i of Some l \<Rightarrow> om_put i l m | None \<Rightarrow> m)"

lemma account_lock_client: "account_lock r stats g i = Some l \<Longrightarrow> lk_client_id l = i"
  by (auto simp: account_lock_def Let_def split: prod.splits if_splits)

lemma put_lock_at: "map_of (put_lock r stats g m a) i = (if i = a \<and> account_lock r stats g a \<noteq> None then account_lock r stats g a else map_of m i)"
  by (simp add: put_lock_def split: option.splits)

lemma put_locks_at:
  "map_of (foldl (put_lock r stats g) m as) i =
     (if i \<in> set as \<and> account_lock r stats g i \<noteq> None then account_lock r stats g i else map_of m i)"
  by (induction as arbitrary: m) (auto simp: put_lock_at)

lemma put_locks_om_ok: "om_ok m \<Longrightarrow> om_ok (foldl (put_lock r stats g) m as)"
  by (induction as arbitrary: m) (simp_all add: put_lock_def om_ok_put split: option.split)

lemma wanted_locks_put: "wanted_locks r stats g as = foldl (put_lock r stats g) [] as"
  by (simp add: wanted_locks_def put_lock_def [abs_def])

lemma wanted_locks_at: "map_of (wanted_locks r stats g as) i = (if i \<in> set as then account_lock r stats g i else None)"
  by (simp add: wanted_locks_put put_locks_at)

lemma wanted_locks_proper: "proper_locks (wanted_locks r stats g as)"
proof -
  have ok: "om_ok (wanted_locks r stats g as)" unfolding wanted_locks_put by (rule put_locks_om_ok) (simp add: om_ok_def)
  have "lk_client_id l = i" if "(i, l) \<in> set (wanted_locks r stats g as)" for i l
    using map_of_is_SomeI [OF om_ok_distinct [OF ok] that] account_lock_client by (simp add: wanted_locks_at split: if_splits)
  then show ?thesis using ok by (auto simp: proper_locks_def)
qed

text \<open>After a run of \<open>ThreadClientLock\<close> the locks in force are exactly those its rules ask for: an account is
  locked when it has a service in use and is blocked, disabled or beyond one of its limits, with the flags of the
  reasons, whatever locks there were before.\<close>

theorem locks_follow_limits:
  assumes "rows_named (lc_counter c)"
  shows "map_of (lc_counter (client_lock_run True True (Some g) past_end r stats active c)) i =
    (if i \<in> set (ac_activeClients active) then account_lock r stats g i else None)"
  using lock_push_installs(1) [OF assms wanted_locks_proper, of past_end r stats g "ac_activeClients active"]
  by (simp add: client_lock_run_def wanted_locks_at)

section \<open>The central table\<close>

text \<open>C12: whatever the order in which locks are set, read and sent, and whatever fails: in every reachable state a
  lock in force is in the central table with its flags, or its account waits to be sent, or everything does.\<close>

theorem no_lock_lost:
  assumes "replaces_rows ins" and "lock_reachable ins s" and "map_of (lc_counter (sy_locks s)) i = Some l"
  shows "lc_needTotalSync (sy_locks s) \<or> i \<in> fst ` set (lc_changes (sy_locks s)) \<or> sy_central s i = Some (lock_flags l)"
  using lock_inv_reachable [OF assms(1,2)] assms(3) by (auto simp: lock_inv_def awaits_def settled_def)

text \<open>The run in which a removal is lost. Two accounts are locked; while both are being sent the first one is unlocked;
  the thread then takes back the request for a full synchronisation which that removal had made.\<close>

definition upsert_rows :: "(int \<times> lock_row) list \<Rightarrow> lock_table \<Rightarrow> lock_table" where
  "upsert_rows rows t = t ++ map_of rows"

lemma upsert_replaces_rows: "replaces_rows upsert_rows"
  by (simp add: replaces_rows_def upsert_rows_def map_add_def)

definition blocked_lock :: "int \<Rightarrow> ClientLockObj" where
  "blocked_lock i = ClientLockObj_zero\<lparr> lk_client_id := i, lk_disabled_global := True \<rparr>"

definition sample_locks :: "int list \<Rightarrow> (int \<times> ClientLockObj) list" where
  "sample_locks = map (\<lambda>i. (i, blocked_lock i))"

definition sample_rows :: "int list \<Rightarrow> (int \<times> lock_row) list" where
  "sample_rows = map (\<lambda>i. (i, lock_flags (blocked_lock i)))"

definition lock_sample :: "nat \<Rightarrow> bool \<Rightarrow> int list \<Rightarrow> (int \<times> nat) list \<Rightarrow> int list \<Rightarrow> SyncPhase \<Rightarrow> LockSystem" where
  "lock_sample marker tot locked changes central ph =
     \<lparr> sy_locks = \<lparr> lc_marker = marker, lc_needTotalSync = tot, lc_isReady = True, lc_counter = sample_locks locked,
         lc_changes = changes \<rparr>,
       sy_central = map_of (sample_rows central), sy_phase = ph \<rparr>"

lemmas sample_lock_simps = lock_sample_def sample_locks_def sample_rows_def blocked_lock_def ClientLockObj_zero_def lock_flags_def
  lock_push_def push_row_def counter_at_def om_erase_def Let_def proper_locks_def om_ok_def
  sync_begin_def lock_getChanges_def sync_get_def lock_get_def sync_write_def upsert_rows_def sync_reset_def sync_fix_def fixChanges_def

lemma sample_locked: "lock_reachable upsert_rows (lock_sample 2 True [1, 2] [(1, 1), (2, 2)] [] Idle)"
proof -
  have "lock_step upsert_rows (LockSystem_new (map_of (sample_rows []))) (lock_sample 2 True [1, 2] [(1, 1), (2, 2)] [] Idle)"
    using lock_step.push [of "sample_locks [1, 2]" upsert_rows "LockSystem_new (map_of (sample_rows []))" 0]
    by (simp add: sample_lock_simps LockSystem_new_def ClientLockCounter_new_def numeral_2_eq_2)
  then show ?thesis by (rule lock_reachable.step [OF lock_reachable.start])
qed

lemma sample_reading:
  "lock_reachable upsert_rows (lock_sample 2 True [1, 2] [(1, 1), (2, 2)] [] (Reading 2 True [] (sample_rows [1, 2])))"
proof -
  let ?s = "\<lambda>todo rows. lock_sample 2 True [1, 2] [(1, 1), (2, 2)] [] (Reading 2 True todo (sample_rows rows))"
  have "lock_step upsert_rows (lock_sample 2 True [1, 2] [(1, 1), (2, 2)] [] Idle) (?s [1, 2] [])"
    using lock_step.begin_sync [of "lock_sample 2 True [1, 2] [(1, 1), (2, 2)] [] Idle" upsert_rows] by (simp add: sample_lock_simps)
  moreover have "lock_step upsert_rows (?s [1, 2] []) (?s [2] [1])"
    using lock_step.get [of "?s [1, 2] []" 2 True 1 "[2]" "sample_rows []" upsert_rows] by (simp add: sample_lock_simps)
  moreover have "lock_step upsert_rows (?s [2] [1]) (?s [] [1, 2])"
    using lock_step.get [of "?s [2] [1]" 2 True 2 "[]" "sample_rows [1]" upsert_rows] by (simp add: sample_lock_simps)
  ultimately show ?thesis using sample_locked lock_reachable.step by blast
qed

lemma sample_unlocked: "lock_reachable upsert_rows (lock_sample 3 False [2] [(2, 3)] [1, 2] Idle)"
proof -
  let ?s = "\<lambda>tot changes central. lock_sample 3 tot [2] changes central"
  have "lock_step upsert_rows (lock_sample 2 True [1, 2] [(1, 1), (2, 2)] [] (Reading 2 True [] (sample_rows [1, 2])))
      (?s True [(1, 1), (2, 3)] [] (Reading 2 True [] (sample_rows [1, 2])))"
    using lock_step.push [of "sample_locks [2]" upsert_rows
        "lock_sample 2 True [1, 2] [(1, 1), (2, 2)] [] (Reading 2 True [] (sample_rows [1, 2]))" 0]
    by (simp add: sample_lock_simps)
  moreover have "lock_step upsert_rows (?s True [(1, 1), (2, 3)] [] (Reading 2 True [] (sample_rows [1, 2])))
      (?s True [(1, 1), (2, 3)] [1, 2] (Written 2 True))"
    using lock_step.written [of "?s True [(1, 1), (2, 3)] [] (Reading 2 True [] (sample_rows [1, 2]))" 2 True "sample_rows [1, 2]" upsert_rows]
    by (simp add: sample_lock_simps)
  moreover have "lock_step upsert_rows (?s True [(1, 1), (2, 3)] [1, 2] (Written 2 True)) (?s False [(1, 1), (2, 3)] [1, 2] (Fixing 2))"
    using lock_step.reset [of "?s True [(1, 1), (2, 3)] [1, 2] (Written 2 True)" 2 True upsert_rows] by (simp add: sample_lock_simps)
  moreover have "lock_step upsert_rows (?s False [(1, 1), (2, 3)] [1, 2] (Fixing 2)) (?s False [(2, 3)] [1, 2] Idle)"
    using lock_step.fixed [of "?s False [(1, 1), (2, 3)] [1, 2] (Fixing 2)" 2 upsert_rows] by (simp add: sample_lock_simps)
  ultimately show ?thesis using sample_reading lock_reachable.step by blast
qed

lemma sample_forgotten: "lock_reachable upsert_rows (lock_sample 3 False [2] [] [1, 2] Idle)"
proof -
  let ?s = "\<lambda>changes. lock_sample 3 False [2] changes [1, 2]"
  have central: "upsert_rows (sample_rows [2]) (map_of (sample_rows [1, 2])) = map_of (sample_rows [1, 2])"
    by (rule ext) (simp add: upsert_rows_def map_add_def sample_rows_def)
  have "lock_step upsert_rows (?s [(2, 3)] Idle) (?s [(2, 3)] (Reading 3 False [2] []))"
    using lock_step.begin_sync [of "?s [(2, 3)] Idle" upsert_rows] by (simp add: sample_lock_simps)
  moreover have "lock_step upsert_rows (?s [(2, 3)] (Reading 3 False [2] [])) (?s [(2, 3)] (Reading 3 False [] (sample_rows [2])))"
    using lock_step.get [of "?s [(2, 3)] (Reading 3 False [2] [])" 3 False 2 "[]" "[]" upsert_rows] by (simp add: sample_lock_simps)
  moreover have "lock_step upsert_rows (?s [(2, 3)] (Reading 3 False [] (sample_rows [2]))) (?s [(2, 3)] (Written 3 False))"
    using lock_step.written [of "?s [(2, 3)] (Reading 3 False [] (sample_rows [2]))" 3 False "sample_rows [2]" upsert_rows] central
    by (simp add: lock_sample_def sync_write_def Let_def) (simp add: sample_rows_def)
  moreover have "lock_step upsert_rows (?s [(2, 3)] (Written 3 False)) (?s [(2, 3)] (Fixing 3))"
    using lock_step.reset [of "?s [(2, 3)] (Written 3 False)" 3 False upsert_rows] by (simp add: sample_lock_simps)
  moreover have "lock_step upsert_rows (?s [(2, 3)] (Fixing 3)) (?s [] Idle)"
    using lock_step.fixed [of "?s [(2, 3)] (Fixing 3)" 3 upsert_rows] by (simp add: sample_lock_simps)
  ultimately show ?thesis using sample_unlocked lock_reachable.step by blast
qed

text \<open>C40: with a central table that replaces rows the removal of a lock can be lost for good: there is a reachable
  state in which nothing waits to be sent and no full synchronisation is asked for, an account is not locked any
  more, and the central table still says that it is.\<close>

theorem unlock_lost:
  "replaces_rows upsert_rows \<and> (\<exists>s. lock_reachable upsert_rows s \<and> sy_phase s = Idle \<and> lc_changes (sy_locks s) = [] \<and>
     lc_needTotalSync (sy_locks s) = False \<and> map_of (lc_counter (sy_locks s)) 1 = None \<and>
     sy_central s 1 = Some (lock_flags (blocked_lock 1)))"
proof (intro conjI exI)
  show "lock_reachable upsert_rows (lock_sample 3 False [2] [] [1, 2] Idle)" by (rule sample_forgotten)
qed (simp_all add: upsert_replaces_rows lock_sample_def sample_locks_def sample_rows_def)

section \<open>Calls in progress\<close>

lemma getAccount_id:
  assumes "sorted (map cl_id (rp_client r))" and "getAccount r i = Some client"
  shows "cl_id client = i"
  using assms by (auto simp: getAccount_def clients.find_sorted find_Some_iff)

lemma consumed_more:
  "isConsumedCreditLimit cl x \<Longrightarrow> y \<le> x \<Longrightarrow> isConsumedCreditLimit cl y"
  "isConsumedDailyLimit cl x \<Longrightarrow> y \<le> x \<Longrightarrow> isConsumedDailyLimit cl y"
  "isConsumedDailyMNLimit cl x \<Longrightarrow> y \<le> x \<Longrightarrow> isConsumedDailyMNLimit cl y"
  by (auto simp: isConsumedCreditLimit_def isConsumedDailyLimit_def isConsumedDailyMNLimit_def)

text \<open>C22: An outgoing call in progress that leaves the local zone and is billed to a number (not to a trunk
  service), is not a call to a service number and does not go to an emergency number, is cut off by the limit control
  in each of these cases: the lock thread sets the local or the global lock on the account, or it finds the
  account beyond its limit of international calls and the call is international. The condition is that the calls in progress
  do not bring the account money: their sums of the balance, of the day and of the day's international calls are not
  positive. (An account beyond its international limit only keeps its domestic calls.)\<close>

theorem locked_calls_killed:
  assumes "sorted (map cl_id (rp_client r))"
    and "account_lock r stats g (c_account_id call) = Some l"
    and "lk_disabled_local l \<or> lk_disabled_global l \<or> lk_is_mn_overran l \<and> isInternational call"
    and "isEmergencyCall r (lld (c_dst_number call)) (c_server_id call) = Val False"
    and "c_is_service_number call = False" and "c_account_id call \<noteq> 0" and "c_orig call" and "isLocal call = False"
    and "c_number_service_id call \<noteq> 0" and "c_trunk_service_id call = 0"
    and "getSumBalance current (c_account_id call) (getVatRate (getAccount r (c_account_id call))) \<le> 0"
    and "getSumDay (rp_now r) current (c_account_id call) (getVatRate (getAccount r (c_account_id call))) \<le> 0"
    and "getSumMNDay (rp_now r) current (c_account_id call) (getVatRate (getAccount r (c_account_id call))) \<le> 0"
  shows "\<exists>reason. limitControlKillNeeded True r stats current (Some g) call = Val (Some reason)"
proof -
  obtain client where client: "getAccount r (c_account_id call) = Some client"
    using assms(2) by (cases "getAccount r (c_account_id call)") (auto simp: account_lock_def needLockLocal_def needLockGlobal_def)
  note cid = getAccount_id [OF assms(1) client]
  obtain b d mn where sums: "lock_sums r stats g client = (b, d, mn)" by (cases "lock_sums r stats g client")
  define v where "v = getVatRate (Some client)"
  have "b + getSumBalance current (c_account_id call) v \<le> b" "d + getSumDay (rp_now r) current (c_account_id call) v \<le> d"
    "mn + getSumMNDay (rp_now r) current (c_account_id call) v \<le> mn" using assms(11-13) by (simp_all add: client v_def)
  note more = consumed_more(1) [OF _ this(1)] consumed_more(2) [OF _ this(2)] consumed_more(3) [OF _ this(3)]
  have l: "cl_is_blocked client \<or> cl_disabled client \<or> isConsumedCreditLimit client b \<and> lock_finance_on r \<or>
      isConsumedDailyLimit client d \<or> isConsumedDailyMNLimit client mn \<and> isInternational call"
    using assms(2,3) by (auto simp: account_lock_def needLockLocal_def needLockGlobal_def client sums Let_def split: if_splits)
  have bdm: "b = getSumBalance stats (c_account_id call) v + (case GlobalCountersList_find g (c_account_id call) of Some c \<Rightarrow> GlobalCounters_sumBalance c v | None \<Rightarrow> 0)"
    "d = getSumDay (rp_now r) stats (c_account_id call) v + (case GlobalCountersList_find g (c_account_id call) of Some c \<Rightarrow> GlobalCounters_sumDay c v | None \<Rightarrow> 0)"
    "mn = getSumMNDay (rp_now r) stats (c_account_id call) v + (case GlobalCountersList_find g (c_account_id call) of Some c \<Rightarrow> GlobalCounters_sumMNDay c v | None \<Rightarrow> 0)"
    using sums by (simp_all add: lock_sums_def Let_def cid v_def cong: option.case_cong)
  show ?thesis
    using l more assms(4-10) unfolding bdm
    by (auto simp: limitControlKillNeeded_def client Let_def v_def [symmetric] ac_simps)
qed

section \<open>Witnesses\<close>

definition limits_repo :: Repo where
  "limits_repo = empty_repo\<lparr> rp_client := [sample_account\<lparr> cl_is_blocked := True \<rparr>] \<rparr>"

definition running_call :: Call where
  "running_call = sample_call\<lparr> c_account_id := 10, c_destination_id := 1 \<rparr>"

definition one_active :: ActiveCounter where
  "one_active = ActiveCounter_new\<lparr> ac_activeClients := [10] \<rparr>"

lemma limits_repo_account: "getAccount limits_repo 10 = Some (sample_account\<lparr> cl_is_blocked := True \<rparr>)"
  by (simp add: getAccount_def limits_repo_def clients.find_sorted sample_account_def)

lemma limits_repo_lock:
  "\<exists>l. account_lock limits_repo am_new [] 10 = Some l \<and> lk_disabled_global l"
  by (simp add: account_lock_def needLockLocal_def needLockGlobal_def limits_repo_account Let_def prod.case_eq_if)

theorem locks_follow_limits_witness:
  "rows_named (lc_counter ClientLockCounter_new) \<and>
   map_of (lc_counter (client_lock_run True True (Some []) 0 limits_repo am_new one_active ClientLockCounter_new)) 10 =
     account_lock limits_repo am_new [] 10 \<and>
   account_lock limits_repo am_new [] 10 \<noteq> None"
proof -
  have n: "rows_named (lc_counter ClientLockCounter_new)" by (simp add: rows_named_def ClientLockCounter_new_def om_ok_def)
  show ?thesis using n locks_follow_limits [OF n, of "[]" 0 limits_repo am_new one_active 10] limits_repo_lock by (auto simp: one_active_def)
qed

theorem no_lock_lost_witness:
  "\<exists>s. lock_reachable upsert_rows s \<and> map_of (lc_counter (sy_locks s)) 2 = Some (blocked_lock 2) \<and>
     sy_central s 2 = Some (lock_flags (blocked_lock 2))"
proof -
  have l: "map_of (lc_counter (sy_locks (lock_sample 3 False [2] [] [1, 2] Idle))) 2 = Some (blocked_lock 2)"
    by (simp add: lock_sample_def sample_locks_def)
  show ?thesis
    using no_lock_lost [OF upsert_replaces_rows sample_forgotten l] sample_forgotten l by (auto simp: lock_sample_def)
qed

theorem locked_calls_killed_witness:
  "\<exists>reason. limitControlKillNeeded True limits_repo am_new am_new (Some []) running_call = Val (Some reason)"
proof -
  have c: "c_account_id running_call = 10" "c_is_service_number running_call = False" "c_orig running_call"
    "isLocal running_call = False" "c_number_service_id running_call \<noteq> 0" "c_trunk_service_id running_call = 0"
    by (simp_all add: running_call_def sample_call_def Call_new_def isLocal_def)
  have e: "isEmergencyCall limits_repo (lld (c_dst_number running_call)) (c_server_id running_call) = Val False"
    by (simp add: isEmergencyCall_def getServer_def limits_repo_def empty_repo_def servers.find_sorted)
  have o: "sorted (map cl_id (rp_client limits_repo))" by (simp add: limits_repo_def)
  obtain l where l: "account_lock limits_repo am_new [] (c_account_id running_call) = Some l" "lk_disabled_global l"
    using limits_repo_lock c(1) by auto
  have z: "getSumBalance am_new a v \<le> 0" "getSumDay n am_new a v \<le> 0" "getSumMNDay n am_new a v \<le> 0" for n a v
    by (simp_all add: getSumBalance_def getSumDay_def getSumMNDay_def am_new_def)
  show ?thesis
    by (rule locked_calls_killed [OF o l(1) _ e c(2) _ c(3-6)]) (use l(2) c(1) z in auto)
qed

end
