(* ===== verification/Black_List_Properties.thy ===== *)
theory Black_List_Properties
  imports Black_Lists Lock_Properties
begin

text \<open>
  The black lists follow the locks of the accounts: what a \<open>push\<close> sends and remembers whatever the switch answers, what
  is barred after the lock thread and the black list thread have run, that a list sent by the switch is read back,
  and which records of calls in progress are deleted.
\<close>

section \<open>The exchanges of a push\<close>

fun lock_msg :: "BlackListKind \<Rightarrow> string \<Rightarrow> string" where
  "lock_msg BlackListLocal p = ''LOCK_LOCAL '' @ p"
| "lock_msg BlackListGlobal p = ''LOCK_GLOBAL '' @ p"
| "lock_msg BlackListTrunk p = ''LOCK_TRUNK '' @ p"
| "lock_msg BlackListAntiFraudDisable p = ''ADD_ANTI_FRAUD_DISABLE '' @ p"

fun unlock_msg :: "BlackListKind \<Rightarrow> string \<Rightarrow> string" where
  "unlock_msg BlackListLocal p = ''UNLOCK_LOCAL '' @ p"
| "unlock_msg BlackListGlobal p = ''UNLOCK_GLOBAL '' @ p"
| "unlock_msg BlackListTrunk p = ''UNLOCK_TRUNK '' @ p"
| "unlock_msg BlackListAntiFraudDisable p = ''DEL_ANTI_FRAUD_DISABLE '' @ p"

lemma lock_msg_inject [simp]: "lock_msg k p = lock_msg k q \<longleftrightarrow> p = q"
  by (cases k) simp_all

lemma unlock_msg_inject [simp]: "unlock_msg k p = unlock_msg k q \<longleftrightarrow> p = q"
  by (cases k) simp_all

lemma lock_unlock_msg [simp]: "lock_msg k p \<noteq> unlock_msg k q" "unlock_msg k q \<noteq> lock_msg k p"
  by (cases k; simp)+

lemma udp_lock_command: "udp_lock k udp p h = command udp (lock_msg k p) h"
  by (cases k) (simp_all add: lock_local_def lock_global_def lock_trunk_def add_anti_fraud_disable_def)

lemma udp_unlock_command: "udp_unlock k udp p h = command udp (unlock_msg k p) h"
  by (cases k) (simp_all add: unlock_local_def unlock_global_def unlock_trunk_def del_anti_fraud_disable_def)

lemma command_eq: "command udp m h = (udp h m = Some ''1'', h @ [(m, udp h m)])"
  by (simp add: command_def sendrecv_def)

text \<open>What the exchanges \<open>news\<close> say was done.\<close>

definition confirmed :: "(string \<Rightarrow> string) \<Rightarrow> udp_log \<Rightarrow> string set" where
  "confirmed msg news = {p. (msg p, Some ''1'') \<in> set news}"

lemma lock_phones_exchange:
  "\<exists>news. snd (lock_phones udp k ps b h) = h @ news \<and> map fst news = map (lock_msg k) ps \<and>
     set (bl_blacklist (fst (lock_phones udp k ps b h))) = set (bl_blacklist b) \<union> confirmed (lock_msg k) news"
proof (induction udp k ps b h rule: lock_phones.induct)
  case (2 udp k p ps b h)
  let ?a = "udp h (lock_msg k p)"
  let ?b = "if ?a = Some ''1'' then b\<lparr> bl_blacklist := insort_insert p (bl_blacklist b) \<rparr> else b"
  obtain news where n: "snd (lock_phones udp k ps ?b (h @ [(lock_msg k p, ?a)])) = h @ [(lock_msg k p, ?a)] @ news"
    "map fst news = map (lock_msg k) ps"
    "set (bl_blacklist (fst (lock_phones udp k ps ?b (h @ [(lock_msg k p, ?a)])))) = set (bl_blacklist ?b) \<union> confirmed (lock_msg k) news"
    using 2 [of "?a = Some ''1''" "h @ [(lock_msg k p, ?a)]"] by (auto simp: udp_lock_command command_eq)
  have s: "set (bl_blacklist ?b) \<union> confirmed (lock_msg k) news = set (bl_blacklist b) \<union> confirmed (lock_msg k) ((lock_msg k p, ?a) # news)"
    by (auto simp: confirmed_def set_insort_insert)
  show ?case using n s
    by (intro exI [of _ "(lock_msg k p, ?a) # news"]) (simp add: udp_lock_command command_eq)
qed (simp add: confirmed_def)

lemma unlock_phones_exchange:
  "\<exists>news. snd (unlock_phones udp k ps b h) = h @ news \<and> map fst news = map (unlock_msg k) ps \<and>
     set (bl_blacklist (fst (unlock_phones udp k ps b h))) = set (bl_blacklist b) - confirmed (unlock_msg k) news"
proof (induction udp k ps b h rule: unlock_phones.induct)
  case (2 udp k p ps b h)
  let ?a = "udp h (unlock_msg k p)"
  let ?b = "if ?a = Some ''1'' then b\<lparr> bl_blacklist := filter (\<lambda>q. q \<noteq> p) (bl_blacklist b) \<rparr> else b"
  obtain news where n: "snd (unlock_phones udp k ps ?b (h @ [(unlock_msg k p, ?a)])) = h @ [(unlock_msg k p, ?a)] @ news"
    "map fst news = map (unlock_msg k) ps"
    "set (bl_blacklist (fst (unlock_phones udp k ps ?b (h @ [(unlock_msg k p, ?a)])))) = set (bl_blacklist ?b) - confirmed (unlock_msg k) news"
    using 2 [of "?a = Some ''1''" "h @ [(unlock_msg k p, ?a)]"] by (auto simp: udp_unlock_command command_eq)
  have s: "set (bl_blacklist ?b) - confirmed (unlock_msg k) news = set (bl_blacklist b) - confirmed (unlock_msg k) ((unlock_msg k p, ?a) # news)"
    by (auto simp: confirmed_def)
  show ?case using n s
    by (intro exI [of _ "(unlock_msg k p, ?a) # news"]) (simp add: udp_unlock_command command_eq)
qed (simp add: confirmed_def)

lemma confirmed_sent: "p \<in> confirmed msg news \<Longrightarrow> msg p \<in> set (map fst news)"
  by (force simp: confirmed_def)

lemma confirmed_of_kind:
  "map fst news = map (lock_msg k) ps \<Longrightarrow> confirmed (unlock_msg k) news = {}"
  "map fst news = map (unlock_msg k) ps \<Longrightarrow> confirmed (lock_msg k) news = {}"
  using confirmed_sent [of _ "unlock_msg k" news] confirmed_sent [of _ "lock_msg k" news] by fastforce+

lemma confirmed_append: "confirmed m (a @ b) = confirmed m a \<union> confirmed m b"
  by (auto simp: confirmed_def)

text \<open>Whatever the switch answers, a \<open>push\<close> sends one message to bar for every entry wanted and not known to be
  barred, then one to free for every entry known to be barred and not wanted, and afterwards takes for barred
  exactly what was before, with the additions the switch confirmed and without the removals it confirmed.\<close>

theorem push_exchanges:
  "\<exists>news. snd (bl_push True udp k wanted b h) = h @ news \<and>
     map fst news = map (lock_msg k) (filter (\<lambda>p. p \<notin> set (bl_blacklist b)) wanted) @
       map (unlock_msg k) (filter (\<lambda>p. p \<notin> set wanted) (bl_blacklist b)) \<and>
     set (bl_blacklist (fst (bl_push True udp k wanted b h))) =
       (set (bl_blacklist b) \<union> confirmed (lock_msg k) news) - confirmed (unlock_msg k) news"
proof -
  define add where "add = filter (\<lambda>p. p \<notin> set (bl_blacklist b)) wanted"
  define del where "del = filter (\<lambda>p. p \<notin> set wanted) (bl_blacklist b)"
  define b1 where "b1 = b\<lparr> bl_list_to_del := del, bl_list_to_add := add \<rparr>"
  obtain b2 h2 where l: "lock_phones udp k add b1 h = (b2, h2)" by force
  obtain n1 where n1: "h2 = h @ n1" "map fst n1 = map (lock_msg k) add"
    "set (bl_blacklist b2) = set (bl_blacklist b) \<union> confirmed (lock_msg k) n1"
    using lock_phones_exchange [of udp k add b1 h] l by (auto simp: b1_def)
  obtain n2 where n2: "snd (unlock_phones udp k del b2 h2) = h2 @ n2" "map fst n2 = map (unlock_msg k) del"
    "set (bl_blacklist (fst (unlock_phones udp k del b2 h2))) = set (bl_blacklist b2) - confirmed (unlock_msg k) n2"
    using unlock_phones_exchange [of udp k del b2 h2] by auto
  have p: "bl_push True udp k wanted b h = unlock_phones udp k del b2 h2"
    using l by (simp add: bl_push_def Let_def b1_def add_def del_def)
  have c: "confirmed (unlock_msg k) n1 = {}" "confirmed (lock_msg k) n2 = {}"
    using confirmed_of_kind(1) [OF n1(2)] confirmed_of_kind(2) [OF n2(2)] by simp_all
  show ?thesis
    unfolding p add_def [symmetric] del_def [symmetric]
    by (rule exI [of _ "n1 @ n2"]) (simp add: n1 n2 [unfolded n1(1)] confirmed_append c)
qed

lemma push_obeyed:
  assumes "\<And>h m. udp h m = Some ''1''"
  shows "set (bl_blacklist (fst (bl_push True udp k wanted b h))) = set wanted"
proof -
  have l: "set (bl_blacklist (fst (lock_phones udp k ps b h))) = set (bl_blacklist b) \<union> set ps" for ps b h
    by (induction ps arbitrary: b h) (auto simp: udp_lock_command command_eq assms set_insort_insert)
  have u: "set (bl_blacklist (fst (unlock_phones udp k ps b h))) = set (bl_blacklist b) - set ps" for ps b h
    by (induction ps arbitrary: b h) (auto simp: udp_unlock_command command_eq assms)
  show ?thesis by (auto simp: bl_push_def Let_def prod.case_eq_if l u)
qed

section \<open>What is barred\<close>

definition account_numbers :: "ActiveCounter \<Rightarrow> int \<Rightarrow> ServiceNumber set" where
  "account_numbers active i = snd ` set (entries_at (ac_clientNumbers active) i)"

definition account_trunks :: "Repo \<Rightarrow> ActiveCounter \<Rightarrow> int \<Rightarrow> Trunk set" where
  "account_trunks r active i = {t. \<exists>st \<in> snd ` set (entries_at (ac_clientTrunks active) i). getTrunk r (st_trunk_id st) = Some t}"

lemma want_number_lists:
  "set (wl_local (want_number l w n)) = set (wl_local w) \<union> (if lk_disabled_local l \<and> \<not> is7800 n then {sn_did n} else {})"
  "set (wl_global (want_number l w n)) = set (wl_global w) \<union>
     (if lk_disabled_global l \<or> lk_disabled_local l \<and> is7800 n then {asBlacklistNumber n} else {})"
  "wl_trunk (want_number l w n) = wl_trunk w" "wl_anti_fraud_disable (want_number l w n) = wl_anti_fraud_disable w"
  by (auto simp: want_number_def Let_def set_insort_insert)

lemma want_trunk_lists:
  "set (wl_trunk (want_finance_trunk r w st)) = set (wl_trunk w) \<union>
     {tr_trunk_name t | t. getTrunk r (st_trunk_id st) = Some t \<and> \<not> tr_auth_by_number t}"
  "set (wl_trunk (want_blocked_trunk r w st)) = set (wl_trunk w) \<union> {tr_trunk_name t | t. getTrunk r (st_trunk_id st) = Some t}"
  "wl_local (want_finance_trunk r w st) = wl_local w" "wl_global (want_finance_trunk r w st) = wl_global w"
  "wl_anti_fraud_disable (want_finance_trunk r w st) = wl_anti_fraud_disable w"
  "wl_local (want_blocked_trunk r w st) = wl_local w" "wl_global (want_blocked_trunk r w st) = wl_global w"
  "wl_anti_fraud_disable (want_blocked_trunk r w st) = wl_anti_fraud_disable w"
  by (auto simp: want_finance_trunk_def want_blocked_trunk_def set_insort_insert split: option.splits)

lemma foldl_keeps: "(\<And>w x. f (g w x) = f w) \<Longrightarrow> f (foldl g w xs) = f w"
  by (induction xs arbitrary: w) simp_all

lemmas want_folds =
  set_foldl_union [of wl_local "want_number _", OF want_number_lists(1)]
  set_foldl_union [of wl_global "want_number _", OF want_number_lists(2)]
  foldl_keeps [of wl_trunk "want_number _", OF want_number_lists(3)]
  foldl_keeps [of wl_anti_fraud_disable "want_number _", OF want_number_lists(4)]
  set_foldl_union [of wl_trunk "want_finance_trunk _", OF want_trunk_lists(1)]
  set_foldl_union [of wl_trunk "want_blocked_trunk _", OF want_trunk_lists(2)]
  foldl_keeps [of wl_local "want_finance_trunk _", OF want_trunk_lists(3)]
  foldl_keeps [of wl_global "want_finance_trunk _", OF want_trunk_lists(4)]
  foldl_keeps [of wl_anti_fraud_disable "want_finance_trunk _", OF want_trunk_lists(5)]
  foldl_keeps [of wl_local "want_blocked_trunk _", OF want_trunk_lists(6)]
  foldl_keeps [of wl_global "want_blocked_trunk _", OF want_trunk_lists(7)]
  foldl_keeps [of wl_anti_fraud_disable "want_blocked_trunk _", OF want_trunk_lists(8)]

definition lock_local_numbers :: "ActiveCounter \<Rightarrow> ClientLockObj \<Rightarrow> string set" where
  "lock_local_numbers active l =
     {sn_did n | n. n \<in> account_numbers active (lk_client_id l) \<and> lk_disabled_local l \<and> \<not> is7800 n}"

definition lock_global_numbers :: "ActiveCounter \<Rightarrow> ClientLockObj \<Rightarrow> string set" where
  "lock_global_numbers active l =
     {asBlacklistNumber n | n. n \<in> account_numbers active (lk_client_id l) \<and> (lk_disabled_global l \<or> lk_disabled_local l \<and> is7800 n)}"

definition lock_trunk_names :: "Repo \<Rightarrow> ActiveCounter \<Rightarrow> ClientLockObj \<Rightarrow> string set" where
  "lock_trunk_names r active l =
     {tr_trunk_name t | t. t \<in> account_trunks r active (lk_client_id l) \<and> (lk_disabled_global l \<or> lk_is_finance_block l \<and> \<not> tr_auth_by_number t)}"

lemma want_lock_lists:
  "set (wl_local (want_lock r active w l)) = set (wl_local w) \<union> lock_local_numbers active l"
  "set (wl_global (want_lock r active w l)) = set (wl_global w) \<union> lock_global_numbers active l"
  "set (wl_trunk (want_lock r active w l)) = set (wl_trunk w) \<union> lock_trunk_names r active l"
  by (auto simp: want_lock_def Let_def want_folds lock_local_numbers_def lock_global_numbers_def lock_trunk_names_def account_numbers_def
      account_trunks_def split: if_splits)

lemma want_account_keeps:
  "wl_local (want_account r active w i) = wl_local w" "wl_global (want_account r active w i) = wl_global w"
  "wl_trunk (want_account r active w i) = wl_trunk w"
  by (auto simp: want_account_def split: option.splits intro!: foldl_keeps)

lemma wanted_lists_sets:
  "set (wl_local (wanted_lists r active c)) = (\<Union>l \<in> set (getLocks c). lock_local_numbers active l)"
  "set (wl_global (wanted_lists r active c)) = (\<Union>l \<in> set (getLocks c). lock_global_numbers active l)"
  "set (wl_trunk (wanted_lists r active c)) = (\<Union>l \<in> set (getLocks c). lock_trunk_names r active l)"
  by (simp_all add: wanted_lists_def foldl_keeps [of _ "want_account r active"] want_account_keeps
      set_foldl_union [of _ "want_lock r active"] want_lock_lists WantedLists_new_def)

lemma getLocks_after_run:
  assumes "rows_named (lc_counter c)"
  shows "set (getLocks (client_lock_run True True (Some g) pe r stats active c)) =
    {l. \<exists>i \<in> set (ac_activeClients active). account_lock r stats g i = Some l}"
proof -
  let ?c = "lock_push pe (wanted_locks r stats g (ac_activeClients active)) c"
  have "om_ok (lc_counter ?c)" using lock_push_installs(2) [OF assms wanted_locks_proper] by (simp add: rows_named_def)
  then have "set (getLocks ?c) = ran (map_of (lc_counter ?c))" by (simp add: getLocks_def ran_distinct om_ok_distinct)
  then show ?thesis
    using lock_push_installs(1) [OF assms wanted_locks_proper, of pe r stats g "ac_activeClients active"]
    by (auto simp: client_lock_run_def wanted_locks_at ran_def split: if_splits)
qed

lemma calc_run_obeyed:
  assumes "\<And>h m. udp h m = Some ''1''" and "lc_isReady c"
  shows "set (bl_blacklist (bk_local (fst (blacklist_calc_run True True True udp r active c bs h)))) = set (wl_local (wanted_lists r active c))"
    "set (bl_blacklist (bk_global (fst (blacklist_calc_run True True True udp r active c bs h)))) = set (wl_global (wanted_lists r active c))"
    "set (bl_blacklist (bk_trunk (fst (blacklist_calc_run True True True udp r active c bs h)))) = set (wl_trunk (wanted_lists r active c))"
  using assms(2) by (simp_all add: blacklist_calc_run_def Let_def prod.case_eq_if push_obeyed [OF assms(1)])

text \<open>C11: after a run of the lock thread and a run of the black list thread, with a switch that confirms every message:
  local calls only are open to exactly the numbers of the accounts locked locally, except that numbers of the 7800
  range are barred altogether; barred altogether are exactly those and the numbers of blocked accounts; and of the
  trunks exactly those of blocked accounts and, unless their calls are told apart by number, those of accounts
  without credit. What the lists held before does not matter.\<close>

theorem blacklists_follow_limits:
  assumes "rows_named (lc_counter c)" and "\<And>h m. udp h m = Some ''1''"
    and "c' = client_lock_run True True (Some g) past_end r stats active c"
    and "bs' = fst (blacklist_calc_run True True True udp r active c' bs h)"
  shows "set (bl_blacklist (bk_local bs')) =
      {sn_did n | i l n. i \<in> set (ac_activeClients active) \<and> account_lock r stats g i = Some l \<and> n \<in> account_numbers active i \<and>
         lk_disabled_local l \<and> \<not> is7800 n} \<and>
    set (bl_blacklist (bk_global bs')) =
      {asBlacklistNumber n | i l n. i \<in> set (ac_activeClients active) \<and> account_lock r stats g i = Some l \<and> n \<in> account_numbers active i \<and>
         (lk_disabled_global l \<or> lk_disabled_local l \<and> is7800 n)} \<and>
    set (bl_blacklist (bk_trunk bs')) =
      {tr_trunk_name t | i l t. i \<in> set (ac_activeClients active) \<and> account_lock r stats g i = Some l \<and> t \<in> account_trunks r active i \<and>
         (lk_disabled_global l \<or> lk_is_finance_block l \<and> \<not> tr_auth_by_number t)}"
proof -
  have ready: "lc_isReady c'" by (simp add: assms(3) client_lock_run_def lock_push_def Let_def)
  have runs: "set (bl_blacklist (bk_local bs')) = set (wl_local (wanted_lists r active c'))"
    "set (bl_blacklist (bk_global bs')) = set (wl_global (wanted_lists r active c'))"
    "set (bl_blacklist (bk_trunk bs')) = set (wl_trunk (wanted_lists r active c'))"
    unfolding assms(4) by (rule calc_run_obeyed [OF assms(2) ready])+
  note locks = getLocks_after_run [OF assms(1), of g past_end r stats active, folded assms(3)]
  have "set (bl_blacklist (bk_local bs')) =
      {sn_did n | i l n. i \<in> set (ac_activeClients active) \<and> account_lock r stats g i = Some l \<and> n \<in> account_numbers active i \<and>
         lk_disabled_local l \<and> \<not> is7800 n}"
    unfolding runs(1) wanted_lists_sets locks lock_local_numbers_def using account_lock_client by fastforce
  moreover have "set (bl_blacklist (bk_global bs')) =
      {asBlacklistNumber n | i l n. i \<in> set (ac_activeClients active) \<and> account_lock r stats g i = Some l \<and> n \<in> account_numbers active i \<and>
         (lk_disabled_global l \<or> lk_disabled_local l \<and> is7800 n)}"
    unfolding runs(2) wanted_lists_sets locks lock_global_numbers_def using account_lock_client by fastforce
  moreover have "set (bl_blacklist (bk_trunk bs')) =
      {tr_trunk_name t | i l t. i \<in> set (ac_activeClients active) \<and> account_lock r stats g i = Some l \<and> t \<in> account_trunks r active i \<and>
         (lk_disabled_global l \<or> lk_is_finance_block l \<and> \<not> tr_auth_by_number t)}"
    unfolding runs(3) wanted_lists_sets locks lock_trunk_names_def using account_lock_client by fastforce
  ultimately show ?thesis by blast
qed

section \<open>Reading the lists of the switch\<close>

fun comma_list :: "string list \<Rightarrow> string" where
  "comma_list [] = []"
| "comma_list [f] = f"
| "comma_list (f # fs) = f @ '','' @ comma_list fs"

lemma comma_list_hd: "\<forall>f \<in> set fs. f \<noteq> [] \<and> CHR '','' \<notin> set f \<Longrightarrow> fs \<noteq> [] \<Longrightarrow> comma_list fs \<noteq> [] \<and> hd (comma_list fs) \<noteq> CHR '',''"
  by (induction fs rule: comma_list.induct) (auto simp: hd_append neq_Nil_conv)

lemma split_comma_list: "\<forall>f \<in> set fs. f \<noteq> [] \<and> CHR '','' \<notin> set f \<Longrightarrow> fs \<noteq> [] \<Longrightarrow> split_compress (comma_list fs) = fs"
proof (induction fs rule: comma_list.induct)
  case (3 f g fs)
  have "comma_list (g # fs) \<noteq> [] \<and> hd (comma_list (g # fs)) \<noteq> CHR '',''" using "3.prems"(1) by (intro comma_list_hd) auto
  then show ?case using 3 split_compress_fields [of f "comma_list (g # fs)"] by simp
qed (auto simp: split_compress_field)

fun read_msg :: "BlackListKind \<Rightarrow> string" where
  "read_msg BlackListLocal = ''READ_BLACKLIST_LOCAL''"
| "read_msg BlackListGlobal = ''READ_BLACKLIST_GLOBAL''"
| "read_msg BlackListTrunk = ''READ_LOCKED_TRUNK''"
| "read_msg BlackListAntiFraudDisable = ''READ_BLACKLIST_ANTI_FRAUD_DISABLE''"

lemma udp_blacklist_read: "udp_blacklist k udp l h = read_list udp (read_msg k) l h"
  by (cases k) (simp_all add: blacklist_local_def blacklist_global_def blacklist_trunk_def blacklist_anti_fraud_disable_def)

text \<open>A list that the switch sends as its entries between commas is read back as the set of the entries, the empty
  list included; only a list of the one entry \<^verbatim>\<open>0\<close> is taken for a failure. So the next \<open>push\<close> works on the set the
  switch has.\<close>

theorem blacklist_fetch_roundtrip:
  assumes "udp h (read_msg k) = Some (comma_list ps)" and "\<forall>p \<in> set ps. p \<noteq> [] \<and> CHR '','' \<notin> set p" and "ps \<noteq> [''0'']"
  shows "set (bl_blacklist (fst (bl_fetch udp k b h))) = set ps"
proof (cases "ps = []")
  case True
  then show ?thesis using assms(1) by (simp add: bl_fetch_def udp_blacklist_read read_list_def sendrecv_def)
next
  case False
  note c = split_comma_list [OF assms(2) False] comma_list_hd [OF assms(2) False]
  have "comma_list ps \<noteq> ''0''" using c(1) assms(3) split_compress_field [of "''0''"] by auto
  then show ?thesis using assms(1) c by (simp add: bl_fetch_def udp_blacklist_read read_list_def sendrecv_def set_foldl_insort)
qed

section \<open>Calls the switch has forgotten\<close>

lemma distinct_foldl_insort: "distinct l \<Longrightarrow> distinct (foldl (\<lambda>l x. if P x then insort_insert (f x) l else l) l xs)"
  by (induction xs arbitrary: l) (auto simp: distinct_insort_insert)

lemma spawn_waiting_set:
  "set (spawnWaitingForFinishCalls os cdrs) = cdr_call_id ` set cdrs - set os"
  "distinct (spawnWaitingForFinishCalls os cdrs)"
proof -
  have "set (foldl (\<lambda>l c. if cdr_call_id c \<notin> set os then insort_insert (cdr_call_id c) l else l) l cdrs) =
      set l \<union> (cdr_call_id ` set cdrs - set os)" for l
    by (induction cdrs arbitrary: l) (auto simp: set_insort_insert)
  then show "set (spawnWaitingForFinishCalls os cdrs) = cdr_call_id ` set cdrs - set os" by (simp add: spawnWaitingForFinishCalls_def)
  show "distinct (spawnWaitingForFinishCalls os cdrs)"
    unfolding spawnWaitingForFinishCalls_def by (rule distinct_foldl_insort) simp
qed

text \<open>When the switch answers, the records deleted are, once each, exactly those of the calls that were in progress
  before and after the pause and that the switch does not know.\<close>

theorem forgotten_calls_deleted:
  assumes "udp h ''SELECT'' = Some res"
  shows "\<exists>ids. check_start_run True True udp cdrs newCdrs h = (Val ids, h @ [(''SELECT'', Some res)]) \<and> distinct ids \<and>
    set ids = (cdr_call_id ` set cdrs \<inter> cdr_call_id ` set newCdrs) - (if res = [] then {} else atoll ` set (split_compress res))"
proof -
  define os where "os = foldl (\<lambda>l s. insort_insert (atoll s) l) [] (if res = [] then [] else split_compress res)"
  have os: "set os = (if res = [] then {} else atoll ` set (split_compress res))" by (simp add: os_def set_foldl_insort)
  let ?w = "spawnWaitingForFinishCalls os cdrs"
  have f: "fetchOpencaCurrentCalls udp h = (Val os, h @ [(''SELECT'', Some res)])"
    using assms by (simp add: fetchOpencaCurrentCalls_def select_calls_def sendrecv_def os_def)
  have w: "(if ?w \<noteq> [] then forceFinishCalls ?w newCdrs else []) = filter (\<lambda>i. i \<in> cdr_call_id ` set newCdrs) ?w"
    by (simp add: forceFinishCalls_def Let_def set_foldl_insort)
  have "check_start_run True True udp cdrs newCdrs h = (Val (filter (\<lambda>i. i \<in> cdr_call_id ` set newCdrs) ?w), h @ [(''SELECT'', Some res)])"
    by (simp add: check_start_run_def f w Let_def del: forceFinishCalls_def)
  moreover have "set (filter (\<lambda>i. i \<in> cdr_call_id ` set newCdrs) ?w) = (cdr_call_id ` set cdrs \<inter> cdr_call_id ` set newCdrs) - set os"
    by (auto simp: spawn_waiting_set)
  ultimately show ?thesis using spawn_waiting_set(2) [of os cdrs] unfolding os [symmetric]
    by (intro exI [of _ "filter (\<lambda>i. i \<in> cdr_call_id ` set newCdrs) ?w"]) simp
qed

section \<open>Witnesses\<close>

definition obeying_switch :: udp where
  "obeying_switch h m = Some ''1''"

definition sample_number :: ServiceNumber where
  "sample_number = \<lparr> sn_id = 5, sn_server_id = 1, sn_client_account_id = 10, sn_did = ''74951111111'', sn_lines_count = 1,
     sn_activation_dt = 0, sn_expire_dt = 2000, sn_tech_number = [], sn_tech_number_operator_id = 0, sn_is_local = True \<rparr>"

definition one_number :: ActiveCounter where
  "one_number = ActiveCounter_load 1000 [sample_number] [] ActiveCounter_new"

definition no_lists :: BlackLists where
  "no_lists = \<lparr> bk_local = BlackList_new, bk_global = BlackList_new, bk_trunk = BlackList_new, bk_anti_fraud_disable = BlackList_new \<rparr>"

lemma one_number_account: "set (ac_activeClients one_number) = {10}" "account_numbers one_number 10 = {sample_number}"
  by (simp_all add: one_number_def ActiveCounter_load_def add_active_number_def active_number_def sample_number_def ActiveCounter_new_def
      account_numbers_def entries_at_def om_insert_def insort_insert_key_def)

theorem blacklists_follow_limits_witness:
  "''74951111111'' \<in> set (bl_blacklist (bk_global (fst (blacklist_calc_run True True True obeying_switch limits_repo one_number
     (client_lock_run True True (Some []) 0 limits_repo am_new one_number ClientLockCounter_new) no_lists []))))"
proof -
  have n: "rows_named (lc_counter ClientLockCounter_new)" by (simp add: rows_named_def ClientLockCounter_new_def om_ok_def)
  obtain l where l: "account_lock limits_repo am_new [] 10 = Some l" "lk_disabled_global l" using limits_repo_lock by blast
  have s: "''74951111111'' = asBlacklistNumber sample_number" by (simp add: asBlacklistNumber_def sample_number_def)
  have i: "10 \<in> set (ac_activeClients one_number)" "sample_number \<in> account_numbers one_number 10" using one_number_account by simp_all
  note r = blacklists_follow_limits [of ClientLockCounter_new obeying_switch, OF n obeying_switch_def refl refl, THEN conjunct2, THEN conjunct1]
  show ?thesis unfolding r mem_Collect_eq using l s i by blast
qed

theorem blacklist_fetch_roundtrip_witness:
  "set (bl_blacklist (fst (bl_fetch (\<lambda>h m. Some ''74951111111,0'') BlackListLocal BlackList_new []))) = {''74951111111'', ''0''}"
  using blacklist_fetch_roundtrip [of "\<lambda>h m. Some ''74951111111,0''" "[]" BlackListLocal "[''74951111111'', ''0'']" BlackList_new]
  by simp

theorem forgotten_calls_deleted_witness:
  "\<exists>ids. fst (check_start_run True True (\<lambda>h m. Some []) [sample_cdr] [sample_cdr] []) = Val ids \<and> set ids = {900}"
  using forgotten_calls_deleted [of "\<lambda>h m. Some []" "[]" "[]" "[sample_cdr]" "[sample_cdr]"] by (auto simp: sample_cdr_def Cdr_new_def)

end
