(* ===== verification/Central_Sync.thy ===== *)
theory Central_Sync
  imports Voip_Prelude "HOL-Library.While_Combinator" "HOL-Library.Signed_Division"
begin

text \<open>
  \<^verbatim>\<open>threads/ThreadSyncCalls.cpp\<close> and \<^verbatim>\<open>threads/ThreadSyncCdrs.cpp\<close>: calls, call records and unfinished calls are copied to
  the central data base, month by month and in parts, always from the greatest identifier the central table has.
  A table is the list of its months, each with its rows; a row has its identifier, the server it belongs to, the month
  of its time as the data base prints it, and the other columns. \<open>copy_ok\<close> says whether a copy succeeds; one that fails
  changes nothing, since \<open>COPY\<close> is a statement of its own. The arithmetic of the data base on months is the parameters
  \<open>prev_month\<close> and \<open>next_month\<close>. A query for the months, or for the creation of a table, that fails is left out, and so are
  what is only displayed and the copies over \<open>dblink\<close>, which nothing calls.
\<close>

record SyncRow =
  sr_id :: int
  sr_server_id :: "int option"
  sr_month :: string
  sr_data :: string

type_synonym month_tables = "(string \<times> SyncRow list) list"

record SyncConf =
  sc_instance_id :: int
  sc_regions :: "int list"

record CopySystem =
  cs_local :: month_tables
  cs_central :: month_tables

definition month_rows :: "month_tables \<Rightarrow> string \<Rightarrow> SyncRow list" where
  "month_rows t suffix = (case map_of t suffix of Some rows \<Rightarrow> rows | None \<Rightarrow> [])"

text \<open>The table without a month, from which the months inherit.\<close>

definition all_rows :: "month_tables \<Rightarrow> SyncRow list" where
  "all_rows t = concat (map snd t)"

definition rel_exists :: "month_tables \<Rightarrow> string \<Rightarrow> bool" where
  "rel_exists t suffix \<longleftrightarrow> suffix \<in> fst ` set t"

definition create_partition :: "string \<Rightarrow> month_tables \<Rightarrow> month_tables" where
  "create_partition suffix t = (if rel_exists t suffix then t else t @ [(suffix, [])])"

definition insert_rows :: "string \<Rightarrow> SyncRow list \<Rightarrow> month_tables \<Rightarrow> month_tables" where
  "insert_rows suffix rows t = map (\<lambda>(m, xs). if m = suffix then (m, xs @ rows) else (m, xs)) t"

definition month_suffix :: "string \<Rightarrow> string" where
  "month_suffix month = take 4 month @ take 2 (drop 5 month)"

text \<open>\<open>order by id desc limit 1\<close>, and \<open>where id > i order by id limit n\<close>.\<close>

definition greatest_id :: "SyncRow list \<Rightarrow> int option" where
  "greatest_id rows = (if rows = [] then None else Some (Max (set (map sr_id rows))))"

definition rows_after :: "int \<Rightarrow> nat \<Rightarrow> SyncRow list \<Rightarrow> SyncRow list" where
  "rows_after i limit rows = take limit (sort_key sr_id (filter (\<lambda>r. i < sr_id r) rows))"

definition id_or_zero :: "int option \<Rightarrow> int" where
  "id_or_zero i = (case i of Some k \<Rightarrow> k | None \<Rightarrow> 0)"

definition first_after :: "int \<Rightarrow> SyncRow list \<Rightarrow> SyncRow option" where
  "first_after i rows = (case rows_after i 1 rows of [] \<Rightarrow> None | r # _ \<Rightarrow> Some r)"

section \<open>Calls\<close>

definition of_region :: "SyncConf \<Rightarrow> SyncRow \<Rightarrow> bool" where
  "of_region conf r = (case sr_server_id r of Some i \<Rightarrow> i \<in> set (sc_regions conf) | None \<Rightarrow> False)"

definition safe_server_id :: "SyncConf \<Rightarrow> SyncRow \<Rightarrow> SyncRow" where
  "safe_server_id conf r = r\<lparr> sr_server_id := Some (case sr_server_id r of Some i \<Rightarrow> i | None \<Rightarrow> sc_instance_id conf) \<rparr>"

definition getLocalId :: "month_tables \<Rightarrow> string \<Rightarrow> int option" where
  "getLocalId t suffix = greatest_id (month_rows t suffix)"

definition getCentralId :: "SyncConf \<Rightarrow> month_tables \<Rightarrow> string \<Rightarrow> int" where
  "getCentralId conf t suffix = id_or_zero (greatest_id (filter (of_region conf) (month_rows t suffix)))"

definition copyCallsPart :: "SyncConf \<Rightarrow> bool \<Rightarrow> string \<Rightarrow> nat \<Rightarrow> CopySystem \<Rightarrow> bool \<times> CopySystem" where
  "copyCallsPart conf copy_ok month limit s =
     (let suffix = month_suffix month;
          s1 = s\<lparr> cs_central := create_partition suffix (cs_central s) \<rparr>;
          s2 = s1\<lparr> cs_local := create_partition suffix (cs_local s1) \<rparr>
      in (case getLocalId (cs_local s2) suffix of
            None \<Rightarrow> (False, s2)
          | Some local_id \<Rightarrow>
              let central_id = getCentralId conf (cs_central s2) suffix in
              if local_id \<le> central_id then (False, s2)
              else if \<not> copy_ok then (False, s2)
              else (True, s2\<lparr> cs_central := insert_rows suffix
                     (map (safe_server_id conf) (rows_after central_id limit (month_rows (cs_local s2) suffix))) (cs_central s2) \<rparr>)))"

section \<open>Call records and unfinished calls\<close>

definition of_instance :: "SyncConf \<Rightarrow> SyncRow \<Rightarrow> bool" where
  "of_instance conf r \<longleftrightarrow> sr_server_id r = Some (sc_instance_id conf)"

definition with_instance :: "SyncConf \<Rightarrow> SyncRow \<Rightarrow> SyncRow" where
  "with_instance conf r = r\<lparr> sr_server_id := Some (sc_instance_id conf) \<rparr>"

definition copyCallsCdr :: "SyncConf \<Rightarrow> bool \<Rightarrow> string \<Rightarrow> nat \<Rightarrow> CopySystem \<Rightarrow> bool \<times> CopySystem" where
  "copyCallsCdr conf copy_ok month limit s =
     (let suffix = month_suffix month;
          s1 = s\<lparr> cs_central := create_partition suffix (cs_central s) \<rparr>;
          central_id = id_or_zero (greatest_id (filter (of_instance conf) (month_rows (cs_central s1) suffix)));
          s2 = s1\<lparr> cs_local := create_partition suffix (cs_local s1) \<rparr>
      in (case greatest_id (month_rows (cs_local s2) suffix) of
            None \<Rightarrow> (False, s2)
          | Some local_id \<Rightarrow>
              if local_id \<le> central_id then (False, s2)
              else if \<not> copy_ok then (False, s2)
              else (True, s2\<lparr> cs_central := insert_rows suffix
                     (map (with_instance conf) (rows_after central_id limit (month_rows (cs_local s2) suffix))) (cs_central s2) \<rparr>)))"

definition copyCallsCdrUnfinished :: "SyncConf \<Rightarrow> bool \<Rightarrow> string \<Rightarrow> nat \<Rightarrow> CopySystem \<Rightarrow> bool \<times> CopySystem" where
  "copyCallsCdrUnfinished conf copy_ok month limit s =
     (let suffix = month_suffix month in
      if \<not> rel_exists (cs_local s) suffix then (False, s)
      else
        let s1 = s\<lparr> cs_central := create_partition suffix (cs_central s) \<rparr>;
            central_id = id_or_zero (greatest_id (filter (of_instance conf) (month_rows (cs_central s1) suffix)));
            local_id = id_or_zero (greatest_id (month_rows (cs_local s1) suffix))
        in if local_id \<le> central_id then (False, s1)
           else if \<not> copy_ok then (False, s1)
           else (True, s1\<lparr> cs_central := insert_rows suffix
                  (map (with_instance conf) (rows_after central_id limit (month_rows (cs_local s1) suffix))) (cs_central s1) \<rparr>))"

section \<open>The threads\<close>

text \<open>\<open>loadSyncCentralCallIdAndTime\<close> and its likes: the greatest identifier of the regions in the whole central table.\<close>

definition loadSyncCentralId :: "SyncConf \<Rightarrow> month_tables \<Rightarrow> int" where
  "loadSyncCentralId conf t = id_or_zero (greatest_id (filter (of_region conf) (all_rows t)))"

text \<open>\<open>while (copyCallsPart(...)) { }\<close>; \<open>None\<close> is a loop that does not end.\<close>

definition copy_while :: "('s \<Rightarrow> bool \<times> 's) \<Rightarrow> 's \<Rightarrow> 's option" where
  "copy_while part s = map_option snd (while_option fst (\<lambda>p. part (snd p)) (part s))"

text \<open>\<open>getCurrentMonths\<close>: the month of the first row beyond the last identifier, over all months.\<close>

definition getCurrentMonths :: "int \<Rightarrow> month_tables \<Rightarrow> string option" where
  "getCurrentMonths last_id t = map_option sr_month (first_after last_id (all_rows t))"

definition sync_calls_run :: "SyncConf \<Rightarrow> (string \<Rightarrow> string) \<Rightarrow> (string \<Rightarrow> string) \<Rightarrow> (CopySystem \<Rightarrow> bool) \<Rightarrow> CopySystem \<Rightarrow>
    CopySystem option" where
  "sync_calls_run conf prev_month next_month copy_ok s =
     (case getCurrentMonths (loadSyncCentralId conf (cs_central s)) (cs_local s) of
        None \<Rightarrow> Some s
      | Some month \<Rightarrow>
          Option.bind (copy_while (\<lambda>s. copyCallsPart conf (copy_ok s) (prev_month month) 100000 s) s) (\<lambda>s1.
            Option.bind (copy_while (\<lambda>s. copyCallsPart conf (copy_ok s) month 100000 s) s1) (\<lambda>s2.
              copy_while (\<lambda>s. copyCallsPart conf (copy_ok s) (next_month month) 100000 s) s2)))"

text \<open>The aggregation is asked for at the first run and then once in \<open>1200 / threadSleepSeconds + 1\<close> runs. \<open>None\<close> is the
  division by zero.\<close>

definition do_calls_aggr_update :: "int \<Rightarrow> int \<Rightarrow> (bool \<times> int) option" where
  "do_calls_aggr_update threadSleepSeconds remain_count_to_update_aggr =
     (if remain_count_to_update_aggr \<le> 0 then
        (if threadSleepSeconds = 0 then None else Some (True, (60 * 60) sdiv (threadSleepSeconds * 3)))
      else Some (False, remain_count_to_update_aggr - 1))"

definition syncCallsCdr :: "SyncConf \<Rightarrow> (string \<Rightarrow> string) \<Rightarrow> (CopySystem \<Rightarrow> bool) \<Rightarrow> int \<Rightarrow> CopySystem \<Rightarrow> bool \<times> CopySystem" where
  "syncCallsCdr conf next_month copy_ok lastSyncCentralCdrId s =
     (case getCurrentMonths lastSyncCentralCdrId (cs_local s) of
        None \<Rightarrow> (False, s)
      | Some month \<Rightarrow> (case copyCallsCdr conf (copy_ok s) month 100000 s of (copied, s1) \<Rightarrow>
          if copied then (True, s1) else copyCallsCdr conf (copy_ok s1) (next_month month) 100000 s1))"

definition syncCallsCdrUnfinished :: "SyncConf \<Rightarrow> string \<Rightarrow> (CopySystem \<Rightarrow> bool) \<Rightarrow> int \<Rightarrow> CopySystem \<Rightarrow> bool \<times> CopySystem" where
  "syncCallsCdrUnfinished conf this_month copy_ok lastSyncCentralCdrUnfinishedId s =
     (let month = (case getCurrentMonths lastSyncCentralCdrUnfinishedId (cs_local s) of None \<Rightarrow> this_month | Some m \<Rightarrow> m)
      in copyCallsCdrUnfinished conf (copy_ok s) month 100000 s)"

text \<open>\<open>ThreadSyncCdrs::run\<close> on the tables of call records and of unfinished calls.\<close>

definition sync_cdrs_run :: "SyncConf \<Rightarrow> (string \<Rightarrow> string) \<Rightarrow> string \<Rightarrow> (CopySystem \<Rightarrow> bool) \<Rightarrow> CopySystem \<times> CopySystem \<Rightarrow>
    (CopySystem \<times> CopySystem) option" where
  "sync_cdrs_run conf next_month this_month copy_ok s =
     (case s of (cdr, unfinished) \<Rightarrow>
        (let last_cdr = loadSyncCentralId conf (cs_central cdr); last_unfinished = loadSyncCentralId conf (cs_central unfinished) in
         Option.bind (copy_while (syncCallsCdr conf next_month copy_ok last_cdr) cdr) (\<lambda>cdr'.
           Option.bind (copy_while (syncCallsCdrUnfinished conf this_month copy_ok last_unfinished) unfinished) (\<lambda>unfinished'.
             Some (cdr', unfinished')))))"

section \<open>Copying while rows arrive\<close>

text \<open>The three tables and their copies; rows of this instance, how a copied row is marked, and the local rows whose copies
  the central table takes for rows of this instance.\<close>

datatype SyncTable = SyncCalls | SyncCdrs | SyncUnfinished

definition sync_own :: "SyncTable \<Rightarrow> SyncConf \<Rightarrow> SyncRow \<Rightarrow> bool" where
  "sync_own table = (case table of SyncCalls \<Rightarrow> of_region | SyncCdrs \<Rightarrow> of_instance | SyncUnfinished \<Rightarrow> of_instance)"

definition sync_mark :: "SyncTable \<Rightarrow> SyncConf \<Rightarrow> SyncRow \<Rightarrow> SyncRow" where
  "sync_mark table = (case table of SyncCalls \<Rightarrow> safe_server_id | SyncCdrs \<Rightarrow> with_instance | SyncUnfinished \<Rightarrow> with_instance)"

definition sync_part :: "SyncTable \<Rightarrow> SyncConf \<Rightarrow> bool \<Rightarrow> string \<Rightarrow> nat \<Rightarrow> CopySystem \<Rightarrow> bool \<times> CopySystem" where
  "sync_part table = (case table of SyncCalls \<Rightarrow> copyCallsPart | SyncCdrs \<Rightarrow> copyCallsCdr | SyncUnfinished \<Rightarrow> copyCallsCdrUnfinished)"

text \<open>New rows get identifiers beyond those of their month and go into the table of their month; what other instances
  insert into the central table is not taken for rows of this one.\<close>

inductive copy_step :: "SyncTable \<Rightarrow> SyncConf \<Rightarrow> CopySystem \<Rightarrow> CopySystem \<Rightarrow> bool" for table conf where
  copy: "0 < limit \<Longrightarrow> copy_step table conf s (snd (sync_part table conf copy_ok month limit s))"
| new_month: "copy_step table conf s (s\<lparr> cs_local := create_partition m (cs_local s) \<rparr>)"
| arrive: "rel_exists (cs_local s) m \<Longrightarrow> distinct (map sr_id new) \<Longrightarrow>
    list_all (\<lambda>r. 0 < sr_id r \<and> month_suffix (sr_month r) = m \<and> sync_own table conf (sync_mark table conf r)) new \<Longrightarrow>
    list_all (\<lambda>x. list_all (\<lambda>r. sr_id x < sr_id r) new) (month_rows (cs_local s) m) \<Longrightarrow>
    copy_step table conf s (s\<lparr> cs_local := insert_rows m new (cs_local s) \<rparr>)"
| others: "rel_exists (cs_central s) m \<Longrightarrow> list_all (\<lambda>r. \<not> sync_own table conf r) new \<Longrightarrow>
    copy_step table conf s (s\<lparr> cs_central := insert_rows m new (cs_central s) \<rparr>)"

text \<open>Before anything is stored here or copied.\<close>

definition sync_start :: "SyncTable \<Rightarrow> SyncConf \<Rightarrow> CopySystem \<Rightarrow> bool" where
  "sync_start table conf s \<longleftrightarrow> cs_local s = [] \<and> filter (sync_own table conf) (all_rows (cs_central s)) = []"

end
