(* ===== verification/Sync_Properties.thy ===== *)
theory Sync_Properties
  imports Central_Sync
begin

text \<open>What reaches the central data base: the contract the three copies share, its consequences for a table that is
  copied while rows arrive, and the three instances.\<close>

section \<open>Lists and months\<close>

lemma sorted_ids_take:
  assumes "sorted (map f xs)" and "distinct (map f xs)" and "xs \<noteq> []" and "0 < n"
  shows "filter (\<lambda>x. (f x :: int) \<le> f (last (take n xs))) xs = take n xs"
proof -
  have ne: "take n xs \<noteq> []" using assms(3,4) by simp
  have "sorted (map f (take n xs @ drop n xs))" using assms(1) by simp
  then have le: "f x \<le> f y" if "x \<in> set (take n xs)" "y \<in> set (drop n xs)" for x y
    using that unfolding map_append sorted_append by force
  have "distinct (map f (take n xs @ drop n xs))" using assms(2) by simp
  then have neq: "f x \<noteq> f y" if "x \<in> set (take n xs)" "y \<in> set (drop n xs)" for x y
    using that unfolding map_append distinct_append by force
  have "\<not> f y \<le> f (last (take n xs))" if "y \<in> set (drop n xs)" for y
    using le [OF last_in_set [OF ne] that] neq [OF last_in_set [OF ne] that] by simp
  moreover have "f x \<le> f (last (take n xs))" if "x \<in> set (take n xs)" for x
  proof -
    have "sorted (map f (take n xs))" using assms(1) by (metis sorted_wrt_take take_map)
    then have "sorted (map f (butlast (take n xs) @ [last (take n xs)]))" using ne by simp
    then have "\<forall>x \<in> set (butlast (take n xs)). f x \<le> f (last (take n xs))" by (simp add: sorted_append)
    moreover have "set (take n xs) = insert (last (take n xs)) (set (butlast (take n xs)))"
      using append_butlast_last_id [OF ne] by (metis Un_insert_right list.simps(15) set_append sup_bot_right empty_set)
    ultimately show ?thesis using that by auto
  qed
  ultimately have "filter (\<lambda>x. f x \<le> f (last (take n xs))) (take n xs @ drop n xs) = take n xs"
    unfolding filter_append by (simp add: filter_empty_conv filter_id_conv)
  then show ?thesis by simp
qed

lemma length_filter_strict:
  assumes "\<And>x. P x \<Longrightarrow> Q x" and "y \<in> set xs" and "Q y" and "\<not> P y"
  shows "length (filter P xs) < length (filter Q xs)"
proof -
  have "filter P xs = filter P (filter Q xs)" using assms(1) by (simp add: filter_filter) (metis (mono_tags, lifting) filter_cong)
  moreover have "length (filter P (filter Q xs)) < length (filter Q xs)"
    using assms(2-4) by (intro length_filter_less [of y]) auto
  ultimately show ?thesis by simp
qed

lemma filter_mset_split:
  "(i :: int) < j \<Longrightarrow> filter_mset (\<lambda>r. f r \<le> j) M = filter_mset (\<lambda>r. f r \<le> i) M + filter_mset (\<lambda>r. f r \<le> j \<and> \<not> f r \<le> i) M"
  by (induction M) auto

lemma greatest_id_upper: "r \<in> set rows \<Longrightarrow> sr_id r \<le> id_or_zero (greatest_id rows)"
  by (auto simp: greatest_id_def id_or_zero_def intro!: Max_ge)

lemma greatest_id_eq:
  assumes "x \<in> set rows" and "\<And>r. r \<in> set rows \<Longrightarrow> sr_id r \<le> sr_id x"
  shows "greatest_id rows = Some (sr_id x)"
  using assms by (auto simp: greatest_id_def intro!: Max_eqI)

lemma greatest_id_in: "greatest_id rows = Some i \<Longrightarrow> \<exists>r \<in> set rows. sr_id r = i"
  unfolding greatest_id_def by (metis (no_types, lifting) List.finite_set Max_in imageE list.set_map map_is_Nil_conv option.distinct(1) option.inject set_empty)

lemma rows_of_create [simp]: "month_rows (create_partition m t) = month_rows t"
  by (rule ext) (auto simp: month_rows_def create_partition_def rel_exists_def map_add_def split: option.splits
      dest: map_of_eq_None_iff [THEN iffD2] intro: map_of_eq_None_iff [THEN iffD1])

lemma rel_exists_create [simp]: "rel_exists (create_partition m t) x \<longleftrightarrow> x = m \<or> rel_exists t x"
  by (auto simp: create_partition_def rel_exists_def)

lemma map_of_insert_rows:
  "map_of (insert_rows m rows t) x = (if x = m then map_option (\<lambda>xs. xs @ rows) (map_of t x) else map_of t x)"
  by (induction t) (auto simp: insert_rows_def)

lemma rows_of_insert:
  "rel_exists t m \<Longrightarrow> month_rows (insert_rows m rows t) = (month_rows t)(m := month_rows t m @ rows)"
  by (rule ext) (auto simp: month_rows_def map_of_insert_rows rel_exists_def split: option.splits
      dest: map_of_eq_None_iff [THEN iffD1])

text \<open>A loop whose body decreases a measure whenever it asks to go on.\<close>

lemma copy_while_measure:
  fixes f :: "'s \<Rightarrow> nat"
  assumes keep: "\<And>s. I s \<Longrightarrow> I (snd (part s))" and less: "\<And>s. I s \<Longrightarrow> fst (part s) \<Longrightarrow> f (snd (part s)) < f s"
    and same: "\<And>s. I s \<Longrightarrow> \<not> fst (part s) \<Longrightarrow> f (snd (part s)) \<le> f s" and start: "I s"
  obtains u where "I u" and "\<not> fst (part u)" and "copy_while part s = Some (snd (part u))"
proof -
  define P where "P p \<longleftrightarrow> (\<exists>u. I u \<and> p = part u)" for p
  define g where "g p = 2 * f (snd p) + (if fst p then 1 else 0)" for p
  have P0: "P (part s)" using start by (auto simp: P_def)
  have step: "P (part (snd p)) \<and> g (part (snd p)) < g p" if "P p" and b: "fst p" for p
  proof -
    have i: "I (snd p)" using \<open>P p\<close> keep by (auto simp: P_def)
    have "g (part (snd p)) < g p" using b less [OF i] same [OF i] by (cases "fst (part (snd p))") (auto simp: g_def)
    then show ?thesis using i by (auto simp: P_def)
  qed
  obtain p where p: "while_option fst (\<lambda>p. part (snd p)) (part s) = Some p"
    using measure_while_option_Some [of P fst "\<lambda>p. part (snd p)" g, OF step P0] by blast
  have "P p" by (rule while_option_rule [where P = P, OF _ p P0]) (use step in blast)
  then obtain u where "I u" "p = part u" by (auto simp: P_def)
  then show thesis using that [of u] p while_option_stop [OF p] by (simp add: copy_while_def)
qed

section \<open>The contract of a copy\<close>

text \<open>The central table tells its own rows from others; a copied row is one of them and keeps its identifier.
  \<open>reached\<close> is the greatest identifier copied, and \<open>copied\<close> says that the own rows of the central table are
  the local rows up to it, each once.\<close>

locale marked_copy =
  fixes own :: "SyncRow \<Rightarrow> bool" and mark :: "SyncRow \<Rightarrow> SyncRow" and good :: "SyncRow \<Rightarrow> bool"
  assumes own_mark: "good r \<Longrightarrow> own (mark r)" and mark_id: "sr_id (mark r) = sr_id r"
begin

definition reached :: "SyncRow list \<Rightarrow> int" where
  "reached C = id_or_zero (greatest_id (filter own C))"

definition copied :: "SyncRow list \<Rightarrow> SyncRow list \<Rightarrow> bool" where
  "copied L C \<longleftrightarrow> list_all good L \<and> distinct (map sr_id L) \<and> list_all (\<lambda>r. 0 < sr_id r) L \<and>
     mset (filter own C) = mset (map mark (filter (\<lambda>r. sr_id r \<le> reached C) L))"

definition absent :: "SyncRow list \<Rightarrow> SyncRow list \<Rightarrow> nat" where
  "absent L C = length (filter (\<lambda>r. reached C < sr_id r) L)"

lemma reached_upper: "r \<in> set C \<Longrightarrow> own r \<Longrightarrow> sr_id r \<le> reached C"
  unfolding reached_def by (rule greatest_id_upper) simp

lemma own_row_local: assumes "copied L C" and "r \<in> set C" and "own r" shows "\<exists>x \<in> set L. r = mark x"
proof -
  have "set (filter own C) = set (map mark (filter (\<lambda>r. sr_id r \<le> reached C) L))"
    using assms(1) unfolding copied_def by (blast dest: mset_eq_setD)
  then have "r \<in> set (map mark (filter (\<lambda>r. sr_id r \<le> reached C) L))" using assms(2,3) by force
  then show ?thesis by auto
qed

lemma reached_local: assumes "copied L C" shows "reached C = 0 \<or> (\<exists>x \<in> set L. sr_id x = reached C)"
proof (cases "greatest_id (filter own C)")
  case (Some i)
  then obtain r where "r \<in> set C" "own r" "sr_id r = i" using greatest_id_in by fastforce
  moreover obtain x where "x \<in> set L" "r = mark x" using own_row_local [OF assms calculation(1,2)] by blast
  ultimately have "sr_id x = reached C" using Some mark_id by (simp add: reached_def id_or_zero_def)
  then show ?thesis using \<open>x \<in> set L\<close> by blast
qed (simp add: reached_def id_or_zero_def)

lemma reached_nonneg: "copied L C \<Longrightarrow> 0 \<le> reached C"
  using reached_local [of L C] unfolding copied_def list_all_iff by force

text \<open>One copy of a table that is behind: what is copied grows by the next rows, fewer are absent.\<close>

lemma next_part:
  assumes "copied L C" and "r \<in> set L" and "reached C < sr_id r" and "0 < n"
  shows "rows_after (reached C) n L \<noteq> []"
    and "filter (\<lambda>r. sr_id r \<le> sr_id (last (rows_after (reached C) n L))) (sort_key sr_id (filter (\<lambda>r. reached C < sr_id r) L)) =
           rows_after (reached C) n L"
    and "x \<in> set (rows_after (reached C) n L) \<Longrightarrow> x \<in> set L \<and> reached C < sr_id x \<and> sr_id x \<le> sr_id (last (rows_after (reached C) n L))"
proof -
  let ?S = "sort_key sr_id (filter (\<lambda>r. reached C < sr_id r) L)"
  have "r \<in> set ?S" using assms(2,3) by simp
  then have ne: "?S \<noteq> []" by (metis list.set_cases list.distinct(1))
  have "distinct (map sr_id L)" using assms(1) by (simp add: copied_def)
  then have "distinct (map sr_id (filter (\<lambda>r. reached C < sr_id r) L))" by (rule distinct_map_filter)
  moreover have "mset (map sr_id ?S) = mset (map sr_id (filter (\<lambda>r. reached C < sr_id r) L))" by simp
  ultimately have d: "distinct (map sr_id ?S)" using mset_eq_imp_distinct_iff by blast
  show "rows_after (reached C) n L \<noteq> []" using ne assms(4) by (simp add: rows_after_def)
  show eq: "filter (\<lambda>r. sr_id r \<le> sr_id (last (rows_after (reached C) n L))) ?S = rows_after (reached C) n L"
    unfolding rows_after_def by (rule sorted_ids_take [OF sorted_sort_key d ne assms(4)])
  show "x \<in> set L \<and> reached C < sr_id x \<and> sr_id x \<le> sr_id (last (rows_after (reached C) n L))"
    if "x \<in> set (rows_after (reached C) n L)"
    using that by (subst (asm) eq [symmetric]) simp
qed

lemma copy_part:
  assumes "copied L C" and "r \<in> set L" and "reached C < sr_id r" and "0 < n"
  shows "copied L (C @ map mark (rows_after (reached C) n L))"
    and "absent L (C @ map mark (rows_after (reached C) n L)) < absent L C"
proof -
  let ?N = "rows_after (reached C) n L" and ?C = "C @ map mark (rows_after (reached C) n L)"
  note N = next_part [OF assms]
  have goods: "own (mark x)" if "x \<in> set ?N" for x
    using N(3) [OF that] assms(1) own_mark by (auto simp: copied_def list_all_iff)
  then have own: "filter own ?C = filter own C @ map mark ?N" by (simp add: filter_map filter_id_conv)
  let ?l = "mark (last ?N)"
  have l: "last ?N \<in> set ?N" using N(1) by simp
  have "greatest_id (filter own ?C) = Some (sr_id ?l)"
  proof (rule greatest_id_eq)
    show "?l \<in> set (filter own ?C)" using l unfolding own by simp
    show "sr_id x \<le> sr_id ?l" if "x \<in> set (filter own ?C)" for x
      using that N(3) [OF l] N(3) reached_upper unfolding own by (force simp: mark_id)
  qed
  then have r: "reached ?C = sr_id (last ?N)" by (simp add: reached_def id_or_zero_def mark_id)
  have up: "reached C < reached ?C" using N(3) [OF l] r by simp
  have "mset ?N = filter_mset (\<lambda>r. sr_id r \<le> sr_id (last ?N)) (mset (filter (\<lambda>r. reached C < sr_id r) L))"
    by (subst N(2) [symmetric]) simp
  also have "\<dots> = mset (filter (\<lambda>r. sr_id r \<le> reached ?C \<and> \<not> sr_id r \<le> reached C) L)"
    unfolding r by (simp add: filter_filter_mset conj_commute not_le)
  finally have N': "mset ?N = mset (filter (\<lambda>r. sr_id r \<le> reached ?C \<and> \<not> sr_id r \<le> reached C) L)" .
  have "filter_mset (\<lambda>r. sr_id r \<le> reached ?C) (mset L) = filter_mset (\<lambda>r. sr_id r \<le> reached C) (mset L) + mset ?N"
    unfolding N' mset_filter by (rule filter_mset_split [OF up])
  moreover have "mset (filter own C) = image_mset mark (filter_mset (\<lambda>r. sr_id r \<le> reached C) (mset L))"
    using assms(1) by (simp add: copied_def)
  ultimately have "mset (filter own ?C) = mset (map mark (filter (\<lambda>r. sr_id r \<le> reached ?C) L))"
    unfolding own by simp
  then show "copied L ?C" using assms(1) by (simp add: copied_def)
  show "absent L ?C < absent L C" unfolding absent_def
    by (rule length_filter_strict [of _ _ "last ?N"]) (use up r N(3) [OF l] in auto)
qed

lemma copied_all: "copied L C \<Longrightarrow> (\<And>r. r \<in> set L \<Longrightarrow> sr_id r \<le> reached C) \<Longrightarrow> mset (filter own C) = mset (map mark L)"
  unfolding copied_def by (metis (mono_tags, lifting) filter_True)

text \<open>Rows that arrive with greater identifiers, and rows of others.\<close>

lemma copied_arrive:
  assumes "copied L C" and "list_all good new" and "distinct (map sr_id new)"
    and "\<And>r x. r \<in> set new \<Longrightarrow> x \<in> set L \<Longrightarrow> sr_id x < sr_id r" and "\<And>r. r \<in> set new \<Longrightarrow> 0 < sr_id r"
  shows "copied (L @ new) C"
proof -
  have late: "reached C < sr_id r" if "r \<in> set new" for r using reached_local [OF assms(1)] assms(4,5) that by force
  have "distinct (map sr_id (L @ new))" using assms(1,3,4) by (fastforce simp: copied_def)
  moreover have "filter (\<lambda>r. sr_id r \<le> reached C) new = []" using late by (force simp: filter_empty_conv)
  ultimately show ?thesis using assms(1,2,5) by (auto simp: copied_def list_all_iff)
qed

lemma copied_others: "copied L C \<Longrightarrow> list_all (\<lambda>r. \<not> own r) new \<Longrightarrow> copied L (C @ new)"
proof -
  assume c: "copied L C" and "list_all (\<lambda>r. \<not> own r) new"
  then have "filter own (C @ new) = filter own C" by (simp add: list_all_iff filter_empty_conv)
  then show "copied L (C @ new)" using c unfolding copied_def reached_def by metis
qed

end
section \<open>Copying month by month\<close>

text \<open>What the code of a copy does to the rows of the months.\<close>

locale month_copy = marked_copy +
  fixes part :: "bool \<Rightarrow> string \<Rightarrow> nat \<Rightarrow> CopySystem \<Rightarrow> bool \<times> CopySystem"
  assumes part_creates: "cs_local (snd (part ok m n s)) = cs_local s \<or>
      cs_local (snd (part ok m n s)) = create_partition (month_suffix m) (cs_local s)"
    and part_goes_on: "0 \<le> reached (month_rows (cs_central s) (month_suffix m)) \<Longrightarrow>
      fst (part ok m n s) \<longleftrightarrow>
        ok \<and> (\<exists>r \<in> set (month_rows (cs_local s) (month_suffix m)). reached (month_rows (cs_central s) (month_suffix m)) < sr_id r)"
    and part_central: "month_rows (cs_central (snd (part ok m n s))) =
      (if fst (part ok m n s) then (month_rows (cs_central s))(month_suffix m := month_rows (cs_central s) (month_suffix m) @
         map mark (rows_after (reached (month_rows (cs_central s) (month_suffix m))) n (month_rows (cs_local s) (month_suffix m))))
       else month_rows (cs_central s))"
begin

lemma part_local: "month_rows (cs_local (snd (part ok m n s))) = month_rows (cs_local s)"
  using part_creates [of ok m n s] by auto

definition sync_inv :: "CopySystem \<Rightarrow> bool" where
  "sync_inv s \<longleftrightarrow> (\<forall>m. copied (month_rows (cs_local s) m) (month_rows (cs_central s) m))"

lemma inv_copied: "sync_inv s \<Longrightarrow> copied (month_rows (cs_local s) m) (month_rows (cs_central s) m)"
  by (simp add: sync_inv_def)

lemma part_keeps:
  assumes "sync_inv s" and "0 < n"
  shows "sync_inv (snd (part ok m n s))"
    and "fst (part ok m n s) \<Longrightarrow> absent (month_rows (cs_local s) (month_suffix m)) (month_rows (cs_central (snd (part ok m n s))) (month_suffix m)) <
           absent (month_rows (cs_local s) (month_suffix m)) (month_rows (cs_central s) (month_suffix m))"
proof -
  note c = inv_copied [OF assms(1)]
  have "copied (month_rows (cs_local s) x) (month_rows (cs_central (snd (part ok m n s))) x)" for x
    using c copy_part(1) [OF c _ _ assms(2)] reached_nonneg [OF c] by (auto simp: part_central part_goes_on)
  then show "sync_inv (snd (part ok m n s))" by (simp add: sync_inv_def part_local)
  show "absent (month_rows (cs_local s) (month_suffix m)) (month_rows (cs_central (snd (part ok m n s))) (month_suffix m)) <
      absent (month_rows (cs_local s) (month_suffix m)) (month_rows (cs_central s) (month_suffix m))" if "fst (part ok m n s)"
    using that copy_part(2) [OF c _ _ assms(2)] reached_nonneg [OF c] by (auto simp: part_central part_goes_on)
qed

lemma part_absent:
  assumes "sync_inv s" and "0 < n"
  shows "absent (month_rows (cs_local s) x) (month_rows (cs_central (snd (part ok m n s))) x) \<le>
    absent (month_rows (cs_local s) x) (month_rows (cs_central s) x)"
  using part_keeps(2) [OF assms, of ok m] by (cases "fst (part ok m n s)"; cases "x = month_suffix m") (simp_all add: part_central)

lemma part_done:
  assumes "sync_inv s" and "\<not> fst (part True m n s)"
  shows "mset (filter own (month_rows (cs_central s) (month_suffix m))) = mset (map mark (month_rows (cs_local s) (month_suffix m)))"
  using assms(2) copied_all [OF inv_copied [OF assms(1)]] reached_nonneg [OF inv_copied [OF assms(1)]]
  by (simp add: part_goes_on not_less)

definition only_month :: "string \<Rightarrow> CopySystem \<Rightarrow> CopySystem \<Rightarrow> bool" where
  "only_month x s t \<longleftrightarrow> sync_inv t \<and> month_rows (cs_local t) = month_rows (cs_local s) \<and>
     (\<forall>y. y \<noteq> x \<longrightarrow> month_rows (cs_central t) y = month_rows (cs_central s) y)"

lemma only_month_part: "only_month (month_suffix m) s t \<Longrightarrow> 0 < n \<Longrightarrow> only_month (month_suffix m) s (snd (part ok m n t))"
  using part_keeps(1) by (simp add: only_month_def part_local part_central)

text \<open>The loop over the parts of a month ends, whichever copies fail, and completes the month when none does.\<close>

lemma copy_while_ends:
  assumes "sync_inv s" and "0 < n"
  obtains t where "copy_while (\<lambda>s. part (ok s) m n s) s = Some t" and "only_month (month_suffix m) s t"
    and "(\<And>s. ok s) \<Longrightarrow> mset (filter own (month_rows (cs_central t) (month_suffix m))) =
           mset (map mark (month_rows (cs_local s) (month_suffix m)))"
proof -
  let ?x = "month_suffix m" and ?c = "\<lambda>s. part (ok s) m n s"
  let ?f = "\<lambda>u. absent (month_rows (cs_local s) ?x) (month_rows (cs_central u) ?x)"
  have keep: "only_month ?x s (snd (?c u))" if "only_month ?x s u" for u by (rule only_month_part [OF that assms(2)])
  have less: "?f (snd (?c u)) < ?f u" if "only_month ?x s u" "fst (?c u)" for u
    using part_keeps(2) [OF _ assms(2) that(2)] that(1) by (simp add: only_month_def)
  have same: "?f (snd (?c u)) \<le> ?f u" if "only_month ?x s u" "\<not> fst (?c u)" for u
    using that by (simp add: part_central)
  have "only_month ?x s s" using assms(1) by (simp add: only_month_def)
  then obtain u where u: "only_month ?x s u" "\<not> fst (?c u)" "copy_while ?c s = Some (snd (?c u))"
    using copy_while_measure [of "only_month ?x s" ?c ?f, OF keep less same] by blast
  have all: "mset (filter own (month_rows (cs_central (snd (?c u))) ?x)) = mset (map mark (month_rows (cs_local s) ?x))" if "\<And>s. ok s"
    using part_done [of u m n] u that by (simp add: only_month_def part_central)
  show thesis using that [OF u(3) keep [OF u(1)] all] .
qed

end

section \<open>The three copies\<close>

lemma greatest_beyond: "(case greatest_id L of None \<Rightarrow> False | Some i \<Rightarrow> c < i) \<longleftrightarrow> (\<exists>r \<in> set L. c < sr_id r)"
proof (cases "greatest_id L")
  case (Some i)
  then have "i = id_or_zero (greatest_id L)" by (simp add: id_or_zero_def)
  then have "sr_id r \<le> i" if "r \<in> set L" for r using greatest_id_upper [OF that] by simp
  then show ?thesis using Some greatest_id_in [OF Some] by force
qed (simp add: greatest_id_def split: if_splits)

lemma greatest_beyond_nonneg: "0 \<le> c \<Longrightarrow> c < id_or_zero (greatest_id L) \<longleftrightarrow> (\<exists>r \<in> set L. c < sr_id r)"
  by (subst greatest_beyond [symmetric]) (simp add: id_or_zero_def split: option.splits)

lemma rows_of_no_rel: "\<not> rel_exists t m \<Longrightarrow> month_rows t m = []"
  by (simp add: rel_exists_def month_rows_def map_of_eq_None_iff [THEN iffD2])

lemmas copy_unfold = Let_def rows_of_insert getLocalId_def getCentralId_def greatest_beyond [symmetric] not_le

interpretation calls_marks: marked_copy "of_region conf" "safe_server_id conf" "\<lambda>r. of_region conf (safe_server_id conf r)" for conf
  by unfold_locales (simp_all add: safe_server_id_def)

interpretation calls_copy: month_copy "of_region conf" "safe_server_id conf" "\<lambda>r. of_region conf (safe_server_id conf r)"
    "copyCallsPart conf" for conf
  by unfold_locales (auto simp: copyCallsPart_def copy_unfold calls_marks.reached_def split: option.splits)

interpretation cdr_marks: marked_copy "of_instance conf" "with_instance conf" "\<lambda>r. of_instance conf (with_instance conf r)" for conf
  by unfold_locales (simp_all add: with_instance_def)

interpretation cdr_copy: month_copy "of_instance conf" "with_instance conf" "\<lambda>r. of_instance conf (with_instance conf r)"
    "copyCallsCdr conf" for conf
  by unfold_locales (auto simp: copyCallsCdr_def copy_unfold cdr_marks.reached_def split: option.splits)

interpretation unfinished_copy: month_copy "of_instance conf" "with_instance conf" "\<lambda>r. of_instance conf (with_instance conf r)"
    "copyCallsCdrUnfinished conf" for conf
proof unfold_locales
  fix s :: CopySystem and ok m n
  let ?x = "month_suffix m"
  show "fst (copyCallsCdrUnfinished conf ok m n s) \<longleftrightarrow>
      ok \<and> (\<exists>r \<in> set (month_rows (cs_local s) ?x). cdr_marks.reached conf (month_rows (cs_central s) ?x) < sr_id r)"
    if "0 \<le> cdr_marks.reached conf (month_rows (cs_central s) ?x)"
    using greatest_beyond_nonneg [OF that, of "month_rows (cs_local s) ?x"] rows_of_no_rel [of "cs_local s" ?x]
    by (auto simp: copyCallsCdrUnfinished_def Let_def cdr_marks.reached_def not_le)
qed (auto simp: copyCallsCdrUnfinished_def Let_def rows_of_insert cdr_marks.reached_def)

interpretation sync_copy: month_copy "sync_own table conf" "sync_mark table conf"
    "\<lambda>r. sync_own table conf (sync_mark table conf r)" "sync_part table conf" for table conf
  by (cases table) (simp_all add: sync_own_def sync_mark_def sync_part_def calls_copy.month_copy_axioms
      cdr_copy.month_copy_axioms unfinished_copy.month_copy_axioms)

end
