(* ===== verification/Sync_Results.thy ===== *)
theory Sync_Results
  imports Sync_Properties
begin

text \<open>The results on copying to the central data base, with examples.\<close>

section \<open>The invariant\<close>

lemma rows_of_subset: "set (month_rows t m) \<subseteq> set (all_rows t)"
proof (cases "map_of t m")
  case (Some xs)
  then have "(m, xs) \<in> set t" by (rule map_of_SomeD)
  then show ?thesis using Some by (force simp: month_rows_def all_rows_def)
qed (simp add: month_rows_def)

lemma sync_start_inv: "sync_start table conf s \<Longrightarrow> sync_copy.sync_inv table conf s"
  using rows_of_subset [of "cs_central s"]
  by (auto simp: sync_start_def sync_copy.sync_inv_def sync_copy.copied_def month_rows_def [of "[]"] filter_empty_conv)

lemma central_step_inv: "copy_step table conf s s' \<Longrightarrow> sync_copy.sync_inv table conf s \<Longrightarrow> sync_copy.sync_inv table conf s'"
proof (induction rule: copy_step.induct)
  case (copy limit s copy_ok month)
  then show ?case using sync_copy.part_keeps(1) by blast
next
  case (new_month s m)
  then show ?case by (simp add: sync_copy.sync_inv_def)
next
  case (arrive s m new)
  note c = sync_copy.inv_copied [OF arrive.prems, of m]
  have "sync_copy.copied table conf (month_rows (cs_local s) m @ new) (month_rows (cs_central s) m)"
    by (rule sync_copy.copied_arrive [OF c]) (use arrive.hyps in \<open>auto simp: list_all_iff\<close>)
  then show ?case using arrive by (simp add: sync_copy.sync_inv_def rows_of_insert)
next
  case (others s m new)
  then show ?case using sync_copy.copied_others by (simp add: sync_copy.sync_inv_def rows_of_insert)
qed

lemma sync_steps_inv:
  assumes "(copy_step table conf)\<^sup>*\<^sup>* s s'" and "sync_start table conf s"
  shows "sync_copy.sync_inv table conf s'"
  using assms by (induction rule: rtranclp_induct) (blast intro: sync_start_inv central_step_inv)+

text \<open>C16: however copies that succeed or fail, rows that arrive and rows of other instances interleave, in every month the
  rows of this instance in the central table are exactly the local rows up to the greatest identifier there, each once;
  for calls, call records and unfinished calls.\<close>

theorem central_rows_are_prefix:
  assumes "sync_start table conf s" and "(copy_step table conf)\<^sup>*\<^sup>* s s'"
  shows "distinct (map sr_id (month_rows (cs_local s') m)) \<and>
    mset (filter (sync_own table conf) (month_rows (cs_central s') m)) = mset (map (sync_mark table conf)
      (filter (\<lambda>r. sr_id r \<le> id_or_zero (greatest_id (filter (sync_own table conf) (month_rows (cs_central s') m))))
        (month_rows (cs_local s') m)))"
  using sync_copy.inv_copied [OF sync_steps_inv [OF assms(2,1)], of m]
  unfolding sync_copy.copied_def sync_copy.reached_def by blast

section \<open>Rows in the tables of their months\<close>

definition rows_placed :: "month_tables \<Rightarrow> bool" where
  "rows_placed t \<longleftrightarrow> distinct (map fst t) \<and> (\<forall>p \<in> set t. \<forall>r \<in> set (snd p). month_suffix (sr_month r) = fst p)"

lemma placed_create: "rows_placed t \<Longrightarrow> rows_placed (create_partition m t)"
  by (auto simp: rows_placed_def create_partition_def rel_exists_def)

lemma placed_insert:
  assumes "rows_placed t" and "\<And>r. r \<in> set new \<Longrightarrow> month_suffix (sr_month r) = m"
  shows "rows_placed (insert_rows m new t)"
proof -
  have "map fst (insert_rows m new t) = map fst t" by (induction t) (auto simp: insert_rows_def)
  then have "distinct (map fst (insert_rows m new t))" using assms(1) by (simp add: rows_placed_def)
  moreover have "\<forall>p \<in> set (insert_rows m new t). \<forall>r \<in> set (snd p). month_suffix (sr_month r) = fst p"
    using assms by (force simp: rows_placed_def insert_rows_def split: if_splits)
  ultimately show ?thesis by (simp add: rows_placed_def)
qed

lemma sync_step_placed: "copy_step table conf s s' \<Longrightarrow> rows_placed (cs_local s) \<Longrightarrow> rows_placed (cs_local s')"
proof (induction rule: copy_step.induct)
  case (copy limit s copy_ok month)
  then show ?case using sync_copy.part_creates [of table conf copy_ok month limit s] placed_create by metis
next
  case (arrive s m new)
  then show ?case by (auto simp: list_all_iff intro!: placed_insert)
qed (simp_all add: placed_create)

lemma sync_steps_placed: "(copy_step table conf)\<^sup>*\<^sup>* s s' \<Longrightarrow> sync_start table conf s \<Longrightarrow> rows_placed (cs_local s')"
  by (induction rule: rtranclp_induct) (simp add: sync_start_def rows_placed_def, blast intro: sync_step_placed)

lemma placed_row: "rows_placed t \<Longrightarrow> r \<in> set (all_rows t) \<Longrightarrow> r \<in> set (month_rows t (month_suffix (sr_month r)))"
  unfolding rows_placed_def all_rows_def month_rows_def by (force simp: map_of_is_SomeI split: option.splits)

section \<open>A run of the thread of calls\<close>

lemma first_after_None: "first_after i rows = None \<longleftrightarrow> (\<forall>r \<in> set rows. sr_id r \<le> i)"
proof -
  have "first_after i rows = None \<longleftrightarrow> length (rows_after i 1 rows) = 0" by (simp add: first_after_def split: list.splits)
  also have "\<dots> \<longleftrightarrow> length (filter (\<lambda>r. i < sr_id r) rows) = 0" unfolding rows_after_def length_take length_sort by linarith
  also have "\<dots> \<longleftrightarrow> (\<forall>r \<in> set rows. sr_id r \<le> i)" by (simp add: filter_empty_conv not_less)
  finally show ?thesis .
qed

lemma first_after_Some: "first_after i rows = Some r \<Longrightarrow> r \<in> set rows \<and> i < sr_id r"
proof -
  assume "first_after i rows = Some r"
  then have "r \<in> set (rows_after i 1 rows)" by (auto simp: first_after_def split: list.splits)
  then show ?thesis by (auto simp: rows_after_def dest: in_set_takeD)
qed

text \<open>All rows of a month are copied.\<close>

definition month_copied :: "SyncConf \<Rightarrow> string \<Rightarrow> CopySystem \<Rightarrow> bool" where
  "month_copied conf x s \<longleftrightarrow> mset (filter (of_region conf) (month_rows (cs_central s) x)) =
     mset (map (safe_server_id conf) (month_rows (cs_local s) x))"

lemma calls_month:
  assumes "calls_copy.sync_inv conf s"
  obtains t where "copy_while (copyCallsPart conf True m 100000) s = Some t" and "calls_copy.only_month conf (month_suffix m) s t"
    and "month_copied conf (month_suffix m) t" and "\<And>x. month_copied conf x s \<Longrightarrow> month_copied conf x t"
proof -
  obtain t where t: "copy_while (copyCallsPart conf True m 100000) s = Some t" "calls_copy.only_month conf (month_suffix m) s t"
    "mset (filter (of_region conf) (month_rows (cs_central t) (month_suffix m))) =
       mset (map (safe_server_id conf) (month_rows (cs_local s) (month_suffix m)))"
    using calls_copy.copy_while_ends [OF assms, of 100000 "\<lambda>_. True" m] by auto
  have full: "month_copied conf (month_suffix m) t"
    using t(2,3) by (simp add: month_copied_def calls_copy.only_month_def)
  have "month_copied conf x t" if "month_copied conf x s" for x
    using that t(2) full by (cases "x = month_suffix m") (simp_all add: month_copied_def calls_copy.only_month_def)
  then show thesis using that t(1,2) full by blast
qed

lemma only_month_inv: "calls_copy.only_month conf x s t \<Longrightarrow> calls_copy.sync_inv conf t \<and> month_rows (cs_local t) = month_rows (cs_local s)"
  by (simp add: calls_copy.only_month_def)

lemma calls_three_months:
  assumes "calls_copy.sync_inv conf s" and "getCurrentMonths (loadSyncCentralId conf (cs_central s)) (cs_local s) = Some month"
  obtains t where "sync_calls_run conf prev_month next_month (\<lambda>_. True) s = Some t" and "month_rows (cs_local t) = month_rows (cs_local s)"
    and "month_copied conf (month_suffix (prev_month month)) t" and "month_copied conf (month_suffix month) t"
    and "month_copied conf (month_suffix (next_month month)) t"
proof -
  obtain s1 where s1: "copy_while (copyCallsPart conf True (prev_month month) 100000) s = Some s1"
    "calls_copy.only_month conf (month_suffix (prev_month month)) s s1" "month_copied conf (month_suffix (prev_month month)) s1"
    using calls_month [OF assms(1)] by metis
  obtain s2 where s2: "copy_while (copyCallsPart conf True month 100000) s1 = Some s2"
    "calls_copy.only_month conf (month_suffix month) s1 s2" "month_copied conf (month_suffix month) s2"
    "\<And>x. month_copied conf x s1 \<Longrightarrow> month_copied conf x s2"
    using calls_month [of conf s1 month] only_month_inv [OF s1(2)] by metis
  obtain t where t: "copy_while (copyCallsPart conf True (next_month month) 100000) s2 = Some t"
    "calls_copy.only_month conf (month_suffix (next_month month)) s2 t" "month_copied conf (month_suffix (next_month month)) t"
    "\<And>x. month_copied conf x s2 \<Longrightarrow> month_copied conf x t"
    using calls_month [of conf s2 "next_month month"] only_month_inv [OF s2(2)] by metis
  show thesis
  proof (rule that)
    show "sync_calls_run conf prev_month next_month (\<lambda>_. True) s = Some t"
      using assms(2) s1(1) s2(1) t(1) by (simp add: sync_calls_run_def)
    show "month_rows (cs_local t) = month_rows (cs_local s)"
      using only_month_inv [OF s1(2)] only_month_inv [OF s2(2)] only_month_inv [OF t(2)] by simp
  qed (use s1(3) s2(3,4) t(3,4) in blast)+
qed

lemma sync_inv_calls: "sync_copy.sync_inv SyncCalls conf s = calls_copy.sync_inv conf s"
  by (simp add: sync_own_def sync_mark_def)

lemma copied_row_counts:
  assumes "month_copied conf x t" and "r \<in> set (month_rows (cs_local t) x)"
  shows "safe_server_id conf r \<in> set (month_rows (cs_central t) x)" and "sr_id r \<le> loadSyncCentralId conf (cs_central t)"
proof -
  have "set (filter (of_region conf) (month_rows (cs_central t) x)) = set (map (safe_server_id conf) (month_rows (cs_local t) x))"
    using assms(1) unfolding month_copied_def by (rule mset_eq_setD)
  then have r: "safe_server_id conf r \<in> set (filter (of_region conf) (month_rows (cs_central t) x))" using assms(2) by simp
  then show "safe_server_id conf r \<in> set (month_rows (cs_central t) x)" by simp
  have "safe_server_id conf r \<in> set (filter (of_region conf) (all_rows (cs_central t)))" using r rows_of_subset by fastforce
  then show "sr_id r \<le> loadSyncCentralId conf (cs_central t)"
    unfolding loadSyncCentralId_def by (metis greatest_id_upper calls_marks.mark_id)
qed

text \<open>C17: in every reachable state a run of the thread whose copies succeed ends. When it finds a call beyond the greatest
  identifier of the central table it completes the month of that call and the months before and after it, and the
  greatest identifier grows; otherwise no call is beyond it and nothing changes.\<close>

theorem sync_calls_complete:
  assumes "sync_start SyncCalls conf s0" and "(copy_step SyncCalls conf)\<^sup>*\<^sup>* s0 s"
  shows "\<exists>t. sync_calls_run conf prev_month next_month (\<lambda>_. True) s = Some t \<and> month_rows (cs_local t) = month_rows (cs_local s) \<and>
    (case getCurrentMonths (loadSyncCentralId conf (cs_central s)) (cs_local s) of
       None \<Rightarrow> t = s \<and> (\<forall>r \<in> set (all_rows (cs_local s)). sr_id r \<le> loadSyncCentralId conf (cs_central s))
     | Some month \<Rightarrow> loadSyncCentralId conf (cs_central s) < loadSyncCentralId conf (cs_central t) \<and>
         (\<forall>x \<in> {month_suffix (prev_month month), month_suffix month, month_suffix (next_month month)}.
            mset (filter (of_region conf) (month_rows (cs_central t) x)) = mset (map (safe_server_id conf) (month_rows (cs_local t) x))))"
proof (cases "getCurrentMonths (loadSyncCentralId conf (cs_central s)) (cs_local s)")
  case None
  then have "\<forall>r \<in> set (all_rows (cs_local s)). sr_id r \<le> loadSyncCentralId conf (cs_central s)"
    by (simp add: getCurrentMonths_def first_after_None)
  then show ?thesis using None by (simp add: sync_calls_run_def)
next
  case (Some month)
  have inv: "calls_copy.sync_inv conf s" using sync_steps_inv [OF assms(2,1)] by (simp only: sync_inv_calls)
  obtain r where r: "r \<in> set (all_rows (cs_local s))" "loadSyncCentralId conf (cs_central s) < sr_id r" "month = sr_month r"
    using Some first_after_Some by (auto simp: getCurrentMonths_def)
  obtain t where t: "sync_calls_run conf prev_month next_month (\<lambda>_. True) s = Some t" "month_rows (cs_local t) = month_rows (cs_local s)"
    "month_copied conf (month_suffix (prev_month month)) t" "month_copied conf (month_suffix month) t"
    "month_copied conf (month_suffix (next_month month)) t"
    using calls_three_months [OF inv Some] by metis
  have "r \<in> set (month_rows (cs_local t) (month_suffix month))"
    using placed_row [OF sync_steps_placed [OF assms(2,1)] r(1)] r(3) t(2) by simp
  then have "loadSyncCentralId conf (cs_central s) < loadSyncCentralId conf (cs_central t)"
    using copied_row_counts(2) [OF t(4)] r(2) by fastforce
  then show ?thesis using t Some by (auto simp: month_copied_def)
qed

section \<open>A run of the thread of records\<close>

definition cdrs_copied :: "SyncConf \<Rightarrow> string \<Rightarrow> CopySystem \<Rightarrow> bool" where
  "cdrs_copied conf x s \<longleftrightarrow> mset (filter (of_instance conf) (month_rows (cs_central s) x)) =
     mset (map (with_instance conf) (month_rows (cs_local s) x))"

lemma all_rows_create [simp]: "all_rows (create_partition m t) = all_rows t"
  by (simp add: all_rows_def create_partition_def)

lemma getCurrentMonths_part:
  assumes "cs_local t = cs_local s \<or> cs_local t = create_partition x (cs_local s)"
  shows "getCurrentMonths i (cs_local t) = getCurrentMonths i (cs_local s)"
  using assms by (auto simp: getCurrentMonths_def)

lemma not_behind:
  assumes "cdr_copy.sync_inv conf s" and "\<not> fst (copyCallsCdr conf True m n s)"
  shows "cdrs_copied conf (month_suffix m) (snd (copyCallsCdr conf True m n s))" and "cdrs_copied conf (month_suffix m) s"
    and "month_rows (cs_central (snd (copyCallsCdr conf True m n s))) = month_rows (cs_central s)"
  using cdr_copy.part_done [OF assms] assms(2) by (simp_all add: cdrs_copied_def cdr_copy.part_local cdr_copy.part_central)

text \<open>One round: the rows absent from the two months become fewer while it asks to go on.\<close>

abbreviation cdrs_absent :: "SyncConf \<Rightarrow> CopySystem \<Rightarrow> string \<Rightarrow> CopySystem \<Rightarrow> nat" where
  "cdrs_absent conf s m t \<equiv> cdr_marks.absent conf (month_rows (cs_local s) (month_suffix m)) (month_rows (cs_central t) (month_suffix m))"

definition cdrs_going :: "SyncConf \<Rightarrow> CopySystem \<Rightarrow> CopySystem \<Rightarrow> bool" where
  "cdrs_going conf s u \<longleftrightarrow> cdr_copy.sync_inv conf u \<and> month_rows (cs_local u) = month_rows (cs_local s) \<and>
     (\<forall>i. getCurrentMonths i (cs_local u) = getCurrentMonths i (cs_local s))"

lemma cdrs_going_part: "cdrs_going conf s u \<Longrightarrow> 0 < n \<Longrightarrow> cdrs_going conf s (snd (copyCallsCdr conf ok m n u))"
  using cdr_copy.part_keeps(1) getCurrentMonths_part [OF cdr_copy.part_creates]
  by (simp add: cdrs_going_def cdr_copy.part_local)

lemma cdrs_going_absent:
  assumes "cdrs_going conf s u" and "0 < n"
  shows "cdrs_absent conf s x (snd (copyCallsCdr conf ok m n u)) \<le> cdrs_absent conf s x u"
    and "fst (copyCallsCdr conf ok m n u) \<Longrightarrow> cdrs_absent conf s m (snd (copyCallsCdr conf ok m n u)) < cdrs_absent conf s m u"
  using cdr_copy.part_absent [OF _ assms(2), of conf u] cdr_copy.part_keeps(2) [OF _ assms(2), of conf u] assms(1)
  by (simp_all add: cdrs_going_def)

lemma cdrs_loop:
  assumes "cdr_copy.sync_inv conf s" and "getCurrentMonths i (cs_local s) = Some month"
  obtains t where "copy_while (syncCallsCdr conf next_month (\<lambda>_. True) i) s = Some t" and "month_rows (cs_local t) = month_rows (cs_local s)"
    and "cdrs_copied conf (month_suffix month) t" and "cdrs_copied conf (month_suffix (next_month month)) t"
proof -
  let ?b = "syncCallsCdr conf next_month (\<lambda>_. True) i" and ?f = "\<lambda>u. cdrs_absent conf s month u + cdrs_absent conf s (next_month month) u"
  let ?c = "copyCallsCdr conf True month 100000" and ?d = "copyCallsCdr conf True (next_month month) 100000"
  have b: "?b u = (if fst (?c u) then (True, snd (?c u)) else ?d (snd (?c u)))" if "cdrs_going conf s u" for u
    using that assms(2) by (simp add: cdrs_going_def syncCallsCdr_def split: prod.split)
  have c: "cdrs_going conf s (snd (?c u))" if "cdrs_going conf s u" for u using cdrs_going_part [OF that] by simp
  have keep: "cdrs_going conf s (snd (?b u))" if "cdrs_going conf s u" for u
    using c [OF that] cdrs_going_part [OF c [OF that]] by (simp add: b [OF that])
  note absent = cdrs_going_absent [where n = 100000, simplified]
  have le: "?f (snd (?c u)) \<le> ?f u" "fst (?c u) \<Longrightarrow> ?f (snd (?c u)) < ?f u" if "cdrs_going conf s u" for u
    using absent(1) [OF that, of month True month] absent(1) [OF that, of "next_month month" True month] absent(2) [OF that, of True month]
    by linarith+
  have le': "?f (snd (?d u)) \<le> ?f u" "fst (?d u) \<Longrightarrow> ?f (snd (?d u)) < ?f u" if "cdrs_going conf s u" for u
    using absent(1) [OF that, of month True "next_month month"] absent(1) [OF that, of "next_month month" True "next_month month"]
      absent(2) [OF that, of True "next_month month"] by linarith+
  have less: "?f (snd (?b u)) < ?f u" if g: "cdrs_going conf s u" "fst (?b u)" for u
    using g(2) le [OF g(1)] le' [OF c [OF g(1)]] by (auto simp: b [OF g(1)] split: if_splits)
  have same: "?f (snd (?b u)) \<le> ?f u" if g: "cdrs_going conf s u" for u
    using le [OF g] le' [OF c [OF g]] by (auto simp: b [OF g])
  have "cdrs_going conf s s" using assms(1) by (simp add: cdrs_going_def)
  then obtain u where u: "cdrs_going conf s u" "\<not> fst (?b u)" "copy_while ?b s = Some (snd (?b u))"
    using copy_while_measure [of "cdrs_going conf s" ?b ?f, OF keep less same] by blast
  have stop: "\<not> fst (?c u)" "\<not> fst (?d (snd (?c u)))" "snd (?b u) = snd (?d (snd (?c u)))"
    using u(2) by (auto simp: b [OF u(1)] split: if_splits)
  have inv: "cdr_copy.sync_inv conf u" "cdr_copy.sync_inv conf (snd (?c u))" using u(1) c [OF u(1)] by (simp_all add: cdrs_going_def)
  have "month_rows (cs_central (snd (?b u))) = month_rows (cs_central (snd (?c u)))" using not_behind(3) [OF inv(2) stop(2)] stop(3) by simp
  then have "cdrs_copied conf (month_suffix month) (snd (?b u))"
    using not_behind(1) [OF inv(1) stop(1)] stop(3) by (simp add: cdrs_copied_def cdr_copy.part_local)
  then show thesis using that [OF u(3)] not_behind(1) [OF inv(2) stop(2)] stop(3) keep [OF u(1)] by (simp add: cdrs_going_def)
qed

lemma unfinished_loop:
  assumes "unfinished_copy.sync_inv conf s"
    and "month = (case getCurrentMonths i (cs_local s) of None \<Rightarrow> this_month | Some m \<Rightarrow> m)"
  obtains t where "copy_while (syncCallsCdrUnfinished conf this_month (\<lambda>_. True) i) s = Some t"
    and "month_rows (cs_local t) = month_rows (cs_local s)" and "cdrs_copied conf (month_suffix month) t"
proof -
  let ?b = "syncCallsCdrUnfinished conf this_month (\<lambda>_. True) i" and ?c = "copyCallsCdrUnfinished conf True month 100000"
  let ?I = "\<lambda>u. unfinished_copy.sync_inv conf u \<and> cs_local u = cs_local s"
  have local: "cs_local (snd (?c u)) = cs_local u" for u by (simp add: copyCallsCdrUnfinished_def Let_def)
  have b: "?b u = ?c u" if "?I u" for u using that assms(2) by (simp add: syncCallsCdrUnfinished_def)
  have keep: "?I (snd (?b u))" if "?I u" for u using unfinished_copy.part_keeps(1) that b [OF that] local by simp
  obtain u where u: "?I u" "\<not> fst (?b u)" "copy_while ?b s = Some (snd (?b u))"
  proof (rule copy_while_measure [of ?I ?b "cdrs_absent conf s month" s, OF keep])
    show "cdrs_absent conf s month (snd (?b u)) < cdrs_absent conf s month u" if "?I u" "fst (?b u)" for u
      using unfinished_copy.part_keeps(2) [of conf u 100000 True month] that b [OF that(1)] by simp
    show "cdrs_absent conf s month (snd (?b u)) \<le> cdrs_absent conf s month u" if "?I u" "\<not> fst (?b u)" for u
      using unfinished_copy.part_absent [of conf u 100000 "month_suffix month" True month] that b [OF that(1)] by simp
  qed (use assms(1) in simp_all)
  have "\<not> fst (?c u)" using u(2) b [OF u(1)] by simp
  then have "cdrs_copied conf (month_suffix month) (snd (?b u))"
    using unfinished_copy.part_done [of conf u month 100000] u(1) b [OF u(1)]
    by (simp add: cdrs_copied_def unfinished_copy.part_central local)
  then show thesis using that [OF u(3)] keep [OF u(1)] by simp
qed

text \<open>In reachable states of the tables of records and of unfinished calls a run of the thread whose copies succeed
  ends, and completes the month of the first record beyond the greatest identifier of the central table, the month after
  it, and the month of the first unfinished call beyond it, or the current one when there is none.\<close>

theorem sync_cdrs_complete:
  assumes "sync_start SyncCdrs conf c0" and "(copy_step SyncCdrs conf)\<^sup>*\<^sup>* c0 c"
    and "sync_start SyncUnfinished conf u0" and "(copy_step SyncUnfinished conf)\<^sup>*\<^sup>* u0 u"
  shows "\<exists>c' u'. sync_cdrs_run conf next_month this_month (\<lambda>_. True) (c, u) = Some (c', u') \<and>
    (case getCurrentMonths (loadSyncCentralId conf (cs_central c)) (cs_local c) of
       None \<Rightarrow> c' = c
     | Some month \<Rightarrow> cdrs_copied conf (month_suffix month) c' \<and> cdrs_copied conf (month_suffix (next_month month)) c') \<and>
    cdrs_copied conf (month_suffix (case getCurrentMonths (loadSyncCentralId conf (cs_central u)) (cs_local u) of
       None \<Rightarrow> this_month | Some month \<Rightarrow> month)) u'"
proof -
  have inv: "cdr_copy.sync_inv conf c" "unfinished_copy.sync_inv conf u"
    using sync_steps_inv [OF assms(2,1)] sync_steps_inv [OF assms(4,3)] by (simp_all add: sync_own_def sync_mark_def)
  obtain u' where u: "copy_while (syncCallsCdrUnfinished conf this_month (\<lambda>_. True) (loadSyncCentralId conf (cs_central u))) u = Some u'"
    "cdrs_copied conf (month_suffix (case getCurrentMonths (loadSyncCentralId conf (cs_central u)) (cs_local u) of
       None \<Rightarrow> this_month | Some month \<Rightarrow> month)) u'"
    using unfinished_loop [OF inv(2) refl] by metis
  let ?i = "loadSyncCentralId conf (cs_central c)"
  show ?thesis
  proof (cases "getCurrentMonths ?i (cs_local c)")
    case None
    then have "copy_while (syncCallsCdr conf next_month (\<lambda>_. True) ?i) c = Some c"
      by (simp add: copy_while_def syncCallsCdr_def while_option_unfold)
    then show ?thesis using u None by (simp add: sync_cdrs_run_def Let_def)
  next
    case (Some month)
    obtain c' where "copy_while (syncCallsCdr conf next_month (\<lambda>_. True) ?i) c = Some c'"
      "cdrs_copied conf (month_suffix month) c'" "cdrs_copied conf (month_suffix (next_month month)) c'"
      using cdrs_loop [OF inv(1) Some] by metis
    then show ?thesis using u Some by (simp add: sync_cdrs_run_def Let_def)
  qed
qed

section \<open>Examples\<close>

definition sync_conf :: SyncConf where
  "sync_conf = \<lparr> sc_instance_id = 99, sc_regions = [99] \<rparr>"

definition sync_row :: "int \<Rightarrow> string \<Rightarrow> SyncRow" where
  "sync_row i month = \<lparr> sr_id = i, sr_server_id = None, sr_month = month, sr_data = [] \<rparr>"

definition may :: string where "may = ''2017-05-01 00:00:00''"
definition january :: string where "january = ''2017-01-01 00:00:00''"

definition sync_empty :: CopySystem where
  "sync_empty = \<lparr> cs_local = [], cs_central = [] \<rparr>"

text \<open>A call of January is priced between two calls of May.\<close>

definition late_call :: CopySystem where
  "late_call = \<lparr> cs_local = [(''201705'', [sync_row 1 may, sync_row 3 may]), (''201701'', [sync_row 2 january])], cs_central = [] \<rparr>"

lemmas sync_samples = sync_conf_def sync_row_def may_def january_def sync_empty_def late_call_def

lemma sync_empty_start: "sync_start table conf sync_empty"
  by (simp add: sync_start_def sync_empty_def all_rows_def)

lemma late_call_reached: "(copy_step table sync_conf)\<^sup>*\<^sup>* sync_empty late_call"
proof -
  let ?s = "\<lambda>t. \<lparr> cs_local = t, cs_central = [] \<rparr>"
  have own: "sync_own table sync_conf (sync_mark table sync_conf (sync_row i m))" for i m
    by (cases table) (simp_all add: sync_own_def sync_mark_def of_region_def of_instance_def safe_server_id_def with_instance_def sync_samples)
  have 1: "copy_step table sync_conf sync_empty (?s [(''201705'', [])])"
    using copy_step.new_month [of table sync_conf sync_empty "''201705''"]
    by (simp add: sync_empty_def create_partition_def rel_exists_def)
  have 2: "copy_step table sync_conf (?s [(''201705'', [])]) (?s [(''201705'', []), (''201701'', [])])"
    using copy_step.new_month [of table sync_conf "?s [(''201705'', [])]" "''201701''"]
    by (simp add: create_partition_def rel_exists_def)
  have 3: "copy_step table sync_conf (?s [(''201705'', []), (''201701'', [])]) (?s [(''201705'', [sync_row 1 may, sync_row 3 may]), (''201701'', [])])"
    using copy_step.arrive [of "?s [(''201705'', []), (''201701'', [])]" "''201705''" "[sync_row 1 may, sync_row 3 may]" table sync_conf]
    by (simp add: own, simp add: sync_samples rel_exists_def month_rows_def insert_rows_def month_suffix_def)
  have 4: "copy_step table sync_conf (?s [(''201705'', [sync_row 1 may, sync_row 3 may]), (''201701'', [])]) late_call"
    using copy_step.arrive [of "?s [(''201705'', [sync_row 1 may, sync_row 3 may]), (''201701'', [])]" "''201701''" "[sync_row 2 january]" table sync_conf]
    by (simp add: own, simp add: sync_samples rel_exists_def month_rows_def insert_rows_def month_suffix_def)
  show ?thesis using 1 2 3 4 by (meson converse_rtranclp_into_rtranclp rtranclp.rtrancl_refl)
qed

abbreviation april_june :: "SyncConf \<Rightarrow> CopySystem \<Rightarrow> CopySystem option" where
  "april_june conf \<equiv> sync_calls_run conf (\<lambda>_. ''2017-04-01 00:00:00'') (\<lambda>_. ''2017-06-01 00:00:00'') (\<lambda>_. True)"

definition late_call_after :: CopySystem where
  "late_call_after = \<lparr> cs_local = cs_local late_call @ [(''201704'', []), (''201706'', [])],
     cs_central = [(''201704'', []), (''201705'', map (safe_server_id sync_conf) [sync_row 1 may, sync_row 3 may]), (''201706'', [])] \<rparr>"

lemmas sync_eval = sync_calls_run_def getCurrentMonths_def loadSyncCentralId_def first_after_def rows_after_def all_rows_def
  copy_while_def while_option_unfold copyCallsPart_def Let_def month_suffix_def create_partition_def rel_exists_def
  month_rows_def getLocalId_def getCentralId_def greatest_id_def id_or_zero_def insert_rows_def of_region_def safe_server_id_def
  late_call_after_def sync_samples

lemma late_call_run: "april_june sync_conf late_call = Some late_call_after"
  by (simp add: sync_eval)

section \<open>Calls that are passed by\<close>

text \<open>A month is near another when a run for a call of the first looks at the second.\<close>

definition near :: "(string \<Rightarrow> string) \<Rightarrow> (string \<Rightarrow> string) \<Rightarrow> string \<Rightarrow> string \<Rightarrow> bool" where
  "near prev_month next_month x month \<longleftrightarrow> x = month_suffix (prev_month month) \<or> x = month_suffix month \<or> x = month_suffix (next_month month)"

text \<open>Runs of the thread, with copies that succeed or fail, while calls of months that are not near \<open>x\<close> arrive and other
  instances copy theirs.\<close>

inductive far_step :: "SyncConf \<Rightarrow> (string \<Rightarrow> string) \<Rightarrow> (string \<Rightarrow> string) \<Rightarrow> string \<Rightarrow> CopySystem \<Rightarrow> CopySystem \<Rightarrow> bool"
  for conf prev_month next_month x where
  run: "sync_calls_run conf prev_month next_month copy_ok s = Some t \<Longrightarrow> far_step conf prev_month next_month x s t"
| new_month: "far_step conf prev_month next_month x s (s\<lparr> cs_local := create_partition m (cs_local s) \<rparr>)"
| arrive: "list_all (\<lambda>r. \<not> near prev_month next_month x (sr_month r)) new \<Longrightarrow>
    far_step conf prev_month next_month x s (s\<lparr> cs_local := insert_rows m new (cs_local s) \<rparr>)"
| others: "list_all (\<lambda>r. \<not> of_region conf r) new \<Longrightarrow>
    far_step conf prev_month next_month x s (s\<lparr> cs_central := insert_rows m new (cs_central s) \<rparr>)"

lemma all_rows_insert:
  "\<exists>added. set (all_rows (insert_rows m new t)) = set (all_rows t) \<union> added \<and> added \<subseteq> set new"
proof -
  have "set (all_rows (insert_rows m new t)) = set (all_rows t) \<union> (if rel_exists t m then set new else {})"
    by (force simp: all_rows_def insert_rows_def rel_exists_def split: if_splits)
  then show ?thesis by (intro exI [of _ "if rel_exists t m then set new else {}"]) simp
qed

lemma month_rows_insert:
  "month_rows (insert_rows m new t) y = month_rows t y @ (if y = m \<and> rel_exists t m then new else [])"
proof -
  have "rel_exists t m \<longleftrightarrow> map_of t m \<noteq> None" by (simp add: rel_exists_def map_of_eq_None_iff)
  then show ?thesis by (auto simp: month_rows_def map_of_insert_rows)
qed

lemma greatest_id_mono:
  assumes "set A \<subseteq> set B" and "A = [] \<Longrightarrow> \<forall>r \<in> set B. 0 \<le> sr_id r"
  shows "id_or_zero (greatest_id A) \<le> id_or_zero (greatest_id B)"
proof (cases "A = []")
  case True
  then show ?thesis using assms(2) greatest_id_upper [of _ B]
    by (cases B) (auto simp: greatest_id_def id_or_zero_def Max_ge_iff)
next
  case False
  then have "B \<noteq> []" using assms(1) by auto
  then have "Max (set (map sr_id A)) \<le> Max (set (map sr_id B))" using assms(1) False by (intro Max_mono) auto
  then show ?thesis using False \<open>B \<noteq> []\<close> by (simp add: greatest_id_def id_or_zero_def)
qed

text \<open>What the copying of a month leaves alone, and that the greatest identifier does not fall.\<close>

definition spares :: "SyncConf \<Rightarrow> string \<Rightarrow> CopySystem \<Rightarrow> CopySystem \<Rightarrow> bool" where
  "spares conf x s t \<longleftrightarrow> all_rows (cs_local t) = all_rows (cs_local s) \<and> month_rows (cs_local t) = month_rows (cs_local s) \<and>
     month_rows (cs_central t) x = month_rows (cs_central s) x \<and>
     loadSyncCentralId conf (cs_central s) \<le> loadSyncCentralId conf (cs_central t)"

lemma spares_refl: "spares conf x s s"
  by (simp add: spares_def)

lemma spares_trans: "spares conf x s t \<Longrightarrow> spares conf x t u \<Longrightarrow> spares conf x s u"
  by (auto simp: spares_def)

lemma spares_create:
  "spares conf x s (s\<lparr> cs_central := create_partition m (cs_central s), cs_local := create_partition m (cs_local s) \<rparr>)"
  by (simp add: spares_def loadSyncCentralId_def)

lemma spares_part:
  assumes "x \<noteq> month_suffix month"
  shows "spares conf x s (snd (copyCallsPart conf ok month n s))"
proof -
  let ?m = "month_suffix month"
  let ?s = "s\<lparr> cs_central := create_partition ?m (cs_central s), cs_local := create_partition ?m (cs_local s) \<rparr>"
  define c where "c = getCentralId conf (cs_central ?s) ?m"
  define new where "new = map (safe_server_id conf) (rows_after c n (month_rows (cs_local ?s) ?m))"
  have "snd (copyCallsPart conf ok month n s) = ?s \<or>
      snd (copyCallsPart conf ok month n s) = ?s\<lparr> cs_central := insert_rows ?m new (cs_central ?s) \<rparr>"
    unfolding copyCallsPart_def Let_def new_def c_def by (auto split: option.splits simp del: rows_of_create)
  moreover have ins: "spares conf x ?s (?s\<lparr> cs_central := insert_rows ?m new (cs_central ?s) \<rparr>)"
  proof -
    have new: "c < sr_id r" if "r \<in> set new" for r
      using that by (auto simp: new_def rows_after_def safe_server_id_def dest!: in_set_takeD)
    have zero: "c = 0" if "filter (of_region conf) (all_rows (cs_central ?s)) = []"
    proof -
      have "filter (of_region conf) (month_rows (cs_central ?s) ?m) = []"
        using that rows_of_subset [of "cs_central ?s" ?m] unfolding filter_empty_conv by blast
      then show ?thesis by (simp add: c_def getCentralId_def greatest_id_def id_or_zero_def)
    qed
    obtain added where added: "set (all_rows (insert_rows ?m new (cs_central ?s))) = set (all_rows (cs_central ?s)) \<union> added"
      "added \<subseteq> set new" using all_rows_insert by meson
    have "loadSyncCentralId conf (cs_central ?s) \<le> loadSyncCentralId conf (insert_rows ?m new (cs_central ?s))"
      unfolding loadSyncCentralId_def
    proof (rule greatest_id_mono)
      show "set (filter (of_region conf) (all_rows (cs_central ?s))) \<subseteq>
          set (filter (of_region conf) (all_rows (insert_rows ?m new (cs_central ?s))))" unfolding set_filter added(1) by blast
      assume none: "filter (of_region conf) (all_rows (cs_central ?s)) = []"
      show "\<forall>r \<in> set (filter (of_region conf) (all_rows (insert_rows ?m new (cs_central ?s)))). 0 \<le> sr_id r"
      proof
        fix r assume r: "r \<in> set (filter (of_region conf) (all_rows (insert_rows ?m new (cs_central ?s))))"
        have "r \<notin> set (filter (of_region conf) (all_rows (cs_central ?s)))" unfolding none by simp
        then have "r \<in> set new" using r added(2) unfolding set_filter added(1) by blast
        then show "0 \<le> sr_id r" using new zero [OF none] by fastforce
      qed
    qed
    then show ?thesis using assms by (simp add: spares_def month_rows_insert del: all_rows_create)
  qed
  ultimately show ?thesis using spares_create [of conf x s ?m] spares_trans [OF spares_create [of conf x s ?m] ins]
    by (elim disjE) simp_all
qed

lemma spares_while:
  assumes "copy_while (\<lambda>s. copyCallsPart conf (ok s) month n s) s = Some t" and "x \<noteq> month_suffix month"
  shows "spares conf x s t"
proof -
  let ?part = "\<lambda>s. copyCallsPart conf (ok s) month n s"
  obtain p where p: "while_option fst (\<lambda>p. ?part (snd p)) (?part s) = Some p" "t = snd p"
    using assms(1) by (auto simp: copy_while_def)
  have "spares conf x s (snd p)"
    by (rule while_option_rule [where P = "\<lambda>p. spares conf x s (snd p)", OF _ p(1)])
      (use spares_part [OF assms(2)] spares_trans in blast)+
  then show ?thesis by (simp add: p(2))
qed

lemma spares_run:
  assumes "sync_calls_run conf prev_month next_month copy_ok s = Some t"
    and "\<forall>q \<in> set (all_rows (cs_local s)). near prev_month next_month x (sr_month q) \<longrightarrow> sr_id q \<le> loadSyncCentralId conf (cs_central s)"
  shows "spares conf x s t"
proof (cases "getCurrentMonths (loadSyncCentralId conf (cs_central s)) (cs_local s)")
  case None
  then show ?thesis using assms(1) spares_refl by (simp add: sync_calls_run_def)
next
  case (Some month)
  then obtain q where "q \<in> set (all_rows (cs_local s))" "loadSyncCentralId conf (cs_central s) < sr_id q" "month = sr_month q"
    using first_after_Some by (auto simp: getCurrentMonths_def)
  then have x: "x \<noteq> month_suffix (prev_month month)" "x \<noteq> month_suffix month" "x \<noteq> month_suffix (next_month month)"
    using assms(2) by (auto simp: near_def)
  obtain s1 s2 where "copy_while (\<lambda>s. copyCallsPart conf (copy_ok s) (prev_month month) 100000 s) s = Some s1"
    "copy_while (\<lambda>s. copyCallsPart conf (copy_ok s) month 100000 s) s1 = Some s2"
    "copy_while (\<lambda>s. copyCallsPart conf (copy_ok s) (next_month month) 100000 s) s2 = Some t"
    using assms(1) Some by (auto simp: sync_calls_run_def bind_eq_Some_conv)
  from spares_while [OF this(1) x(1)] spares_while [OF this(2) x(2)] spares_while [OF this(3) x(3)]
  show ?thesis using spares_trans by blast
qed

text \<open>The invariant: every call of a month near \<open>x\<close> is within the greatest identifier, and in \<open>x\<close> nothing is copied.\<close>

lemma far_step_spares:
  assumes "far_step conf prev_month next_month x s t"
    and "\<forall>q \<in> set (all_rows (cs_local s)). near prev_month next_month x (sr_month q) \<longrightarrow> sr_id q \<le> loadSyncCentralId conf (cs_central s)"
  shows "(\<forall>q \<in> set (all_rows (cs_local t)). near prev_month next_month x (sr_month q) \<longrightarrow> sr_id q \<le> loadSyncCentralId conf (cs_central t)) \<and>
    filter (of_region conf) (month_rows (cs_central t) x) = filter (of_region conf) (month_rows (cs_central s) x) \<and>
    set (month_rows (cs_local s) x) \<subseteq> set (month_rows (cs_local t) x)"
  using assms
proof (cases rule: far_step.cases)
  case (run copy_ok)
  then show ?thesis using spares_run [OF run assms(2)] assms(2) by (fastforce simp: spares_def)
next
  case (new_month m)
  then show ?thesis using assms(2) by simp
next
  case (arrive new m)
  obtain added where added: "set (all_rows (insert_rows m new (cs_local s))) = set (all_rows (cs_local s)) \<union> added"
    "added \<subseteq> set new" using all_rows_insert by meson
  have "\<not> near prev_month next_month x (sr_month q)" if "q \<in> added" for q
    using that added(2) arrive(2) by (auto simp: list_all_iff)
  then show ?thesis using assms(2) by (auto simp: arrive(1) added(1) month_rows_insert)
next
  case (others new m)
  have none: "filter (of_region conf) new = []" using others(2) by (simp add: list_all_iff filter_empty_conv)
  obtain added where added: "set (all_rows (insert_rows m new (cs_central s))) = set (all_rows (cs_central s)) \<union> added"
    "added \<subseteq> set new" using all_rows_insert by meson
  have "set (filter (of_region conf) (all_rows (insert_rows m new (cs_central s)))) = set (filter (of_region conf) (all_rows (cs_central s)))"
    using added(2) others(2) unfolding set_filter added(1) by (auto simp: list_all_iff)
  then have "loadSyncCentralId conf (cs_central t) = loadSyncCentralId conf (cs_central s)"
    by (simp add: others(1) loadSyncCentralId_def greatest_id_def flip: set_empty del: set_filter)
  then show ?thesis using assms(2) none by (simp add: others(1) month_rows_insert)
qed

lemma far_steps_spare:
  assumes "(far_step conf prev_month next_month x)\<^sup>*\<^sup>* s t"
    and "\<forall>q \<in> set (all_rows (cs_local s)). near prev_month next_month x (sr_month q) \<longrightarrow> sr_id q \<le> loadSyncCentralId conf (cs_central s)"
  shows "(\<forall>q \<in> set (all_rows (cs_local t)). near prev_month next_month x (sr_month q) \<longrightarrow> sr_id q \<le> loadSyncCentralId conf (cs_central t)) \<and>
    filter (of_region conf) (month_rows (cs_central t) x) = filter (of_region conf) (month_rows (cs_central s) x) \<and>
    set (month_rows (cs_local s) x) \<subseteq> set (month_rows (cs_local t) x)"
  using assms
proof (induction rule: rtranclp_induct)
  case (step u t)
  then show ?case using far_step_spares [of conf prev_month next_month x u t] by fastforce
qed simp

text \<open>C37: a call that is passed by is lost to the central data base. Suppose a call of the month \<open>x\<close> is not copied although no
  call of a month near \<open>x\<close> is beyond the greatest identifier of the central table. Then, as long as only calls of months
  that are not near \<open>x\<close> arrive, however many runs follow, with copies that succeed or fail, and whatever other instances copy, it
  is never copied: the rows of this instance for \<open>x\<close> in the central table do not change.\<close>

theorem late_call_never_copied:
  assumes "(far_step conf prev_month next_month x)\<^sup>*\<^sup>* s t"
    and "\<forall>q \<in> set (all_rows (cs_local s)). near prev_month next_month x (sr_month q) \<longrightarrow> sr_id q \<le> loadSyncCentralId conf (cs_central s)"
    and "r \<in> set (month_rows (cs_local s) x)" and "sr_id r \<notin> sr_id ` set (filter (of_region conf) (month_rows (cs_central s) x))"
  shows "r \<in> set (month_rows (cs_local t) x) \<and> sr_id r \<notin> sr_id ` set (filter (of_region conf) (month_rows (cs_central t) x)) \<and>
    filter (of_region conf) (month_rows (cs_central t) x) = filter (of_region conf) (month_rows (cs_central s) x)"
  using far_steps_spare [OF assms(1,2)] assms(3,4) by auto

text \<open>A run gets there from a reachable state: the call of January is priced between two calls of May.\<close>

theorem late_call_never_copied_witness:
  "(copy_step SyncCalls sync_conf)\<^sup>*\<^sup>* sync_empty late_call \<and> april_june sync_conf late_call = Some late_call_after \<and>
   sync_row 2 january \<in> set (month_rows (cs_local late_call_after) ''201701'') \<and>
   (\<exists>t. (far_step sync_conf (\<lambda>_. ''2017-04-01 00:00:00'') (\<lambda>_. ''2017-06-01 00:00:00'') ''201701'')\<^sup>*\<^sup>* late_call_after t \<and>
      sync_row 4 may \<in> set (month_rows (cs_local t) ''201705'') \<and> sync_row 2 january \<in> set (month_rows (cs_local t) ''201701'') \<and>
      sr_id (sync_row 2 january) \<notin> sr_id ` set (filter (of_region sync_conf) (month_rows (cs_central t) ''201701'')))"
proof -
  let ?p = "\<lambda>_. ''2017-04-01 00:00:00''" and ?n = "\<lambda>_. ''2017-06-01 00:00:00''"
  let ?t = "late_call_after\<lparr> cs_local := insert_rows ''201705'' [sync_row 4 may] (cs_local late_call_after) \<rparr>"
  have "far_step sync_conf ?p ?n ''201701'' late_call_after ?t"
    by (rule far_step.arrive) (simp add: near_def sync_samples month_suffix_def)
  then have steps: "(far_step sync_conf ?p ?n ''201701'')\<^sup>*\<^sup>* late_call_after ?t" by blast
  have "loadSyncCentralId sync_conf (cs_central late_call_after) = 3" by (simp add: sync_eval)
  then have near: "\<forall>q \<in> set (all_rows (cs_local late_call_after)).
      near ?p ?n ''201701'' (sr_month q) \<longrightarrow> sr_id q \<le> loadSyncCentralId sync_conf (cs_central late_call_after)"
    by (simp add: sync_samples late_call_after_def all_rows_def)
  have r: "sync_row 2 january \<in> set (month_rows (cs_local late_call_after) ''201701'')"
    "sr_id (sync_row 2 january) \<notin> sr_id ` set (filter (of_region sync_conf) (month_rows (cs_central late_call_after) ''201701''))"
    by (simp_all add: sync_samples late_call_after_def month_rows_def)
  have "sync_row 4 may \<in> set (month_rows (cs_local ?t) ''201705'')"
    by (simp add: month_rows_insert, simp add: sync_samples late_call_after_def rel_exists_def)
  with late_call_never_copied [OF steps near r] show ?thesis using late_call_reached late_call_run r(1) steps by blast
qed

theorem central_rows_are_prefix_witness:
  "sync_start SyncCalls sync_conf sync_empty \<and>
   (copy_step SyncCalls sync_conf)\<^sup>*\<^sup>* sync_empty (snd (copyCallsPart sync_conf True may 1 late_call)) \<and>
   map sr_id (month_rows (cs_central (snd (copyCallsPart sync_conf True may 1 late_call))) ''201705'') = [1] \<and>
   distinct (map sr_id (month_rows (cs_local (snd (copyCallsPart sync_conf True may 1 late_call))) ''201705''))"
proof -
  have "copy_step SyncCalls sync_conf late_call (snd (copyCallsPart sync_conf True may 1 late_call))"
    using copy_step.copy [of 1 SyncCalls sync_conf late_call True may] by (simp add: sync_part_def)
  then have steps: "(copy_step SyncCalls sync_conf)\<^sup>*\<^sup>* sync_empty (snd (copyCallsPart sync_conf True may 1 late_call))"
    using late_call_reached by (meson rtranclp.rtrancl_into_rtrancl)
  have "map sr_id (month_rows (cs_central (snd (copyCallsPart sync_conf True may 1 late_call))) ''201705'') = [1]" by code_simp
  then show ?thesis using central_rows_are_prefix [OF sync_empty_start steps, of "''201705''"] sync_empty_start steps by blast
qed

theorem sync_calls_complete_witness:
  "sync_start SyncCalls sync_conf sync_empty \<and> (copy_step SyncCalls sync_conf)\<^sup>*\<^sup>* sync_empty late_call \<and>
   getCurrentMonths (loadSyncCentralId sync_conf (cs_central late_call)) (cs_local late_call) = Some may \<and>
   (\<exists>t. april_june sync_conf late_call = Some t \<and>
      loadSyncCentralId sync_conf (cs_central late_call) < loadSyncCentralId sync_conf (cs_central t))"
proof -
  have m: "getCurrentMonths (loadSyncCentralId sync_conf (cs_central late_call)) (cs_local late_call) = Some may" by code_simp
  show ?thesis
    using sync_calls_complete [OF sync_empty_start late_call_reached, of "\<lambda>_. ''2017-04-01 00:00:00''" "\<lambda>_. ''2017-06-01 00:00:00''"]
      sync_empty_start late_call_reached m by auto
qed

theorem sync_cdrs_complete_witness:
  "sync_start SyncCdrs sync_conf sync_empty \<and> (copy_step SyncCdrs sync_conf)\<^sup>*\<^sup>* sync_empty late_call \<and>
   sync_start SyncUnfinished sync_conf sync_empty \<and> (copy_step SyncUnfinished sync_conf)\<^sup>*\<^sup>* sync_empty late_call \<and>
   (\<exists>c u. sync_cdrs_run sync_conf (\<lambda>_. ''2017-06-01 00:00:00'') may (\<lambda>_. True) (late_call, late_call) = Some (c, u) \<and>
      cdrs_copied sync_conf ''201705'' c \<and> cdrs_copied sync_conf ''201705'' u)"
proof -
  have m: "getCurrentMonths (loadSyncCentralId sync_conf (cs_central late_call)) (cs_local late_call) = Some may" by code_simp
  have x: "month_suffix may = ''201705''" by code_simp
  show ?thesis
    using sync_cdrs_complete [OF sync_empty_start late_call_reached sync_empty_start late_call_reached,
        of "\<lambda>_. ''2017-06-01 00:00:00''" may] sync_empty_start late_call_reached by (auto simp: m x)
qed

end
