(* ===== verification/Pull_Tables.thy ===== *)
theory Pull_Tables
  imports Voip_Prelude
begin

text \<open>
  The tables replicated from the central data base: one definition for every class of \<^verbatim>\<open>sync/\<close> and \<^verbatim>\<open>sync/nnp/\<close>, the
  values its \<open>init\<close> gives to the members of \<open>BasePull\<close>. Two of them filter by the regions of the instance: the
  texts \<open>regions\<close> (\<open>get_sql_regions_list\<close>) and the flag \<open>api_host\<close> (\<open>isApiHostMode\<close>) are arguments.
\<close>

record PullSpec =
  pu_event :: string
  pu_src_table :: string
  pu_dst_table :: string
  pu_key :: string
  pu_src_sql_where :: string
  pu_fields :: "string list"
  pu_datatype :: "string list"

definition PullClient :: PullSpec where
  "PullClient = \<lparr> pu_event = ''client'', pu_src_table = ''billing.clients'', pu_dst_table = ''billing.clients'',
     pu_key = ''id'', pu_src_sql_where = [],
     pu_fields =
       [''id'', ''voip_limit_day'', ''voip_limit_mn_day'', ''voip_disabled'', ''balance'', ''credit'', ''amount_date'',
        ''last_payed_month'', ''organization_id'', ''price_include_vat'', ''timezone_offset'', ''is_blocked'',
        ''anti_fraud_disabled'', ''account_version'', ''effective_vat_rate''],
     pu_datatype =
       [''id integer'', ''voip_limit_day integer'', ''voip_limit_mn_day integer'', ''voip_disabled boolean'',
        ''balance numeric(12,2)'', ''credit integer'', ''amount_date timestamp(0)'', ''last_payed_month date'',
        ''organization_id integer'', ''price_include_vat boolean'', ''timezone_offset smallint'',
        ''is_blocked boolean'', ''anti_fraud_disabled boolean'', ''account_version integer'',
        ''effective_vat_rate smallint''] \<rparr>"

definition PullOrganization :: PullSpec where
  "PullOrganization = \<lparr> pu_event = ''organization'', pu_src_table = ''billing.organization'', pu_dst_table = ''billing.organization'',
     pu_key = ''id'', pu_src_sql_where = [],
     pu_fields =
       [''id'', ''organization_id'', ''actual_from'', ''actual_to'', ''tax_rate''],
     pu_datatype =
       [''id integer'', ''organization_id integer'', ''actual_from date'', ''actual_to date'',
        ''tax_rate double precision''] \<rparr>"

definition PullGeo :: PullSpec where
  "PullGeo = \<lparr> pu_event = ''geo'', pu_src_table = ''geo.geo'', pu_dst_table = ''geo.geo'',
     pu_key = ''id'', pu_src_sql_where = [],
     pu_fields =
       [''id'', ''country'', ''region'', ''city''],
     pu_datatype =
       [''id integer'', ''country integer'', ''region integer'', ''city integer''] \<rparr>"

definition PullMobPrefix :: PullSpec where
  "PullMobPrefix = \<lparr> pu_event = ''mob_prefix'', pu_src_table = ''geo.mob_prefix'', pu_dst_table = ''geo.mob_prefix'',
     pu_key = [], pu_src_sql_where = [],
     pu_fields =
       [''prefix'', ''mob''],
     pu_datatype =
       [''prefix character varying(11)'', ''mob boolean''] \<rparr>"

definition PullGeoPrefix :: PullSpec where
  "PullGeoPrefix = \<lparr> pu_event = ''geo_prefix'', pu_src_table = ''geo.prefix'', pu_dst_table = ''geo.prefix'',
     pu_key = [], pu_src_sql_where = [],
     pu_fields =
       [''prefix'', ''geo_id'', ''operator_id''],
     pu_datatype =
       [''prefix character varying(11)'', ''geo_id integer'', ''operator_id integer''] \<rparr>"

definition PullInstance :: PullSpec where
  "PullInstance = \<lparr> pu_event = ''instance_settings'', pu_src_table = ''billing.instance_settings'', pu_dst_table = ''billing.instance_settings'',
     pu_key = ''id'', pu_src_sql_where = [],
     pu_fields =
       [''id'', ''region_id'', ''city_geo_id'', ''country_id'', ''city_id'', ''auto_lock_finance''],
     pu_datatype =
       [] \<rparr>"

definition PullNetworkPrefix :: PullSpec where
  "PullNetworkPrefix = \<lparr> pu_event = ''network_prefix'', pu_src_table = ''billing.network_prefix'', pu_dst_table = ''billing.network_prefix'',
     pu_key = ''network_config_id'', pu_src_sql_where = [],
     pu_fields =
       [''prefix'', ''network_config_id'', ''date_from'', ''deleted'', ''date_to'', ''network_type_id''],
     pu_datatype =
       [''prefix character varying(20)'', ''network_config_id integer'', ''date_from date'', ''deleted boolean'',
        ''date_to date'', ''network_type_id integer''] \<rparr>"

definition PullOperator :: PullSpec where
  "PullOperator = \<lparr> pu_event = ''operator'', pu_src_table = ''voip.operator'', pu_dst_table = ''billing.operator'',
     pu_key = [], pu_src_sql_where = [],
     pu_fields =
       [''region'', ''id'', ''pricelist_id'', ''term_in_cost'', ''local_network_pricelist_id'',
        ''client_7800_pricelist_id'', ''operator_7800_pricelist_id''],
     pu_datatype =
       [''region smallint'', ''id smallint'', ''pricelist_id smallint'', ''term_in_cost numeric(8,2)'',
        ''local_network_pricelist_id smallint'', ''client_7800_pricelist_id smallint'',
        ''operator_7800_pricelist_id smallint''] \<rparr>"

definition PullTariff :: PullSpec where
  "PullTariff = \<lparr> pu_event = ''tariff'', pu_src_table = ''billing.tariff'', pu_dst_table = ''billing.tariff'',
     pu_key = ''id'', pu_src_sql_where = [],
     pu_fields =
       [''id'', ''freemin'', ''freemin_for_number'', ''pricelist_id'', ''paid_redirect'', ''tariffication_by_minutes'',
        ''tariffication_full_first_minute'', ''tariffication_free_first_seconds''],
     pu_datatype =
       [''id smallint'', ''freemin integer'', ''freemin_for_number boolean'', ''pricelist_id smallint'',
        ''paid_redirect boolean'', ''tariffication_by_minutes boolean'', ''tariffication_full_first_minute boolean'',
        ''tariffication_free_first_seconds boolean''] \<rparr>"

definition PullTariffPackage :: PullSpec where
  "PullTariffPackage = \<lparr> pu_event = ''tariff_package'', pu_src_table = ''billing.tariff_package'', pu_dst_table = ''billing.tariff_package'',
     pu_key = ''id'', pu_src_sql_where = [],
     pu_fields =
       [''id'', ''destination_id'', ''prepaid_minutes'', ''pricelist_id''],
     pu_datatype =
       [''id integer'', ''destination_id integer'', ''prepaid_minutes integer'', ''pricelist_id integer''] \<rparr>"

definition PullDefs :: "bool \<Rightarrow> string \<Rightarrow> PullSpec" where
  "PullDefs api_host regions = \<lparr> pu_event = ''defs'', pu_src_table = ''billing.defs'', pu_dst_table = ''billing.defs'',
     pu_key = ''pricelist_id'', pu_src_sql_where = (if api_host then []
       else '' ( not deleted and date_to > ( now() - '' @
         [CHR 0x27] @ [CHR 0x27] @ ''2 month'' @ [CHR 0x27] @ [CHR 0x27] @ ''::interval ) and  pricelist_id in (select id from voip.pricelist where region in '' @
         regions @ '' or is_global )   ) ''),
     pu_fields =
       [''ndef'', ''pricelist_id'', ''date_from'', ''deleted'', ''date_to'', ''price''],
     pu_datatype =
       [''ndef bigint'', ''pricelist_id smallint'', ''date_from date'', ''deleted boolean'', ''date_to date'',
        ''price numeric(8,4)''] \<rparr>"

definition PullServiceNumber :: PullSpec where
  "PullServiceNumber = \<lparr> pu_event = ''service_number'', pu_src_table = ''billing.service_number'', pu_dst_table = ''billing.service_number'',
     pu_key = ''id'', pu_src_sql_where = [],
     pu_fields =
       [''id'', ''server_id'', ''client_account_id'', ''did'', ''activation_dt'', ''expire_dt'', ''lines_count'',
        ''tech_number'', ''tech_number_operator_id''],
     pu_datatype =
       [''id integer'', ''server_id integer'', ''client_account_id integer'', ''did character varying(15)'',
        ''activation_dt timestamp'', ''expire_dt timestamp'', ''lines_count integer'',
        ''tech_number character varying(15)'', ''tech_number_operator_id integer''] \<rparr>"

definition PullServicePackage :: PullSpec where
  "PullServicePackage = \<lparr> pu_event = ''service_package'', pu_src_table = ''billing.service_package'', pu_dst_table = ''billing.service_package'',
     pu_key = ''id'', pu_src_sql_where = [],
     pu_fields =
       [''id'', ''activation_dt'', ''expire_dt'', ''tariff_package_id'', ''service_number_id'', ''service_trunk_id'',
        ''periodical''],
     pu_datatype =
       [''id integer'', ''activation_dt timestamp'', ''expire_dt timestamp'', ''tariff_package_id integer'',
        ''service_number_id integer'', ''service_trunk_id integer'', ''periodical boolean''] \<rparr>"

definition PullServiceTrunk :: PullSpec where
  "PullServiceTrunk = \<lparr> pu_event = ''service_trunk'', pu_src_table = ''billing.service_trunk'', pu_dst_table = ''billing.service_trunk'',
     pu_key = ''id'', pu_src_sql_where = [],
     pu_fields =
       [''id'', ''server_id'', ''client_account_id'', ''trunk_id'', ''activation_dt'', ''expire_dt'', ''orig_enabled'',
        ''term_enabled'', ''orig_min_payment'', ''term_min_payment''],
     pu_datatype =
       [''id integer'', ''server_id integer'', ''client_account_id integer'', ''trunk_id integer'',
        ''activation_dt timestamp'', ''expire_dt timestamp'', ''orig_enabled boolean'', ''term_enabled boolean'',
        ''orig_min_payment double precision'', ''term_min_payment double precision''] \<rparr>"

definition PullServiceTrunkSettings :: PullSpec where
  "PullServiceTrunkSettings = \<lparr> pu_event = ''service_trunk_settings'', pu_src_table = ''billing.service_trunk_settings'', pu_dst_table = ''billing.service_trunk_settings'',
     pu_key = ''id'', pu_src_sql_where = [],
     pu_fields =
       [''id'', ''trunk_id'', ''type'', ''order'', ''src_number_id'', ''dst_number_id'', ''pricelist_id'',
        ''nnp_tariff_id'', ''minimum_minutes'', ''minimum_cost'', ''minimum_margin_type'', ''minimum_margin''],
     pu_datatype =
       [''id integer'', ''trunk_id integer'', ''type smallint'', [CHR 0x22] @ ''order'' @ [CHR 0x22] @ '' smallint'',
        ''src_number_id integer'', ''dst_number_id integer'', ''pricelist_id integer'', ''nnp_tariff_id integer'',
        ''minimum_minutes integer'', ''minimum_cost integer'', ''minimum_margin_type smallint'',
        ''minimum_margin numeric(10,5)''] \<rparr>"

definition PullLogTariff :: PullSpec where
  "PullLogTariff = \<lparr> pu_event = ''tariff_change_log'', pu_src_table = ''billing.tariff_change_log'', pu_dst_table = ''billing.tariff_change_log'',
     pu_key = ''id'', pu_src_sql_where = [],
     pu_fields =
       [''id'', ''usage_id'', ''ts'', ''date_activation'', ''tarif_id_local'', ''tarif_id_local_mob'',
        ''tarif_id_russia'', ''tarif_id_russia_mob'', ''tarif_id_intern''],
     pu_datatype =
       [''id integer'', ''usage_id integer'', ''ts timestamp(0)'', ''date_activation date'', ''tarif_id_local integer'',
        ''tarif_id_local_mob integer'', ''tarif_id_russia integer'', ''tarif_id_russia_mob integer'',
        ''tarif_id_intern integer''] \<rparr>"

definition PullStatPrefixlist :: PullSpec where
  "PullStatPrefixlist = \<lparr> pu_event = ''stat_prefixlist'', pu_src_table = ''billing.stat_prefixlist'', pu_dst_table = ''billing.stat_prefixlist'',
     pu_key = ''id'', pu_src_sql_where = [],
     pu_fields =
       [''id'', ''type_id'', ''prefixes'', ''sub_type'', ''country_id'', ''region_id'', ''city_id'',
        ''exclude_operators'', ''operators''],
     pu_datatype =
       [''id integer'', ''type_id smallint'', ''prefixes text'', ''sub_type character varying(10)'',
        ''country_id integer'', ''region_id integer'', ''city_id integer'', ''exclude_operators boolean'',
        ''operators text''] \<rparr>"

definition PullStatDestinationPrefixlists :: PullSpec where
  "PullStatDestinationPrefixlists = \<lparr> pu_event = ''stat_destination_prefixlists'', pu_src_table = ''billing.stat_destination_prefixlists'', pu_dst_table = ''billing.stat_destination_prefixlists'',
     pu_key = ''id'', pu_src_sql_where = [],
     pu_fields =
       [''id'', ''destination_id'', ''prefixlist_id''],
     pu_datatype =
       [''id integer'', ''destination_id integer'', ''prefixlist_id integer''] \<rparr>"

definition PullCurrencyRate :: PullSpec where
  "PullCurrencyRate = \<lparr> pu_event = ''currency_rate'', pu_src_table = ''billing.currency_rate'', pu_dst_table = ''billing.currency_rate'',
     pu_key = [], pu_src_sql_where = [],
     pu_fields =
       [''id'', ''date'', ''currency'', ''rate''],
     pu_datatype =
       [''id integer'', ''date date'', ''currency character(3)'', ''rate numeric(10,4)''] \<rparr>"

definition PullServer :: PullSpec where
  "PullServer = \<lparr> pu_event = ''server'', pu_src_table = ''public.server'', pu_dst_table = ''public.server'',
     pu_key = ''id'', pu_src_sql_where = [],
     pu_fields =
       [''id'', ''low_balance_outcome_id'', ''blocked_outcome_id'', ''calling_station_id_for_line_without_number'',
        ''min_price_for_autorouting'', ''our_numbers_id'', ''service_numbers'', ''hub_id'', ''emergency_prefixlist_id'',
        ''h_call_sync_delay'', ''h_cdr_sync_delay'', ''h_call_save_delay'', ''h_cdr_proc_wait_count'',
        ''h_call_save_wait_count'', ''h_thread_error_count'', ''h_radius_request_delay'', ''h_event_management'',
        ''h_local_events'', ''name'', ''nas_ip_address''],
     pu_datatype =
       [''id smallint'', ''low_balance_outcome_id integer'', ''blocked_outcome_id integer'',
        ''calling_station_id_for_line_without_number character varying(100)'', ''min_price_for_autorouting integer'',
        ''our_numbers_id integer'', ''service_numbers text'', ''hub_id integer'', ''emergency_prefixlist_id integer'',
        ''h_call_sync_delay varchar'', ''h_cdr_sync_delay varchar'', ''h_call_save_delay varchar'',
        ''h_cdr_proc_wait_count varchar'', ''h_call_save_wait_count varchar'', ''h_thread_error_count varchar'',
        ''h_radius_request_delay varchar'', ''h_event_management varchar'', ''h_local_events varchar'',
        ''name varchar'', ''nas_ip_address varchar''] \<rparr>"

definition PullHub :: PullSpec where
  "PullHub = \<lparr> pu_event = ''hub'', pu_src_table = ''auth.hub'', pu_dst_table = ''auth.hub'',
     pu_key = ''id'', pu_src_sql_where = [],
     pu_fields =
       [''id'', ''name''],
     pu_datatype =
       [''id integer'', ''name character varying(50)''] \<rparr>"

definition PullAirp :: PullSpec where
  "PullAirp = \<lparr> pu_event = ''airp'', pu_src_table = ''auth.airp'', pu_dst_table = ''auth.airp'',
     pu_key = ''id'', pu_src_sql_where = [],
     pu_fields =
       [''id'', ''server_id'', ''name''],
     pu_datatype =
       [''id integer'', ''server_id integer'', ''name character varying(50)''] \<rparr>"

definition PullNumber :: PullSpec where
  "PullNumber = \<lparr> pu_event = ''number'', pu_src_table = ''auth.number'', pu_dst_table = ''auth.number'',
     pu_key = ''id'', pu_src_sql_where = [],
     pu_fields =
       [''id'', ''server_id'', ''name'', ''prefixlist_ids'', ''sw_shared''],
     pu_datatype =
       [''id integer'', ''server_id integer'', ''name character varying(50)'', ''prefixlist_ids integer[]'',
        ''sw_shared boolean''] \<rparr>"

definition PullOutcome :: PullSpec where
  "PullOutcome = \<lparr> pu_event = ''outcome'', pu_src_table = ''auth.outcome'', pu_dst_table = ''auth.outcome'',
     pu_key = ''id'', pu_src_sql_where = [],
     pu_fields =
       [''id'', ''server_id'', ''name'', ''calling_station_id'', ''called_station_id'', ''type_id'', ''route_case_id'',
        ''route_case_1_id'', ''route_case_2_id'', ''release_reason_id'', ''airp_id'', ''sw_shared''],
     pu_datatype =
       [''id integer'', ''server_id integer'', ''name character varying(50)'',
        ''calling_station_id character varying(20)'', ''called_station_id character varying(20)'', ''type_id integer'',
        ''route_case_id integer'', ''route_case_1_id integer'', ''route_case_2_id integer'',
        ''release_reason_id integer'', ''airp_id integer'', ''sw_shared boolean''] \<rparr>"

definition PullPrefixlist :: PullSpec where
  "PullPrefixlist = \<lparr> pu_event = ''prefixlist'', pu_src_table = ''auth.prefixlist'', pu_dst_table = ''auth.prefixlist'',
     pu_key = ''id'', pu_src_sql_where = [],
     pu_fields =
       [''id'', ''server_id'', ''name'', ''sw_shared''],
     pu_datatype =
       [''id integer'', ''server_id integer'', ''name character varying(50)'', ''sw_shared boolean''] \<rparr>"

definition PullPrefixlistPrefix :: PullSpec where
  "PullPrefixlistPrefix = \<lparr> pu_event = ''prefixlist_prefix'', pu_src_table = ''auth.prefixlist_prefix'', pu_dst_table = ''auth.prefixlist_prefix'',
     pu_key = [], pu_src_sql_where = [],
     pu_fields =
       [''prefixlist_id'', ''prefix''],
     pu_datatype =
       [''prefixlist_id integer'', ''prefix character varying(20)''] \<rparr>"

definition PullReleaseReason :: PullSpec where
  "PullReleaseReason = \<lparr> pu_event = ''release_reason'', pu_src_table = ''auth.release_reason'', pu_dst_table = ''auth.release_reason'',
     pu_key = ''id'', pu_src_sql_where = [],
     pu_fields =
       [''id'', ''server_id'', ''name'', ''sw_shared''],
     pu_datatype =
       [''id integer'', ''server_id integer'', ''name character varying(50)'', ''sw_shared boolean''] \<rparr>"

definition PullRouteCase :: PullSpec where
  "PullRouteCase = \<lparr> pu_event = ''route_case'', pu_src_table = ''auth.route_case'', pu_dst_table = ''auth.route_case'',
     pu_key = ''id'', pu_src_sql_where = [],
     pu_fields =
       [''id'', ''server_id'', ''name'', ''sw_shared''],
     pu_datatype =
       [''id integer'', ''server_id integer'', ''name character varying(50)'', ''sw_shared boolean''] \<rparr>"

definition PullRouteTable :: PullSpec where
  "PullRouteTable = \<lparr> pu_event = ''route_table'', pu_src_table = ''auth.route_table'', pu_dst_table = ''auth.route_table'',
     pu_key = ''id'', pu_src_sql_where = [],
     pu_fields =
       [''id'', ''server_id'', ''name''],
     pu_datatype =
       [''id integer'', ''server_id integer'', ''name character varying(50)''] \<rparr>"

definition PullRouteTableRoute :: PullSpec where
  "PullRouteTableRoute = \<lparr> pu_event = ''route_table_route'', pu_src_table = ''auth.route_table_route'', pu_dst_table = ''auth.route_table_route'',
     pu_key = [], pu_src_sql_where = [],
     pu_fields =
       [''route_table_id'', ''order'', ''a_number_id'', ''b_number_id'', ''outcome_id'', ''outcome_route_table_id''],
     pu_datatype =
       [''route_table_id integer'', [CHR 0x22] @ ''order'' @ [CHR 0x22] @ '' smallint'', ''a_number_id integer'',
        ''b_number_id integer'', ''outcome_id integer'', ''outcome_route_table_id integer''] \<rparr>"

definition PullRoutingReportData :: PullSpec where
  "PullRoutingReportData = \<lparr> pu_event = ''routing_report_data'', pu_src_table = ''auth.routing_report_data'', pu_dst_table = ''auth.routing_report_data'',
     pu_key = [], pu_src_sql_where = [],
     pu_fields =
       [''prefix'', ''routes''],
     pu_datatype =
       [''prefix character varying(20)'', ''routes integer[]''] \<rparr>"

definition PullTrunk :: PullSpec where
  "PullTrunk = \<lparr> pu_event = ''trunk'', pu_src_table = ''auth.trunk'', pu_dst_table = ''auth.trunk'',
     pu_key = ''id'', pu_src_sql_where = [],
     pu_fields =
       [''id'', ''server_id'', ''trunk_name'', ''trunk_name_alias'', ''code'', ''name'',
        ''source_rule_default_allowed'', ''destination_rule_default_allowed'', ''source_trunk_rule_default_allowed'',
        ''default_priority'', ''auto_routing'', ''route_table_id'', ''our_trunk'', ''auth_by_number'',
        ''orig_redirect_number_7800'', ''orig_redirect_number'', ''term_redirect_number'', ''capacity'',
        ''sw_minimalki'', ''sw_shared'', ''load_warning'', ''tech_trunk'', ''pstn_trunk'', ''road_to_regions''],
     pu_datatype =
       [''id integer'', ''server_id integer'', ''trunk_name character varying(32)'',
        ''trunk_name_alias character varying(32)'', ''code smallint'', ''name character varying(50)'',
        ''source_rule_default_allowed boolean'', ''destination_rule_default_allowed boolean'',
        ''source_trunk_rule_default_allowed boolean'', ''default_priority smallint'', ''auto_routing boolean'',
        ''route_table_id integer'', ''our_trunk boolean'', ''auth_by_number boolean'',
        ''orig_redirect_number_7800 boolean'', ''orig_redirect_number boolean'', ''term_redirect_number boolean'',
        ''capacity integer'', ''sw_minimalki boolean'', ''sw_shared boolean'', ''load_warning integer'',
        ''tech_trunk boolean'', ''pstn_trunk boolean'', ''road_to_regions character varying''] \<rparr>"

definition PullTrunkGroup :: PullSpec where
  "PullTrunkGroup = \<lparr> pu_event = ''trunk_group'', pu_src_table = ''auth.trunk_group'', pu_dst_table = ''auth.trunk_group'',
     pu_key = ''id'', pu_src_sql_where = [],
     pu_fields =
       [''id'', ''server_id'', ''name''],
     pu_datatype =
       [''id integer'', ''server_id integer'', ''name character varying(50)''] \<rparr>"

definition PullTrunkGroupItem :: PullSpec where
  "PullTrunkGroupItem = \<lparr> pu_event = ''trunk_group_item'', pu_src_table = ''auth.trunk_group_item'', pu_dst_table = ''auth.trunk_group_item'',
     pu_key = [], pu_src_sql_where = [],
     pu_fields =
       [''trunk_group_id'', ''trunk_id''],
     pu_datatype =
       [''trunk_group_id integer'', ''trunk_id integer''] \<rparr>"

definition PullTrunkNumberPreprocessing :: PullSpec where
  "PullTrunkNumberPreprocessing = \<lparr> pu_event = ''trunk_number_preprocessing'', pu_src_table = ''auth.trunk_number_preprocessing'', pu_dst_table = ''auth.trunk_number_preprocessing'',
     pu_key = ''id'', pu_src_sql_where = [],
     pu_fields =
       [''id'', ''trunk_id'', ''order'', ''src'', ''noa'', ''length'', ''prefix''],
     pu_datatype =
       [''id integer'', ''trunk_id integer'', [CHR 0x22] @ ''order'' @ [CHR 0x22] @ '' integer'', ''src boolean'',
        ''noa smallint'', ''length smallint'', ''prefix character varying(10)''] \<rparr>"

definition PullTrunkPriority :: PullSpec where
  "PullTrunkPriority = \<lparr> pu_event = ''trunk_priority'', pu_src_table = ''auth.trunk_priority'', pu_dst_table = ''auth.trunk_priority'',
     pu_key = ''id'', pu_src_sql_where = [],
     pu_fields =
       [''id'', ''trunk_id'', ''order'', ''priority'', ''number_id_filter_a'', ''number_id_filter_b'',
        ''trunk_group_id''],
     pu_datatype =
       [''id integer'', ''trunk_id integer'', [CHR 0x22] @ ''order'' @ [CHR 0x22] @ '' smallint'',
        ''priority smallint'', ''number_id_filter_a integer'', ''number_id_filter_b integer'',
        ''trunk_group_id integer''] \<rparr>"

definition PullTrunkRule :: PullSpec where
  "PullTrunkRule = \<lparr> pu_event = ''trunk_rule'', pu_src_table = ''auth.trunk_rule'', pu_dst_table = ''auth.trunk_rule'',
     pu_key = [], pu_src_sql_where = [],
     pu_fields =
       [''trunk_id'', ''outgoing'', ''order'', ''prefixlist_id''],
     pu_datatype =
       [''trunk_id integer'', ''outgoing boolean'', [CHR 0x22] @ ''order'' @ [CHR 0x22] @ '' smallint'',
        ''prefixlist_id integer''] \<rparr>"

definition PullTrunkTrunkRule :: PullSpec where
  "PullTrunkTrunkRule = \<lparr> pu_event = ''trunk_trunk_rule'', pu_src_table = ''auth.trunk_trunk_rule'', pu_dst_table = ''auth.trunk_trunk_rule'',
     pu_key = [], pu_src_sql_where = [],
     pu_fields =
       [''trunk_id'', ''order'', ''trunk_group_id'', ''number_id_filter_a'', ''number_id_filter_b''],
     pu_datatype =
       [''trunk_id integer'', [CHR 0x22] @ ''order'' @ [CHR 0x22] @ '' smallint'', ''trunk_group_id integer'',
        ''number_id_filter_a integer'', ''number_id_filter_b integer''] \<rparr>"

definition NNPAccountTariffLightPull :: PullSpec where
  "NNPAccountTariffLightPull = \<lparr> pu_event = ''nnp_account_tariff_light'', pu_src_table = ''nnp.account_tariff_light'', pu_dst_table = ''nnp.account_tariff_light'',
     pu_key = ''id'', pu_src_sql_where = [],
     pu_fields =
       [''id'', ''account_tariff_id'', ''account_client_id'', ''tariff_id'', ''activate_from'', ''deactivate_from'',
        ''coefficient'', ''price'', ''service_type_id''],
     pu_datatype =
       [''id integer'', ''account_tariff_id integer'', ''account_client_id integer'', ''tariff_id integer'',
        ''activate_from timestamp'', ''deactivate_from timestamp'', ''coefficient real'', ''price double precision'',
        ''service_type_id integer''] \<rparr>"

definition NNPNumberRangePrefixPull :: PullSpec where
  "NNPNumberRangePrefixPull = \<lparr> pu_event = ''nnp_number_range_prefix'', pu_src_table = ''nnp.number_range_prefix'', pu_dst_table = ''nnp.number_range_prefix'',
     pu_key = ''prefix_id'', pu_src_sql_where = [],
     pu_fields =
       [''prefix_id'', ''number_range_id'', ''insert_time'', ''insert_user_id''],
     pu_datatype =
       [''prefix_id integer'', ''number_range_id integer'', ''insert_time timestamp(0)'', ''insert_user_id integer''] \<rparr>"

definition NNPOperatorPull :: PullSpec where
  "NNPOperatorPull = \<lparr> pu_event = ''nnp_operator'', pu_src_table = ''nnp.operator'', pu_dst_table = ''nnp.operator'',
     pu_key = ''id'', pu_src_sql_where = [],
     pu_fields =
       [''id'', ''name''],
     pu_datatype =
       [''id integer'', ''name character varying(255)''] \<rparr>"

definition NNPPackagePricelistPull :: PullSpec where
  "NNPPackagePricelistPull = \<lparr> pu_event = ''nnp_package_pricelist'', pu_src_table = ''nnp.package_pricelist'', pu_dst_table = ''nnp.package_pricelist'',
     pu_key = ''id'', pu_src_sql_where = [],
     pu_fields =
       [''id'', ''tariff_id'', ''pricelist_id''],
     pu_datatype =
       [''id integer'', ''tariff_id integer'', ''pricelist_id integer''] \<rparr>"

definition NNPPackagePull :: PullSpec where
  "NNPPackagePull = \<lparr> pu_event = ''nnp_package'', pu_src_table = ''nnp.package'', pu_dst_table = ''nnp.package'',
     pu_key = ''tariff_id'', pu_src_sql_where = [],
     pu_fields =
       [''tariff_id'', ''service_type_id'', ''tarification_free_seconds'', ''tarification_interval_seconds'',
        ''tarification_type'', ''tarification_min_paid_seconds'', ''currency_id'', ''is_include_vat''],
     pu_datatype =
       [''tariff_id integer'', ''service_type_id integer'', ''tarification_free_seconds integer'',
        ''tarification_interval_seconds integer'', ''tarification_type integer'',
        ''tarification_min_paid_seconds integer'', ''currency_id character(3)'', ''is_include_vat boolean''] \<rparr>"

definition NNPPrefixPull :: PullSpec where
  "NNPPrefixPull = \<lparr> pu_event = ''nnp_prefix'', pu_src_table = ''nnp.prefix'', pu_dst_table = ''nnp.prefix'',
     pu_key = ''id'', pu_src_sql_where = [],
     pu_fields =
       [''id'', ''name''],
     pu_datatype =
       [''id integer'', ''name character varying(255)''] \<rparr>"

definition NNPDestinationPull :: PullSpec where
  "NNPDestinationPull = \<lparr> pu_event = ''nnp_destination'', pu_src_table = ''nnp.destination'', pu_dst_table = ''nnp.destination'',
     pu_key = ''id'', pu_src_sql_where = [],
     pu_fields =
       [''id'', ''name''],
     pu_datatype =
       [''id integer'', ''name character varying(255)''] \<rparr>"

definition NNPNumberRangePull :: PullSpec where
  "NNPNumberRangePull = \<lparr> pu_event = ''nnp_number_range'', pu_src_table = ''nnp.number_range'', pu_dst_table = ''nnp.number_range'',
     pu_key = ''id'', pu_src_sql_where = [],
     pu_fields =
       [''id'', ''country_prefix'', ''country_code'', ''ndc'', ''number_from'', ''number_to'', ''is_mob'',
        ''is_active'', ''operator_id'', ''region_id'', ''insert_time'', ''insert_user_id'', ''update_time'',
        ''update_user_id'', ''city_id'', ''full_number_from'', ''full_number_to'', ''ndc_type_id''],
     pu_datatype =
       [''id integer'', ''country_prefix integer'', ''country_code integer'', ''ndc integer'', ''number_from integer'',
        ''number_to integer'', ''is_mob boolean'', ''is_active boolean'', ''operator_id integer'',
        ''region_id integer'', ''insert_time timestamp(0)'', ''insert_user_id integer'', ''update_time timestamp(0)'',
        ''update_user_id integer'', ''city_id integer'', ''full_number_from bigint'', ''full_number_to bigint'',
        ''ndc_type_id integer''] \<rparr>"

definition NNPPackageMinutePull :: PullSpec where
  "NNPPackageMinutePull = \<lparr> pu_event = ''nnp_package_minute'', pu_src_table = ''nnp.package_minute'', pu_dst_table = ''nnp.package_minute'',
     pu_key = ''id'', pu_src_sql_where = [],
     pu_fields =
       [''id'', ''tariff_id'', ''destination_id'', ''minute''],
     pu_datatype =
       [''id integer'', ''tariff_id integer'', ''destination_id integer'', ''minute integer''] \<rparr>"

definition NNPPackagePricePull :: PullSpec where
  "NNPPackagePricePull = \<lparr> pu_event = ''nnp_package_price'', pu_src_table = ''nnp.package_price'', pu_dst_table = ''nnp.package_price'',
     pu_key = ''id'', pu_src_sql_where = [],
     pu_fields =
       [''id'', ''tariff_id'', ''destination_id'', ''price'', ''interconnect_price''],
     pu_datatype =
       [''id integer'', ''tariff_id integer'', ''destination_id integer'', ''price double precision'',
        ''interconnect_price double precision''] \<rparr>"

definition NNPPrefixDestinatioPull :: PullSpec where
  "NNPPrefixDestinatioPull = \<lparr> pu_event = ''nnp_prefix_destination'', pu_src_table = ''nnp.prefix_destination'', pu_dst_table = ''nnp.prefix_destination'',
     pu_key = ''prefix_id'', pu_src_sql_where = [],
     pu_fields =
       [''prefix_id'', ''destination_id'', ''is_addition'', ''insert_time'', ''insert_user_id''],
     pu_datatype =
       [''prefix_id integer'', ''destination_id integer'', ''is_addition boolean'', ''insert_time timestamp(0)'',
        ''insert_user_id integer''] \<rparr>"

definition NNPRegionPull :: PullSpec where
  "NNPRegionPull = \<lparr> pu_event = ''nnp_region'', pu_src_table = ''nnp.region'', pu_dst_table = ''nnp.region'',
     pu_key = ''id'', pu_src_sql_where = [],
     pu_fields =
       [''id'', ''name''],
     pu_datatype =
       [''id integer'', ''name character varying(255)''] \<rparr>"

definition NNPCountryCodePull :: PullSpec where
  "NNPCountryCodePull = \<lparr> pu_event = ''nnp_country'', pu_src_table = ''nnp.country'', pu_dst_table = ''nnp.country'',
     pu_key = ''code'', pu_src_sql_where = [],
     pu_fields =
       [''code'', ''name'', ''name_rus'', ''prefix'', ''prefixes''],
     pu_datatype =
       [''code integer'', ''name varchar'', ''name_rus varchar'', ''prefix integer'', ''prefixes integer[]''] \<rparr>"

definition PullPricelist :: "bool \<Rightarrow> string \<Rightarrow> PullSpec" where
  "PullPricelist api_host regions = \<lparr> pu_event = ''pricelist'', pu_src_table = ''voip.pricelist'', pu_dst_table = ''billing.pricelist'',
     pu_key = ''id'', pu_src_sql_where = (if api_host then [] else '' ( region  in '' @ regions @ '' or is_global ) ''),
     pu_fields =
       [''id'', ''region'', ''tariffication_by_minutes'', ''tariffication_full_first_minute'', ''orig'', ''local'',
        ''local_network_config_id'', ''initiate_mgmn_cost'', ''initiate_zona_cost'', ''price_include_vat'',
        ''currency_id''],
     pu_datatype =
       [''id smallint'', ''region smallint'', ''tariffication_by_minutes boolean'',
        ''tariffication_full_first_minute boolean'', ''orig boolean'', ''local boolean'',
        ''local_network_config_id integer'', ''initiate_mgmn_cost numeric(8,2)'', ''initiate_zona_cost numeric(8,2)'',
        ''price_include_vat boolean'', ''currency_id character(3)''] \<rparr>"

text \<open>The constructor of \<open>ThreadSync\<close> registers them in this order.\<close>

definition all_pulls :: "bool \<Rightarrow> string \<Rightarrow> PullSpec list" where
  "all_pulls api_host regions =
     [PullClient, PullOrganization, PullGeo, PullMobPrefix, PullGeoPrefix, PullInstance, PullNetworkPrefix,
      PullOperator, PullPricelist api_host regions, PullTariff, PullTariffPackage, PullDefs api_host regions,
      PullServiceNumber, PullServicePackage, PullServiceTrunk, PullServiceTrunkSettings, PullLogTariff,
      PullStatPrefixlist, PullStatDestinationPrefixlists, PullCurrencyRate, PullServer, PullHub, PullAirp,
      PullNumber, PullOutcome, PullPrefixlist, PullPrefixlistPrefix, PullReleaseReason, PullRouteCase,
      PullRouteTable, PullRouteTableRoute, PullRoutingReportData, PullTrunk, PullTrunkGroup, PullTrunkGroupItem,
      PullTrunkNumberPreprocessing, PullTrunkPriority, PullTrunkRule, PullTrunkTrunkRule,
      NNPAccountTariffLightPull, NNPNumberRangePrefixPull, NNPOperatorPull, NNPPackagePricelistPull,
      NNPPackagePull, NNPPrefixPull, NNPDestinationPull, NNPNumberRangePull, NNPPackageMinutePull,
      NNPPackagePricePull, NNPPrefixDestinatioPull, NNPRegionPull, NNPCountryCodePull]"

lemmas pull_tables_defs = PullClient_def PullOrganization_def PullGeo_def PullMobPrefix_def PullGeoPrefix_def
  PullInstance_def PullNetworkPrefix_def PullOperator_def PullPricelist_def PullTariff_def
  PullTariffPackage_def PullDefs_def PullServiceNumber_def PullServicePackage_def PullServiceTrunk_def
  PullServiceTrunkSettings_def PullLogTariff_def PullStatPrefixlist_def PullStatDestinationPrefixlists_def PullCurrencyRate_def
  PullServer_def PullHub_def PullAirp_def PullNumber_def PullOutcome_def
  PullPrefixlist_def PullPrefixlistPrefix_def PullReleaseReason_def PullRouteCase_def PullRouteTable_def
  PullRouteTableRoute_def PullRoutingReportData_def PullTrunk_def PullTrunkGroup_def PullTrunkGroupItem_def
  PullTrunkNumberPreprocessing_def PullTrunkPriority_def PullTrunkRule_def PullTrunkTrunkRule_def NNPAccountTariffLightPull_def
  NNPNumberRangePrefixPull_def NNPOperatorPull_def NNPPackagePricelistPull_def NNPPackagePull_def NNPPrefixPull_def
  NNPDestinationPull_def NNPNumberRangePull_def NNPPackageMinutePull_def NNPPackagePricePull_def NNPPrefixDestinatioPull_def
  NNPRegionPull_def NNPCountryCodePull_def

end
