(* ===== verification/Pull_Manager.thy ===== *)
theory Pull_Manager
  imports Pull_Tables
begin

text \<open>
  \<^verbatim>\<open>sync/BasePull.cpp\<close> and \<^verbatim>\<open>sync/ManagerPull.cpp\<close>: the local tables are kept equal to the central ones by a queue of
  events in the central data base. \<open>ManagerPull::pull\<close> reads the queue, notes for every table which rows to fetch,
  replaces them in one transaction per table and then removes the events of that table from the queue.
  A row is a map from fields to values, a data base a map from tables to rows; the queue has the rows of the regions of
  this instance. \<open>sql text r\<close>, a parameter, says whether a row meets the condition of a \<open>where\<close> clause at the moment
  the statement runs. The clause of \<open>PullDefs\<close> reads the clock and the table \<open>voip.pricelist\<close>, so a step may take any of the set
  \<open>sqls\<close> of the conditions that the clauses amount to in the course of the run; a clause that only looks at the row, as that of
  \<open>PullPricelist\<close>, means the same under all of them, and a table without clause is not filtered at all. What others do to the central tables between two statements is the step \<open>change\<close>:
  the triggers there put an event with a new version into the queue for everything they change. A query of the queue
  that fails ends the round before it has changed anything but unknown events. Timers and the numbers shown on pages only
  (\<open>event_count\<close>, \<open>pull_count_errors\<close>) are left out.
\<close>

type_synonym table_row = "string \<Rightarrow> string option"

type_synonym tables = "string \<Rightarrow> table_row list"

type_synonym row_condition = "string \<Rightarrow> table_row \<Rightarrow> bool"

section \<open>One table\<close>

record BasePull =
  bp_spec :: PullSpec
  bp_need_pull :: bool
  bp_full_pull :: bool
  bp_ids_to_pull :: "string list"
  bp_pull_count_full :: nat
  bp_pull_count_partial :: nat

definition BasePull_new :: "PullSpec \<Rightarrow> BasePull" where
  "BasePull_new p = \<lparr> bp_spec = p, bp_need_pull = False, bp_full_pull = False, bp_ids_to_pull = [],
     bp_pull_count_full = 0, bp_pull_count_partial = 0 \<rparr>"

abbreviation bp_event :: "BasePull \<Rightarrow> string" where
  "bp_event b \<equiv> pu_event (bp_spec b)"

definition bp_clear :: "BasePull \<Rightarrow> BasePull" where
  "bp_clear b = b\<lparr> bp_need_pull := False, bp_full_pull := (pu_key (bp_spec b) = []), bp_ids_to_pull := [] \<rparr>"

definition addId :: "string \<Rightarrow> BasePull \<Rightarrow> BasePull" where
  "addId i b =
     (let b1 = b\<lparr> bp_need_pull := True \<rparr> in
      if \<not> bp_full_pull b1 then
        (if i = ''0'' then b1\<lparr> bp_full_pull := True \<rparr> else b1\<lparr> bp_ids_to_pull := insort_insert i (bp_ids_to_pull b1) \<rparr>)
      else b1)"

definition project :: "PullSpec \<Rightarrow> table_row \<Rightarrow> table_row" where
  "project p r = (\<lambda>f. if f \<in> set (pu_fields p) then r f else None)"

definition where_ok :: "row_condition \<Rightarrow> PullSpec \<Rightarrow> table_row \<Rightarrow> bool" where
  "where_ok sql p r \<longleftrightarrow> pu_src_sql_where p = [] \<or> sql (pu_src_sql_where p) r"

definition key_in :: "PullSpec \<Rightarrow> string list \<Rightarrow> table_row \<Rightarrow> bool" where
  "key_in p ids r \<longleftrightarrow> (case r (pu_key p) of Some k \<Rightarrow> k \<in> set ids | None \<Rightarrow> False)"

definition pullFull :: "row_condition \<Rightarrow> tables \<Rightarrow> BasePull \<Rightarrow> tables \<Rightarrow> BasePull \<times> tables" where
  "pullFull sql src b dst =
     (let p = bp_spec b;
          rows = (if pu_datatype p \<noteq> [] then filter (where_ok sql p) (src (pu_src_table p)) else src (pu_src_table p))
      in (b\<lparr> bp_pull_count_full := bp_pull_count_full b + 1 \<rparr>, dst(pu_dst_table p := map (project p) rows)))"

text \<open>At its end \<open>pullPartial\<close> looks for the name of the key among the identifiers and removes it.\<close>

definition pullPartial :: "row_condition \<Rightarrow> tables \<Rightarrow> BasePull \<Rightarrow> tables \<Rightarrow> BasePull \<times> tables" where
  "pullPartial sql src b dst =
     (let p = bp_spec b; ids = bp_ids_to_pull b;
          kept = filter (\<lambda>r. \<not> key_in p ids r) (dst (pu_dst_table p));
          rows = filter (\<lambda>r. key_in p ids r \<and> where_ok sql p r) (src (pu_src_table p))
      in (b\<lparr> bp_ids_to_pull := filter (\<lambda>i. i \<noteq> pu_key p) ids, bp_pull_count_partial := bp_pull_count_partial b + 1 \<rparr>,
          dst(pu_dst_table p := kept @ map (project p) rows)))"

definition bp_pull :: "row_condition \<Rightarrow> tables \<Rightarrow> BasePull \<Rightarrow> tables \<Rightarrow> BasePull \<times> tables" where
  "bp_pull sql src b dst =
     (if \<not> bp_need_pull b then (b, dst)
      else if bp_full_pull b then pullFull sql src b dst
      else pullPartial sql src b dst)"

section \<open>The manager\<close>

record EventRow =
  ev_server_id :: int
  ev_event :: string
  ev_param :: string
  ev_version :: int

text \<open>\<open>pulls\<close> is a map by the name of the event; \<open>insert\<close> keeps an entry that is there.\<close>

fun manager_add :: "BasePull list \<Rightarrow> PullSpec \<Rightarrow> BasePull list" where
  "manager_add [] p = [BasePull_new p]"
| "manager_add (b # bs) p =
     (if pu_event p < bp_event b then BasePull_new p # b # bs
      else if pu_event p = bp_event b then b # bs
      else b # manager_add bs p)"

definition manager_pulls :: "bool \<Rightarrow> string \<Rightarrow> BasePull list" where
  "manager_pulls api_host regions = foldl manager_add [] (all_pulls api_host regions)"

datatype PullPhase =
    PullWaiting
  | Pulling "string list" int
  | Deleting string "string list" int

text \<open>\<open>ms_overflow\<close> is not in the program: it records that once more events waited than one part takes.\<close>

record PullSystem =
  ms_src :: tables
  ms_dst :: tables
  ms_queue :: "EventRow list"
  ms_last_version :: int
  ms_pulls :: "BasePull list"
  ms_errors_count :: nat
  ms_phase :: PullPhase
  ms_overflow :: bool

definition select_events :: "EventRow list \<Rightarrow> EventRow list" where
  "select_events queue =
     std_sort (\<lambda>l r. ev_server_id l < ev_server_id r \<or> ev_server_id l = ev_server_id r \<and> ev_version l < ev_version r) queue"

definition clearPulls :: "BasePull list \<Rightarrow> BasePull list" where
  "clearPulls = map bp_clear"

definition add_event :: "BasePull list \<Rightarrow> EventRow \<Rightarrow> BasePull list" where
  "add_event pulls q = map (\<lambda>b. if bp_event b = ev_event q then addId (ev_param q) b else b) pulls"

definition known_event :: "BasePull list \<Rightarrow> string \<Rightarrow> bool" where
  "known_event pulls e \<longleftrightarrow> e \<in> bp_event ` set pulls"

text \<open>The beginning of a round, when there are events. Only the first \<open>part_size\<close> are looked at, but \<open>res.last()\<close> in the
  condition moves to the last row of the whole answer, and the version is read there.\<close>

definition pull_read :: "nat \<Rightarrow> PullSystem \<Rightarrow> PullSystem" where
  "pull_read part_size s =
     (let rows = select_events (ms_queue s); part = take part_size rows;
          unknown = filter (\<lambda>e. \<not> known_event (ms_pulls s) e) (map ev_event part)
      in s\<lparr> ms_pulls := foldl add_event (clearPulls (ms_pulls s)) part,
            ms_queue := filter (\<lambda>q. ev_event q \<notin> set unknown) (ms_queue s),
            ms_phase := Pulling (map bp_event (ms_pulls s)) (ev_version (last rows)),
            ms_overflow := (ms_overflow s \<or> part_size < length rows) \<rparr>)"

definition pull_one :: "row_condition \<Rightarrow> string \<Rightarrow> string list \<Rightarrow> int \<Rightarrow> PullSystem \<Rightarrow> PullSystem" where
  "pull_one sql e rest version s =
     (case List.find (\<lambda>b. bp_event b = e) (ms_pulls s) of
        None \<Rightarrow> s
      | Some b \<Rightarrow> (case bp_pull sql (ms_src s) b (ms_dst s) of (b', dst') \<Rightarrow>
          s\<lparr> ms_pulls := map (\<lambda>c. if bp_event c = e then b' else c) (ms_pulls s), ms_dst := dst',
             ms_phase := Deleting e rest version \<rparr>))"

definition delete_events :: "string \<Rightarrow> string list \<Rightarrow> int \<Rightarrow> PullSystem \<Rightarrow> PullSystem" where
  "delete_events e rest version s =
     s\<lparr> ms_queue := filter (\<lambda>q. \<not> (ev_event q = e \<and> ev_version q \<le> version)) (ms_queue s), ms_phase := Pulling rest version \<rparr>"

definition pull_failed :: "string list \<Rightarrow> int \<Rightarrow> PullSystem \<Rightarrow> PullSystem" where
  "pull_failed rest version s = s\<lparr> ms_errors_count := ms_errors_count s + 1, ms_phase := Pulling rest version \<rparr>"

text \<open>A round without failures and with nobody else at work, and rounds until the queue is empty.\<close>

fun pull_all :: "row_condition \<Rightarrow> string list \<Rightarrow> int \<Rightarrow> PullSystem \<Rightarrow> PullSystem" where
  "pull_all sql [] version s = s\<lparr> ms_phase := PullWaiting \<rparr>"
| "pull_all sql (e # rest) version s = pull_all sql rest version (delete_events e rest version (pull_one sql e rest version s))"

definition pull_round :: "nat \<Rightarrow> row_condition \<Rightarrow> PullSystem \<Rightarrow> PullSystem" where
  "pull_round part_size sql s =
     pull_all sql (map bp_event (ms_pulls s)) (ev_version (last (select_events (ms_queue s)))) (pull_read part_size s)"

section \<open>Changes meanwhile\<close>

text \<open>The rows of a key; a table without key is one group of rows.\<close>

definition of_key :: "PullSpec \<Rightarrow> string \<Rightarrow> table_row \<Rightarrow> bool" where
  "of_key p k r \<longleftrightarrow> pu_key p = [] \<or> r (pu_key p) = Some k"

definition concerns :: "PullSpec \<Rightarrow> string \<Rightarrow> EventRow \<Rightarrow> bool" where
  "concerns p k q \<longleftrightarrow> ev_event q = pu_event p \<and> (pu_key p = [] \<or> ev_param q = k \<or> ev_param q = ''0'')"

text \<open>What the triggers promise: every change of the rows of a key is announced by a new event, and an event
  disappears only when a new one takes its place.\<close>

definition announced :: "BasePull list \<Rightarrow> tables \<Rightarrow> tables \<Rightarrow> EventRow list \<Rightarrow> EventRow list \<Rightarrow> EventRow list \<Rightarrow> bool" where
  "announced pulls src src' queue queue' news \<longleftrightarrow>
     set queue' \<subseteq> set queue \<union> set news \<and> set news \<subseteq> set queue' \<and>
     (\<forall>q \<in> set queue. q \<in> set queue' \<or> (\<exists>n \<in> set news. ev_event n = ev_event q \<and> ev_param n = ev_param q)) \<and>
     (\<forall>b \<in> set pulls. \<forall>k. filter (of_key (bp_spec b) k) (src' (pu_src_table (bp_spec b))) =
          filter (of_key (bp_spec b) k) (src (pu_src_table (bp_spec b))) \<or> (\<exists>n \<in> set news. concerns (bp_spec b) k n))"

inductive pull_step :: "nat \<Rightarrow> row_condition set \<Rightarrow> PullSystem \<Rightarrow> PullSystem \<Rightarrow> bool" for part_size sqls where
  change: "announced (ms_pulls s) (ms_src s) src' (ms_queue s) queue' news \<Longrightarrow> (\<forall>n \<in> set news. ms_last_version s < ev_version n \<and> ev_version n \<le> version') \<Longrightarrow>
    ms_last_version s \<le> version' \<Longrightarrow>
    pull_step part_size sqls s (s\<lparr> ms_src := src', ms_queue := queue', ms_last_version := version' \<rparr>)"
| read: "ms_phase s = PullWaiting \<Longrightarrow> ms_queue s \<noteq> [] \<Longrightarrow> pull_step part_size sqls s (pull_read part_size s)"
| pull: "ms_phase s = Pulling (e # rest) version \<Longrightarrow> sql \<in> sqls \<Longrightarrow> pull_step part_size sqls s (pull_one sql e rest version s)"
| pull_fails: "ms_phase s = Pulling (e # rest) version \<Longrightarrow> pull_step part_size sqls s (pull_failed rest version s)"
| delete: "ms_phase s = Deleting e rest version \<Longrightarrow> pull_step part_size sqls s (delete_events e rest version s)"
| delete_fails: "ms_phase s = Deleting e rest version \<Longrightarrow> pull_step part_size sqls s (pull_failed rest version s)"
| finish: "ms_phase s = Pulling [] version \<Longrightarrow> pull_step part_size sqls s (s\<lparr> ms_phase := PullWaiting \<rparr>)"

end
