(* ===== verification/Data_Loader.thy ===== *)
theory Data_Loader
  imports Pull_Manager
begin

text \<open>
  \<^verbatim>\<open>threads/ThreadLoader.cpp\<close>, \<^verbatim>\<open>data/DataContainer.cpp\<close> and \<^verbatim>\<open>threads/ThreadUpdateActiveClients.cpp\<close>: the lists in memory
  are loaded from the local tables, all of them at the start and later those an event in the local queue asks for. A list
  is known by the name of its member of \<open>DataContainer\<close>. Parameters: \<open>query l now db\<close>, what the query of the list \<open>l\<close>
  gives at the time \<open>now\<close> (two queries read the clock); \<open>counting now old numbers trunks\<close>, \<open>ActiveCounter::load\<close>, which adds the services
  of the two lists that are active now to what the counter \<open>old\<close> has, if there is one; \<open>local_event t\<close>, the event the trigger of the
  table \<open>t\<close> puts into the queue. The clocks of the program and of the data base are taken to be one, and a recount of the active services to be one step. The loading of the
  counters, which \<open>prepare\<close> does first, is modelled with the counters.
\<close>

section \<open>The lists\<close>

text \<open>\<open>DataContainer::loadAll\<close>, and the branches of \<open>ThreadLoader::run\<close>; another event loads nothing.\<close>

definition loadAll_lists :: "string list" where
  "loadAll_lists =
     [''server'', ''instanceSettings'', ''hub'', ''airp'', ''number'', ''outcome'', ''prefixlist'',
      ''prefixlistPrefix'', ''releaseReason'', ''routeCase'', ''routeTable'', ''routeTableRoute'', ''trunk'',
      ''trunkGroup'', ''trunkGroupItem'', ''trunkByName'', ''trunkByAlias'', ''trunkNumberPreprocessing'',
      ''trunkPriority'', ''trunkRule'', ''trunkTrunkRule'', ''client'', ''organization'', ''voipOperator'',
      ''pricelist'', ''pricelistPrice'', ''networkPrefix'', ''geo'', ''mobPrefix'', ''geoPrefix'', ''serviceNumber'',
      ''serviceNumberByTechNumber'', ''serviceNumberPackage'', ''serviceTrunk'', ''serviceTrunkPackage'',
      ''serviceTrunkSettings'', ''tariff'', ''tariffPackage'', ''tariffChangeLog'', ''statDestinationPrefixlists'',
      ''statPrefixlist'', ''currencyRate'', ''activeCounter'', ''nnpDestination'', ''nnpNumberRangePrefix'',
      ''nnpPackage'', ''nnpPackagePrice'', ''nnpPrefix'', ''nnpRegion'', ''nnpNumberRange'', ''nnpOperator'',
      ''nnpPackageMinute'', ''nnpPackagePricelist'', ''nnpPrefixDestination'', ''nnpAccountTariffLight'',
      ''nnpCountry'']"

definition event_handlers :: "(string \<times> string list) list" where
  "event_handlers =
     [(''clients'', [''client'']),
      (''airp'', [''airp'']),
      (''number'', [''number'']),
      (''outcome'', [''outcome'']),
      (''prefixlist'', [''prefixlist'']),
      (''prefixlist_prefix'', [''prefixlistPrefix'']),
      (''release_reason'', [''releaseReason'']),
      (''route_case'', [''routeCase'']),
      (''route_table'', [''routeTable'']),
      (''route_table_route'', [''routeTableRoute'']),
      (''routing_report_data'', []),
      (''trunk'', [''trunk'', ''trunkByName'', ''trunkByAlias'']),
      (''trunk_group'', [''trunkGroup'']),
      (''trunk_group_item'', [''trunkGroupItem'']),
      (''trunk_number_preprocessing'', [''trunkNumberPreprocessing'']),
      (''trunk_priority'', [''trunkPriority'']),
      (''trunk_rule'', [''trunkRule'']),
      (''trunk_trunk_rule'', [''trunkTrunkRule'']),
      (''defs'', [''pricelistPrice'']),
      (''geo'', [''geo'']),
      (''prefix'', [''geoPrefix'']),
      (''mob_prefix'', [''mobPrefix'']),
      (''instance_settings'', [''instanceSettings'']),
      (''hub'', [''hub'']),
      (''network_prefix'', [''networkPrefix'']),
      (''organization'', [''organization'']),
      (''operator'', [''voipOperator'']),
      (''pricelist'', [''pricelist'']),
      (''service_number'', [''client'', ''serviceNumber'', ''activeCounter'', ''serviceNumberByTechNumber'']),
      (''service_trunk'', [''client'', ''serviceTrunk'', ''activeCounter'']),
      (''service_trunk_settings'', [''serviceTrunkSettings'']),
      (''service_package'', [''serviceNumberPackage'', ''serviceTrunkPackage'']),
      (''tariff'', [''tariff'']),
      (''tariff_change_log'', [''tariffChangeLog'']),
      (''tariff_package'', [''tariffPackage'']),
      (''stat_destination_prefixlists'', [''statDestinationPrefixlists'']),
      (''stat_prefixlist'', [''statPrefixlist'']),
      (''server'', [''server'']),
      (''currency_rate'', [''currencyRate'']),
      (''nnp_account_tariff_light'', [''nnpAccountTariffLight'']),
      (''nnp_destination'', [''nnpDestination'']),
      (''nnp_number_range_prefix'', [''nnpNumberRangePrefix'']),
      (''nnp_number_range'', [''nnpNumberRange'']),
      (''nnp_operator'', [''nnpOperator'']),
      (''nnp_package_minute'', [''nnpPackageMinute'']),
      (''nnp_package_pricelist'', [''nnpPackagePricelist'']),
      (''nnp_package_price'', [''nnpPackagePrice'']),
      (''nnp_package'', [''nnpPackage'']),
      (''nnp_prefix_destination'', [''nnpPrefixDestination'']),
      (''nnp_prefix'', [''nnpPrefix'']),
      (''nnp_region'', [''nnpRegion'']),
      (''nnp_country'', [''nnpCountry''])]"

definition event_lists :: "string \<Rightarrow> string list" where
  "event_lists e = (case map_of event_handlers e of Some ls \<Rightarrow> ls | None \<Rightarrow> [])"

text \<open>The tables in the queries of the lists.\<close>

definition list_queries :: "(string \<times> string list) list" where
  "list_queries =
     [(''server'', [''public.server'']),
      (''instanceSettings'', [''billing.instance_settings'']),
      (''hub'', [''auth.hub'']),
      (''airp'', [''auth.airp'']),
      (''number'', [''auth.number'']),
      (''outcome'', [''auth.outcome'']),
      (''prefixlist'', [''auth.prefixlist'']),
      (''prefixlistPrefix'', [''auth.prefixlist_prefix'']),
      (''releaseReason'', [''auth.release_reason'']),
      (''routeCase'', [''auth.route_case'']),
      (''routeTable'', [''auth.route_table'']),
      (''routeTableRoute'', [''auth.route_table_route'']),
      (''trunk'', [''auth.trunk'']),
      (''trunkGroup'', [''auth.trunk_group'']),
      (''trunkGroupItem'', [''auth.trunk_group_item'']),
      (''trunkByName'', [''auth.trunk'']),
      (''trunkByAlias'', [''auth.trunk'']),
      (''trunkNumberPreprocessing'', [''auth.trunk_number_preprocessing'']),
      (''trunkPriority'', [''auth.trunk_priority'']),
      (''trunkRule'', [''auth.trunk_rule'']),
      (''trunkTrunkRule'', [''auth.trunk_trunk_rule'']),
      (''client'', [''billing.clients'', ''billing.service_number'', ''billing.service_trunk'']),
      (''organization'', [''billing.organization'']),
      (''voipOperator'', [''billing.operator'']),
      (''pricelist'', [''billing.pricelist'']),
      (''pricelistPrice'', [''billing.defs'']),
      (''networkPrefix'', [''billing.network_prefix'']),
      (''geo'', [''geo.geo'']),
      (''mobPrefix'', [''geo.mob_prefix'']),
      (''geoPrefix'', [''geo.prefix'']),
      (''serviceNumber'', [''billing.service_number'']),
      (''serviceNumberByTechNumber'', [''billing.service_number'']),
      (''serviceNumberPackage'', [''billing.service_package'']),
      (''serviceTrunk'', [''billing.service_trunk'']),
      (''serviceTrunkPackage'', [''billing.service_package'']),
      (''serviceTrunkSettings'', [''billing.service_trunk_settings'']),
      (''tariff'', [''billing.tariff'']),
      (''tariffPackage'', [''billing.tariff_package'']),
      (''tariffChangeLog'', [''billing.tariff_change_log'']),
      (''statDestinationPrefixlists'', [''billing.stat_destination_prefixlists'']),
      (''statPrefixlist'', [''billing.stat_prefixlist'']),
      (''currencyRate'', [''billing.currency_rate'']),
      (''nnpDestination'', [''nnp.destination'']),
      (''nnpNumberRangePrefix'', [''nnp.number_range_prefix'']),
      (''nnpPackage'', [''nnp.package'']),
      (''nnpPackagePrice'', [''nnp.package_price'']),
      (''nnpPrefix'', [''nnp.prefix'']),
      (''nnpRegion'', [''nnp.region'']),
      (''nnpNumberRange'', [''nnp.number_range'']),
      (''nnpOperator'', [''nnp.operator'']),
      (''nnpPackageMinute'', [''nnp.package_minute'']),
      (''nnpPackagePricelist'', [''nnp.package_pricelist'']),
      (''nnpPrefixDestination'', [''nnp.prefix_destination'']),
      (''nnpAccountTariffLight'', [''nnp.account_tariff_light'']),
      (''nnpCountry'', [''nnp.country''])]"

definition list_tables :: "string \<Rightarrow> string list" where
  "list_tables l = (case map_of list_queries l of Some ls \<Rightarrow> ls | None \<Rightarrow> [])"

text \<open>The lists whose queries read the clock: \<open>ClientList\<close> with \<open>now()\<close>, \<open>CurrencyRateList\<close> with the present day in Moscow.\<close>

definition clock_lists :: "string list" where
  "clock_lists = [''client'', ''currencyRate'']"

text \<open>The function \<open>event.tr_notify\<close> of the local triggers announces the name of the table without its schema
  (\<^verbatim>\<open>install/sql/newpackages.lev1/02-nnp_event_notify_local.sql\<close>).\<close>

definition table_event :: "string \<Rightarrow> string" where
  "table_event t = tl (dropWhile (\<lambda>c. c \<noteq> CHR ''.'') t)"

section \<open>Loading\<close>

record LocalEvent =
  le_event :: string
  le_version :: int

datatype LoaderPhase =
    Unprepared
  | Preparing "string list"
  | LoaderIdle
  | Loading "string list" LocalEvent "LocalEvent list"

record 'c LoaderSystem =
  ld_db :: tables
  ld_lists :: "string \<Rightarrow> 'c option"
  ld_queue :: "LocalEvent list"
  ld_last_version :: int
  ld_phase :: LoaderPhase
  ld_now :: int

type_synonym 'c list_query = "string \<Rightarrow> int \<Rightarrow> tables \<Rightarrow> 'c"

type_synonym 'c active_counting = "int \<Rightarrow> 'c option \<Rightarrow> 'c option \<Rightarrow> 'c option \<Rightarrow> 'c"

definition count_active :: "'c active_counting \<Rightarrow> 'c option \<Rightarrow> 'c LoaderSystem \<Rightarrow> 'c" where
  "count_active counting old s = counting (ld_now s) old (ld_lists s ''serviceNumber'') (ld_lists s ''serviceTrunk'')"

definition list_load :: "'c list_query \<Rightarrow> 'c active_counting \<Rightarrow> string \<Rightarrow> 'c LoaderSystem \<Rightarrow> 'c LoaderSystem" where
  "list_load query counting l s =
     s\<lparr> ld_lists := (ld_lists s)(l := Some
         (if l = ''activeCounter'' then count_active counting None s else query l (ld_now s) (ld_db s))) \<rparr>"

text \<open>\<open>ThreadUpdateActiveClients::run\<close>, once the lists are there: it loads into the counter in use, without emptying it.\<close>

definition update_active :: "'c active_counting \<Rightarrow> 'c LoaderSystem \<Rightarrow> 'c LoaderSystem" where
  "update_active counting s =
     (case ld_lists s ''activeCounter'' of
        None \<Rightarrow> s
      | Some old \<Rightarrow> s\<lparr> ld_lists := (ld_lists s)(''activeCounter'' := Some (count_active counting (Some old) s)) \<rparr>)"

definition do_load_data :: "'c LoaderSystem \<Rightarrow> 'c LoaderSystem" where
  "do_load_data s = s\<lparr> ld_queue := [], ld_phase := Preparing loadAll_lists \<rparr>"

definition loadAll_next :: "'c list_query \<Rightarrow> 'c active_counting \<Rightarrow> string \<Rightarrow> string list \<Rightarrow> 'c LoaderSystem \<Rightarrow> 'c LoaderSystem" where
  "loadAll_next query counting l ls s = (list_load query counting l s)\<lparr> ld_phase := Preparing ls \<rparr>"

fun next_event :: "LocalEvent list \<Rightarrow> LoaderPhase" where
  "next_event [] = LoaderIdle"
| "next_event (q # qs) = Loading (event_lists (le_event q)) q qs"

definition loader_read :: "'c LoaderSystem \<Rightarrow> 'c LoaderSystem" where
  "loader_read s = s\<lparr> ld_phase := next_event (ld_queue s) \<rparr>"

definition loader_load :: "'c list_query \<Rightarrow> 'c active_counting \<Rightarrow> string \<Rightarrow> string list \<Rightarrow> LocalEvent \<Rightarrow> LocalEvent list \<Rightarrow>
    'c LoaderSystem \<Rightarrow> 'c LoaderSystem" where
  "loader_load query counting l ls q qs s = (list_load query counting l s)\<lparr> ld_phase := Loading ls q qs \<rparr>"

definition loader_delete :: "LocalEvent \<Rightarrow> LocalEvent list \<Rightarrow> 'c LoaderSystem \<Rightarrow> 'c LoaderSystem" where
  "loader_delete q qs s =
     s\<lparr> ld_queue := filter (\<lambda>x. \<not> (le_event x = le_event q \<and> le_version x = le_version q)) (ld_queue s), ld_phase := next_event qs \<rparr>"

text \<open>What the triggers promise of a change of the local tables: for every table that changes a new event with a new
  version, and an event disappears only when a new one takes its place.\<close>

definition local_announced :: "(string \<Rightarrow> string) \<Rightarrow> tables \<Rightarrow> tables \<Rightarrow> LocalEvent list \<Rightarrow> LocalEvent list \<Rightarrow> LocalEvent list \<Rightarrow> bool" where
  "local_announced local_event db db' queue queue' news \<longleftrightarrow>
     set queue' \<subseteq> set queue \<union> set news \<and> set news \<subseteq> set queue' \<and>
     (\<forall>q \<in> set queue. q \<in> set queue' \<or> (\<exists>n \<in> set news. le_event n = le_event q)) \<and>
     (\<forall>t. db' t = db t \<or> (\<exists>n \<in> set news. le_event n = local_event t))"

text \<open>The statements of the thread, each of which may fail, and between any two of them changes, the passing of time and
  the other thread. A failure of \<open>prepare\<close> makes it start again; a failure of \<open>run\<close> leaves the queue to the next run.\<close>

inductive loader_step :: "(string \<Rightarrow> string) \<Rightarrow> 'c list_query \<Rightarrow> 'c active_counting \<Rightarrow>
    'c LoaderSystem \<Rightarrow> 'c LoaderSystem \<Rightarrow> bool" for local_event query counting where
  local_change: "local_announced local_event (ld_db s) db' (ld_queue s) queue' news \<Longrightarrow>
    (\<forall>n \<in> set news. ld_last_version s < le_version n \<and> le_version n \<le> version') \<Longrightarrow> ld_last_version s \<le> version' \<Longrightarrow>
    loader_step local_event query counting s (s\<lparr> ld_db := db', ld_queue := queue', ld_last_version := version' \<rparr>)"
| tick: "ld_now s \<le> now' \<Longrightarrow> loader_step local_event query counting s (s\<lparr> ld_now := now' \<rparr>)"
| recount: "loader_step local_event query counting s (update_active counting s)"
| prepare: "ld_phase s = Unprepared \<Longrightarrow> loader_step local_event query counting s (do_load_data s)"
| prepare_load: "ld_phase s = Preparing (l # ls) \<Longrightarrow> loader_step local_event query counting s (loadAll_next query counting l ls s)"
| prepare_fails: "ld_phase s = Preparing ls \<Longrightarrow> loader_step local_event query counting s (s\<lparr> ld_phase := Unprepared \<rparr>)"
| prepared: "ld_phase s = Preparing [] \<Longrightarrow> loader_step local_event query counting s (s\<lparr> ld_phase := LoaderIdle \<rparr>)"
| read: "ld_phase s = LoaderIdle \<Longrightarrow> loader_step local_event query counting s (loader_read s)"
| load: "ld_phase s = Loading (l # ls) q qs \<Longrightarrow> loader_step local_event query counting s (loader_load query counting l ls q qs s)"
| delete: "ld_phase s = Loading [] q qs \<Longrightarrow> loader_step local_event query counting s (loader_delete q qs s)"
| fails: "ld_phase s = Loading ls q qs \<Longrightarrow> loader_step local_event query counting s (s\<lparr> ld_phase := LoaderIdle \<rparr>)"

text \<open>A run without failures and with nobody else at work.\<close>

definition load_event :: "'c list_query \<Rightarrow> 'c active_counting \<Rightarrow> LocalEvent \<Rightarrow> 'c LoaderSystem \<Rightarrow> 'c LoaderSystem" where
  "load_event query counting q s = loader_delete q [] (fold (list_load query counting) (event_lists (le_event q)) s)"

definition loader_run :: "'c list_query \<Rightarrow> 'c active_counting \<Rightarrow> 'c LoaderSystem \<Rightarrow> 'c LoaderSystem" where
  "loader_run query counting s = (fold (load_event query counting) (ld_queue s) s)\<lparr> ld_phase := LoaderIdle \<rparr>"

end
