(* ===== verification/Loader_Properties.thy ===== *)
theory Loader_Properties
  imports Data_Loader
begin

text \<open>The lists in memory follow the local tables.\<close>

section \<open>Which events reload which lists\<close>

text \<open>The counter of active services comes after the lists it is made from.\<close>

fun active_last :: "string list \<Rightarrow> bool" where
  "active_last [] = True"
| "active_last (l # ls) = ((l = ''serviceNumber'' \<or> l = ''serviceTrunk'' \<longrightarrow> ''activeCounter'' \<in> set ls) \<and> active_last ls)"

abbreviation reloads :: "LocalEvent \<Rightarrow> string \<Rightarrow> bool" where
  "reloads q l \<equiv> l \<in> set (event_lists (le_event q))"

lemma handlers_active:
  "list_all (\<lambda>(e, ls). active_last ls \<and>
     (List.member ls ''serviceNumber'' \<or> List.member ls ''serviceTrunk'' \<longrightarrow> List.member ls ''activeCounter'')) event_handlers"
  by code_simp

lemma event_lists_cases: "event_lists e = [] \<or> (\<exists>x \<in> set event_handlers. event_lists e = snd x)"
  by (auto simp: event_lists_def split: option.splits dest!: map_of_SomeD) force

lemma event_lists_active: "active_last (event_lists e)"
  using event_lists_cases [of e] handlers_active by (auto simp: list_all_iff)

lemma loadAll_active: "active_last loadAll_lists"
  by code_simp

lemma reloads_active:
  "''serviceNumber'' \<in> set (event_lists e) \<or> ''serviceTrunk'' \<in> set (event_lists e) \<Longrightarrow> ''activeCounter'' \<in> set (event_lists e)"
  using event_lists_cases [of e] handlers_active by (auto simp: list_all_iff)

section \<open>Up to date or announced\<close>

text \<open>Which lists are followed: those all of whose tables have triggers that announce an event which reloads the list. With
  names of tables without schemas these are all but the lists of the numbering plan, whose handlers wait for names that begin
  with \<open>nnp_\<close>.\<close>

definition announces :: "(string \<Rightarrow> string) \<Rightarrow> string \<Rightarrow> bool" where
  "announces local_event l \<longleftrightarrow> list_all (\<lambda>t. List.member (event_lists (local_event t)) l) (list_tables l)"

abbreviation followed :: "(string \<Rightarrow> string) \<Rightarrow> string \<Rightarrow> bool" where
  "followed local_event l \<equiv> l \<in> set loadAll_lists \<and> announces local_event l"

lemma table_event_announces_all:
  "list_all (\<lambda>l. announces table_event l \<longleftrightarrow> take 3 l \<noteq> ''nnp'') loadAll_lists"
  by code_simp

lemma table_event_announces: "l \<in> set loadAll_lists \<Longrightarrow> announces table_event l \<longleftrightarrow> take 3 l \<noteq> ''nnp''"
  using table_event_announces_all by (simp add: list_all_iff)

lemma announces_reload: "announces local_event l \<Longrightarrow> t \<in> set (list_tables l) \<Longrightarrow> l \<in> set (event_lists (local_event t))"
  by (simp add: announces_def list_all_iff)

text \<open>The counter of active services is made from these two.\<close>

definition counts_followed :: "(string \<Rightarrow> string) \<Rightarrow> bool" where
  "counts_followed local_event \<longleftrightarrow> announces local_event ''serviceNumber'' \<and> announces local_event ''serviceTrunk''"

lemma table_event_counts: "counts_followed table_event"
  using table_event_announces [of "''serviceNumber''"] table_event_announces [of "''serviceTrunk''"]
  by (simp add: counts_followed_def loadAll_lists_def)

text \<open>The query of a list looks at its tables only, and, but for the two, not at the clock.\<close>

definition reads_only :: "'c list_query \<Rightarrow> bool" where
  "reads_only query \<longleftrightarrow> (\<forall>l now db db'. (\<forall>t \<in> set (list_tables l). db' t = db t) \<longrightarrow> query l now db' = query l now db) \<and>
     (\<forall>l now now' db. l \<notin> set clock_lists \<longrightarrow> query l now db = query l now' db)"

text \<open>What a list holds that was loaded, on the present tables, at some time up to now; the counter was made from the
  present lists at such a time and counted again any number of times since.\<close>

definition counted :: "'c active_counting \<Rightarrow> 'c option \<Rightarrow> 'c option \<Rightarrow> int \<Rightarrow> 'c \<Rightarrow> bool" where
  "counted counting numbers trunks now c \<longleftrightarrow> (\<exists>start later. start \<le> now \<and> (\<forall>u \<in> set later. u \<le> now) \<and>
     c = fold (\<lambda>u old. counting u (Some old) numbers trunks) later (counting start None numbers trunks))"

definition current_list :: "'c list_query \<Rightarrow> 'c active_counting \<Rightarrow> 'c LoaderSystem \<Rightarrow> string \<Rightarrow> bool" where
  "current_list query counting s l \<longleftrightarrow>
     (if l = ''activeCounter''
      then (\<exists>c. ld_lists s l = Some c \<and> counted counting (ld_lists s ''serviceNumber'') (ld_lists s ''serviceTrunk'') (ld_now s) c)
      else (\<exists>t \<le> ld_now s. ld_lists s l = Some (query l t (ld_db s))))"

definition loader_inv :: "(string \<Rightarrow> string) \<Rightarrow> 'c list_query \<Rightarrow> 'c active_counting \<Rightarrow> 'c LoaderSystem \<Rightarrow> bool" where
  "loader_inv local_event query counting s \<longleftrightarrow> (\<forall>q \<in> set (ld_queue s). le_version q \<le> ld_last_version s) \<and>
     (case ld_phase s of
        Unprepared \<Rightarrow> True
      | Preparing ls \<Rightarrow> active_last ls \<and>
          (\<forall>l. followed local_event l \<longrightarrow> current_list query counting s l \<or> l \<in> set ls \<or> (\<exists>q \<in> set (ld_queue s). reloads q l))
      | LoaderIdle \<Rightarrow> (\<forall>l. followed local_event l \<longrightarrow> current_list query counting s l \<or> (\<exists>q \<in> set (ld_queue s). reloads q l))
      | Loading ls q qs \<Rightarrow> active_last ls \<and> (\<forall>x \<in> set (q # qs). le_version x \<le> ld_last_version s) \<and>
          (\<forall>l. followed local_event l \<longrightarrow> current_list query counting s l \<or>
             (\<exists>x \<in> set (ld_queue s). reloads x l \<and> (l \<in> set ls \<or> x \<noteq> q))))"

text \<open>A change leaves a list current or announces it anew.\<close>

lemma change_announces:
  assumes "local_announced local_event (ld_db s) db' (ld_queue s) queue' news" and "reads_only query"
    and "announces local_event l" and "current_list query counting s l"
  shows "current_list query counting (s\<lparr> ld_db := db', ld_queue := queue', ld_last_version := v \<rparr>) l \<or> (\<exists>n \<in> set news. reloads n l)"
proof (cases "\<forall>t \<in> set (list_tables l). db' t = ld_db s t")
  case True
  then have "query l t db' = query l t (ld_db s)" for t using assms(2) unfolding reads_only_def by blast
  then have "current_list query counting (s\<lparr> ld_db := db', ld_queue := queue', ld_last_version := v \<rparr>) l"
    using assms(4) unfolding current_list_def by (cases "l = ''activeCounter''") simp_all
  then show ?thesis by blast
next
  case False
  then obtain t where t: "t \<in> set (list_tables l)" "db' t \<noteq> ld_db s t" by blast
  then obtain n where "n \<in> set news" "le_event n = local_event t" using assms(1) unfolding local_announced_def by blast
  then show ?thesis using announces_reload [OF assms(3) t(1)] by metis
qed

lemma change_keeps_event:
  assumes "local_announced local_event db db' queue queue' news" and "q \<in> set queue" and "reloads q l"
  shows "q \<in> set queue' \<or> (\<exists>n \<in> set news. reloads n l)"
  using assms unfolding local_announced_def by metis

text \<open>Loading a list makes it current; the counter of active services may have to follow.\<close>

lemma list_load_fields [simp]: "ld_queue (list_load query counting l s) = ld_queue s"
  "ld_last_version (list_load query counting l s) = ld_last_version s" "ld_phase (list_load query counting l s) = ld_phase s"
  "ld_db (list_load query counting l s) = ld_db s" "ld_now (list_load query counting l s) = ld_now s"
  "l \<noteq> k \<Longrightarrow> ld_lists (list_load query counting l s) k = ld_lists s k"
  by (simp_all add: list_load_def)

lemma counted_start: "counted counting numbers trunks now (counting now None numbers trunks)"
  unfolding counted_def by (intro exI [of _ now] exI [of _ "[]"]) simp

lemma counted_again: "counted counting numbers trunks now c \<Longrightarrow> counted counting numbers trunks now (counting now (Some c) numbers trunks)"
  unfolding counted_def by clarify (rule_tac x = start in exI, rule_tac x = "later @ [now]" in exI, simp)

lemma counted_later: "counted counting numbers trunks now c \<Longrightarrow> now \<le> now' \<Longrightarrow> counted counting numbers trunks now' c"
  unfolding counted_def by clarify (rule_tac x = start in exI, rule_tac x = later in exI, auto)

lemma current_loaded: "current_list query counting (list_load query counting l s) l"
  using counted_start [of counting _ _ "ld_now s"] by (auto simp: current_list_def list_load_def count_active_def)

lemma load_current:
  assumes "reads_only query" and "current_list query counting s k" and "k \<notin> set clock_lists" and "k \<noteq> ''activeCounter''"
  shows "list_load query counting k s = s"
proof -
  obtain t where "ld_lists s k = Some (query k t (ld_db s))" using assms(2,4) by (auto simp: current_list_def)
  moreover have "query k t (ld_db s) = query k (ld_now s) (ld_db s)" using assms(1,3) by (auto simp: reads_only_def)
  ultimately show ?thesis using assms(4) by (cases s) (simp add: list_load_def fun_upd_idem)
qed

lemma current_after_load:
  assumes "reads_only query" and "current_list query counting s l"
  shows "current_list query counting (list_load query counting k s) l \<or>
    l = ''activeCounter'' \<and> (k = ''serviceNumber'' \<or> k = ''serviceTrunk'') \<and> \<not> current_list query counting s k"
proof (cases "k = l")
  case True
  then show ?thesis using current_loaded by blast
next
  case False
  show ?thesis
  proof (cases "l = ''activeCounter'' \<and> (k = ''serviceNumber'' \<or> k = ''serviceTrunk'')")
    case True
    then have "k \<notin> set clock_lists" "k \<noteq> ''activeCounter''" by (auto simp: clock_lists_def)
    then show ?thesis using load_current [OF assms(1)] assms(2) True by metis
  next
    case other: False
    have "ld_lists (list_load query counting k s) l = ld_lists s l" using False by simp
    moreover have "ld_lists (list_load query counting k s) j = ld_lists s j"
      if "l = ''activeCounter''" "j = ''serviceNumber'' \<or> j = ''serviceTrunk''" for j using other that by (intro list_load_fields(6)) blast
    ultimately have "current_list query counting (list_load query counting k s) l"
      using assms(2) unfolding current_list_def list_load_fields(4,5) by (cases "l = ''activeCounter''") simp_all
    then show ?thesis by blast
  qed
qed

lemma current_tick: "current_list query counting s l \<Longrightarrow> ld_now s \<le> now' \<Longrightarrow> current_list query counting (s\<lparr> ld_now := now' \<rparr>) l"
  using counted_later [of counting _ _ "ld_now s" _ now'] by (auto simp: current_list_def split: if_splits intro: order_trans)

lemma current_recount: "current_list query counting s l \<Longrightarrow> current_list query counting (update_active counting s) l"
  using counted_again [of counting _ _ "ld_now s"]
  by (auto simp: current_list_def update_active_def count_active_def split: option.splits)

lemma update_active_fields [simp]: "ld_queue (update_active counting s) = ld_queue s"
  "ld_last_version (update_active counting s) = ld_last_version s" "ld_phase (update_active counting s) = ld_phase s"
  "ld_db (update_active counting s) = ld_db s" "ld_now (update_active counting s) = ld_now s"
  "l \<noteq> ''activeCounter'' \<Longrightarrow> ld_lists (update_active counting s) l = ld_lists s l"
  by (simp_all add: update_active_def split: option.splits)

lemma current_phase [simp]: "current_list query counting (s\<lparr> ld_phase := p \<rparr>) l = current_list query counting s l"
  by (simp add: current_list_def)

lemma current_queue [simp]: "current_list query counting (s\<lparr> ld_queue := q \<rparr>) l = current_list query counting s l"
  by (simp add: current_list_def)

section \<open>The invariant\<close>

text \<open>What covers a list: the loads left and the events of the queue, less one event that is at work.\<close>

definition lists_covered :: "(string \<Rightarrow> string) \<Rightarrow> 'c list_query \<Rightarrow> 'c active_counting \<Rightarrow> (LocalEvent \<Rightarrow> string \<Rightarrow> bool) \<Rightarrow> (string \<Rightarrow> bool) \<Rightarrow>
    'c LoaderSystem \<Rightarrow> bool" where
  "lists_covered local_event query counting counts left s \<longleftrightarrow> (\<forall>l. followed local_event l \<longrightarrow> current_list query counting s l \<or> left l \<or>
     (\<exists>x \<in> set (ld_queue s). reloads x l \<and> counts x l))"

lemma loader_inv_covered:
  "loader_inv local_event query counting s \<longleftrightarrow> (\<forall>q \<in> set (ld_queue s). le_version q \<le> ld_last_version s) \<and>
     (case ld_phase s of
        Unprepared \<Rightarrow> True
      | Preparing ls \<Rightarrow> active_last ls \<and> lists_covered local_event query counting (\<lambda>x l. True) (\<lambda>l. l \<in> set ls) s
      | LoaderIdle \<Rightarrow> lists_covered local_event query counting (\<lambda>x l. True) (\<lambda>l. False) s
      | Loading ls q qs \<Rightarrow> active_last ls \<and> (\<forall>x \<in> set (q # qs). le_version x \<le> ld_last_version s) \<and>
          lists_covered local_event query counting (\<lambda>x l. l \<in> set ls \<or> x \<noteq> q) (\<lambda>l. False) s)"
  unfolding loader_inv_def lists_covered_def by (simp split: LoaderPhase.split)

lemma covered_change:
  assumes "local_announced local_event (ld_db s) db' (ld_queue s) queue' news" and "reads_only query"
    and "\<And>n l. n \<in> set news \<Longrightarrow> counts n l" and "lists_covered local_event query counting counts left s"
  shows "lists_covered local_event query counting counts left (s\<lparr> ld_db := db', ld_queue := queue', ld_last_version := v \<rparr>)"
  unfolding lists_covered_def
proof (intro allI impI)
  fix l assume l: "followed local_event l"
  let ?s = "s\<lparr> ld_db := db', ld_queue := queue', ld_last_version := v \<rparr>"
  have news: "set news \<subseteq> set queue'" using assms(1) by (simp add: local_announced_def)
  consider (c) "current_list query counting s l" | (lf) "left l" | (x) x where "x \<in> set (ld_queue s)" "reloads x l" "counts x l"
    using assms(4) l unfolding lists_covered_def by blast
  then show "current_list query counting ?s l \<or> left l \<or> (\<exists>x \<in> set (ld_queue ?s). reloads x l \<and> counts x l)"
  proof cases
    case c
    then show ?thesis using change_announces [OF assms(1,2) conjunct2 [OF l] c, of v] news assms(3) by auto
  next
    case x
    then show ?thesis using change_keeps_event [OF assms(1) x(1,2)] news assms(3) by auto
  qed simp
qed

lemma covered_load:
  assumes "lists_covered local_event query counting counts left s" and "active_last (k # ls)"
    and "reads_only query" and "counts_followed local_event"
    and "\<And>l. left l \<Longrightarrow> left' l \<or> l = k" and "\<And>x l. counts x l \<Longrightarrow> l \<noteq> k \<Longrightarrow> counts' x l"
    and "''activeCounter'' \<in> set ls \<Longrightarrow> left k \<Longrightarrow> left' ''activeCounter''"
    and "\<And>x. ''activeCounter'' \<in> set ls \<Longrightarrow> counts' x ''activeCounter''"
  shows "lists_covered local_event query counting counts' left' (list_load query counting k s)"
  unfolding lists_covered_def
proof (intro allI impI)
  fix l assume l: "followed local_event l"
  let ?s = "list_load query counting k s"
  consider (k) "l = k" | (c) "current_list query counting s l" "l \<noteq> k" | (o) "\<not> current_list query counting s l" "l \<noteq> k" by blast
  then show "current_list query counting ?s l \<or> left' l \<or> (\<exists>x \<in> set (ld_queue ?s). reloads x l \<and> counts' x l)"
  proof cases
    case k
    then show ?thesis using current_loaded by blast
  next
    case o
    then show ?thesis using assms(1,5,6) l unfolding lists_covered_def by fastforce
  next
    case c
    show ?thesis
    proof (cases "current_list query counting ?s l")
      case False
      then have a: "l = ''activeCounter''" "k = ''serviceNumber'' \<or> k = ''serviceTrunk''" "\<not> current_list query counting s k"
        using current_after_load [OF assms(3) c(1)] by blast+
      have last: "''activeCounter'' \<in> set ls" using assms(2) a(2) by auto
      have "followed local_event k" using a(2) assms(4) by (auto simp: loadAll_lists_def counts_followed_def)
      then consider "left k" | x where "x \<in> set (ld_queue s)" "reloads x k" using assms(1) a(3) unfolding lists_covered_def by blast
      then show ?thesis
      proof cases
        case 1
        then show ?thesis using assms(7) [OF last] a(1) by simp
      next
        case 2
        then show ?thesis using assms(8) [OF last] a(1,2) reloads_active by auto
      qed
    qed simp
  qed
qed

lemma covered_idle: "lists_covered local_event query counting counts (\<lambda>l. False) s \<Longrightarrow> lists_covered local_event query counting (\<lambda>x l. True) left (s\<lparr> ld_phase := p \<rparr>)"
  unfolding lists_covered_def by (auto simp: current_phase)

lemma next_event_inv:
  assumes "lists_covered local_event query counting (\<lambda>x l. True) (\<lambda>l. False) s" and "\<And>q. q \<in> set (ld_queue s) \<Longrightarrow> le_version q \<le> ld_last_version s"
    and "\<And>q. q \<in> set qs \<Longrightarrow> le_version q \<le> ld_last_version s"
  shows "loader_inv local_event query counting (s\<lparr> ld_phase := next_event qs \<rparr>)"
proof (cases qs)
  case Nil
  then show ?thesis using assms covered_idle [OF assms(1)] by (simp add: loader_inv_covered)
next
  case (Cons q rest)
  have "lists_covered local_event query counting (\<lambda>x l. l \<in> set (event_lists (le_event q)) \<or> x \<noteq> q) (\<lambda>l. False) (s\<lparr> ld_phase := p \<rparr>)" for p
    using assms(1) unfolding lists_covered_def by (auto simp: current_phase)
  then show ?thesis using assms(2,3) Cons event_lists_active by (simp add: loader_inv_covered)
qed

lemma loader_change_inv:
  assumes "reads_only query" and a: "local_announced local_event (ld_db s) db' (ld_queue s) queue' news"
    and n: "\<forall>n \<in> set news. ld_last_version s < le_version n \<and> le_version n \<le> v" and v: "ld_last_version s \<le> v" and inv: "loader_inv local_event query counting s"
  shows "loader_inv local_event query counting (s\<lparr> ld_db := db', ld_queue := queue', ld_last_version := v \<rparr>)"
proof -
  note c = covered_change [OF a assms(1), where v = v]
  have newer: "le_version x \<le> v" if "x \<in> set queue'" for x
  proof -
    have "x \<in> set (ld_queue s) \<or> x \<in> set news" using that a unfolding local_announced_def by blast
    moreover have "\<forall>q \<in> set (ld_queue s). le_version q \<le> ld_last_version s" using inv unfolding loader_inv_def by blast
    ultimately show ?thesis using n v by force
  qed
  show ?thesis
  proof (cases "ld_phase s")
    case (Loading ls q qs)
    have "m \<noteq> q" if "m \<in> set news" for m using that n inv Loading by (auto simp: loader_inv_covered)
    moreover have "le_version x \<le> v" if "x \<in> set (q # qs)" for x using that inv v Loading by (fastforce simp: loader_inv_covered)
    ultimately show ?thesis using c [of "\<lambda>x l. l \<in> set ls \<or> x \<noteq> q"] newer inv Loading by (auto simp: loader_inv_covered)
  qed (use c [of "\<lambda>x l. True"] newer inv in \<open>auto simp: loader_inv_covered\<close>)
qed

lemma loader_step_inv:
  assumes "reads_only query" and "counts_followed local_event"
  shows "loader_step local_event query counting s s' \<Longrightarrow> loader_inv local_event query counting s \<Longrightarrow> loader_inv local_event query counting s'"
proof (induction rule: loader_step.induct)
  case (local_change s db' queue' news version')
  then show ?case using loader_change_inv [OF assms(1)] by blast
next
  case (tick s now')
  then show ?case using current_tick by (fastforce simp: loader_inv_covered lists_covered_def split: LoaderPhase.splits)
next
  case (recount s)
  then show ?case using current_recount by (fastforce simp: loader_inv_covered lists_covered_def split: LoaderPhase.splits)
next
  case (prepare s)
  then show ?case using loadAll_active by (simp add: do_load_data_def loader_inv_def)
next
  case (prepare_load s l ls)
  have "lists_covered local_event query counting (\<lambda>x l. True) (\<lambda>l. l \<in> set ls) (list_load query counting l s)"
    by (rule covered_load [where counts = "\<lambda>x l. True" and left = "\<lambda>k. k \<in> set (l # ls)" and ls = ls])
      (use prepare_load assms in \<open>auto simp: loader_inv_covered\<close>)
  then show ?case using prepare_load by (simp add: loadAll_next_def loader_inv_covered lists_covered_def)
next
  case (load s l ls q qs)
  have "lists_covered local_event query counting (\<lambda>x l. l \<in> set ls \<or> x \<noteq> q) (\<lambda>l. False) (list_load query counting l s)"
    by (rule covered_load [where counts = "\<lambda>x k. k \<in> set (l # ls) \<or> x \<noteq> q" and left = "\<lambda>k. False" and ls = ls])
      (use load assms in \<open>auto simp: loader_inv_covered\<close>)
  then show ?case using load by (simp add: loader_load_def loader_inv_covered lists_covered_def)
next
  case (delete s q qs)
  let ?s = "s\<lparr> ld_queue := filter (\<lambda>x. \<not> (le_event x = le_event q \<and> le_version x = le_version q)) (ld_queue s) \<rparr>"
  have "lists_covered local_event query counting (\<lambda>x l. x \<noteq> q) (\<lambda>l. False) s" using delete by (simp add: loader_inv_covered)
  then have "lists_covered local_event query counting (\<lambda>x l. True) (\<lambda>l. False) ?s"
    unfolding lists_covered_def by (auto simp: current_queue) (metis LocalEvent.equality old.unit.exhaust)
  then show ?case using next_event_inv [of local_event query counting ?s qs] delete by (simp add: loader_delete_def loader_inv_covered)
next
  case (read s)
  then show ?case using next_event_inv [of local_event query counting s "ld_queue s"] by (simp add: loader_read_def loader_inv_covered)
next
  case (prepared s)
  then show ?case by (simp add: loader_inv_covered lists_covered_def)
next
  case (fails s ls q qs)
  then show ?case using covered_idle [of local_event query counting "\<lambda>x l. l \<in> set ls \<or> x \<noteq> q" s] by (simp add: loader_inv_covered)
qed (simp add: loader_inv_def)

lemma loader_steps_inv:
  assumes "(loader_step local_event query counting)\<^sup>*\<^sup>* s s'" and "reads_only query" and "counts_followed local_event"
  shows "loader_inv local_event query counting s \<Longrightarrow> loader_inv local_event query counting s'"
  using assms(1) by (induction rule: rtranclp_induct) (auto intro: loader_step_inv [OF assms(2,3)])

text \<open>Where the thread starts.\<close>

definition loader_start :: "'c LoaderSystem \<Rightarrow> bool" where
  "loader_start s \<longleftrightarrow> ld_phase s = Unprepared \<and> list_all (\<lambda>q. le_version q \<le> ld_last_version s) (ld_queue s)"

lemma loader_start_inv: "loader_start s \<Longrightarrow> loader_inv local_event query counting s"
  by (simp add: loader_start_def loader_inv_def list_all_iff)

lemma prepared_covered:
  assumes "loader_inv local_event query counting s" and "ld_phase s \<noteq> Unprepared" and "\<And>ls. ld_phase s \<noteq> Preparing ls" and "followed local_event l"
  shows "current_list query counting s l \<or> (\<exists>q. q \<in> set (ld_queue s) \<and> reloads q l)"
  using assms by (cases "ld_phase s") (auto simp: loader_inv_def)

text \<open>What a list is: what its query gives on the tables now; for the two whose queries read the clock, what the query gave on
  these tables at some time up to now, that of the load; the counter of active services as described.\<close>

definition right_list :: "'c list_query \<Rightarrow> 'c active_counting \<Rightarrow> 'c LoaderSystem \<Rightarrow> string \<Rightarrow> bool" where
  "right_list query counting s l \<longleftrightarrow>
     (if l = ''activeCounter''
      then (\<exists>c. ld_lists s l = Some c \<and> counted counting (ld_lists s ''serviceNumber'') (ld_lists s ''serviceTrunk'') (ld_now s) c)
      else if l \<in> set clock_lists then (\<exists>t \<le> ld_now s. ld_lists s l = Some (query l t (ld_db s)))
      else ld_lists s l = Some (query l (ld_now s) (ld_db s)))"

lemma current_right:
  assumes "reads_only query" and "current_list query counting s l"
  shows "right_list query counting s l"
proof -
  have "query l t (ld_db s) = query l (ld_now s) (ld_db s)" if "l \<notin> set clock_lists" for t
    using assms(1) that unfolding reads_only_def by blast
  then show ?thesis using assms(2) unfolding current_list_def right_list_def by (cases "l \<in> set clock_lists") auto
qed

text \<open>C14: After the start, in every state reached by any interleaving of changes of the local tables, the passing of time and the
  periodic recount with the statements of the thread, failures included, every list whose tables announce an event that reloads it
  is what its query gives on the tables now, or such an event is in the queue. The lists of accounts and of currency rates, whose queries read the
  clock, are what the query gave on these tables at some time up to now. The counter of active services was made from the present
  lists of numbers and trunks at such a time, and counted again since without being emptied.\<close>

theorem loader_no_update_lost:
  assumes "loader_start s" and "(loader_step local_event query counting)\<^sup>*\<^sup>* s s'" and "reads_only query" and "counts_followed local_event"
    and "ld_phase s' = LoaderIdle \<or> ld_phase s' = Loading ls q qs" and "l \<in> set loadAll_lists" and "announces local_event l"
  shows "right_list query counting s' l \<or> (\<exists>q. q \<in> set (ld_queue s') \<and> l \<in> set (event_lists (le_event q)))"
proof -
  have "loader_inv local_event query counting s'" by (rule loader_steps_inv [OF assms(2-4) loader_start_inv [OF assms(1)]])
  then show ?thesis using prepared_covered [of local_event query counting s' l] assms(5-7) current_right [OF assms(3)] by fastforce
qed

section \<open>A run by itself\<close>

lemma fold_load_fields [simp]: "ld_queue (fold (list_load query counting) ls s) = ld_queue s"
  "ld_db (fold (list_load query counting) ls s) = ld_db s" "ld_last_version (fold (list_load query counting) ls s) = ld_last_version s"
  "ld_now (fold (list_load query counting) ls s) = ld_now s"
  by (induction ls arbitrary: s) simp_all

lemma list_load_phase: "list_load query counting l (u\<lparr> ld_phase := p \<rparr>) = (list_load query counting l u)\<lparr> ld_phase := p \<rparr>"
  by (cases u) (simp add: list_load_def count_active_def)

lemma fold_load_phase: "(fold (list_load query counting) ls (u\<lparr> ld_phase := p \<rparr>))\<lparr> ld_phase := r \<rparr> =
    (fold (list_load query counting) ls u)\<lparr> ld_phase := r \<rparr>"
  by (induction ls arbitrary: u) (simp_all add: list_load_phase)

lemma loads_reached:
  assumes "ld_phase s = Loading ls q qs"
  shows "(loader_step local_event query counting)\<^sup>*\<^sup>* s ((fold (list_load query counting) ls s)\<lparr> ld_phase := Loading [] q qs \<rparr>)"
  using assms
proof (induction ls arbitrary: s)
  case Nil
  then have "s\<lparr> ld_phase := Loading [] q qs \<rparr> = s" by (cases s) simp
  then show ?case by simp
next
  case (Cons l ls)
  let ?t = "loader_load query counting l ls q qs s"
  have "loader_step local_event query counting s ?t" using loader_step.load [OF Cons.prems] .
  moreover have "(loader_step local_event query counting)\<^sup>*\<^sup>* ?t ((fold (list_load query counting) ls ?t)\<lparr> ld_phase := Loading [] q qs \<rparr>)"
    by (rule Cons.IH) (simp add: loader_load_def)
  ultimately show ?case by (simp add: loader_load_def converse_rtranclp_into_rtranclp fold_load_phase)
qed

lemma load_event_phase: "load_event query counting q (s\<lparr> ld_phase := p \<rparr>) = load_event query counting q s"
proof -
  have d: "loader_delete q [] u = loader_delete q [] (u\<lparr> ld_phase := LoaderIdle \<rparr>)" for u :: "'a LoaderSystem" by (simp add: loader_delete_def)
  show ?thesis unfolding load_event_def by (subst (1 2) d) (simp only: fold_load_phase)
qed

lemma fold_event_phase: "(fold (load_event query counting) qs (u\<lparr> ld_phase := p \<rparr>))\<lparr> ld_phase := r \<rparr> =
    (fold (load_event query counting) qs u)\<lparr> ld_phase := r \<rparr>"
  by (cases qs) (simp_all add: load_event_phase)

lemma run_events_reached:
  assumes "ld_phase s = next_event qs"
  shows "(loader_step local_event query counting)\<^sup>*\<^sup>* s ((fold (load_event query counting) qs s)\<lparr> ld_phase := LoaderIdle \<rparr>)"
  using assms
proof (induction qs arbitrary: s)
  case Nil
  then have "s\<lparr> ld_phase := LoaderIdle \<rparr> = s" by (cases s) simp
  then show ?case by simp
next
  case (Cons q qs)
  let ?l = "(fold (list_load query counting) (event_lists (le_event q)) s)\<lparr> ld_phase := Loading [] q qs \<rparr>"
  have "(loader_step local_event query counting)\<^sup>*\<^sup>* s ?l" by (rule loads_reached) (use Cons.prems in simp)
  moreover have "loader_step local_event query counting ?l (loader_delete q qs ?l)" by (rule loader_step.delete) simp
  moreover have "loader_delete q qs ?l = (load_event query counting q s)\<lparr> ld_phase := next_event qs \<rparr>"
    by (simp add: load_event_def loader_delete_def)
  moreover have "(loader_step local_event query counting)\<^sup>*\<^sup>* ((load_event query counting q s)\<lparr> ld_phase := next_event qs \<rparr>)
      ((fold (load_event query counting) qs ((load_event query counting q s)\<lparr> ld_phase := next_event qs \<rparr>))\<lparr> ld_phase := LoaderIdle \<rparr>)"
    by (rule Cons.IH) simp
  ultimately show ?case unfolding fold_event_phase fold_simps(2)
    by (metis (no_types, lifting) rtranclp.rtrancl_into_rtrancl rtranclp_trans)
qed

lemma run_queue: "ld_queue (fold (load_event query counting) qs s) = filter (\<lambda>x. x \<notin> set qs) (ld_queue s)"
proof (induction qs arbitrary: s)
  case (Cons q qs)
  have "(le_event x = le_event q \<and> le_version x = le_version q) = (x = q)" for x
    by (metis LocalEvent.equality old.unit.exhaust)
  then have "ld_queue (load_event query counting q s) = filter (\<lambda>x. x \<noteq> q) (ld_queue s)" by (simp add: load_event_def loader_delete_def)
  then show ?case using Cons.IH by (auto intro: filter_cong)
qed simp

lemma run_db: "ld_db (fold (load_event query counting) qs s) = ld_db s"
  by (induction qs arbitrary: s) (simp_all add: load_event_def loader_delete_def)

lemma run_now: "ld_now (fold (load_event query counting) qs s) = ld_now s"
  by (induction qs arbitrary: s) (simp_all add: load_event_def loader_delete_def)

text \<open>From every reachable state between two runs, a run without failures and without changes meanwhile empties the
  queue, and then every list that is followed is what its query gives.\<close>

theorem loader_catches_up:
  assumes "loader_start s" and "(loader_step local_event query counting)\<^sup>*\<^sup>* s s'" and "reads_only query" and "counts_followed local_event"
    and "ld_phase s' = LoaderIdle" and "l \<in> set loadAll_lists" and "announces local_event l"
  shows "(loader_step local_event query counting)\<^sup>*\<^sup>* s' (loader_run query counting s') \<and> ld_queue (loader_run query counting s') = [] \<and>
    ld_db (loader_run query counting s') = ld_db s' \<and> right_list query counting (loader_run query counting s') l"
proof -
  let ?r = "loader_run query counting s'"
  have "(loader_step local_event query counting)\<^sup>*\<^sup>* (loader_read s') ((fold (load_event query counting) (ld_queue s') (loader_read s'))\<lparr> ld_phase := LoaderIdle \<rparr>)"
    by (rule run_events_reached) (simp add: loader_read_def)
  then have "(loader_step local_event query counting)\<^sup>*\<^sup>* (loader_read s') ?r"
    unfolding loader_run_def by (subst (asm) (2) loader_read_def) (simp only: fold_event_phase)
  then have steps: "(loader_step local_event query counting)\<^sup>*\<^sup>* s' ?r"
    by (rule converse_rtranclp_into_rtranclp [rotated]) (rule loader_step.read [OF assms(5)])
  have q: "ld_queue ?r = []" by (simp add: loader_run_def run_queue filter_empty_conv)
  have "(loader_step local_event query counting)\<^sup>*\<^sup>* s ?r" using assms(2) steps by (rule rtranclp_trans)
  then have "loader_inv local_event query counting ?r" using loader_steps_inv [OF _ assms(3,4)] loader_start_inv [OF assms(1)] by blast
  moreover have "ld_phase ?r = LoaderIdle" by (simp add: loader_run_def)
  ultimately have "current_list query counting ?r l" using prepared_covered [of local_event query counting ?r l] q assms(6,7) by auto
  then show ?thesis using steps q current_right [OF assms(3)] by (simp add: loader_run_def run_db)
qed

section \<open>Lists that are not followed\<close>

text \<open>Names without schemas never begin with \<open>nnp_\<close>: the lists of the numbering plan stay what they were at the start.\<close>

lemma nnp_events_only:
  "list_all (\<lambda>(e, ls). take 4 e = ''nnp_'' \<or> list_all (\<lambda>l. take 3 l \<noteq> ''nnp'') ls) event_handlers"
  by code_simp

lemma other_events_not_nnp: "take 4 e \<noteq> ''nnp_'' \<Longrightarrow> l \<in> set (event_lists e) \<Longrightarrow> take 3 l \<noteq> ''nnp''"
proof -
  assume e: "take 4 e \<noteq> ''nnp_''" and l: "l \<in> set (event_lists e)"
  then obtain ls where "map_of event_handlers e = Some ls" "l \<in> set ls" 
    by (cases "map_of event_handlers e") (simp_all add: event_lists_def)
  then show ?thesis using nnp_events_only e by (fastforce simp: list_all_iff dest: map_of_SomeD)
qed

definition plain_event :: "LocalEvent \<Rightarrow> bool" where
  "plain_event q \<longleftrightarrow> take 4 (le_event q) \<noteq> ''nnp_''"

definition plain_step :: "(string \<Rightarrow> string) \<Rightarrow> 'c list_query \<Rightarrow> 'c active_counting \<Rightarrow> 'c LoaderSystem \<Rightarrow> 'c LoaderSystem \<Rightarrow> bool" where
  "plain_step local_event query counting s s' \<longleftrightarrow> loader_step local_event query counting s s' \<and> list_all plain_event (ld_queue s')"

definition nothing_nnp :: "LoaderPhase \<Rightarrow> bool" where
  "nothing_nnp p \<longleftrightarrow>
     (case p of Unprepared \<Rightarrow> False | Preparing ls \<Rightarrow> False | LoaderIdle \<Rightarrow> True
      | Loading ls q qs \<Rightarrow> list_all (\<lambda>l. take 3 l \<noteq> ''nnp'') ls \<and> list_all plain_event qs)"

lemma nothing_nnp_next: "list_all plain_event qs \<Longrightarrow> nothing_nnp (next_event qs)"
  using other_events_not_nnp by (cases qs) (auto simp: nothing_nnp_def plain_event_def list_all_iff)

lemma plain_step_keeps:
  assumes "loader_step local_event query counting s s'" and "nothing_nnp (ld_phase s)" and "list_all plain_event (ld_queue s)"
  shows "nothing_nnp (ld_phase s') \<and> (take 3 l = ''nnp'' \<longrightarrow> ld_lists s' l = ld_lists s l)"
  using assms
proof (cases rule: loader_step.cases)
  case recount
  have "take 3 ''activeCounter'' \<noteq> ''nnp''" by simp
  then have "l \<noteq> ''activeCounter''" if "take 3 l = ''nnp''" using that by blast
  then show ?thesis using assms(2) recount by auto
next
  case read
  then show ?thesis using assms(3) nothing_nnp_next by (simp add: loader_read_def)
next
  case (load k ls q qs)
  then have "take 3 k \<noteq> ''nnp''" using assms(2) by (simp add: nothing_nnp_def)
  then have "k \<noteq> l" if "take 3 l = ''nnp''" using that by blast
  then show ?thesis using assms(2) load by (auto simp: loader_load_def nothing_nnp_def)
next
  case (delete q qs)
  then show ?thesis using assms(2) nothing_nnp_next [of qs] by (simp add: loader_delete_def nothing_nnp_def)
next
  case (fails ls q qs)
  then show ?thesis by (simp add: nothing_nnp_def)
qed (auto simp: nothing_nnp_def)

text \<open>The names of the tables of the lists, without schemas, are such names.\<close>

lemma table_events_plain: "list_all (\<lambda>(l, ts). list_all (\<lambda>t. take 4 (table_event t) \<noteq> ''nnp_'') ts) list_queries"
  by code_simp

text \<open>C38: As long as no event in the local queue begins with \<open>nnp_\<close>, which no table name without its schema does, the lists of
  the numbering plan, once loaded at the start, are never loaded again: nothing that happens changes them, whatever becomes of
  their tables.\<close>

theorem nnp_lists_never_reloaded:
  assumes "(plain_step local_event query counting)\<^sup>*\<^sup>* s s'" and "ld_phase s = LoaderIdle" and "list_all plain_event (ld_queue s)"
    and "take 3 l = ''nnp''"
  shows "ld_lists s' l = ld_lists s l"
proof -
  have "nothing_nnp (ld_phase s') \<and> list_all plain_event (ld_queue s') \<and> ld_lists s' l = ld_lists s l"
    using assms(1)
  proof (induction rule: rtranclp_induct)
    case base
    then show ?case using assms(2,3) by (simp add: nothing_nnp_def)
  next
    case (step y z)
    then show ?case using plain_step_keeps [of local_event query counting y z l] assms(4) by (auto simp: plain_step_def)
  qed
  then show ?thesis by blast
qed

end
