(* ===== verification/Pull_Properties.thy ===== *)
theory Pull_Properties
  imports Pull_Manager
begin

text \<open>
  Replication of the tables: the registered tables are described consistently; as long as no more events wait than one
  part takes, every row is up to date or announced in the queue, whatever happens meanwhile and whatever fails; with
  more events, those beyond the first part are dropped unread; and the rounds end.
\<close>

section \<open>The registered tables\<close>

text \<open>A declaration of a column begins with its name, plain or quoted.\<close>

definition declares :: "string \<Rightarrow> string \<Rightarrow> bool" where
  "declares d f \<longleftrightarrow> take (length f + 1) d = f @ '' '' \<or> take (length f + 3) d = [CHR 0x22] @ f @ [CHR 0x22] @ '' ''"

definition spec_ok :: "PullSpec \<Rightarrow> bool" where
  "spec_ok p \<longleftrightarrow> (pu_key p \<noteq> [] \<longrightarrow> pu_key p \<in> set (pu_fields p)) \<and> (pu_datatype p = [] \<longrightarrow> pu_src_sql_where p = [])"

definition pulls_ok :: "BasePull list \<Rightarrow> bool" where
  "pulls_ok bs \<longleftrightarrow> list_all (\<lambda>b. spec_ok (bp_spec b)) bs \<and> distinct (map bp_event bs) \<and> distinct (map (\<lambda>b. pu_dst_table (bp_spec b)) bs)"

definition columns_match :: "PullSpec \<Rightarrow> bool" where
  "columns_match p \<longleftrightarrow> distinct (pu_fields p) \<and> (pu_datatype p = [] \<or> list_all2 declares (pu_datatype p) (pu_fields p))"

section \<open>Pulling one table\<close>

definition synced :: "row_condition \<Rightarrow> tables \<Rightarrow> tables \<Rightarrow> PullSpec \<Rightarrow> string \<Rightarrow> bool" where
  "synced sql src dst p k \<longleftrightarrow> filter (of_key p k) (dst (pu_dst_table p)) =
     map (project p) (filter (\<lambda>r. of_key p k r \<and> where_ok sql p r) (src (pu_src_table p)))"

text \<open>The rows are those that met the condition at a moment of the run. Without a clause this says that they are equal.\<close>

definition synced_by :: "row_condition set \<Rightarrow> tables \<Rightarrow> tables \<Rightarrow> PullSpec \<Rightarrow> string \<Rightarrow> bool" where
  "synced_by sqls src dst p k \<longleftrightarrow> (\<exists>sql \<in> sqls. synced sql src dst p k)"

lemma synced_by_one [simp]: "synced_by {sql} src dst p k = synced sql src dst p k"
  by (simp add: synced_by_def)

lemma synced_by_plain:
  "pu_src_sql_where p = [] \<Longrightarrow> synced_by sqls src dst p k \<Longrightarrow>
    filter (of_key p k) (dst (pu_dst_table p)) = map (project p) (filter (of_key p k) (src (pu_src_table p)))"
  by (auto simp: synced_by_def synced_def where_ok_def)

lemma of_key_project: "spec_ok p \<Longrightarrow> of_key p k (project p r) = of_key p k r"
  by (auto simp: of_key_def project_def spec_ok_def)

lemma filter_project: "spec_ok p \<Longrightarrow> filter (of_key p k) (map (project p) rows) = map (project p) (filter (of_key p k) rows)"
  by (induction rows) (simp_all add: of_key_project)

lemma pullFull_synced:
  assumes "spec_ok (bp_spec b)"
  shows "synced sql src (snd (pullFull sql src b dst)) (bp_spec b) k"
  using assms by (auto simp: synced_def pullFull_def Let_def filter_project spec_ok_def where_ok_def conj_commute)

lemma pullPartial_synced:
  assumes "spec_ok (bp_spec b)" and "pu_key (bp_spec b) \<noteq> []" and "k \<in> set (bp_ids_to_pull b)"
  shows "synced sql src (snd (pullPartial sql src b dst)) (bp_spec b) k"
proof -
  let ?p = "bp_spec b"
  have k: "key_in ?p (bp_ids_to_pull b) r" if "of_key ?p k r" for r using assms(2,3) that by (simp add: of_key_def key_in_def)
  have "filter (\<lambda>r. of_key ?p k r \<and> \<not> key_in ?p (bp_ids_to_pull b) r) (dst (pu_dst_table ?p)) = []" using k by (auto simp: filter_empty_conv)
  moreover have "(\<lambda>r. of_key ?p k r \<and> key_in ?p (bp_ids_to_pull b) r \<and> where_ok sql ?p r) = (\<lambda>r. of_key ?p k r \<and> where_ok sql ?p r)" using k by blast
  ultimately show ?thesis using assms(1) by (simp add: synced_def pullPartial_def Let_def filter_project conj_ac)
qed

lemma pullPartial_other:
  assumes "spec_ok (bp_spec b)" and "pu_key (bp_spec b) \<noteq> []" and "k \<notin> set (bp_ids_to_pull b)"
  shows "synced c src (snd (pullPartial sql src b dst)) (bp_spec b) k = synced c src dst (bp_spec b) k"
proof -
  let ?p = "bp_spec b"
  have k: "\<not> key_in ?p (bp_ids_to_pull b) r" if "of_key ?p k r" for r using assms(2,3) that by (simp add: of_key_def key_in_def)
  have "(\<lambda>r. of_key ?p k r \<and> \<not> key_in ?p (bp_ids_to_pull b) r) = of_key ?p k" using k by blast
  moreover have "filter (\<lambda>r. of_key ?p k r \<and> key_in ?p (bp_ids_to_pull b) r \<and> where_ok sql ?p r) (src (pu_src_table ?p)) = []"
    using k by (auto simp: filter_empty_conv)
  ultimately show ?thesis using assms(1) by (simp add: synced_def pullPartial_def Let_def filter_project conj_ac)
qed

text \<open>The event is among those the table was told about.\<close>

definition told :: "BasePull \<Rightarrow> EventRow \<Rightarrow> bool" where
  "told b q \<longleftrightarrow> bp_need_pull b \<and> (bp_full_pull b \<or> pu_key (bp_spec b) \<noteq> [] \<and> ev_param q \<noteq> ''0'' \<and> ev_param q \<in> set (bp_ids_to_pull b))"

lemma pull_synced:
  assumes "spec_ok (bp_spec b)" and "pu_key (bp_spec b) = [] \<longrightarrow> bp_full_pull b"
    and "sql \<in> sqls" and "synced_by sqls src dst (bp_spec b) k \<or> (\<exists>q \<in> Q. concerns (bp_spec b) k q)"
    and "\<And>q. q \<in> Q \<Longrightarrow> ev_event q = bp_event b \<Longrightarrow> ev_version q \<le> V \<Longrightarrow> told b q"
  shows "synced_by sqls src (snd (bp_pull sql src b dst)) (bp_spec b) k \<or> (\<exists>q \<in> Q. concerns (bp_spec b) k q \<and> V < ev_version q)"
proof (cases "\<exists>q \<in> Q. concerns (bp_spec b) k q \<and> V < ev_version q")
  case False
  have t: "told b q" if "q \<in> Q" "concerns (bp_spec b) k q" for q using assms(5) [OF that(1)] that False by (force simp: concerns_def)
  show ?thesis
  proof (cases "bp_need_pull b \<and> bp_full_pull b")
    case True
    then show ?thesis using pullFull_synced [OF assms(1)] assms(3) unfolding synced_by_def bp_pull_def by fastforce
  next
    case nf: False
    show ?thesis
    proof (cases "k \<in> set (bp_ids_to_pull b) \<and> bp_need_pull b")
      case True
      then show ?thesis using nf assms(2,3) pullPartial_synced [OF assms(1)] unfolding synced_by_def bp_pull_def by fastforce
    next
      case other: False
      have "synced_by sqls src dst (bp_spec b) k" using assms(4) t nf other by (auto simp: told_def concerns_def)
      then show ?thesis using nf other assms(2) pullPartial_other [OF assms(1)] unfolding synced_by_def by (auto simp: bp_pull_def)
    qed
  qed
qed blast

lemma bp_spec_keeps [simp]:
  "bp_spec (bp_clear b) = bp_spec b" "bp_spec (addId i b) = bp_spec b" "bp_spec (fst (bp_pull sql src b dst)) = bp_spec b"
  by (simp_all add: bp_clear_def addId_def bp_pull_def pullFull_def pullPartial_def Let_def)

lemma bp_pull_other_table: "t \<noteq> pu_dst_table (bp_spec b) \<Longrightarrow> snd (bp_pull sql src b dst) t = dst t"
  by (simp add: bp_pull_def pullFull_def pullPartial_def Let_def)

lemma addId_told: "pu_key (bp_spec b) = [] \<longrightarrow> bp_full_pull b \<Longrightarrow> told (addId (ev_param q) b) q"
  by (auto simp: told_def addId_def Let_def set_insort_insert)

lemma addId_keeps_told: "told b q \<Longrightarrow> told (addId i b) q"
  by (auto simp: told_def addId_def Let_def set_insort_insert)

lemma addId_full: "bp_full_pull b \<Longrightarrow> bp_full_pull (addId i b)"
  by (simp add: addId_def Let_def)

section \<open>Noting the events\<close>

lemma add_events_specs: "map bp_spec (foldl add_event bs qs) = map bp_spec bs"
proof (induction qs arbitrary: bs)
  case (Cons q qs)
  have "map bp_spec (add_event bs q) = map bp_spec bs" by (simp add: add_event_def)
  then show ?case using Cons by simp
qed simp

lemma add_event_mem: "b \<in> set (add_event bs q) \<Longrightarrow> \<exists>c \<in> set bs. b = (if bp_event c = ev_event q then addId (ev_param q) c else c)"
  by (auto simp: add_event_def)

lemma add_events_told:
  assumes "b \<in> set (foldl add_event (clearPulls bs) qs)"
  shows "(pu_key (bp_spec b) = [] \<longrightarrow> bp_full_pull b) \<and> (\<forall>q \<in> set qs. ev_event q = bp_event b \<longrightarrow> told b q)"
  using assms
proof (induction qs arbitrary: b rule: rev_induct)
  case Nil
  then show ?case by (auto simp: clearPulls_def bp_clear_def)
next
  case (snoc q qs)
  then obtain c where c: "c \<in> set (foldl add_event (clearPulls bs) qs)" "b = (if bp_event c = ev_event q then addId (ev_param q) c else c)"
    using add_event_mem by (metis foldl_Cons foldl_Nil foldl_append)
  note ih = snoc.IH [OF c(1)]
  show ?case
  proof (cases "bp_event c = ev_event q")
    case True
    then have b: "b = addId (ev_param q) c" using c(2) by simp
    show ?thesis using ih addId_told [of c q] addId_keeps_told [of c] addId_full [of c] by (auto simp: b)
  next
    case False
    then show ?thesis using ih c(2) by auto
  qed
qed

lemma set_select_events [simp]: "set (select_events qs) = set qs" "length (select_events qs) = length qs"
  by (simp_all add: select_events_def)

section \<open>The invariant\<close>

abbreviation specs :: "PullSystem \<Rightarrow> PullSpec list" where
  "specs s \<equiv> map bp_spec (ms_pulls s)"

lemma pulls_ok_specs:
  "pulls_ok bs \<longleftrightarrow> list_all spec_ok (map bp_spec bs) \<and> distinct (map pu_event (map bp_spec bs)) \<and> distinct (map pu_dst_table (map bp_spec bs))"
  by (simp add: pulls_ok_def list.pred_map comp_def)

definition up_to_date :: "row_condition set \<Rightarrow> PullSystem \<Rightarrow> PullSpec \<Rightarrow> string \<Rightarrow> bool" where
  "up_to_date sqls s p k \<longleftrightarrow> synced_by sqls (ms_src s) (ms_dst s) p k"

definition waiting_event :: "PullSystem \<Rightarrow> PullSpec \<Rightarrow> string \<Rightarrow> bool" where
  "waiting_event s p k \<longleftrightarrow> (\<exists>q \<in> set (ms_queue s). concerns p k q)"

definition later_event :: "int \<Rightarrow> PullSystem \<Rightarrow> PullSpec \<Rightarrow> string \<Rightarrow> bool" where
  "later_event V s p k \<longleftrightarrow> (\<exists>q \<in> set (ms_queue s). concerns p k q \<and> V < ev_version q)"

definition todo_told :: "string list \<Rightarrow> int \<Rightarrow> PullSystem \<Rightarrow> bool" where
  "todo_told todo V s \<longleftrightarrow> distinct todo \<and> V \<le> ms_last_version s \<and>
     (\<forall>b \<in> set (ms_pulls s). bp_event b \<in> set todo \<longrightarrow> (pu_key (bp_spec b) = [] \<longrightarrow> bp_full_pull b) \<and>
        (\<forall>q \<in> set (ms_queue s). ev_event q = bp_event b \<and> ev_version q \<le> V \<longrightarrow> told b q))"

definition pull_phase_ok :: "row_condition set \<Rightarrow> PullSystem \<Rightarrow> bool" where
  "pull_phase_ok sqls s \<longleftrightarrow>
     (case ms_phase s of
        PullWaiting \<Rightarrow> True
      | Pulling todo V \<Rightarrow> todo_told todo V s
      | Deleting e rest V \<Rightarrow> e \<notin> set rest \<and> todo_told rest V s \<and>
          (\<forall>p \<in> set (specs s). pu_event p = e \<longrightarrow> (\<forall>k. up_to_date sqls s p k \<or> later_event V s p k)))"

definition no_loss :: "row_condition set \<Rightarrow> PullSystem \<Rightarrow> bool" where
  "no_loss sqls s \<longleftrightarrow> (\<forall>p \<in> set (specs s). \<forall>k. up_to_date sqls s p k \<or> waiting_event s p k)"

definition pull_inv :: "row_condition set \<Rightarrow> PullSystem \<Rightarrow> bool" where
  "pull_inv sqls s \<longleftrightarrow> pulls_ok (ms_pulls s) \<and> (\<forall>q \<in> set (ms_queue s). ev_version q \<le> ms_last_version s) \<and>
     (ms_overflow s \<or> no_loss sqls s \<and> pull_phase_ok sqls s)"

lemma later_waiting: "later_event V s p k \<Longrightarrow> waiting_event s p k"
  by (auto simp: later_event_def waiting_event_def)

text \<open>Changes made by others.\<close>

lemma synced_change:
  assumes "filter (of_key p k) (src' (pu_src_table p)) = filter (of_key p k) (src (pu_src_table p))"
  shows "synced sql src' dst p k = synced sql src dst p k"
proof -
  have "filter (\<lambda>r. of_key p k r \<and> where_ok sql p r) t = filter (where_ok sql p) (filter (of_key p k) t)" for t by simp
  then show ?thesis using assms unfolding synced_def by (simp del: filter_filter)
qed

lemma synced_by_change:
  assumes "filter (of_key p k) (src' (pu_src_table p)) = filter (of_key p k) (src (pu_src_table p))"
  shows "synced_by sqls src' dst p k = synced_by sqls src dst p k"
  using synced_change [of p k src' src, OF assms] by (simp add: synced_by_def)

lemma change_covers:
  assumes "announced pulls src src' queue queue' news" and "p \<in> bp_spec ` set pulls" and "\<And>n. n \<in> set news \<Longrightarrow> V < ev_version n"
  shows "synced_by sqls src dst p k \<Longrightarrow> synced_by sqls src' dst p k \<or> (\<exists>q \<in> set queue'. concerns p k q \<and> V < ev_version q)"
    and "q \<in> set queue \<Longrightarrow> concerns p k q \<Longrightarrow> q \<in> set queue' \<or> (\<exists>q' \<in> set queue'. concerns p k q' \<and> V < ev_version q')"
proof -
  have a: "set news \<subseteq> set queue'" "\<And>q. q \<in> set queue \<Longrightarrow> q \<in> set queue' \<or> (\<exists>n \<in> set news. ev_event n = ev_event q \<and> ev_param n = ev_param q)"
    "filter (of_key p k) (src' (pu_src_table p)) = filter (of_key p k) (src (pu_src_table p)) \<or> (\<exists>n \<in> set news. concerns p k n)"
    using assms(1,2) unfolding announced_def by blast+
  show "synced_by sqls src dst p k \<Longrightarrow> synced_by sqls src' dst p k \<or> (\<exists>q \<in> set queue'. concerns p k q \<and> V < ev_version q)"
    using a(1,3) assms(3) synced_by_change [of p k src' src sqls dst] by blast
  show "q \<in> set queue \<Longrightarrow> concerns p k q \<Longrightarrow> q \<in> set queue' \<or> (\<exists>q' \<in> set queue'. concerns p k q' \<and> V < ev_version q')"
    using a(1,2) assms(3) unfolding concerns_def by (metis subsetD)
qed

lemma todo_told_change:
  assumes "todo_told todo V s" and "set queue' \<subseteq> set (ms_queue s) \<union> set news" and "\<And>n. n \<in> set news \<Longrightarrow> ms_last_version s < ev_version n"
    and "ms_last_version s \<le> version'"
  shows "todo_told todo V (s\<lparr> ms_src := src', ms_queue := queue', ms_last_version := version' \<rparr>)"
proof -
  have V: "V \<le> ms_last_version s" using assms(1) by (simp add: todo_told_def)
  have "q \<in> set (ms_queue s)" if "q \<in> set queue'" "ev_version q \<le> V" for q using that assms(2,3) V by force
  then show ?thesis using assms(1,4) by (auto simp: todo_told_def)
qed

lemma pull_inv_change:
  assumes "pull_inv sqls s" and a: "announced (ms_pulls s) (ms_src s) src' (ms_queue s) queue' news"
    and v: "\<forall>n \<in> set news. ms_last_version s < ev_version n \<and> ev_version n \<le> version'" "ms_last_version s \<le> version'"
  shows "pull_inv sqls (s\<lparr> ms_src := src', ms_queue := queue', ms_last_version := version' \<rparr>)"
proof -
  let ?s = "s\<lparr> ms_src := src', ms_queue := queue', ms_last_version := version' \<rparr>"
  have sub: "set queue' \<subseteq> set (ms_queue s) \<union> set news" using a by (simp add: announced_def)
  have ok: "pulls_ok (ms_pulls s)" "\<And>q. q \<in> set (ms_queue s) \<Longrightarrow> ev_version q \<le> ms_last_version s"
    using assms(1) by (auto simp: pull_inv_def)
  have vers: "\<forall>q \<in> set queue'. ev_version q \<le> version'" using sub ok(2) v by force
  have keep: "up_to_date sqls ?s p k \<or> later_event V ?s p k" if "up_to_date sqls s p k" "p \<in> set (specs s)" "V \<le> ms_last_version s" for p k V
    using change_covers(1) [OF a, of p V sqls "ms_dst s" k] that v(1) by (fastforce simp: up_to_date_def later_event_def)
  have keep2: "later_event V ?s p k" if "later_event V s p k" "p \<in> set (specs s)" "V \<le> ms_last_version s" for p k V
    using change_covers(2) [OF a, of p V] that v(1) unfolding later_event_def by fastforce
  have keep3: "waiting_event ?s p k" if "waiting_event s p k" "p \<in> set (specs s)" for p k
    using change_covers(2) [OF a, of p "ms_last_version s"] that v(1) unfolding waiting_event_def by fastforce
  have sp: "specs ?s = specs s" by simp
  have loss: "no_loss sqls ?s" if "no_loss sqls s"
    using that keep [OF _ _ order_refl] keep3 later_waiting unfolding no_loss_def sp by blast
  have phase: "pull_phase_ok sqls ?s" if "pull_phase_ok sqls s"
  proof (cases "ms_phase s")
    case (Pulling todo V)
    then show ?thesis using that todo_told_change [OF _ sub] v by (simp add: pull_phase_ok_def)
  next
    case (Deleting e rest V)
    then have d: "e \<notin> set rest" "todo_told rest V s" "\<And>p k. p \<in> set (specs s) \<Longrightarrow> pu_event p = e \<Longrightarrow> up_to_date sqls s p k \<or> later_event V s p k"
      using that by (auto simp: pull_phase_ok_def)
    have "V \<le> ms_last_version s" using d(2) by (simp add: todo_told_def)
    then have "up_to_date sqls ?s p k \<or> later_event V ?s p k" if "p \<in> set (specs s)" "pu_event p = e" for p k
      using d(3) [OF that, of k] keep keep2 that(1) by blast
    then show ?thesis using d(1) todo_told_change [OF d(2) sub] v Deleting unfolding pull_phase_ok_def sp by simp
  qed (simp add: pull_phase_ok_def)
  show ?thesis using assms(1) vers loss phase by (auto simp: pull_inv_def)
qed

text \<open>The steps of the manager.\<close>

lemma pull_inv_read:
  assumes "pull_inv sqls s" and "ms_queue s \<noteq> []"
  shows "pull_inv sqls (pull_read n s)"
proof -
  define rows where "rows = select_events (ms_queue s)"
  let ?s = "pull_read n s" and ?V = "ev_version (last rows)"
  have ne: "rows \<noteq> []" using assms(2) set_select_events [of "ms_queue s"] by (metis rows_def length_0_conv)
  have ok: "pulls_ok (ms_pulls s)" "\<And>q. q \<in> set (ms_queue s) \<Longrightarrow> ev_version q \<le> ms_last_version s"
    using assms(1) by (auto simp: pull_inv_def)
  have sp: "specs ?s = specs s" by (simp add: pull_read_def Let_def add_events_specs clearPulls_def comp_def)
  have pk: "pulls_ok (ms_pulls ?s)" using ok(1) unfolding pulls_ok_specs sp .
  have q: "set (ms_queue ?s) \<subseteq> set (ms_queue s)" "\<And>q. q \<in> set (ms_queue s) \<Longrightarrow> known_event (ms_pulls s) (ev_event q) \<Longrightarrow> q \<in> set (ms_queue ?s)"
    by (auto simp: pull_read_def Let_def)
  have same: "ms_last_version ?s = ms_last_version s" "ms_src ?s = ms_src s" "ms_dst ?s = ms_dst s" by (simp_all add: pull_read_def Let_def)
  have "last rows \<in> set rows" using ne by simp
  then have V: "?V \<le> ms_last_version s" using ok(2) by (simp add: rows_def)
  have wait: "waiting_event ?s p k" if "waiting_event s p k" "p \<in> set (specs s)" for p k
    using that q(2) by (fastforce simp: waiting_event_def concerns_def known_event_def)
  have "no_loss sqls ?s" if "no_loss sqls s"
    using that wait unfolding no_loss_def sp up_to_date_def same by blast
  moreover have "pull_phase_ok sqls ?s" if "\<not> ms_overflow ?s"
  proof -
    have "length rows \<le> n" using that by (simp add: pull_read_def Let_def rows_def)
    then have p: "ms_pulls ?s = foldl add_event (clearPulls (ms_pulls s)) rows" by (simp add: pull_read_def Let_def rows_def)
    have "(pu_key (bp_spec b) = [] \<longrightarrow> bp_full_pull b) \<and> (\<forall>q \<in> set (ms_queue ?s). ev_event q = bp_event b \<and> ev_version q \<le> ?V \<longrightarrow> told b q)"
      if "b \<in> set (ms_pulls ?s)" for b
      using add_events_told [OF that [unfolded p]] q(1) by (auto simp: rows_def)
    moreover have "distinct (map bp_event (ms_pulls s))" using ok(1) by (simp add: pulls_ok_def)
    ultimately have "todo_told (map bp_event (ms_pulls s)) ?V ?s" using V unfolding todo_told_def same by blast
    moreover have "ms_phase ?s = Pulling (map bp_event (ms_pulls s)) ?V" by (simp add: pull_read_def Let_def rows_def)
    ultimately show ?thesis by (simp add: pull_phase_ok_def)
  qed
  moreover have "\<not> ms_overflow s" if "\<not> ms_overflow ?s" using that by (simp add: pull_read_def Let_def)
  ultimately show ?thesis using assms(1) pk q(1) same(1) unfolding pull_inv_def by (metis subsetD)
qed

lemma pull_one_state:
  assumes "b \<in> set (ms_pulls s)" and "pulls_ok (ms_pulls s)" and "bp_event b = e"
  shows "pull_one sql e rest V s = s\<lparr> ms_pulls := map (\<lambda>c. if bp_event c = e then fst (bp_pull sql (ms_src s) b (ms_dst s)) else c) (ms_pulls s),
    ms_dst := snd (bp_pull sql (ms_src s) b (ms_dst s)), ms_phase := Deleting e rest V \<rparr>"
proof -
  have "List.find (\<lambda>c. bp_event c = e) (ms_pulls s) = Some b"
  proof (cases "List.find (\<lambda>c. bp_event c = e) (ms_pulls s)")
    case None
    then show ?thesis using assms(1,3) by (simp add: find_None_iff)
  next
    case (Some c)
    then have "c \<in> set (ms_pulls s)" "bp_event c = e" by (auto simp: find_Some_iff)
    then have "c = b" using assms unfolding pulls_ok_def by (metis distinct_map inj_on_def)
    then show ?thesis using Some by simp
  qed
  then show ?thesis by (simp add: pull_one_def prod.case_eq_if)
qed

lemma pull_inv_pull:
  assumes "pull_inv sqls s" and ph: "ms_phase s = Pulling (e # rest) V" and sql: "sql \<in> sqls"
  shows "pull_inv sqls (pull_one sql e rest V s)"
proof (cases "\<exists>b \<in> set (ms_pulls s). bp_event b = e")
  case False
  then have "List.find (\<lambda>b. bp_event b = e) (ms_pulls s) = None" by (simp add: find_None_iff)
  then show ?thesis using assms(1) by (simp add: pull_one_def)
next
  case True
  then obtain b where b: "b \<in> set (ms_pulls s)" "bp_event b = e" by blast
  have ok: "pulls_ok (ms_pulls s)" "\<And>q. q \<in> set (ms_queue s) \<Longrightarrow> ev_version q \<le> ms_last_version s"
    using assms(1) by (auto simp: pull_inv_def)
  let ?s = "pull_one sql e rest V s" and ?r = "bp_pull sql (ms_src s) b (ms_dst s)"
  note st = pull_one_state [OF b(1) ok(1) b(2), of sql rest V]
  have eq: "c = b" if "c \<in> set (ms_pulls s)" "bp_event c = e" for c
    using that b ok(1) unfolding pulls_ok_def by (metis distinct_map inj_on_def)
  have sp: "specs ?s = specs s" unfolding st using eq by (auto simp: comp_def)
  have pk: "pulls_ok (ms_pulls ?s)" using ok(1) unfolding pulls_ok_specs sp .
  have same: "ms_queue ?s = ms_queue s" "ms_last_version ?s = ms_last_version s" "ms_overflow ?s = ms_overflow s" "ms_src ?s = ms_src s"
    "ms_phase ?s = Deleting e rest V" "ms_dst ?s = snd ?r" by (simp_all add: st)
  have bs: "spec_ok (bp_spec b)" using ok(1) b(1) by (simp add: pulls_ok_def list_all_iff)
  have other: "up_to_date sqls ?s p k = up_to_date sqls s p k" if pe: "p \<in> set (specs s)" "pu_event p \<noteq> e" for p k
  proof -
    obtain c where c: "c \<in> set (ms_pulls s)" "p = bp_spec c" using pe(1) by auto
    have "pu_dst_table p \<noteq> pu_dst_table (bp_spec b)" using c b pe(2) ok(1) unfolding pulls_ok_def by (metis (mono_tags, lifting) distinct_map inj_on_def)
    then show ?thesis by (simp add: up_to_date_def synced_by_def synced_def same bp_pull_other_table)
  qed
  show ?thesis
  proof (cases "ms_overflow s")
    case False
    then have nl: "no_loss sqls s" and td: "todo_told (e # rest) V s" using assms by (auto simp: pull_inv_def pull_phase_ok_def)
    have main: "up_to_date sqls ?s p k \<or> later_event V ?s p k" if "p \<in> set (specs s)" "pu_event p = e" for p k
    proof -
      have p: "p = bp_spec b" using that eq by auto
      have "bp_spec b \<in> set (specs s)" using b(1) by simp
      then have "synced_by sqls (ms_src s) (ms_dst s) (bp_spec b) k \<or> (\<exists>q \<in> set (ms_queue s). concerns (bp_spec b) k q)"
        using nl unfolding no_loss_def up_to_date_def waiting_event_def by blast
      then show ?thesis using pull_synced [OF bs _ sql, of "ms_src s" "ms_dst s" k "set (ms_queue s)" V] td b
        by (auto simp: todo_told_def p up_to_date_def later_event_def same)
    qed
    have wq: "waiting_event ?s p k = waiting_event s p k" for p k by (simp add: waiting_event_def same)
    have "up_to_date sqls ?s p k \<or> waiting_event ?s p k" if "p \<in> set (specs s)" for p k
      using nl main [OF that, of k] other [OF that, of k] later_waiting [of V ?s p k] wq that unfolding no_loss_def by blast
    then have "no_loss sqls ?s" unfolding no_loss_def sp by blast
    moreover have "todo_told rest V ?s"
      using td b(2) unfolding todo_told_def same by (auto simp: st)
    ultimately show ?thesis using pk ok(2) main td unfolding pull_inv_def pull_phase_ok_def sp same by (simp add: todo_told_def)
  qed (use pk ok(2) same in \<open>simp add: pull_inv_def\<close>)
qed

lemma todo_told_tl: "todo_told (e # rest) V s \<Longrightarrow> todo_told rest V s"
  by (simp add: todo_told_def)

lemma todo_told_queue: "todo_told todo V s \<Longrightarrow> set queue' \<subseteq> set (ms_queue s) \<Longrightarrow> todo_told todo V (s\<lparr> ms_queue := queue', ms_phase := ph \<rparr>)"
  by (auto simp: todo_told_def)

lemma pull_inv_failed:
  assumes "pull_inv sqls s" and "ms_phase s = Pulling (e # rest) V \<or> ms_phase s = Deleting e rest V"
  shows "pull_inv sqls (pull_failed rest V s)"
proof -
  have "todo_told rest V (pull_failed rest V s)" if "\<not> ms_overflow s"
    using assms that todo_told_tl [of e rest V s] by (auto simp: pull_inv_def pull_phase_ok_def pull_failed_def todo_told_def)
  then show ?thesis using assms(1)
    by (auto simp: pull_inv_def pull_phase_ok_def pull_failed_def no_loss_def up_to_date_def waiting_event_def)
qed

lemma pull_inv_delete:
  assumes "pull_inv sqls s" and ph: "ms_phase s = Deleting e rest V"
  shows "pull_inv sqls (delete_events e rest V s)"
proof -
  let ?s = "delete_events e rest V s"
  have same: "ms_pulls ?s = ms_pulls s" "ms_last_version ?s = ms_last_version s" "ms_overflow ?s = ms_overflow s" "ms_phase ?s = Pulling rest V"
    "ms_src ?s = ms_src s" "ms_dst ?s = ms_dst s" by (simp_all add: delete_events_def)
  have sub: "set (ms_queue ?s) \<subseteq> set (ms_queue s)" by (auto simp: delete_events_def)
  have later: "waiting_event ?s p k" if "later_event V s p k" for p k
    using that by (fastforce simp: waiting_event_def later_event_def delete_events_def)
  have wait: "waiting_event ?s p k" if "waiting_event s p k" "pu_event p \<noteq> e" for p k
    using that by (fastforce simp: waiting_event_def concerns_def delete_events_def)
  have ud: "up_to_date sqls ?s p k = up_to_date sqls s p k" for p k by (simp add: up_to_date_def same)
  have "no_loss sqls ?s \<and> pull_phase_ok sqls ?s" if "\<not> ms_overflow s"
  proof
    have nl: "no_loss sqls s" and d: "todo_told rest V s" "\<And>p k. p \<in> set (specs s) \<Longrightarrow> pu_event p = e \<Longrightarrow> up_to_date sqls s p k \<or> later_event V s p k"
      using assms that by (auto simp: pull_inv_def pull_phase_ok_def)
    show "no_loss sqls ?s" using nl d(2) later wait unfolding no_loss_def same ud by blast
    show "pull_phase_ok sqls ?s" using todo_told_queue [OF d(1) sub] by (simp add: pull_phase_ok_def delete_events_def)
  qed
  then show ?thesis using assms(1) sub unfolding pull_inv_def same by blast
qed

lemma pull_inv_finish: "pull_inv sqls s \<Longrightarrow> pull_inv sqls (s\<lparr> ms_phase := PullWaiting \<rparr>)"
  by (auto simp: pull_inv_def pull_phase_ok_def no_loss_def up_to_date_def waiting_event_def)

lemma pull_inv_step:
  assumes "pull_step n sqls s s'" and "pull_inv sqls s"
  shows "pull_inv sqls s'"
  using assms
  by (cases rule: pull_step.cases)
    (auto intro: pull_inv_change pull_inv_read pull_inv_pull pull_inv_failed pull_inv_delete pull_inv_finish)

section \<open>The registry\<close>

lemma manager_add_specs:
  "pu_event p \<notin> bp_event ` set bs \<Longrightarrow> mset (map bp_spec (manager_add bs p)) = add_mset p (mset (map bp_spec bs))"
  by (induction bs p rule: manager_add.induct) (auto simp: BasePull_new_def)

lemma foldl_add_specs:
  assumes "distinct (map pu_event (map bp_spec bs @ ps))"
  shows "mset (map bp_spec (foldl manager_add bs ps)) = mset (map bp_spec bs @ ps)"
  using assms
proof (induction ps arbitrary: bs)
  case (Cons p ps)
  have m: "mset (map bp_spec (manager_add bs p)) = add_mset p (mset (map bp_spec bs))"
    using Cons.prems by (intro manager_add_specs) (auto simp: image_image)
  then have "mset (map pu_event (map bp_spec (manager_add bs p) @ ps)) = mset (map pu_event (map bp_spec bs @ p # ps))"
    by (metis (no_types, lifting) add_mset_add_single mset.simps(2) mset_append mset_map union_mset_add_mset_left union_mset_add_mset_right)
  then have "distinct (map pu_event (map bp_spec (manager_add bs p) @ ps))" using Cons.prems mset_eq_imp_distinct_iff by blast
  then show ?case using Cons.IH m by simp
qed simp

lemma all_pulls_events:
  "map pu_event (all_pulls api_host regions) =
    [''client'', ''organization'', ''geo'', ''mob_prefix'', ''geo_prefix'', ''instance_settings'',
     ''network_prefix'', ''operator'', ''pricelist'', ''tariff'', ''tariff_package'', ''defs'', ''service_number'',
     ''service_package'', ''service_trunk'', ''service_trunk_settings'', ''tariff_change_log'', ''stat_prefixlist'',
     ''stat_destination_prefixlists'', ''currency_rate'', ''server'', ''hub'', ''airp'', ''number'', ''outcome'',
     ''prefixlist'', ''prefixlist_prefix'', ''release_reason'', ''route_case'', ''route_table'',
     ''route_table_route'', ''routing_report_data'', ''trunk'', ''trunk_group'', ''trunk_group_item'',
     ''trunk_number_preprocessing'', ''trunk_priority'', ''trunk_rule'', ''trunk_trunk_rule'',
     ''nnp_account_tariff_light'', ''nnp_number_range_prefix'', ''nnp_operator'', ''nnp_package_pricelist'',
     ''nnp_package'', ''nnp_prefix'', ''nnp_destination'', ''nnp_number_range'', ''nnp_package_minute'',
     ''nnp_package_price'', ''nnp_prefix_destination'', ''nnp_region'', ''nnp_country'']"
  by (simp add: all_pulls_def pull_tables_defs)

lemma all_pulls_tables:
  "map pu_dst_table (all_pulls api_host regions) =
    [''billing.clients'', ''billing.organization'', ''geo.geo'', ''geo.mob_prefix'', ''geo.prefix'',
     ''billing.instance_settings'', ''billing.network_prefix'', ''billing.operator'', ''billing.pricelist'',
     ''billing.tariff'', ''billing.tariff_package'', ''billing.defs'', ''billing.service_number'',
     ''billing.service_package'', ''billing.service_trunk'', ''billing.service_trunk_settings'',
     ''billing.tariff_change_log'', ''billing.stat_prefixlist'', ''billing.stat_destination_prefixlists'',
     ''billing.currency_rate'', ''public.server'', ''auth.hub'', ''auth.airp'', ''auth.number'', ''auth.outcome'',
     ''auth.prefixlist'', ''auth.prefixlist_prefix'', ''auth.release_reason'', ''auth.route_case'',
     ''auth.route_table'', ''auth.route_table_route'', ''auth.routing_report_data'', ''auth.trunk'',
     ''auth.trunk_group'', ''auth.trunk_group_item'', ''auth.trunk_number_preprocessing'', ''auth.trunk_priority'',
     ''auth.trunk_rule'', ''auth.trunk_trunk_rule'', ''nnp.account_tariff_light'', ''nnp.number_range_prefix'',
     ''nnp.operator'', ''nnp.package_pricelist'', ''nnp.package'', ''nnp.prefix'', ''nnp.destination'',
     ''nnp.number_range'', ''nnp.package_minute'', ''nnp.package_price'', ''nnp.prefix_destination'',
     ''nnp.region'', ''nnp.country'']"
  by (simp add: all_pulls_def pull_tables_defs)

lemma all_pulls_distinct:
  "distinct (map pu_event (all_pulls api_host regions))" "distinct (map pu_dst_table (all_pulls api_host regions))"
  unfolding all_pulls_events all_pulls_tables by code_simp+

lemma all_pulls_spec_ok: "list_all spec_ok (all_pulls api_host regions)"
  by (simp add: all_pulls_def spec_ok_def pull_tables_defs)

lemma all_pulls_columns: "list_all columns_match (all_pulls api_host regions)"
  by (simp add: all_pulls_def columns_match_def declares_def pull_tables_defs)

lemma manager_pulls_ok: "pulls_ok (manager_pulls api_host regions)"
proof -
  have m: "mset (map bp_spec (manager_pulls api_host regions)) = mset (all_pulls api_host regions)"
    using foldl_add_specs [of "[]" "all_pulls api_host regions"] all_pulls_distinct(1) by (simp add: manager_pulls_def)
  have "mset (map f (map bp_spec (manager_pulls api_host regions))) = mset (map f (all_pulls api_host regions))" for f :: "PullSpec \<Rightarrow> string"
    using m by (metis mset_map)
  then have "distinct (map f (map bp_spec (manager_pulls api_host regions))) = distinct (map f (all_pulls api_host regions))" for f :: "PullSpec \<Rightarrow> string"
    using mset_eq_imp_distinct_iff by blast
  moreover have "set (map bp_spec (manager_pulls api_host regions)) = set (all_pulls api_host regions)" using m by (metis set_mset_mset)
  ultimately show ?thesis using all_pulls_distinct all_pulls_spec_ok unfolding pulls_ok_specs list_all_iff by metis
qed

end
