(* ===== verification/Pull_Results.thy ===== *)
theory Pull_Results
  imports Pull_Properties
begin

text \<open>The results on replication, with examples.\<close>

section \<open>Consistent descriptions\<close>

text \<open>C34: the 52 registered tables are described consistently: no two share an event or a target table, the key of a table
  is one of its columns, columns and their declarations agree in number, order and name, and a table fetched without
  declarations has no filter, which that path would ignore.\<close>

theorem registered_tables_ok:
  "pulls_ok (manager_pulls api_host regions) \<and> length (all_pulls api_host regions) = 52 \<and>
   list_all (\<lambda>p. spec_ok p \<and> columns_match p) (all_pulls api_host regions)"
proof -
  have "length (all_pulls api_host regions) = length (map pu_event (all_pulls api_host regions))" by simp
  also have "\<dots> = 52" unfolding all_pulls_events by simp
  finally show ?thesis using manager_pulls_ok all_pulls_spec_ok all_pulls_columns by (auto simp: list_all_iff)
qed

section \<open>Nothing is missed\<close>

lemma pull_inv_steps: "(pull_step n sqls)\<^sup>*\<^sup>* s s' \<Longrightarrow> pull_inv sqls s \<Longrightarrow> pull_inv sqls s'"
  by (induction rule: rtranclp_induct) (auto intro: pull_inv_step)

text \<open>Where replication starts: between two rounds, every row up to date or announced.\<close>

definition fresh_system :: "row_condition set \<Rightarrow> PullSystem \<Rightarrow> bool" where
  "fresh_system sqls s \<longleftrightarrow> ms_phase s = PullWaiting \<and> ms_overflow s = False \<and>
     (\<forall>q \<in> set (ms_queue s). ev_version q \<le> ms_last_version s) \<and> no_loss sqls s"

lemma fresh_inv: "fresh_system sqls s \<Longrightarrow> pulls_ok (ms_pulls s) \<Longrightarrow> pull_inv sqls s"
  by (simp add: fresh_system_def pull_inv_def pull_phase_ok_def)

text \<open>C15: in every state reached by any interleaving of changes to the central tables with the statements of the manager,
  failures included, the rows of every key of every registered table are those of the central table, or an event
  that concerns them is in the queue, provided that never more than \<open>part_size\<close> events waited when the queue was
  read. For a table with a \<open>where\<close> clause the rows are those of the central table that met the clause as it stood at
  a moment of the run.\<close>

theorem pull_no_update_lost:
  assumes "fresh_system sqls s" and "ms_pulls s = manager_pulls api_host regions" and "(pull_step 100 sqls)\<^sup>*\<^sup>* s s'"
    and "ms_overflow s' = False" and "b \<in> set (ms_pulls s')"
  shows "synced_by sqls (ms_src s') (ms_dst s') (bp_spec b) k \<or> (\<exists>q. q \<in> set (ms_queue s') \<and> concerns (bp_spec b) k q)"
proof -
  have "pull_inv sqls s" using fresh_inv [OF assms(1)] manager_pulls_ok assms(2) by metis
  then have "no_loss sqls s'" using pull_inv_steps [OF assms(3)] assms(4) by (simp add: pull_inv_def)
  then show ?thesis using assms(5) by (auto simp: no_loss_def up_to_date_def waiting_event_def)
qed

section \<open>A round by itself\<close>

lemma pull_one_keeps:
  assumes "pulls_ok (ms_pulls s)" and "e \<in> bp_event ` set (ms_pulls s)"
  shows "specs (pull_one sql e rest V s) = specs s" and "ms_phase (pull_one sql e rest V s) = Deleting e rest V"
    and "ms_queue (pull_one sql e rest V s) = ms_queue s" and "ms_overflow (pull_one sql e rest V s) = ms_overflow s"
proof -
  obtain b where b: "b \<in> set (ms_pulls s)" "bp_event b = e" using assms(2) by auto
  note st = pull_one_state [OF b(1) assms(1) b(2), of sql rest V]
  have eq: "c = b" if "c \<in> set (ms_pulls s)" "bp_event c = e" for c
    using that b assms(1) unfolding pulls_ok_def by (metis distinct_map inj_on_def)
  show "specs (pull_one sql e rest V s) = specs s" unfolding st using eq by (auto simp: comp_def)
  show "ms_phase (pull_one sql e rest V s) = Deleting e rest V" "ms_queue (pull_one sql e rest V s) = ms_queue s"
    "ms_overflow (pull_one sql e rest V s) = ms_overflow s" by (simp_all add: st)
qed

lemma events_of_specs: "bp_event ` set (ms_pulls s) = pu_event ` set (specs s)"
  by (simp add: image_image)

lemma pull_all_keeps:
  assumes "pulls_ok (ms_pulls s)" and "set todo \<subseteq> bp_event ` set (ms_pulls s)"
  shows "specs (pull_all sql todo V s) = specs s \<and> ms_overflow (pull_all sql todo V s) = ms_overflow s \<and>
    ms_queue (pull_all sql todo V s) = filter (\<lambda>q. \<not> (ev_event q \<in> set todo \<and> ev_version q \<le> V)) (ms_queue s)"
  using assms
proof (induction todo arbitrary: s)
  case (Cons e rest)
  let ?s = "delete_events e rest V (pull_one sql e rest V s)"
  have e: "e \<in> bp_event ` set (ms_pulls s)" using Cons.prems(2) by simp
  note k = pull_one_keeps [OF Cons.prems(1) e, of sql rest V]
  have d: "specs ?s = specs s" "ms_overflow ?s = ms_overflow s"
    "ms_queue ?s = filter (\<lambda>q. \<not> (ev_event q = e \<and> ev_version q \<le> V)) (ms_queue s)" using k by (simp_all add: delete_events_def)
  have "pulls_ok (ms_pulls ?s)" using Cons.prems(1) unfolding pulls_ok_specs d(1) .
  moreover have "set rest \<subseteq> bp_event ` set (ms_pulls ?s)" using Cons.prems(2) unfolding events_of_specs d(1) by simp
  ultimately have ih: "specs (pull_all sql rest V ?s) = specs ?s \<and> ms_overflow (pull_all sql rest V ?s) = ms_overflow ?s \<and>
      ms_queue (pull_all sql rest V ?s) = filter (\<lambda>q. \<not> (ev_event q \<in> set rest \<and> ev_version q \<le> V)) (ms_queue ?s)" by (rule Cons.IH)
  have "filter (\<lambda>q. \<not> (ev_event q \<in> set rest \<and> ev_version q \<le> V)) (ms_queue ?s) =
      filter (\<lambda>q. \<not> (ev_event q \<in> set (e # rest) \<and> ev_version q \<le> V)) (ms_queue s)"
    unfolding d(3) filter_filter by (rule filter_cong) auto
  then show ?case using ih unfolding pull_all.simps d(1,2) by presburger
qed simp

lemma pull_read_keeps:
  "specs (pull_read n s) = specs s" "length (ms_queue (pull_read n s)) \<le> length (ms_queue s)"
  "set (ms_queue (pull_read n s)) \<subseteq> set (ms_queue s)" "ms_dst (pull_read n s) = ms_dst s"
  by (auto simp: pull_read_def Let_def add_events_specs clearPulls_def comp_def)

lemma pull_round_keeps:
  assumes "pulls_ok (ms_pulls s)"
  shows "specs (pull_round n sql s) = specs s" "pulls_ok (ms_pulls (pull_round n sql s))"
    "ms_queue (pull_round n sql s) = filter (\<lambda>q. \<not> (known_event (ms_pulls s) (ev_event q) \<and> ev_version q \<le> ev_version (last (select_events (ms_queue s)))))
       (ms_queue (pull_read n s))"
    "ms_overflow (pull_round n sql s) = (ms_overflow s \<or> n < length (ms_queue s))"
proof -
  let ?s = "pull_read n s" and ?V = "ev_version (last (select_events (ms_queue s)))"
  have ok: "pulls_ok (ms_pulls ?s)" using assms unfolding pulls_ok_specs pull_read_keeps(1) .
  have "set (map bp_event (ms_pulls s)) \<subseteq> bp_event ` set (ms_pulls ?s)" unfolding events_of_specs pull_read_keeps(1) by (simp add: image_image)
  note k = pull_all_keeps [OF ok this, of sql ?V]
  show "specs (pull_round n sql s) = specs s" using k by (simp add: pull_round_def pull_read_keeps(1))
  then show "pulls_ok (ms_pulls (pull_round n sql s))" using assms unfolding pulls_ok_specs by simp
  show "ms_queue (pull_round n sql s) = filter (\<lambda>q. \<not> (known_event (ms_pulls s) (ev_event q) \<and> ev_version q \<le> ?V)) (ms_queue ?s)"
    using k by (simp add: pull_round_def known_event_def)
  show "ms_overflow (pull_round n sql s) = (ms_overflow s \<or> n < length (ms_queue s))" using k by (simp add: pull_round_def pull_read_def Let_def)
qed

section \<open>Beyond the first part\<close>

lemma pull_all_untouched:
  assumes "pulls_ok (ms_pulls s)" and "set todo \<subseteq> bp_event ` set (ms_pulls s)" and "b \<in> set (ms_pulls s)" and "\<not> bp_need_pull b"
  shows "ms_dst (pull_all sql todo V s) (pu_dst_table (bp_spec b)) = ms_dst s (pu_dst_table (bp_spec b))"
  using assms(1-3)
proof (induction todo arbitrary: s)
  case (Cons e rest)
  let ?s = "delete_events e rest V (pull_one sql e rest V s)"
  obtain c where c: "c \<in> set (ms_pulls s)" "bp_event c = e" using Cons.prems(2) by auto
  note st = pull_one_state [OF c(1) Cons.prems(1) c(2), of sql rest V]
  have e: "e \<in> bp_event ` set (ms_pulls s)" using c by auto
  have sp: "specs ?s = specs s" using pull_one_keeps(1) [OF Cons.prems(1) e] by (simp add: delete_events_def)
  have same: "b = c" if "bp_event b = e" using that c Cons.prems(1,3) unfolding pulls_ok_def by (metis distinct_map inj_on_def)
  have "fst (bp_pull sql (ms_src s) b (ms_dst s)) = b" "snd (bp_pull sql (ms_src s) b (ms_dst s)) = ms_dst s" using assms(4) by (simp_all add: bp_pull_def)
  then have b: "b \<in> set (ms_pulls ?s)" using same Cons.prems(3) by (force simp: delete_events_def st)
  have "pu_dst_table (bp_spec c) \<noteq> pu_dst_table (bp_spec b)" if "bp_event b \<noteq> e"
    using that c Cons.prems(1,3) unfolding pulls_ok_def by (metis (mono_tags, lifting) distinct_map inj_on_def)
  then have d: "ms_dst ?s (pu_dst_table (bp_spec b)) = ms_dst s (pu_dst_table (bp_spec b))"
    using same assms(4) bp_pull_other_table [of "pu_dst_table (bp_spec b)" c] by (cases "bp_event b = e") (auto simp: delete_events_def st bp_pull_def)
  have "pulls_ok (ms_pulls ?s)" using Cons.prems(1) unfolding pulls_ok_specs sp .
  moreover have "set rest \<subseteq> bp_event ` set (ms_pulls ?s)" using Cons.prems(2) unfolding events_of_specs sp by simp
  ultimately have "ms_dst (pull_all sql rest V ?s) (pu_dst_table (bp_spec b)) = ms_dst ?s (pu_dst_table (bp_spec b))" using b by (rule Cons.IH)
  then show ?case using d by simp
qed simp

lemma add_events_not_told:
  assumes "b \<in> set bs" and "bp_event b \<notin> ev_event ` set qs"
  shows "b \<in> set (foldl add_event bs qs)"
  using assms
proof (induction qs arbitrary: bs)
  case (Cons q qs)
  have "b \<in> set (add_event bs q)" using Cons.prems by (force simp: add_event_def)
  then show ?case using Cons by simp
qed simp

text \<open>C33: when more events wait than a part takes, an event beyond the part whose table is not among those of the part is
  removed from the queue, if its version is not above that of the last event, while its table is not touched: the
  change it announced is lost.\<close>

theorem events_beyond_part_lost:
  assumes "pulls_ok (ms_pulls s)" and "b \<in> set (ms_pulls s)" and "q \<in> set (ms_queue s)" and "ev_event q = bp_event b"
    and "ev_event q \<notin> ev_event ` set (take part_size (select_events (ms_queue s)))"
    and "ev_version q \<le> ev_version (last (select_events (ms_queue s)))"
  shows "q \<notin> set (ms_queue (pull_round part_size sql s)) \<and>
    ms_dst (pull_round part_size sql s) (pu_dst_table (bp_spec b)) = ms_dst s (pu_dst_table (bp_spec b))"
proof
  let ?part = "take part_size (select_events (ms_queue s))"
  have "known_event (ms_pulls s) (ev_event q)" using assms(2,4) by (simp add: known_event_def)
  then show "q \<notin> set (ms_queue (pull_round part_size sql s))" using pull_round_keeps(3) [OF assms(1)] assms(6) by simp
  have "bp_clear b \<in> set (clearPulls (ms_pulls s))" using assms(2) by (simp add: clearPulls_def)
  then have b: "bp_clear b \<in> set (ms_pulls (pull_read part_size s))"
    using add_events_not_told [of "bp_clear b" "clearPulls (ms_pulls s)" ?part] assms(4,5) by (simp add: pull_read_def Let_def)
  have ok: "pulls_ok (ms_pulls (pull_read part_size s))" using assms(1) unfolding pulls_ok_specs pull_read_keeps(1) .
  have sub: "set (map bp_event (ms_pulls s)) \<subseteq> bp_event ` set (ms_pulls (pull_read part_size s))"
    unfolding events_of_specs pull_read_keeps(1) by (simp add: image_image)
  show "ms_dst (pull_round part_size sql s) (pu_dst_table (bp_spec b)) = ms_dst s (pu_dst_table (bp_spec b))"
    using pull_all_untouched [OF ok sub b] by (simp add: pull_round_def pull_read_keeps(4) bp_clear_def)
qed

section \<open>The rounds end\<close>

lemma pull_all_inv:
  assumes "pull_inv sqls s" and "sql \<in> sqls" and "ms_phase s = Pulling todo V" and "set todo \<subseteq> bp_event ` set (ms_pulls s)"
  shows "pull_inv sqls (pull_all sql todo V s)"
  using assms(1,3,4)
proof (induction todo arbitrary: s)
  case Nil
  then show ?case by (simp add: pull_inv_finish)
next
  case (Cons e rest)
  have ok: "pulls_ok (ms_pulls s)" using Cons.prems(1) by (simp add: pull_inv_def)
  have e: "e \<in> bp_event ` set (ms_pulls s)" using Cons.prems(3) by simp
  note k = pull_one_keeps [OF ok e, of sql rest V]
  let ?s = "delete_events e rest V (pull_one sql e rest V s)"
  have "pull_inv sqls ?s" using pull_inv_delete [OF pull_inv_pull [OF Cons.prems(1,2) assms(2)] k(2)] .
  moreover have "specs ?s = specs s" using k(1) by (simp add: delete_events_def)
  then have "set rest \<subseteq> bp_event ` set (ms_pulls ?s)" using Cons.prems(3) unfolding events_of_specs by simp
  ultimately show ?case using Cons.IH [of ?s] by (simp add: delete_events_def)
qed

lemma pull_round_inv:
  assumes "pull_inv sqls s" and "sql \<in> sqls" and "ms_queue s \<noteq> []"
  shows "pull_inv sqls (pull_round n sql s)"
  unfolding pull_round_def
proof (rule pull_all_inv)
  show "pull_inv sqls (pull_read n s)" by (rule pull_inv_read [OF assms(1,3)])
  show "sql \<in> sqls" by (rule assms(2))
  show "ms_phase (pull_read n s) = Pulling (map bp_event (ms_pulls s)) (ev_version (last (select_events (ms_queue s))))"
    by (simp add: pull_read_def Let_def)
  show "set (map bp_event (ms_pulls s)) \<subseteq> bp_event ` set (ms_pulls (pull_read n s))"
    unfolding events_of_specs pull_read_keeps(1) by (simp add: image_image)
qed

lemma pull_round_shrinks:
  assumes "pulls_ok (ms_pulls s)" and "ms_queue s \<noteq> []" and "length (ms_queue s) \<le> n"
  shows "length (ms_queue (pull_round n sql s)) < length (ms_queue s)"
proof -
  let ?q = "last (select_events (ms_queue s))"
  have "select_events (ms_queue s) \<noteq> []" using assms(2) set_select_events(2) [of "ms_queue s"] by (metis length_0_conv)
  then have q: "?q \<in> set (ms_queue s)" using last_in_set set_select_events(1) by blast
  have "?q \<notin> set (ms_queue (pull_round n sql s))"
  proof (cases "known_event (ms_pulls s) (ev_event ?q)")
    case True
    then show ?thesis by (simp add: pull_round_keeps(3) [OF assms(1)])
  next
    case False
    then have "?q \<notin> set (ms_queue (pull_read n s))" using q assms(3) by (auto simp: pull_read_def Let_def)
    then show ?thesis by (simp add: pull_round_keeps(3) [OF assms(1)])
  qed
  moreover obtain P where "ms_queue (pull_round n sql s) = filter P (ms_queue s)"
    using pull_round_keeps(3) [OF assms(1), of n sql] by (simp add: pull_read_def Let_def)
  ultimately show ?thesis using q by (simp add: length_filter_less)
qed

text \<open>C32: when at most \<open>part_size\<close> events wait and nobody changes anything meanwhile, the loop of the manager ends after at
  most as many rounds as there are events, and then every registered table holds what the central one does (where it has a
  clause, the rows that met the clause at a moment of the run).\<close>

theorem pull_ends:
  assumes "fresh_system sqls s" and "sql \<in> sqls" and "pulls_ok (ms_pulls s)" and "length (ms_queue s) \<le> part_size"
  shows "\<exists>m. m \<le> length (ms_queue s) \<and> ms_queue ((pull_round part_size sql ^^ m) s) = [] \<and>
    list_all (\<lambda>p. synced_by sqls (ms_src s) (ms_dst ((pull_round part_size sql ^^ m) s)) p k) (map bp_spec (ms_pulls s))"
proof -
  have src: "ms_src (pull_one sql e rest V t) = ms_src t" for e rest V t
    by (simp add: pull_one_def split: option.split prod.split)
  have "ms_src (pull_all sql es V t) = ms_src t" for es V t by (induction es arbitrary: t) (simp_all add: delete_events_def src)
  then have src: "ms_src (pull_round part_size sql t) = ms_src t" for t by (simp add: pull_round_def pull_read_def Let_def)
  have "pull_inv sqls s \<Longrightarrow> ms_overflow s = False \<Longrightarrow> length (ms_queue s) \<le> part_size \<Longrightarrow>
    \<exists>m. m \<le> length (ms_queue s) \<and> ms_queue ((pull_round part_size sql ^^ m) s) = [] \<and>
      list_all (\<lambda>p. synced_by sqls (ms_src s) (ms_dst ((pull_round part_size sql ^^ m) s)) p k) (map bp_spec (ms_pulls s))" for s
  proof (induction "length (ms_queue s)" arbitrary: s rule: less_induct)
    case less
    show ?case
    proof (cases "ms_queue s = []")
      case True
      then have "no_loss sqls s" "\<And>p k. \<not> waiting_event s p k" using less.prems by (auto simp: pull_inv_def waiting_event_def)
      then have "list_all (\<lambda>p. synced_by sqls (ms_src s) (ms_dst s) p k) (map bp_spec (ms_pulls s))"
        unfolding list_all_iff no_loss_def up_to_date_def by blast
      then show ?thesis using True by (intro exI [of _ 0]) simp
    next
      case False
      have ok: "pulls_ok (ms_pulls s)" using less.prems(1) by (simp add: pull_inv_def)
      let ?s = "pull_round part_size sql s"
      note k = pull_round_keeps [OF ok, of part_size sql]
      have sh: "length (ms_queue ?s) < length (ms_queue s)" by (rule pull_round_shrinks [OF ok False less.prems(3)])
      have ov: "ms_overflow ?s = False" "length (ms_queue ?s) \<le> part_size" using k(4) less.prems(2,3) sh by auto
      obtain m where m: "m \<le> length (ms_queue ?s)" "ms_queue ((pull_round part_size sql ^^ m) ?s) = []"
        "list_all (\<lambda>p. synced_by sqls (ms_src ?s) (ms_dst ((pull_round part_size sql ^^ m) ?s)) p k) (map bp_spec (ms_pulls ?s))"
        using less.hyps [OF sh pull_round_inv [OF less.prems(1) assms(2) False] ov] by blast
      have "Suc m \<le> length (ms_queue s)" using m(1) sh by simp
      moreover have "(pull_round part_size sql ^^ m) ?s = (pull_round part_size sql ^^ Suc m) s" by (simp add: funpow_swap1)
      ultimately show ?thesis using m(2,3) unfolding k(1) src by metis
    qed
  qed
  then show ?thesis using fresh_inv [OF assms(1,3)] assms by (simp add: fresh_system_def)
qed

end
