(* ===== verification/Pull_Samples.thy ===== *)
theory Pull_Samples
  imports Pull_Results
begin

text \<open>Examples of replication: the witnesses of its results.\<close>

definition no_rows :: tables where
  "no_rows t = []"

definition trunk_row :: table_row where
  "trunk_row f = (if f = ''id'' then Some ''7'' else None)"

definition trunk_event :: "int \<Rightarrow> EventRow" where
  "trunk_event v = \<lparr> ev_server_id = 1, ev_event = ''trunk'', ev_param = ''7'', ev_version = v \<rparr>"

definition every_row :: "string \<Rightarrow> table_row \<Rightarrow> bool" where
  "every_row c r = True"

definition empty_system :: PullSystem where
  "empty_system = \<lparr> ms_src = no_rows, ms_dst = no_rows, ms_queue = [], ms_last_version = 0, ms_pulls = manager_pulls False ''(1)'',
     ms_errors_count = 0, ms_phase = PullWaiting, ms_overflow = False \<rparr>"

definition trunk_added :: PullSystem where
  "trunk_added = empty_system\<lparr> ms_src := no_rows(''auth.trunk'' := [trunk_row]), ms_queue := [trunk_event 1], ms_last_version := 1 \<rparr>"

lemma empty_system_fresh: "fresh_system {every_row} empty_system"
  by (simp add: fresh_system_def empty_system_def no_loss_def up_to_date_def synced_by_one synced_def no_rows_def)

lemma manager_pulls_specs: "set (map bp_spec (manager_pulls api_host regions)) = set (all_pulls api_host regions)"
proof -
  have "mset (map bp_spec (manager_pulls api_host regions)) = mset (all_pulls api_host regions)"
    using foldl_add_specs [of "[]" "all_pulls api_host regions"] all_pulls_distinct(1) by (simp add: manager_pulls_def)
  then show ?thesis by (metis set_mset_mset)
qed

lemma all_pulls_trunk: "p \<in> set (all_pulls api_host regions) \<Longrightarrow> pu_src_table p = ''auth.trunk'' \<Longrightarrow> pu_event p = ''trunk'' \<and> pu_key p = ''id''"
  by (auto simp: all_pulls_def pull_tables_defs)

lemma trunk_added_step: "pull_step 100 {every_row} empty_system trunk_added"
proof -
  let ?src = "no_rows(''auth.trunk'' := [trunk_row])"
  have "filter (of_key (bp_spec b) k) (?src (pu_src_table (bp_spec b))) = filter (of_key (bp_spec b) k) (no_rows (pu_src_table (bp_spec b))) \<or>
      concerns (bp_spec b) k (trunk_event 1)" if b: "b \<in> set (manager_pulls False ''(1)'')" for b k
  proof (cases "pu_src_table (bp_spec b) = ''auth.trunk''")
    case True
    have "bp_spec b \<in> set (all_pulls False ''(1)'')" using b manager_pulls_specs [of False "''(1)''"] by auto
    then show ?thesis using all_pulls_trunk [OF _ True] by (auto simp: concerns_def trunk_event_def of_key_def trunk_row_def no_rows_def)
  qed simp
  then have "announced (ms_pulls empty_system) (ms_src empty_system) ?src (ms_queue empty_system) [trunk_event 1] [trunk_event 1]"
    by (auto simp: announced_def empty_system_def)
  then show ?thesis
    using pull_step.change [of empty_system ?src "[trunk_event 1]" "[trunk_event 1]" 1 100 "{every_row}"]
    by (simp add: trunk_added_def empty_system_def trunk_event_def)
qed

lemma trunk_registered: "\<exists>b. b \<in> set (ms_pulls trunk_added) \<and> bp_spec b = PullTrunk"
proof -
  have "PullTrunk \<in> set (all_pulls False ''(1)'')" by (simp add: all_pulls_def)
  then show ?thesis using manager_pulls_specs [of False "''(1)''"] by (force simp: trunk_added_def empty_system_def)
qed

theorem pull_no_update_lost_witness:
  "(pull_step 100 {every_row})\<^sup>*\<^sup>* empty_system trunk_added \<and>
   (synced every_row (ms_src trunk_added) (ms_dst trunk_added) PullTrunk ''7'' \<or>
    (\<exists>q. q \<in> set (ms_queue trunk_added) \<and> concerns PullTrunk ''7'' q))"
proof -
  have st: "(pull_step 100 {every_row})\<^sup>*\<^sup>* empty_system trunk_added" using trunk_added_step by (rule r_into_rtranclp)
  obtain b where b: "b \<in> set (ms_pulls trunk_added)" "bp_spec b = PullTrunk" using trunk_registered by blast
  show ?thesis
    using pull_no_update_lost [OF empty_system_fresh _ st _ b(1), of False "''(1)''" "''7''"] st b(2)
    by (simp add: empty_system_def trunk_added_def)
qed

lemma trunk_added_fresh: "fresh_system {every_row} trunk_added"
proof -
  have "pull_inv {every_row} trunk_added"
    using pull_inv_step [OF trunk_added_step fresh_inv [OF empty_system_fresh]] manager_pulls_ok by (simp add: empty_system_def)
  then show ?thesis by (simp add: pull_inv_def fresh_system_def trunk_added_def empty_system_def)
qed

theorem pull_ends_witness:
  "\<exists>m. m \<le> 1 \<and> ms_queue ((pull_round 100 every_row ^^ m) trunk_added) = [] \<and>
     list_all (\<lambda>p. synced every_row (ms_src trunk_added) (ms_dst ((pull_round 100 every_row ^^ m) trunk_added)) p ''7'')
       (map bp_spec (ms_pulls trunk_added))"
proof -
  have q: "length (ms_queue trunk_added) = 1" "pulls_ok (ms_pulls trunk_added)"
    using manager_pulls_ok by (simp_all add: trunk_added_def empty_system_def)
  show ?thesis using pull_ends [OF trunk_added_fresh _ q(2), of every_row 100 "''7''"] q(1) by simp
qed

text \<open>A hundred events of one table before an event of another.\<close>

definition airp_event :: "int \<Rightarrow> EventRow" where
  "airp_event v = \<lparr> ev_server_id = 1, ev_event = ''airp'', ev_param = ''1'', ev_version = v \<rparr>"

definition long_queue :: "EventRow list" where
  "long_queue = map airp_event [1..100] @ [trunk_event 101]"

definition crowded_system :: PullSystem where
  "crowded_system = trunk_added\<lparr> ms_queue := long_queue, ms_last_version := 101 \<rparr>"

lemma long_queue_sorted: "select_events long_queue = long_queue"
  unfolding select_events_def long_queue_def airp_event_def trunk_event_def by code_simp

theorem events_beyond_part_lost_witness:
  "trunk_event 101 \<in> set (ms_queue crowded_system) \<and> trunk_event 101 \<notin> set (ms_queue (pull_round 100 every_row crowded_system)) \<and>
   ms_dst (pull_round 100 every_row crowded_system) ''auth.trunk'' = ms_dst crowded_system ''auth.trunk''"
proof -
  obtain b where b: "b \<in> set (ms_pulls crowded_system)" "bp_spec b = PullTrunk" using trunk_registered by (auto simp: crowded_system_def)
  have ok: "pulls_ok (ms_pulls crowded_system)" using manager_pulls_ok by (simp add: crowded_system_def trunk_added_def empty_system_def)
  have q: "ms_queue crowded_system = long_queue" by (simp add: crowded_system_def)
  have m: "trunk_event 101 \<in> set (ms_queue crowded_system)" by (simp add: q long_queue_def)
  have e: "ev_event (trunk_event 101) = bp_event b" by (simp add: b(2) trunk_event_def PullTrunk_def)
  have p: "ev_event (trunk_event 101) \<notin> ev_event ` set (take 100 (select_events (ms_queue crowded_system)))"
    unfolding q long_queue_sorted by (auto simp: long_queue_def airp_event_def trunk_event_def)
  have v: "ev_version (trunk_event 101) \<le> ev_version (last (select_events (ms_queue crowded_system)))"
    unfolding q long_queue_sorted by (simp add: long_queue_def)
  have t: "pu_dst_table (bp_spec b) = ''auth.trunk''" by (simp add: b(2) PullTrunk_def)
  show ?thesis using events_beyond_part_lost [OF ok b(1) m e p v, of every_row] m unfolding t by blast
qed

end
