(* ===== verification/Data_Flow.thy ===== *)
theory Data_Flow
  imports Loader_Properties Pull_Samples
begin




section \<open>Examples\<close>

definition quiet_step :: "(string \<Rightarrow> string) \<Rightarrow> 'c list_query \<Rightarrow> 'c active_counting \<Rightarrow> 'c LoaderSystem \<Rightarrow> 'c LoaderSystem \<Rightarrow> bool" where
  "quiet_step local_event query counting s s' \<longleftrightarrow> loader_step local_event query counting s s' \<and> ld_db s' = ld_db s"

lemma prepare_loads:
  assumes "ld_phase s = Preparing ls"
  shows "(quiet_step local_event query counting)\<^sup>*\<^sup>* s ((fold (list_load query counting) ls s)\<lparr> ld_phase := Preparing [] \<rparr>)"
  using assms
proof (induction ls arbitrary: s)
  case Nil
  then have "s\<lparr> ld_phase := Preparing [] \<rparr> = s" by (cases s) simp
  then show ?case by simp
next
  case (Cons l ls)
  let ?t = "loadAll_next query counting l ls s"
  have "quiet_step local_event query counting s ?t"
    using loader_step.prepare_load [OF Cons.prems] by (simp add: loadAll_next_def quiet_step_def)
  moreover have "(quiet_step local_event query counting)\<^sup>*\<^sup>* ?t ((fold (list_load query counting) ls ?t)\<lparr> ld_phase := Preparing [] \<rparr>)"
    by (rule Cons.IH) (simp add: loadAll_next_def)
  ultimately show ?case by (simp add: loadAll_next_def converse_rtranclp_into_rtranclp fold_load_phase)
qed

definition tables_of :: "string \<Rightarrow> int \<Rightarrow> tables \<Rightarrow> table_row list list" where
  "tables_of l now db = map db (list_tables l)"

definition both_lists :: "int \<Rightarrow> table_row list list option \<Rightarrow> table_row list list option \<Rightarrow> table_row list list option \<Rightarrow> table_row list list" where
  "both_lists now old a b = case_option [] id old @ case_option [] id a @ case_option [] id b"

definition cold_loader :: "table_row list list LoaderSystem" where
  "cold_loader = \<lparr> ld_db = no_rows, ld_lists = (\<lambda>l. None), ld_queue = [\<lparr> le_event = ''trunk'', le_version = 3 \<rparr>], ld_last_version = 3,
     ld_phase = Unprepared, ld_now = 0 \<rparr>"

definition warm_loader :: "table_row list list LoaderSystem" where
  "warm_loader = (fold (list_load tables_of both_lists) loadAll_lists (do_load_data cold_loader))\<lparr> ld_phase := LoaderIdle \<rparr>"

lemma tables_of_reads: "reads_only tables_of"
  by (simp add: reads_only_def tables_of_def)

lemma cold_loader_start: "loader_start cold_loader"
  by (simp add: loader_start_def cold_loader_def)

lemma warm_loader_fields: "ld_phase warm_loader = LoaderIdle" "ld_queue warm_loader = []" "ld_db warm_loader = no_rows"
  by (simp_all add: warm_loader_def do_load_data_def cold_loader_def)

lemma warm_loader_reached: "(quiet_step table_event tables_of both_lists)\<^sup>*\<^sup>* cold_loader warm_loader"
proof -
  let ?R = "quiet_step table_event tables_of both_lists"
  let ?p = "(fold (list_load tables_of both_lists) loadAll_lists (do_load_data cold_loader))\<lparr> ld_phase := Preparing [] \<rparr>"
  have 1: "?R cold_loader (do_load_data cold_loader)"
    using loader_step.prepare [of cold_loader] by (simp add: do_load_data_def cold_loader_def quiet_step_def)
  have 2: "?R\<^sup>*\<^sup>* (do_load_data cold_loader) ?p" by (rule prepare_loads) (simp add: do_load_data_def)
  have 3: "?R ?p warm_loader"
    using loader_step.prepared [of ?p table_event tables_of both_lists] by (simp add: warm_loader_def quiet_step_def)
  show ?thesis by (rule converse_rtranclp_into_rtranclp [of ?R, OF 1 rtranclp.rtrancl_into_rtrancl [of ?R, OF 2 3]])
qed

lemma warm_loader_steps: "(loader_step table_event tables_of both_lists)\<^sup>*\<^sup>* cold_loader warm_loader"
  using warm_loader_reached
  by (induction rule: rtranclp_induct) (auto simp: quiet_step_def intro: rtranclp.rtrancl_into_rtrancl)


lemma trunk_followed: "''trunk'' \<in> set loadAll_lists" "announces table_event ''trunk''"
  using table_event_announces [of "''trunk''"] by (simp_all add: loadAll_lists_def)

lemma trunk_right: "right_list tables_of both_lists s ''trunk'' \<longleftrightarrow> ld_lists s ''trunk'' = Some [ld_db s ''auth.trunk'']"
  by (simp add: right_list_def clock_lists_def tables_of_def list_tables_def list_queries_def)

theorem loader_no_update_lost_witness:
  "loader_start cold_loader \<and> (loader_step table_event tables_of both_lists)\<^sup>*\<^sup>* cold_loader warm_loader \<and> reads_only tables_of \<and>
   counts_followed table_event \<and> ld_phase warm_loader = LoaderIdle \<and> ld_queue warm_loader = [] \<and> ld_lists warm_loader ''trunk'' = Some [[]]"
  using loader_no_update_lost [OF cold_loader_start warm_loader_steps tables_of_reads table_event_counts disjI1 [OF warm_loader_fields(1)]
      trunk_followed] cold_loader_start warm_loader_steps tables_of_reads table_event_counts warm_loader_fields
  by (simp add: trunk_right no_rows_def)

theorem loader_catches_up_witness:
  "loader_start cold_loader \<and> (loader_step table_event tables_of both_lists)\<^sup>*\<^sup>* cold_loader warm_loader \<and> reads_only tables_of \<and>
   counts_followed table_event \<and> ld_phase warm_loader = LoaderIdle \<and>
   ld_queue (loader_run tables_of both_lists warm_loader) = [] \<and> ld_lists (loader_run tables_of both_lists warm_loader) ''trunk'' = Some [[]]"
  using loader_catches_up [OF cold_loader_start warm_loader_steps tables_of_reads table_event_counts warm_loader_fields(1) trunk_followed]
    cold_loader_start warm_loader_steps tables_of_reads table_event_counts warm_loader_fields
  by (simp add: trunk_right no_rows_def)


text \<open>A change of the table of destinations: the event has no handler and the list stays as it was.\<close>

definition destination_event :: LocalEvent where
  "destination_event = \<lparr> le_event = ''destination'', le_version = 4 \<rparr>"

definition destination_changed :: "table_row list list LoaderSystem" where
  "destination_changed = warm_loader\<lparr> ld_db := no_rows(''nnp.destination'' := [trunk_row]), ld_queue := [destination_event], ld_last_version := 4 \<rparr>"

lemma destination_steps: "(plain_step table_event tables_of both_lists)\<^sup>*\<^sup>* warm_loader (loader_delete destination_event [] (loader_read destination_changed))"
proof -
  let ?R = "plain_step table_event tables_of both_lists" and ?r = "loader_read destination_changed"
  have "local_announced table_event (ld_db warm_loader) (no_rows(''nnp.destination'' := [trunk_row])) (ld_queue warm_loader)
      [destination_event] [destination_event]"
    by (simp add: local_announced_def warm_loader_fields destination_event_def table_event_def)
  moreover have "ld_last_version warm_loader = 3" by (simp add: warm_loader_def do_load_data_def cold_loader_def)
  ultimately have 1: "?R warm_loader destination_changed"
    using loader_step.local_change [of table_event warm_loader "no_rows(''nnp.destination'' := [trunk_row])" "[destination_event]" "[destination_event]" 4]
    by (simp add: plain_step_def destination_changed_def destination_event_def plain_event_def)
  have ph: "ld_phase destination_changed = LoaderIdle" "ld_phase ?r = Loading [] destination_event []"
    by (simp_all add: destination_changed_def warm_loader_fields loader_read_def destination_event_def event_lists_def event_handlers_def)
  have q: "list_all plain_event (ld_queue ?r)" by (simp add: loader_read_def destination_changed_def destination_event_def plain_event_def)
  have 2: "?R destination_changed ?r" using loader_step.read [OF ph(1)] q by (simp add: plain_step_def)
  have "list_all plain_event (ld_queue (loader_delete destination_event [] ?r))" using q by (auto simp: loader_delete_def list_all_iff)
  then have 3: "?R ?r (loader_delete destination_event [] ?r)" using loader_step.delete [OF ph(2)] by (simp add: plain_step_def)
  show ?thesis using 1 2 3 by (meson converse_rtranclp_into_rtranclp rtranclp.rtrancl_refl)
qed

theorem nnp_lists_never_reloaded_witness:
  "ld_lists (loader_delete destination_event [] (loader_read destination_changed)) ''nnpDestination'' = ld_lists warm_loader ''nnpDestination'' \<and>
   ld_db (loader_delete destination_event [] (loader_read destination_changed)) ''nnp.destination'' = [trunk_row] \<and>
   ld_queue (loader_delete destination_event [] (loader_read destination_changed)) = []"
  using nnp_lists_never_reloaded [OF destination_steps warm_loader_fields(1), of "''nnpDestination''"] warm_loader_fields
  by (simp add: loader_delete_def loader_read_def destination_changed_def destination_event_def)

end
