(* ===== verification/Thread_Pool.thy ===== *)
theory Thread_Pool
  imports Voip_Prelude
begin

text \<open>
  \<^verbatim>\<open>classes/Thread.cpp\<close>, \<^verbatim>\<open>classes/ThreadPool.cpp\<close> and the status of \<^verbatim>\<open>classes/App.cpp\<close>: the life of a thread and the status
  of the application. One pass through the loop of \<open>operator()\<close> takes the answers of the virtual methods \<open>ready\<close>, \<open>prepare\<close>
  and \<open>run\<close>, and what others set the status to in the course of it: \<open>getStatus()\<close> is read at up to five places, and
  before each of them, and while a method runs, the application may have called \<open>setStatus\<close>. A thread in the pool is known by its address. Pauses, timers and log entries are left out, and so are
  \<open>resetErrors\<close>, which another thread may call to clear the count of errors, and the detaching and joining of the threads of the operating system.
\<close>

datatype ThreadStatus =
  THREAD_CREATED | THREAD_WAITING | THREAD_PREPARING | THREAD_RUNNING | THREAD_PAUSED | THREAD_STOPPED

datatype AppStatus =
  APP_STARTED | APP_INITIALIZING | APP_PREPARING | APP_RUNNING | APP_PAUSED | APP_STOPPED

record ThreadState =
  th_id :: string
  th_status :: ThreadStatus
  th_real_status :: ThreadStatus
  th_status_ready :: bool
  th_status_prepared :: bool
  th_exitAfterRunsCount :: int
  th_runsCount :: int
  th_errorsCount :: nat
  th_lastError :: string

definition Thread_new :: "string \<Rightarrow> ThreadState" where
  "Thread_new i = \<lparr> th_id = i, th_status = THREAD_CREATED, th_real_status = THREAD_CREATED, th_status_ready = False,
     th_status_prepared = False, th_exitAfterRunsCount = 0, th_runsCount = 0, th_errorsCount = 0, th_lastError = [] \<rparr>"

definition thread_start :: "int \<Rightarrow> bool \<Rightarrow> ThreadState \<Rightarrow> ThreadState" where
  "thread_start exitAfterRunsCount skipPrepare th =
     th\<lparr> th_exitAfterRunsCount := exitAfterRunsCount, th_status_prepared := skipPrepare \<rparr>"

section \<open>The loop of a thread\<close>

datatype ThreadCall = CallReady | CallPrepare | CallRun

datatype CallResult = Returned bool | Threw string | ThrewInterrupted

text \<open>What follows an exception other than \<open>ThreadInterrupted\<close>.\<close>

definition thread_error :: "string \<Rightarrow> ThreadState \<Rightarrow> ThreadState" where
  "thread_error message th =
     (let th1 = th\<lparr> th_lastError := message, th_errorsCount := th_errorsCount th + 1 \<rparr> in
      if th_exitAfterRunsCount th1 \<noteq> 0 then th1\<lparr> th_status := THREAD_STOPPED \<rparr> else th1)"

definition thread_ran :: "ThreadState \<Rightarrow> ThreadState" where
  "thread_ran th =
     (let th1 = th\<lparr> th_lastError := [] \<rparr> in
      if th_exitAfterRunsCount th1 \<noteq> 0 then
        let th2 = th1\<lparr> th_runsCount := th_runsCount th1 + 1 \<rparr> in
        if th_runsCount th2 = th_exitAfterRunsCount th2 then th2\<lparr> th_status := THREAD_STOPPED \<rparr> else th2
      else th1)"

text \<open>What others set the status to before the next reading, if they do.\<close>

definition others_set :: "ThreadStatus option \<Rightarrow> ThreadState \<Rightarrow> ThreadState" where
  "others_set st th = (case st of None \<Rightarrow> th | Some status \<Rightarrow> th\<lparr> th_status := status \<rparr>)"

text \<open>One pass: whether \<open>operator()\<close> returns, the method called with its answer, and the thread after it. \<open>sets k\<close> is
  what others do before the reading number \<open>k\<close>, and \<open>sets 5\<close> what they do while the method runs.\<close>

definition thread_pass :: "(nat \<Rightarrow> ThreadStatus option) \<Rightarrow> (ThreadCall \<Rightarrow> CallResult) \<Rightarrow> ThreadState \<Rightarrow>
    bool \<times> (ThreadCall \<times> CallResult) list \<times> ThreadState" where
  "thread_pass sets answer th =
     (let t0 = others_set (sets 0) th in
      if th_status t0 = THREAD_STOPPED then (True, [], t0\<lparr> th_real_status := THREAD_STOPPED \<rparr>)
      else let t1 = others_set (sets 1) t0 in
      if th_status t1 = THREAD_PAUSED then (False, [], t1\<lparr> th_real_status := THREAD_PAUSED \<rparr>)
      else let t2 = others_set (sets 2) t1;
               t3 = (if th_status t2 = THREAD_RUNNING then t2 else others_set (sets 3) t2) in
      if th_status t2 = THREAD_RUNNING \<or> th_status t3 = THREAD_PREPARING then
        (if \<not> th_status_ready t3 then
           let t = others_set (sets 5) (t3\<lparr> th_real_status := THREAD_WAITING \<rparr>); a = answer CallReady in
           (False, [(CallReady, a)], (case a of Returned ok \<Rightarrow> (if ok then t\<lparr> th_status_ready := True \<rparr> else t)
              | Threw m \<Rightarrow> thread_error m t | ThrewInterrupted \<Rightarrow> t))
         else if \<not> th_status_prepared t3 then
           let t = others_set (sets 5) (t3\<lparr> th_real_status := THREAD_PREPARING \<rparr>); a = answer CallPrepare in
           (False, [(CallPrepare, a)], (case a of Returned ok \<Rightarrow> (if ok then t\<lparr> th_status_prepared := True \<rparr> else t)
              | Threw m \<Rightarrow> thread_error m t | ThrewInterrupted \<Rightarrow> t))
         else let t4 = others_set (sets 4) t3 in
           if th_status t4 = THREAD_RUNNING then
             let t = others_set (sets 5) (t4\<lparr> th_real_status := THREAD_RUNNING \<rparr>); a = answer CallRun in
             (False, [(CallRun, a)], (case a of Returned ok \<Rightarrow> thread_ran t | Threw m \<Rightarrow> thread_error m t | ThrewInterrupted \<Rightarrow> t))
           else (False, [], t4\<lparr> th_real_status := THREAD_PAUSED \<rparr>))
      else (False, [], t3))"

text \<open>Passes one after the other: whether \<open>operator()\<close> has returned, the methods called, and the thread.\<close>

fun thread_passes :: "((nat \<Rightarrow> ThreadStatus option) \<times> (ThreadCall \<Rightarrow> CallResult)) list \<Rightarrow> ThreadState \<Rightarrow>
    bool \<times> (ThreadCall \<times> CallResult) list \<times> ThreadState" where
  "thread_passes [] th = (False, [], th)"
| "thread_passes ((sets, answer) # ps) th =
     (case thread_pass sets answer th of (finished, calls, th1) \<Rightarrow>
        if finished then (True, calls, th1)
        else (case thread_passes ps th1 of (finished2, later, th2) \<Rightarrow> (finished2, calls @ later, th2)))"

section \<open>The pool\<close>

record PoolState =
  po_threads :: "(nat \<times> ThreadState) list"
  po_app_status :: AppStatus
  po_app_real_status :: AppStatus

definition getThreadStatusByAppStatus :: "AppStatus \<Rightarrow> ThreadStatus" where
  "getThreadStatusByAppStatus app_status =
     (if app_status = APP_PREPARING then THREAD_PREPARING
      else if app_status = APP_RUNNING then THREAD_RUNNING
      else if app_status = APP_PAUSED then THREAD_PAUSED
      else if app_status = APP_STOPPED then THREAD_STOPPED
      else THREAD_CREATED)"

text \<open>The counters of the loop in \<open>thread_real_status_changed\<close>.\<close>

record StatusCounts =
  sn_count :: nat
  sn_initiated :: nat
  sn_preparing :: nat
  sn_running :: nat
  sn_paused :: nat
  sn_stopped :: nat

definition count_status :: "ThreadStatus \<Rightarrow> StatusCounts \<Rightarrow> StatusCounts" where
  "count_status st c =
     (let c1 = (case st of
           THREAD_CREATED \<Rightarrow> c\<lparr> sn_initiated := sn_initiated c + 1 \<rparr>
         | THREAD_WAITING \<Rightarrow> c\<lparr> sn_initiated := sn_initiated c + 1 \<rparr>
         | THREAD_PREPARING \<Rightarrow> c\<lparr> sn_preparing := sn_preparing c + 1 \<rparr>
         | THREAD_RUNNING \<Rightarrow> c\<lparr> sn_running := sn_running c + 1 \<rparr>
         | THREAD_PAUSED \<Rightarrow> c\<lparr> sn_paused := sn_paused c + 1 \<rparr>
         | THREAD_STOPPED \<Rightarrow> c\<lparr> sn_stopped := sn_stopped c + 1 \<rparr>)
      in c1\<lparr> sn_count := sn_count c1 + 1 \<rparr>)"

definition pool_status :: "(nat \<times> ThreadState) list \<Rightarrow> AppStatus" where
  "pool_status threads =
     (let c = fold count_status (map (th_real_status \<circ> snd) threads)
          \<lparr> sn_count = 0, sn_initiated = 0, sn_preparing = 0, sn_running = 0, sn_paused = 0, sn_stopped = 0 \<rparr>
      in if sn_stopped c = sn_count c then APP_STOPPED
         else if sn_paused c = sn_count c then APP_PAUSED
         else if sn_running c = sn_count c then APP_RUNNING
         else if sn_initiated c = sn_count c then APP_INITIALIZING
         else APP_PREPARING)"

definition thread_real_status_changed :: "PoolState \<Rightarrow> PoolState" where
  "thread_real_status_changed s = s\<lparr> po_app_real_status := pool_status (po_threads s) \<rparr>"

text \<open>A thread whose identifier is taken gets one with a random number at its end; one that is registered already
  leaves without the change of status.\<close>

definition register_thread :: "string \<Rightarrow> nat \<times> ThreadState \<Rightarrow> PoolState \<Rightarrow> PoolState" where
  "register_thread random t s =
     (case List.find (\<lambda>x. th_id (snd x) = th_id (snd t)) (po_threads s) of
        Some x \<Rightarrow>
          if fst x = fst t then s
          else thread_real_status_changed (s\<lparr> po_threads := po_threads s @ [(fst t, (snd t)\<lparr> th_id := th_id (snd t) @ random \<rparr>)] \<rparr>)
      | None \<Rightarrow> thread_real_status_changed (s\<lparr> po_threads := po_threads s @ [t] \<rparr>))"

text \<open>\<open>ThreadPool::run\<close>, with the registration its thread begins with.\<close>

definition pool_run :: "string \<Rightarrow> nat \<times> ThreadState \<Rightarrow> PoolState \<Rightarrow> PoolState" where
  "pool_run random t s = register_thread random
     (fst t, thread_start 0 False ((snd t)\<lparr> th_status := getThreadStatusByAppStatus (po_app_status s) \<rparr>)) s"

fun drop_thread :: "nat \<Rightarrow> (nat \<times> ThreadState) list \<Rightarrow> (nat \<times> ThreadState) list" where
  "drop_thread p [] = []"
| "drop_thread p (x # xs) = (if fst x = p then xs else x # drop_thread p xs)"

definition unregister_thread :: "nat \<Rightarrow> PoolState \<Rightarrow> PoolState" where
  "unregister_thread p s = thread_real_status_changed (s\<lparr> po_threads := drop_thread p (po_threads s) \<rparr>)"

definition set_real_status :: "nat \<Rightarrow> ThreadStatus \<Rightarrow> PoolState \<Rightarrow> PoolState" where
  "set_real_status p st s = thread_real_status_changed
     (s\<lparr> po_threads := map (\<lambda>x. if fst x = p then (fst x, (snd x)\<lparr> th_real_status := st \<rparr>) else x) (po_threads s) \<rparr>)"

definition app_status_changed :: "PoolState \<Rightarrow> PoolState" where
  "app_status_changed s =
     s\<lparr> po_threads := map (\<lambda>x. (fst x, (snd x)\<lparr> th_status := getThreadStatusByAppStatus (po_app_status s) \<rparr>)) (po_threads s) \<rparr>"

definition app_setStatus :: "AppStatus \<Rightarrow> PoolState \<Rightarrow> PoolState" where
  "app_setStatus status s = app_status_changed (s\<lparr> po_app_status := status \<rparr>)"

definition isRegistered :: "string \<Rightarrow> PoolState \<Rightarrow> bool" where
  "isRegistered thread_id s \<longleftrightarrow> thread_id \<in> (th_id \<circ> snd) ` set (po_threads s)"

section \<open>Prepared before run\<close>

definition failures :: "(ThreadCall \<times> CallResult) list \<Rightarrow> nat" where
  "failures calls = length (filter (\<lambda>c. case snd c of Threw m \<Rightarrow> True | _ \<Rightarrow> False) calls)"

text \<open>What a call presupposes: \<open>prepare\<close> and \<open>run\<close> that \<open>ready\<close> has answered yes, \<open>run\<close> that \<open>prepare\<close> has, and neither is asked again.\<close>

definition in_turn :: "bool \<Rightarrow> bool \<Rightarrow> (ThreadCall \<times> CallResult) list \<Rightarrow> ThreadCall \<Rightarrow> bool" where
  "in_turn is_ready is_prepared before c \<longleftrightarrow>
     (let r = is_ready \<or> (CallReady, Returned True) \<in> set before; p = is_prepared \<or> (CallPrepare, Returned True) \<in> set before in
      case c of CallReady \<Rightarrow> \<not> r | CallPrepare \<Rightarrow> r \<and> \<not> p | CallRun \<Rightarrow> r \<and> p)"

lemma others_set_simps [simp]:
  "th_status_ready (others_set st th) = th_status_ready th" "th_status_prepared (others_set st th) = th_status_prepared th"
  "th_errorsCount (others_set st th) = th_errorsCount th" "th_exitAfterRunsCount (others_set st th) = th_exitAfterRunsCount th"
  "th_runsCount (others_set st th) = th_runsCount th" "others_set None th = th"
  by (simp_all add: others_set_def split: option.splits)

lemma thread_pass_cases:
  assumes "thread_pass sets answer th = (finished, calls, th1)"
  shows "calls = [] \<and> th_status_ready th1 = th_status_ready th \<and> th_status_prepared th1 = th_status_prepared th \<or>
    (\<exists>c. calls = [(c, answer c)] \<and> in_turn (th_status_ready th) (th_status_prepared th) [] c \<and>
      (th_status_ready th1 \<longleftrightarrow> th_status_ready th \<or> (CallReady, Returned True) \<in> set calls) \<and>
      (th_status_prepared th1 \<longleftrightarrow> th_status_prepared th \<or> (CallPrepare, Returned True) \<in> set calls))"
    and "th_errorsCount th1 = th_errorsCount th + failures calls"
    and "th_exitAfterRunsCount th1 = th_exitAfterRunsCount th"
  using assms unfolding thread_pass_def
  by (auto simp: Let_def thread_error_def thread_ran_def in_turn_def failures_def split: if_splits CallResult.splits)

lemma thread_passes_turns:
  assumes "thread_passes ps th = (finished, calls, th')"
  shows "(\<forall>j < length calls. in_turn (th_status_ready th) (th_status_prepared th) (take j calls) (fst (calls ! j))) \<and>
    th_errorsCount th' = th_errorsCount th + failures calls"
  using assms
proof (induction ps th arbitrary: finished calls th' rule: thread_passes.induct)
  case (1 th)
  then show ?case by (simp add: failures_def)
next
  case (2 sets answer ps th)
  obtain ends now th1 where p: "thread_pass sets answer th = (ends, now, th1)" by (metis prod_cases3)
  obtain ends2 later th2 where l: "thread_passes ps th1 = (ends2, later, th2)" by (metis prod_cases3)
  note now = thread_pass_cases [OF p]
  show ?case
  proof (cases ends)
    case True
    then have eq: "calls = now" "th' = th1" using 2(2) p by simp_all
    have "in_turn (th_status_ready th) (th_status_prepared th) (take j now) (fst (now ! j))" if "j < length now" for j
      using now(1) that by auto
    then show ?thesis using eq now(2) by blast
  next
    case False
    then have eq: "calls = now @ later" "th' = th2" using 2(2) p l by simp_all
    note ih = 2(1) [OF p [symmetric] refl False l]
    have "in_turn (th_status_ready th) (th_status_prepared th) (take j calls) (fst (calls ! j))" if "j < length calls" for j
    proof (cases now)
      case Nil
      then show ?thesis using ih that now(1) eq(1) by auto
    next
      case (Cons c cs)
      then have c: "now = [c]" "in_turn (th_status_ready th) (th_status_prepared th) [] (fst c)"
        "th_status_ready th1 \<longleftrightarrow> th_status_ready th \<or> (CallReady, Returned True) = c"
        "th_status_prepared th1 \<longleftrightarrow> th_status_prepared th \<or> (CallPrepare, Returned True) = c" using now(1) by auto
      show ?thesis
      proof (cases j)
        case 0
        then show ?thesis using c eq(1) by simp
      next
        case (Suc k)
        then have "in_turn (th_status_ready th1) (th_status_prepared th1) (take k later) (fst (later ! k))" using ih that c(1) eq(1) by simp
        then show ?thesis using c eq(1) Suc by (simp add: in_turn_def Let_def disj_ac)
      qed
    qed
    then show ?thesis using ih now(2) eq by (simp add: failures_def)
  qed
qed

text \<open>Whether anyone else stops the thread, or sets its status at all.\<close>

definition never_stopped :: "((nat \<Rightarrow> ThreadStatus option) \<times> (ThreadCall \<Rightarrow> CallResult)) list \<Rightarrow> bool" where
  "never_stopped ps \<longleftrightarrow> (\<forall>p \<in> set ps. \<forall>k. fst p k \<noteq> Some THREAD_STOPPED)"

definition never_set :: "((nat \<Rightarrow> ThreadStatus option) \<times> (ThreadCall \<Rightarrow> CallResult)) list \<Rightarrow> bool" where
  "never_set ps \<longleftrightarrow> (\<forall>p \<in> set ps. \<forall>k. fst p k = None)"

definition failed :: "ThreadCall \<times> CallResult \<Rightarrow> bool" where
  "failed c \<longleftrightarrow> (case snd c of Threw m \<Rightarrow> True | _ \<Rightarrow> False)"

definition completed_runs :: "(ThreadCall \<times> CallResult) list \<Rightarrow> int" where
  "completed_runs calls = int (length (filter (\<lambda>c. fst c = CallRun \<and> (case snd c of Returned ok \<Rightarrow> True | _ \<Rightarrow> False)) calls))"

lemma pass_never_stopped:
  assumes "thread_pass sets answer th = (finished, calls, th1)"
    and "\<And>k. sets k \<noteq> Some THREAD_STOPPED" and "th_status th \<noteq> THREAD_STOPPED" and "th_exitAfterRunsCount th = 0"
  shows "\<not> finished" and "th_status th1 \<noteq> THREAD_STOPPED"
proof -
  have o: "th_status (others_set (sets k) t) \<noteq> THREAD_STOPPED" if "th_status t \<noteq> THREAD_STOPPED" for k t
    using assms(2) [of k] that by (auto simp: others_set_def split: option.splits)
  show "\<not> finished" and "th_status th1 \<noteq> THREAD_STOPPED"
    using assms(1,3,4) o unfolding thread_pass_def
    by (auto simp: Let_def thread_error_def thread_ran_def split: if_splits CallResult.splits)
qed

lemma passes_never_stopped:
  assumes "thread_passes ps th = (finished, calls, th1)"
    and "never_stopped ps" and "th_status th \<noteq> THREAD_STOPPED" and "th_exitAfterRunsCount th = 0"
  shows "\<not> finished"
  using assms
proof (induction ps th arbitrary: finished calls th1 rule: thread_passes.induct)
  case (2 sets answer ps th)
  obtain ends now t where p: "thread_pass sets answer th = (ends, now, t)" by (metis prod_cases3)
  have "\<And>k. sets k \<noteq> Some THREAD_STOPPED" "never_stopped ps" using 2(3) by (simp_all add: never_stopped_def)
  note n = pass_never_stopped [OF p this(1) 2(4,5)] this(2)
  then show ?case using 2(1) [OF p [symmetric] refl n(1) _ n(3,2)] 2(2,5) p thread_pass_cases(3) [OF p]
    by (auto split: prod.splits)
qed simp

lemma pass_never_set:
  assumes "thread_pass (\<lambda>_. None) answer th = (finished, calls, th1)" and "th_exitAfterRunsCount th \<noteq> 0"
  shows "th_status th = THREAD_STOPPED \<Longrightarrow> finished \<and> calls = []"
    and "\<exists>c \<in> set calls. failed c \<Longrightarrow> th_status th1 = THREAD_STOPPED"
    and "th_runsCount th1 = th_runsCount th + completed_runs calls"
    and "completed_runs calls \<noteq> 0 \<Longrightarrow> th_runsCount th1 = th_exitAfterRunsCount th \<Longrightarrow> th_status th1 = THREAD_STOPPED"
  using assms unfolding thread_pass_def
  by (auto simp: Let_def thread_error_def thread_ran_def failed_def completed_runs_def split: if_splits CallResult.splits)

lemma completed_runs_append: "completed_runs (xs @ ys) = completed_runs xs + completed_runs ys"
  by (simp add: completed_runs_def)

lemma completed_runs_le: "completed_runs calls \<le> int (length calls)"
  by (simp add: completed_runs_def)

lemma passes_never_set:
  assumes "thread_passes ps th = (finished, calls, th1)" and "never_set ps" and "th_exitAfterRunsCount th \<noteq> 0"
  shows "(\<forall>j. Suc j < length calls \<longrightarrow> \<not> failed (calls ! j)) \<and> (th_status th = THREAD_STOPPED \<longrightarrow> calls = []) \<and>
    (th_runsCount th < th_exitAfterRunsCount th \<longrightarrow> th_runsCount th + completed_runs calls \<le> th_exitAfterRunsCount th)"
  using assms
proof (induction ps th arbitrary: finished calls th1 rule: thread_passes.induct)
  case (1 th)
  then show ?case by (simp add: completed_runs_def)
next
  case (2 sets answer ps th)
  have none: "sets = (\<lambda>_. None)" "never_set ps" using 2(3) by (auto simp: never_set_def)
  obtain ends now t where p: "thread_pass (\<lambda>_. None) answer th = (ends, now, t)" by (metis prod_cases3)
  note n = pass_never_set [OF p 2(4)] and c = thread_pass_cases [OF p]
  have "length now \<le> 1" using c(1) by auto
  with completed_runs_le [of now] have one: "length now \<le> 1" "completed_runs now \<le> 1" by linarith+
  show ?case
  proof (cases ends)
    case True
    then show ?thesis using 2(2) p one n by (auto simp: none completed_runs_def)
  next
    case False
    obtain ends2 later th2 where l: "thread_passes ps t = (ends2, later, th2)" by (metis prod_cases3)
    have calls: "calls = now @ later" using 2(2) p l False by (simp add: none)
    have ih: "(\<forall>j. Suc j < length later \<longrightarrow> \<not> failed (later ! j)) \<and> (th_status t = THREAD_STOPPED \<longrightarrow> later = []) \<and>
      (th_runsCount t < th_exitAfterRunsCount t \<longrightarrow> th_runsCount t + completed_runs later \<le> th_exitAfterRunsCount t)"
      using 2(1) [OF p [folded none(1), symmetric] refl False l none(2)] c(3) 2(4) by simp
    have "\<not> failed (calls ! j)" if "Suc j < length calls" for j
    proof (cases now)
      case Nil
      then show ?thesis using ih that calls by simp
    next
      case (Cons c' cs)
      then have c': "now = [c']" using one(1) by simp
      show ?thesis
      proof (cases j)
        case 0
        then show ?thesis using n(2) ih that calls c' by auto
      next
        case (Suc k)
        then show ?thesis using ih that calls c' by simp
      qed
    qed
    moreover have "th_status th = THREAD_STOPPED \<longrightarrow> calls = []" using n(1) False by blast
    moreover have "th_runsCount th + completed_runs calls \<le> th_exitAfterRunsCount th" if lt: "th_runsCount th < th_exitAfterRunsCount th"
    proof (cases "th_runsCount t < th_exitAfterRunsCount t")
      case True
      then show ?thesis using ih n(3) c(3) by (simp add: calls completed_runs_append)
    next
      case False
      then have e: "completed_runs now = 1" "th_runsCount t = th_exitAfterRunsCount th" using lt n(3) one(2) c(3) by simp_all
      then have "later = []" using n(4) ih by simp
      then show ?thesis using e n(3) by (simp add: calls)
    qed
    ultimately show ?thesis by blast
  qed
qed

text \<open>C35: Whatever the methods answer or throw and however others set the status meanwhile, a thread asks \<open>ready\<close> until it
  answers yes, then \<open>prepare\<close>, unless it is to be skipped, until that answers yes, and calls \<open>run\<close> only after both. Every
  exception but \<open>ThreadInterrupted\<close> is counted. A thread started without a number of runs, as the pool starts all of
  them, is not ended by exceptions: it goes on until someone stops it. One started with a number of runs, and whose status
  nobody else sets, calls nothing more after the first exception and completes at most that number of runs.\<close>

theorem run_only_prepared:
  assumes "thread_passes ps ((thread_start n skipPrepare (Thread_new i))\<lparr> th_status := st \<rparr>) = (finished, calls, th)"
  shows "(\<forall>j < length calls. in_turn False skipPrepare (take j calls) (fst (calls ! j))) \<and> th_errorsCount th = failures calls \<and>
    (n = 0 \<longrightarrow> never_stopped ps \<longrightarrow> st \<noteq> THREAD_STOPPED \<longrightarrow> \<not> finished) \<and>
    (n \<noteq> 0 \<longrightarrow> never_set ps \<longrightarrow> (\<forall>j. Suc j < length calls \<longrightarrow> \<not> failed (calls ! j)) \<and>
       (0 < n \<longrightarrow> completed_runs calls \<le> n))"
  using thread_passes_turns [OF assms] passes_never_stopped [OF assms] passes_never_set [OF assms]
  by (simp add: thread_start_def Thread_new_def)

section \<open>The status of the application\<close>

text \<open>The counters are the numbers of threads with a status.\<close>

lemma fold_count_status:
  "fold count_status sts c =
     \<lparr> sn_count = sn_count c + length sts,
       sn_initiated = sn_initiated c + length (filter (\<lambda>x. x = THREAD_CREATED \<or> x = THREAD_WAITING) sts),
       sn_preparing = sn_preparing c + length (filter (\<lambda>x. x = THREAD_PREPARING) sts),
       sn_running = sn_running c + length (filter (\<lambda>x. x = THREAD_RUNNING) sts),
       sn_paused = sn_paused c + length (filter (\<lambda>x. x = THREAD_PAUSED) sts),
       sn_stopped = sn_stopped c + length (filter (\<lambda>x. x = THREAD_STOPPED) sts) \<rparr>"
  by (induction sts arbitrary: c) (auto simp: count_status_def Let_def split: ThreadStatus.splits)

lemma length_filter_all: "length (filter P xs) = length xs \<longleftrightarrow> (\<forall>x \<in> set xs. P x)"
  by (metis filter_True filter_id_conv length_filter_less less_irrefl)

text \<open>The status of the application is that of its threads: stopped, paused or running when all of them are (stopped
  also when there is none), initializing when none has got further than waiting, and preparing in every other case.\<close>

theorem pool_status_reference:
  "pool_status threads =
     (let all = (\<lambda>S. \<forall>t \<in> set threads. th_real_status (snd t) \<in> S) in
      if all {THREAD_STOPPED} then APP_STOPPED
      else if all {THREAD_PAUSED} then APP_PAUSED
      else if all {THREAD_RUNNING} then APP_RUNNING
      else if all {THREAD_CREATED, THREAD_WAITING} then APP_INITIALIZING
      else APP_PREPARING)"
  unfolding pool_status_def Let_def fold_count_status by (simp add: length_filter_all filter_map) blast

section \<open>Example\<close>

text \<open>A thread that is not ready at first, fails to prepare once, and runs twice, the second time with an exception.\<close>

definition sample_passes :: "((nat \<Rightarrow> ThreadStatus option) \<times> (ThreadCall \<Rightarrow> CallResult)) list" where
  "sample_passes = map (\<lambda>a. (\<lambda>_. None, \<lambda>_. a))
     [Returned False, Returned True, Threw ''no tables'', Returned True, Returned True, Threw ''no connection'']"

definition sample_thread :: "int \<Rightarrow> ThreadState" where
  "sample_thread n = (thread_start n False (Thread_new ''save''))\<lparr> th_status := THREAD_RUNNING \<rparr>"

text \<open>Without a number of runs it goes on; with one it stops at the first exception.\<close>

theorem run_only_prepared_witness:
  "map fst (fst (snd (thread_passes sample_passes (sample_thread 0)))) =
     [CallReady, CallReady, CallPrepare, CallPrepare, CallRun, CallRun] \<and>
   \<not> fst (thread_passes sample_passes (sample_thread 0)) \<and> th_errorsCount (snd (snd (thread_passes sample_passes (sample_thread 0)))) = 2 \<and>
   map fst (fst (snd (thread_passes sample_passes (sample_thread 2)))) = [CallReady, CallReady, CallPrepare] \<and>
   completed_runs (fst (snd (thread_passes sample_passes (sample_thread 2)))) \<le> 2"
proof -
  let ?t = "thread_passes sample_passes (sample_thread 0)" and ?u = "thread_passes sample_passes (sample_thread 2)"
  have c: "fst (snd ?t) = [(CallReady, Returned False), (CallReady, Returned True), (CallPrepare, Threw ''no tables''),
      (CallPrepare, Returned True), (CallRun, Returned True), (CallRun, Threw ''no connection'')]"
    "fst (snd ?u) = [(CallReady, Returned False), (CallReady, Returned True), (CallPrepare, Threw ''no tables'')]"
    by (simp_all add: sample_passes_def thread_pass_def sample_thread_def thread_start_def Thread_new_def thread_error_def
        thread_ran_def Let_def)
  have never: "never_stopped sample_passes" "never_set sample_passes"
    by (simp_all add: never_stopped_def never_set_def sample_passes_def)
  have t: "thread_passes sample_passes ((thread_start 0 False (Thread_new ''save''))\<lparr> th_status := THREAD_RUNNING \<rparr>) =
      (fst ?t, fst (snd ?t), snd (snd ?t))"
    and u: "thread_passes sample_passes ((thread_start 2 False (Thread_new ''save''))\<lparr> th_status := THREAD_RUNNING \<rparr>) =
      (fst ?u, fst (snd ?u), snd (snd ?u))" by (simp_all add: sample_thread_def)
  have f: "failures (fst (snd ?t)) = 2" unfolding c by (simp add: failures_def)
  have "map fst (fst (snd ?t)) = [CallReady, CallReady, CallPrepare, CallPrepare, CallRun, CallRun]"
    "map fst (fst (snd ?u)) = [CallReady, CallReady, CallPrepare]" unfolding c by simp_all
  with run_only_prepared [OF t] run_only_prepared [OF u] never f show ?thesis by simp
qed

end
