(* ===== verification/Date_Text.thy ===== *)
theory Date_Text
  imports Calendar
begin

text \<open>
  Printing and reading of dates and small functions on texts of \<^verbatim>\<open>src/src-bill/common.cpp\<close>. Times are stored in the data base
  through \<open>string_time\<close> and read back through \<open>parseDateTime\<close>. \<open>None\<close> is a result that depends on fields \<open>sscanf\<close> has
  not set, or on a number beyond \<open>int\<close>.
\<close>

section \<open>Printing\<close>

record tm =
  tm_year :: int
  tm_mon :: int
  tm_mday :: int
  tm_hour :: int
  tm_min :: int
  tm_sec :: int

definition gmtime_r :: "int \<Rightarrow> tm" where
  "gmtime_r dt = (case civil_of_days (dt div 86400) of (y, m, d) \<Rightarrow>
     \<lparr> tm_year = y - 1900, tm_mon = m - 1, tm_mday = d, tm_hour = dt mod 86400 div 3600, tm_min = dt mod 3600 div 60, tm_sec = dt mod 60 \<rparr>)"

definition timegm :: "tm \<Rightarrow> int" where
  "timegm t = 86400 * days_of_civil (tm_year t + 1900 + tm_mon t div 12) (tm_mon t mod 12 + 1) (tm_mday t) +
     3600 * tm_hour t + 60 * tm_min t + tm_sec t"

definition two_digits :: "int \<Rightarrow> string" where
  "two_digits n = [digit_char (nat (n div 10)), digit_char (nat n)]"

text \<open>\<open>strftime\<close> with \<open>%Y-%m-%d\<close> and \<open>%H:%M:%S\<close>.\<close>

definition strftime_date :: "tm \<Rightarrow> string" where
  "strftime_date t = lld (tm_year t + 1900) @ ''-'' @ two_digits (tm_mon t + 1) @ ''-'' @ two_digits (tm_mday t)"

definition strftime_clock :: "tm \<Rightarrow> string" where
  "strftime_clock t = two_digits (tm_hour t) @ '':'' @ two_digits (tm_min t) @ '':'' @ two_digits (tm_sec t)"

definition UNIXTIME_50010101 :: int where
  "UNIXTIME_50010101 = 95649120000"

definition string_date :: "int \<Rightarrow> string" where
  "string_date dt =
     (if dt > UNIXTIME_50010101 then ''5000-01-01''
      else
        let timeinfo = gmtime_r dt;
            timeinfo = (if tm_year timeinfo < 0 \<or> tm_year timeinfo > 3000
              then timeinfo\<lparr> tm_year := 0, tm_mon := 0, tm_mday := 1 \<rparr> else timeinfo)
        in strftime_date timeinfo)"

definition string_time :: "int \<Rightarrow> string" where
  "string_time dt =
     (if dt > UNIXTIME_50010101 then ''5000-01-01 00:00:00''
      else
        let timeinfo = gmtime_r dt;
            timeinfo = (if tm_year timeinfo < 0 \<or> tm_year timeinfo > 3000
              then \<lparr> tm_year = 0, tm_mon = 0, tm_mday = 1, tm_hour = 0, tm_min = 0, tm_sec = 0 \<rparr> else timeinfo)
        in strftime_date timeinfo @ '' '' @ strftime_clock timeinfo)"

definition mask_first_3dig :: "string \<Rightarrow> string" where
  "mask_first_3dig str = (if length str > 3 then ''000'' @ drop 3 str else str)"

section \<open>Reading\<close>

text \<open>\<open>%d\<close> of \<open>sscanf\<close>, and a format of numbers with characters between them, of which a blank stands for any white space:
  the numbers read before the text stops to match.\<close>

definition scan_int :: "string \<Rightarrow> (int \<times> string) option" where
  "scan_int s =
     (let t = dropWhile is_space s;
          u = (case t of c # cs \<Rightarrow> (if c = CHR ''-'' \<or> c = CHR ''+'' then cs else t) | [] \<Rightarrow> []);
          n = int (digits_value (takeWhile is_digit u))
      in if takeWhile is_digit u = [] then None
         else Some (if t \<noteq> [] \<and> hd t = CHR ''-'' then - n else n, dropWhile is_digit u))"

fun scan_fields :: "string \<Rightarrow> string \<Rightarrow> int list" where
  "scan_fields fmt s =
     (case scan_int s of
        None \<Rightarrow> []
      | Some (v, rest) \<Rightarrow> v # (case fmt of
            [] \<Rightarrow> []
          | c # cs \<Rightarrow>
              if c = CHR '' '' then scan_fields cs (dropWhile is_space rest)
              else if rest \<noteq> [] \<and> hd rest = c then scan_fields cs (tl rest) else []))"

declare scan_fields.simps [simp del]

definition is_int :: "int \<Rightarrow> bool" where
  "is_int v \<longleftrightarrow> - (2 ^ 31) \<le> v \<and> v < 2 ^ 31"

definition parseDate :: "string \<Rightarrow> int option" where
  "parseDate str =
     (let fs = scan_fields ''--'' str in
      if fs = [] then Some 0
      else if length fs < 3 \<or> \<not> list_all is_int fs then None
      else Some (timegm \<lparr> tm_year = fs ! 0 - 1900, tm_mon = fs ! 1 - 1, tm_mday = fs ! 2, tm_hour = 0, tm_min = 0, tm_sec = 0 \<rparr>))"

definition parseDateTime :: "string \<Rightarrow> int option" where
  "parseDateTime str =
     (let fs = scan_fields ''-- ::'' str in
      if fs = [] then Some 0
      else if length fs < 6 \<or> \<not> list_all is_int fs then None
      else Some (timegm \<lparr> tm_year = fs ! 0 - 1900, tm_mon = fs ! 1 - 1, tm_mday = fs ! 2,
                          tm_hour = fs ! 3, tm_min = fs ! 4, tm_sec = fs ! 5 \<rparr>))"

section \<open>There and back\<close>

lemma scan_int_digits:
  assumes "\<And>c. c \<in> set ds \<Longrightarrow> is_digit c" and "ds \<noteq> []" and "rest = [] \<or> \<not> is_digit (hd rest)"
  shows "scan_int (ds @ rest) = Some (int (digits_value ds), rest)"
proof -
  obtain c cs where ds: "ds = c # cs" "is_digit c" using assms(1,2) by (cases ds) auto
  have t: "takeWhile is_digit (ds @ rest) = ds" "dropWhile is_digit (ds @ rest) = rest"
    using assms(1,3) by (cases rest; auto simp: takeWhile_append2 dropWhile_append2)+
  show ?thesis using ds t digit_not_sign by (simp add: scan_int_def Let_def)
qed

lemma two_digits_scan:
  assumes "0 \<le> n" and "n < 100" and "rest = [] \<or> \<not> is_digit (hd rest)"
  shows "scan_int (two_digits n @ rest) = Some (n, rest)"
proof -
  have "digits_value (two_digits n) = nat n"
    using assms(1,2) by (simp add: two_digits_def digits_value_def nat_div_distrib)
  moreover have "is_digit c" if "c \<in> set (two_digits n)" for c using that by (auto simp: two_digits_def)
  moreover have "two_digits n \<noteq> []" by (simp add: two_digits_def)
  ultimately show ?thesis using scan_int_digits [of "two_digits n" rest] assms by simp
qed

lemma year_scan:
  assumes "0 \<le> n" and "rest = [] \<or> \<not> is_digit (hd rest)"
  shows "scan_int (lld n @ rest) = Some (n, rest)"
  using scan_int_digits [of "dec_digits (nat n)" rest] assms dec_digits_all_digits by (simp add: lld_def)

lemma separators [simp]: "\<not> is_digit (CHR ''-'')" "\<not> is_digit (CHR '':'')" "\<not> is_digit (CHR '' '')" "is_space (CHR '' '')"
  by (simp_all add: is_digit_def is_space_def)

lemma two_digits_hd: "two_digits n = c # cs \<Longrightarrow> \<not> is_space c"
  by (auto simp: two_digits_def)

definition tm_ok :: "tm \<Rightarrow> bool" where
  "tm_ok t \<longleftrightarrow> 0 \<le> tm_year t + 1900 \<and> tm_year t + 1900 < 2 ^ 31 \<and> 0 \<le> tm_mon t \<and> tm_mon t < 12 \<and> 1 \<le> tm_mday t \<and> tm_mday t \<le> 31 \<and>
     0 \<le> tm_hour t \<and> tm_hour t < 24 \<and> 0 \<le> tm_min t \<and> tm_min t < 60 \<and> 0 \<le> tm_sec t \<and> tm_sec t < 60"

lemma scan_fields_sep: "scan_int s = Some (v, c # r) \<Longrightarrow> c \<noteq> CHR '' '' \<Longrightarrow> scan_fields (c # fmt) s = v # scan_fields fmt r"
  by (simp add: scan_fields.simps)

lemma scan_date:
  assumes "tm_ok t" and "rest = [] \<or> \<not> is_digit (hd rest)"
  shows "scan_fields (''--'' @ fmt) (strftime_date t @ rest) =
    [tm_year t + 1900, tm_mon t + 1, tm_mday t] @ (case fmt of [] \<Rightarrow> [] | c # cs \<Rightarrow>
      if c = CHR '' '' then scan_fields cs (dropWhile is_space rest)
      else if rest \<noteq> [] \<and> hd rest = c then scan_fields cs (tl rest) else [])"
proof -
  let ?d = "two_digits (tm_mday t) @ rest"
  let ?m = "two_digits (tm_mon t + 1) @ CHR ''-'' # ?d"
  have y: "scan_int (lld (tm_year t + 1900) @ CHR ''-'' # ?m) = Some (tm_year t + 1900, CHR ''-'' # ?m)"
    by (rule year_scan) (use assms(1) in \<open>simp_all add: tm_ok_def\<close>)
  have m: "scan_int ?m = Some (tm_mon t + 1, CHR ''-'' # ?d)" by (rule two_digits_scan) (use assms(1) in \<open>simp_all add: tm_ok_def\<close>)
  have d: "scan_int ?d = Some (tm_mday t, rest)" by (rule two_digits_scan) (use assms in \<open>simp_all add: tm_ok_def\<close>)
  have "scan_fields fmt ?d = tm_mday t # (case fmt of [] \<Rightarrow> [] | c # cs \<Rightarrow>
      if c = CHR '' '' then scan_fields cs (dropWhile is_space rest)
      else if rest \<noteq> [] \<and> hd rest = c then scan_fields cs (tl rest) else [])"
    by (subst scan_fields.simps) (simp add: d)
  then show ?thesis using scan_fields_sep [OF y] scan_fields_sep [OF m] by (simp add: strftime_date_def)
qed

lemma scan_clock:
  assumes "tm_ok t"
  shows "scan_fields ''::'' (strftime_clock t) = [tm_hour t, tm_min t, tm_sec t]"
  using assms two_digits_scan [of "tm_sec t" "[]"] unfolding strftime_clock_def
  by (simp add: tm_ok_def scan_fields.simps two_digits_scan)

lemma gmtime_ok:
  assumes "0 \<le> tm_year (gmtime_r dt)" and "tm_year (gmtime_r dt) \<le> 3000"
  shows "tm_ok (gmtime_r dt)"
proof -
  obtain y m d where c: "civil_of_days (dt div 86400) = (y, m, d)" by (metis prod_cases3)
  have "0 \<le> dt mod 86400" "dt mod 86400 < 86400" "0 \<le> dt mod 3600" "dt mod 3600 < 3600" "0 \<le> dt mod 60" "dt mod 60 < 60" by simp_all
  then show ?thesis using civil_of_days_ranges [OF c] assms by (auto simp: gmtime_r_def c tm_ok_def)
qed

lemma timegm_gmtime: "timegm (gmtime_r dt) = dt"
proof -
  obtain y m d where c: "civil_of_days (dt div 86400) = (y, m, d)" by (metis prod_cases3)
  have days: "days_of_civil y m d = dt div 86400" using days_of_civil_of_days [of "dt div 86400"] c by simp
  have m: "(m - 1) div 12 = 0" "(m - 1) mod 12 = m - 1" using civil_of_days_ranges [OF c] by simp_all
  have "86400 * (dt div 86400) + 3600 * (dt mod 86400 div 3600) + 60 * (dt mod 3600 div 60) + dt mod 60 = dt"
  proof -
    have "dt mod 3600 = dt mod 86400 mod 3600" "dt mod 60 = dt mod 3600 mod 60" by (simp_all add: mod_mod_cancel)
    then show ?thesis using div_mult_mod_eq [of dt 86400] div_mult_mod_eq [of "dt mod 86400" 3600] div_mult_mod_eq [of "dt mod 3600" 60] by linarith
  qed
  then show ?thesis by (simp add: timegm_def gmtime_r_def c days m)
qed

text \<open>C36: a time whose year is from 1900 to 4900, printed as the data base takes it and read back, is the same time.\<close>

theorem string_time_roundtrip:
  assumes "0 \<le> tm_year (gmtime_r dt)" and "tm_year (gmtime_r dt) \<le> 3000" and "dt \<le> UNIXTIME_50010101"
  shows "parseDateTime (string_time dt) = Some dt"
proof -
  let ?t = "gmtime_r dt"
  note ok = gmtime_ok [OF assms(1,2)]
  have blank: "dropWhile is_space ('' '' @ strftime_clock ?t) = strftime_clock ?t"
    by (simp add: strftime_clock_def two_digits_def)
  have "scan_fields ''-- ::'' (strftime_date ?t @ '' '' @ strftime_clock ?t) =
      [tm_year ?t + 1900, tm_mon ?t + 1, tm_mday ?t, tm_hour ?t, tm_min ?t, tm_sec ?t]"
    using scan_date [OF ok, of "'' '' @ strftime_clock ?t" "'' ::''"] scan_clock [OF ok] blank by simp
  moreover have "string_time dt = strftime_date ?t @ '' '' @ strftime_clock ?t" using assms by (simp add: string_time_def Let_def)
  moreover have "timegm \<lparr> tm_year = tm_year ?t, tm_mon = tm_mon ?t, tm_mday = tm_mday ?t, tm_hour = tm_hour ?t, tm_min = tm_min ?t,
      tm_sec = tm_sec ?t \<rparr> = dt" using timegm_gmtime [of dt] by (simp add: timegm_def)
  ultimately show ?thesis using ok
    by (simp add: parseDateTime_def Let_def is_int_def tm_ok_def)
qed

lemma year_2017: "dec_digits 2017 = ''2017''"
  by (simp add: dec_digits.simps [of 2017] dec_digits.simps [of 201] dec_digits.simps [of 20] dec_digits.simps [of 2] digit_char_def)

theorem string_time_roundtrip_witness:
  "0 \<le> tm_year (gmtime_r 1493634030) \<and> tm_year (gmtime_r 1493634030) \<le> 3000 \<and> string_time 1493634030 = ''2017-05-01 10:20:30'' \<and>
   parseDateTime (string_time 1493634030) = Some 1493634030"
proof -
  have days: "(1493634030 :: int) div 86400 = 17287" "(1493634030 :: int) mod 86400 div 3600 = 10" "(1493634030 :: int) mod 3600 div 60 = 20"
    "(1493634030 :: int) mod 60 = 30" by simp_all
  have "civil_of_days 17287 = (2017, 5, 1)" by code_simp
  then have g: "gmtime_r 1493634030 = \<lparr> tm_year = 117, tm_mon = 4, tm_mday = 1, tm_hour = 10, tm_min = 20, tm_sec = 30 \<rparr>"
    unfolding gmtime_r_def days by simp
  have "string_time 1493634030 = ''2017-05-01 10:20:30''"
    unfolding string_time_def g by (simp add: UNIXTIME_50010101_def strftime_date_def strftime_clock_def two_digits_def lld_def year_2017 digit_char_def)
  then show ?thesis using string_time_roundtrip [of 1493634030] by (simp add: g UNIXTIME_50010101_def)
qed

lemma year_1900: "dec_digits 1900 = ''1900''"
  by (simp add: dec_digits.simps [of 1900] dec_digits.simps [of 190] dec_digits.simps [of 19] dec_digits.simps [of "Suc 0"] digit_char_def)

text \<open>Times of the years 4901 to 5000 are printed as the first second of 1900.\<close>

theorem string_time_late:
  assumes "3000 < tm_year (gmtime_r dt)" and "dt \<le> UNIXTIME_50010101"
  shows "string_time dt = ''1900-01-01 00:00:00''"
  using assms by (simp add: string_time_def Let_def strftime_date_def strftime_clock_def two_digits_def lld_def year_1900 digit_char_def)

text \<open>A date is read back as the start of its day.\<close>

theorem string_date_roundtrip:
  assumes "0 \<le> tm_year (gmtime_r dt)" and "tm_year (gmtime_r dt) \<le> 3000" and "dt \<le> UNIXTIME_50010101"
  shows "parseDate (string_date dt) = Some (get_tday dt 0)"
proof -
  obtain y m d where c: "civil_of_days (dt div 86400) = (y, m, d)" by (metis prod_cases3)
  let ?t = "gmtime_r dt"
  note ok = gmtime_ok [OF assms(1,2)]
  have "scan_fields ''--'' (strftime_date ?t) = [tm_year ?t + 1900, tm_mon ?t + 1, tm_mday ?t]"
    using scan_date [OF ok, of "[]" "[]"] by simp
  moreover have "string_date dt = strftime_date ?t" using assms by (simp add: string_date_def Let_def)
  moreover have "(m - 1) div 12 = 0" "(m - 1) mod 12 = m - 1" using civil_of_days_ranges [OF c] by simp_all
  ultimately show ?thesis using ok
    by (simp add: parseDate_def Let_def is_int_def tm_ok_def gmtime_r_def c timegm_def get_tday_def timegm_date_def)
qed

end
