(* ===== verification/Spec2Isabelle.thy ===== *)
theory Spec2Isabelle
  imports Table_Properties Billing_Properties Save_Properties Loop_Properties Radius_Samples Prefix_Tree_Samples Cdr_Samples
    Black_List_Properties Sync_Results Data_Flow Thread_Pool Date_Text
begin

text \<open>
  A model of the telephone billing daemon under \<open>src/src-bill\<close>.

  \<^bold>\<open>The program.\<close> The daemon fetches files of call records from the switch and stores them, reads the records
  (CDRs), splits every call into an originating and a terminating leg, prices each leg against tables replicated from
  the central data base and keeps counters of what accounts, packages and trunks have used. The tables are lists of
  rows, sorted by the query that loads them and searched by bisection; the \<open>Repository\<close> bundles them. A leg is priced
  by \<open>BillingCall\<close>, statement by statement, on a \<open>Call\<close>, a \<open>CallInfo\<close> and the CDR. Priced calls and counters wait in the
  \<open>DataBillingContainer\<close>, and a thread saves them partition by partition while pricing goes on. Before a call is
  set up the switch asks a RADIUS server whether and where to route it, which prices the call as if it had begun.
  Accounts beyond a limit are locked: a thread computes the locks, another sends them to the central data base, a third
  bars numbers and trunks at the switch over UDP, a fourth cuts off calls in progress. The tables are replicated from the
  central data base by one thread, driven by a queue of events there, and loaded into the lists in memory by another,
  driven by a queue of events in the local data base; priced calls and call records are copied back to the central
  data base month by month. Every thread runs the loop of the class \<open>Thread\<close> and is registered in a pool.

  \<^bold>\<open>The theories.\<close>
  \<^item> \<open>Voip_Prelude\<close>: results (\<open>exc\<close> for expressions, \<open>outcome\<close> for statements: \<open>Next\<close>, \<open>Stop\<close> for a
    \<open>CalcException\<close>, \<open>Fault\<close> for what is undefined behaviour or an uncaught exception), the C functions on
    texts and numbers (\<open>atoll\<close>, \<open>sprintf("%lld")\<close>, \<open>strstr\<close>), bisection and sorting, with their laws; the
    locale of searches by longest prefix.
  \<^item> \<open>Calendar\<close>: \<open>get_tday\<close>, \<open>get_tmonth\<close> and their ends of \<open>common.cpp\<close>, over the civil calendar.
  \<^item> \<open>Models\<close>: the structures of \<open>models/\<close> as records, with their methods.
  \<^item> \<open>Obj_Lists\<close>: the lists of \<open>lists/\<close>. The locales \<open>keyed_list\<close> and \<open>dated_prefixes\<close> give the contracts of
    the searches by identifier and by prefix and date, and are interpreted on the lists.
  \<^item> \<open>Number_Range_Tree\<close>: the AVL tree of \<open>NNPNumberRangeList.h\<close>.
  \<^item> \<open>Stats_Managers\<close>: the counters of the five \<open>Stats...Manager\<close> classes, with a locale for the four that
    share one design (rows by identifier, partitions waiting to be saved, changes to be synchronised).
  \<^item> \<open>Repository\<close>: \<open>Repository.cpp\<close> and \<open>Repository_npp.cpp\<close>.
  \<^item> \<open>Mega_Trunk\<close>: \<open>StateMegaTrunk.cpp\<close>.
  \<^item> \<open>Billing_Steps\<close>, \<open>Billing_NNP\<close>, \<open>Billing_Call\<close>: \<open>BillingCall.cpp\<close> and \<open>BillingCall_nnp.cpp\<close>, the statements
    first, then \<open>calcByTrunk\<close>, \<open>calcByNumber\<close> and \<open>calc\<close>.
  \<^item> \<open>Data_Container\<close>: \<open>CdrManager.cpp\<close>, \<open>CallsManager.cpp\<close> and \<open>DataBillingContainer.cpp\<close>; \<open>Save_Journal\<close>, \<open>Save_System\<close>: the
    tables a save writes, and saving, pricing and synchronising as interleaved steps; \<open>Save_Invariant\<close>,
    \<open>Save_Properties\<close>: the invariant of the steps and the ledger they refine.
  \<^item> \<open>Billing_Loop\<close>, \<open>Loop_Properties\<close>: \<open>Billing.cpp\<close>.
  \<^item> \<open>Radius_Auth\<close>: \<open>RadiusAuthProcessor.cpp\<close> and \<open>processRequest\<close> of \<open>RadiusAuthServer.cpp\<close>; \<open>Radius_Routes\<close>,
    \<open>Radius_Properties\<close>, \<open>Radius_Samples\<close>: the search of the route tables, the answers, the witnesses.
  \<^item> \<open>Prefix_Tree\<close>: \<open>nnp/PrefixNode.cpp\<close>, \<open>nnp/PrefixTree.cpp\<close> and the two functions of \<open>Repository_npp.cpp\<close> that use them;
    \<open>Prefix_Tree_Ranges\<close>, \<open>Prefix_Tree_Properties\<close>, \<open>Prefix_Tree_Minus\<close>, \<open>Prefix_Tree_Samples\<close>: adding ranges, printing,
    taking away, examples.
  \<^item> \<open>Cdr_Parser\<close>, \<open>Cdr_Properties\<close>, \<open>Cdr_Samples\<close>: \<open>CdrParser.cpp\<close> and \<open>ThreadCdrParser.cpp\<close>.
  \<^item> \<open>Client_Locks\<close>, \<open>Lock_Sync\<close>, \<open>Lock_Properties\<close>: \<open>ClientLockCounter.h\<close>, \<open>ActiveCounter.h\<close>, \<open>ThreadClientLock.cpp\<close>,
    \<open>ThreadLimitControl.cpp\<close>, and \<open>ThreadSyncLocks.cpp\<close> interleaved with them.
  \<^item> \<open>Black_Lists\<close>, \<open>Black_List_Properties\<close>: \<open>UdpControlClient.cpp\<close>, \<open>BlackList.cpp\<close> with its instances,
    \<open>ThreadBlacklistCalc.cpp\<close>, \<open>ThreadBlacklistFetch.cpp\<close> and \<open>ThreadCheckStartTable.cpp\<close>.
  \<^item> \<open>Pull_Tables\<close>, \<open>Pull_Manager\<close>: the 52 tables of \<open>sync/\<close> that \<open>ThreadSync.cpp\<close> registers, \<open>BasePull.cpp\<close> and \<open>ManagerPull.cpp\<close>
    interleaved with changes of the central tables; \<open>Pull_Properties\<close>, \<open>Pull_Results\<close>, \<open>Pull_Samples\<close>: the invariant, the results,
    the witnesses.
  \<^item> \<open>Data_Loader\<close>, \<open>Loader_Properties\<close>: \<open>DataContainer.cpp\<close>, \<open>ThreadLoader.cpp\<close> and \<open>ThreadUpdateActiveClients.cpp\<close> interleaved with
    changes of the local tables and the passing of time;
    \<open>Data_Flow\<close>: replication and loading together.
  \<^item> \<open>Central_Sync\<close>, \<open>Sync_Properties\<close>, \<open>Sync_Results\<close>: \<open>ThreadSyncCalls.cpp\<close> and \<open>ThreadSyncCdrs.cpp\<close>; the locales \<open>marked_copy\<close> and
    \<open>month_copy\<close> give the contract the three copies share and are interpreted on each of them.
  \<^item> \<open>Thread_Pool\<close>: \<open>Thread.cpp\<close>, \<open>ThreadPool.cpp\<close> and the status of \<open>App.cpp\<close>; \<open>Date_Text\<close>: printing and reading of dates of
    \<open>common.cpp\<close>.
  \<^item> \<open>Sample_Data\<close>, \<open>Table_Properties\<close>, \<open>Billing_Properties\<close>: rows for the witnesses, and the properties of the tables
    and of pricing.

  \<^bold>\<open>The correspondence.\<close> A row is a record whose fields carry a short prefix (\<open>c_cost\<close> for \<open>Call::cost\<close>); a
  pointer into a table is an optional row; a list is the list of its rows in the order loaded. \<open>int\<close>,
  \<open>long long\<close> and \<open>time_t\<close> are integers, with the clamping and wrap-around of the conversions written out in
  the functions on texts (sums of seconds are not wrapped: \<open>getCallLength\<close> agrees with the source for calls of up to
  \<open>2 ^ 31 - 61\<close> seconds); \<open>double\<close> is a real number, so that costs are stated without rounding errors; a
  \<open>char[]\<close> is a text, and an overrun of its bound is a fault. The state of the pricing of a leg is the
  record \<open>BillingState\<close>: the repository, the leg, the pointers found so far, the CDR, the collecting trunk
  and the counters of the data container; the state of a request is \<open>RadiusState\<close>. \<open>time(nullptr)\<close> is the field \<open>rp_now\<close> of
  the repository. Where \<open>std::sort\<close> may permute equal elements the model sorts stably, and a \<open>std::set\<close> of pointers is
  ordered by the position of the rows in their list; a \<open>std::map\<close> or \<open>std::set\<close> of keys is a list in the order of its
  keys.

  \<^bold>\<open>Parameters.\<close> What is not under \<open>src/\<close> or is left open by the language is an argument: the MD5 digest, the FTP
  server and the stored procedures of the record parser; the switch behind the UDP socket, which answers depending on
  the exchanges so far; the insertion of lock rows (\<open>replaces_rows\<close>: a row replaces one of the same account, as the
  program relies on when it sends changed rows); the order of evaluation of \<open>set(k, alloc())\<close> (\<open>args_first\<close>); what is
  read through \<open>end()\<close> in \<open>ClientLockCounter::push\<close> (\<open>past_end\<close>); the answers of \<open>prepare\<close>, \<open>ready\<close> and \<open>run\<close> in the
  threads, and the status others give a thread meanwhile; the records that arrive in each round of the billing loop (\<open>arrive\<close>). For
  replication: the conditions the \<open>where\<close> clauses amount to in the course of a run (\<open>sqls\<close>, a set, since the clause of \<open>PullDefs.h\<close>
  reads the clock and another table), what the triggers of the central and of the local tables promise (\<open>announced\<close>,
  \<open>local_announced\<close>: every change puts a new event into the queue), the name of the event of a local table (\<open>local_event\<close>; in
  \<open>table_event\<close>, as the trigger script of the repository has it, the name of the table without its schema, with which the lists of the
  numbering plan are not followed), what the query of a list gives (\<open>reads_only\<close>: it looks at its tables only, and the queries of
  \<open>ClientList\<close> and \<open>CurrencyRateList\<close> at the clock too) and what \<open>ActiveCounter::load\<close> makes of two lists, the time and the
  counter in use. For the copies: the months before and after a month. The flag
  \<open>ms_overflow\<close> is not in the program; it records that more events waited than one part takes.

  \<^bold>\<open>What is shown.\<close>
  \<^item> The tables: searches return what a scan of the table would, the longest prefix, the shortest number range. The
    decimal trie contains exactly the ranges added; the prefixes of a destination cover no excluded number.
  \<^item> The counters: they stay well formed, updates made during a save are not lost, and changes given back are sent again.
  \<^item> The pricing: no exception leaves \<open>calc\<close>, the leg keeps its identity, cost and package credit add up to the billed
    time at the rate, packages and free minutes are not used beyond what was paid; billed time is the documented
    rounding of the length of the call.
  \<^item> The loop and the save: a run of the loop ends once records cease to arrive, prices the queue and what arrives meanwhile in
    order, adds exactly two legs for each record that is no technical leg, and stops for stated reasons only; however pricing, saving and
    failures interleave, every call is stored once and the stored counters match the stored calls; the whole refines a
    ledger, and from every reachable state everything can be stored.
  \<^item> Authorisation: the cases in which a call is refused are listed exactly (an account that is not found, or a limit or block
    without an outcome), everything else that returns accepts it; requests end when no
    route table leads back to itself; a call that crosses a limit holds back further ones for a minute; automatic routes
    name allowed trunks only.
  \<^item> Call records: a file is cut exactly at its tags, files are taken in their order and each once; a file with one bad
    record is dropped.
  \<^item> Locks: they follow the limits, the switch bars exactly the numbers and trunks of locked accounts once it confirms,
    calls in progress of locked accounts that leave the local zone are cut off, with the exemptions of the code; a lock is never lost on its way to the central data base, its
    removal can be.
  \<^item> Replication: the 52 descriptions are consistent; no change of a central table is lost on its way to the local table
    and to the lists in memory as long as no more than 100 events wait at once, and events beyond that are lost; once
    both queues are empty the tables and the lists that are followed are up to date. The lists of the numbering plan are never
    loaded again when events are named without schemas.
  \<^item> Copies: the central tables hold each local row once and in the order of identifiers; every run ends and completes
    the months it looks at; a call of an older month that is passed by is lost for good.
  \<^item> Threads: a thread runs only when it is ready and prepared; exceptions do not end it, unless it was started for a number
    of runs. Dates: printing and reading are
    inverse for the years 1900 to 4900.

  \<^bold>\<open>Loops.\<close> Every loop of the modelled code is bounded by the data it runs over or has a termination proof
  (\<open>raw_calls\<close>, \<open>run_parser\<close>). The billing loop (\<open>calc_loop\<close>) goes on as long as records arrive: it is a partial function with values
  in \<open>option\<close>, and that it returns once they cease is a theorem. The loop of replication may go on as long as events arrive or fetching fails;
  that it ends otherwise is a theorem. The loops of the copies are \<open>while_option\<close>, and that they end is a theorem.
  Two recursions may not end in the source and carry a bound: \<open>processRouteTable\<close> with the depth of the recursion, for which any bound above the number of tables gives the same result when no
  table leads back to itself; \<open>print\<close>, \<open>addNode\<close> and \<open>subNode\<close> of the trie with 31, the length of the buffer \<open>print\<close>
  writes to, which is more than the digits of any number.

  \<^bold>\<open>Not modelled.\<close> The scheduling of threads beyond the interleavings above; operating system threads; the
  threads that only call other components and the recalculation of a month (\<open>TaskRecalc\<close>); the text of SQL queries and the
  connection to the data base; the printing of sums with six digits (stored sums are exact here); the recalculation of counters from stored calls and the creation
  of monthly tables by a save; \<open>logFinishedCall\<close>, logs and traces; sockets; web pages and health checks; vendored
  libraries.
\<close>

end
